(* ===== verification/Prelude.thy ===== *)
theory Prelude
  imports Main "HOL-Library.Word" "HOL-Library.List_Lexorder" "HOL-Library.Char_ord"
    "HOL-Library.Multiset"
begin

text \<open>
  Shared vocabulary of the development: the machine integers and byte strings of the Go
  sources, the result type that carries Go's error values, and generic lemmas on results,
  lists and words that the component theories use.

  Correspondence with Go:
  \<^item> \<open>[]byte\<close> is \<open>bytes\<close> (a list of 8-bit words; a nil and an empty slice are both \<open>[]\<close>),
    \<open>string\<close> is \<open>string\<close> (a list of 8-bit characters, Go strings being byte strings);
  \<^item> \<open>int64\<close> and \<open>int\<close> are \<open>i64\<close>, a 64-bit word read with \<open>sint\<close>, so that Go's
    wrap-around is the word's; \<open>uint32\<close>, \<open>uint64\<close> are \<open>u32\<close>, \<open>u64\<close>, read with \<open>unat\<close>;
  \<^item> a function that returns \<open>(T, error)\<close> returns \<open>T result\<close>: \<open>Inl e\<close> for a non-nil error,
    \<open>Inr v\<close> otherwise. \<open>Errorf s\<close> is \<open>fmt.Errorf\<close> with its format string \<open>s\<close> (the values
    interpolated into the message are not kept), \<open>Wrapf s e\<close> is \<open>fmt.Errorf("s: %w", e)\<close>,
    and the sentinels that callers compare against are constructors of their own.
\<close>

unbundle bit_operations_syntax

named_theorems res_simps \<open>rewriting of result binds\<close>
named_theorems enc_inject \<open>injectivity of byte encodings\<close>

section \<open>Machine types\<close>

type_synonym byte = "8 word"
type_synonym bytes = "byte list"
type_synonym u16 = "16 word"
type_synonym u32 = "32 word"
type_synonym u64 = "64 word"
type_synonym i64 = "64 word"

definition max_i64 :: i64 where
  "max_i64 = 9223372036854775807"

lemma sint_max_i64 [simp]: "sint max_i64 = 2 ^ 63 - 1"
  by (simp add: max_i64_def)

lemma i64_lower: "- (2 ^ 63) \<le> sint (a :: i64)"
  using sint_range_size [of a] by (simp add: word_size)

lemma i64_upper: "sint (a :: i64) < 2 ^ 63"
  using sint_range_size [of a] by (simp add: word_size)

lemma i64_le_max: "sint (a :: i64) \<le> 9223372036854775807"
  using i64_upper [of a] by simp

lemma i64_ge_min: "- 9223372036854775808 \<le> sint (a :: i64)"
  using i64_lower [of a] by simp

lemma sint_add_i64:
  assumes "- (2 ^ 63) \<le> sint a + sint b" and "sint a + sint b < 2 ^ 63"
  shows "sint (a + b :: i64) = sint a + sint b"
  using assms by (simp add: sint_word_ariths signed_take_bit_int_eq_self)

lemma sint_sub_i64:
  assumes "- (2 ^ 63) \<le> sint a - sint b" and "sint a - sint b < 2 ^ 63"
  shows "sint (a - b :: i64) = sint a - sint b"
  using assms by (simp add: sint_word_ariths signed_take_bit_int_eq_self)

lemma sint_of_int_i64: "0 \<le> w \<Longrightarrow> w < 2 ^ 63 \<Longrightarrow> sint (word_of_int w :: i64) = w"
  by (simp add: signed_take_bit_int_eq_self sint_sbintrunc')

lemma sint_max_minus:
  assumes "0 \<le> sint b"
  shows "sint (max_i64 - b) = 2 ^ 63 - 1 - sint b"
  using assms i64_upper [of b] by (subst sint_sub_i64) simp_all

section \<open>Errors and results\<close>

datatype error =
    Errorf string
  | Wrapf string error
  | ErrNoRows
  | ErrConstraint
  | ErrIO
  | ErrPeriodAllowanceExceeded
  | ErrVtxoOperationActive
  | ErrRecoveryBusy
  | AppErr string string

type_synonym 'a result = "error + 'a"

definition bindR :: "'a result \<Rightarrow> ('a \<Rightarrow> 'b result) \<Rightarrow> 'b result" where
  "bindR m f = (case m of Inl e \<Rightarrow> Inl e | Inr x \<Rightarrow> f x)"

lemma bindR_Inl [simp]: "bindR (Inl e) f = Inl e"
  by (simp add: bindR_def)

lemma bindR_Inr [simp]: "bindR (Inr x) f = f x"
  by (simp add: bindR_def)

lemma bindR_eq_Inr [res_simps]: "bindR m f = Inr y \<longleftrightarrow> (\<exists>x. m = Inr x \<and> f x = Inr y)"
  by (cases m) simp_all

lemma bindR_eq_Inl [res_simps]:
  "bindR m f = Inl e \<longleftrightarrow> m = Inl e \<or> (\<exists>x. m = Inr x \<and> f x = Inl e)"
  by (cases m) simp_all

lemma if_Inl_eq_Inr [res_simps]: "(if c then Inl e else m) = Inr x \<longleftrightarrow> \<not> c \<and> m = Inr x"
  by simp

lemma bindR_assoc: "bindR (bindR m f) g = bindR m (\<lambda>x. bindR (f x) g)"
  by (cases m) simp_all

lemma bindR_cong [fundef_cong]:
  "m = m' \<Longrightarrow> (\<And>x. m' = Inr x \<Longrightarrow> f x = f' x) \<Longrightarrow> bindR m f = bindR m' f'"
  by (cases m') simp_all

text \<open>\<open>wrapR s m\<close> is Go's \<open>if err := m; err != nil { return fmt.Errorf("s: %w", err) }\<close>.\<close>

definition wrapR :: "string \<Rightarrow> 'a result \<Rightarrow> 'a result" where
  "wrapR s m = (case m of Inl e \<Rightarrow> Inl (Wrapf s e) | Inr x \<Rightarrow> Inr x)"

lemma wrapR_Inr [simp]: "wrapR s (Inr x) = Inr x"
  by (simp add: wrapR_def)

lemma wrapR_Inl [simp]: "wrapR s (Inl e) = Inl (Wrapf s e)"
  by (simp add: wrapR_def)

lemma wrapR_eq_Inr [res_simps]: "wrapR s m = Inr x \<longleftrightarrow> m = Inr x"
  by (cases m) simp_all

text \<open>\<open>mapR\<close> runs a fallible function over a list and stops at the first error, as a Go
  loop with an early return does; \<open>eachR\<close> is the loop that keeps no result.\<close>

fun mapR :: "('a \<Rightarrow> 'b result) \<Rightarrow> 'a list \<Rightarrow> 'b list result" where
  "mapR f [] = Inr []"
| "mapR f (x # xs) = bindR (f x) (\<lambda>y. bindR (mapR f xs) (\<lambda>ys. Inr (y # ys)))"

fun eachR :: "('a \<Rightarrow> unit result) \<Rightarrow> 'a list \<Rightarrow> unit result" where
  "eachR f [] = Inr ()"
| "eachR f (x # xs) = bindR (f x) (\<lambda>_. eachR f xs)"

lemma mapR_length: "mapR f xs = Inr ys \<Longrightarrow> length ys = length xs"
  by (induction xs arbitrary: ys) (auto simp: res_simps)

lemma mapR_nth: "mapR f xs = Inr ys \<Longrightarrow> i < length xs \<Longrightarrow> f (xs ! i) = Inr (ys ! i)"
  by (induction xs arbitrary: ys i) (auto simp: res_simps nth_Cons split: nat.splits)

lemma mapR_append:
  "mapR f (xs @ zs) = bindR (mapR f xs) (\<lambda>ys. bindR (mapR f zs) (\<lambda>ws. Inr (ys @ ws)))"
  by (induction xs) (auto simp: bindR_assoc bindR_def split: sum.splits)

lemma mapR_Inr_eq: "mapR (\<lambda>x. Inr (f x)) xs = Inr (map f xs)"
  by (induction xs) simp_all

lemma mapR_set: "mapR f xs = Inr ys \<Longrightarrow> y \<in> set ys \<Longrightarrow> \<exists>x \<in> set xs. f x = Inr y"
  by (induction xs arbitrary: ys) (auto simp: res_simps)

lemma mapR_iff:
  "mapR f xs = Inr ys \<longleftrightarrow> (\<forall>x \<in> set xs. \<exists>y. f x = Inr y) \<and> ys = map (\<lambda>x. projr (f x)) xs"
  by (induction xs arbitrary: ys) (auto simp: res_simps)

lemma map_mapR: "mapR f xs = Inr ys \<Longrightarrow> map Inr ys = map f xs"
  by (induction xs arbitrary: ys) (auto simp: res_simps)

lemma eachR_iff: "eachR f xs = Inr () \<longleftrightarrow> (\<forall>x \<in> set xs. f x = Inr ())"
  by (induction xs) (auto simp: res_simps)

section \<open>Lists and tables\<close>

text \<open>
  A SQL table is the list of its rows in insertion order. \<open>find_row p t\<close> is a
  \<open>QueryRow\<close> whose \<open>WHERE\<close> clause is \<open>p\<close> (no row is \<open>None\<close>, Go's \<open>sql.ErrNoRows\<close>);
  \<open>update_rows p f t\<close> is an \<open>UPDATE\<close>, \<open>affected p t\<close> its \<open>RowsAffected\<close>.
\<close>

definition find_row :: "('r \<Rightarrow> bool) \<Rightarrow> 'r list \<Rightarrow> 'r option" where
  "find_row p t = List.find p t"

definition update_rows :: "('r \<Rightarrow> bool) \<Rightarrow> ('r \<Rightarrow> 'r) \<Rightarrow> 'r list \<Rightarrow> 'r list" where
  "update_rows p f t = map (\<lambda>r. if p r then f r else r) t"

definition affected :: "('r \<Rightarrow> bool) \<Rightarrow> 'r list \<Rightarrow> nat" where
  "affected p t = length (filter p t)"

lemma find_row_Some: "find_row p t = Some r \<Longrightarrow> r \<in> set t \<and> p r"
  by (auto simp: find_row_def find_Some_iff)

lemma find_row_None: "find_row p t = None \<longleftrightarrow> (\<forall>r \<in> set t. \<not> p r)"
  by (auto simp: find_row_def find_None_iff)

lemma find_row_Nil [simp]: "find_row p [] = None"
  by (simp add: find_row_def)

lemma find_row_Cons [simp]:
  "find_row p (r # t) = (if p r then Some r else find_row p t)"
  by (simp add: find_row_def)

lemma find_row_append:
  "find_row p (t @ u) = (case find_row p t of Some r \<Rightarrow> Some r | None \<Rightarrow> find_row p u)"
  by (induction t) simp_all

lemma length_update_rows [simp]: "length (update_rows p f t) = length t"
  by (simp add: update_rows_def)

lemma set_update_rows:
  "set (update_rows p f t) = f ` {r \<in> set t. p r} \<union> {r \<in> set t. \<not> p r}"
  by (auto simp: update_rows_def)

lemma map_update_rows_key:
  "(\<And>r. k (f r) = k r) \<Longrightarrow> map k (update_rows p f t) = map k t"
  by (simp add: update_rows_def)

lemma update_rows_no_match: "(\<forall>r \<in> set t. \<not> p r) \<Longrightarrow> update_rows p f t = t"
  by (induction t) (simp_all add: update_rows_def)

text \<open>With a unique key, a lookup by key finds exactly the row that holds it.\<close>

lemma find_row_key:
  assumes "distinct (map k t)" and "r \<in> set t"
  shows "find_row (\<lambda>x. k x = k r) t = Some r"
  using assms by (induction t) (auto simp: rev_image_eqI)

lemma key_unique:
  assumes "distinct (map k t)" and "r \<in> set t" and "s \<in> set t" and "k r = k s"
  shows "r = s"
  using assms by (metis distinct_map inj_onD)

lemma sum_list_filter_le:
  fixes f :: "'a \<Rightarrow> int"
  assumes "\<And>x. x \<in> set xs \<Longrightarrow> 0 \<le> f x" and "\<And>x. x \<in> set xs \<Longrightarrow> p x \<Longrightarrow> q x"
  shows "sum_list (map f (filter p xs)) \<le> sum_list (map f (filter q xs))"
  using assms by (induction xs) fastforce+

lemma sum_list_filter_nonneg:
  fixes f :: "'a \<Rightarrow> int"
  assumes "\<And>x. x \<in> set xs \<Longrightarrow> 0 \<le> f x"
  shows "0 \<le> sum_list (map f (filter p xs))"
  using assms by (induction xs) auto

section \<open>Keyed rows\<close>

text \<open>
  The contract of a table with an \<open>INSERT \<dots> ON CONFLICT DO UPDATE\<close>: after it the row of its key
  is the merge of the stored and the new row, and the rows of all other keys are untouched.
\<close>

locale keyed_upsert =
  fixes look :: "'k \<Rightarrow> 'd \<Rightarrow> 'r option"
    and key_of :: "'r \<Rightarrow> 'k"
    and upsert :: "'r \<Rightarrow> 'd \<Rightarrow> 'd result"
    and merge :: "'r option \<Rightarrow> 'r \<Rightarrow> 'r"
  assumes look_upsert: "upsert r d = Inr d' \<Longrightarrow> look (key_of r) d' = Some (merge (look (key_of r) d) r)"
    and look_other: "upsert r d = Inr d' \<Longrightarrow> k \<noteq> key_of r \<Longrightarrow> look k d' = look k d"
begin

text \<open>A run of upserts, stopping at the first failure, leaves the keys it does not write alone.\<close>

fun run :: "'r list \<Rightarrow> 'd \<Rightarrow> 'd result" where
  "run [] d = Inr d"
| "run (r # rs) d = bindR (upsert r d) (run rs)"

lemma look_run_other: "run rs d = Inr d' \<Longrightarrow> k \<notin> key_of ` set rs \<Longrightarrow> look k d' = look k d"
  by (induction rs arbitrary: d) (auto simp: res_simps look_other)

lemma look_run_last:
  assumes "run (rs @ r # qs) d = Inr d'" and "key_of r \<notin> key_of ` set qs"
  shows "\<exists>e. look (key_of r) d' = Some (merge e r)"
  using assms
proof (induction rs arbitrary: d)
  case Nil
  then obtain d1 where "upsert r d = Inr d1" "run qs d1 = Inr d'" by (auto simp: res_simps)
  with look_run_other [of qs d1 d' "key_of r"] look_upsert Nil.prems(2) show ?case by auto
qed (auto simp: res_simps)

end

lemma find_row_update:
  assumes "\<And>x. k (f x) = k0"
  shows "find_row (\<lambda>x. k x = k0) (update_rows (\<lambda>x. k x = k0) f t) = map_option f (find_row (\<lambda>x. k x = k0) t)"
  using assms by (induction t) (auto simp: update_rows_def)

lemma find_row_update_other:
  assumes "\<And>x. k (f x) = k0" and "k1 \<noteq> k0"
  shows "find_row (\<lambda>x. k x = k1) (update_rows (\<lambda>x. k x = k0) f t) = find_row (\<lambda>x. k x = k1) t"
  using assms by (induction t) (auto simp: update_rows_def)

end
