(* ===== verification/Bytes.thy ===== *)
theory Bytes
  imports Prelude
begin

text \<open>
  The parts of Go's \<open>encoding/binary\<close>, \<open>encoding/hex\<close>, \<open>strconv\<close>, \<open>strings\<close> and \<open>bytes\<close>
  packages that the sources use, with the round trips and injectivity facts their callers
  rely on. \<open>ToLower\<close> and \<open>TrimSpace\<close> are modelled on ASCII: no other code point folds to a
  hexadecimal digit, which is what the callers look for.
\<close>

section \<open>Strings as bytes\<close>

definition char_byte :: "char \<Rightarrow> byte" where
  "char_byte c = word_of_nat (of_char c)"

definition str_bytes :: "string \<Rightarrow> bytes" where
  "str_bytes s = map char_byte s"

definition byte_char :: "byte \<Rightarrow> char" where
  "byte_char b = char_of (unat b)"

definition bytes_str :: "bytes \<Rightarrow> string" where
  "bytes_str b = map byte_char b"

lemma of_char_less: "(of_char c :: nat) < 256"
proof -
  have "(of_char c :: nat) mod 256 < 256" by simp
  then show ?thesis by simp
qed

lemma unat_char_byte [simp]: "unat (char_byte c) = of_char c"
  using of_char_less [of c] by (simp add: char_byte_def unat_of_nat take_bit_nat_eq_self)

lemma byte_char_char_byte [simp]: "byte_char (char_byte c) = c"
  by (simp add: byte_char_def)

lemma char_byte_byte_char [simp]: "char_byte (byte_char b) = b"
proof -
  have "unat b < 256" using unsigned_less [of b] by simp
  then show ?thesis by (simp add: char_byte_def byte_char_def)
qed

lemma char_byte_eq_iff [simp]: "char_byte c = char_byte d \<longleftrightarrow> c = d"
  by (metis byte_char_char_byte)

lemma bytes_str_str_bytes [simp]: "bytes_str (str_bytes s) = s"
  by (simp add: bytes_str_def str_bytes_def o_def)

lemma str_bytes_bytes_str [simp]: "str_bytes (bytes_str b) = b"
  by (simp add: bytes_str_def str_bytes_def o_def)

lemma str_bytes_eq_iff [simp]: "str_bytes s = str_bytes t \<longleftrightarrow> s = t"
  by (metis bytes_str_str_bytes)

lemma length_str_bytes [simp]: "length (str_bytes s) = length s"
  by (simp add: str_bytes_def)

lemma length_bytes_str [simp]: "length (bytes_str b) = length b"
  by (simp add: bytes_str_def)

lemma str_bytes_append: "str_bytes (s @ t) = str_bytes s @ str_bytes t"
  by (simp add: str_bytes_def)

lemma str_bytes_eq_Nil [simp]: "str_bytes s = [] \<longleftrightarrow> s = []"
  by (simp add: str_bytes_def)

section \<open>Integers as bytes\<close>

text \<open>\<open>binary.LittleEndian.AppendUint16/32/64\<close> and \<open>binary.BigEndian.PutUint32/64\<close>.\<close>

definition le_bytes :: "nat \<Rightarrow> 'a::len word \<Rightarrow> bytes" where
  "le_bytes k v = map (\<lambda>i. ucast (drop_bit (8 * i) v)) [0..<k]"

definition le16 :: "u16 \<Rightarrow> bytes" where "le16 v = le_bytes 2 v"
definition le32 :: "u32 \<Rightarrow> bytes" where "le32 v = le_bytes 4 v"
definition le64 :: "u64 \<Rightarrow> bytes" where "le64 v = le_bytes 8 v"
definition be32 :: "u32 \<Rightarrow> bytes" where "be32 v = rev (le_bytes 4 v)"
definition be64 :: "u64 \<Rightarrow> bytes" where "be64 v = rev (le_bytes 8 v)"

lemmas int_bytes_defs = le16_def le32_def le64_def be32_def be64_def

lemma length_le_bytes [simp]: "length (le_bytes k v) = k"
  by (simp add: le_bytes_def)

lemma length_int_bytes [simp]:
  "length (le16 a) = 2" "length (le32 b) = 4" "length (le64 c) = 8"
  "length (be32 b) = 4" "length (be64 c) = 8"
  by (simp_all add: int_bytes_defs)

lemma le_bytes_inject:
  fixes v w :: "'a::len word"
  assumes width: "LENGTH('a) \<le> 8 * k" and eq: "le_bytes k v = le_bytes k w"
  shows "v = w"
proof (rule bit_word_eqI)
  fix n assume n: "n < LENGTH('a)"
  let ?i = "n div 8"
  from n width have i: "?i < k" by auto
  from eq have "le_bytes k v ! ?i = le_bytes k w ! ?i" by simp
  with i have "(ucast (drop_bit (8 * ?i) v) :: byte) = ucast (drop_bit (8 * ?i) w)"
    by (simp add: le_bytes_def)
  then have "bit (ucast (drop_bit (8 * ?i) v) :: byte) (n mod 8) =
      bit (ucast (drop_bit (8 * ?i) w) :: byte) (n mod 8)"
    by simp
  then show "bit v n = bit w n"
    by (simp add: bit_simps)
qed

lemma int_bytes_eq_iff [simp]:
  "le16 a = le16 a' \<longleftrightarrow> a = a'" "le32 b = le32 b' \<longleftrightarrow> b = b'"
  "le64 c = le64 c' \<longleftrightarrow> c = c'" "be32 b = be32 b' \<longleftrightarrow> b = b'" "be64 c = be64 c' \<longleftrightarrow> c = c'"
  by (auto simp: int_bytes_defs dest!: le_bytes_inject [rotated])

text \<open>A fixed-width integer at the front of a payload can be read back.\<close>

lemma int_bytes_append_inject [enc_inject]:
  "le16 a @ x = le16 a' @ y \<longleftrightarrow> a = a' \<and> x = y"
  "le32 b @ x = le32 b' @ y \<longleftrightarrow> b = b' \<and> x = y"
  "le64 c @ x = le64 c' @ y \<longleftrightarrow> c = c' \<and> x = y"
  "be32 b @ x = be32 b' @ y \<longleftrightarrow> b = b' \<and> x = y"
  "be64 c @ x = be64 c' @ y \<longleftrightarrow> c = c' \<and> x = y"
  by (simp_all add: append_eq_append_conv)

text \<open>\<open>uint32(len(b))\<close> of a slice shorter than 4 GiB determines the length.\<close>

lemma of_nat_length_inject:
  assumes "(of_nat m :: u32) = of_nat n" and "m < 2 ^ 32" and "n < 2 ^ 32"
  shows "m = n"
proof -
  from assms(1) have "unat (of_nat m :: u32) = unat (of_nat n :: u32)" by simp
  with assms(2,3) show ?thesis by (simp add: unat_of_nat take_bit_nat_eq_self)
qed

lemma of_nat_count_inject:
  assumes "(word_of_nat m :: u16) = word_of_nat n" and "m < 2 ^ 16" and "n < 2 ^ 16"
  shows "m = n"
proof -
  from assms(1) have "unat (word_of_nat m :: u16) = unat (word_of_nat n :: u16)" by simp
  with assms(2,3) show ?thesis by (simp add: unat_of_nat take_bit_nat_eq_self)
qed

section \<open>Hexadecimal\<close>

definition hex_digit :: "nat \<Rightarrow> char" where
  "hex_digit n = ''0123456789abcdef'' ! n"

definition hex_value :: "char \<Rightarrow> nat option" where
  "hex_value c =
     (let n = of_char c :: nat
      in if 48 \<le> n \<and> n \<le> 57 then Some (n - 48)
         else if 97 \<le> n \<and> n \<le> 102 then Some (n - 87)
         else if 65 \<le> n \<and> n \<le> 70 then Some (n - 55)
         else None)"

definition to_lower_char :: "char \<Rightarrow> char" where
  "to_lower_char c =
     (let n = of_char c :: nat in if 65 \<le> n \<and> n \<le> 90 then char_of (n + 32) else c)"

text \<open>\<open>strings.ToLower\<close>, \<open>hex.EncodeToString\<close> and \<open>hex.DecodeString\<close>.\<close>

definition to_lower :: "string \<Rightarrow> string" where
  "to_lower s = map to_lower_char s"

fun hex_encode :: "bytes \<Rightarrow> string" where
  "hex_encode [] = []"
| "hex_encode (b # bs) =
     hex_digit (unat b div 16) # hex_digit (unat b mod 16) # hex_encode bs"

fun hex_decode :: "string \<Rightarrow> bytes option" where
  "hex_decode [] = Some []"
| "hex_decode [c] = None"
| "hex_decode (c # d # s) =
     (case (hex_value c, hex_value d, hex_decode s) of
        (Some x, Some y, Some bs) \<Rightarrow> Some (word_of_nat (16 * x + y) # bs)
      | _ \<Rightarrow> None)"

lemma hex_digit_table:
  "list_all (\<lambda>n. hex_value (hex_digit n) = Some n \<and> to_lower_char (hex_digit n) = hex_digit n) [0..<16]"
  by (simp add: upt_rec hex_value_def hex_digit_def to_lower_char_def)

lemma hex_value_digit: "n < 16 \<Longrightarrow> hex_value (hex_digit n) = Some n"
  using hex_digit_table by (auto simp: list_all_iff)

lemma to_lower_digit: "n < 16 \<Longrightarrow> to_lower_char (hex_digit n) = hex_digit n"
  using hex_digit_table by (auto simp: list_all_iff)

lemma hex_value_range:
  assumes "hex_value c = Some x"
  shows "(of_char c :: nat) \<in> {48..<58} \<union> ({97..<103} \<union> {65..<71})"
  using assms by (auto simp: hex_value_def Let_def split: if_splits)

lemma hex_value_table:
  "list_all (\<lambda>n. \<forall>x. hex_value (char_of n) = Some x \<longrightarrow>
     x < 16 \<and> (of_char (hex_digit x) :: nat) = of_char (to_lower_char (char_of n)))
     ([48..<58] @ [97..<103] @ [65..<71::nat])"
  by (simp add: upt_rec hex_value_def hex_digit_def to_lower_char_def del: of_char_eq_iff)

lemma hex_value_Some:
  assumes "hex_value c = Some x"
  shows "x < 16 \<and> hex_digit x = to_lower_char c"
proof -
  from hex_value_table hex_value_range [OF assms]
  have "\<forall>x. hex_value (char_of (of_char c :: nat)) = Some x \<longrightarrow>
     x < 16 \<and> (of_char (hex_digit x) :: nat) = of_char (to_lower_char (char_of (of_char c :: nat)))"
    unfolding list_all_iff set_append set_upt by blast
  with assms show ?thesis by simp
qed

lemma unat_byte_less: "unat (b :: byte) < 256"
  using unsigned_less [of b] by simp

lemma nibbles_byte: "word_of_nat (16 * (unat b div 16) + unat b mod 16) = (b :: byte)"
  by simp

lemma unat_nibbles:
  assumes "x < 16" and "y < 16"
  shows "unat (word_of_nat (16 * x + y) :: byte) = 16 * x + y"
proof -
  from assms have "16 * x + y < 256" by simp
  then show ?thesis by (simp add: unat_of_nat take_bit_nat_eq_self del: of_nat_add of_nat_mult)
qed

theorem hex_decode_encode: "hex_decode (hex_encode bs) = Some bs"
proof (induction bs)
  case Nil
  then show ?case by simp
next
  case (Cons b bs)
  have "unat b div 16 < 16" using unat_byte_less [of b] by simp
  with Cons show ?case
    by (simp add: hex_value_digit nibbles_byte del: of_nat_add of_nat_mult)
qed

lemma length_hex_encode [simp]: "length (hex_encode bs) = 2 * length bs"
  by (induction bs) simp_all

lemma hex_encode_inject [simp]: "hex_encode a = hex_encode b \<longleftrightarrow> a = b"
  by (metis hex_decode_encode option.inject)

lemma hex_decode_length: "hex_decode s = Some bs \<Longrightarrow> length s = 2 * length bs"
  by (induction s arbitrary: bs rule: hex_decode.induct) (auto split: option.splits)

text \<open>Decoding and encoding again normalises the case of the digits and changes nothing else.\<close>

lemma hex_encode_decode: "hex_decode s = Some bs \<Longrightarrow> hex_encode bs = to_lower s"
proof (induction s arbitrary: bs rule: hex_decode.induct)
  case (3 c d s)
  then obtain x y cs where xy: "hex_value c = Some x" "hex_value d = Some y"
    and cs: "hex_decode s = Some cs" and bs: "bs = word_of_nat (16 * x + y) # cs"
    by (auto split: option.splits)
  from xy have lt: "x < 16" "y < 16" and dig: "hex_digit x = to_lower_char c" "hex_digit y = to_lower_char d"
    by (auto dest: hex_value_Some)
  from "3.IH" [OF cs] have "hex_encode cs = to_lower s" .
  then show ?case
    by (simp add: bs unat_nibbles [OF lt] lt dig to_lower_def del: of_nat_add of_nat_mult)
qed (simp_all add: to_lower_def)

lemma to_lower_hex_encode [simp]: "to_lower (hex_encode bs) = hex_encode bs"
  by (metis hex_decode_encode hex_encode_decode)

lemma to_lower_char_idem [simp]: "to_lower_char (to_lower_char c) = to_lower_char c"
  by (simp add: to_lower_char_def Let_def)

lemma to_lower_idem [simp]: "to_lower (to_lower s) = to_lower s"
  by (simp add: to_lower_def)

lemma length_to_lower [simp]: "length (to_lower s) = length s"
  by (simp add: to_lower_def)

section \<open>Decimal\<close>

definition dec_digit :: "nat \<Rightarrow> char" where
  "dec_digit n = char_of (48 + n)"

fun dec_encode :: "nat \<Rightarrow> string" where
  "dec_encode n = (if n < 10 then [dec_digit n] else dec_encode (n div 10) @ [dec_digit (n mod 10)])"

declare dec_encode.simps [simp del]

definition is_digit :: "char \<Rightarrow> bool" where
  "is_digit c = (let n = of_char c :: nat in 48 \<le> n \<and> n \<le> 57)"

definition digit_value :: "char \<Rightarrow> nat" where
  "digit_value c = of_char c - 48"

definition dec_value :: "string \<Rightarrow> nat" where
  "dec_value s = foldl (\<lambda>a c. 10 * a + digit_value c) 0 s"

text \<open>\<open>strconv.ParseUint(s, 10, 64)\<close>: \<open>None\<close> on a syntax or range error.\<close>

definition parse_uint64 :: "string \<Rightarrow> u64 option" where
  "parse_uint64 s =
     (if s = [] \<or> \<not> list_all is_digit s \<or> 2 ^ 64 \<le> dec_value s then None
      else Some (word_of_nat (dec_value s)))"

lemma dec_digit_table:
  "list_all (\<lambda>n. is_digit (dec_digit n) \<and> digit_value (dec_digit n) = n) [0..<10]"
  by (simp add: upt_rec is_digit_def digit_value_def dec_digit_def)

lemma dec_digit_props: "n < 10 \<Longrightarrow> is_digit (dec_digit n) \<and> digit_value (dec_digit n) = n"
  using dec_digit_table by (auto simp: list_all_iff)

lemma dec_encode_props: "dec_encode n \<noteq> [] \<and> list_all is_digit (dec_encode n) \<and> dec_value (dec_encode n) = n"
proof (induction n rule: dec_encode.induct)
  case (1 n)
  show ?case
  proof (cases "n < 10")
    case True
    then show ?thesis
      by (simp add: dec_encode.simps [of n] dec_digit_props dec_value_def)
  next
    case False
    with "1.IH" show ?thesis
      by (simp add: dec_encode.simps [of n] dec_digit_props dec_value_def)
  qed
qed

lemma parse_dec_encode: "parse_uint64 (dec_encode (unat v)) = Some v"
proof -
  have "unat v < 2 ^ 64" using unsigned_less [of v] by simp
  then show ?thesis
    using dec_encode_props [of "unat v"] by (simp add: parse_uint64_def)
qed

section \<open>String scanning\<close>

definition is_space :: "char \<Rightarrow> bool" where
  "is_space c = ((of_char c :: nat) \<in> {9, 10, 11, 12, 13, 32})"

text \<open>\<open>strings.TrimSpace\<close>, \<open>strings.HasPrefix\<close>, \<open>strings.TrimPrefix\<close>, \<open>strings.Split\<close>.\<close>

definition trim_space :: "string \<Rightarrow> string" where
  "trim_space s = rev (dropWhile is_space (rev (dropWhile is_space s)))"

definition has_prefix :: "string \<Rightarrow> string \<Rightarrow> bool" where
  "has_prefix s p = (take (length p) s = p)"

definition trim_prefix :: "string \<Rightarrow> string \<Rightarrow> string" where
  "trim_prefix s p = (if has_prefix s p then drop (length p) s else s)"

fun split_on :: "char \<Rightarrow> string \<Rightarrow> string list" where
  "split_on c [] = [[]]"
| "split_on c (x # xs) =
     (if x = c then [] # split_on c xs
      else (case split_on c xs of [] \<Rightarrow> [[x]] | y # ys \<Rightarrow> (x # y) # ys))"

lemma split_on_nonempty: "split_on c s \<noteq> []"
  by (cases s) (auto split: list.splits)

lemma split_on_append:
  assumes "c \<notin> set s"
  shows "split_on c (s @ c # t) = s # split_on c t"
  using assms by (induction s) auto

lemma trim_space_id:
  assumes "list_all (\<lambda>c. \<not> is_space c) s"
  shows "trim_space s = s"
proof (cases "s = []")
  case False
  with assms have "\<not> is_space (hd s)" and "\<not> is_space (last s)"
    by (simp_all add: list_all_iff)
  then have "dropWhile is_space s = s" and "dropWhile is_space (rev s) = rev s"
    by (simp_all add: dropWhile_eq_self_iff hd_rev)
  then show ?thesis by (simp add: trim_space_def)
qed (simp add: trim_space_def)

end
