(* ===== verification/Program.thy ===== *)
theory Program
  imports Sha256
begin

text \<open>
  \<open>internal/program\<close>: the frozen named-program data (network pins, exit delays, protection
  tiers) and the spending policy that a vault enrols with, its validation, its canonical
  JSON encoding and its digest.
\<close>

section \<open>Pinned constants\<close>

abbreviation NetworkMainnet :: string where "NetworkMainnet \<equiv> ''mainnet''"
abbreviation NetworkMutinynet :: string where "NetworkMutinynet \<equiv> ''mutinynet''"
abbreviation PolicyVersion :: string where "PolicyVersion \<equiv> ''vault-spending-policy-v1''"
abbreviation VaultPolicyV1 :: string where "VaultPolicyV1 \<equiv> ''vault-policy-v1''"
abbreviation VaultBoardV1 :: string where "VaultBoardV1 \<equiv> ''vault-board-v1''"
abbreviation DustSats :: i64 where "DustSats \<equiv> 330"
abbreviation TxRecipientCapSats :: i64 where "TxRecipientCapSats \<equiv> 50000"
abbreviation PeriodAllowanceSats :: i64 where "PeriodAllowanceSats \<equiv> 100000"
abbreviation ExitDelayUnit :: string where "ExitDelayUnit \<equiv> ''seconds''"
abbreviation BIP68SecondsMod :: u32 where "BIP68SecondsMod \<equiv> 512"

record NetworkPins =
  np_Network :: string
  np_PolicyExitDelay :: u32
  np_BoardExitDelay :: u32
  np_ArkdMinExitDelay :: u32
  np_DelegatePub :: string
  np_DelegateOrigin :: string
  np_AbsoluteFeeCeiling :: i64
  np_FeerateCeilingSatPerV :: i64

definition PinsFor :: "string \<Rightarrow> NetworkPins result" where
  "PinsFor network =
     (if network = NetworkMutinynet then
        Inr \<lparr> np_Network = NetworkMutinynet,
          np_PolicyExitDelay = 4608,
          np_BoardExitDelay = 604672,
          np_ArkdMinExitDelay = 2048,
          np_DelegatePub = ''032903b15efe236d9609da10e536fb32cdf1d144778797bbf32a9b94e86601be6a'',
          np_DelegateOrigin = ''https://delegator.mutinynet.arkade.sh'',
          np_AbsoluteFeeCeiling = 5000,
          np_FeerateCeilingSatPerV = 10 \<rparr>
      else if network = NetworkMainnet then
        Inr \<lparr> np_Network = NetworkMainnet,
          np_PolicyExitDelay = 605184,
          np_BoardExitDelay = 7776256,
          np_ArkdMinExitDelay = 605184,
          np_DelegatePub = ''026d7d45360014bce9a8ad30a10c28dd1571a22a2e90c9682268404d37b5b114a6'',
          np_DelegateOrigin = ''https://delegate.arkade.money'',
          np_AbsoluteFeeCeiling = 20000,
          np_FeerateCeilingSatPerV = 25 \<rparr>
      else Inl (Errorf ''unsupported network %q''))"

section \<open>Exit delays\<close>

definition ValidateVaultPolicyV1ExitDelayFor :: "string \<Rightarrow> u32 \<Rightarrow> string \<Rightarrow> unit result" where
  "ValidateVaultPolicyV1ExitDelayFor network delay unit =
     bindR (PinsFor network) (\<lambda>pins.
       if unit \<noteq> ExitDelayUnit then
         Inl (Errorf ''vault-policy-v1 exit delay unit must be %s'')
       else if delay mod BIP68SecondsMod \<noteq> 0 then
         Inl (Errorf ''vault-policy-v1 exit delay must be a BIP68 seconds multiple of %d'')
       else if delay < np_ArkdMinExitDelay pins then
         Inl (Errorf ''vault-policy-v1 exit delay %d is below arkd minimum %d'')
       else if delay \<noteq> np_PolicyExitDelay pins then
         Inl (Errorf ''vault-policy-v1 exit delay is frozen at %d seconds'')
       else Inr ())"

definition ValidateVaultBoardV1ExitDelayFor :: "string \<Rightarrow> u32 \<Rightarrow> string \<Rightarrow> unit result" where
  "ValidateVaultBoardV1ExitDelayFor network delay unit =
     bindR (PinsFor network) (\<lambda>pins.
       if unit \<noteq> ExitDelayUnit then
         Inl (Errorf ''vault-board-v1 exit delay unit must be %s'')
       else if delay mod BIP68SecondsMod \<noteq> 0 then
         Inl (Errorf ''vault-board-v1 exit delay must be a BIP68 seconds multiple of %d'')
       else if delay \<noteq> np_BoardExitDelay pins then
         Inl (Errorf ''vault-board-v1 exit delay is frozen at %d seconds'')
       else Inr ())"

section \<open>Protection tiers\<close>

abbreviation ProtectionTierStandard :: string where "ProtectionTierStandard \<equiv> ''standard''"
abbreviation ProtectionTierAdvanced :: string where "ProtectionTierAdvanced \<equiv> ''advanced''"

definition ValidateProtectionTier :: "string \<Rightarrow> unit result" where
  "ValidateProtectionTier tier =
     (if tier = ProtectionTierStandard \<or> tier = ProtectionTierAdvanced then Inr ()
      else Inl (Errorf ''unsupported protection tier %q''))"

definition ValidateProtectionTierRecovery :: "string \<Rightarrow> bool \<Rightarrow> unit result" where
  "ValidateProtectionTierRecovery tier hasRecovery =
     bindR (ValidateProtectionTier tier) (\<lambda>_.
       if tier = ProtectionTierStandard \<and> hasRecovery then
         Inl (Errorf ''standard protection must not include a recovery key'')
       else if tier = ProtectionTierAdvanced \<and> \<not> hasRecovery then
         Inl (Errorf ''advanced protection requires a recovery key'')
       else Inr ())"

section \<open>Spending policy\<close>

abbreviation SpendingPolicyPeriod :: string where "SpendingPolicyPeriod \<equiv> ''rolling-24h''"

record SpendingPolicy =
  sp_Program :: string
  sp_Schema :: string
  sp_Period :: string
  sp_PeriodAllowanceSats :: i64
  sp_TxRecipientCapSats :: i64
  sp_AbsoluteFeeCapSats :: i64
  sp_FeerateCapSatPerV :: i64

definition DefaultSpendingPolicyFor :: "string \<Rightarrow> SpendingPolicy result" where
  "DefaultSpendingPolicyFor network =
     bindR (PinsFor network) (\<lambda>pins.
       Inr \<lparr> sp_Program = VaultPolicyV1, sp_Schema = PolicyVersion, sp_Period = SpendingPolicyPeriod,
         sp_PeriodAllowanceSats = PeriodAllowanceSats, sp_TxRecipientCapSats = TxRecipientCapSats,
         sp_AbsoluteFeeCapSats = np_AbsoluteFeeCeiling pins,
         sp_FeerateCapSatPerV = np_FeerateCeilingSatPerV pins \<rparr>)"

definition validatePolicyBound :: "string \<Rightarrow> i64 \<Rightarrow> i64 \<Rightarrow> i64 \<Rightarrow> unit result" where
  "validatePolicyBound name value lo hi =
     (if sint value < sint lo \<or> sint value > sint hi then
        Inl (Errorf (name @ '' must be between %d and %d''))
      else Inr ())"

definition ValidateSpendingPolicyFor :: "string \<Rightarrow> SpendingPolicy \<Rightarrow> unit result" where
  "ValidateSpendingPolicyFor network p =
     bindR (PinsFor network) (\<lambda>pins.
       if sp_Program p \<noteq> VaultPolicyV1 then Inl (Errorf ''spending policy program must be %s'')
       else if sp_Schema p \<noteq> PolicyVersion then Inl (Errorf ''spending policy schema must be %s'')
       else if sp_Period p \<noteq> SpendingPolicyPeriod then Inl (Errorf ''spending policy period must be %s'')
       else
         bindR (validatePolicyBound ''tx recipient cap'' (sp_TxRecipientCapSats p) DustSats 100000000) (\<lambda>_.
         bindR (validatePolicyBound ''period allowance'' (sp_PeriodAllowanceSats p) DustSats 1000000000) (\<lambda>_.
         if sint (sp_PeriodAllowanceSats p) < sint (sp_TxRecipientCapSats p) then
           Inl (Errorf ''period allowance must be at least the transaction recipient cap'')
         else
           bindR (validatePolicyBound ''absolute fee cap'' (sp_AbsoluteFeeCapSats p) 0 100000) (\<lambda>_.
           if sp_AbsoluteFeeCapSats p \<noteq> np_AbsoluteFeeCeiling pins then
             Inl (Errorf ''absolute fee cap must match the release value %d'')
           else
             bindR (validatePolicyBound ''feerate cap'' (sp_FeerateCapSatPerV p) 1 100) (\<lambda>_.
             if sp_FeerateCapSatPerV p \<noteq> np_FeerateCeilingSatPerV pins then
               Inl (Errorf ''feerate cap must match the release value %d'')
             else Inr ())))))"

definition SpendingPolicyFromValues :: "i64 \<Rightarrow> i64 \<Rightarrow> i64 \<Rightarrow> i64 \<Rightarrow> SpendingPolicy result" where
  "SpendingPolicyFromValues txCap allowance feeCap feerate =
     bindR (DefaultSpendingPolicyFor NetworkMutinynet) (\<lambda>p.
       Inr (p\<lparr> sp_TxRecipientCapSats := txCap, sp_PeriodAllowanceSats := allowance,
               sp_AbsoluteFeeCapSats := feeCap, sp_FeerateCapSatPerV := feerate \<rparr>))"

text \<open>The presets advertised to the wallet, by id.\<close>

definition CurrentSpendingPolicyPresets :: "string \<Rightarrow> (string \<times> SpendingPolicy) list result" where
  "CurrentSpendingPolicyPresets network =
     bindR (PinsFor network) (\<lambda>pins.
     bindR (DefaultSpendingPolicyFor network) (\<lambda>everyday.
     bindR (SpendingPolicyFromValues 25000 50000 (np_AbsoluteFeeCeiling pins) (np_FeerateCeilingSatPerV pins))
       (\<lambda>lower. Inr [(''lower-exposure'', lower), (''everyday'', everyday)])))"

subsection \<open>Canonical JSON\<close>

text \<open>
  \<open>json.Marshal\<close> of a string (the quote, the backslash, control characters and the HTML
  characters are escaped; bytes above 127 are copied) and of an \<open>int64\<close>. The encoder walks
  the struct fields in order.
\<close>

definition json_escape :: "char \<Rightarrow> string" where
  "json_escape c =
     (let n = of_char c :: nat
      in if n = 34 \<or> n = 92 then [CHR 0x5C, c]
         else if n = 8 then [CHR 0x5C, CHR ''b'']
         else if n = 12 then [CHR 0x5C, CHR ''f'']
         else if n = 10 then [CHR 0x5C, CHR ''n'']
         else if n = 13 then [CHR 0x5C, CHR ''r'']
         else if n = 9 then [CHR 0x5C, CHR ''t'']
         else if n < 32 \<or> n = 60 \<or> n = 62 \<or> n = 38 then
           CHR 0x5C # ''u00'' @ [hex_digit (n div 16), hex_digit (n mod 16)]
         else [c])"

definition json_string :: "string \<Rightarrow> string" where
  "json_string s = CHR 0x22 # concat (map json_escape s) @ [CHR 0x22]"

definition json_int64 :: "i64 \<Rightarrow> string" where
  "json_int64 v = (if sint v < 0 then CHR ''-'' # dec_encode (nat (- sint v)) else dec_encode (nat (sint v)))"

definition json_field :: "string \<Rightarrow> string \<Rightarrow> string" where
  "json_field name value = CHR 0x22 # name @ [CHR 0x22, CHR '':''] @ value"

definition marshalSpendingPolicy :: "SpendingPolicy \<Rightarrow> string" where
  "marshalSpendingPolicy p =
     ''{'' @ json_field ''program'' (json_string (sp_Program p)) @
     '','' @ json_field ''schema'' (json_string (sp_Schema p)) @
     '','' @ json_field ''period'' (json_string (sp_Period p)) @
     '','' @ json_field ''periodAllowanceSats'' (json_int64 (sp_PeriodAllowanceSats p)) @
     '','' @ json_field ''txRecipientCapSats'' (json_int64 (sp_TxRecipientCapSats p)) @
     '','' @ json_field ''absoluteFeeCapSats'' (json_int64 (sp_AbsoluteFeeCapSats p)) @
     '','' @ json_field ''feerateCapSatPerV'' (json_int64 (sp_FeerateCapSatPerV p)) @ ''}''"

definition CanonicalSpendingPolicyJSONFor :: "string \<Rightarrow> SpendingPolicy \<Rightarrow> bytes result" where
  "CanonicalSpendingPolicyJSONFor network p =
     bindR (ValidateSpendingPolicyFor network p) (\<lambda>_. Inr (str_bytes (marshalSpendingPolicy p)))"

definition SpendingPolicyDigestFor :: "string \<Rightarrow> SpendingPolicy \<Rightarrow> bytes result" where
  "SpendingPolicyDigestFor network p =
     bindR (CanonicalSpendingPolicyJSONFor network p) (\<lambda>raw. Inr (sha256 raw))"

definition SpendingPolicyDigestHexFor :: "string \<Rightarrow> SpendingPolicy \<Rightarrow> string result" where
  "SpendingPolicyDigestHexFor network p =
     bindR (SpendingPolicyDigestFor network p) (\<lambda>digest. Inr (hex_encode digest))"

section \<open>Properties\<close>

lemma PinsFor_Inr: "PinsFor network = Inr pins \<Longrightarrow> network = NetworkMutinynet \<or> network = NetworkMainnet"
  by (auto simp: PinsFor_def split: if_splits)

lemmas policy_validation_defs =
  ValidateSpendingPolicyFor_def validatePolicyBound_def

lemma ValidateSpendingPolicyFor_iff:
  "ValidateSpendingPolicyFor network p = Inr () \<longleftrightarrow>
     (\<exists>pins. PinsFor network = Inr pins \<and>
        sp_Program p = VaultPolicyV1 \<and> sp_Schema p = PolicyVersion \<and> sp_Period p = SpendingPolicyPeriod \<and>
        330 \<le> sint (sp_TxRecipientCapSats p) \<and> sint (sp_TxRecipientCapSats p) \<le> 100000000 \<and>
        sint (sp_TxRecipientCapSats p) \<le> sint (sp_PeriodAllowanceSats p) \<and>
        sint (sp_PeriodAllowanceSats p) \<le> 1000000000 \<and>
        sp_AbsoluteFeeCapSats p = np_AbsoluteFeeCeiling pins \<and>
        sp_FeerateCapSatPerV p = np_FeerateCeilingSatPerV pins)"
proof -
  have pins: "0 \<le> sint (np_AbsoluteFeeCeiling pins) \<and> sint (np_AbsoluteFeeCeiling pins) \<le> 100000 \<and>
      1 \<le> sint (np_FeerateCeilingSatPerV pins) \<and> sint (np_FeerateCeilingSatPerV pins) \<le> 100"
    if "PinsFor network = Inr pins" for pins
    using that by (auto simp: PinsFor_def split: if_splits)
  show ?thesis
    by (cases "PinsFor network") (auto simp: policy_validation_defs res_simps dest: pins)
qed

lemma digits_sep:
  assumes "list_all is_digit s" and "list_all is_digit t" and "\<not> is_digit c" and "\<not> is_digit d"
    and "s @ c # x = t @ d # y"
  shows "s = t \<and> x = y"
proof -
  from assms(1-4) have "takeWhile is_digit (s @ c # x) = s" and "takeWhile is_digit (t @ d # y) = t"
    by (simp_all add: takeWhile_append list_all_iff)
  with assms(5) show ?thesis by simp
qed

lemma json_int64_sep:
  assumes "0 \<le> sint a" and "0 \<le> sint b" and "\<not> is_digit c"
    and "json_int64 a @ c # x = json_int64 b @ c # y"
  shows "a = b \<and> x = y"
proof -
  from assms have "dec_encode (nat (sint a)) @ c # x = dec_encode (nat (sint b)) @ c # y"
    by (simp add: json_int64_def)
  then have eq: "dec_encode (nat (sint a)) = dec_encode (nat (sint b)) \<and> x = y"
    using digits_sep dec_encode_props assms(3) by blast
  then have "nat (sint a) = nat (sint b)" by (metis dec_encode_props)
  with assms(1,2) have "sint a = sint b" by simp
  then have "a = b" by (rule signed_word_eqI)
  with eq show ?thesis by simp
qed

lemma validated_nonneg:
  assumes "ValidateSpendingPolicyFor n p = Inr ()"
  shows "0 \<le> sint (sp_PeriodAllowanceSats p)" "0 \<le> sint (sp_TxRecipientCapSats p)"
    "0 \<le> sint (sp_AbsoluteFeeCapSats p)" "0 \<le> sint (sp_FeerateCapSatPerV p)"
  using assms by (auto simp: ValidateSpendingPolicyFor_iff PinsFor_def split: if_splits)

lemma validated_fixed:
  assumes "ValidateSpendingPolicyFor n p = Inr ()"
  shows "sp_Program p = VaultPolicyV1" "sp_Schema p = PolicyVersion" "sp_Period p = SpendingPolicyPeriod"
  using assms by (auto simp: ValidateSpendingPolicyFor_iff)

lemma not_is_digit_sep [simp]: "\<not> is_digit CHR '',''" "\<not> is_digit CHR ''}''"
  by (simp_all add: is_digit_def)

lemma marshal_inject:
  assumes p: "ValidateSpendingPolicyFor n p = Inr ()" and q: "ValidateSpendingPolicyFor m q = Inr ()"
    and eq: "marshalSpendingPolicy p = marshalSpendingPolicy q"
  shows "p = q"
proof -
  note nn = validated_nonneg [OF p] validated_nonneg [OF q]
  note sep = json_int64_sep [where c = "CHR '',''"] json_int64_sep [where c = "CHR ''}''"]
  from eq have "json_int64 (sp_PeriodAllowanceSats p) @ CHR '','' #
      json_field ''txRecipientCapSats'' (json_int64 (sp_TxRecipientCapSats p)) @
      '','' @ json_field ''absoluteFeeCapSats'' (json_int64 (sp_AbsoluteFeeCapSats p)) @
      '','' @ json_field ''feerateCapSatPerV'' (json_int64 (sp_FeerateCapSatPerV p)) @ ''}'' =
    json_int64 (sp_PeriodAllowanceSats q) @ CHR '','' #
      json_field ''txRecipientCapSats'' (json_int64 (sp_TxRecipientCapSats q)) @
      '','' @ json_field ''absoluteFeeCapSats'' (json_int64 (sp_AbsoluteFeeCapSats q)) @
      '','' @ json_field ''feerateCapSatPerV'' (json_int64 (sp_FeerateCapSatPerV q)) @ ''}''"
    by (simp add: marshalSpendingPolicy_def validated_fixed [OF p] validated_fixed [OF q]
        json_field_def)
  from sep(1) [OF nn(1,5) _ this] have a: "sp_PeriodAllowanceSats p = sp_PeriodAllowanceSats q"
    and "json_int64 (sp_TxRecipientCapSats p) @ CHR '','' #
      json_field ''absoluteFeeCapSats'' (json_int64 (sp_AbsoluteFeeCapSats p)) @
      '','' @ json_field ''feerateCapSatPerV'' (json_int64 (sp_FeerateCapSatPerV p)) @ ''}'' =
     json_int64 (sp_TxRecipientCapSats q) @ CHR '','' #
      json_field ''absoluteFeeCapSats'' (json_int64 (sp_AbsoluteFeeCapSats q)) @
      '','' @ json_field ''feerateCapSatPerV'' (json_int64 (sp_FeerateCapSatPerV q)) @ ''}''"
    by (simp_all add: json_field_def)
  from sep(1) [OF nn(2,6) _ this(2)] have b: "sp_TxRecipientCapSats p = sp_TxRecipientCapSats q"
    and "json_int64 (sp_AbsoluteFeeCapSats p) @ CHR '','' #
      json_field ''feerateCapSatPerV'' (json_int64 (sp_FeerateCapSatPerV p)) @ ''}'' =
     json_int64 (sp_AbsoluteFeeCapSats q) @ CHR '','' #
      json_field ''feerateCapSatPerV'' (json_int64 (sp_FeerateCapSatPerV q)) @ ''}''"
    by (simp_all add: json_field_def)
  from sep(1) [OF nn(3,7) _ this(2)] have c: "sp_AbsoluteFeeCapSats p = sp_AbsoluteFeeCapSats q"
    and "json_int64 (sp_FeerateCapSatPerV p) @ CHR ''}'' # [] = json_int64 (sp_FeerateCapSatPerV q) @ CHR ''}'' # []"
    by (simp_all add: json_field_def)
  from sep(2) [OF nn(4,8) _ this(2)] have "sp_FeerateCapSatPerV p = sp_FeerateCapSatPerV q"
    by simp
  with a b c show ?thesis
    by (simp add: validated_fixed [OF p] validated_fixed [OF q])
qed

end
