(* ===== verification/Integrity.thy ===== *)
theory Integrity
  imports Program
begin

text \<open>
  The authenticated-record discipline of \<open>internal/policy\<close>. A row is serialised with
  length-prefixed fields (\<open>appendCredentialField\<close>, \<open>ledger.go\<close>), sealed with an HMAC over
  that payload, and verified before any of its fields is trusted. The locale states the
  contract of one such record type (\<open>code\<close> is the keyed code, HMAC-SHA256 under the integrity
  key or under a key derived from it); its lemmas are proved once and reach each record type
  through an interpretation.
\<close>

section \<open>Length-prefixed fields\<close>

definition appendCredentialField :: "bytes \<Rightarrow> bytes \<Rightarrow> bytes result" where
  "appendCredentialField dst field =
     (if length field > 2 ^ 32 - 1 then Inl (Errorf ''policy field too large'')
      else Inr (dst @ le32 (word_of_nat (length field)) @ field))"

fun appendCredentialFields :: "bytes \<Rightarrow> bytes list \<Rightarrow> bytes result" where
  "appendCredentialFields dst [] = Inr dst"
| "appendCredentialFields dst (f # fs) =
     bindR (appendCredentialField dst f) (\<lambda>dst. appendCredentialFields dst fs)"

definition taggedSHA256 :: "string \<Rightarrow> bytes \<Rightarrow> bytes" where
  "taggedSHA256 tag msg = (let th = sha256 (str_bytes tag) in sha256 (th @ th @ msg))"

lemma length_taggedSHA256 [simp]: "length (taggedSHA256 tag msg) = 32"
  by (simp add: taggedSHA256_def Let_def)

definition field_bytes :: "bytes \<Rightarrow> bytes" where
  "field_bytes f = le32 (word_of_nat (length f)) @ f"

definition fits :: "bytes \<Rightarrow> bool" where
  "fits f \<longleftrightarrow> length f < 2 ^ 32"

lemma appendCredentialField_Inr:
  "appendCredentialField dst f = Inr out \<longleftrightarrow> fits f \<and> out = dst @ field_bytes f"
  by (auto simp: appendCredentialField_def field_bytes_def fits_def)

lemma appendCredentialFields_Inr:
  "appendCredentialFields dst fs = Inr out \<longleftrightarrow>
     list_all fits fs \<and> out = dst @ concat (map field_bytes fs)"
  by (induction fs arbitrary: dst) (auto simp: res_simps appendCredentialField_Inr)

lemma fits_short: "length f < 4294967296 \<Longrightarrow> fits f"
  by (simp add: fits_def)

lemma appendCredentialField_fits: "fits f \<Longrightarrow> appendCredentialField d f = Inr (d @ field_bytes f)"
  by (simp add: appendCredentialField_Inr)

lemma appendCredentialFields_fits:
  "list_all fits fs \<Longrightarrow> appendCredentialFields d fs = Inr (d @ concat (map field_bytes fs))"
  by (simp add: appendCredentialFields_Inr)

text \<open>A length-prefixed field at the front of a payload can be read back unambiguously.\<close>

lemma field_bytes_append_inject:
  assumes "fits f" and "fits g"
  shows "field_bytes f @ x = field_bytes g @ y \<longleftrightarrow> f = g \<and> x = y"
proof
  assume eq: "field_bytes f @ x = field_bytes g @ y"
  then have "(word_of_nat (length f) :: u32) = word_of_nat (length g)" and fg: "f @ x = g @ y"
    by (simp_all add: field_bytes_def enc_inject)
  with assms have "length f = length g"
    by (auto simp: fits_def intro: of_nat_length_inject)
  with fg show "f = g \<and> x = y" by simp
qed simp

lemma field_bytes_inject: "fits f \<Longrightarrow> fits g \<Longrightarrow> field_bytes f = field_bytes g \<longleftrightarrow> f = g"
  using field_bytes_append_inject [of f g "[]" "[]"] by simp

lemma fields_append_inject:
  assumes "list_all fits fs" and "list_all fits gs" and "length fs = length gs"
    and "concat (map field_bytes fs) @ x = concat (map field_bytes gs) @ y"
  shows "fs = gs \<and> x = y"
  using assms(3,1,2,4)
proof (induction fs gs rule: list_induct2)
  case Nil
  then show ?case by simp
next
  case (Cons f fs g gs)
  from Cons.prems have "fits f" and "fits g" by simp_all
  with Cons.prems(3) have "f = g" and
    "concat (map field_bytes fs) @ x = concat (map field_bytes gs) @ y"
    by (simp_all add: field_bytes_append_inject)
  with Cons show ?case by simp
qed

text \<open>Two payloads built from the same number of fields and a suffix agree only if the fields do.\<close>

lemma appendCredentialFields_inject:
  assumes "appendCredentialFields d fs = Inr out" and "appendCredentialFields d gs = Inr out'"
    and "length fs = length gs" and "out @ x = out' @ y"
  shows "fs = gs \<and> x = y"
  using assms fields_append_inject [of fs gs x y]
  by (auto simp: appendCredentialFields_Inr)

section \<open>The contract of a sealed record\<close>

locale sealed_record =
  fixes canonical :: "'r \<Rightarrow> bytes result"
    and seal :: "'r \<Rightarrow> bytes \<Rightarrow> 'r result"
    and verify :: "'r \<Rightarrow> bytes \<Rightarrow> unit result"
    and mac_of :: "'r \<Rightarrow> bytes"
    and with_mac :: "bytes \<Rightarrow> 'r \<Rightarrow> 'r"
    and wf :: "'r \<Rightarrow> bool"
    and code :: "bytes \<Rightarrow> bytes \<Rightarrow> bytes"
  assumes seal_iff: "length key = 32 \<Longrightarrow> seal r key = Inr r' \<longleftrightarrow>
      (\<exists>p. canonical r = Inr p \<and> r' = with_mac (code key p) r)"
    and verify_iff: "length key = 32 \<Longrightarrow> verify r key = Inr () \<longleftrightarrow>
      (\<exists>p. canonical r = Inr p \<and> mac_of r = code key p)"
    and canonical_with_mac: "canonical (with_mac m r) = canonical r"
    and mac_of_with_mac: "mac_of (with_mac m r) = m"
    and with_mac_mac_of: "with_mac (mac_of r) r = r"
    and with_mac_twice: "with_mac m (with_mac m' r) = with_mac m r"
    and canonical_inject: "canonical r = Inr p \<Longrightarrow> canonical s = Inr p \<Longrightarrow> wf r \<Longrightarrow> wf s \<Longrightarrow>
      with_mac [] r = with_mac [] s"
begin

lemma seal_verifies:
  assumes "length key = 32" and "seal r key = Inr r'"
  shows "verify r' key = Inr ()"
  using assms by (auto simp: seal_iff verify_iff canonical_with_mac mac_of_with_mac)

lemma seal_keeps_fields:
  assumes "length key = 32" and "seal r key = Inr r'"
  shows "with_mac [] r' = with_mac [] r"
  using assms by (auto simp: seal_iff with_mac_twice)

lemma verified_is_sealed:
  assumes "length key = 32" and "verify r key = Inr ()"
  shows "seal r key = Inr r"
  using assms with_mac_mac_of [of r] by (auto simp: seal_iff verify_iff)

lemma same_fields_same_mac:
  assumes "length key = 32" and "verify r key = Inr ()" and "verify s key = Inr ()"
    and "with_mac [] r = with_mac [] s"
  shows "r = s"
proof -
  from assms(4) canonical_with_mac have c: "canonical r = canonical s" by metis
  with assms(1-3) have m: "mac_of r = mac_of s" by (auto simp: verify_iff)
  have "r = with_mac (mac_of r) (with_mac [] r)" by (simp add: with_mac_twice with_mac_mac_of)
  also have "\<dots> = s" by (simp add: assms(4) m with_mac_twice with_mac_mac_of)
  finally show ?thesis .
qed

text \<open>
  Two different well-formed records that both verify either carry different codes or give
  two different payloads with the same code: a row cannot be edited and keep its code
  unless the two payloads collide.
\<close>

lemma verified_unique:
  assumes key: "length key = 32" and r: "verify r key = Inr ()" and s: "verify s key = Inr ()"
    and wf: "wf r" "wf s" and mac: "mac_of r = mac_of s" and "r \<noteq> s"
  shows "\<exists>p q. canonical r = Inr p \<and> canonical s = Inr q \<and> p \<noteq> q \<and>
    code key p = code key q"
proof -
  from key r s obtain p q where pq: "canonical r = Inr p" "canonical s = Inr q"
    and macs: "mac_of r = code key p" "mac_of s = code key q"
    by (auto simp: verify_iff)
  have "p \<noteq> q"
  proof
    assume "p = q"
    with pq wf canonical_inject have "with_mac [] r = with_mac [] s" by blast
    with key r s have "r = s" by (rule same_fields_same_mac)
    with \<open>r \<noteq> s\<close> show False ..
  qed
  with pq macs mac show ?thesis by auto
qed

lemma tampered_verifies_iff:
  assumes "length key = 32" and "verify r key = Inr ()" and "wf r" and "wf s"
    and "mac_of s = mac_of r" and "s \<noteq> r"
  shows "verify s key = Inr () \<longleftrightarrow> (\<exists>p q. canonical r = Inr p \<and> canonical s = Inr q \<and> p \<noteq> q \<and>
    code key p = code key q)"
proof
  assume "verify s key = Inr ()"
  with assms verified_unique [of key r s]
  show "\<exists>p q. canonical r = Inr p \<and> canonical s = Inr q \<and> p \<noteq> q \<and>
    code key p = code key q" by auto
next
  assume "\<exists>p q. canonical r = Inr p \<and> canonical s = Inr q \<and> p \<noteq> q \<and>
    code key p = code key q"
  with assms show "verify s key = Inr ()" by (auto simp: verify_iff)
qed

end

end
