(* ===== verification/Tenant.thy ===== *)
theory Tenant
  imports Integrity
begin

text \<open>
  \<open>internal/policy/tenant.go\<close> and \<open>envelope.go\<close>: the vault descriptor, the passkey bound to
  it and the recovery envelope, with their seals. The operations on the database that store
  them are in a later theory.
\<close>

section \<open>Data\<close>

abbreviation vaultRecordMACDomain :: string where
  "vaultRecordMACDomain \<equiv> ''arkade-vault/vault-record/v2''"
abbreviation vaultCredentialMACDomain :: string where
  "vaultCredentialMACDomain \<equiv> ''arkade-vault/vault-credential/v1''"
abbreviation vaultEnvelopeDomain :: string where
  "vaultEnvelopeDomain \<equiv> ''arkade-vault/vault-envelope/v2''"
abbreviation vaultEnvelopeMACSalt :: string where
  "vaultEnvelopeMACSalt \<equiv> ''arkade-vault/vault-envelope-mac/v2''"
abbreviation CosignerModeHKDFSHA256V1 :: string where
  "CosignerModeHKDFSHA256V1 \<equiv> ''hkdf-sha256-v1''"

record VaultRecord =
  vr_VaultID :: string
  vr_TemplateVersion :: string
  vr_PolicyVersion :: string
  vr_ProtectionTier :: string
  vr_Network :: string
  vr_RPID :: string
  vr_Origin :: string
  vr_PhoneBIP340 :: bytes
  vr_PhoneDirectP256 :: bytes
  vr_ExternalOwnerWallet :: bytes
  vr_RecoveryKey :: bytes
  vr_VaultCosignerBase :: bytes
  vr_ArkadeCosignerBase :: bytes
  vr_ArkadeCosignerOrigin :: string
  vr_ArkadeCosignerVersion :: string
  vr_CosignerMode :: string
  vr_SavingsAddress :: string
  vr_SavingsScript :: bytes
  vr_RecipientDustSats :: i64
  vr_TxRecipientCapSats :: i64
  vr_PeriodAllowanceSats :: i64
  vr_AbsoluteFeeCapSats :: i64
  vr_FeerateCapSatPerV :: i64
  vr_IntegrityMAC :: bytes

record VaultCredential =
  vc_CredentialID :: bytes
  vc_VaultID :: string
  vc_WebAuthnP256 :: bytes
  vc_UserHandle :: bytes
  vc_Resident :: bool
  vc_IntegrityMAC :: bytes

record CredentialEnvelope =
  ce_Version :: u32
  ce_Binding :: string
  ce_Nonce :: bytes
  ce_Ciphertext :: bytes
  ce_DirectSig :: bytes
  ce_PhoneSig :: bytes
  ce_IntegrityMAC :: bytes

text \<open>The application's view of a vault and its passkey (\<open>ledger.go\<close>).\<close>

record Credential =
  cr_ID :: bytes
  cr_WebAuthnP256 :: bytes
  cr_PhoneDirectP256 :: bytes
  cr_PhoneBIP340 :: bytes
  cr_ExternalOwnerWallet :: bytes
  cr_RPID :: string
  cr_Origin :: string
  cr_RecoveryKey :: bytes
  cr_VaultCosignerBase :: bytes
  cr_ArkadeCosignerBase :: bytes
  cr_ArkadeCosignerOrigin :: string
  cr_ArkadeCosignerVersion :: string
  cr_TemplateVersion :: string
  cr_PolicyVersion :: string
  cr_ProtectionTier :: string
  cr_Network :: string
  cr_VaultID :: string
  cr_SavingsAddress :: string
  cr_SavingsScript :: bytes
  cr_RecipientDustSats :: i64
  cr_TxRecipientCapSats :: i64
  cr_PeriodAllowanceSats :: i64
  cr_AbsoluteFeeCapSats :: i64
  cr_FeerateCapSatPerV :: i64
  cr_IntegrityMAC :: bytes

section \<open>Views\<close>

definition vaultRecordFromCredential :: "Credential \<Rightarrow> VaultRecord" where
  "vaultRecordFromCredential c =
     \<lparr> vr_VaultID = cr_VaultID c, vr_TemplateVersion = cr_TemplateVersion c,
       vr_PolicyVersion = cr_PolicyVersion c, vr_ProtectionTier = cr_ProtectionTier c,
       vr_Network = cr_Network c, vr_RPID = cr_RPID c, vr_Origin = cr_Origin c,
       vr_PhoneBIP340 = cr_PhoneBIP340 c, vr_PhoneDirectP256 = cr_PhoneDirectP256 c,
       vr_ExternalOwnerWallet = cr_ExternalOwnerWallet c, vr_RecoveryKey = cr_RecoveryKey c,
       vr_VaultCosignerBase = cr_VaultCosignerBase c, vr_ArkadeCosignerBase = cr_ArkadeCosignerBase c,
       vr_ArkadeCosignerOrigin = cr_ArkadeCosignerOrigin c,
       vr_ArkadeCosignerVersion = cr_ArkadeCosignerVersion c,
       vr_CosignerMode = CosignerModeHKDFSHA256V1,
       vr_SavingsAddress = cr_SavingsAddress c, vr_SavingsScript = cr_SavingsScript c,
       vr_RecipientDustSats = cr_RecipientDustSats c, vr_TxRecipientCapSats = cr_TxRecipientCapSats c,
       vr_PeriodAllowanceSats = cr_PeriodAllowanceSats c, vr_AbsoluteFeeCapSats = cr_AbsoluteFeeCapSats c,
       vr_FeerateCapSatPerV = cr_FeerateCapSatPerV c, vr_IntegrityMAC = [] \<rparr>"

definition toCredential :: "VaultRecord \<Rightarrow> VaultCredential \<Rightarrow> Credential" where
  "toCredential v cred =
     \<lparr> cr_ID = vc_CredentialID cred, cr_WebAuthnP256 = vc_WebAuthnP256 cred,
       cr_PhoneDirectP256 = vr_PhoneDirectP256 v, cr_PhoneBIP340 = vr_PhoneBIP340 v,
       cr_ExternalOwnerWallet = vr_ExternalOwnerWallet v, cr_RPID = vr_RPID v, cr_Origin = vr_Origin v,
       cr_RecoveryKey = vr_RecoveryKey v, cr_VaultCosignerBase = vr_VaultCosignerBase v,
       cr_ArkadeCosignerBase = vr_ArkadeCosignerBase v,
       cr_ArkadeCosignerOrigin = vr_ArkadeCosignerOrigin v,
       cr_ArkadeCosignerVersion = vr_ArkadeCosignerVersion v,
       cr_TemplateVersion = vr_TemplateVersion v, cr_PolicyVersion = vr_PolicyVersion v,
       cr_ProtectionTier = vr_ProtectionTier v, cr_Network = vr_Network v, cr_VaultID = vr_VaultID v,
       cr_SavingsAddress = vr_SavingsAddress v, cr_SavingsScript = vr_SavingsScript v,
       cr_RecipientDustSats = vr_RecipientDustSats v, cr_TxRecipientCapSats = vr_TxRecipientCapSats v,
       cr_PeriodAllowanceSats = vr_PeriodAllowanceSats v, cr_AbsoluteFeeCapSats = vr_AbsoluteFeeCapSats v,
       cr_FeerateCapSatPerV = vr_FeerateCapSatPerV v, cr_IntegrityMAC = [] \<rparr>"

section \<open>Seals\<close>

text \<open>The fields before the amounts, and the two after them.\<close>

definition vaultRecordFields :: "VaultRecord \<Rightarrow> bytes list" where
  "vaultRecordFields v =
     [str_bytes (vr_VaultID v), str_bytes (vr_TemplateVersion v), str_bytes (vr_PolicyVersion v),
      str_bytes (vr_ProtectionTier v), str_bytes (vr_CosignerMode v), str_bytes (vr_Network v),
      str_bytes (vr_RPID v), str_bytes (vr_Origin v),
      vr_PhoneBIP340 v, vr_PhoneDirectP256 v, vr_ExternalOwnerWallet v, vr_RecoveryKey v,
      vr_VaultCosignerBase v, vr_ArkadeCosignerBase v,
      str_bytes (vr_ArkadeCosignerOrigin v), str_bytes (vr_ArkadeCosignerVersion v)]"

definition vaultRecordPayload :: "VaultRecord \<Rightarrow> bytes result" where
  "vaultRecordPayload v =
     bindR (appendCredentialField [] (str_bytes vaultRecordMACDomain)) (\<lambda>out.
     bindR (appendCredentialFields (out @ le32 1) (vaultRecordFields v)) (\<lambda>out.
     appendCredentialFields
       (out @ le64 (vr_RecipientDustSats v) @ le64 (vr_TxRecipientCapSats v) @
        le64 (vr_PeriodAllowanceSats v) @ le64 (vr_AbsoluteFeeCapSats v) @ le64 (vr_FeerateCapSatPerV v))
       [str_bytes (vr_SavingsAddress v), vr_SavingsScript v]))"

definition vaultRecordMAC :: "VaultRecord \<Rightarrow> bytes \<Rightarrow> bytes result" where
  "vaultRecordMAC v key =
     (if length key \<noteq> 32 then Inl (Errorf ''credential integrity key must be 32 bytes'')
      else bindR (vaultRecordPayload v) (\<lambda>out. Inr (hmac_sha256 key out)))"

definition sealVaultRecord :: "VaultRecord \<Rightarrow> bytes \<Rightarrow> VaultRecord result" where
  "sealVaultRecord v key = bindR (vaultRecordMAC v key) (\<lambda>mac. Inr (v\<lparr> vr_IntegrityMAC := mac \<rparr>))"

definition verifyVaultRecord :: "VaultRecord \<Rightarrow> bytes \<Rightarrow> unit result" where
  "verifyVaultRecord v key =
     (if length (vr_IntegrityMAC v) \<noteq> 32 then Inl (Errorf ''vault integrity MAC missing or malformed'')
      else bindR (vaultRecordMAC v key) (\<lambda>want.
        if vr_IntegrityMAC v \<noteq> want then Inl (Errorf ''vault integrity MAC mismatch'') else Inr ()))"

definition vaultCredentialPayload :: "VaultCredential \<Rightarrow> bytes result" where
  "vaultCredentialPayload c =
     bindR (appendCredentialField [] (str_bytes vaultCredentialMACDomain)) (\<lambda>out.
     bindR (appendCredentialFields out
       [vc_CredentialID c, str_bytes (vc_VaultID c), vc_WebAuthnP256 c, vc_UserHandle c]) (\<lambda>out.
     Inr (out @ [if vc_Resident c then 1 else 0])))"

definition vaultCredentialMAC :: "VaultCredential \<Rightarrow> bytes \<Rightarrow> bytes result" where
  "vaultCredentialMAC c key =
     (if length key \<noteq> 32 then Inl (Errorf ''credential integrity key must be 32 bytes'')
      else bindR (vaultCredentialPayload c) (\<lambda>out. Inr (hmac_sha256 key out)))"

definition sealVaultCredential :: "VaultCredential \<Rightarrow> bytes \<Rightarrow> VaultCredential result" where
  "sealVaultCredential c key = bindR (vaultCredentialMAC c key) (\<lambda>mac. Inr (c\<lparr> vc_IntegrityMAC := mac \<rparr>))"

definition verifyVaultCredential :: "VaultCredential \<Rightarrow> bytes \<Rightarrow> unit result" where
  "verifyVaultCredential c key =
     (if length (vc_IntegrityMAC c) \<noteq> 32 then
        Inl (Errorf ''vault credential integrity MAC missing or malformed'')
      else bindR (vaultCredentialMAC c key) (\<lambda>want.
        if vc_IntegrityMAC c \<noteq> want then Inl (Errorf ''vault credential integrity MAC mismatch'') else Inr ()))"

section \<open>The recovery envelope\<close>

definition validateCredentialEnvelope :: "CredentialEnvelope \<Rightarrow> unit result" where
  "validateCredentialEnvelope e =
     (if ce_Version e \<noteq> 2 then Inl (Errorf ''credential envelope version must be %d'')
      else if length (ce_Binding e) = 0 \<or> length (ce_Binding e) > 16 * 1024 then
        Inl (Errorf ''credential envelope binding must be 1..%d bytes'')
      else if length (ce_Nonce e) \<noteq> 12 then Inl (Errorf ''credential envelope nonce must be %d bytes'')
      else if length (ce_Ciphertext e) \<noteq> 48 then
        Inl (Errorf ''credential envelope ciphertext must be %d bytes'')
      else if length (ce_DirectSig e) \<noteq> 64 then
        Inl (Errorf ''credential envelope direct signature must be %d bytes'')
      else if length (ce_PhoneSig e) \<noteq> 64 then
        Inl (Errorf ''credential envelope phone signature must be %d bytes'')
      else if length (ce_IntegrityMAC e) \<noteq> 0 \<and> length (ce_IntegrityMAC e) \<noteq> 32 then
        Inl (Errorf ''credential envelope integrity MAC must be 32 bytes'')
      else Inr ())"

definition envelopeMACKey :: "bytes \<Rightarrow> string \<Rightarrow> bytes" where
  "envelopeMACKey integrityKey vaultID =
     hmac_sha256 (str_bytes vaultEnvelopeMACSalt) (integrityKey @ [0] @ str_bytes vaultID)"

definition DeriveVaultEnvelopeMACKey :: "bytes \<Rightarrow> string \<Rightarrow> bytes result" where
  "DeriveVaultEnvelopeMACKey integrityKey vaultID =
     (if length integrityKey \<noteq> 32 then Inl (Errorf ''credential integrity key must be 32 bytes'')
      else if vaultID = [] then Inl (Errorf ''vault id required'')
      else Inr (envelopeMACKey integrityKey vaultID))"

text \<open>\<open>uint32(len(b))\<close> followed by the bytes, as the payload writes each part.\<close>

definition vaultEnvelopePayload :: "CredentialEnvelope \<Rightarrow> string \<Rightarrow> bytes \<Rightarrow> bytes" where
  "vaultEnvelopePayload e vaultID credentialID =
     field_bytes (str_bytes vaultEnvelopeDomain) @ le32 (ce_Version e) @
     field_bytes (str_bytes vaultID) @ field_bytes credentialID @ field_bytes (str_bytes (ce_Binding e)) @
     field_bytes (ce_Nonce e) @ field_bytes (ce_Ciphertext e) @
     field_bytes (ce_DirectSig e) @ field_bytes (ce_PhoneSig e)"

definition vaultEnvelopeMAC :: "CredentialEnvelope \<Rightarrow> string \<Rightarrow> bytes \<Rightarrow> bytes \<Rightarrow> bytes result" where
  "vaultEnvelopeMAC e vaultID credentialID integrityKey =
     bindR (DeriveVaultEnvelopeMACKey integrityKey vaultID) (\<lambda>key.
     bindR (validateCredentialEnvelope e) (\<lambda>_.
     Inr (hmac_sha256 key (vaultEnvelopePayload e vaultID credentialID))))"

definition SealVaultEnvelope :: "CredentialEnvelope \<Rightarrow> string \<Rightarrow> bytes \<Rightarrow> bytes \<Rightarrow> CredentialEnvelope result" where
  "SealVaultEnvelope e vaultID credentialID integrityKey =
     bindR (vaultEnvelopeMAC e vaultID credentialID integrityKey) (\<lambda>mac. Inr (e\<lparr> ce_IntegrityMAC := mac \<rparr>))"

definition VerifyVaultEnvelope :: "CredentialEnvelope \<Rightarrow> string \<Rightarrow> bytes \<Rightarrow> bytes \<Rightarrow> unit result" where
  "VerifyVaultEnvelope e vaultID credentialID integrityKey =
     (if length (ce_IntegrityMAC e) \<noteq> 32 then
        Inl (Errorf ''credential envelope integrity MAC missing or malformed'')
      else bindR (vaultEnvelopeMAC e vaultID credentialID integrityKey) (\<lambda>want.
        if ce_IntegrityMAC e \<noteq> want then Inl (Errorf ''credential envelope integrity MAC mismatch'')
        else Inr ()))"

definition envelopesEqual :: "CredentialEnvelope \<Rightarrow> CredentialEnvelope \<Rightarrow> bool" where
  "envelopesEqual a b \<longleftrightarrow>
     ce_Version a = ce_Version b \<and> ce_Binding a = ce_Binding b \<and> ce_Nonce a = ce_Nonce b \<and>
     ce_Ciphertext a = ce_Ciphertext b \<and> ce_DirectSig a = ce_DirectSig b \<and>
     ce_PhoneSig a = ce_PhoneSig b \<and> ce_IntegrityMAC a = ce_IntegrityMAC b"

section \<open>Descriptor equality\<close>

fun firstDifference :: "(bool \<times> string) list \<Rightarrow> unit result" where
  "firstDifference [] = Inr ()"
| "firstDifference ((differs, name) # cases) = (if differs then Inl (Errorf name) else firstDifference cases)"

definition VaultRecordsCanonicallyEqual :: "VaultRecord \<Rightarrow> VaultRecord \<Rightarrow> unit result" where
  "VaultRecordsCanonicallyEqual got want = firstDifference
     [(vr_VaultID got \<noteq> vr_VaultID want, ''vault_id''),
      (vr_TemplateVersion got \<noteq> vr_TemplateVersion want, ''template_version''),
      (vr_PolicyVersion got \<noteq> vr_PolicyVersion want, ''policy_version''),
      (vr_ProtectionTier got \<noteq> vr_ProtectionTier want, ''protection_tier''),
      (vr_Network got \<noteq> vr_Network want, ''network''),
      (vr_RPID got \<noteq> vr_RPID want, ''rp_id''),
      (vr_Origin got \<noteq> vr_Origin want, ''origin''),
      (vr_PhoneBIP340 got \<noteq> vr_PhoneBIP340 want, ''phone_bip340''),
      (vr_PhoneDirectP256 got \<noteq> vr_PhoneDirectP256 want, ''phone_direct_p256''),
      (vr_ExternalOwnerWallet got \<noteq> vr_ExternalOwnerWallet want, ''external_owner_wallet''),
      (vr_RecoveryKey got \<noteq> vr_RecoveryKey want, ''recovery_key''),
      (vr_VaultCosignerBase got \<noteq> vr_VaultCosignerBase want, ''vault_cosigner_base''),
      (vr_ArkadeCosignerBase got \<noteq> vr_ArkadeCosignerBase want, ''arkade_cosigner_base''),
      (vr_ArkadeCosignerOrigin got \<noteq> vr_ArkadeCosignerOrigin want, ''arkade_cosigner_origin''),
      (vr_ArkadeCosignerVersion got \<noteq> vr_ArkadeCosignerVersion want, ''arkade_cosigner_version''),
      (vr_CosignerMode got \<noteq> vr_CosignerMode want, ''cosigner_mode''),
      (vr_SavingsAddress got \<noteq> vr_SavingsAddress want, ''savings_address''),
      (vr_SavingsScript got \<noteq> vr_SavingsScript want, ''savings_script''),
      (vr_RecipientDustSats got \<noteq> vr_RecipientDustSats want, ''recipient_dust_sats''),
      (vr_TxRecipientCapSats got \<noteq> vr_TxRecipientCapSats want, ''tx_recipient_cap_sats''),
      (vr_PeriodAllowanceSats got \<noteq> vr_PeriodAllowanceSats want, ''period_allowance_sats''),
      (vr_AbsoluteFeeCapSats got \<noteq> vr_AbsoluteFeeCapSats want, ''absolute_fee_cap_sats''),
      (vr_FeerateCapSatPerV got \<noteq> vr_FeerateCapSatPerV want, ''feerate_cap_sat_vb'')]"

definition VaultCredentialsCanonicallyEqual :: "VaultCredential \<Rightarrow> VaultCredential \<Rightarrow> unit result" where
  "VaultCredentialsCanonicallyEqual got want = firstDifference
     [(vc_CredentialID got \<noteq> vc_CredentialID want, ''credential_id''),
      (vc_VaultID got \<noteq> vc_VaultID want, ''vault_id''),
      (vc_WebAuthnP256 got \<noteq> vc_WebAuthnP256 want, ''webauthn_p256''),
      (vc_UserHandle got \<noteq> vc_UserHandle want, ''user_handle''),
      (vc_Resident got \<noteq> vc_Resident want, ''resident'')]"

section \<open>The contracts of the sealed records\<close>

lemma vaultRecordPayload_Inr:
  assumes "vaultRecordPayload v = Inr p"
  shows "list_all fits (vaultRecordFields v) \<and> fits (str_bytes (vr_SavingsAddress v)) \<and> fits (vr_SavingsScript v) \<and>
    p = field_bytes (str_bytes vaultRecordMACDomain) @ le32 1 @ concat (map field_bytes (vaultRecordFields v)) @
      le64 (vr_RecipientDustSats v) @ le64 (vr_TxRecipientCapSats v) @ le64 (vr_PeriodAllowanceSats v) @
      le64 (vr_AbsoluteFeeCapSats v) @ le64 (vr_FeerateCapSatPerV v) @
      field_bytes (str_bytes (vr_SavingsAddress v)) @ field_bytes (vr_SavingsScript v)"
  using assms
  by (auto simp: vaultRecordPayload_def res_simps appendCredentialField_Inr appendCredentialFields_Inr
      simp del: appendCredentialFields.simps)

lemma vaultRecordPayload_inject:
  assumes "vaultRecordPayload r = Inr p" and "vaultRecordPayload s = Inr p"
  shows "r\<lparr> vr_IntegrityMAC := [] \<rparr> = s\<lparr> vr_IntegrityMAC := [] \<rparr>"
proof -
  note r = vaultRecordPayload_Inr [OF assms(1)] and s = vaultRecordPayload_Inr [OF assms(2)]
  let ?amounts = "\<lambda>v. le64 (vr_RecipientDustSats v) @ le64 (vr_TxRecipientCapSats v) @ le64 (vr_PeriodAllowanceSats v) @
      le64 (vr_AbsoluteFeeCapSats v) @ le64 (vr_FeerateCapSatPerV v) @
      field_bytes (str_bytes (vr_SavingsAddress v)) @ field_bytes (vr_SavingsScript v)"
  have "vaultRecordFields r = vaultRecordFields s \<and> ?amounts r = ?amounts s"
    by (rule fields_append_inject) (use r s in \<open>auto simp: vaultRecordFields_def\<close>)
  with r s show ?thesis
    by (simp add: vaultRecordFields_def enc_inject field_bytes_append_inject field_bytes_inject)
qed

lemma vaultRecordPayload_mac [simp]: "vaultRecordPayload (v\<lparr> vr_IntegrityMAC := m \<rparr>) = vaultRecordPayload v"
  by (simp add: vaultRecordPayload_def vaultRecordFields_def)

interpretation vault_seal: sealed_record vaultRecordPayload sealVaultRecord verifyVaultRecord
  vr_IntegrityMAC "\<lambda>m v. v\<lparr> vr_IntegrityMAC := m \<rparr>" "\<lambda>_. True" hmac_sha256
  by unfold_locales
    (auto simp: sealVaultRecord_def verifyVaultRecord_def vaultRecordMAC_def res_simps
      dest: vaultRecordPayload_inject)

lemma vaultCredentialPayload_Inr:
  assumes "vaultCredentialPayload c = Inr p"
  shows "list_all fits [vc_CredentialID c, str_bytes (vc_VaultID c), vc_WebAuthnP256 c, vc_UserHandle c] \<and>
    p = field_bytes (str_bytes vaultCredentialMACDomain) @
      concat (map field_bytes [vc_CredentialID c, str_bytes (vc_VaultID c), vc_WebAuthnP256 c, vc_UserHandle c]) @
      [if vc_Resident c then 1 else 0]"
  using assms
  by (auto simp: vaultCredentialPayload_def res_simps appendCredentialField_Inr appendCredentialFields_Inr
      simp del: appendCredentialFields.simps)

lemma vaultCredentialPayload_inject:
  assumes "vaultCredentialPayload r = Inr p" and "vaultCredentialPayload s = Inr p"
  shows "r\<lparr> vc_IntegrityMAC := [] \<rparr> = s\<lparr> vc_IntegrityMAC := [] \<rparr>"
proof -
  note r = vaultCredentialPayload_Inr [OF assms(1)] and s = vaultCredentialPayload_Inr [OF assms(2)]
  have "[vc_CredentialID r, str_bytes (vc_VaultID r), vc_WebAuthnP256 r, vc_UserHandle r] =
      [vc_CredentialID s, str_bytes (vc_VaultID s), vc_WebAuthnP256 s, vc_UserHandle s] \<and>
      [if vc_Resident r then 1 else 0 :: byte] = [if vc_Resident s then 1 else 0]"
    by (rule fields_append_inject) (use r s in simp_all)
  then show ?thesis by (simp split: if_splits)
qed

lemma vaultCredentialPayload_mac [simp]:
  "vaultCredentialPayload (c\<lparr> vc_IntegrityMAC := m \<rparr>) = vaultCredentialPayload c"
  by (simp add: vaultCredentialPayload_def)

interpretation cred_seal: sealed_record vaultCredentialPayload sealVaultCredential verifyVaultCredential
  vc_IntegrityMAC "\<lambda>m c. c\<lparr> vc_IntegrityMAC := m \<rparr>" "\<lambda>_. True" hmac_sha256
  by unfold_locales
    (auto simp: sealVaultCredential_def verifyVaultCredential_def vaultCredentialMAC_def res_simps
      dest: vaultCredentialPayload_inject)

lemma firstDifference_iff: "firstDifference cs = Inr () \<longleftrightarrow> (\<forall>c \<in> set cs. \<not> fst c)"
  by (induction cs rule: firstDifference.induct) auto

lemma VaultRecordsCanonicallyEqual_iff:
  "VaultRecordsCanonicallyEqual a b = Inr () \<longleftrightarrow> a\<lparr> vr_IntegrityMAC := [] \<rparr> = b\<lparr> vr_IntegrityMAC := [] \<rparr>"
  unfolding VaultRecordsCanonicallyEqual_def firstDifference_iff by (cases a; cases b) auto

lemma VaultCredentialsCanonicallyEqual_iff:
  "VaultCredentialsCanonicallyEqual a b = Inr () \<longleftrightarrow> a\<lparr> vc_IntegrityMAC := [] \<rparr> = b\<lparr> vc_IntegrityMAC := [] \<rparr>"
  unfolding VaultCredentialsCanonicallyEqual_def firstDifference_iff by (cases a; cases b) auto

lemma envelopesEqual_iff [simp]: "envelopesEqual a b \<longleftrightarrow> a = b"
  by (cases a; cases b) (auto simp: envelopesEqual_def)

lemma toCredential_vaultRecord:
  "vr_CosignerMode v = CosignerModeHKDFSHA256V1 \<Longrightarrow>
     vaultRecordFromCredential (toCredential v c) = v\<lparr> vr_IntegrityMAC := [] \<rparr>"
  by (simp add: vaultRecordFromCredential_def toCredential_def)

end
