(* ===== verification/Vtxo.thy ===== *)
theory Vtxo
  imports Integrity "HOL-Library.Product_Lexorder"
begin

text \<open>
  \<open>internal/policy/vtxo.go\<close>: the spending operation and its reserved inputs, their canonical
  serialisations and seals, the canonical order of a bundle's inputs, the digests the phone
  signs, and the classification of operation states.

  The fields of the Go structs keep their names behind a prefix (\<open>vo_\<close>, \<open>vi_\<close>, \<open>vb_\<close>).
  A Go \<open>*uint32\<close> is a \<open>u32 option\<close>.
\<close>

section \<open>Data\<close>

abbreviation vtxoPurposeSpend :: string where "vtxoPurposeSpend \<equiv> ''spend''"
abbreviation vtxoStateReserved :: string where "vtxoStateReserved \<equiv> ''reserved''"
abbreviation vtxoStateSigned :: string where "vtxoStateSigned \<equiv> ''signed''"
abbreviation vtxoStateSubmitted :: string where "vtxoStateSubmitted \<equiv> ''submitted''"
abbreviation vtxoStateFinalized :: string where "vtxoStateFinalized \<equiv> ''finalized''"
abbreviation vtxoStateAborted :: string where "vtxoStateAborted \<equiv> ''aborted''"
abbreviation vtxoStateUnresolved :: string where "vtxoStateUnresolved \<equiv> ''unresolved''"
abbreviation MaxVtxoOperationInputs :: nat where "MaxVtxoOperationInputs \<equiv> 50"
abbreviation vtxoOperationCanonicalVer :: u32 where "vtxoOperationCanonicalVer \<equiv> 2"
abbreviation vtxoOperationInputKind :: string where "vtxoOperationInputKind \<equiv> ''input''"

abbreviation vtxoOperationMACDomain :: string where
  "vtxoOperationMACDomain \<equiv> ''arkade-2fa-vault/vtxo-operation/v1''"
abbreviation vtxoBundleDigestTag :: string where
  "vtxoBundleDigestTag \<equiv> ''arkade-2fa-vault/vtxo-bundle/v1''"
abbreviation vtxoReserveDigestTag :: string where
  "vtxoReserveDigestTag \<equiv> ''arkade-vault/vtxo-reserve/v1''"
abbreviation vtxoAbortDigestTag :: string where
  "vtxoAbortDigestTag \<equiv> ''arkade-vault/vtxo-abort/v1''"
abbreviation VtxoFeePolicyDigestTag :: string where
  "VtxoFeePolicyDigestTag \<equiv> ''arkade-vault/arkade-intent-fee-policy/v1''"

record VtxoOperation =
  vo_OperationID :: string
  vo_VaultID :: string
  vo_Purpose :: string
  vo_BundleDigest :: bytes
  vo_State :: string
  vo_AmountSats :: i64
  vo_FeeSats :: i64
  vo_FeePolicyDigest :: bytes
  vo_DestScript :: bytes
  vo_ChangeScript :: bytes
  vo_ChangeSats :: i64
  vo_ChangeVout :: "u32 option"
  vo_UnsignedPSBT :: string
  vo_AuthorizedPSBT :: string
  vo_PendingProofDigest :: bytes
  vo_AuthorizedPendingProof :: string
  vo_CheckpointPSBTs :: string
  vo_CheckpointRequestPSBTs :: string
  vo_CheckpointTapscript :: bytes
  vo_ArkTxid :: string
  vo_ExpiresAt :: string
  vo_CreatedAt :: string
  vo_LastDestScript :: bytes
  vo_IntegrityMAC :: bytes

record VtxoOperationInput =
  vi_OperationID :: string
  vi_Txid :: bytes
  vi_Vout :: i64
  vi_ValueSats :: i64
  vi_Script :: bytes
  vi_IntegrityMAC :: bytes

record VtxoBundleInput =
  vb_Txid :: bytes
  vb_Vout :: u32
  vb_ValueSats :: u64

section \<open>Operation states\<close>

definition requireVtxoState :: "string \<Rightarrow> unit result" where
  "requireVtxoState state =
     (if state \<in> {vtxoStateReserved, vtxoStateSigned, vtxoStateSubmitted,
        vtxoStateFinalized, vtxoStateAborted, vtxoStateUnresolved} then Inr ()
      else Inl (Errorf ''unknown vtxo operation state''))"

definition vtxoStateCountsTowardAllowance :: "string \<Rightarrow> bool" where
  "vtxoStateCountsTowardAllowance state \<longleftrightarrow>
     state \<in> {vtxoStateReserved, vtxoStateSigned, vtxoStateSubmitted,
       vtxoStateFinalized, vtxoStateUnresolved}"

definition vtxoStateAwaitingSettlement :: "string \<Rightarrow> bool" where
  "vtxoStateAwaitingSettlement state \<longleftrightarrow> state = vtxoStateSigned \<or> state = vtxoStateSubmitted"

definition vtxoStateBlocksNewOperation :: "string \<Rightarrow> bool" where
  "vtxoStateBlocksNewOperation state \<longleftrightarrow>
     state \<in> {vtxoStateReserved, vtxoStateSigned, vtxoStateSubmitted, vtxoStateUnresolved}"

definition vtxoStateLocksInputs :: "string \<Rightarrow> bool" where
  "vtxoStateLocksInputs state \<longleftrightarrow>
     state \<in> {vtxoStateReserved, vtxoStateSigned, vtxoStateSubmitted, vtxoStateFinalized}"

lemmas vtxo_state_defs = requireVtxoState_def vtxoStateCountsTowardAllowance_def
  vtxoStateAwaitingSettlement_def vtxoStateBlocksNewOperation_def vtxoStateLocksInputs_def

section \<open>Canonical serialisation and seals\<close>

definition vtxoVoutBytes :: "u32 option \<Rightarrow> bytes" where
  "vtxoVoutBytes vout = (case vout of None \<Rightarrow> [0] | Some v \<Rightarrow> 1 # le32 v)"

text \<open>The length-prefixed fields of an operation, in the order they are written.\<close>

definition operationFields :: "VtxoOperation \<Rightarrow> bytes list" where
  "operationFields rec =
     [str_bytes (vo_OperationID rec), str_bytes (vo_VaultID rec), str_bytes (vo_Purpose rec),
      vo_BundleDigest rec, str_bytes (vo_State rec), vo_FeePolicyDigest rec,
      vo_DestScript rec, vo_ChangeScript rec,
      str_bytes (vo_UnsignedPSBT rec), str_bytes (vo_AuthorizedPSBT rec),
      vo_PendingProofDigest rec, str_bytes (vo_AuthorizedPendingProof rec),
      str_bytes (vo_CheckpointPSBTs rec), str_bytes (vo_CheckpointRequestPSBTs rec),
      vo_CheckpointTapscript rec, str_bytes (vo_ArkTxid rec), str_bytes (vo_ExpiresAt rec),
      str_bytes (vo_CreatedAt rec), vo_LastDestScript rec]"

definition canonicalVtxoOperation :: "VtxoOperation \<Rightarrow> bytes result" where
  "canonicalVtxoOperation rec =
     (if vo_OperationID rec = [] \<or> vo_VaultID rec = [] then
        Inl (Errorf ''vtxo operation identity required'')
      else if vo_Purpose rec \<noteq> vtxoPurposeSpend then Inl (Errorf ''vtxo purpose must be spend'')
      else bindR (requireVtxoState (vo_State rec)) (\<lambda>_.
      if length (vo_BundleDigest rec) \<noteq> 32 then Inl (Errorf ''bundle digest must be 32 bytes'')
      else if sint (vo_AmountSats rec) < 0 \<or> sint (vo_FeeSats rec) < 0 \<or> sint (vo_ChangeSats rec) < 0 then
        Inl (Errorf ''negative vtxo outflow'')
      else if length (vo_FeePolicyDigest rec) \<noteq> 32 then
        Inl (Errorf ''fee policy digest must be 32 bytes'')
      else if (length (vo_PendingProofDigest rec) = 0) \<noteq> (vo_AuthorizedPendingProof rec = []) then
        Inl (Errorf ''pending proof persistence must be all-or-nothing'')
      else if length (vo_PendingProofDigest rec) \<noteq> 0 \<and> length (vo_PendingProofDigest rec) \<noteq> 32 then
        Inl (Errorf ''pending proof digest must be 32 bytes'')
      else if sint (vo_ChangeSats rec) = 0 \<and> (vo_ChangeVout rec \<noteq> None \<or> length (vo_ChangeScript rec) \<noteq> 0) then
        Inl (Errorf ''invalid no-change shape'')
      else if sint (vo_ChangeSats rec) \<noteq> 0 \<and>
          (sint (vo_ChangeSats rec) < sint DustSats \<or> vo_ChangeVout rec \<noteq> Some 1 \<or> length (vo_ChangeScript rec) = 0) then
        Inl (Errorf ''invalid change shape'')
      else
        bindR (appendCredentialField [] (str_bytes vtxoOperationMACDomain)) (\<lambda>out.
        bindR (appendCredentialFields (out @ le32 vtxoOperationCanonicalVer) (operationFields rec)) (\<lambda>out.
        Inr (out @ le64 (vo_AmountSats rec) @ le64 (vo_FeeSats rec) @ le64 (vo_ChangeSats rec) @
             vtxoVoutBytes (vo_ChangeVout rec))))))"

definition canonicalVtxoOperationInput :: "VtxoOperationInput \<Rightarrow> bytes result" where
  "canonicalVtxoOperationInput rec =
     (if vi_OperationID rec = [] then Inl (Errorf ''vtxo operation id required'')
      else if length (vi_Txid rec) \<noteq> 32 then Inl (Errorf ''vtxo input txid must be 32 bytes'')
      else if sint (vi_Vout rec) < 0 then Inl (Errorf ''vtxo input vout'')
      else if sint (vi_ValueSats rec) < 0 then Inl (Errorf ''negative vtxo input value'')
      else
        bindR (appendCredentialField [] (str_bytes vtxoOperationMACDomain)) (\<lambda>out.
        bindR (appendCredentialField (out @ le32 vtxoOperationCanonicalVer) (str_bytes vtxoOperationInputKind)) (\<lambda>out.
        bindR (appendCredentialField out (str_bytes (vi_OperationID rec))) (\<lambda>out.
        bindR (appendCredentialField out (vi_Txid rec)) (\<lambda>out.
        bindR (appendCredentialField
            (out @ le32 (ucast (vi_Vout rec)) @ le64 (vi_ValueSats rec)) (vi_Script rec)) (\<lambda>out.
        Inr out))))))"

definition vtxoOperationMAC :: "VtxoOperation \<Rightarrow> bytes \<Rightarrow> bytes result" where
  "vtxoOperationMAC rec integrityKey =
     (if length integrityKey \<noteq> 32 then
        Inl (Errorf ''vtxo operation integrity key must be 32 bytes'')
      else bindR (canonicalVtxoOperation rec) (\<lambda>payload. Inr (hmac_sha256 integrityKey payload)))"

definition vtxoOperationInputMAC :: "VtxoOperationInput \<Rightarrow> bytes \<Rightarrow> bytes result" where
  "vtxoOperationInputMAC rec integrityKey =
     (if length integrityKey \<noteq> 32 then
        Inl (Errorf ''vtxo operation integrity key must be 32 bytes'')
      else bindR (canonicalVtxoOperationInput rec) (\<lambda>payload. Inr (hmac_sha256 integrityKey payload)))"

definition SealVtxoOperation :: "VtxoOperation \<Rightarrow> bytes \<Rightarrow> VtxoOperation result" where
  "SealVtxoOperation rec integrityKey =
     bindR (vtxoOperationMAC rec integrityKey) (\<lambda>mac. Inr (rec\<lparr> vo_IntegrityMAC := mac \<rparr>))"

definition VerifyVtxoOperation :: "VtxoOperation \<Rightarrow> bytes \<Rightarrow> unit result" where
  "VerifyVtxoOperation rec integrityKey =
     (if length (vo_IntegrityMAC rec) \<noteq> 32 then
        Inl (Errorf ''vtxo operation integrity MAC missing or malformed'')
      else bindR (vtxoOperationMAC rec integrityKey) (\<lambda>want.
        if vo_IntegrityMAC rec \<noteq> want then Inl (Errorf ''vtxo operation integrity MAC mismatch'')
        else Inr ()))"

definition SealVtxoOperationInput :: "VtxoOperationInput \<Rightarrow> bytes \<Rightarrow> VtxoOperationInput result" where
  "SealVtxoOperationInput rec integrityKey =
     bindR (vtxoOperationInputMAC rec integrityKey) (\<lambda>mac. Inr (rec\<lparr> vi_IntegrityMAC := mac \<rparr>))"

definition VerifyVtxoOperationInput :: "VtxoOperationInput \<Rightarrow> bytes \<Rightarrow> unit result" where
  "VerifyVtxoOperationInput rec integrityKey =
     (if length (vi_IntegrityMAC rec) \<noteq> 32 then
        Inl (Errorf ''vtxo operation input integrity MAC missing or malformed'')
      else bindR (vtxoOperationInputMAC rec integrityKey) (\<lambda>want.
        if vi_IntegrityMAC rec \<noteq> want then
          Inl (Errorf ''vtxo operation input integrity MAC mismatch'')
        else Inr ()))"

section \<open>Canonical bundle order\<close>

definition canonicalVtxoTxid :: "bytes \<Rightarrow> (string \<times> bytes) result" where
  "canonicalVtxoTxid txid =
     (if length txid = 32 then Inr (hex_encode txid, txid)
      else if length txid = 64 then
        (case hex_decode (to_lower (bytes_str txid)) of
           None \<Rightarrow> Inl (Errorf ''vtxo input txid must be 32 bytes or 64 hex chars'')
         | Some decoded \<Rightarrow>
             if length decoded \<noteq> 32 then
               Inl (Errorf ''vtxo input txid must be 32 bytes or 64 hex chars'')
             else Inr (hex_encode decoded, decoded))
      else Inl (Errorf ''vtxo input txid must be 32 bytes or 64 hex chars''))"

text \<open>The loop over the caller's inputs: \<open>seen\<close> holds the outpoint keys met so far, and each
  normalised input is paired with its hexadecimal transaction id.\<close>

fun collectKeyed :: "string list \<Rightarrow> VtxoBundleInput list \<Rightarrow> (VtxoBundleInput \<times> string) list result" where
  "collectKeyed seen [] = Inr []"
| "collectKeyed seen (i # is) =
     bindR (canonicalVtxoTxid (vb_Txid i)) (\<lambda>(canon, raw).
       let key = canon @ '':'' @ dec_encode (unat (vb_Vout i)) in
       if key \<in> set seen then Inl (Errorf ''duplicate vtxo outpoint'')
       else bindR (collectKeyed (key # seen) is) (\<lambda>rest. Inr ((i\<lparr> vb_Txid := raw \<rparr>, canon) # rest)))"

definition keyedOrder :: "VtxoBundleInput \<times> string \<Rightarrow> string \<times> u32" where
  "keyedOrder k = (snd k, vb_Vout (fst k))"

definition CanonicalVtxoBundleInputs :: "VtxoBundleInput list \<Rightarrow> VtxoBundleInput list result" where
  "CanonicalVtxoBundleInputs inputs =
     (if length inputs > 0xffff then Inl (Errorf ''too many vtxo inputs'')
      else bindR (collectKeyed [] inputs) (\<lambda>ordered. Inr (map fst (sort_key keyedOrder ordered))))"

section \<open>Digests\<close>

definition bundleInputBytes :: "VtxoBundleInput \<Rightarrow> bytes" where
  "bundleInputBytes i = vb_Txid i @ le32 (vb_Vout i) @ le64 (vb_ValueSats i)"

definition vtxoBundlePayload ::
  "string \<Rightarrow> string \<Rightarrow> bytes \<Rightarrow> bytes \<Rightarrow> u64 \<Rightarrow> u64 \<Rightarrow> u64 \<Rightarrow> u32 option \<Rightarrow> bytes \<Rightarrow>
     VtxoBundleInput list \<Rightarrow> string \<Rightarrow> bytes result" where
  "vtxoBundlePayload purpose vaultID destScript changeScript amountSats feeSats changeSats changeVout
      feePolicyDigest inputs createdAt =
     (if purpose \<noteq> vtxoPurposeSpend then Inl (Errorf ''vtxo purpose must be spend'')
      else if vaultID = [] then Inl (Errorf ''vault id required'')
      else if length feePolicyDigest \<noteq> 32 then Inl (Errorf ''fee policy digest must be 32 bytes'')
      else if changeSats = 0 \<and> (changeVout \<noteq> None \<or> length changeScript \<noteq> 0) then
        Inl (Errorf ''invalid no-change shape'')
      else if changeSats \<noteq> 0 \<and> (changeSats < 330 \<or> changeVout \<noteq> Some 1 \<or> length changeScript = 0) then
        Inl (Errorf ''invalid change shape'')
      else bindR (CanonicalVtxoBundleInputs inputs) (\<lambda>ordered.
      if length ordered = 0 \<or> length ordered > MaxVtxoOperationInputs then
        Inl (Errorf ''vtxo input count must be 1..%d'')
      else
        bindR (appendCredentialField [] (str_bytes purpose)) (\<lambda>payload.
        bindR (appendCredentialField payload (str_bytes vaultID)) (\<lambda>payload.
        bindR (appendCredentialField payload destScript) (\<lambda>payload.
        bindR (appendCredentialField (payload @ le64 amountSats) changeScript) (\<lambda>payload.
        bindR (appendCredentialField
          (payload @ le64 feeSats @ le64 changeSats @ vtxoVoutBytes changeVout) feePolicyDigest) (\<lambda>payload.
        bindR (appendCredentialField
          (payload @ le16 (word_of_nat (length ordered)) @ concat (map bundleInputBytes ordered))
          (str_bytes createdAt)) (\<lambda>payload. Inr payload))))))))"

definition ComputeVtxoBundleDigest ::
  "string \<Rightarrow> string \<Rightarrow> bytes \<Rightarrow> bytes \<Rightarrow> u64 \<Rightarrow> u64 \<Rightarrow> u64 \<Rightarrow> u32 option \<Rightarrow> bytes \<Rightarrow>
     VtxoBundleInput list \<Rightarrow> string \<Rightarrow> bytes result" where
  "ComputeVtxoBundleDigest purpose vaultID destScript changeScript amountSats feeSats changeSats
      changeVout feePolicyDigest inputs createdAt =
     bindR (vtxoBundlePayload purpose vaultID destScript changeScript amountSats feeSats changeSats
       changeVout feePolicyDigest inputs createdAt)
       (\<lambda>payload. Inr (taggedSHA256 vtxoBundleDigestTag payload))"

definition ComputeIntentFeePolicyDigest :: "string \<Rightarrow> string \<Rightarrow> string \<Rightarrow> string \<Rightarrow> bytes" where
  "ComputeIntentFeePolicyDigest offchainInput offchainOutput onchainInput onchainOutput =
     taggedSHA256 VtxoFeePolicyDigestTag
       (concat (map (\<lambda>program. le32 (word_of_nat (length program)) @ str_bytes program)
          [offchainInput, offchainOutput, onchainInput, onchainOutput]))"

definition decodeOperationID :: "string \<Rightarrow> bytes result" where
  "decodeOperationID operationID =
     (case hex_decode operationID of
        None \<Rightarrow> Inl (Errorf ''operation id must be 16 bytes encoded as lowercase hex'')
      | Some raw \<Rightarrow>
          if length raw \<noteq> 16 \<or> operationID \<noteq> to_lower operationID then
            Inl (Errorf ''operation id must be 16 bytes encoded as lowercase hex'')
          else Inr raw)"

definition vtxoReservePayload :: "string \<Rightarrow> string \<Rightarrow> string \<Rightarrow> bytes \<Rightarrow> u64 \<Rightarrow> bytes result" where
  "vtxoReservePayload operationID vaultID purpose destScript amountSats =
     bindR (decodeOperationID operationID) (\<lambda>operationRaw.
       if vaultID = [] then Inl (Errorf ''vault id required'')
       else if purpose \<noteq> vtxoPurposeSpend then Inl (Errorf ''vtxo purpose must be spend'')
       else if length destScript = 0 then Inl (Errorf ''destination script required'')
       else if amountSats = 0 then Inl (Errorf ''amount required'')
       else bindR (appendCredentialFields (le32 1)
           [operationRaw, str_bytes vaultID, str_bytes purpose, destScript]) (\<lambda>payload.
         Inr (payload @ le64 amountSats)))"

definition ComputeVtxoReserveDigest :: "string \<Rightarrow> string \<Rightarrow> string \<Rightarrow> bytes \<Rightarrow> u64 \<Rightarrow> bytes result" where
  "ComputeVtxoReserveDigest operationID vaultID purpose destScript amountSats =
     bindR (vtxoReservePayload operationID vaultID purpose destScript amountSats)
       (\<lambda>payload. Inr (taggedSHA256 vtxoReserveDigestTag payload))"

definition vtxoAbortPayload :: "string \<Rightarrow> string \<Rightarrow> string \<Rightarrow> bytes result" where
  "vtxoAbortPayload operationID vaultID purpose =
     bindR (decodeOperationID operationID) (\<lambda>operationRaw.
       if vaultID = [] then Inl (Errorf ''vault id required'')
       else if purpose \<noteq> vtxoPurposeSpend then Inl (Errorf ''vtxo purpose must be spend'')
       else appendCredentialFields (le32 1) [operationRaw, str_bytes vaultID, str_bytes purpose])"

definition ComputeVtxoAbortDigest :: "string \<Rightarrow> string \<Rightarrow> string \<Rightarrow> bytes result" where
  "ComputeVtxoAbortDigest operationID vaultID purpose =
     bindR (vtxoAbortPayload operationID vaultID purpose)
       (\<lambda>payload. Inr (taggedSHA256 vtxoAbortDigestTag payload))"

section \<open>Reading the canonical serialisations back\<close>

text \<open>The part of the payload that precedes every field of an operation or an input.\<close>

lemma vtxoVoutBytes_inject [simp]: "vtxoVoutBytes a = vtxoVoutBytes b \<longleftrightarrow> a = b"
  by (auto simp: vtxoVoutBytes_def split: option.splits)

lemma vtxoVoutBytes_append_inject [enc_inject]:
  "vtxoVoutBytes a @ x = vtxoVoutBytes b @ y \<longleftrightarrow> a = b \<and> x = y"
  by (auto simp: vtxoVoutBytes_def enc_inject split: option.splits)

definition operationHeader :: bytes where
  "operationHeader = field_bytes (str_bytes vtxoOperationMACDomain) @ le32 vtxoOperationCanonicalVer"

lemma canonicalVtxoOperation_Inr:
  assumes "canonicalVtxoOperation rec = Inr p"
  shows "list_all fits (operationFields rec) \<and>
    p = operationHeader @ concat (map field_bytes (operationFields rec)) @
      le64 (vo_AmountSats rec) @ le64 (vo_FeeSats rec) @ le64 (vo_ChangeSats rec) @
      vtxoVoutBytes (vo_ChangeVout rec)"
  using assms
  by (simp add: canonicalVtxoOperation_def res_simps appendCredentialField_Inr
      appendCredentialFields_Inr operationHeader_def split: if_splits)

lemma canonicalVtxoOperation_inject:
  assumes "canonicalVtxoOperation r = Inr p" and "canonicalVtxoOperation s = Inr p"
  shows "r\<lparr> vo_IntegrityMAC := [] \<rparr> = s\<lparr> vo_IntegrityMAC := [] \<rparr>"
proof -
  note r = canonicalVtxoOperation_Inr [OF assms(1)] and s = canonicalVtxoOperation_Inr [OF assms(2)]
  have "operationFields r = operationFields s \<and>
      le64 (vo_AmountSats r) @ le64 (vo_FeeSats r) @ le64 (vo_ChangeSats r) @ vtxoVoutBytes (vo_ChangeVout r) =
      le64 (vo_AmountSats s) @ le64 (vo_FeeSats s) @ le64 (vo_ChangeSats s) @ vtxoVoutBytes (vo_ChangeVout s)"
    by (rule fields_append_inject) (use r s in \<open>auto simp: operationFields_def\<close>)
  then show ?thesis
    by (simp add: operationFields_def enc_inject)
qed

lemma operationFields_mac [simp]: "operationFields (rec\<lparr> vo_IntegrityMAC := m \<rparr>) = operationFields rec"
  by (simp add: operationFields_def)

lemma canonicalVtxoOperation_mac [simp]:
  "canonicalVtxoOperation (rec\<lparr> vo_IntegrityMAC := m \<rparr>) = canonicalVtxoOperation rec"
  by (simp add: canonicalVtxoOperation_def)

interpretation op_seal: sealed_record canonicalVtxoOperation SealVtxoOperation VerifyVtxoOperation
  vo_IntegrityMAC "\<lambda>m r. r\<lparr> vo_IntegrityMAC := m \<rparr>" "\<lambda>_. True" hmac_sha256
  by unfold_locales
    (auto simp: SealVtxoOperation_def VerifyVtxoOperation_def vtxoOperationMAC_def res_simps
      dest: canonicalVtxoOperation_inject)

lemma canonicalVtxoOperationInput_Inr:
  assumes "canonicalVtxoOperationInput rec = Inr p"
  shows "fits (str_bytes (vi_OperationID rec)) \<and> length (vi_Txid rec) = 32 \<and> fits (vi_Script rec) \<and>
    p = operationHeader @ field_bytes (str_bytes vtxoOperationInputKind) @
      field_bytes (str_bytes (vi_OperationID rec)) @ field_bytes (vi_Txid rec) @
      le32 (ucast (vi_Vout rec)) @ le64 (vi_ValueSats rec) @ field_bytes (vi_Script rec)"
  using assms
  by (simp add: canonicalVtxoOperationInput_def res_simps appendCredentialField_Inr
      operationHeader_def split: if_splits)

definition voutFits :: "VtxoOperationInput \<Rightarrow> bool" where
  "voutFits rec \<longleftrightarrow> uint (vi_Vout rec) < 2 ^ 32"

lemma ucast_vout_inject:
  fixes a b :: i64
  assumes "(ucast a :: u32) = ucast b" and "uint a < 2 ^ 32" and "uint b < 2 ^ 32"
  shows "a = b"
proof -
  from assms(1) have "uint (ucast a :: u32) = uint (ucast b :: u32)" by simp
  with assms(2,3) have "uint a = uint b"
    by (simp add: uint_up_ucast unsigned_ucast_eq take_bit_int_eq_self)
  then show ?thesis by (simp add: word_uint_eq_iff)
qed

lemma canonicalVtxoOperationInput_inject:
  assumes "canonicalVtxoOperationInput r = Inr p" and "canonicalVtxoOperationInput s = Inr p"
    and "voutFits r" and "voutFits s"
  shows "r\<lparr> vi_IntegrityMAC := [] \<rparr> = s\<lparr> vi_IntegrityMAC := [] \<rparr>"
proof -
  note r = canonicalVtxoOperationInput_Inr [OF assms(1)] and s = canonicalVtxoOperationInput_Inr [OF assms(2)]
  have f: "fits (vi_Txid r)" "fits (vi_Txid s)" using r s by (simp_all add: fits_def)
  from r s f have "vi_OperationID r = vi_OperationID s" "vi_Txid r = vi_Txid s"
    and v: "(ucast (vi_Vout r) :: u32) = ucast (vi_Vout s)"
    and "vi_ValueSats r = vi_ValueSats s" "vi_Script r = vi_Script s"
    by (auto simp: field_bytes_append_inject enc_inject
        field_bytes_append_inject [where x = "[]" and y = "[]", simplified])
  with ucast_vout_inject [OF v] assms(3,4) show ?thesis by (simp add: voutFits_def)
qed

lemma canonicalVtxoOperationInput_mac [simp]:
  "canonicalVtxoOperationInput (rec\<lparr> vi_IntegrityMAC := m \<rparr>) = canonicalVtxoOperationInput rec"
  by (simp add: canonicalVtxoOperationInput_def)

interpretation input_seal: sealed_record canonicalVtxoOperationInput SealVtxoOperationInput
  VerifyVtxoOperationInput vi_IntegrityMAC "\<lambda>m r. r\<lparr> vi_IntegrityMAC := m \<rparr>" voutFits hmac_sha256
  by unfold_locales
    (auto simp: SealVtxoOperationInput_def VerifyVtxoOperationInput_def vtxoOperationInputMAC_def res_simps
      dest: canonicalVtxoOperationInput_inject)

lemma payloads_disjoint:
  assumes "canonicalVtxoOperation r = Inr p" and "canonicalVtxoOperationInput i = Inr q"
  shows "p \<noteq> q"
proof
  assume eq: "p = q"
  note r = canonicalVtxoOperation_Inr [OF assms(1)] and i = canonicalVtxoOperationInput_Inr [OF assms(2)]
  from assms(1) have sp: "vo_Purpose r = vtxoPurposeSpend"
    by (auto simp: canonicalVtxoOperation_def split: if_splits)
  have f: "fits (vi_Txid i)" "fits (str_bytes vtxoOperationInputKind)" using i by (simp_all add: fits_def)
  from eq r i f have "str_bytes (vo_Purpose r) = vi_Txid i"
    by (auto simp: operationFields_def field_bytes_append_inject simp del: str_bytes_eq_iff)
  then have "length (vo_Purpose r) = 32" using i by (metis length_str_bytes)
  with sp show False by simp
qed

section \<open>The canonical order\<close>

definition normalizeBundleInput :: "VtxoBundleInput \<Rightarrow> VtxoBundleInput result" where
  "normalizeBundleInput i =
     bindR (canonicalVtxoTxid (vb_Txid i)) (\<lambda>(canon, raw). Inr (i\<lparr> vb_Txid := raw \<rparr>))"

definition outpointOrder :: "VtxoBundleInput \<Rightarrow> string \<times> u32" where
  "outpointOrder i = (hex_encode (vb_Txid i), vb_Vout i)"

definition outpointKey :: "string \<times> u32 \<Rightarrow> string" where
  "outpointKey k = fst k @ '':'' @ dec_encode (unat (snd k))"

lemma canonicalVtxoTxid_Inr:
  "canonicalVtxoTxid t = Inr (c, raw) \<Longrightarrow> length raw = 32 \<and> c = hex_encode raw"
  by (auto simp: canonicalVtxoTxid_def split: if_splits option.splits)

lemma canonicalVtxoTxid_raw: "length t = 32 \<Longrightarrow> canonicalVtxoTxid t = Inr (hex_encode t, t)"
  by (simp add: canonicalVtxoTxid_def)

lemma normalizeBundleInput_Inr:
  "normalizeBundleInput i = Inr j \<Longrightarrow> length (vb_Txid j) = 32"
  by (auto simp: normalizeBundleInput_def res_simps dest: canonicalVtxoTxid_Inr)

lemma normalizeBundleInput_id: "length (vb_Txid i) = 32 \<Longrightarrow> normalizeBundleInput i = Inr i"
  by (simp add: normalizeBundleInput_def canonicalVtxoTxid_raw)

lemma outpointKey_inject:
  assumes "length (fst a) = length (fst b)" and "outpointKey a = outpointKey b"
  shows "a = b"
proof -
  from assms have "fst a = fst b" and "dec_encode (unat (snd a)) = dec_encode (unat (snd b))"
    by (auto simp: outpointKey_def)
  moreover from this(2) have "unat (snd a) = unat (snd b)" by (metis dec_encode_props)
  ultimately show ?thesis by (simp add: prod_eq_iff word_unat_eq_iff)
qed

text \<open>The loop normalises every input and accepts exactly when no outpoint repeats.\<close>

lemma collectKeyed_iff:
  "collectKeyed seen is = Inr ks \<longleftrightarrow>
     (\<exists>js. mapR normalizeBundleInput is = Inr js \<and> ks = map (\<lambda>j. (j, hex_encode (vb_Txid j))) js \<and>
        distinct (map (outpointKey \<circ> outpointOrder) js) \<and>
        set (map (outpointKey \<circ> outpointOrder) js) \<inter> set seen = {})"
proof (induction "is" arbitrary: seen ks)
  case (Cons i "is")
  show ?case
  proof (cases "canonicalVtxoTxid (vb_Txid i)")
    case (Inr cr)
    obtain c raw where cr: "cr = (c, raw)" by (cases cr)
    with Inr have c: "c = hex_encode raw" by (auto dest: canonicalVtxoTxid_Inr)
    show ?thesis
      using Inr cr c
      by (auto simp: Cons.IH res_simps Let_def normalizeBundleInput_def outpointOrder_def outpointKey_def)
  qed (simp add: res_simps normalizeBundleInput_def)
qed auto

lemma distinct_outpointKey:
  assumes "\<forall>j \<in> set js. length (vb_Txid j) = 32"
  shows "distinct (map (outpointKey \<circ> outpointOrder) js) \<longleftrightarrow> distinct (map outpointOrder js)"
  using assms
proof (induction js)
  case (Cons j js)
  then have "outpointKey (outpointOrder j) \<in> (\<lambda>x. outpointKey (outpointOrder x)) ` set js \<longleftrightarrow>
      outpointOrder j \<in> outpointOrder ` set js"
    by (auto simp: image_iff outpointOrder_def dest!: outpointKey_inject [rotated])
  with Cons show ?case by (simp add: image_image)
qed simp

lemma sort_keyed:
  "map fst (sort_key keyedOrder (map (\<lambda>j. (j, hex_encode (vb_Txid j))) js)) = sort_key outpointOrder js"
proof -
  have ins: "insort_key keyedOrder (j, hex_encode (vb_Txid j)) (map (\<lambda>j. (j, hex_encode (vb_Txid j))) ks) =
      map (\<lambda>j. (j, hex_encode (vb_Txid j))) (insort_key outpointOrder j ks)" for j ks
    by (induction ks) (auto simp: keyedOrder_def outpointOrder_def)
  have "sort_key keyedOrder (map (\<lambda>j. (j, hex_encode (vb_Txid j))) js) =
      map (\<lambda>j. (j, hex_encode (vb_Txid j))) (sort_key outpointOrder js)"
    by (induction js) (auto simp: ins)
  then show ?thesis by (simp add: o_def)
qed

lemma CanonicalVtxoBundleInputs_iff:
  "CanonicalVtxoBundleInputs is = Inr os \<longleftrightarrow>
     length is \<le> 65535 \<and> (\<exists>js. mapR normalizeBundleInput is = Inr js \<and>
        distinct (map outpointOrder js) \<and> os = sort_key outpointOrder js)"
proof -
  have len: "\<forall>j \<in> set js. length (vb_Txid j) = 32" if "mapR normalizeBundleInput is = Inr js" for js
    using that by (auto dest: mapR_set normalizeBundleInput_Inr)
  show ?thesis
    by (auto simp: CanonicalVtxoBundleInputs_def res_simps collectKeyed_iff sort_keyed
        distinct_outpointKey [OF len] comp_def [symmetric] intro!: exI)
qed

theorem bundle_canonical_form:
  assumes "CanonicalVtxoBundleInputs is = Inr os"
  shows "image_mset Inr (mset os) = image_mset normalizeBundleInput (mset is)"
    and "sorted (map outpointOrder os)" and "distinct (map outpointOrder os)"
proof -
  from assms obtain js where js: "mapR normalizeBundleInput is = Inr js" "distinct (map outpointOrder js)"
    and os: "os = sort_key outpointOrder js"
    by (auto simp: CanonicalVtxoBundleInputs_iff)
  from map_mapR [OF js(1)] have "mset (map Inr js) = mset (map normalizeBundleInput is)" by simp
  then show "image_mset Inr (mset os) = image_mset normalizeBundleInput (mset is)" by (simp add: os)
  show "sorted (map outpointOrder os)" by (simp add: os)
  from js(2) show "distinct (map outpointOrder os)"
    by (simp add: os distinct_map)
qed

theorem bundle_order_independent:
  assumes "CanonicalVtxoBundleInputs is = Inr os" and "mset is' = mset is"
  shows "CanonicalVtxoBundleInputs is' = Inr os"
proof -
  from assms(1) obtain js where len: "length is \<le> 65535" and js: "mapR normalizeBundleInput is = Inr js"
    and d: "distinct (map outpointOrder js)" and os: "os = sort_key outpointOrder js"
    by (auto simp: CanonicalVtxoBundleInputs_iff)
  from assms(2) have s: "set is' = set is" and l: "length is' = length is"
    using mset_eq_setD mset_eq_length by blast+
  let ?js = "map (\<lambda>x. projr (normalizeBundleInput x)) is'"
  from js s have ok: "mapR normalizeBundleInput is' = Inr ?js" by (simp add: mapR_iff)
  from js have "js = map (\<lambda>x. projr (normalizeBundleInput x)) is" by (simp add: mapR_iff)
  with assms(2) have m: "mset ?js = mset js" by simp
  then have m': "mset (map outpointOrder ?js) = mset (map outpointOrder js)" by (metis mset_map)
  then have d': "distinct (map outpointOrder ?js)" using d by (metis mset_eq_imp_distinct_iff)
  then have inj: "inj_on outpointOrder (set ?js)" by (meson distinct_map)
  have "sort_key outpointOrder ?js = os"
    by (rule sort_key_inj_key_eq [OF _ inj]) (use m in \<open>simp_all add: os\<close>)
  with ok d' len l show ?thesis by (auto simp: CanonicalVtxoBundleInputs_iff)
qed

theorem bundle_canonical_idem:
  assumes "CanonicalVtxoBundleInputs is = Inr os"
  shows "CanonicalVtxoBundleInputs os = Inr os"
proof -
  from assms obtain js where len: "length is \<le> 65535" and js: "mapR normalizeBundleInput is = Inr js"
    and d: "distinct (map outpointOrder js)" and os: "os = sort_key outpointOrder js"
    by (auto simp: CanonicalVtxoBundleInputs_iff)
  from js have "\<forall>j \<in> set os. length (vb_Txid j) = 32"
    by (auto simp: os dest: mapR_set normalizeBundleInput_Inr)
  then have ok: "mapR normalizeBundleInput os = Inr os"
    by (auto simp: mapR_iff normalizeBundleInput_id map_idI)
  have d': "distinct (map outpointOrder os)" using d by (simp add: os distinct_map)
  then have "inj_on outpointOrder (set os)" by (simp add: distinct_map)
  then have "sort_key outpointOrder os = os"
    by (rule sort_key_inj_key_eq [OF refl]) (simp add: os)
  moreover have "length os = length is" using js by (simp add: os mapR_length)
  ultimately show ?thesis using ok d' len by (auto simp: CanonicalVtxoBundleInputs_iff)
qed

section \<open>What the digests bind\<close>

lemma bundleInputBytes_append_inject:
  assumes "length (vb_Txid i) = 32" and "length (vb_Txid j) = 32"
  shows "bundleInputBytes i @ x = bundleInputBytes j @ y \<longleftrightarrow> i = j \<and> x = y"
  using assms by (cases i; cases j) (auto simp: bundleInputBytes_def enc_inject)

lemma bundleInputs_append_inject:
  assumes "length is = length js" and "\<forall>i \<in> set is. length (vb_Txid i) = 32"
    and "\<forall>j \<in> set js. length (vb_Txid j) = 32"
    and "concat (map bundleInputBytes is) @ x = concat (map bundleInputBytes js) @ y"
  shows "is = js \<and> x = y"
  using assms
proof (induction "is" js rule: list_induct2)
  case (Cons i "is" j js)
  then show ?case using bundleInputBytes_append_inject [of i j] by simp
qed simp

lemma CanonicalVtxoBundleInputs_txid:
  "CanonicalVtxoBundleInputs is = Inr os \<Longrightarrow> \<forall>i \<in> set os. length (vb_Txid i) = 32"
  by (auto simp: CanonicalVtxoBundleInputs_iff dest: mapR_set normalizeBundleInput_Inr)

lemma vtxoBundlePayload_Inr:
  assumes "vtxoBundlePayload purpose vaultID dest change amount fee changeSats vout fpd inputs created = Inr p"
  shows "\<exists>os. CanonicalVtxoBundleInputs inputs = Inr os \<and> 0 < length os \<and> length os \<le> 50 \<and>
    purpose = vtxoPurposeSpend \<and> fits (str_bytes purpose) \<and>
    fits (str_bytes vaultID) \<and> fits dest \<and> fits change \<and> fits fpd \<and> fits (str_bytes created) \<and>
    p = field_bytes (str_bytes purpose) @ field_bytes (str_bytes vaultID) @ field_bytes dest @ le64 amount @
      field_bytes change @ le64 fee @ le64 changeSats @ vtxoVoutBytes vout @ field_bytes fpd @
      le16 (word_of_nat (length os)) @ concat (map bundleInputBytes os) @ field_bytes (str_bytes created)"
  using assms unfolding vtxoBundlePayload_def
  by (auto simp: res_simps appendCredentialField_Inr simp del: str_bytes_eq_iff split: if_splits)

lemma bundle_payload_binds:
  assumes "vtxoBundlePayload purpose vaultID dest change amount fee changeSats vout fpd inputs created = Inr p"
    and "vtxoBundlePayload purpose' vaultID' dest' change' amount' fee' changeSats' vout' fpd' inputs' created' = Inr p"
  shows "vaultID = vaultID' \<and> dest = dest' \<and> change = change' \<and> amount = amount' \<and> fee = fee' \<and>
    changeSats = changeSats' \<and> vout = vout' \<and> fpd = fpd' \<and> created = created' \<and>
    CanonicalVtxoBundleInputs inputs = CanonicalVtxoBundleInputs inputs'"
proof -
  from vtxoBundlePayload_Inr [OF assms(1)] obtain os where os: "CanonicalVtxoBundleInputs inputs = Inr os"
    "length os \<le> 50" "fits (str_bytes purpose)" "fits (str_bytes vaultID)" "fits dest" "fits change" "fits fpd"
    "fits (str_bytes created)"
    and p: "p = field_bytes (str_bytes purpose) @ field_bytes (str_bytes vaultID) @ field_bytes dest @ le64 amount @
      field_bytes change @ le64 fee @ le64 changeSats @ vtxoVoutBytes vout @ field_bytes fpd @
      le16 (word_of_nat (length os)) @ concat (map bundleInputBytes os) @ field_bytes (str_bytes created)"
    by blast
  from vtxoBundlePayload_Inr [OF assms(2)] obtain os' where os': "CanonicalVtxoBundleInputs inputs' = Inr os'"
    "length os' \<le> 50" "fits (str_bytes purpose')" "fits (str_bytes vaultID')" "fits dest'" "fits change'" "fits fpd'"
    "fits (str_bytes created')"
    and p': "p = field_bytes (str_bytes purpose') @ field_bytes (str_bytes vaultID') @ field_bytes dest' @ le64 amount' @
      field_bytes change' @ le64 fee' @ le64 changeSats' @ vtxoVoutBytes vout' @ field_bytes fpd' @
      le16 (word_of_nat (length os')) @ concat (map bundleInputBytes os') @ field_bytes (str_bytes created')"
    by blast
  from p p' have eqs: "vaultID = vaultID'" "dest = dest'" "change = change'" "amount = amount'" "fee = fee'"
    "changeSats = changeSats'" "vout = vout'" "fpd = fpd'"
    and n: "(word_of_nat (length os) :: u16) = word_of_nat (length os')"
    and rest: "concat (map bundleInputBytes os) @ field_bytes (str_bytes created) =
      concat (map bundleInputBytes os') @ field_bytes (str_bytes created')"
    by (simp_all add: field_bytes_append_inject enc_inject os os')
  have "length os = length os'" using n by (rule of_nat_count_inject) (use os(2) os'(2) in simp_all)
  with rest have "os = os'" and "field_bytes (str_bytes created) = field_bytes (str_bytes created')"
    using bundleInputs_append_inject CanonicalVtxoBundleInputs_txid [OF os(1)]
      CanonicalVtxoBundleInputs_txid [OF os'(1)] by blast+
  moreover from this(2) have "created = created'"
    using field_bytes_append_inject [OF os(8) os'(8), of "[]" "[]"] by simp
  ultimately show ?thesis using eqs os(1) os'(1) by simp
qed

lemma decodeOperationID_inject:
  assumes "decodeOperationID a = Inr r" and "decodeOperationID b = Inr r"
  shows "a = b"
  using assms hex_encode_decode [of a r] hex_encode_decode [of b r]
  by (auto simp: decodeOperationID_def split: option.splits if_splits)

lemma reserve_payload_binds:
  assumes "vtxoReservePayload op vault purpose dest amount = Inr p"
    and "vtxoReservePayload op' vault' purpose' dest' amount' = Inr p"
  shows "op = op' \<and> vault = vault' \<and> purpose = purpose' \<and> dest = dest' \<and> amount = amount'"
proof -
  from assms(1) obtain raw where r: "decodeOperationID op = Inr raw"
    and f: "list_all fits [raw, str_bytes vault, str_bytes purpose, dest]"
    and p: "p = le32 1 @ concat (map field_bytes [raw, str_bytes vault, str_bytes purpose, dest]) @ le64 amount"
    by (auto simp: vtxoReservePayload_def res_simps appendCredentialFields_Inr simp del: str_bytes_eq_iff appendCredentialFields.simps split: if_splits)
  from assms(2) obtain raw' where r': "decodeOperationID op' = Inr raw'"
    and f': "list_all fits [raw', str_bytes vault', str_bytes purpose', dest']"
    and p': "p = le32 1 @ concat (map field_bytes [raw', str_bytes vault', str_bytes purpose', dest']) @ le64 amount'"
    by (auto simp: vtxoReservePayload_def res_simps appendCredentialFields_Inr simp del: str_bytes_eq_iff appendCredentialFields.simps split: if_splits)
  have "[raw, str_bytes vault, str_bytes purpose, dest] = [raw', str_bytes vault', str_bytes purpose', dest'] \<and>
      le64 amount = le64 amount'"
    by (rule fields_append_inject [OF f f']) (use p p' in simp_all)
  with decodeOperationID_inject r r' show ?thesis by auto
qed

section \<open>Properties\<close>

text \<open>A reserved operation, an input of it and a key, for the concrete instances below.\<close>

definition exKey :: bytes where
  "exKey = replicate 32 7"

definition exOperation :: VtxoOperation where
  "exOperation =
     \<lparr> vo_OperationID = ''00112233445566778899aabbccddeeff'', vo_VaultID = ''v1'', vo_Purpose = ''spend'',
       vo_BundleDigest = replicate 32 1, vo_State = ''reserved'', vo_AmountSats = 1000, vo_FeeSats = 10,
       vo_FeePolicyDigest = replicate 32 2, vo_DestScript = [3], vo_ChangeScript = [],
       vo_ChangeSats = 0, vo_ChangeVout = None, vo_UnsignedPSBT = '''', vo_AuthorizedPSBT = '''',
       vo_PendingProofDigest = [], vo_AuthorizedPendingProof = '''', vo_CheckpointPSBTs = '''',
       vo_CheckpointRequestPSBTs = '''', vo_CheckpointTapscript = [], vo_ArkTxid = '''',
       vo_ExpiresAt = ''2026-01-01T01:00:00Z'', vo_CreatedAt = ''2026-01-01T00:00:00Z'',
       vo_LastDestScript = [], vo_IntegrityMAC = [] \<rparr>"

definition exInput :: VtxoOperationInput where
  "exInput =
     \<lparr> vi_OperationID = ''00112233445566778899aabbccddeeff'', vi_Txid = replicate 32 9, vi_Vout = 0,
       vi_ValueSats = 1010, vi_Script = [4], vi_IntegrityMAC = [] \<rparr>"

lemma length_exKey [simp]: "length exKey = 32"
  by (simp add: exKey_def)

lemma exOperation_canonical: "\<exists>p. canonicalVtxoOperation exOperation = Inr p"
  by (simp add: canonicalVtxoOperation_def exOperation_def operationFields_def requireVtxoState_def
      appendCredentialField_fits fits_short)

lemma exInput_canonical:
  "\<exists>p. canonicalVtxoOperationInput exInput = Inr p"
  "\<exists>p. canonicalVtxoOperationInput (exInput\<lparr> vi_Vout := v \<rparr>) = Inr p \<longleftrightarrow> 0 \<le> sint v"
  by (simp_all add: canonicalVtxoOperationInput_def exInput_def appendCredentialField_fits fits_short)

text \<open>
  C36. A stored operation cannot be edited under its authentication code. A row that differs
  from a verified operation in any field (state, amounts, scripts, times, transactions) and
  carries the same code verifies exactly when the two canonical payloads are distinct byte
  strings that collide under HMAC-SHA256; the serialisation itself loses nothing.
\<close>

theorem operation_tamper_evident:
  assumes "length key = 32" and "VerifyVtxoOperation r key = Inr ()"
    and "vo_IntegrityMAC s = vo_IntegrityMAC r" and "s \<noteq> r"
  shows "VerifyVtxoOperation s key = Inr () \<longleftrightarrow>
    (\<exists>p q. canonicalVtxoOperation r = Inr p \<and> canonicalVtxoOperation s = Inr q \<and> p \<noteq> q \<and>
       hmac_sha256 key p = hmac_sha256 key q)"
  using op_seal.tampered_verifies_iff [of key r s] assms by simp

lemma exOperation_sealed: "\<exists>r. SealVtxoOperation exOperation exKey = Inr r"
  using exOperation_canonical by (auto simp: SealVtxoOperation_def vtxoOperationMAC_def)

theorem operation_tamper_evident_witness:
  "\<exists>r. VerifyVtxoOperation r exKey = Inr () \<and> vo_State r = vtxoStateReserved \<and>
    (VerifyVtxoOperation (r\<lparr> vo_State := vtxoStateAborted \<rparr>) exKey = Inr () \<longleftrightarrow>
       (\<exists>p q. canonicalVtxoOperation r = Inr p \<and>
          canonicalVtxoOperation (r\<lparr> vo_State := vtxoStateAborted \<rparr>) = Inr q \<and> p \<noteq> q \<and>
          hmac_sha256 exKey p = hmac_sha256 exKey q))"
proof -
  obtain r where s: "SealVtxoOperation exOperation exKey = Inr r"
    using exOperation_sealed by blast
  have v: "VerifyVtxoOperation r exKey = Inr ()"
    using op_seal.seal_verifies [OF length_exKey s] .
  have st: "vo_State r = vtxoStateReserved"
    using s by (auto simp: SealVtxoOperation_def res_simps exOperation_def)
  have ne: "r\<lparr> vo_State := vtxoStateAborted \<rparr> \<noteq> r"
    using st by (auto dest: arg_cong [where f = vo_State])
  from operation_tamper_evident [OF length_exKey v _ ne] v st show ?thesis by (intro exI [of _ r]) simp
qed

text \<open>
  The same for a reserved input whose output index is a 32-bit value: a row that differs
  from a verified one and carries its code verifies exactly when the payloads collide.
\<close>

theorem input_tamper_evident:
  assumes "length key = 32" and "VerifyVtxoOperationInput r key = Inr ()"
    and "vi_IntegrityMAC s = vi_IntegrityMAC r" and "s \<noteq> r"
    and "uint (vi_Vout r) < 2 ^ 32" and "uint (vi_Vout s) < 2 ^ 32"
  shows "VerifyVtxoOperationInput s key = Inr () \<longleftrightarrow>
    (\<exists>p q. canonicalVtxoOperationInput r = Inr p \<and> canonicalVtxoOperationInput s = Inr q \<and> p \<noteq> q \<and>
       hmac_sha256 key p = hmac_sha256 key q)"
  using input_seal.tampered_verifies_iff [of key r s] assms by (simp add: voutFits_def)

lemma exInput_sealed: "\<exists>r. SealVtxoOperationInput exInput exKey = Inr r \<and> vi_Vout r = 0"
  using exInput_canonical(1)
  by (auto simp: SealVtxoOperationInput_def vtxoOperationInputMAC_def) (simp add: exInput_def)

theorem input_tamper_evident_witness:
  "\<exists>r. VerifyVtxoOperationInput r exKey = Inr () \<and> vi_Vout r = 0 \<and>
    (VerifyVtxoOperationInput (r\<lparr> vi_Vout := 1 \<rparr>) exKey = Inr () \<longleftrightarrow>
       (\<exists>p q. canonicalVtxoOperationInput r = Inr p \<and>
          canonicalVtxoOperationInput (r\<lparr> vi_Vout := 1 \<rparr>) = Inr q \<and> p \<noteq> q \<and>
          hmac_sha256 exKey p = hmac_sha256 exKey q))"
proof -
  obtain r where s: "SealVtxoOperationInput exInput exKey = Inr r" and v0: "vi_Vout r = 0"
    using exInput_sealed by blast
  have v: "VerifyVtxoOperationInput r exKey = Inr ()"
    using input_seal.seal_verifies [OF length_exKey s] .
  have ne: "r\<lparr> vi_Vout := 1 \<rparr> \<noteq> r"
    using v0 by (auto dest: arg_cong [where f = vi_Vout])
  from input_tamper_evident [OF length_exKey v _ ne] v v0 show ?thesis by (intro exI [of _ r]) simp
qed

text \<open>
  C39. The bound of the previous property is needed: the serialisation writes
  \<open>uint32(rec.Vout)\<close>, so a verified input whose index is moved by \<open>2 ^ 32\<close> (which the
  column's \<open>CHECK (vout >= 0)\<close> admits) still verifies under its old code.
\<close>

theorem input_vout_truncated:
  assumes "length key = 32" and "VerifyVtxoOperationInput r key = Inr ()" and "uint (vi_Vout r) < 2 ^ 32"
  shows "VerifyVtxoOperationInput (r\<lparr> vi_Vout := vi_Vout r + 2 ^ 32 \<rparr>) key = Inr ()"
proof -
  from assms(3) have "uint (vi_Vout r + 2 ^ 32) = uint (vi_Vout r) + 2 ^ 32"
    by (simp add: uint_word_ariths)
  then have u: "(ucast (vi_Vout r + 2 ^ 32) :: u32) = ucast (vi_Vout r)"
    by (simp add: word_uint_eq_iff unsigned_ucast_eq take_bit_eq_mod)
  have s: "0 \<le> sint (vi_Vout r + 2 ^ 32)"
    using assms(3) by (simp add: sint_uint signed_take_bit_int_eq_self uint_word_ariths)
  from assms(2) show ?thesis
    using s u by (auto simp: VerifyVtxoOperationInput_def vtxoOperationInputMAC_def canonicalVtxoOperationInput_def res_simps)
qed

theorem input_vout_truncated_witness:
  "\<exists>r. vi_Vout r = 0 \<and> VerifyVtxoOperationInput r exKey = Inr () \<and>
    VerifyVtxoOperationInput (r\<lparr> vi_Vout := 2 ^ 32 \<rparr>) exKey = Inr ()"
proof -
  obtain r where s: "SealVtxoOperationInput exInput exKey = Inr r" and v0: "vi_Vout r = 0"
    using exInput_sealed by blast
  have v: "VerifyVtxoOperationInput r exKey = Inr ()"
    using input_seal.seal_verifies [OF length_exKey s] .
  from input_vout_truncated [OF length_exKey v] v v0 show ?thesis by auto
qed

text \<open>
  The canonical form of a bundle does not depend on the order in which the phone lists
  its inputs: every permutation of an accepted list is accepted with the same result. That
  result holds exactly the normalised inputs, strictly increasing by transaction id and output
  index, and canonicalising it again changes nothing.
\<close>

theorem bundle_inputs_canonical:
  assumes "CanonicalVtxoBundleInputs is = Inr os" and "mset is' = mset is"
  shows "CanonicalVtxoBundleInputs is' = Inr os \<and> CanonicalVtxoBundleInputs os = Inr os \<and>
    image_mset Inr (mset os) = image_mset normalizeBundleInput (mset is) \<and>
    sorted_wrt (\<lambda>a b. outpointOrder a < outpointOrder b) os"
proof -
  have "sorted_wrt (<) (map outpointOrder os)"
    using bundle_canonical_form(2,3) [OF assms(1)] by (simp add: strict_sorted_iff)
  then show ?thesis
    using bundle_order_independent [OF assms] bundle_canonical_idem [OF assms(1)]
      bundle_canonical_form(1) [OF assms(1)] by (simp add: sorted_wrt_map)
qed

definition exBundleA :: VtxoBundleInput where
  "exBundleA = \<lparr> vb_Txid = replicate 32 1, vb_Vout = 7, vb_ValueSats = 600 \<rparr>"

definition exBundleB :: VtxoBundleInput where
  "exBundleB = \<lparr> vb_Txid = replicate 32 1, vb_Vout = 2, vb_ValueSats = 410 \<rparr>"

lemma exBundle_canonical: "CanonicalVtxoBundleInputs [exBundleA, exBundleB] = Inr [exBundleB, exBundleA]"
  by (simp add: CanonicalVtxoBundleInputs_iff exBundleA_def exBundleB_def normalizeBundleInput_id outpointOrder_def)

theorem bundle_inputs_canonical_witness:
  "CanonicalVtxoBundleInputs [exBundleB, exBundleA] = Inr [exBundleB, exBundleA]"
  using bundle_inputs_canonical [OF exBundle_canonical, of "[exBundleB, exBundleA]"] by simp

text \<open>
  C37. The bundle digest that the phone signs determines every economic field: two bundles have
  the same digest exactly when they agree on purpose, vault, destination, amount, change, fees,
  fee policy, creation time and the canonical list of inputs, or their two payloads are distinct
  and collide under the tagged hash.
\<close>

theorem bundle_digest_binds:
  assumes d: "ComputeVtxoBundleDigest purpose vaultID dest change amount fee changeSats vout fpd inputs created = Inr d"
    and d': "ComputeVtxoBundleDigest purpose' vaultID' dest' change' amount' fee' changeSats' vout' fpd' inputs' created' = Inr d'"
  shows "d = d' \<longleftrightarrow>
    (purpose = purpose' \<and> vaultID = vaultID' \<and> dest = dest' \<and> change = change' \<and> amount = amount' \<and>
      fee = fee' \<and> changeSats = changeSats' \<and> vout = vout' \<and> fpd = fpd' \<and> created = created' \<and>
      CanonicalVtxoBundleInputs inputs = CanonicalVtxoBundleInputs inputs') \<or>
    (\<exists>p q. vtxoBundlePayload purpose vaultID dest change amount fee changeSats vout fpd inputs created = Inr p \<and>
      vtxoBundlePayload purpose' vaultID' dest' change' amount' fee' changeSats' vout' fpd' inputs' created' = Inr q \<and>
      p \<noteq> q \<and> taggedSHA256 vtxoBundleDigestTag p = taggedSHA256 vtxoBundleDigestTag q)"
    (is "_ \<longleftrightarrow> ?same \<or> ?collide")
proof -
  from assms obtain p q where
    p: "vtxoBundlePayload purpose vaultID dest change amount fee changeSats vout fpd inputs created = Inr p" and
    q: "vtxoBundlePayload purpose' vaultID' dest' change' amount' fee' changeSats' vout' fpd' inputs' created' = Inr q" and
    dd: "d = taggedSHA256 vtxoBundleDigestTag p" "d' = taggedSHA256 vtxoBundleDigestTag q"
    by (auto simp: ComputeVtxoBundleDigest_def res_simps)
  have "p = q \<Longrightarrow> ?same"
    using vtxoBundlePayload_Inr [OF p] vtxoBundlePayload_Inr [OF q]
      bundle_payload_binds [OF p] q by blast
  moreover have "?same \<Longrightarrow> p = q"
    using vtxoBundlePayload_Inr [OF p] vtxoBundlePayload_Inr [OF q] by auto
  moreover have "?collide \<longleftrightarrow> p \<noteq> q \<and> d = d'" using p q dd by auto
  ultimately show ?thesis using dd by blast
qed

abbreviation exBundleDigest :: "VtxoBundleInput list \<Rightarrow> bytes result" where
  "exBundleDigest is \<equiv> ComputeVtxoBundleDigest ''spend'' ''v1'' [3] [] 1000 10 0 None (replicate 32 2) is
     ''2026-01-01T00:00:00Z''"

lemma exBundle_canonical': "CanonicalVtxoBundleInputs [exBundleB, exBundleA] = Inr [exBundleB, exBundleA]"
  using bundle_canonical_idem exBundle_canonical by blast

lemma exBundleDigest_Inr:
  "\<exists>d. exBundleDigest [exBundleA, exBundleB] = Inr d" "\<exists>d. exBundleDigest [exBundleB, exBundleA] = Inr d"
  by (simp_all add: ComputeVtxoBundleDigest_def vtxoBundlePayload_def exBundle_canonical exBundle_canonical'
      appendCredentialField_fits fits_short)

theorem bundle_digest_binds_witness:
  "\<exists>d. exBundleDigest [exBundleA, exBundleB] = Inr d \<and> exBundleDigest [exBundleB, exBundleA] = Inr d"
proof -
  from exBundleDigest_Inr obtain d d' where
    d: "exBundleDigest [exBundleA, exBundleB] = Inr d" "exBundleDigest [exBundleB, exBundleA] = Inr d'"
    by blast
  from bundle_digest_binds [OF d] have "d = d'"
    by (simp add: exBundle_canonical exBundle_canonical')
  with d show ?thesis by blast
qed

text \<open>
  Two reservation requests have the same digest exactly when they agree on operation id,
  vault, purpose, destination and amount, or their two payloads are distinct and collide under
  the tagged hash.
\<close>

theorem reserve_digest_binds:
  assumes d: "ComputeVtxoReserveDigest op vault purpose dest amount = Inr d"
    and d': "ComputeVtxoReserveDigest op' vault' purpose' dest' amount' = Inr d'"
  shows "d = d' \<longleftrightarrow>
    (op = op' \<and> vault = vault' \<and> purpose = purpose' \<and> dest = dest' \<and> amount = amount') \<or>
    (\<exists>p q. vtxoReservePayload op vault purpose dest amount = Inr p \<and>
      vtxoReservePayload op' vault' purpose' dest' amount' = Inr q \<and> p \<noteq> q \<and>
      taggedSHA256 vtxoReserveDigestTag p = taggedSHA256 vtxoReserveDigestTag q)"
proof -
  from assms obtain p q where p: "vtxoReservePayload op vault purpose dest amount = Inr p"
    and q: "vtxoReservePayload op' vault' purpose' dest' amount' = Inr q"
    and dd: "d = taggedSHA256 vtxoReserveDigestTag p" "d' = taggedSHA256 vtxoReserveDigestTag q"
    by (auto simp: ComputeVtxoReserveDigest_def res_simps)
  have "p = q \<longleftrightarrow> op = op' \<and> vault = vault' \<and> purpose = purpose' \<and> dest = dest' \<and> amount = amount'"
    using reserve_payload_binds [OF p, of op' vault' purpose' dest' amount'] p q by auto
  then show ?thesis using dd p q by auto
qed

lemma exReserve_Inr: "\<exists>d. ComputeVtxoReserveDigest (hex_encode (replicate 16 1)) ''v1'' ''spend'' [3] a = Inr d \<longleftrightarrow> a \<noteq> 0"
  by (simp add: ComputeVtxoReserveDigest_def vtxoReservePayload_def decodeOperationID_def hex_decode_encode
      appendCredentialField_fits fits_short del: hex_encode.simps)

theorem reserve_digest_binds_witness:
  "\<exists>d d' p q. ComputeVtxoReserveDigest (hex_encode (replicate 16 1)) ''v1'' ''spend'' [3] 1000 = Inr d \<and>
    ComputeVtxoReserveDigest (hex_encode (replicate 16 1)) ''v1'' ''spend'' [3] 2000 = Inr d' \<and>
    (d = d' \<longleftrightarrow> p \<noteq> q \<and> taggedSHA256 vtxoReserveDigestTag p = taggedSHA256 vtxoReserveDigestTag q)"
proof -
  obtain d d' where d: "ComputeVtxoReserveDigest (hex_encode (replicate 16 1)) ''v1'' ''spend'' [3] 1000 = Inr d"
    "ComputeVtxoReserveDigest (hex_encode (replicate 16 1)) ''v1'' ''spend'' [3] 2000 = Inr d'"
    using exReserve_Inr [of 1000] exReserve_Inr [of 2000] by auto
  from reserve_digest_binds [OF d] d show ?thesis by fastforce
qed

lemma SealVtxoOperation_Inr:
  "SealVtxoOperation r key = Inr s \<Longrightarrow>
     s = r\<lparr> vo_IntegrityMAC := vo_IntegrityMAC s \<rparr> \<and> length (vo_IntegrityMAC s) = 32 \<and> length key = 32 \<and>
     (\<exists>p. canonicalVtxoOperation r = Inr p)"
  by (auto simp: SealVtxoOperation_def vtxoOperationMAC_def res_simps split: if_splits)

definition exSealed :: VtxoOperation where
  "exSealed = projr (SealVtxoOperation exOperation exKey)"

lemma exSealed: "SealVtxoOperation exOperation exKey = Inr exSealed"
  using exOperation_sealed by (auto simp: exSealed_def)

lemma exSealed_verifies [simp]: "VerifyVtxoOperation exSealed exKey = Inr ()"
  by (rule op_seal.seal_verifies [OF length_exKey exSealed])

lemma exSealed_eq: "\<exists>m. exSealed = exOperation\<lparr> vo_IntegrityMAC := m \<rparr>"
  using SealVtxoOperation_Inr [OF exSealed] by blast

lemma exSealed_fields [simp]:
  "vo_OperationID exSealed = ''00112233445566778899aabbccddeeff''" "vo_VaultID exSealed = ''v1''"
  "vo_State exSealed = ''reserved''" "vo_AmountSats exSealed = 1000" "vo_FeeSats exSealed = 10"
  "vo_CreatedAt exSealed = ''2026-01-01T00:00:00Z''" "vo_ExpiresAt exSealed = ''2026-01-01T01:00:00Z''"
proof -
  obtain m where m: "exSealed = exOperation\<lparr> vo_IntegrityMAC := m \<rparr>" using exSealed_eq by blast
  show "vo_OperationID exSealed = ''00112233445566778899aabbccddeeff''" "vo_VaultID exSealed = ''v1''"
    "vo_State exSealed = ''reserved''" "vo_AmountSats exSealed = 1000" "vo_FeeSats exSealed = 10"
    "vo_CreatedAt exSealed = ''2026-01-01T00:00:00Z''" "vo_ExpiresAt exSealed = ''2026-01-01T01:00:00Z''"
    unfolding m by (simp_all add: exOperation_def)
qed

end
