(* ===== verification/Session.thy ===== *)
theory Session
  imports Vtxo
begin

text \<open>
  \<open>internal/policy/session.go\<close>: the sign-once recovery session, its seal and the replay
  decision. Storage is in the theory of the session ledger. A nil and an empty signature
  are both \<open>[]\<close>, as for every byte slice.
\<close>

section \<open>Data\<close>

abbreviation sessionMACDomain :: string where
  "sessionMACDomain \<equiv> ''arkade-2fa-vault/recovery-session/v2''"
abbreviation sessionPurposeInitiate :: string where "sessionPurposeInitiate \<equiv> ''initiate''"
abbreviation sessionPurposeClawback :: string where "sessionPurposeClawback \<equiv> ''clawback''"

record RecoverySession =
  rs_VaultID :: string
  rs_Purpose :: string
  rs_InputTxid :: string
  rs_InputVout :: i64
  rs_DestScript :: string
  rs_LastSighash :: string
  rs_Signature :: bytes
  rs_CreatedAt :: string
  rs_UpdatedAt :: string
  rs_IntegrityMAC :: bytes

datatype ReplayAction = ReplaySign | ReplayReplay | ReplayResign

definition requireSessionPurpose :: "string \<Rightarrow> unit result" where
  "requireSessionPurpose purpose =
     (if purpose \<noteq> sessionPurposeInitiate \<and> purpose \<noteq> sessionPurposeClawback then
        Inl (Errorf ''purpose must be initiate or clawback'')
      else Inr ())"

section \<open>Seal\<close>

definition sessionFields :: "RecoverySession \<Rightarrow> bytes list" where
  "sessionFields rec =
     [str_bytes (rs_VaultID rec), str_bytes (rs_Purpose rec), str_bytes (rs_InputTxid rec),
      str_bytes (rs_DestScript rec), str_bytes (rs_LastSighash rec), rs_Signature rec,
      str_bytes (rs_CreatedAt rec), str_bytes (rs_UpdatedAt rec)]"

definition canonicalSession :: "RecoverySession \<Rightarrow> bytes result" where
  "canonicalSession rec =
     bindR (appendCredentialField [] (str_bytes sessionMACDomain)) (\<lambda>out.
     bindR (appendCredentialFields out (sessionFields rec)) (\<lambda>out.
     if sint (rs_InputVout rec) < 0 then Inl (Errorf ''recovery session vout'')
     else Inr (out @ le32 (ucast (rs_InputVout rec)))))"

definition sessionMAC :: "bytes \<Rightarrow> bytes \<Rightarrow> bytes" where
  "sessionMAC integrityKey payload = hmac_sha256 integrityKey payload"

definition sealSession :: "RecoverySession \<Rightarrow> bytes \<Rightarrow> RecoverySession result" where
  "sealSession rec integrityKey =
     (if length integrityKey \<noteq> 32 then Inl (Errorf ''recovery session seal required'')
      else bindR (canonicalSession rec) (\<lambda>payload.
        Inr (rec\<lparr> rs_IntegrityMAC := sessionMAC integrityKey payload \<rparr>)))"

definition verifySession :: "RecoverySession \<Rightarrow> bytes \<Rightarrow> unit result" where
  "verifySession rec integrityKey =
     (if length (rs_IntegrityMAC rec) \<noteq> 32 then Inl (Errorf ''recovery session MAC missing'')
      else bindR (canonicalSession rec) (\<lambda>payload.
        if rs_IntegrityMAC rec = sessionMAC integrityKey payload then Inr ()
        else Inl (Errorf ''recovery session MAC mismatch'')))"

section \<open>The replay decision\<close>

definition normalizeText :: "string \<Rightarrow> string" where
  "normalizeText s = to_lower (trim_space s)"

definition DecideReplay :: "RecoverySession option \<Rightarrow> RecoverySession \<Rightarrow> ReplayAction result" where
  "DecideReplay existing next =
     bindR (requireSessionPurpose (rs_Purpose next)) (\<lambda>_.
     let txid = normalizeText (rs_InputTxid next); dest = normalizeText (rs_DestScript next) in
     if rs_VaultID next = [] \<or> txid = [] \<or> dest = [] then
       Inl (Errorf ''recovery session dest and outpoint required'')
     else case existing of
       None \<Rightarrow> Inr ReplaySign
     | Some e \<Rightarrow>
         if rs_DestScript e \<noteq> dest then Inl (Errorf ''second dest for this outpoint'')
         else if rs_InputTxid e \<noteq> txid \<or> rs_InputVout e \<noteq> rs_InputVout next then
           Inl (Errorf ''overlapping input set for this outpoint'')
         else if length (rs_Signature e) = 0 then
           (if rs_LastSighash e = [] \<or> rs_LastSighash next = [] \<or> rs_LastSighash e \<noteq> rs_LastSighash next then
              Inl ErrRecoveryBusy
            else Inr ReplayResign)
         else if rs_LastSighash next \<noteq> [] \<and> rs_LastSighash e = rs_LastSighash next \<and> length (rs_Signature e) > 0 then
           Inr ReplayReplay
         else Inr ReplayResign)"

section \<open>The contract of the seal\<close>

lemma canonicalSession_Inr:
  assumes "canonicalSession rec = Inr p"
  shows "list_all fits (sessionFields rec) \<and> 0 \<le> sint (rs_InputVout rec) \<and>
    p = field_bytes (str_bytes sessionMACDomain) @ concat (map field_bytes (sessionFields rec)) @
      le32 (ucast (rs_InputVout rec))"
  using assms
  by (auto simp: canonicalSession_def res_simps appendCredentialField_Inr appendCredentialFields_Inr
      simp del: appendCredentialFields.simps split: if_splits)

definition sessionVoutFits :: "RecoverySession \<Rightarrow> bool" where
  "sessionVoutFits rec \<longleftrightarrow> uint (rs_InputVout rec) < 2 ^ 32"

lemma canonicalSession_inject:
  assumes "canonicalSession r = Inr p" and "canonicalSession s = Inr p"
    and "sessionVoutFits r" and "sessionVoutFits s"
  shows "r\<lparr> rs_IntegrityMAC := [] \<rparr> = s\<lparr> rs_IntegrityMAC := [] \<rparr>"
proof -
  note r = canonicalSession_Inr [OF assms(1)] and s = canonicalSession_Inr [OF assms(2)]
  have f: "sessionFields r = sessionFields s \<and>
      le32 (ucast (rs_InputVout r)) = le32 (ucast (rs_InputVout s))"
    by (rule fields_append_inject) (use r s in \<open>auto simp: sessionFields_def\<close>)
  then have "rs_InputVout r = rs_InputVout s"
    using assms(3,4) by (intro ucast_vout_inject) (simp_all add: sessionVoutFits_def)
  with f show ?thesis by (simp add: sessionFields_def)
qed

lemma canonicalSession_mac [simp]: "canonicalSession (rec\<lparr> rs_IntegrityMAC := m \<rparr>) = canonicalSession rec"
  by (simp add: canonicalSession_def sessionFields_def cong: if_cong)

interpretation session_seal: sealed_record canonicalSession sealSession verifySession
  rs_IntegrityMAC "\<lambda>m r. r\<lparr> rs_IntegrityMAC := m \<rparr>" sessionVoutFits hmac_sha256
  by unfold_locales
    (auto simp: sealSession_def verifySession_def sessionMAC_def res_simps split: if_splits
      dest: canonicalSession_inject)

end
