(* ===== verification/GoTime.thy ===== *)
theory GoTime
  imports Bytes
begin

text \<open>
  Go's \<open>time.Time\<close> as the sources use it: an instant is the number of nanoseconds since
  1970-01-01T00:00:00Z, an \<open>int\<close>; \<open>Add\<close> is addition, \<open>Before\<close> and \<open>After\<close> are the order.
  \<open>Format(time.RFC3339)\<close> and \<open>Format(time.RFC3339Nano)\<close> render an instant in UTC, and
  \<open>time.Parse(time.RFC3339, s)\<close> reads one back with the leniency of Go's parser: a one-digit
  hour, a fraction of a second introduced by a period or a comma, and a numeric zone offset.
\<close>

type_synonym time = int

abbreviation Second :: int where "Second \<equiv> 1000000000"
abbreviation Hour :: int where "Hour \<equiv> 3600 * Second"

section \<open>The calendar\<close>

definition is_leap :: "int \<Rightarrow> bool" where
  "is_leap y \<longleftrightarrow> y mod 4 = 0 \<and> (y mod 100 \<noteq> 0 \<or> y mod 400 = 0)"

definition month_lengths :: "int \<Rightarrow> int list" where
  "month_lengths y = [31, if is_leap y then 29 else 28, 31, 30, 31, 30, 31, 31, 30, 31, 30, 31]"

text \<open>Days from 0000-01-01 to the first day of a year.\<close>

definition days_before_year :: "int \<Rightarrow> int" where
  "days_before_year y = 365 * y + (y + 3) div 4 - (y + 99) div 100 + (y + 399) div 400"

definition epoch_days :: int where
  "epoch_days = 719528"

definition civil_to_days :: "int \<Rightarrow> nat \<Rightarrow> int \<Rightarrow> int" where
  "civil_to_days y m d = days_before_year y + sum_list (take (m - 1) (month_lengths y)) + (d - 1) - epoch_days"

definition year_of :: "int \<Rightarrow> int" where
  "year_of d =
     (let y = (400 * d) div 146097
      in if d < days_before_year y then y - 1 else if days_before_year (y + 1) \<le> d then y + 1 else y)"

fun month_walk :: "int list \<Rightarrow> nat \<Rightarrow> int \<Rightarrow> nat \<times> int" where
  "month_walk [] m r = (m, r + 1)"
| "month_walk (l # ls) m r = (if r < l then (m, r + 1) else month_walk ls (Suc m) (r - l))"

definition days_to_civil :: "int \<Rightarrow> int \<times> nat \<times> int" where
  "days_to_civil n =
     (let d = n + epoch_days; y = year_of d; (m, dd) = month_walk (month_lengths y) 1 (d - days_before_year y)
      in (y, m, dd))"

section \<open>Formatting\<close>

definition pad :: "nat \<Rightarrow> nat \<Rightarrow> string" where
  "pad w n = (let s = dec_encode n in replicate (w - length s) (CHR ''0'') @ s)"

definition format_year :: "int \<Rightarrow> string" where
  "format_year y = (if y < 0 then CHR ''-'' # pad 4 (nat (- y)) else pad 4 (nat y))"

text \<open>The part of both formats before the fraction.\<close>

definition format_seconds :: "int \<Rightarrow> string" where
  "format_seconds s =
     (let (y, m, d) = days_to_civil (s div 86400); r = s mod 86400
      in format_year y @ ''-'' @ pad 2 m @ ''-'' @ pad 2 (nat d) @ ''T'' @
         pad 2 (nat (r div 3600)) @ '':'' @ pad 2 (nat (r div 60 mod 60)) @ '':'' @ pad 2 (nat (r mod 60)))"

definition formatRFC3339 :: "time \<Rightarrow> string" where
  "formatRFC3339 t = format_seconds (t div Second) @ ''Z''"

definition format_fraction :: "nat \<Rightarrow> string" where
  "format_fraction n =
     (if n = 0 then [] else CHR ''.'' # rev (dropWhile (\<lambda>c. c = CHR ''0'') (rev (pad 9 n))))"

definition formatRFC3339Nano :: "time \<Rightarrow> string" where
  "formatRFC3339Nano t = format_seconds (t div Second) @ format_fraction (nat (t mod Second)) @ ''Z''"

section \<open>Parsing\<close>

text \<open>\<open>getnum\<close> of \<open>time/format.go\<close>: one or two digits, exactly two when \<open>fixed\<close>.\<close>

fun getnum :: "bool \<Rightarrow> string \<Rightarrow> (nat \<times> string) option" where
  "getnum fixed [] = None"
| "getnum fixed [c] = (if \<not> is_digit c \<or> fixed then None else Some (digit_value c, []))"
| "getnum fixed (c # d # s) =
     (if \<not> is_digit c then None
      else if is_digit d then Some (10 * digit_value c + digit_value d, s)
      else if fixed then None
      else Some (digit_value c, d # s))"

fun expect :: "char \<Rightarrow> string \<Rightarrow> string option" where
  "expect c [] = None"
| "expect c (x # s) = (if x = c then Some s else None)"

definition get_year :: "string \<Rightarrow> (nat \<times> string) option" where
  "get_year s =
     (if length s < 4 \<or> \<not> list_all is_digit (take 4 s) then None
      else Some (dec_value (take 4 s), drop 4 s))"

text \<open>An optional fraction after the seconds; digits past the ninth are dropped.\<close>

definition get_fraction :: "string \<Rightarrow> nat \<times> string" where
  "get_fraction s =
     (case s of
        p # c # r \<Rightarrow>
          if (p = CHR ''.'' \<or> p = CHR '','') \<and> is_digit c then
            let ds = takeWhile is_digit (c # r); k = take 9 ds
            in (dec_value k * 10 ^ (9 - length k), dropWhile is_digit (c # r))
          else (0, s)
      | _ \<Rightarrow> (0, s))"

text \<open>The zone: \<open>Z\<close> or a signed \<open>hh:mm\<close>; the offset in seconds and the rest.\<close>

definition get_zone :: "string \<Rightarrow> (int \<times> string) option" where
  "get_zone s =
     (case s of
        [] \<Rightarrow> None
      | z # r \<Rightarrow>
          if z = CHR ''Z'' then Some (0, r)
          else if length s < 6 \<or> s ! 3 \<noteq> CHR '':'' then None
          else (case (getnum True (take 2 r), getnum True (take 2 (drop 3 r))) of
                  (Some (hr, _), Some (mm, _)) \<Rightarrow>
                    if 24 < hr \<or> 60 < mm then None
                    else if z = CHR ''+'' then Some (int (hr * 3600 + mm * 60), drop 5 r)
                    else if z = CHR ''-'' then Some (- int (hr * 3600 + mm * 60), drop 5 r)
                    else None
                | _ \<Rightarrow> None))"

definition obindO :: "'a option \<Rightarrow> ('a \<Rightarrow> 'b option) \<Rightarrow> 'b option" where
  "obindO m f = (case m of None \<Rightarrow> None | Some x \<Rightarrow> f x)"

lemma obindO_simps [simp]: "obindO None f = None" "obindO (Some x) f = f x"
  by (simp_all add: obindO_def)

definition parseRFC3339 :: "string \<Rightarrow> time option" where
  "parseRFC3339 s =
     obindO (get_year s) (\<lambda>(y, s).
     obindO (expect (CHR ''-'') s) (\<lambda>s.
     obindO (getnum True s) (\<lambda>(mo, s).
     obindO (expect (CHR ''-'') s) (\<lambda>s.
     obindO (getnum True s) (\<lambda>(d, s).
     obindO (expect (CHR ''T'') s) (\<lambda>s.
     obindO (getnum False s) (\<lambda>(h, s).
     obindO (expect (CHR '':'') s) (\<lambda>s.
     obindO (getnum True s) (\<lambda>(mi, s).
     obindO (expect (CHR '':'') s) (\<lambda>s.
     obindO (getnum True s) (\<lambda>(sec, s).
     let (ns, s) = get_fraction s in
     obindO (get_zone s) (\<lambda>(off, s).
     if s \<noteq> [] then None
     else if mo < 1 \<or> 12 < mo then None
     else if d < 1 \<or> month_lengths (int y) ! (mo - 1) < int d then None
     else if 24 \<le> h \<or> 60 \<le> mi \<or> 60 \<le> sec then None
     else Some ((civil_to_days (int y) mo (int d) * 86400 + int h * 3600 + int mi * 60 + int sec - off) * Second
                + int ns)))))))))))))"

section \<open>The calendar is a bijection\<close>

lemma div_ceil_Suc:
  fixes y c :: int
  assumes "0 < c" and c': "c' = c - 1"
  shows "(y + c) div c = (y + c') div c + (if y mod c = 0 then 1 else 0)"
proof -
  define q r where "q = y div c" and "r = y mod c"
  have y: "y = c * q + r" and r: "0 \<le> r" "r < c" using assms(1) by (simp_all add: q_def r_def)
  have "(y + (c - 1)) div c = q + (r + (c - 1)) div c"
    using assms(1) by (simp add: y add.assoc)
  also have "(r + (c - 1)) div c = (if r = 0 then 0 else 1)"
  proof (cases "r = 0")
    case False
    have "(r + (c - 1)) div c = ((r - 1) + c) div c" by (simp add: algebra_simps)
    also have "\<dots> = (r - 1) div c + 1" using assms by (intro div_add_self2) simp
    also have "(r - 1) div c = 0" using r False by simp
    finally show ?thesis using False by simp
  qed (use assms(1) in simp)
  finally have "(y + (c - 1)) div c = q + (if r = 0 then 0 else 1)" .
  moreover have "(y + c) div c = q + 1" using assms unfolding q_def by (intro div_add_self2) simp
  ultimately show ?thesis by (simp add: r_def c')
qed

lemma leap_mod: "(y :: int) mod 400 = 0 \<Longrightarrow> y mod 100 = 0" "y mod 100 = 0 \<Longrightarrow> y mod 4 = 0"
  using dvd_trans [of 100 400 y] dvd_trans [of 4 100 y] by (simp_all add: mod_eq_0_iff_dvd)

lemma days_before_year_Suc:
  "days_before_year (y + 1) = days_before_year y + sum_list (month_lengths y)"
proof -
  let ?a = "if y mod 4 = 0 then 1 else 0 :: int" and ?b = "if y mod 100 = 0 then 1 else 0 :: int"
    and ?c = "if y mod 400 = 0 then 1 else 0 :: int"
  have S: "sum_list (month_lengths y) = 365 + (if is_leap y then 1 else 0)" by (simp add: month_lengths_def)
  have "(c \<Longrightarrow> b) \<Longrightarrow> (b \<Longrightarrow> a) \<Longrightarrow> (if a \<and> (\<not> b \<or> c) then 1 else 0 :: int) =
      (if a then 1 else 0) - (if b then 1 else 0) + (if c then 1 else 0)" for a b c
    by (cases a; cases b; cases c) simp_all
  from this [OF leap_mod] have L: "(if is_leap y then 1 else 0 :: int) = ?a - ?b + ?c" unfolding is_leap_def .
  have h: "(y + 4) div 4 = (y + 3) div 4 + ?a" "(y + 100) div 100 = (y + 99) div 100 + ?b"
    "(y + 400) div 400 = (y + 399) div 400 + ?c"
    by (rule div_ceil_Suc; simp)+
  have eq: "days_before_year (y + 1) = 365 * y + 365 + (y + 4) div 4 - (y + 100) div 100 + (y + 400) div 400"
    by (simp add: days_before_year_def add.commute)
  have alg: "365 * y + 365 + (A + a) - (B + b) + (C + c) = 365 * y + A - B + C + (365 + (a - b + c))"
    for A B C a b c :: int by simp
  show ?thesis unfolding eq h S L unfolding days_before_year_def by (rule alg)
qed

lemma days_before_year_bounds:
  "146097 * y - 396 \<le> 400 * days_before_year y" "400 * days_before_year y \<le> 146097 * y + 699"
  by (simp_all add: days_before_year_def)

lemma year_of_bounds: "days_before_year (year_of d) \<le> d \<and> d < days_before_year (year_of d + 1)"
proof -
  define y where "y = (400 * d) div 146097"
  have y: "146097 * y \<le> 400 * d" "400 * d < 146097 * y + 146097" by (simp_all add: y_def)
  have "days_before_year (y - 1) \<le> d" using days_before_year_bounds(2) [of "y - 1"] y by simp
  moreover have "d < days_before_year (y + 2)" using days_before_year_bounds(1) [of "y + 2"] y by simp
  ultimately show ?thesis
    unfolding year_of_def Let_def y_def [symmetric]
    by (cases "d < days_before_year y"; cases "days_before_year (y + 1) \<le> d") (simp_all add: add.assoc)
qed

lemma days_before_year_mono:
  assumes "y \<le> z"
  shows "days_before_year y \<le> days_before_year z"
  using assms
proof (induction z rule: int_ge_induct)
  case (step z)
  have "0 \<le> sum_list (month_lengths z)" by (simp add: month_lengths_def)
  with step show ?case by (simp add: days_before_year_Suc)
qed simp

lemma month_walk_bounds:
  assumes "0 \<le> r" and "r < sum_list ls" and "month_walk ls m r = (m', d)"
  shows "\<exists>k < length ls. m' = m + k \<and> d = r - sum_list (take k ls) + 1 \<and> 1 \<le> d \<and> d \<le> ls ! k"
  using assms
proof (induction ls arbitrary: m r)
  case (Cons l ls)
  show ?case
  proof (cases "r < l")
    case True
    with Cons.prems show ?thesis by (intro exI [of _ 0]) simp
  next
    case False
    with Cons.prems Cons.IH [of "r - l" "Suc m"] obtain k where
      "k < length ls" "m' = Suc m + k" "d = r - l - sum_list (take k ls) + 1" "1 \<le> d" "d \<le> ls ! k"
      by auto
    then show ?thesis by (intro exI [of _ "Suc k"]) simp
  qed
qed simp

lemma days_to_civil_correct:
  assumes "days_to_civil n = (y, m, d)"
  shows "y = year_of (n + epoch_days) \<and> 1 \<le> m \<and> m \<le> 12 \<and> 1 \<le> d \<and> d \<le> month_lengths y ! (m - 1) \<and>
    civil_to_days y m d = n"
proof -
  let ?d = "n + epoch_days"
  from assms have y: "y = year_of ?d"
    and w: "month_walk (month_lengths y) 1 (?d - days_before_year y) = (m, d)"
    by (auto simp: days_to_civil_def Let_def split: prod.splits)
  from year_of_bounds [of ?d] y have "0 \<le> ?d - days_before_year y"
    and "?d - days_before_year y < sum_list (month_lengths y)"
    using days_before_year_Suc [of y] by auto
  from month_walk_bounds [OF this w] obtain k where "k < length (month_lengths y)" "m = 1 + k"
    "d = ?d - days_before_year y - sum_list (take k (month_lengths y)) + 1" "1 \<le> d" "d \<le> month_lengths y ! k"
    by blast
  moreover from this(1) have "k < 12" by (simp add: month_lengths_def)
  ultimately show ?thesis using y by (simp add: civil_to_days_def)
qed

lemma month_lengths_range: "k < 12 \<Longrightarrow> 0 \<le> month_lengths y ! k \<and> month_lengths y ! k \<le> 31"
proof -
  have "list_all (\<lambda>l. 0 \<le> l \<and> l \<le> 31) (month_lengths y)" by (simp add: month_lengths_def)
  moreover assume "k < 12"
  then have "month_lengths y ! k \<in> set (month_lengths y)" by (intro nth_mem) (simp add: month_lengths_def)
  ultimately show ?thesis by (auto simp: list_all_iff)
qed

section \<open>Fixed-width decimal fields\<close>

lemma dec_value_append: "dec_value (s @ t) = dec_value s * 10 ^ length t + dec_value t"
proof (induction t rule: rev_induct)
  case (snoc c t)
  then show ?case by (simp add: dec_value_def algebra_simps)
qed (simp add: dec_value_def)

lemma dec_value_Cons: "dec_value (c # s) = digit_value c * 10 ^ length s + dec_value s"
  using dec_value_append [of "[c]" s] by (simp add: dec_value_def)

lemma digit_value_less: "is_digit c \<Longrightarrow> digit_value c < 10"
  unfolding is_digit_def digit_value_def Let_def by arith

lemma dec_value_less: "list_all is_digit s \<Longrightarrow> dec_value s < 10 ^ length s"
proof (induction s)
  case (Cons c s)
  then have "digit_value c * 10 ^ length s + dec_value s < Suc (digit_value c) * 10 ^ length s"
    by simp
  also have "\<dots> \<le> 10 * 10 ^ length s"
    using Cons.prems digit_value_less [of c] by (intro mult_right_mono) simp_all
  finally show ?case by (simp add: dec_value_Cons)
qed (simp add: dec_value_def)

lemma is_digit_less: "is_digit c \<Longrightarrow> is_digit d \<Longrightarrow> c < d \<longleftrightarrow> digit_value c < digit_value d"
  by (auto simp: is_digit_def digit_value_def Let_def less_char_def)

lemma digit_value_inject: "is_digit c \<Longrightarrow> is_digit d \<Longrightarrow> digit_value c = digit_value d \<longleftrightarrow> c = d"
  using is_digit_less [of c d] is_digit_less [of d c] by (auto simp: neq_iff)

text \<open>On digit strings of one length the order of strings is the order of the numbers.\<close>

lemma digits_less_iff:
  assumes "length s = length t" and "list_all is_digit s" and "list_all is_digit t"
  shows "s < t \<longleftrightarrow> dec_value s < dec_value t"
  using assms
proof (induction s t rule: list_induct2)
  case (Cons c s d t)
  let ?p = "10 ^ length t :: nat"
  have b: "dec_value s < ?p" "dec_value t < ?p"
    using Cons dec_value_less [of s] dec_value_less [of t] by simp_all
  consider "digit_value c < digit_value d" | "digit_value d < digit_value c" | "c = d"
    using Cons.prems digit_value_inject [of c d] by force
  then show ?case
  proof cases
    case 1
    then have "Suc (digit_value c) * ?p \<le> digit_value d * ?p" by (intro mult_right_mono) simp_all
    with 1 b Cons show ?thesis by (simp add: dec_value_Cons is_digit_less)
  next
    case 2
    then have "Suc (digit_value d) * ?p \<le> digit_value c * ?p" by (intro mult_right_mono) simp_all
    with 2 b Cons show ?thesis by (simp add: dec_value_Cons is_digit_less digit_value_inject [symmetric])
  next
    case 3
    with Cons show ?thesis by (simp add: dec_value_Cons)
  qed
qed (simp add: dec_value_def)

lemma length_dec_encode: "0 < w \<Longrightarrow> n < 10 ^ w \<Longrightarrow> length (dec_encode n) \<le> w"
proof (induction n arbitrary: w rule: dec_encode.induct)
  case (1 n)
  show ?case
  proof (cases "n < 10")
    case False
    with "1.prems" obtain v where w: "w = Suc v" "0 < v"
      by (cases w; cases "w - 1") auto
    with "1.prems" have "n div 10 < 10 ^ v" by (simp add: div_less_iff_less_mult)
    with "1.IH" [OF False w(2)] False w show ?thesis by (simp add: dec_encode.simps [of n])
  qed (use "1.prems" in \<open>simp add: dec_encode.simps [of n]\<close>)
qed

lemma pad_props:
  assumes "0 < w" and "n < 10 ^ w"
  shows "length (pad w n) = w" and "list_all is_digit (pad w n)" and "dec_value (pad w n) = n"
proof -
  have z: "dec_value (replicate k (CHR ''0'')) = 0" for k
    by (induction k) (simp_all add: dec_value_Cons digit_value_def, simp add: dec_value_def)
  have d: "is_digit (CHR ''0'')" by (simp add: is_digit_def)
  show "length (pad w n) = w" using length_dec_encode [OF assms] by (simp add: pad_def Let_def)
  show "list_all is_digit (pad w n)"
    using dec_encode_props [of n] d by (auto simp: pad_def Let_def list_all_iff)
  show "dec_value (pad w n) = n"
    using dec_encode_props [of n] z by (simp add: pad_def Let_def dec_value_append)
qed

lemma getnum_pad: "n < 100 \<Longrightarrow> getnum fixed (pad 2 n @ s) = Some (n, s)"
proof -
  assume "n < 100"
  then have p: "length (pad 2 n) = 2" "list_all is_digit (pad 2 n)" "dec_value (pad 2 n) = n"
    using pad_props [of 2 n] by simp_all
  then obtain c d where cd: "pad 2 n = [c, d]" by (auto simp: length_Suc_conv numeral_2_eq_2)
  with p show ?thesis by (simp add: dec_value_def)
qed

lemma get_year_pad: "n < 10000 \<Longrightarrow> get_year (pad 4 n @ s) = Some (n, s)"
  using pad_props [of 4 n] by (simp add: get_year_def)

section \<open>Formatting and parsing\<close>

text \<open>The instants of the years 0000 to 9999, in seconds: those RFC 3339 can express.\<close>

definition rfc3339_range :: "int \<Rightarrow> bool" where
  "rfc3339_range s \<longleftrightarrow> - 62167219200 \<le> s \<and> s < 253402300800"

lemma rfc3339_year:
  assumes "rfc3339_range s" and "days_to_civil (s div 86400) = (y, m, d)"
  shows "0 \<le> y" and "y \<le> 9999"
proof -
  let ?d = "s div 86400 + epoch_days"
  from assms(1) have d: "0 \<le> ?d" "?d < 3652425" unfolding rfc3339_range_def epoch_days_def by linarith+
  have y: "y = year_of ?d" using days_to_civil_correct [OF assms(2)] by simp
  have z: "days_before_year 0 = 0" "days_before_year 10000 = 3652425" by (simp_all add: days_before_year_def)
  show "0 \<le> y"
  proof (rule ccontr)
    assume "\<not> 0 \<le> y"
    then have "days_before_year (y + 1) \<le> days_before_year 0" by (intro days_before_year_mono) simp
    with year_of_bounds [of ?d] d y z show False by simp
  qed
  show "y \<le> 9999"
  proof (rule ccontr)
    assume "\<not> y \<le> 9999"
    then have "days_before_year 10000 \<le> days_before_year y" by (intro days_before_year_mono) simp
    with year_of_bounds [of ?d] d y z show False by simp
  qed
qed

text \<open>The six fields of an instant and what they determine.\<close>

lemma civil_fields:
  assumes "rfc3339_range s"
  obtains y m d where "days_to_civil (s div 86400) = (int y, m, int d)" and "y < 10000" and "1 \<le> m" and "m \<le> 12"
    and "1 \<le> d" and "int d \<le> month_lengths (int y) ! (m - 1)" and "d \<le> 31"
    and "civil_to_days (int y) m (int d) = s div 86400"
proof -
  obtain y m d where c: "days_to_civil (s div 86400) = (y, m, d)" by (metis prod_cases3)
  note k = days_to_civil_correct [OF c]
  then have "m - 1 < 12" by (elim conjE) arith
  from month_lengths_range [OF this, of y] k have "d \<le> 31" by linarith
  from k have "1 \<le> m" "m \<le> 12" "1 \<le> d" "d \<le> month_lengths y ! (m - 1)" "civil_to_days y m d = s div 86400"
    by blast+
  with \<open>d \<le> 31\<close> c rfc3339_year [OF assms c] that [of "nat y" m "nat d"] show thesis by simp
qed

lemma format_seconds_fields:
  assumes "days_to_civil (s div 86400) = (int y, m, int d)"
  shows "format_seconds s = pad 4 y @ ''-'' @ pad 2 m @ ''-'' @ pad 2 d @ ''T'' @
    pad 2 (nat (s mod 86400 div 3600)) @ '':'' @ pad 2 (nat (s mod 86400 div 60 mod 60)) @ '':'' @
    pad 2 (nat (s mod 86400 mod 60))"
  using assms by (simp add: format_seconds_def format_year_def Let_def)

lemma clock_fields:
  fixes r :: int
  assumes "0 \<le> r" and "r < 86400"
  shows "nat (r div 3600) < 24" "nat (r div 60 mod 60) < 60" "nat (r mod 60) < 60"
    "int (nat (r div 3600)) * 3600 + int (nat (r div 60 mod 60)) * 60 + int (nat (r mod 60)) = r"
proof -
  from assms show "nat (r div 3600) < 24" by linarith
  show "nat (r div 60 mod 60) < 60" "nat (r mod 60) < 60" by simp_all
  have "r div 60 div 60 = r div 3600" by (simp add: zdiv_zmult2_eq [symmetric])
  then have "r div 3600 * 3600 + r div 60 mod 60 * 60 + r mod 60 = r"
    using div_mult_mod_eq [of "r div 60" 60] div_mult_mod_eq [of r 60] by linarith
  with assms show "int (nat (r div 3600)) * 3600 + int (nat (r div 60 mod 60)) * 60 + int (nat (r mod 60)) = r"
    by (simp add: pos_imp_zdiv_nonneg_iff)
qed

lemma parse_format_seconds:
  assumes "rfc3339_range s"
  shows "parseRFC3339 (format_seconds s @ ''Z'') = Some (s * Second)"
proof -
  from assms obtain y m d where c: "days_to_civil (s div 86400) = (int y, m, int d)" "y < 10000" "1 \<le> m"
    "m \<le> 12" "1 \<le> d" "int d \<le> month_lengths (int y) ! (m - 1)" "d \<le> 31"
    and days: "civil_to_days (int y) m (int d) = s div 86400"
    by (rule civil_fields)
  define h mi se where "h = nat (s mod 86400 div 3600)" and "mi = nat (s mod 86400 div 60 mod 60)"
    and "se = nat (s mod 86400 mod 60)"
  have hms: "h < 24" "mi < 60" "se < 60" "int h * 3600 + int mi * 60 + int se = s mod 86400"
    unfolding h_def mi_def se_def by (rule clock_fields; simp)+
  have total: "s div 86400 * 86400 + int h * 3600 + int mi * 60 + int se = s"
    using hms(4) div_mult_mod_eq [of s 86400] by linarith
  have fmt: "format_seconds s @ ''Z'' = pad 4 y @ ''-'' @ pad 2 m @ ''-'' @ pad 2 d @ ''T'' @ pad 2 h @ '':'' @
      pad 2 mi @ '':'' @ pad 2 se @ ''Z''"
    unfolding format_seconds_fields [OF c(1)] h_def mi_def se_def by simp
  have "m < 100" "d < 100" "h < 100" "mi < 100" "se < 100" using c hms by simp_all
  with c hms total show ?thesis
    unfolding fmt parseRFC3339_def
    by (simp add: get_year_pad getnum_pad get_fraction_def get_zone_def days not_less)
qed

text \<open>Formatting to whole seconds and parsing back rounds an instant down to its second.\<close>

lemma parse_formatRFC3339:
  "rfc3339_range (t div Second) \<Longrightarrow> parseRFC3339 (formatRFC3339 t) = Some (t div Second * Second)"
  by (simp add: formatRFC3339_def parse_format_seconds)


section \<open>The order of formatted instants\<close>

lemma append_less_append:
  fixes a b x y :: string
  assumes "length a = length b"
  shows "a @ x < b @ y \<longleftrightarrow> a < b \<or> a = b \<and> x < y"
  using assms by (induction a b rule: list_induct2) auto

lemma pad_less: "0 < w \<Longrightarrow> m < 10 ^ w \<Longrightarrow> n < 10 ^ w \<Longrightarrow> pad w m < pad w n \<longleftrightarrow> m < n"
  using pad_props [of w m] pad_props [of w n] digits_less_iff [of "pad w m" "pad w n"] by simp

lemma pad_eq: "0 < w \<Longrightarrow> m < 10 ^ w \<Longrightarrow> n < 10 ^ w \<Longrightarrow> pad w m = pad w n \<longleftrightarrow> m = n"
  by (metis pad_props(3))

lemma pad_append_less:
  assumes "0 < w" and "m < 10 ^ w" and "n < 10 ^ w"
  shows "pad w m @ x < pad w n @ y \<longleftrightarrow> m < n \<or> m = n \<and> x < y"
  using assms by (simp add: append_less_append pad_props pad_less pad_eq)

text \<open>The order of two dates given field by field.\<close>

lemma sum_take_mono:
  assumes "i \<le> j" and "\<And>x :: int. x \<in> set ls \<Longrightarrow> 0 \<le> x"
  shows "sum_list (take i ls) \<le> sum_list (take j ls)"
proof -
  have "take j ls = take i ls @ take (j - i) (drop i ls)"
    using take_add [of i "j - i" ls] assms(1) by simp
  moreover have "0 \<le> sum_list (take (j - i) (drop i ls))"
    using assms(2) by (intro sum_list_nonneg) (meson in_set_dropD in_set_takeD)
  ultimately show ?thesis by simp
qed

lemma civil_less:
  assumes "1 \<le> m" "m \<le> 12" "1 \<le> d" "d \<le> month_lengths y ! (m - 1)"
    and "1 \<le> m'" "m' \<le> 12" "1 \<le> d'" "d' \<le> month_lengths y' ! (m' - 1)"
    and "y < y' \<or> y = y' \<and> (m < m' \<or> m = m' \<and> d < d')"
  shows "civil_to_days y m d < civil_to_days y' m' d'"
proof -
  have nn: "0 \<le> x" if "x \<in> set (month_lengths z)" for x z
    using that by (auto simp: month_lengths_def split: if_splits)
  have len: "length (month_lengths z) = 12" for z by (simp add: month_lengths_def)
  have upto: "sum_list (take (m - 1) (month_lengths y)) + d \<le> sum_list (take m (month_lengths y))"
    using assms(1,2,4) len [of y] by (cases m) (simp_all add: take_Suc_conv_app_nth)
  consider "y < y'" | "y = y'" "m < m'" | "y = y'" "m = m'" "d < d'" using assms(9) by blast
  then show ?thesis
  proof cases
    case 1
    have "sum_list (take m (month_lengths y)) \<le> sum_list (take 12 (month_lengths y))"
      using assms(2) nn by (rule sum_take_mono)
    then have "days_before_year y + sum_list (take (m - 1) (month_lengths y)) + d \<le> days_before_year (y + 1)"
      using upto len [of y] by (simp add: days_before_year_Suc)
    also have "\<dots> \<le> days_before_year y'" using 1 by (intro days_before_year_mono) simp
    finally have "days_before_year y + sum_list (take (m - 1) (month_lengths y)) + d \<le> days_before_year y'" .
    moreover have "0 \<le> sum_list (take (m' - 1) (month_lengths y'))"
      using nn by (intro sum_list_nonneg) (meson in_set_takeD)
    ultimately show ?thesis using assms(7) by (simp add: civil_to_days_def)
  next
    case 2
    have "sum_list (take m (month_lengths y)) \<le> sum_list (take (m' - 1) (month_lengths y))"
      using 2 nn by (intro sum_take_mono) simp_all
    with 2 upto assms(7) show ?thesis by (simp add: civil_to_days_def)
  qed (simp add: civil_to_days_def)
qed

text \<open>
  Instants of the expressible range compare as their formatted strings do: the comparisons of
  timestamps in SQL and in Go code over these strings are comparisons of whole seconds.
\<close>

lemma format_seconds_less:
  assumes "rfc3339_range s" and "rfc3339_range t" and "format_seconds s @ x < format_seconds t @ x"
  shows "s < t"
proof -
  from assms(1) obtain y m d where s: "days_to_civil (s div 86400) = (int y, m, int d)" "y < 10000" "1 \<le> m"
    "m \<le> 12" "1 \<le> d" "int d \<le> month_lengths (int y) ! (m - 1)" "d \<le> 31"
    "civil_to_days (int y) m (int d) = s div 86400"
    by (rule civil_fields)
  from assms(2) obtain y' m' d' where t: "days_to_civil (t div 86400) = (int y', m', int d')" "y' < 10000" "1 \<le> m'"
    "m' \<le> 12" "1 \<le> d'" "int d' \<le> month_lengths (int y') ! (m' - 1)" "d' \<le> 31"
    "civil_to_days (int y') m' (int d') = t div 86400"
    by (rule civil_fields)
  define h mi se where "h = nat (s mod 86400 div 3600)" and "mi = nat (s mod 86400 div 60 mod 60)"
    and "se = nat (s mod 86400 mod 60)"
  define h' mi' se' where "h' = nat (t mod 86400 div 3600)" and "mi' = nat (t mod 86400 div 60 mod 60)"
    and "se' = nat (t mod 86400 mod 60)"
  have hms: "h < 24" "mi < 60" "se < 60" "int h * 3600 + int mi * 60 + int se = s mod 86400"
    unfolding h_def mi_def se_def by (rule clock_fields; simp)+
  have hms': "h' < 24" "mi' < 60" "se' < 60" "int h' * 3600 + int mi' * 60 + int se' = t mod 86400"
    unfolding h'_def mi'_def se'_def by (rule clock_fields; simp)+
  have "m < 100" "d < 100" "h < 100" "mi < 100" "se < 100" "m' < 100" "d' < 100" "h' < 100" "mi' < 100" "se' < 100"
    using s(4,7) t(4,7) hms(1-3) hms'(1-3) by simp_all
  then have lex: "(y < y' \<or> y = y' \<and> (m < m' \<or> m = m' \<and> d < d')) \<or>
      y = y' \<and> m = m' \<and> d = d' \<and> (h < h' \<or> h = h' \<and> (mi < mi' \<or> mi = mi' \<and> se < se'))"
    using assms(3) s(2) t(2)
    unfolding format_seconds_fields [OF s(1)] format_seconds_fields [OF t(1)]
      h_def [symmetric] mi_def [symmetric] se_def [symmetric]
      h'_def [symmetric] mi'_def [symmetric] se'_def [symmetric]
    by (auto simp: pad_append_less)
  then show ?thesis
  proof
    assume "y < y' \<or> y = y' \<and> (m < m' \<or> m = m' \<and> d < d')"
    then have "civil_to_days (int y) m (int d) < civil_to_days (int y') m' (int d')"
      using s t by (intro civil_less) auto
    then have "s div 86400 < t div 86400" using s t by simp
    then show ?thesis by (metis div_le_mono linorder_not_le zdiv_mono1 zero_less_numeral)
  next
    assume same: "y = y' \<and> m = m' \<and> d = d' \<and> (h < h' \<or> h = h' \<and> (mi < mi' \<or> mi = mi' \<and> se < se'))"
    then have "s div 86400 = t div 86400" using s(8) t(8) by simp
    moreover have "int h * 3600 + int mi * 60 + int se < int h' * 3600 + int mi' * 60 + int se'"
      using same hms(1-3) hms'(1-3) by linarith
    ultimately show ?thesis
      using hms(4) hms'(4) div_mult_mod_eq [of s 86400] div_mult_mod_eq [of t 86400] by linarith
  qed
qed

lemma formatRFC3339_less:
  assumes "rfc3339_range (a div Second)" and "rfc3339_range (b div Second)"
  shows "formatRFC3339 a < formatRFC3339 b \<longleftrightarrow> a div Second < b div Second"
proof -
  have "formatRFC3339 a < formatRFC3339 b \<Longrightarrow> a div Second < b div Second"
    using format_seconds_less [OF assms] by (simp add: formatRFC3339_def)
  moreover have "formatRFC3339 b < formatRFC3339 a \<Longrightarrow> b div Second < a div Second"
    using format_seconds_less [OF assms(2,1)] by (simp add: formatRFC3339_def)
  moreover have "formatRFC3339 a = formatRFC3339 b \<Longrightarrow> a div Second = b div Second"
    using parse_formatRFC3339 [OF assms(1)] parse_formatRFC3339 [OF assms(2)] by simp
  ultimately show ?thesis
    by (cases "formatRFC3339 a" "formatRFC3339 b" rule: linorder_cases) auto
qed

lemma formatRFC3339_le:
  assumes "rfc3339_range (a div Second)" and "rfc3339_range (b div Second)"
  shows "formatRFC3339 a \<le> formatRFC3339 b \<longleftrightarrow> a div Second \<le> b div Second"
  using formatRFC3339_less [OF assms(2,1)] by (auto simp: not_less [symmetric])

lemma formatRFC3339Nano_nonempty: "formatRFC3339Nano t \<noteq> []"
  by (simp add: formatRFC3339Nano_def Let_def)

end
