(* ===== verification/Board.thy ===== *)
theory Board
  imports Vtxo GoTime
begin

text \<open>
  \<open>internal/policy/vault_board.go\<close>, the records: the boarding enrollment, operation,
  authorization, dispatch and submission rows, their canonical serialisations and seals, the
  server-derived operation id and the register quarantine. The ledger operations over them
  are in the theory of the board ledger.
\<close>

section \<open>Data\<close>

abbreviation VaultBoardPhaseRegister :: string where "VaultBoardPhaseRegister \<equiv> ''register''"
abbreviation VaultBoardPhaseDelete :: string where "VaultBoardPhaseDelete \<equiv> ''delete''"
abbreviation VaultBoardPhaseFinalize :: string where "VaultBoardPhaseFinalize \<equiv> ''finalize''"
abbreviation VaultBoardAuthSubmitted :: string where "VaultBoardAuthSubmitted \<equiv> ''submitted''"
abbreviation VaultBoardAuthReleased :: string where "VaultBoardAuthReleased \<equiv> ''released''"
abbreviation VaultBoardAuthRejected :: string where "VaultBoardAuthRejected \<equiv> ''rejected''"

abbreviation vaultBoardEnrollmentMACDomain :: string where
  "vaultBoardEnrollmentMACDomain \<equiv> ''arkade-vault/vault-board-v1-enrollment/v1''"
abbreviation vaultBoardOperationMACDomain :: string where
  "vaultBoardOperationMACDomain \<equiv> ''arkade-vault/vault-board-v1-operation/v1''"
abbreviation vaultBoardAuthorizationDomain :: string where
  "vaultBoardAuthorizationDomain \<equiv> ''arkade-vault/vault-board-v1-authorization/v1''"
abbreviation vaultBoardDispatchMACDomain :: string where
  "vaultBoardDispatchMACDomain \<equiv> ''arkade-vault/vault-board-v1-dispatch/v1''"
abbreviation vaultBoardSubmissionMACDomain :: string where
  "vaultBoardSubmissionMACDomain \<equiv> ''arkade-vault/vault-board-v1-submission/v1''"
abbreviation vaultBoardOperationIDDomain :: string where
  "vaultBoardOperationIDDomain \<equiv> ''arkade-vault/vault-board-v1-operation-id/v1''"
abbreviation vaultBoardCanonicalVersion :: u32 where "vaultBoardCanonicalVersion \<equiv> 1"
abbreviation MaxVaultBoardOperatorRefBytes :: nat where "MaxVaultBoardOperatorRefBytes \<equiv> 256"

record VaultBoardEnrollment =
  be_VaultID :: string
  be_Program :: string
  be_BoardingPub :: bytes
  be_CosignerPub :: bytes
  be_OperatorPub :: bytes
  be_ExitDelay :: u32
  be_ExitDelayUnit :: string
  be_PkScript :: bytes
  be_Address :: string
  be_IntegrityMAC :: bytes

record VaultBoardOperation =
  bo_OperationID :: string
  bo_VaultID :: string
  bo_Txid :: bytes
  bo_Vout :: u32
  bo_ValueSats :: i64
  bo_BoardingScript :: bytes
  bo_ReceiverScript :: bytes
  bo_SequenceAnchorMTP :: i64
  bo_CreatedAt :: string
  bo_IntegrityMAC :: bytes

record VaultBoardAuthorization =
  ba_OperationID :: string
  ba_Attempt :: u32
  ba_Phase :: string
  ba_RequestDigest :: bytes
  ba_TreeSessionPub :: bytes
  ba_ReceiverSats :: i64
  ba_FeeSats :: i64
  ba_ExpireAt :: i64
  ba_CommitmentTxid :: string
  ba_ReceiverTxid :: string
  ba_ReceiverVout :: u32
  ba_CreatedAt :: string
  ba_IntegrityMAC :: bytes

record VaultBoardSubmission =
  bs_OperationID :: string
  bs_Attempt :: u32
  bs_Phase :: string
  bs_RequestDigest :: bytes
  bs_Outcome :: string
  bs_OperatorRef :: string
  bs_CommitmentTxid :: string
  bs_ReceiverTxid :: string
  bs_ReceiverVout :: u32
  bs_CreatedAt :: string
  bs_IntegrityMAC :: bytes

record VaultBoardDispatch =
  bd_OperationID :: string
  bd_Attempt :: u32
  bd_Phase :: string
  bd_RequestDigest :: bytes
  bd_CreatedAt :: string
  bd_IntegrityMAC :: bytes

record VaultBoardRegisterRequest =
  br_RequestDigest :: bytes
  br_TreeSessionPub :: bytes
  br_ReceiverSats :: i64
  br_FeeSats :: i64
  br_ExpireAt :: i64

record VaultBoardAttemptSnapshot =
  sn_Operation :: VaultBoardOperation
  sn_Register :: VaultBoardAuthorization
  sn_RegisterDispatch :: "VaultBoardDispatch option"
  sn_RegisterSubmission :: "VaultBoardSubmission option"
  sn_DeleteAuthorization :: "VaultBoardAuthorization option"
  sn_DeleteDispatch :: "VaultBoardDispatch option"
  sn_DeleteSubmission :: "VaultBoardSubmission option"
  sn_FinalAuthorization :: "VaultBoardAuthorization option"
  sn_FinalDispatch :: "VaultBoardDispatch option"
  sn_FinalSubmission :: "VaultBoardSubmission option"

text \<open>\<open>now.UTC().Unix()\<close> is the whole seconds of the instant; the comparisons are on \<open>int64\<close>.\<close>

definition VaultBoardRegisterCanSupersede :: "i64 \<Rightarrow> time \<Rightarrow> bool" where
  "VaultBoardRegisterCanSupersede expireAt now =
     (let quarantineSeconds = 30; nowUnix = now div Second
      in sint expireAt > 0 \<and> nowUnix \<ge> quarantineSeconds \<and> sint expireAt \<le> nowUnix - quarantineSeconds)"

section \<open>Canonical serialisations\<close>

definition boardCanonical :: "string \<Rightarrow> bytes list \<Rightarrow> bytes result" where
  "boardCanonical domain fs =
     bindR (appendCredentialField [] (str_bytes domain)) (\<lambda>out.
     appendCredentialFields (out @ le32 vaultBoardCanonicalVersion) fs)"

definition canonicalVaultBoardEnrollment :: "VaultBoardEnrollment \<Rightarrow> bytes result" where
  "canonicalVaultBoardEnrollment rec =
     (if be_VaultID rec = [] \<or> be_Program rec \<noteq> ''vault-board-v1'' \<or> length (be_BoardingPub rec) \<noteq> 33 \<or>
         length (be_CosignerPub rec) \<noteq> 33 \<or> length (be_OperatorPub rec) \<noteq> 33 \<or> length (be_PkScript rec) \<noteq> 34 \<or>
         be_Address rec = [] \<or> be_ExitDelay rec = 0 \<or> be_ExitDelayUnit rec = [] then
        Inl (Errorf ''invalid vault-board-v1 enrollment'')
      else bindR (boardCanonical vaultBoardEnrollmentMACDomain
          [str_bytes (be_VaultID rec), str_bytes (be_Program rec), be_BoardingPub rec, be_CosignerPub rec,
           be_OperatorPub rec, str_bytes (be_ExitDelayUnit rec), be_PkScript rec, str_bytes (be_Address rec)])
        (\<lambda>out. Inr (out @ le32 (be_ExitDelay rec))))"

definition ComputeVaultBoardOperationID :: "string \<Rightarrow> bytes \<Rightarrow> u32 \<Rightarrow> string result" where
  "ComputeVaultBoardOperationID vaultID txid vout =
     (if vaultID = [] \<or> length txid \<noteq> 32 then Inl (Errorf ''vault-board-v1 outpoint required'')
      else bindR (boardCanonical vaultBoardOperationIDDomain [str_bytes vaultID, txid]) (\<lambda>payload.
        Inr (hex_encode (taggedSHA256 vaultBoardOperationIDDomain (payload @ le32 vout)))))"

definition canonicalVaultBoardOperation :: "VaultBoardOperation \<Rightarrow> bytes result" where
  "canonicalVaultBoardOperation rec =
     (if bo_OperationID rec = [] \<or> bo_VaultID rec = [] \<or> length (bo_Txid rec) \<noteq> 32 \<or>
         sint (bo_ValueSats rec) \<le> 0 \<or> length (bo_BoardingScript rec) \<noteq> 34 \<or>
         length (bo_ReceiverScript rec) = 0 \<or> sint (bo_SequenceAnchorMTP rec) \<le> 0 \<or> bo_CreatedAt rec = [] then
        Inl (Errorf ''invalid vault-board-v1 operation'')
      else if ComputeVaultBoardOperationID (bo_VaultID rec) (bo_Txid rec) (bo_Vout rec) \<noteq> Inr (bo_OperationID rec) then
        Inl (Errorf ''vault-board-v1 operation id mismatch'')
      else bindR (boardCanonical vaultBoardOperationMACDomain
          [str_bytes (bo_OperationID rec), str_bytes (bo_VaultID rec), bo_Txid rec, bo_BoardingScript rec,
           bo_ReceiverScript rec, str_bytes (bo_CreatedAt rec)])
        (\<lambda>out. Inr (out @ le32 (bo_Vout rec) @ le64 (bo_ValueSats rec) @ le64 (bo_SequenceAnchorMTP rec))))"

text \<open>The check \<open>rec.Txid == canonical(rec.Txid)\<close> that both finalize cases make.\<close>

definition canonicalTxidText :: "string \<Rightarrow> bool" where
  "canonicalTxidText t =
     (case canonicalVtxoTxid (str_bytes t) of Inl _ \<Rightarrow> False | Inr (canon, _) \<Rightarrow> t = canon)"

definition authorizationPhase :: "VaultBoardAuthorization \<Rightarrow> unit result" where
  "authorizationPhase rec =
     (if ba_Phase rec = VaultBoardPhaseRegister then
        (if sint (ba_ExpireAt rec) \<le> 0 \<or> length (ba_TreeSessionPub rec) \<noteq> 33 \<or> sint (ba_ReceiverSats rec) \<le> 0 \<or>
            sint (ba_FeeSats rec) < 0 \<or> sint (ba_ReceiverSats rec) > sint (max_i64 - ba_FeeSats rec) \<or>
            ba_CommitmentTxid rec \<noteq> [] \<or> ba_ReceiverTxid rec \<noteq> [] \<or> ba_ReceiverVout rec \<noteq> 0 then
           Inl (Errorf ''vault-board-v1 register attempt fields required'')
         else Inr ())
      else if ba_Phase rec = VaultBoardPhaseFinalize then
        (if ba_ExpireAt rec \<noteq> 0 \<or> length (ba_TreeSessionPub rec) \<noteq> 0 \<or> ba_ReceiverSats rec \<noteq> 0 \<or>
            ba_FeeSats rec \<noteq> 0 \<or> \<not> canonicalTxidText (ba_CommitmentTxid rec) \<or>
            \<not> canonicalTxidText (ba_ReceiverTxid rec) then
           Inl (Errorf ''vault-board-v1 finalize fields'')
         else Inr ())
      else if ba_Phase rec = VaultBoardPhaseDelete then
        (if sint (ba_ExpireAt rec) \<le> 0 \<or> length (ba_TreeSessionPub rec) \<noteq> 0 \<or> ba_ReceiverSats rec \<noteq> 0 \<or>
            ba_FeeSats rec \<noteq> 0 \<or> ba_CommitmentTxid rec \<noteq> [] \<or> ba_ReceiverTxid rec \<noteq> [] \<or>
            ba_ReceiverVout rec \<noteq> 0 then
           Inl (Errorf ''vault-board-v1 delete fields'')
         else Inr ())
      else Inl (Errorf ''invalid vault-board-v1 phase''))"

definition canonicalVaultBoardAuthorization :: "VaultBoardAuthorization \<Rightarrow> bytes result" where
  "canonicalVaultBoardAuthorization rec =
     (if ba_OperationID rec = [] \<or> length (ba_RequestDigest rec) \<noteq> 32 \<or> ba_CreatedAt rec = [] then
        Inl (Errorf ''invalid vault-board-v1 authorization'')
      else bindR (authorizationPhase rec) (\<lambda>_.
        bindR (boardCanonical vaultBoardAuthorizationDomain
          [str_bytes (ba_OperationID rec), str_bytes (ba_Phase rec), ba_RequestDigest rec, ba_TreeSessionPub rec,
           str_bytes (ba_CommitmentTxid rec), str_bytes (ba_ReceiverTxid rec), str_bytes (ba_CreatedAt rec)])
        (\<lambda>out. Inr (out @ le32 (ba_Attempt rec) @ le64 (ba_ReceiverSats rec) @ le64 (ba_FeeSats rec) @
                    le64 (ba_ExpireAt rec) @ le32 (ba_ReceiverVout rec)))))"

definition submissionPhase :: "VaultBoardSubmission \<Rightarrow> unit result" where
  "submissionPhase rec =
     (if bs_Phase rec = VaultBoardPhaseRegister then
        (let validSubmitted = (bs_Outcome rec = VaultBoardAuthSubmitted \<and> bs_OperatorRef rec \<noteq> []);
             validRejected = (bs_Outcome rec = VaultBoardAuthRejected \<and> bs_OperatorRef rec = [])
         in if (\<not> validSubmitted \<and> \<not> validRejected) \<or> bs_CommitmentTxid rec \<noteq> [] \<or>
              bs_ReceiverTxid rec \<noteq> [] \<or> bs_ReceiverVout rec \<noteq> 0 then
              Inl (Errorf ''vault-board-v1 intent id required'')
            else Inr ())
      else if bs_Phase rec = VaultBoardPhaseDelete then
        (if bs_Outcome rec \<noteq> VaultBoardAuthReleased \<or> bs_OperatorRef rec \<noteq> [] \<or> bs_CommitmentTxid rec \<noteq> [] \<or>
            bs_ReceiverTxid rec \<noteq> [] \<or> bs_ReceiverVout rec \<noteq> 0 then
           Inl (Errorf ''vault-board-v1 delete result'')
         else Inr ())
      else if bs_Phase rec = VaultBoardPhaseFinalize then
        (if bs_Outcome rec \<noteq> VaultBoardAuthSubmitted \<or> bs_OperatorRef rec \<noteq> [] \<or>
            \<not> canonicalTxidText (bs_CommitmentTxid rec) \<or> \<not> canonicalTxidText (bs_ReceiverTxid rec) then
           Inl (Errorf ''vault-board-v1 finalize result'')
         else Inr ())
      else Inl (Errorf ''invalid vault-board-v1 phase''))"

definition canonicalVaultBoardSubmission :: "VaultBoardSubmission \<Rightarrow> bytes result" where
  "canonicalVaultBoardSubmission rec =
     (if bs_OperationID rec = [] \<or> length (bs_RequestDigest rec) \<noteq> 32 \<or> bs_CreatedAt rec = [] \<or>
         length (bs_OperatorRef rec) > MaxVaultBoardOperatorRefBytes then
        Inl (Errorf ''invalid vault-board-v1 submission'')
      else bindR (submissionPhase rec) (\<lambda>_.
        bindR (boardCanonical vaultBoardSubmissionMACDomain
          [str_bytes (bs_OperationID rec), str_bytes (bs_Phase rec), bs_RequestDigest rec, str_bytes (bs_Outcome rec),
           str_bytes (bs_OperatorRef rec), str_bytes (bs_CommitmentTxid rec), str_bytes (bs_ReceiverTxid rec),
           str_bytes (bs_CreatedAt rec)])
        (\<lambda>out. Inr (out @ le32 (bs_Attempt rec) @ le32 (bs_ReceiverVout rec)))))"

definition canonicalVaultBoardDispatch :: "VaultBoardDispatch \<Rightarrow> bytes result" where
  "canonicalVaultBoardDispatch rec =
     (if bd_OperationID rec = [] \<or> length (bd_RequestDigest rec) \<noteq> 32 \<or> bd_CreatedAt rec = [] then
        Inl (Errorf ''invalid vault-board-v1 dispatch'')
      else if bd_Phase rec \<notin> {VaultBoardPhaseRegister, VaultBoardPhaseDelete, VaultBoardPhaseFinalize} then
        Inl (Errorf ''invalid vault-board-v1 phase'')
      else bindR (boardCanonical vaultBoardDispatchMACDomain
          [str_bytes (bd_OperationID rec), str_bytes (bd_Phase rec), bd_RequestDigest rec, str_bytes (bd_CreatedAt rec)])
        (\<lambda>out. Inr (out @ le32 (bd_Attempt rec))))"

section \<open>Seals\<close>

definition vaultBoardMAC :: "('r \<Rightarrow> bytes result) \<Rightarrow> 'r \<Rightarrow> bytes \<Rightarrow> bytes result" where
  "vaultBoardMAC canonical rec key =
     (if length key \<noteq> 32 then Inl (Errorf ''vault-board-v1 integrity key'')
      else bindR (canonical rec) (\<lambda>payload. Inr (hmac_sha256 key payload)))"

definition verifyVaultBoardMAC :: "('r \<Rightarrow> bytes result) \<Rightarrow> 'r \<Rightarrow> bytes \<Rightarrow> bytes \<Rightarrow> string \<Rightarrow> unit result" where
  "verifyVaultBoardMAC canonical rec got key kind =
     (if length got \<noteq> 32 then
        Inl (Errorf (''vault-board-v1 '' @ kind @ '' integrity MAC missing or malformed''))
      else bindR (vaultBoardMAC canonical rec key) (\<lambda>want.
        if got \<noteq> want then Inl (Errorf (''vault-board-v1 '' @ kind @ '' integrity MAC mismatch'')) else Inr ()))"

definition SealVaultBoardEnrollment :: "VaultBoardEnrollment \<Rightarrow> bytes \<Rightarrow> VaultBoardEnrollment result" where
  "SealVaultBoardEnrollment rec key =
     bindR (vaultBoardMAC canonicalVaultBoardEnrollment rec key) (\<lambda>mac. Inr (rec\<lparr> be_IntegrityMAC := mac \<rparr>))"

definition VerifyVaultBoardEnrollment :: "VaultBoardEnrollment \<Rightarrow> bytes \<Rightarrow> unit result" where
  "VerifyVaultBoardEnrollment rec key =
     verifyVaultBoardMAC canonicalVaultBoardEnrollment rec (be_IntegrityMAC rec) key ''enrollment''"

definition SealVaultBoardOperation :: "VaultBoardOperation \<Rightarrow> bytes \<Rightarrow> VaultBoardOperation result" where
  "SealVaultBoardOperation rec key =
     bindR (vaultBoardMAC canonicalVaultBoardOperation rec key) (\<lambda>mac. Inr (rec\<lparr> bo_IntegrityMAC := mac \<rparr>))"

definition VerifyVaultBoardOperation :: "VaultBoardOperation \<Rightarrow> bytes \<Rightarrow> unit result" where
  "VerifyVaultBoardOperation rec key =
     verifyVaultBoardMAC canonicalVaultBoardOperation rec (bo_IntegrityMAC rec) key ''operation''"

definition SealVaultBoardAuthorization :: "VaultBoardAuthorization \<Rightarrow> bytes \<Rightarrow> VaultBoardAuthorization result" where
  "SealVaultBoardAuthorization rec key =
     bindR (vaultBoardMAC canonicalVaultBoardAuthorization rec key) (\<lambda>mac. Inr (rec\<lparr> ba_IntegrityMAC := mac \<rparr>))"

definition VerifyVaultBoardAuthorization :: "VaultBoardAuthorization \<Rightarrow> bytes \<Rightarrow> unit result" where
  "VerifyVaultBoardAuthorization rec key =
     verifyVaultBoardMAC canonicalVaultBoardAuthorization rec (ba_IntegrityMAC rec) key ''authorization''"

definition SealVaultBoardDispatch :: "VaultBoardDispatch \<Rightarrow> bytes \<Rightarrow> VaultBoardDispatch result" where
  "SealVaultBoardDispatch rec key =
     bindR (vaultBoardMAC canonicalVaultBoardDispatch rec key) (\<lambda>mac. Inr (rec\<lparr> bd_IntegrityMAC := mac \<rparr>))"

definition VerifyVaultBoardDispatch :: "VaultBoardDispatch \<Rightarrow> bytes \<Rightarrow> unit result" where
  "VerifyVaultBoardDispatch rec key =
     verifyVaultBoardMAC canonicalVaultBoardDispatch rec (bd_IntegrityMAC rec) key ''dispatch''"

definition SealVaultBoardSubmission :: "VaultBoardSubmission \<Rightarrow> bytes \<Rightarrow> VaultBoardSubmission result" where
  "SealVaultBoardSubmission rec key =
     bindR (vaultBoardMAC canonicalVaultBoardSubmission rec key) (\<lambda>mac. Inr (rec\<lparr> bs_IntegrityMAC := mac \<rparr>))"

definition VerifyVaultBoardSubmission :: "VaultBoardSubmission \<Rightarrow> bytes \<Rightarrow> unit result" where
  "VerifyVaultBoardSubmission rec key =
     verifyVaultBoardMAC canonicalVaultBoardSubmission rec (bs_IntegrityMAC rec) key ''submission''"

section \<open>The contracts of the seals\<close>

lemma boardCanonical_Inr:
  "boardCanonical domain fs = Inr out \<longleftrightarrow>
     fits (str_bytes domain) \<and> list_all fits fs \<and>
     out = field_bytes (str_bytes domain) @ le32 vaultBoardCanonicalVersion @ concat (map field_bytes fs)"
  by (auto simp: boardCanonical_def res_simps appendCredentialField_Inr appendCredentialFields_Inr)

text \<open>Two payloads of one domain with equally many fields agree only if fields and suffix do.\<close>

lemma boardCanonical_inject:
  assumes "boardCanonical domain fs = Inr out" and "boardCanonical domain gs = Inr out'"
    and "length fs = length gs" and "out @ x = out' @ y"
  shows "fs = gs \<and> x = y"
  using assms fields_append_inject [of fs gs x y] by (auto simp: boardCanonical_Inr)

text \<open>What the generic seal and verification do, for any record type.\<close>

lemma board_seal_iff:
  "length key = 32 \<Longrightarrow> bindR (vaultBoardMAC canonical r key) (\<lambda>mac. Inr (upd mac r)) = Inr r' \<longleftrightarrow>
     (\<exists>p. canonical r = Inr p \<and> r' = upd (hmac_sha256 key p) r)"
  by (auto simp: vaultBoardMAC_def res_simps)

lemma board_verify_iff:
  "length key = 32 \<Longrightarrow> verifyVaultBoardMAC canonical r got key kind = Inr () \<longleftrightarrow>
     (\<exists>p. canonical r = Inr p \<and> got = hmac_sha256 key p)"
  by (auto simp: verifyVaultBoardMAC_def vaultBoardMAC_def res_simps)

lemma board_payload_inject:
  assumes "\<exists>out. boardCanonical domain fs = Inr out \<and> p = out @ x"
    and "\<exists>out. boardCanonical domain gs = Inr out \<and> p = out @ y" and "length fs = length gs"
  shows "fs = gs \<and> x = y"
  using assms boardCanonical_inject by blast

lemma canonicalVaultBoardEnrollment_Inr:
  "canonicalVaultBoardEnrollment r = Inr p \<Longrightarrow> \<exists>out. boardCanonical vaultBoardEnrollmentMACDomain
     [str_bytes (be_VaultID r), str_bytes (be_Program r), be_BoardingPub r, be_CosignerPub r,
      be_OperatorPub r, str_bytes (be_ExitDelayUnit r), be_PkScript r, str_bytes (be_Address r)] = Inr out \<and>
     p = out @ le32 (be_ExitDelay r)"
  by (auto simp: canonicalVaultBoardEnrollment_def res_simps split: if_split_asm)

lemma canonicalVaultBoardEnrollment_inject:
  assumes "canonicalVaultBoardEnrollment r = Inr p" and "canonicalVaultBoardEnrollment s = Inr p"
  shows "r\<lparr> be_IntegrityMAC := [] \<rparr> = s\<lparr> be_IntegrityMAC := [] \<rparr>"
  using board_payload_inject [OF assms [THEN canonicalVaultBoardEnrollment_Inr]] by (simp add: enc_inject)

lemma canonicalVaultBoardOperation_Inr:
  "canonicalVaultBoardOperation r = Inr p \<Longrightarrow> \<exists>out. boardCanonical vaultBoardOperationMACDomain
     [str_bytes (bo_OperationID r), str_bytes (bo_VaultID r), bo_Txid r, bo_BoardingScript r,
      bo_ReceiverScript r, str_bytes (bo_CreatedAt r)] = Inr out \<and>
     p = out @ le32 (bo_Vout r) @ le64 (bo_ValueSats r) @ le64 (bo_SequenceAnchorMTP r)"
  by (simp add: canonicalVaultBoardOperation_def res_simps eq_commute [of p] split: if_split_asm)

lemma canonicalVaultBoardOperation_inject:
  assumes "canonicalVaultBoardOperation r = Inr p" and "canonicalVaultBoardOperation s = Inr p"
  shows "r\<lparr> bo_IntegrityMAC := [] \<rparr> = s\<lparr> bo_IntegrityMAC := [] \<rparr>"
  using board_payload_inject [OF assms [THEN canonicalVaultBoardOperation_Inr]] by (simp add: enc_inject)

lemma canonicalVaultBoardAuthorization_Inr:
  "canonicalVaultBoardAuthorization r = Inr p \<Longrightarrow> \<exists>out. boardCanonical vaultBoardAuthorizationDomain
     [str_bytes (ba_OperationID r), str_bytes (ba_Phase r), ba_RequestDigest r, ba_TreeSessionPub r,
      str_bytes (ba_CommitmentTxid r), str_bytes (ba_ReceiverTxid r), str_bytes (ba_CreatedAt r)] = Inr out \<and>
     p = out @ le32 (ba_Attempt r) @ le64 (ba_ReceiverSats r) @ le64 (ba_FeeSats r) @
      le64 (ba_ExpireAt r) @ le32 (ba_ReceiverVout r)"
  by (simp add: canonicalVaultBoardAuthorization_def res_simps eq_commute [of p] split: if_split_asm)

lemma canonicalVaultBoardAuthorization_inject:
  assumes "canonicalVaultBoardAuthorization r = Inr p" and "canonicalVaultBoardAuthorization s = Inr p"
  shows "r\<lparr> ba_IntegrityMAC := [] \<rparr> = s\<lparr> ba_IntegrityMAC := [] \<rparr>"
  using board_payload_inject [OF assms [THEN canonicalVaultBoardAuthorization_Inr]] by (simp add: enc_inject)

lemma canonicalVaultBoardSubmission_Inr:
  "canonicalVaultBoardSubmission r = Inr p \<Longrightarrow> \<exists>out. boardCanonical vaultBoardSubmissionMACDomain
     [str_bytes (bs_OperationID r), str_bytes (bs_Phase r), bs_RequestDigest r, str_bytes (bs_Outcome r),
      str_bytes (bs_OperatorRef r), str_bytes (bs_CommitmentTxid r), str_bytes (bs_ReceiverTxid r),
      str_bytes (bs_CreatedAt r)] = Inr out \<and>
     p = out @ le32 (bs_Attempt r) @ le32 (bs_ReceiverVout r)"
  by (simp add: canonicalVaultBoardSubmission_def res_simps eq_commute [of p] split: if_split_asm)

lemma canonicalVaultBoardSubmission_inject:
  assumes "canonicalVaultBoardSubmission r = Inr p" and "canonicalVaultBoardSubmission s = Inr p"
  shows "r\<lparr> bs_IntegrityMAC := [] \<rparr> = s\<lparr> bs_IntegrityMAC := [] \<rparr>"
  using board_payload_inject [OF assms [THEN canonicalVaultBoardSubmission_Inr]] by (simp add: enc_inject)

lemma canonicalVaultBoardDispatch_Inr:
  "canonicalVaultBoardDispatch r = Inr p \<Longrightarrow> \<exists>out. boardCanonical vaultBoardDispatchMACDomain
     [str_bytes (bd_OperationID r), str_bytes (bd_Phase r), bd_RequestDigest r, str_bytes (bd_CreatedAt r)] = Inr out \<and>
     p = out @ le32 (bd_Attempt r)"
  by (simp add: canonicalVaultBoardDispatch_def res_simps eq_commute [of p] split: if_split_asm)

lemma canonicalVaultBoardDispatch_inject:
  assumes "canonicalVaultBoardDispatch r = Inr p" and "canonicalVaultBoardDispatch s = Inr p"
  shows "r\<lparr> bd_IntegrityMAC := [] \<rparr> = s\<lparr> bd_IntegrityMAC := [] \<rparr>"
  using board_payload_inject [OF assms [THEN canonicalVaultBoardDispatch_Inr]] by (simp add: enc_inject)

lemma board_canonical_mac [simp]:
  "canonicalVaultBoardEnrollment (e\<lparr> be_IntegrityMAC := m \<rparr>) = canonicalVaultBoardEnrollment e"
  "canonicalVaultBoardOperation (b\<lparr> bo_IntegrityMAC := m \<rparr>) = canonicalVaultBoardOperation b"
  "canonicalVaultBoardAuthorization (a\<lparr> ba_IntegrityMAC := m \<rparr>) = canonicalVaultBoardAuthorization a"
  "canonicalVaultBoardSubmission (s\<lparr> bs_IntegrityMAC := m \<rparr>) = canonicalVaultBoardSubmission s"
  "canonicalVaultBoardDispatch (d\<lparr> bd_IntegrityMAC := m \<rparr>) = canonicalVaultBoardDispatch d"
  by (simp_all add: canonicalVaultBoardEnrollment_def canonicalVaultBoardOperation_def
      canonicalVaultBoardAuthorization_def canonicalVaultBoardSubmission_def canonicalVaultBoardDispatch_def
      authorizationPhase_def submissionPhase_def)

interpretation enrollment_seal: sealed_record canonicalVaultBoardEnrollment SealVaultBoardEnrollment
  VerifyVaultBoardEnrollment be_IntegrityMAC "\<lambda>m r. r\<lparr> be_IntegrityMAC := m \<rparr>" "\<lambda>_. True" hmac_sha256
  by unfold_locales
    (auto simp: SealVaultBoardEnrollment_def VerifyVaultBoardEnrollment_def board_verify_iff
      board_seal_iff [where upd = "\<lambda>m r. r\<lparr> be_IntegrityMAC := m \<rparr>"]
      dest: canonicalVaultBoardEnrollment_inject)

interpretation board_op_seal: sealed_record canonicalVaultBoardOperation SealVaultBoardOperation
  VerifyVaultBoardOperation bo_IntegrityMAC "\<lambda>m r. r\<lparr> bo_IntegrityMAC := m \<rparr>" "\<lambda>_. True" hmac_sha256
  by unfold_locales
    (auto simp: SealVaultBoardOperation_def VerifyVaultBoardOperation_def board_verify_iff
      board_seal_iff [where upd = "\<lambda>m r. r\<lparr> bo_IntegrityMAC := m \<rparr>"]
      dest: canonicalVaultBoardOperation_inject)

interpretation auth_seal: sealed_record canonicalVaultBoardAuthorization SealVaultBoardAuthorization
  VerifyVaultBoardAuthorization ba_IntegrityMAC "\<lambda>m r. r\<lparr> ba_IntegrityMAC := m \<rparr>" "\<lambda>_. True" hmac_sha256
  by unfold_locales
    (auto simp: SealVaultBoardAuthorization_def VerifyVaultBoardAuthorization_def board_verify_iff
      board_seal_iff [where upd = "\<lambda>m r. r\<lparr> ba_IntegrityMAC := m \<rparr>"]
      dest: canonicalVaultBoardAuthorization_inject)

interpretation submission_seal: sealed_record canonicalVaultBoardSubmission SealVaultBoardSubmission
  VerifyVaultBoardSubmission bs_IntegrityMAC "\<lambda>m r. r\<lparr> bs_IntegrityMAC := m \<rparr>" "\<lambda>_. True" hmac_sha256
  by unfold_locales
    (auto simp: SealVaultBoardSubmission_def VerifyVaultBoardSubmission_def board_verify_iff
      board_seal_iff [where upd = "\<lambda>m r. r\<lparr> bs_IntegrityMAC := m \<rparr>"]
      dest: canonicalVaultBoardSubmission_inject)

interpretation dispatch_seal: sealed_record canonicalVaultBoardDispatch SealVaultBoardDispatch
  VerifyVaultBoardDispatch bd_IntegrityMAC "\<lambda>m r. r\<lparr> bd_IntegrityMAC := m \<rparr>" "\<lambda>_. True" hmac_sha256
  by unfold_locales
    (auto simp: SealVaultBoardDispatch_def VerifyVaultBoardDispatch_def board_verify_iff
      board_seal_iff [where upd = "\<lambda>m r. r\<lparr> bd_IntegrityMAC := m \<rparr>"]
      dest: canonicalVaultBoardDispatch_inject)

end
