(* ===== verification/Monotonic.thy ===== *)
theory Monotonic
  imports Sha256
begin

text \<open>
  \<open>internal/policy/monotonic.go\<close>: the policy sequence kept in a file outside SQLite. The file
  is the state: \<open>None\<close> when it does not exist, else its contents. \<open>file_fault\<close> names where
  the operating system may fail a call, which the caller of the model chooses.

  The locale states what the ledger relies on; it is interpreted on \<open>Observe\<close> below.
\<close>

section \<open>The file\<close>

abbreviation monotonicFileVersion :: string where
  "monotonicFileVersion \<equiv> ''arkade-vault-policy-sequence/v2''"
abbreviation monotonicMACDomain :: string where
  "monotonicMACDomain \<equiv> ''arkade-vault/policy-sequence/v2''"
abbreviation newline :: char where "newline \<equiv> CHR 0x0A"

definition monotonicMAC :: "bytes \<Rightarrow> u64 \<Rightarrow> bytes" where
  "monotonicMAC key cnt = hmac_sha256 key (str_bytes monotonicMACDomain @ be64 cnt)"

definition unhex :: "char \<Rightarrow> nat option" where
  "unhex c =
     (let n = of_char c :: nat
      in if 48 \<le> n \<and> n \<le> 57 then Some (n - 48)
         else if 97 \<le> n \<and> n \<le> 102 then Some (n - 97 + 10)
         else None)"

fun unhexPairs :: "string \<Rightarrow> bytes option" where
  "unhexPairs (a # b # s) =
     (case (unhex a, unhex b, unhexPairs s) of
        (Some x, Some y, Some r) \<Rightarrow> Some (word_of_nat (16 * x + y) # r)
      | _ \<Rightarrow> None)"
| "unhexPairs s = Some []"

definition parseHexMAC :: "string \<Rightarrow> bytes result" where
  "parseHexMAC s =
     (if length s \<noteq> 64 then Inl (Errorf ''monotonic counter MAC'')
      else (case unhexPairs s of None \<Rightarrow> Inl (Errorf ''monotonic counter MAC'') | Some out \<Rightarrow> Inr out))"

text \<open>The loop over the lines after the version; the last \<open>count=\<close> and \<open>mac=\<close> line win.\<close>

fun parseLines :: "string list \<Rightarrow> u64 \<times> bytes \<Rightarrow> (u64 \<times> bytes) result" where
  "parseLines [] acc = Inr acc"
| "parseLines (line # lines) (cnt, mac) =
     bindR (if has_prefix line ''count='' then
              (case parse_uint64 (trim_prefix line ''count='') of
                 None \<Rightarrow> Inl (Errorf ''monotonic counter'') | Some n \<Rightarrow> Inr n)
            else Inr cnt) (\<lambda>cnt.
     bindR (if has_prefix line ''mac='' then parseHexMAC (trim_prefix line ''mac='') else Inr mac) (\<lambda>mac.
     parseLines lines (cnt, mac)))"

definition parseMonotonic :: "string \<Rightarrow> (u64 \<times> bytes) result" where
  "parseMonotonic raw =
     (let lines = split_on newline raw
      in if length lines < 3 \<or> hd lines \<noteq> monotonicFileVersion then
           Inl (Errorf ''monotonic counter version'')
         else bindR (parseLines (tl lines) (0, [])) (\<lambda>(cnt, mac).
           if length mac \<noteq> 32 then Inl (Errorf ''monotonic counter MAC missing'')
           else Inr (cnt, mac)))"

definition renderMonotonic :: "bytes \<Rightarrow> u64 \<Rightarrow> string" where
  "renderMonotonic key cnt =
     monotonicFileVersion @ [newline] @ ''count='' @ dec_encode (unat cnt) @ [newline] @
     ''mac='' @ hex_encode (monotonicMAC key cnt) @ [newline]"

section \<open>Reading, writing, observing\<close>

datatype file_fault =
    NoFault        \<comment> \<open>every call succeeds\<close>
  | ReadFault      \<comment> \<open>\<open>ReadFile\<close> fails for another reason than a missing file\<close>
  | WriteFault     \<comment> \<open>creating, writing, syncing, closing or renaming the temporary file fails\<close>
  | DirSyncFault   \<comment> \<open>opening or syncing the directory fails, after the rename\<close>

definition readMonotonic :: "file_fault \<Rightarrow> bytes \<Rightarrow> string option \<Rightarrow> (u64 \<times> bool) result" where
  "readMonotonic fault key file =
     (if fault = ReadFault then Inl ErrIO
      else case file of
        None \<Rightarrow> Inr (0, False)
      | Some raw \<Rightarrow>
          bindR (parseMonotonic raw) (\<lambda>(cnt, mac).
            if mac \<noteq> monotonicMAC key cnt then Inl (Errorf ''monotonic counter MAC mismatch'')
            else Inr (cnt, True)))"

definition writeMonotonic :: "file_fault \<Rightarrow> bytes \<Rightarrow> u64 \<Rightarrow> string option \<Rightarrow> unit result \<times> string option" where
  "writeMonotonic fault key cnt file =
     (if fault = WriteFault then (Inl ErrIO, file)
      else if fault = DirSyncFault then (Inl ErrIO, Some (renderMonotonic key cnt))
      else (Inr (), Some (renderMonotonic key cnt)))"

definition Observe :: "file_fault \<Rightarrow> bytes \<Rightarrow> u64 \<Rightarrow> string option \<Rightarrow> unit result \<times> string option" where
  "Observe fault key dbCount file =
     (case readMonotonic fault key file of
        Inl e \<Rightarrow> (Inl e, file)
      | Inr (fileCount, exists) \<Rightarrow>
          if \<not> exists then
            (if dbCount \<noteq> 0 then
               (Inl (Errorf ''policy sequence is missing for a non-empty policy ledger''), file)
             else writeMonotonic fault key 0 file)
          else if dbCount < fileCount then
            (Inl (Errorf ''policy ledger is behind the external sequence (%d < %d); refuse to start from a rolled-back database''), file)
          else if dbCount = fileCount then (Inr (), file)
          else writeMonotonic fault key dbCount file)"

definition OpenMonotonic :: "string \<Rightarrow> bytes \<Rightarrow> (string \<times> bytes) result" where
  "OpenMonotonic path integrityKey =
     (if path = [] then Inl (Errorf ''monotonic path required'')
      else if length integrityKey \<noteq> 32 then Inl (Errorf ''integrity key required'')
      else Inr (path, integrityKey))"

section \<open>The file reads back\<close>

text \<open>The count a file holds for a given key: what an unfaulted read returns.\<close>

definition fileCount :: "bytes \<Rightarrow> string option \<Rightarrow> u64 option" where
  "fileCount key file =
     (case readMonotonic NoFault key file of Inr (n, True) \<Rightarrow> Some n | _ \<Rightarrow> None)"

lemma unhex_digit_table: "list_all (\<lambda>n. unhex (hex_digit n) = Some n) [0..<16]"
  by (simp add: upt_rec unhex_def hex_digit_def)

lemma unhex_digit: "n < 16 \<Longrightarrow> unhex (hex_digit n) = Some n"
  using unhex_digit_table by (auto simp: list_all_iff)

lemma unhexPairs_encode: "unhexPairs (hex_encode bs) = Some bs"
proof (induction bs)
  case (Cons b bs)
  have "unat b div 16 < 16" using unat_byte_less [of b] by simp
  with Cons show ?case
    by (simp add: unhex_digit nibbles_byte del: of_nat_add of_nat_mult)
qed simp

lemma length_monotonicMAC [simp]: "length (monotonicMAC key n) = 32"
  by (simp add: monotonicMAC_def)

lemma parseHexMAC_encode: "length m = 32 \<Longrightarrow> parseHexMAC (hex_encode m) = Inr m"
  by (simp add: parseHexMAC_def unhexPairs_encode)

lemma newline_not_digit: "\<not> is_digit newline"
  by (simp add: is_digit_def)

lemma newline_notin_dec: "newline \<notin> set (dec_encode n)"
  using dec_encode_props [of n] newline_not_digit by (auto simp: list_all_iff)

lemma newline_hex_digit: "n < 16 \<Longrightarrow> hex_digit n \<noteq> newline"
proof -
  have "list_all (\<lambda>n. hex_digit n \<noteq> newline) [0..<16]"
    by (simp add: upt_rec hex_digit_def)
  then show "n < 16 \<Longrightarrow> hex_digit n \<noteq> newline" by (auto simp: list_all_iff)
qed

lemma newline_notin_hex: "newline \<notin> set (hex_encode bs)"
proof (induction bs)
  case (Cons b bs)
  have "unat b div 16 < 16" using unat_byte_less [of b] by simp
  with Cons show ?case using newline_hex_digit [of "unat b div 16"] newline_hex_digit [of "unat b mod 16"]
    by (metis hex_encode.simps(2) mod_less_divisor set_ConsD zero_less_numeral)
qed simp

lemma has_prefix_append [simp]: "has_prefix (p @ s) p"
  by (simp add: has_prefix_def)

lemma trim_prefix_append [simp]: "trim_prefix (p @ s) p = s"
  by (simp add: trim_prefix_def)

lemma split_renderMonotonic:
  "split_on newline (renderMonotonic key n) =
     [monotonicFileVersion, ''count='' @ dec_encode (unat n), ''mac='' @ hex_encode (monotonicMAC key n), []]"
proof -
  have 1: "newline \<notin> set monotonicFileVersion" by simp
  have 2: "newline \<notin> set (''count='' @ dec_encode (unat n))" using newline_notin_dec by simp
  have 3: "newline \<notin> set (''mac='' @ hex_encode (monotonicMAC key n))" using newline_notin_hex by simp
  have r: "renderMonotonic key n = monotonicFileVersion @ newline # (''count='' @ dec_encode (unat n)) @ newline #
      (''mac='' @ hex_encode (monotonicMAC key n)) @ newline # []"
    by (simp add: renderMonotonic_def)
  show ?thesis unfolding r split_on_append [OF 1] split_on_append [OF 2] split_on_append [OF 3] by simp
qed

lemma other_prefix:
  "has_prefix (''count='' @ s) ''mac='' = False" "has_prefix (''mac='' @ s) ''count='' = False"
  "has_prefix [] ''count='' = False" "has_prefix [] ''mac='' = False"
  by (simp_all add: has_prefix_def)

lemma parse_renderMonotonic: "parseMonotonic (renderMonotonic key n) = Inr (n, monotonicMAC key n)"
proof -
  have "parseLines [''count='' @ dec_encode (unat n), ''mac='' @ hex_encode (monotonicMAC key n), []] (0, []) =
      Inr (n, monotonicMAC key n)"
    by (simp only: parseLines.simps other_prefix has_prefix_append trim_prefix_append if_True if_False
      parse_dec_encode parseHexMAC_encode [OF length_monotonicMAC] option.case bindR_Inr)
  then show ?thesis unfolding parseMonotonic_def split_renderMonotonic by simp
qed

lemma fileCount_render [simp]: "fileCount key (Some (renderMonotonic key n)) = Some n"
  by (simp add: fileCount_def readMonotonic_def parse_renderMonotonic)

lemma fileCount_None [simp]: "fileCount key None = None"
  by (simp add: fileCount_def readMonotonic_def)

lemma readMonotonic_iff:
  "readMonotonic fault key file = Inr (n, e) \<longleftrightarrow>
     fault \<noteq> ReadFault \<and> (e \<and> fileCount key file = Some n \<or> \<not> e \<and> n = 0 \<and> file = None)"
  by (auto simp: readMonotonic_def fileCount_def res_simps split: option.splits sum.splits if_splits)

section \<open>The contract of the sequence\<close>

text \<open>
  What the ledger needs of the external sequence: a successful observation leaves exactly the
  observed count, no observation, failed or not, lowers the count, and an observation below the
  count is refused and changes nothing.
\<close>

locale policy_sequence =
  fixes observe :: "'f \<Rightarrow> u64 \<Rightarrow> 's \<Rightarrow> unit result \<times> 's"
    and seq :: "'s \<Rightarrow> u64 option"
  assumes observe_ok: "observe f n s = (Inr (), s') \<Longrightarrow> seq s' = Some n"
    and observe_mono: "observe f n s = (r, s') \<Longrightarrow> seq s = Some c \<Longrightarrow> \<exists>c'. seq s' = Some c' \<and> c \<le> c'"
    and observe_behind: "seq s = Some c \<Longrightarrow> n < c \<Longrightarrow> \<exists>e. observe f n s = (Inl e, s)"
begin

text \<open>A run of observations, each with its own fault, never lowers the count.\<close>

lemma run_mono:
  "seq s = Some c \<Longrightarrow> \<exists>c'. seq (fold (\<lambda>(f, n) s. snd (observe f n s)) os s) = Some c' \<and> c \<le> c'"
proof (induction os arbitrary: s c)
  case (Cons fn os)
  obtain f n where fn: "fn = (f, n)" by fastforce
  obtain r s' where o: "observe f n s = (r, s')" by fastforce
  from observe_mono [OF o Cons.prems] obtain c1 where c1: "seq s' = Some c1" "c \<le> c1" by blast
  with Cons.IH [of s' c1] obtain c2 where
    "seq (fold (\<lambda>(f, n) s. snd (observe f n s)) os s') = Some c2" "c1 \<le> c2" by auto
  with c1 o fn show ?case by auto
qed simp

lemma behind_after_run:
  assumes "observe f n s = (Inr (), s')" and "m < n"
  shows "let s'' = fold (\<lambda>(f, n) s. snd (observe f n s)) os s'
    in \<exists>e. observe g m s'' = (Inl e, s'')"
proof -
  from run_mono [OF observe_ok [OF assms(1)], of os] obtain c where
    "seq (fold (\<lambda>(f, n) s. snd (observe f n s)) os s') = Some c" "n \<le> c" by blast
  with assms(2) show ?thesis using observe_behind by (simp add: Let_def)
qed

lemma success_not_behind:
  assumes "seq s = Some c" and "observe f n s = (Inr (), s')"
  shows "c \<le> n"
  using observe_mono [OF assms(2,1)] observe_ok [OF assms(2)] by auto

end

lemma Observe_cases:
  "Observe f key n file = (r, file') \<Longrightarrow>
     file' = file \<or> (\<exists>m. file' = Some (renderMonotonic key m) \<and> m = n \<and>
       (\<forall>c. fileCount key file = Some c \<longrightarrow> c < n))"
  by (auto simp: Observe_def writeMonotonic_def readMonotonic_iff not_less split: sum.splits if_splits)

interpretation file_seq: policy_sequence "\<lambda>f n file. Observe f key n file" "fileCount key"
proof
  show "fileCount key s' = Some n" if "Observe f key n s = (Inr (), s')" for f n s s'
    using that
    by (auto simp: Observe_def writeMonotonic_def readMonotonic_iff split: sum.splits if_splits)
  show "\<exists>c'. fileCount key s' = Some c' \<and> c \<le> c'"
    if "Observe f key n s = (r, s')" "fileCount key s = Some c" for f n s r s' c
    using Observe_cases [OF that(1)] that(2) by auto
  show "\<exists>e. Observe f key n s = (Inl e, s)" if "fileCount key s = Some c" "n < c" for s c n f
    using that by (auto simp: Observe_def readMonotonic_iff split: sum.splits)
qed


section \<open>Properties\<close>

lemma Observe_render:
  "Observe NoFault key n (Some (renderMonotonic key m)) =
     (if n < m then (Inl (Errorf ''policy ledger is behind the external sequence (%d < %d); refuse to start from a rolled-back database''),
        Some (renderMonotonic key m))
      else (Inr (), Some (renderMonotonic key n)))"
  by (simp add: Observe_def writeMonotonic_def readMonotonic_def parse_renderMonotonic)

text \<open>
  The sequence file never moves backwards: whatever call of the operating system fails, an
  observation leaves a readable file whose count is at least the old one, and a successful
  observation leaves exactly the count of the database.
\<close>

theorem observe_never_decreases:
  assumes "fileCount key file = Some c" and "Observe fault key n file = (r, file')"
  shows "\<exists>c'. fileCount key file' = Some c' \<and> c \<le> c' \<and> (r = Inr () \<longrightarrow> c' = n)"
  using file_seq.observe_mono [OF assms(2,1)] file_seq.observe_ok assms(2) by fastforce

theorem observe_never_decreases_witness:
  "\<exists>c'. fileCount [] (snd (Observe DirSyncFault [] 9 (Some (renderMonotonic [] 4)))) = Some c' \<and> 4 \<le> c'"
  using observe_never_decreases [of "[]" "Some (renderMonotonic [] 4)" 4 DirSyncFault 9] by (metis fileCount_render prod.collapse)

text \<open>
  C15. Restoring an older database is refused for ever: once a count has been observed
  successfully, then after any further run of observations, failed ones included, an
  observation of a smaller count fails and leaves the file as it is.
\<close>

theorem rolled_back_database_refused:
  assumes "Observe fault key n file = (Inr (), file')" and "m < n"
  shows "let later = fold (\<lambda>(f, k) s. snd (Observe f key k s)) os file'
    in \<exists>e. Observe g key m later = (Inl e, later)"
  using file_seq.behind_after_run [OF assms] by simp

theorem rolled_back_database_refused_witness:
  "\<exists>e file. Observe WriteFault [] 3
     (fold (\<lambda>(f, k) s. snd (Observe f [] k s)) [(WriteFault, 8), (NoFault, 6)] (Some (renderMonotonic [] 5))) =
     (Inl e, file)"
  using rolled_back_database_refused
    [of NoFault "[]" 5 "Some (renderMonotonic [] 2)" "Some (renderMonotonic [] 5)" 3 "[(WriteFault, 8), (NoFault, 6)]" WriteFault]
  by (auto simp: Observe_render Let_def)

end
