(* ===== verification/Store.thy ===== *)
theory Store
  imports Tenant Session Board Monotonic
begin

text \<open>
  The SQLite database of \<open>internal/policy\<close> and the ledger that owns it. The tables are those of
  \<open>schema_core.go\<close>, \<open>tenant_schema.go\<close> and \<open>schema.go\<close>; a row is the Go struct that is scanned
  from it. An \<open>INSERT\<close> checks the constraints its schema declares (primary keys, \<open>UNIQUE\<close>,
  foreign keys, \<open>CHECK\<close>, \<open>NOT NULL\<close>) and fails with \<open>ErrConstraint\<close> when one is violated.
  An empty byte slice is stored as \<open>NULL\<close>. Failures of the storage engine itself are not
  represented, except that a \<open>COMMIT\<close> may fail and then leaves the database as it was.
\<close>

section \<open>Rows\<close>

record SignCountRow =
  sc_VaultID :: string
  sc_CredentialID :: bytes
  sc_SignCount :: u32
  sc_UpdatedAt :: string
  sc_IntegrityMAC :: bytes

record VaultMapRow =
  vm_VaultID :: string
  vm_KitHash :: string
  vm_Payload :: string
  vm_UpdatedAt :: string
  vm_IntegrityMAC :: bytes

record InviteRow =
  iv_TokenHash :: bytes
  iv_ExpiresAt :: string
  iv_ConsumedVaultID :: "string option"
  iv_CreatedAt :: string

record PendingEnrollment =
  pe_Handle :: string
  pe_VaultID :: string
  pe_TokenHash :: bytes
  pe_Challenge :: bytes
  pe_ProtectionTier :: string
  pe_PolicyDigest :: bytes
  pe_ExpiresAt :: string
  pe_CreatedAt :: string

section \<open>The database and the ledger\<close>

record db =
  db_vault :: "VaultRecord list"
  db_vault_credential :: "VaultCredential list"
  db_vault_envelope :: "(string \<times> CredentialEnvelope) list"
  db_invite :: "InviteRow list"
  db_pending_enrollment :: "PendingEnrollment list"
  db_recovery_session :: "RecoverySession list"
  db_webauthn_sign_count :: "SignCountRow list"
  db_vault_map :: "VaultMapRow list"
  db_vtxo_operation :: "VtxoOperation list"
  db_vtxo_operation_input :: "VtxoOperationInput list"
  db_vault_board_enrollment :: "VaultBoardEnrollment list"
  db_vault_board_operation :: "VaultBoardOperation list"
  db_vault_board_authorization :: "VaultBoardAuthorization list"
  db_vault_board_dispatch :: "VaultBoardDispatch list"
  db_vault_board_submission :: "VaultBoardSubmission list"

definition emptyDb :: db where
  "emptyDb =
     \<lparr> db_vault = [], db_vault_credential = [], db_vault_envelope = [], db_invite = [],
       db_pending_enrollment = [], db_recovery_session = [], db_webauthn_sign_count = [],
       db_vault_map = [], db_vtxo_operation = [], db_vtxo_operation_input = [],
       db_vault_board_enrollment = [], db_vault_board_operation = [],
       db_vault_board_authorization = [], db_vault_board_dispatch = [], db_vault_board_submission = [] \<rparr>"

text \<open>
  The ledger struct: the database, the network, the integrity key (\<open>[]\<close> until it is installed)
  and the key of the attached policy sequence, if any. The sequence file lives outside the
  database and is carried beside it.
\<close>

record Ledger =
  l_db :: db
  l_network :: string
  l_integrityKey :: bytes
  l_monotonic :: "bytes option"
  l_file :: "string option"

section \<open>SQL\<close>

text \<open>\<open>length(x)\<close> of a \<open>TEXT\<close> value: characters of UTF-8 up to the first NUL.\<close>

function sql_length :: "string \<Rightarrow> nat" where
  "sql_length [] = 0"
| "sql_length (c # s) =
     (let n = of_char c :: nat
      in if n = 0 then 0
         else if n < 192 then Suc (sql_length s)
         else Suc (sql_length (dropWhile (\<lambda>d. 128 \<le> (of_char d :: nat) \<and> (of_char d :: nat) < 192) s)))"
  by pat_completeness auto
termination
  by (relation "measure length") (auto simp: less_Suc_eq_le length_dropWhile_le)

definition insertInto :: "bool \<Rightarrow> (db \<Rightarrow> db) \<Rightarrow> db \<Rightarrow> db result" where
  "insertInto ok add d = (if ok then Inr (add d) else Inl ErrConstraint)"

lemma insertInto_Inr [res_simps]: "insertInto ok add d = Inr d' \<longleftrightarrow> ok \<and> d' = add d"
  by (auto simp: insertInto_def)

subsection \<open>Tables of the spending ledger\<close>

definition vtxo_operation_check :: "VtxoOperation \<Rightarrow> bool" where
  "vtxo_operation_check o' \<longleftrightarrow>
     vo_Purpose o' = ''spend'' \<and> length (vo_BundleDigest o') = 32 \<and>
     vo_State o' \<in> {''reserved'', ''signed'', ''submitted'', ''finalized'', ''aborted'', ''unresolved''} \<and>
     0 \<le> sint (vo_AmountSats o') \<and> 0 \<le> sint (vo_FeeSats o') \<and> length (vo_FeePolicyDigest o') = 32 \<and>
     0 \<le> sint (vo_ChangeSats o') \<and> (vo_PendingProofDigest o' = [] \<or> length (vo_PendingProofDigest o') = 32) \<and>
     length (vo_IntegrityMAC o') = 32 \<and>
     (vo_ChangeSats o' = 0 \<and> vo_ChangeVout o' = None \<and> vo_ChangeScript o' = [] \<or>
      330 \<le> sint (vo_ChangeSats o') \<and> vo_ChangeVout o' = Some 1 \<and> vo_ChangeScript o' \<noteq> []) \<and>
     (vo_PendingProofDigest o' = [] \<and> sql_length (vo_AuthorizedPendingProof o') = 0 \<or>
      length (vo_PendingProofDigest o') = 32 \<and> sql_length (vo_AuthorizedPendingProof o') > 0)"

definition insertVtxoOperation :: "VtxoOperation \<Rightarrow> db \<Rightarrow> db result" where
  "insertVtxoOperation o' d = insertInto
     (vtxo_operation_check o' \<and>
      find_row (\<lambda>r. vo_OperationID r = vo_OperationID o') (db_vtxo_operation d) = None \<and>
      find_row (\<lambda>v. vr_VaultID v = vo_VaultID o') (db_vault d) \<noteq> None)
     (db_vtxo_operation_update (\<lambda>t. t @ [o'])) d"

definition insertVtxoOperationInput :: "VtxoOperationInput \<Rightarrow> db \<Rightarrow> db result" where
  "insertVtxoOperationInput i d = insertInto
     (length (vi_Txid i) = 32 \<and> 0 \<le> sint (vi_Vout i) \<and> 0 \<le> sint (vi_ValueSats i) \<and>
      length (vi_IntegrityMAC i) = 32 \<and>
      find_row (\<lambda>r. vi_OperationID r = vi_OperationID i \<and> vi_Txid r = vi_Txid i \<and> vi_Vout r = vi_Vout i)
        (db_vtxo_operation_input d) = None \<and>
      find_row (\<lambda>r. vo_OperationID r = vi_OperationID i) (db_vtxo_operation d) \<noteq> None)
     (db_vtxo_operation_input_update (\<lambda>t. t @ [i])) d"

text \<open>\<open>INSERT \<dots> ON CONFLICT(vault_id, credential_id) DO UPDATE\<close>: every other column is replaced.\<close>

definition upsertSignCount :: "SignCountRow \<Rightarrow> db \<Rightarrow> db result" where
  "upsertSignCount r d =
     (if length (sc_IntegrityMAC r) \<noteq> 32 \<or> find_row (\<lambda>v. vr_VaultID v = sc_VaultID r) (db_vault d) = None then
        Inl ErrConstraint
      else
        let same = (\<lambda>x. sc_VaultID x = sc_VaultID r \<and> sc_CredentialID x = sc_CredentialID r)
        in if find_row same (db_webauthn_sign_count d) = None then
             Inr (d\<lparr> db_webauthn_sign_count := db_webauthn_sign_count d @ [r] \<rparr>)
           else Inr (d\<lparr> db_webauthn_sign_count := update_rows same (\<lambda>_. r) (db_webauthn_sign_count d) \<rparr>))"

definition upsertVaultMap :: "VaultMapRow \<Rightarrow> db \<Rightarrow> db result" where
  "upsertVaultMap r d =
     (if sql_length (vm_KitHash r) \<noteq> 64 \<or> sql_length (vm_Payload r) = 0 \<or> sql_length (vm_Payload r) > 98304 \<or>
         length (vm_IntegrityMAC r) \<noteq> 32 \<or> find_row (\<lambda>v. vr_VaultID v = vm_VaultID r) (db_vault d) = None then
        Inl ErrConstraint
      else
        let same = (\<lambda>x. vm_VaultID x = vm_VaultID r)
        in if find_row same (db_vault_map d) = None then Inr (d\<lparr> db_vault_map := db_vault_map d @ [r] \<rparr>)
           else Inr (d\<lparr> db_vault_map := update_rows same (\<lambda>_. r) (db_vault_map d) \<rparr>))"

text \<open>The conflict clause of \<open>recovery_session\<close> keeps the stored \<open>created_at\<close>.\<close>

definition upsertRecoverySession :: "RecoverySession \<Rightarrow> db \<Rightarrow> db result" where
  "upsertRecoverySession r d =
     (if rs_Purpose r \<notin> {''initiate'', ''clawback''} \<or> length (rs_IntegrityMAC r) \<noteq> 32 \<or>
         find_row (\<lambda>v. vr_VaultID v = rs_VaultID r) (db_vault d) = None then
        Inl ErrConstraint
      else
        let same = (\<lambda>x. rs_VaultID x = rs_VaultID r \<and> rs_InputTxid x = rs_InputTxid r \<and>
              rs_InputVout x = rs_InputVout r \<and> rs_Purpose x = rs_Purpose r)
        in if find_row same (db_recovery_session d) = None then
             Inr (d\<lparr> db_recovery_session := db_recovery_session d @ [r] \<rparr>)
           else Inr (d\<lparr> db_recovery_session :=
             update_rows same (\<lambda>x. r\<lparr> rs_CreatedAt := rs_CreatedAt x \<rparr>) (db_recovery_session d) \<rparr>))"

subsection \<open>Tables of the boarding ledger\<close>

definition insertBoardEnrollment :: "string \<Rightarrow> VaultBoardEnrollment \<Rightarrow> db \<Rightarrow> db result" where
  "insertBoardEnrollment network e d = insertInto
     (be_Program e = ''vault-board-v1'' \<and> length (be_BoardingPub e) = 33 \<and> length (be_CosignerPub e) = 33 \<and>
      length (be_OperatorPub e) = 33 \<and>
      be_ExitDelay e = (if network = NetworkMainnet then 7776256 else 604672) \<and>
      be_ExitDelayUnit e = ''seconds'' \<and> length (be_PkScript e) = 34 \<and>
      0 < sql_length (be_Address e) \<and> sql_length (be_Address e) \<le> 128 \<and> length (be_IntegrityMAC e) = 32 \<and>
      find_row (\<lambda>r. be_VaultID r = be_VaultID e) (db_vault_board_enrollment d) = None \<and>
      find_row (\<lambda>v. vr_VaultID v = be_VaultID e) (db_vault d) \<noteq> None)
     (db_vault_board_enrollment_update (\<lambda>t. t @ [e])) d"

definition insertBoardOperation :: "VaultBoardOperation \<Rightarrow> db \<Rightarrow> db result" where
  "insertBoardOperation b d = insertInto
     (length (bo_Txid b) = 32 \<and> 0 < sint (bo_ValueSats b) \<and> length (bo_BoardingScript b) = 34 \<and>
      0 < length (bo_ReceiverScript b) \<and> length (bo_ReceiverScript b) \<le> 10000 \<and>
      0 < sint (bo_SequenceAnchorMTP b) \<and> length (bo_IntegrityMAC b) = 32 \<and>
      find_row (\<lambda>r. bo_OperationID r = bo_OperationID b) (db_vault_board_operation d) = None \<and>
      find_row (\<lambda>r. bo_VaultID r = bo_VaultID b \<and> bo_Txid r = bo_Txid b \<and> bo_Vout r = bo_Vout b)
        (db_vault_board_operation d) = None \<and>
      find_row (\<lambda>e. be_VaultID e = bo_VaultID b) (db_vault_board_enrollment d) \<noteq> None)
     (db_vault_board_operation_update (\<lambda>t. t @ [b])) d"

definition insertBoardAuthorization :: "VaultBoardAuthorization \<Rightarrow> db \<Rightarrow> db result" where
  "insertBoardAuthorization a d = insertInto
     (length (ba_RequestDigest a) = 32 \<and> (ba_TreeSessionPub a = [] \<or> length (ba_TreeSessionPub a) = 33) \<and>
      0 \<le> sint (ba_ReceiverSats a) \<and> 0 \<le> sint (ba_FeeSats a) \<and> 0 \<le> sint (ba_ExpireAt a) \<and>
      sql_length (ba_CommitmentTxid a) \<in> {0, 64} \<and> sql_length (ba_ReceiverTxid a) \<in> {0, 64} \<and>
      length (ba_IntegrityMAC a) = 32 \<and>
      (ba_Phase a = ''register'' \<and> 0 < sint (ba_ExpireAt a) \<and> length (ba_TreeSessionPub a) = 33 \<and>
         0 < sint (ba_ReceiverSats a) \<and> sql_length (ba_CommitmentTxid a) = 0 \<and>
         sql_length (ba_ReceiverTxid a) = 0 \<and> ba_ReceiverVout a = 0 \<or>
       ba_Phase a = ''delete'' \<and> 0 < sint (ba_ExpireAt a) \<and> ba_TreeSessionPub a = [] \<and>
         ba_ReceiverSats a = 0 \<and> ba_FeeSats a = 0 \<and> sql_length (ba_CommitmentTxid a) = 0 \<and>
         sql_length (ba_ReceiverTxid a) = 0 \<and> ba_ReceiverVout a = 0 \<or>
       ba_Phase a = ''finalize'' \<and> ba_ExpireAt a = 0 \<and> ba_TreeSessionPub a = [] \<and>
         ba_ReceiverSats a = 0 \<and> ba_FeeSats a = 0 \<and> sql_length (ba_CommitmentTxid a) = 64 \<and>
         sql_length (ba_ReceiverTxid a) = 64) \<and>
      find_row (\<lambda>r. ba_OperationID r = ba_OperationID a \<and> ba_Attempt r = ba_Attempt a \<and> ba_Phase r = ba_Phase a)
        (db_vault_board_authorization d) = None \<and>
      find_row (\<lambda>r. bo_OperationID r = ba_OperationID a) (db_vault_board_operation d) \<noteq> None)
     (db_vault_board_authorization_update (\<lambda>t. t @ [a])) d"

definition insertBoardDispatch :: "VaultBoardDispatch \<Rightarrow> db \<Rightarrow> db result" where
  "insertBoardDispatch x d = insertInto
     (length (bd_RequestDigest x) = 32 \<and> length (bd_IntegrityMAC x) = 32 \<and>
      find_row (\<lambda>r. bd_OperationID r = bd_OperationID x \<and> bd_Attempt r = bd_Attempt x \<and> bd_Phase r = bd_Phase x)
        (db_vault_board_dispatch d) = None \<and>
      find_row (\<lambda>r. ba_OperationID r = bd_OperationID x \<and> ba_Attempt r = bd_Attempt x \<and> ba_Phase r = bd_Phase x)
        (db_vault_board_authorization d) \<noteq> None)
     (db_vault_board_dispatch_update (\<lambda>t. t @ [x])) d"

definition insertBoardSubmission :: "VaultBoardSubmission \<Rightarrow> db \<Rightarrow> db result" where
  "insertBoardSubmission x d = insertInto
     (length (bs_RequestDigest x) = 32 \<and> bs_Outcome x \<in> {''submitted'', ''released'', ''rejected''} \<and>
      sql_length (bs_OperatorRef x) \<le> 256 \<and> sql_length (bs_CommitmentTxid x) \<in> {0, 64} \<and>
      sql_length (bs_ReceiverTxid x) \<in> {0, 64} \<and> length (bs_IntegrityMAC x) = 32 \<and>
      (bs_Phase x = ''register'' \<and>
         (bs_Outcome x = ''submitted'' \<and> 0 < sql_length (bs_OperatorRef x) \<or>
          bs_Outcome x = ''rejected'' \<and> sql_length (bs_OperatorRef x) = 0) \<and>
         sql_length (bs_CommitmentTxid x) = 0 \<and> sql_length (bs_ReceiverTxid x) = 0 \<and> bs_ReceiverVout x = 0 \<or>
       bs_Phase x = ''delete'' \<and> bs_Outcome x = ''released'' \<and> sql_length (bs_OperatorRef x) = 0 \<and>
         sql_length (bs_CommitmentTxid x) = 0 \<and> sql_length (bs_ReceiverTxid x) = 0 \<and> bs_ReceiverVout x = 0 \<or>
       bs_Phase x = ''finalize'' \<and> bs_Outcome x = ''submitted'' \<and> sql_length (bs_OperatorRef x) = 0 \<and>
         sql_length (bs_CommitmentTxid x) = 64 \<and> sql_length (bs_ReceiverTxid x) = 64) \<and>
      find_row (\<lambda>r. bs_OperationID r = bs_OperationID x \<and> bs_Attempt r = bs_Attempt x \<and> bs_Phase r = bs_Phase x)
        (db_vault_board_submission d) = None \<and>
      find_row (\<lambda>r. ba_OperationID r = bs_OperationID x \<and> ba_Attempt r = bs_Attempt x \<and> ba_Phase r = bs_Phase x)
        (db_vault_board_authorization d) \<noteq> None \<and>
      find_row (\<lambda>r. bd_OperationID r = bs_OperationID x \<and> bd_Attempt r = bs_Attempt x \<and> bd_Phase r = bs_Phase x)
        (db_vault_board_dispatch d) \<noteq> None)
     (db_vault_board_submission_update (\<lambda>t. t @ [x])) d"

end
