(* ===== verification/LedgerCore.thy ===== *)
theory LedgerCore
  imports Store
begin

text \<open>
  \<open>internal/policy/ledger.go\<close> and \<open>signcount.go\<close>: installing the integrity key, the outflow of the
  rolling allowance window, the policy sequence, and the authenticator counters.

  A method of the ledger that changes it returns its result and the new ledger. The instants
  its \<open>clock\<close> returns are arguments, one for each reading; \<open>fault\<close> is the behaviour of the
  operating system under the sequence file.
\<close>

section \<open>Integrity key\<close>

definition SetIntegrityKey :: "bytes \<Rightarrow> Ledger \<Rightarrow> unit result \<times> Ledger" where
  "SetIntegrityKey key l =
     (if length key \<noteq> 32 then (Inl (Errorf ''policy integrity key must be 32 bytes''), l)
      else if length (l_integrityKey l) \<noteq> 0 then
        (if length (l_integrityKey l) \<noteq> 32 \<or> l_integrityKey l \<noteq> key then
           (Inl (Errorf ''policy integrity key already initialized''), l)
         else (Inr (), l))
      else (Inr (), l\<lparr> l_integrityKey := key \<rparr>))"

definition RequireIntegrityKey :: "bytes \<Rightarrow> Ledger \<Rightarrow> unit result" where
  "RequireIntegrityKey key l =
     (if length key \<noteq> 32 then Inl (Errorf ''policy integrity key must be 32 bytes'')
      else if length (l_integrityKey l) \<noteq> 32 then Inl (Errorf ''policy integrity key is not initialized'')
      else if l_integrityKey l \<noteq> key then Inl (Errorf ''policy integrity key mismatch'')
      else Inr ())"

definition integrityKeyCopy :: "Ledger \<Rightarrow> bytes result" where
  "integrityKeyCopy l =
     (if length (l_integrityKey l) \<noteq> 32 then Inl (Errorf ''policy integrity key required'')
      else Inr (l_integrityKey l))"

section \<open>The allowance window\<close>

abbreviation allowanceWindow :: int where "allowanceWindow \<equiv> 24 * Hour"

definition addOutflow :: "i64 \<Rightarrow> i64 \<Rightarrow> i64 result" where
  "addOutflow amount fee =
     (if sint amount < 0 \<or> sint fee < 0 then Inl (Errorf ''negative outflow'')
      else if sint fee > 0 \<and> sint amount > sint (max_i64 - fee) then Inl (Errorf ''amount+fee overflow'')
      else Inr (amount + fee))"

fun spentLoop :: "bytes \<Rightarrow> time \<Rightarrow> VtxoOperation list \<Rightarrow> i64 \<Rightarrow> i64 result" where
  "spentLoop key now [] acc = Inr acc"
| "spentLoop key now (rec # rows) acc =
     bindR (wrapR ''vtxo operation integrity'' (VerifyVtxoOperation rec key)) (\<lambda>_.
     if \<not> vtxoStateCountsTowardAllowance (vo_State rec) then spentLoop key now rows acc
     else case parseRFC3339 (vo_CreatedAt rec) of
       None \<Rightarrow> Inl (Errorf ''vtxo operation created_at: %w'')
     | Some created \<Rightarrow>
         if \<not> vtxoStateAwaitingSettlement (vo_State rec) \<and> now > created + allowanceWindow then
           spentLoop key now rows acc
         else
           bindR (addOutflow (vo_AmountSats rec) (vo_FeeSats rec)) (\<lambda>need.
           if sint acc > sint (max_i64 - need) then Inl (Errorf ''period spent overflow'')
           else spentLoop key now rows (acc + need)))"

definition spentInWindow :: "Ledger \<Rightarrow> time \<Rightarrow> db \<Rightarrow> string \<Rightarrow> i64 result" where
  "spentInWindow l now d vaultID =
     bindR (integrityKeyCopy l) (\<lambda>key.
     spentLoop key now (filter (\<lambda>r. vo_VaultID r = vaultID) (db_vtxo_operation d)) 0)"

definition SpentInPeriod :: "Ledger \<Rightarrow> time \<Rightarrow> string \<Rightarrow> i64 result" where
  "SpentInPeriod l now vaultID =
     (if vaultID = [] then Inl (Errorf ''vault id required'')
      else spentInWindow l now (l_db l) vaultID)"

section \<open>The policy sequence\<close>

text \<open>The board tables always exist in a ledger that opened, so the count is over all four.\<close>

definition economicOutflowCount :: "db \<Rightarrow> u64 result" where
  "economicOutflowCount d =
     (let n = word_of_nat (length (db_vtxo_operation d) + length (db_vault_board_authorization d) +
                length (db_vault_board_dispatch d) + length (db_vault_board_submission d)) :: i64
      in if sint n < 0 then Inl (Errorf ''economic outflow count'') else Inr n)"

definition observeEconomicOutflowsLocked :: "file_fault \<Rightarrow> Ledger \<Rightarrow> db \<Rightarrow> unit result \<times> string option" where
  "observeEconomicOutflowsLocked fault l d =
     (case l_monotonic l of
        None \<Rightarrow> (Inr (), l_file l)
      | Some mkey \<Rightarrow>
          (case economicOutflowCount d of
             Inl e \<Rightarrow> (Inl e, l_file l)
           | Inr n \<Rightarrow> Observe fault mkey n (l_file l)))"

definition AttachMonotonic :: "bytes \<Rightarrow> file_fault \<Rightarrow> Ledger \<Rightarrow> unit result \<times> Ledger" where
  "AttachMonotonic mkey fault l =
     (let l = l\<lparr> l_monotonic := Some mkey \<rparr>;
          (r, file) = observeEconomicOutflowsLocked fault l (l_db l)
      in (r, l\<lparr> l_file := file \<rparr>))"

text \<open>
  The end of every transaction that reserves an outflow: advance the sequence while the
  transaction can still be rolled back, then commit. \<open>commitFails\<close> is a \<open>COMMIT\<close> that
  returns an error, or a crash before it takes effect.
\<close>

definition observeAndCommit :: "file_fault \<Rightarrow> bool \<Rightarrow> Ledger \<Rightarrow> db \<Rightarrow> unit result \<times> Ledger" where
  "observeAndCommit fault commitFails l d =
     (case observeEconomicOutflowsLocked fault l d of
        (Inl e, file) \<Rightarrow> (Inl (Wrapf ''policy sequence'' e), l\<lparr> l_file := file \<rparr>)
      | (Inr _, file) \<Rightarrow>
          if commitFails then (Inl ErrIO, l\<lparr> l_file := file \<rparr>)
          else (Inr (), l\<lparr> l_file := file, l_db := d \<rparr>))"

section \<open>Authenticator counters\<close>

abbreviation signCountMACDomain :: string where
  "signCountMACDomain \<equiv> ''arkade-2fa-vault/webauthn-sign-count/v1''"

definition signCountMAC :: "string \<Rightarrow> bytes \<Rightarrow> u32 \<Rightarrow> bytes \<Rightarrow> bytes" where
  "signCountMAC vaultID credentialID cnt key =
     hmac_sha256 key (str_bytes signCountMACDomain @ str_bytes vaultID @ credentialID @ be32 cnt)"

definition verifySignCountMAC :: "string \<Rightarrow> bytes \<Rightarrow> u32 \<Rightarrow> bytes \<Rightarrow> bytes \<Rightarrow> unit result" where
  "verifySignCountMAC vaultID credentialID cnt mac key =
     (if mac \<noteq> signCountMAC vaultID credentialID cnt key then Inl (Errorf ''webauthn sign count MAC mismatch'')
      else Inr ())"

definition findSignCount :: "db \<Rightarrow> string \<Rightarrow> bytes \<Rightarrow> SignCountRow option" where
  "findSignCount d vaultID credentialID =
     find_row (\<lambda>r. sc_VaultID r = vaultID \<and> sc_CredentialID r = credentialID) (db_webauthn_sign_count d)"

text \<open>\<open>now\<close> is the formatted clock reading of the write.\<close>

definition writeSignCount :: "bytes \<Rightarrow> time \<Rightarrow> string \<Rightarrow> bytes \<Rightarrow> u32 \<Rightarrow> db \<Rightarrow> db result" where
  "writeSignCount key now vaultID credentialID incoming d =
     upsertSignCount \<lparr> sc_VaultID = vaultID, sc_CredentialID = credentialID, sc_SignCount = incoming,
       sc_UpdatedAt = formatRFC3339Nano now, sc_IntegrityMAC = signCountMAC vaultID credentialID incoming key \<rparr> d"

definition advanceSignCountLocked :: "Ledger \<Rightarrow> time \<Rightarrow> string \<Rightarrow> bytes \<Rightarrow> u32 \<Rightarrow> db \<Rightarrow> db result" where
  "advanceSignCountLocked l now vaultID credentialID incoming d =
     (case findSignCount d vaultID credentialID of
        None \<Rightarrow> writeSignCount (l_integrityKey l) now vaultID credentialID incoming d
      | Some row \<Rightarrow>
          let stored = sc_SignCount row in
          bindR (verifySignCountMAC vaultID credentialID stored (sc_IntegrityMAC row) (l_integrityKey l)) (\<lambda>_.
          if incoming = 0 \<and> stored > 0 then Inl (Errorf ''webauthn sign count went backwards'')
          else if incoming > 0 \<and> incoming < stored then Inl (Errorf ''webauthn sign count went backwards'')
          else if incoming > 0 \<and> incoming = stored then Inl (Errorf ''webauthn sign count went backwards'')
          else if incoming = 0 \<and> stored = 0 then Inr d
          else writeSignCount (l_integrityKey l) now vaultID credentialID incoming d))"

definition AdvanceSignCount :: "Ledger \<Rightarrow> time \<Rightarrow> string \<Rightarrow> bytes \<Rightarrow> u32 \<Rightarrow> unit result \<times> Ledger" where
  "AdvanceSignCount l now vaultID credentialID incoming =
     (if vaultID = [] \<or> length credentialID = 0 then (Inl (Errorf ''sign count identity required''), l)
      else if length (l_integrityKey l) \<noteq> 32 then (Inl (Errorf ''sign count ledger required''), l)
      else case advanceSignCountLocked l now vaultID credentialID incoming (l_db l) of
        Inl e \<Rightarrow> (Inl e, l)
      | Inr d \<Rightarrow> (Inr (), l\<lparr> l_db := d \<rparr>))"

definition verifySignCountReplayLocked :: "Ledger \<Rightarrow> string \<Rightarrow> bytes \<Rightarrow> u32 \<Rightarrow> db \<Rightarrow> unit result" where
  "verifySignCountReplayLocked l vaultID credentialID incoming d =
     (case findSignCount d vaultID credentialID of
        None \<Rightarrow> Inl (Errorf ''webauthn sign count replay state missing'')
      | Some row \<Rightarrow>
          bindR (verifySignCountMAC vaultID credentialID (sc_SignCount row) (sc_IntegrityMAC row) (l_integrityKey l)) (\<lambda>_.
          if incoming \<noteq> sc_SignCount row then Inl (Errorf ''webauthn sign count replay mismatch'')
          else Inr ()))"

section \<open>The window sum\<close>

lemma addOutflow_Inr:
  "addOutflow a f = Inr s \<longleftrightarrow>
     0 \<le> sint a \<and> 0 \<le> sint f \<and> sint a + sint f < 2 ^ 63 \<and> s = a + f"
proof (cases "0 \<le> sint a \<and> 0 \<le> sint f")
  case True
  then show ?thesis
    using sint_max_minus [of f] i64_upper [of a] by (auto simp: addOutflow_def)
qed (auto simp: addOutflow_def)

lemma addOutflow_sint: "addOutflow a f = Inr s \<Longrightarrow> sint s = sint a + sint f"
  by (auto simp: addOutflow_Inr intro!: sint_add_i64)

text \<open>The outflow of an operation and whether the window at \<open>now\<close> charges it.\<close>

definition outflow :: "VtxoOperation \<Rightarrow> int" where
  "outflow r = sint (vo_AmountSats r) + sint (vo_FeeSats r)"

definition charged :: "time \<Rightarrow> VtxoOperation \<Rightarrow> bool" where
  "charged now r \<longleftrightarrow> vtxoStateCountsTowardAllowance (vo_State r) \<and>
     (vtxoStateAwaitingSettlement (vo_State r) \<or>
      (case parseRFC3339 (vo_CreatedAt r) of None \<Rightarrow> False | Some c \<Rightarrow> now \<le> c + allowanceWindow))"

definition windowOutflow :: "time \<Rightarrow> string \<Rightarrow> db \<Rightarrow> int" where
  "windowOutflow now vaultID d =
     sum_list (map outflow (filter (\<lambda>r. vo_VaultID r = vaultID \<and> charged now r) (db_vtxo_operation d)))"

lemma verified_amounts:
  "VerifyVtxoOperation r key = Inr () \<Longrightarrow> 0 \<le> sint (vo_AmountSats r) \<and> 0 \<le> sint (vo_FeeSats r)"
  by (auto simp: VerifyVtxoOperation_def vtxoOperationMAC_def canonicalVtxoOperation_def res_simps split: if_splits)

lemma verified_outflow: "VerifyVtxoOperation r key = Inr () \<Longrightarrow> 0 \<le> outflow r"
  using verified_amounts by (fastforce simp: outflow_def)

lemma charged_outflow_nonneg:
  "\<forall>r \<in> set rows. VerifyVtxoOperation r key = Inr () \<Longrightarrow> 0 \<le> sum_list (map outflow (filter p rows))"
  by (rule sum_list_filter_nonneg) (use verified_outflow in blast)

lemma spentLoop_Inr:
  assumes "0 \<le> sint acc"
  shows "spentLoop key now rows acc = Inr s \<longleftrightarrow>
    (\<forall>r \<in> set rows. VerifyVtxoOperation r key = Inr () \<and>
       (vtxoStateCountsTowardAllowance (vo_State r) \<longrightarrow> parseRFC3339 (vo_CreatedAt r) \<noteq> None)) \<and>
    sint acc + sum_list (map outflow (filter (charged now) rows)) < 2 ^ 63 \<and>
    sint s = sint acc + sum_list (map outflow (filter (charged now) rows))"
  using assms
proof (induction rows arbitrary: acc)
  case Nil
  then show ?case using i64_upper [of acc] by (auto dest: signed_word_eqI)
next
  case (Cons rec rows)
  show ?case
  proof (cases "VerifyVtxoOperation rec key")
    case (Inl e)
    then show ?thesis by simp
  next
    case (Inr u)
    then have v: "VerifyVtxoOperation rec key = Inr ()" by simp
    note am = verified_amounts [OF v]
    show ?thesis
    proof (cases "vtxoStateCountsTowardAllowance (vo_State rec)")
      case False
      then have "\<not> charged now rec" by (simp add: charged_def)
      with False v Cons.IH [OF Cons.prems] show ?thesis by auto
    next
      case counts: True
      show ?thesis
      proof (cases "parseRFC3339 (vo_CreatedAt rec)")
        case None
        with counts v show ?thesis by auto
      next
        case (Some created)
        show ?thesis
        proof (cases "charged now rec")
          case False
          with counts v Some Cons.IH [OF Cons.prems] show ?thesis
            by (auto simp: charged_def not_le)
        next
          case True
          have step: "spentLoop key now (rec # rows) acc =
              bindR (addOutflow (vo_AmountSats rec) (vo_FeeSats rec)) (\<lambda>need.
                if sint acc > sint (max_i64 - need) then Inl (Errorf ''period spent overflow'')
                else spentLoop key now rows (acc + need))"
            using True v Some counts by (auto simp: charged_def)
          show ?thesis
          proof (cases "outflow rec < 2 ^ 63 \<and> sint acc + outflow rec < 2 ^ 63")
            case fits: True
            let ?need = "vo_AmountSats rec + vo_FeeSats rec"
            have need: "addOutflow (vo_AmountSats rec) (vo_FeeSats rec) = Inr ?need"
              using am fits by (simp add: addOutflow_Inr outflow_def)
            have sneed: "sint ?need = outflow rec"
              unfolding outflow_def by (rule addOutflow_sint [OF need])
            have nn: "0 \<le> outflow rec" using am by (simp add: outflow_def)
            have acc: "sint (acc + ?need) = sint acc + outflow rec"
              using fits sneed nn Cons.prems by (subst sint_add_i64) simp_all
            have "\<not> sint acc > sint (max_i64 - ?need)"
              using fits sneed nn by (subst sint_max_minus) simp_all
            then have "spentLoop key now (rec # rows) acc = spentLoop key now rows (acc + ?need)"
              by (simp only: step need bindR_Inr if_False)
            moreover have "0 \<le> sint (acc + ?need)" using acc nn Cons.prems by simp
            ultimately show ?thesis
              using Cons.IH [of "acc + ?need"] True v counts Some acc by auto
          next
            case False
            have nn: "0 \<le> outflow rec" using am by (simp add: outflow_def)
            have "\<exists>e. spentLoop key now (rec # rows) acc = Inl e"
            proof (cases "addOutflow (vo_AmountSats rec) (vo_FeeSats rec)")
              case (Inr need)
              then have "sint need = outflow rec" by (simp add: addOutflow_sint outflow_def)
              with False nn i64_upper [of need] have "sint acc > sint (max_i64 - need)"
                by (subst sint_max_minus) auto
              with Inr show ?thesis by (simp only: step bindR_Inr if_True) blast
            qed (simp only: step bindR_Inl, blast)
            moreover have "2 ^ 63 \<le> sint acc + sum_list (map outflow (filter (charged now) (rec # rows)))"
              if "\<forall>r \<in> set rows. VerifyVtxoOperation r key = Inr ()"
              using False charged_outflow_nonneg [OF that, of "charged now"] True Cons.prems nn by auto
            ultimately show ?thesis by fastforce
          qed
        qed
      qed
    qed
  qed
qed

lemma spentInWindow_Inr:
  "spentInWindow l now d vaultID = Inr s \<longleftrightarrow>
     length (l_integrityKey l) = 32 \<and>
     (\<forall>r \<in> set (db_vtxo_operation d). vo_VaultID r = vaultID \<longrightarrow>
        VerifyVtxoOperation r (l_integrityKey l) = Inr () \<and>
        (vtxoStateCountsTowardAllowance (vo_State r) \<longrightarrow> parseRFC3339 (vo_CreatedAt r) \<noteq> None)) \<and>
     windowOutflow now vaultID d < 2 ^ 63 \<and> sint s = windowOutflow now vaultID d"
proof -
  have f: "filter (charged now) (filter (\<lambda>r. vo_VaultID r = vaultID) rows) =
      filter (\<lambda>r. vo_VaultID r = vaultID \<and> charged now r) rows" for rows
    by (simp add: conj_commute)
  show ?thesis
    by (auto simp: spentInWindow_def integrityKeyCopy_def res_simps spentLoop_Inr f windowOutflow_def)
qed

section \<open>Counters as keyed rows\<close>

lemma findSignCount_key:
  "findSignCount d (fst k) (snd k) = find_row (\<lambda>r. (sc_VaultID r, sc_CredentialID r) = k) (db_webauthn_sign_count d)"
  unfolding findSignCount_def by (metis prod.collapse prod.inject)

lemma upsertSignCount_Inr:
  "upsertSignCount r d = Inr d' \<Longrightarrow>
     d' = d\<lparr> db_webauthn_sign_count :=
       (if findSignCount d (sc_VaultID r) (sc_CredentialID r) = None then db_webauthn_sign_count d @ [r]
        else update_rows (\<lambda>x. (sc_VaultID x, sc_CredentialID x) = (sc_VaultID r, sc_CredentialID r)) (\<lambda>_. r)
          (db_webauthn_sign_count d)) \<rparr>"
  by (auto simp: upsertSignCount_def findSignCount_def Let_def split: if_splits)

interpretation sign_counts: keyed_upsert "\<lambda>k d. findSignCount d (fst k) (snd k)"
  "\<lambda>r. (sc_VaultID r, sc_CredentialID r)" upsertSignCount "\<lambda>_ r. r"
proof
  fix r d d'
  assume u: "upsertSignCount r d = Inr d'"
  let ?k = "(sc_VaultID r, sc_CredentialID r)"
  show "findSignCount d' (fst ?k) (snd ?k) = Some r"
    unfolding findSignCount_key
    using upsertSignCount_Inr [OF u] find_row_update [of "\<lambda>x. (sc_VaultID x, sc_CredentialID x)" "\<lambda>_. r" ?k "db_webauthn_sign_count d"]
    by (auto simp: find_row_append findSignCount_key [of d ?k, simplified] split: option.splits)
  show "findSignCount d' (fst k) (snd k) = findSignCount d (fst k) (snd k)" if "k \<noteq> ?k" for k
    unfolding findSignCount_key
    using upsertSignCount_Inr [OF u] that find_row_update_other [of "\<lambda>x. (sc_VaultID x, sc_CredentialID x)" "\<lambda>_. r" ?k k "db_webauthn_sign_count d"]
    by (auto simp: find_row_append split: option.splits)
qed

section \<open>Counters only move forward\<close>

lemma advanceSignCountLocked_Inr:
  assumes "advanceSignCountLocked l now v c n d = Inr d'"
  shows "(\<forall>row. findSignCount d v c = Some row \<longrightarrow> sc_SignCount row < n \<or> n = 0 \<and> sc_SignCount row = 0) \<and>
    (\<exists>row. findSignCount d' v c = Some row \<and> sc_SignCount row = n) \<and>
    (\<forall>v' c'. (v', c') \<noteq> (v, c) \<longrightarrow> findSignCount d' v' c' = findSignCount d v' c')"
proof -
  let ?row = "\<lparr> sc_VaultID = v, sc_CredentialID = c, sc_SignCount = n,
       sc_UpdatedAt = formatRFC3339Nano now, sc_IntegrityMAC = signCountMAC v c n (l_integrityKey l) \<rparr>"
  have w: "findSignCount d' v c = Some ?row \<and>
      (\<forall>v' c'. (v', c') \<noteq> (v, c) \<longrightarrow> findSignCount d' v' c' = findSignCount d v' c')"
    if "upsertSignCount ?row d = Inr d'"
    using sign_counts.look_upsert [OF that] sign_counts.look_other [OF that] by force
  show ?thesis
  proof (cases "findSignCount d v c")
    case None
    then show ?thesis using assms w by (auto simp: advanceSignCountLocked_def writeSignCount_def)
  next
    case (Some row)
    let ?s = "sc_SignCount row"
    have "\<not> (n = 0 \<and> ?s > 0) \<and> \<not> (n > 0 \<and> n < ?s) \<and> \<not> (n > 0 \<and> n = ?s) \<and>
        (n = 0 \<and> ?s = 0 \<and> d' = d \<or> upsertSignCount ?row d = Inr d')"
      using assms Some
      by (simp only: advanceSignCountLocked_def writeSignCount_def option.case Let_def bindR_eq_Inr if_Inl_eq_Inr)
        (cases "n = 0 \<and> ?s = 0"; simp)
    moreover have "?s < n \<or> n = 0 \<and> ?s = 0" if "\<not> (n = 0 \<and> ?s > 0)" "\<not> (n > 0 \<and> n < ?s)" "\<not> (n > 0 \<and> n = ?s)"
      using that by (metis linorder_less_linear word_gt_0)
    ultimately show ?thesis using Some w by auto
  qed
qed

lemma advance_keeps_counter:
  assumes "findSignCount (l_db l) v c = Some row" and "AdvanceSignCount l t v' c' n = (r, l')"
  shows "\<exists>row'. findSignCount (l_db l') v c = Some row' \<and> sc_SignCount row \<le> sc_SignCount row'"
proof (cases "l' = l")
  case False
  with assms(2) have adv: "advanceSignCountLocked l t v' c' n (l_db l) = Inr (l_db l')"
    by (auto simp: AdvanceSignCount_def split: if_splits sum.splits)
  show ?thesis
  proof (cases "(v, c) = (v', c')")
    case True
    with advanceSignCountLocked_Inr [OF adv] assms(1) show ?thesis by auto
  next
    case False
    with advanceSignCountLocked_Inr [OF adv] assms(1) show ?thesis by auto
  qed
qed (use assms in simp)

text \<open>A run of calls, each with its own clock reading, accepted or not.\<close>

definition advanceRun :: "(time \<times> string \<times> bytes \<times> u32) list \<Rightarrow> Ledger \<Rightarrow> Ledger" where
  "advanceRun calls l = fold (\<lambda>(t, v, c, n) l. snd (AdvanceSignCount l t v c n)) calls l"

lemma advanceRun_keeps_counter:
  assumes "findSignCount (l_db l) v c = Some row"
  shows "\<exists>row'. findSignCount (l_db (advanceRun calls l)) v c = Some row' \<and> sc_SignCount row \<le> sc_SignCount row'"
  using assms
proof (induction calls arbitrary: l row)
  case (Cons call calls)
  obtain t v' c' n where call: "call = (t, v', c', n)" by (metis prod_cases4)
  obtain r l1 where a: "AdvanceSignCount l t v' c' n = (r, l1)" by fastforce
  from advance_keeps_counter [OF Cons.prems a] obtain row1 where
    r1: "findSignCount (l_db l1) v c = Some row1" "sc_SignCount row \<le> sc_SignCount row1" by blast
  from Cons.IH [OF r1(1)] obtain row2 where
    "findSignCount (l_db (advanceRun calls l1)) v c = Some row2" "sc_SignCount row1 \<le> sc_SignCount row2" by blast
  with r1 call a show ?case by (auto simp: advanceRun_def)
qed (simp add: advanceRun_def)

section \<open>The policy sequence covers the database\<close>

definition outflowRows :: "db \<Rightarrow> nat" where
  "outflowRows d = length (db_vtxo_operation d) + length (db_vault_board_authorization d) +
     length (db_vault_board_dispatch d) + length (db_vault_board_submission d)"

lemma economicOutflowCount_Inr:
  assumes "outflowRows d < 2 ^ 63"
  shows "economicOutflowCount d = Inr (word_of_nat (outflowRows d)) \<and> unat (word_of_nat (outflowRows d) :: u64) = outflowRows d"
proof -
  have "sint (word_of_nat (outflowRows d) :: i64) = int (outflowRows d)"
    using sint_of_int_i64 [of "int (outflowRows d)"] assms by simp
  moreover have "unat (word_of_nat (outflowRows d) :: u64) = outflowRows d"
    using assms by (simp add: unat_of_nat take_bit_nat_eq_self)
  ultimately show ?thesis by (simp add: economicOutflowCount_def outflowRows_def [symmetric] Let_def)
qed

text \<open>With a sequence attached, its file holds a count that is at least the rows of the database.\<close>

definition covered :: "Ledger \<Rightarrow> bool" where
  "covered l \<longleftrightarrow> (\<forall>key. l_monotonic l = Some key \<longrightarrow>
     (\<exists>c. fileCount key (l_file l) = Some c \<and> outflowRows (l_db l) \<le> unat c))"

lemma observeAndCommit_covered:
  assumes "covered l" and "outflowRows d < 2 ^ 63" and "observeAndCommit fault cf l d = (r, l')"
  shows "covered l' \<and> l_monotonic l' = l_monotonic l \<and> (r \<noteq> Inr () \<longrightarrow> l_db l' = l_db l) \<and>
    (\<forall>key. r = Inr () \<longrightarrow> l_monotonic l = Some key \<longrightarrow>
       (\<exists>c. fileCount key (l_file l') = Some c \<and> unat c = outflowRows (l_db l')))"
proof (cases "l_monotonic l")
  case None
  with assms(3) show ?thesis
    by (auto simp: observeAndCommit_def observeEconomicOutflowsLocked_def covered_def split: if_splits)
next
  case (Some key)
  let ?n = "word_of_nat (outflowRows d) :: u64"
  note n = economicOutflowCount_Inr [OF assms(2)]
  obtain r0 fl where ob: "Observe fault key ?n (l_file l) = (r0, fl)" by fastforce
  from assms(1) Some obtain c where c: "fileCount key (l_file l) = Some c" "outflowRows (l_db l) \<le> unat c"
    unfolding covered_def by blast
  from file_seq.observe_mono [OF ob c(1)] obtain c' where
    c': "fileCount key fl = Some c'" "c \<le> c'" by blast
  have mono: "outflowRows (l_db l) \<le> unat c'" using c(2) c'(2) by (simp add: word_le_nat_alt)
  have full: "observeEconomicOutflowsLocked fault l d = (r0, fl)"
    using Some n ob by (simp add: observeEconomicOutflowsLocked_def)
  show ?thesis
  proof (cases r0)
    case (Inl e)
    with assms(3) full have "r = Inl (Wrapf ''policy sequence'' e)" "l' = l\<lparr> l_file := fl \<rparr>"
      by (simp_all add: observeAndCommit_def)
    with c' mono Some show ?thesis by (simp add: covered_def)
  next
    case (Inr u)
    then have "fileCount key fl = Some ?n" using file_seq.observe_ok ob by simp
    moreover from Inr assms(3) full have "l' = l\<lparr> l_file := fl \<rparr> \<and> r = Inl ErrIO \<or>
        l' = l\<lparr> l_file := fl, l_db := d \<rparr> \<and> r = Inr ()"
      by (simp add: observeAndCommit_def split: if_splits)
    ultimately show ?thesis using c' mono Some n by (auto simp: covered_def)
  qed
qed

lemma observe_due:
  assumes "outflowRows d < 2 ^ 63" and "\<forall>key. l_monotonic l = Some key \<longrightarrow>
      (\<exists>c. fileCount key (l_file l) = Some c \<and> unat c \<le> outflowRows d)"
  shows "\<exists>l'. observeAndCommit NoFault False l d = (Inr (), l') \<and> l_db l' = d \<and> l_integrityKey l' = l_integrityKey l"
proof (cases "l_monotonic l")
  case None
  then show ?thesis by (simp add: observeAndCommit_def observeEconomicOutflowsLocked_def)
next
  case (Some key)
  with assms(2) obtain c where c: "fileCount key (l_file l) = Some c" "unat c \<le> outflowRows d" by blast
  note n = economicOutflowCount_Inr [OF assms(1)]
  have r: "readMonotonic NoFault key (l_file l) = Inr (c, True)" using c(1) by (simp add: readMonotonic_iff)
  have le: "c \<le> word_of_nat (outflowRows d)" using c(2) n by (simp add: word_le_nat_alt)
  then have "\<exists>fl. Observe NoFault key (word_of_nat (outflowRows d)) (l_file l) = (Inr (), fl)"
    using r by (auto simp: Observe_def writeMonotonic_def not_less)
  with Some n show ?thesis by (auto simp: observeAndCommit_def observeEconomicOutflowsLocked_def)
qed

lemma ex_created: "parseRFC3339 ''2026-01-01T00:00:00Z'' = Some (1767225600 * Second)"
  by code_simp

section \<open>Properties\<close>

text \<open>A vault and a ledger that holds it, for the concrete instances.\<close>

definition exNow :: time where "exNow = 1767225600 * Second"

lemma ex_nano: "formatRFC3339Nano exNow = ''2026-01-01T00:00:00Z''"
  unfolding exNow_def by code_simp

definition exVault :: VaultRecord where
  "exVault =
     \<lparr> vr_VaultID = ''v1'', vr_TemplateVersion = ''t'', vr_PolicyVersion = ''p'', vr_ProtectionTier = ''standard'',
       vr_Network = ''mutinynet'', vr_RPID = ''rp'', vr_Origin = ''o'', vr_PhoneBIP340 = [1], vr_PhoneDirectP256 = [1],
       vr_ExternalOwnerWallet = [1], vr_RecoveryKey = [], vr_VaultCosignerBase = [1], vr_ArkadeCosignerBase = [1],
       vr_ArkadeCosignerOrigin = ''o'', vr_ArkadeCosignerVersion = ''v'', vr_CosignerMode = ''hkdf-sha256-v1'',
       vr_SavingsAddress = ''a'', vr_SavingsScript = [1], vr_RecipientDustSats = 330, vr_TxRecipientCapSats = 50000,
       vr_PeriodAllowanceSats = 100000, vr_AbsoluteFeeCapSats = 5000, vr_FeerateCapSatPerV = 10,
       vr_IntegrityMAC = replicate 32 0 \<rparr>"

definition exLedger :: "VtxoOperation list \<Rightarrow> Ledger" where
  "exLedger ops =
     \<lparr> l_db = emptyDb\<lparr> db_vault := [exVault], db_vtxo_operation := ops \<rparr>, l_network = ''mutinynet'',
       l_integrityKey = exKey, l_monotonic = None, l_file = None \<rparr>"

lemma exVault_id [simp]: "vr_VaultID exVault = ''v1''"
  by (simp add: exVault_def)

lemma exLedger_simps [simp]:
  "l_integrityKey (exLedger ops) = exKey" "l_monotonic (exLedger ops) = None" "l_file (exLedger ops) = None"
  "db_vault (l_db (exLedger ops)) = [exVault]" "db_vtxo_operation (l_db (exLedger ops)) = ops"
  "db_webauthn_sign_count (l_db (exLedger ops)) = []" "db_vtxo_operation_input (l_db (exLedger ops)) = []"
  by (simp_all add: exLedger_def emptyDb_def)

text \<open>
  C28. The amount charged to the allowance is exact: \<open>spentInWindow\<close> returns a value exactly when
  the key is installed, every operation of the vault verifies and every counted one has a readable
  creation time, and the sum fits; the value is then the sum, over the vault's operations that are
  signed or submitted, or reserved, finalized or unresolved and at most 24 hours old, of amount and
  fee, computed without wrap-around.
\<close>

theorem spent_in_window_exact:
  "spentInWindow l now d vaultID = Inr s \<longleftrightarrow>
     length (l_integrityKey l) = 32 \<and>
     (\<forall>r \<in> set (db_vtxo_operation d). vo_VaultID r = vaultID \<longrightarrow>
        VerifyVtxoOperation r (l_integrityKey l) = Inr () \<and>
        (vtxoStateCountsTowardAllowance (vo_State r) \<longrightarrow> parseRFC3339 (vo_CreatedAt r) \<noteq> None)) \<and>
     windowOutflow now vaultID d < 2 ^ 63 \<and> sint s = windowOutflow now vaultID d"
  by (rule spentInWindow_Inr)

theorem spent_in_window_exact_witness:
  "spentInWindow (exLedger [exSealed]) (1767225600 * Second + 24 * Hour) (l_db (exLedger [exSealed])) ''v1'' = Inr 1010"
  unfolding spent_in_window_exact
  by (simp add: windowOutflow_def charged_def outflow_def vtxo_state_defs ex_created)

text \<open>
  C16. An authenticator counter is used at most once: after \<open>AdvanceSignCount\<close> has accepted a counter
  \<open>n > 0\<close> for a credential, and whatever further calls of it are made in between, accepted or not, a
  call with a counter of at most \<open>n\<close> for the same credential is refused.
\<close>

theorem sign_count_replay_refused:
  assumes "AdvanceSignCount l t v c n = (Inr (), l')" and "n > 0" and "m \<le> n"
  shows "\<exists>e. fst (AdvanceSignCount (advanceRun calls l') t' v c m) = Inl e"
proof -
  from assms(1) have "advanceSignCountLocked l t v c n (l_db l) = Inr (l_db l')"
    by (auto simp: AdvanceSignCount_def split: if_splits sum.splits)
  from advanceSignCountLocked_Inr [OF this] obtain row where
    "findSignCount (l_db l') v c = Some row" "sc_SignCount row = n" by blast
  with advanceRun_keeps_counter obtain row' where
    row': "findSignCount (l_db (advanceRun calls l')) v c = Some row'" "n \<le> sc_SignCount row'" by blast
  let ?l = "advanceRun calls l'"
  have "advanceSignCountLocked ?l t' v c m (l_db ?l) \<noteq> Inr d" for d
    using advanceSignCountLocked_Inr [of ?l t' v c m "l_db ?l" d] row' assms(2,3) by force
  then show ?thesis
    by (auto simp: AdvanceSignCount_def split: sum.splits)
qed

theorem sign_count_replay_refused_witness:
  "\<exists>e. fst (AdvanceSignCount (advanceRun [(4, ''v1'', [1], 9)] (snd (AdvanceSignCount (exLedger []) 3 ''v1'' [1] 5)))
     8 ''v1'' [1] 5) = Inl e"
proof -
  have a: "AdvanceSignCount (exLedger []) 3 ''v1'' [1] 5 =
      (Inr (), snd (AdvanceSignCount (exLedger []) 3 ''v1'' [1] 5))"
    by (simp add: AdvanceSignCount_def advanceSignCountLocked_def findSignCount_def writeSignCount_def
        upsertSignCount_def signCountMAC_def)
  show ?thesis by (rule sign_count_replay_refused [OF a]) simp_all
qed

text \<open>
  C40. What the authentication code of a counter binds. A code made for a vault, a credential and a count
  is accepted for another triple exactly when the count is the same and the bytes of the vault id followed
  by those of the credential id are the same, or else two different messages collide under HMAC with the
  integrity key. The two ids are not separated: a row whose ids are split elsewhere, and nothing else
  changed, still passes the check of a replay.
\<close>

theorem sign_count_code_binds:
  assumes "verifySignCountMAC v c n mac key = Inr ()"
  shows "(verifySignCountMAC v' c' n' mac key = Inr () \<longleftrightarrow> str_bytes v' @ c' = str_bytes v @ c \<and> n' = n \<or>
      (let m = str_bytes signCountMACDomain @ str_bytes v @ c @ be32 n; m' = str_bytes signCountMACDomain @ str_bytes v' @ c' @ be32 n'
       in m' \<noteq> m \<and> hmac_sha256 key m' = hmac_sha256 key m)) \<and>
    (str_bytes v' @ c' = str_bytes v @ c \<and> l_integrityKey l = key \<and>
       findSignCount d v' c' = Some \<lparr> sc_VaultID = v', sc_CredentialID = c', sc_SignCount = n, sc_UpdatedAt = t, sc_IntegrityMAC = mac \<rparr> \<longrightarrow>
     verifySignCountReplayLocked l v' c' n d = Inr ())"
proof -
  let ?m = "str_bytes signCountMACDomain @ str_bytes v @ c @ be32 n"
  let ?m' = "str_bytes signCountMACDomain @ str_bytes v' @ c' @ be32 n'"
  have mac: "mac = hmac_sha256 key ?m" using assms by (simp add: verifySignCountMAC_def signCountMAC_def split: if_splits)
  have "str_bytes v' @ c' @ be32 n' = str_bytes v @ c @ be32 n \<longleftrightarrow> str_bytes v' @ c' = str_bytes v @ c \<and> n' = n"
    using append_eq_append_conv [of "str_bytes v' @ c'" "str_bytes v @ c" "be32 n'" "be32 n"] by auto
  then have same: "?m' = ?m \<longleftrightarrow> str_bytes v' @ c' = str_bytes v @ c \<and> n' = n" by simp
  have "verifySignCountMAC v' c' n' mac key = Inr () \<longleftrightarrow> hmac_sha256 key ?m' = hmac_sha256 key ?m"
    by (auto simp: verifySignCountMAC_def signCountMAC_def mac)
  moreover have "verifySignCountMAC v' c' n mac key = Inr ()" if "str_bytes v' @ c' = str_bytes v @ c"
  proof -
    have "str_bytes v' @ c' @ be32 n = (str_bytes v' @ c') @ be32 n" by simp
    also have "\<dots> = str_bytes v @ c @ be32 n" by (simp only: that append_assoc)
    finally have e: "str_bytes v' @ c' @ be32 n = str_bytes v @ c @ be32 n" .
    show ?thesis unfolding verifySignCountMAC_def signCountMAC_def mac e by simp
  qed
  ultimately show ?thesis using same by (auto simp: Let_def verifySignCountReplayLocked_def)
qed

text \<open>A counter of credential 0x31 0x32 in vault v is one of credential 0x32 in vault v1.\<close>

theorem sign_count_code_binds_witness:
  "verifySignCountMAC ''v'' [0x31, 0x32] 5 (signCountMAC ''v'' [0x31, 0x32] 5 exKey) exKey = Inr () \<and>
   verifySignCountMAC ''v1'' [0x32] 5 (signCountMAC ''v'' [0x31, 0x32] 5 exKey) exKey = Inr ()"
proof -
  have v: "verifySignCountMAC ''v'' [0x31, 0x32] 5 (signCountMAC ''v'' [0x31, 0x32] 5 exKey) exKey = Inr ()"
    by (simp add: verifySignCountMAC_def)
  from v sign_count_code_binds [OF v, of "''v1''" "[0x32]" 5] show ?thesis by (simp add: str_bytes_def char_byte_def)
qed

end
