(* ===== verification/VtxoLedger.thy ===== *)
theory VtxoLedger
  imports LedgerCore
begin

text \<open>
  \<open>internal/policy/vtxo_ledger.go\<close>: reserving, advancing and reading spending operations. Each
  method is a function on the ledger; a method that runs in a SQL transaction computes the
  database it would commit and returns the old one when any step fails.
\<close>

section \<open>Reading\<close>

definition loadVtxoOperation :: "Ledger \<Rightarrow> db \<Rightarrow> string \<Rightarrow> VtxoOperation result" where
  "loadVtxoOperation l d operationID =
     bindR (integrityKeyCopy l) (\<lambda>key.
     case find_row (\<lambda>r. vo_OperationID r = operationID) (db_vtxo_operation d) of
       None \<Rightarrow> Inl ErrNoRows
     | Some rec \<Rightarrow>
         bindR (wrapR ''vtxo operation integrity'' (VerifyVtxoOperation rec key)) (\<lambda>_. Inr rec))"

definition inputOrder :: "VtxoOperationInput \<Rightarrow> nat list \<times> int" where
  "inputOrder i = (map unat (vi_Txid i), sint (vi_Vout i))"

definition loadVtxoOperationInputs :: "Ledger \<Rightarrow> db \<Rightarrow> string \<Rightarrow> VtxoOperationInput list result" where
  "loadVtxoOperationInputs l d operationID =
     bindR (integrityKeyCopy l) (\<lambda>key.
     mapR (\<lambda>i. bindR (wrapR ''vtxo operation input integrity'' (VerifyVtxoOperationInput i key)) (\<lambda>_. Inr i))
       (sort_key inputOrder (filter (\<lambda>i. vi_OperationID i = operationID) (db_vtxo_operation_input d))))"

definition GetVtxoOperation :: "Ledger \<Rightarrow> string \<Rightarrow> VtxoOperation result" where
  "GetVtxoOperation l operationID =
     (if operationID = [] then Inl (Errorf ''vtxo operation id required'')
      else loadVtxoOperation l (l_db l) operationID)"

definition GetVtxoOperationInputs :: "Ledger \<Rightarrow> string \<Rightarrow> VtxoOperationInput list result" where
  "GetVtxoOperationInputs l operationID =
     (if operationID = [] then Inl (Errorf ''vtxo operation id required'')
      else loadVtxoOperationInputs l (l_db l) operationID)"

definition verifiedRows :: "bytes \<Rightarrow> VtxoOperation list \<Rightarrow> VtxoOperation list result" where
  "verifiedRows key rows =
     mapR (\<lambda>r. bindR (wrapR ''vtxo operation integrity'' (VerifyVtxoOperation r key)) (\<lambda>_. Inr r)) rows"

definition ListVtxoOperations :: "Ledger \<Rightarrow> string \<Rightarrow> VtxoOperation list result" where
  "ListVtxoOperations l vaultID =
     (if vaultID = [] then Inl (Errorf ''vault id required'')
      else bindR (integrityKeyCopy l) (\<lambda>key.
        verifiedRows key (filter (\<lambda>r. vo_VaultID r = vaultID) (db_vtxo_operation (l_db l)))))"

section \<open>Checks of a reservation\<close>

text \<open>The rows that expire: selected by comparing strings, then confirmed by comparing instants.\<close>

fun expiredRows :: "bytes \<Rightarrow> time \<Rightarrow> VtxoOperation list \<Rightarrow> VtxoOperation list result" where
  "expiredRows key now [] = Inr []"
| "expiredRows key now (rec # rows) =
     bindR (wrapR ''vtxo operation integrity'' (VerifyVtxoOperation rec key)) (\<lambda>_.
     if vo_ExpiresAt rec = [] then expiredRows key now rows
     else case parseRFC3339 (vo_ExpiresAt rec) of
       None \<Rightarrow> Inl (Errorf ''vtxo reservation expiry'')
     | Some exp \<Rightarrow>
         bindR (expiredRows key now rows) (\<lambda>expired.
         Inr (if \<not> now < exp then rec # expired else expired)))"

text \<open>Each expired row is resealed as aborted and written back if it is still reserved.\<close>

fun abortRows :: "bytes \<Rightarrow> VtxoOperation list \<Rightarrow> db \<Rightarrow> db result" where
  "abortRows key [] d = Inr d"
| "abortRows key (rec # rows) d =
     bindR (SealVtxoOperation (rec\<lparr> vo_State := vtxoStateAborted \<rparr>) key) (\<lambda>sealed.
     abortRows key rows (d\<lparr> db_vtxo_operation := update_rows
       (\<lambda>r. vo_OperationID r = vo_OperationID sealed \<and> vo_State r = vtxoStateReserved)
       (\<lambda>r. r\<lparr> vo_State := vo_State sealed, vo_IntegrityMAC := vo_IntegrityMAC sealed \<rparr>)
       (db_vtxo_operation d) \<rparr>))"

definition abortExpiredVtxoLocked :: "Ledger \<Rightarrow> db \<Rightarrow> string \<Rightarrow> time \<Rightarrow> db result" where
  "abortExpiredVtxoLocked l d vaultID now =
     bindR (integrityKeyCopy l) (\<lambda>key.
     bindR (expiredRows key now (filter (\<lambda>r. vo_VaultID r = vaultID \<and> vo_State r = vtxoStateReserved \<and>
         vo_ExpiresAt r \<noteq> [] \<and> vo_ExpiresAt r \<le> formatRFC3339 now) (db_vtxo_operation d))) (\<lambda>expired.
     abortRows key expired d))"

text \<open>The join of the inputs that name one of the given outpoints with their operations.\<close>

definition matchOrder :: "VtxoOperation \<times> VtxoOperationInput \<Rightarrow> nat list \<times> int \<times> string" where
  "matchOrder m = (map unat (vi_Txid (snd m)), sint (vi_Vout (snd m)), vi_OperationID (snd m))"

definition overlapJoin :: "db \<Rightarrow> VtxoOperationInput list \<Rightarrow> (VtxoOperation \<times> VtxoOperationInput) list" where
  "overlapJoin d inputs =
     sort_key matchOrder (concat (map (\<lambda>i. map (\<lambda>o'. (o', i))
         (filter (\<lambda>o'. vo_OperationID o' = vi_OperationID i) (db_vtxo_operation d)))
       (filter (\<lambda>i. \<exists>j \<in> set inputs. vi_Txid i = vi_Txid j \<and> vi_Vout i = vi_Vout j)
         (db_vtxo_operation_input d))))"

definition authenticateMatch :: "bytes \<Rightarrow> VtxoOperation \<times> VtxoOperationInput \<Rightarrow> (string \<times> string) result" where
  "authenticateMatch key m =
     (case m of (rec, i) \<Rightarrow>
       bindR (wrapR ''vtxo operation integrity'' (VerifyVtxoOperation rec key)) (\<lambda>_.
       bindR (wrapR ''vtxo operation input integrity'' (VerifyVtxoOperationInput i key)) (\<lambda>_.
       if vi_OperationID i \<noteq> vo_OperationID rec then Inl (Errorf ''vtxo operation input parent mismatch'')
       else Inr (vo_OperationID rec, vo_State rec))))"

definition rejectOverlappingVtxoInputs :: "Ledger \<Rightarrow> db \<Rightarrow> string \<Rightarrow> VtxoOperationInput list \<Rightarrow> unit result" where
  "rejectOverlappingVtxoInputs l d operationID inputs =
     (if length inputs = 0 \<or> length inputs > MaxVtxoOperationInputs then
        Inl (Errorf ''vtxo overlap input count must be 1..%d'')
      else bindR (integrityKeyCopy l) (\<lambda>key.
        bindR (mapR (authenticateMatch key) (overlapJoin d inputs)) (\<lambda>matches.
        eachR (\<lambda>(opID, state).
          if opID = operationID then Inr ()
          else if vtxoStateLocksInputs state then Inl (Errorf ''vtxo outpoint already reserved'')
          else Inr ()) matches)))"

definition rejectConcurrentVtxoOperationLocked :: "Ledger \<Rightarrow> db \<Rightarrow> string \<Rightarrow> string \<Rightarrow> unit result" where
  "rejectConcurrentVtxoOperationLocked l d vaultID operationID =
     bindR (integrityKeyCopy l) (\<lambda>key.
     bindR (verifiedRows key (filter (\<lambda>r. vo_VaultID r = vaultID) (db_vtxo_operation d))) (\<lambda>rows.
     if list_ex (\<lambda>r. vo_OperationID r \<noteq> operationID \<and> vtxoStateBlocksNewOperation (vo_State r)) rows then
       Inl ErrVtxoOperationActive
     else Inr ()))"

section \<open>Reserving\<close>

fun insertSealedInputs :: "bytes \<Rightarrow> string \<Rightarrow> VtxoOperationInput list \<Rightarrow> db \<Rightarrow> db result" where
  "insertSealedInputs key operationID [] d = Inr d"
| "insertSealedInputs key operationID (i # is) d =
     bindR (SealVtxoOperationInput (i\<lparr> vi_OperationID := operationID \<rparr>) key) (\<lambda>i.
     bindR (insertVtxoOperationInput i d) (insertSealedInputs key operationID is))"

text \<open>
  The body of the reservation inside its transaction, up to the policy sequence. \<open>t1\<close> is the
  clock reading that expires reservations, \<open>t2\<close> the one the allowance window is measured at.
\<close>

definition reserveBody ::
  "Ledger \<Rightarrow> time \<Rightarrow> time \<Rightarrow> VtxoOperation \<Rightarrow> VtxoOperationInput list \<Rightarrow> i64 \<Rightarrow> db \<Rightarrow> db result" where
  "reserveBody l t1 t2 rec inputs remainingCap d =
     bindR (abortExpiredVtxoLocked l d (vo_VaultID rec) t1) (\<lambda>d.
     bindR (rejectOverlappingVtxoInputs l d (vo_OperationID rec) inputs) (\<lambda>_.
     bindR (rejectConcurrentVtxoOperationLocked l d (vo_VaultID rec) (vo_OperationID rec)) (\<lambda>_.
     bindR (spentInWindow l t2 d (vo_VaultID rec)) (\<lambda>usedAmt.
     bindR (addOutflow (vo_AmountSats rec) (vo_FeeSats rec)) (\<lambda>need.
     if sint usedAmt > sint remainingCap then Inl ErrPeriodAllowanceExceeded
     else if sint need > sint (remainingCap - usedAmt) then Inl ErrPeriodAllowanceExceeded
     else
       bindR (integrityKeyCopy l) (\<lambda>key.
       bindR (SealVtxoOperation rec key) (\<lambda>rec.
       bindR (insertVtxoOperation rec d)
         (insertSealedInputs key (vo_OperationID rec) inputs))))))))"

definition ReserveVtxoOperation ::
  "file_fault \<Rightarrow> bool \<Rightarrow> time \<Rightarrow> time \<Rightarrow> Ledger \<Rightarrow> VtxoOperation \<Rightarrow> VtxoOperationInput list \<Rightarrow> i64 \<Rightarrow>
     unit result \<times> Ledger" where
  "ReserveVtxoOperation fault commitFails t1 t2 l rec inputs remainingCap =
     (if vo_OperationID rec = [] \<or> vo_VaultID rec = [] then (Inl (Errorf ''vtxo operation identity required''), l)
      else if vo_State rec \<noteq> vtxoStateReserved then (Inl (Errorf ''reserve requires reserved state''), l)
      else if sint remainingCap < 0 then (Inl (Errorf ''negative allowance''), l)
      else if length inputs = 0 \<or> length inputs > MaxVtxoOperationInputs then
        (Inl (Errorf ''vtxo reservation input count must be 1..%d''), l)
      else case reserveBody l t1 t2 rec inputs remainingCap (l_db l) of
        Inl e \<Rightarrow> (Inl e, l)
      | Inr d \<Rightarrow> observeAndCommit fault commitFails l d)"

section \<open>Advancing\<close>

definition validVtxoTransition :: "string \<Rightarrow> string \<Rightarrow> bool" where
  "validVtxoTransition from to =
     (if from = vtxoStateReserved then to = vtxoStateSigned \<or> to = vtxoStateAborted
      else if from = vtxoStateSigned then to = vtxoStateSubmitted
      else if from = vtxoStateSubmitted then to = vtxoStateFinalized \<or> to = vtxoStateUnresolved
      else False)"

text \<open>
  The \<open>UPDATE\<close> that replaces every column but the keys: the new table and the number of rows
  affected. The checks of the table apply to the new row.
\<close>

definition updateVtxoOperation :: "string \<Rightarrow> VtxoOperation \<Rightarrow> db \<Rightarrow> (nat \<times> db) result" where
  "updateVtxoOperation expectedState rec d =
     (let hit = (\<lambda>r. vo_OperationID r = vo_OperationID rec \<and> vo_VaultID r = vo_VaultID rec \<and> vo_State r = expectedState);
          n = affected hit (db_vtxo_operation d)
      in if n > 0 \<and> \<not> vtxo_operation_check rec then Inl ErrConstraint
         else Inr (n, d\<lparr> db_vtxo_operation := update_rows hit (\<lambda>_. rec) (db_vtxo_operation d) \<rparr>))"

definition TransitionVtxoOperation ::
  "Ledger \<Rightarrow> string \<Rightarrow> VtxoOperation \<Rightarrow> (VtxoOperation \<times> bool) result \<times> Ledger" where
  "TransitionVtxoOperation l expectedState rec =
     (if vo_OperationID rec = [] \<or> vo_VaultID rec = [] then (Inl (Errorf ''vtxo operation identity required''), l)
      else if \<not> validVtxoTransition expectedState (vo_State rec) then
        (Inl (Errorf ''invalid vtxo state transition %s -> %s''), l)
      else case bindR (integrityKeyCopy l) (SealVtxoOperation rec) of
        Inl e \<Rightarrow> (Inl e, l)
      | Inr rec \<Rightarrow>
          (case updateVtxoOperation expectedState rec (l_db l) of
             Inl e \<Rightarrow> (Inl e, l)
           | Inr (n, d) \<Rightarrow>
               let l = l\<lparr> l_db := d \<rparr> in
               if n = 1 then (Inr (rec, True), l)
               else (case loadVtxoOperation l (l_db l) (vo_OperationID rec) of
                       Inl e \<Rightarrow> (Inl e, l)
                     | Inr current \<Rightarrow> (Inr (current, False), l))))"

text \<open>The transaction of a signed commit: the operation and the counter, or neither.\<close>

definition CommitSignedVtxoOperation ::
  "bool \<Rightarrow> time \<Rightarrow> Ledger \<Rightarrow> VtxoOperation \<Rightarrow> bytes \<Rightarrow> u32 \<Rightarrow> (VtxoOperation \<times> bool) result \<times> Ledger" where
  "CommitSignedVtxoOperation commitFails now l rec credentialID signCount =
     (if vo_OperationID rec = [] \<or> vo_VaultID rec = [] \<or> length credentialID = 0 \<or> vo_State rec \<noteq> vtxoStateSigned then
        (Inl (Errorf ''signed vtxo operation identity required''), l)
      else case bindR (integrityKeyCopy l) (SealVtxoOperation rec) of
        Inl e \<Rightarrow> (Inl e, l)
      | Inr rec \<Rightarrow>
          (case updateVtxoOperation vtxoStateReserved rec (l_db l) of
             Inl e \<Rightarrow> (Inl e, l)
           | Inr (n, d) \<Rightarrow>
               if n \<noteq> 1 then
                 (case loadVtxoOperation l d (vo_OperationID rec) of
                    Inl e \<Rightarrow> (Inl e, l)
                  | Inr current \<Rightarrow>
                      if vo_State current = vtxoStateSigned then
                        (case verifySignCountReplayLocked l (vo_VaultID rec) credentialID signCount d of
                           Inl e \<Rightarrow> (Inl e, l)
                         | Inr _ \<Rightarrow> (Inr (current, False), l))
                      else (Inr (current, False), l))
               else
                 (case advanceSignCountLocked l now (vo_VaultID rec) credentialID signCount d of
                    Inl e \<Rightarrow> (Inl e, l)
                  | Inr d \<Rightarrow>
                      if commitFails then (Inl ErrIO, l)
                      else (Inr (rec, True), l\<lparr> l_db := d \<rparr>))))"

definition VerifySignedVtxoReplay :: "Ledger \<Rightarrow> string \<Rightarrow> string \<Rightarrow> bytes \<Rightarrow> u32 \<Rightarrow> unit result" where
  "VerifySignedVtxoReplay l operationID vaultID credentialID signCount =
     (if operationID = [] \<or> vaultID = [] \<or> length credentialID = 0 then
        Inl (Errorf ''signed vtxo replay identity required'')
      else if length (l_integrityKey l) \<noteq> 32 then Inl (Errorf ''sign count ledger required'')
      else bindR (loadVtxoOperation l (l_db l) operationID) (\<lambda>rec.
        if vo_VaultID rec \<noteq> vaultID \<or> vo_State rec \<noteq> vtxoStateSigned then
          Inl (Errorf ''signed vtxo replay state mismatch'')
        else verifySignCountReplayLocked l vaultID credentialID signCount (l_db l)))"

section \<open>How a stored operation may change\<close>

definition vtxoTerminal :: "string \<Rightarrow> bool" where
  "vtxoTerminal s \<longleftrightarrow> s \<notin> {vtxoStateReserved, vtxoStateSigned, vtxoStateSubmitted}"

lemma validVtxoTransition_iff:
  "validVtxoTransition a b \<longleftrightarrow>
     a = vtxoStateReserved \<and> (b = vtxoStateSigned \<or> b = vtxoStateAborted) \<or>
     a = vtxoStateSigned \<and> b = vtxoStateSubmitted \<or>
     a = vtxoStateSubmitted \<and> (b = vtxoStateFinalized \<or> b = vtxoStateUnresolved)"
  by (auto simp: validVtxoTransition_def)

lemma terminal_no_transition: "vtxoTerminal a \<Longrightarrow> \<not> validVtxoTransition a b"
  by (auto simp: vtxoTerminal_def validVtxoTransition_iff)

abbreviation vtxoReaches :: "string \<Rightarrow> string \<Rightarrow> bool" where
  "vtxoReaches \<equiv> validVtxoTransition\<^sup>*\<^sup>*"

lemma vtxoReaches_blocks: "vtxoReaches a b \<Longrightarrow> vtxoStateBlocksNewOperation b \<Longrightarrow> vtxoStateBlocksNewOperation a"
  by (induction rule: rtranclp_induct) (auto simp: validVtxoTransition_iff vtxoStateBlocksNewOperation_def)

lemma vtxoReaches_locks: "vtxoReaches a b \<Longrightarrow> vtxoStateLocksInputs b \<Longrightarrow> vtxoStateLocksInputs a"
  by (induction rule: rtranclp_induct) (auto simp: validVtxoTransition_iff vtxoStateLocksInputs_def)

text \<open>
  What any operation of the ledger may make of one stored row: the keys stay, the state moves along
  valid transitions, the outflow does not grow, and a row in a terminal state is never touched.
\<close>

definition evolves :: "VtxoOperation \<Rightarrow> VtxoOperation \<Rightarrow> bool" where
  "evolves r r' \<longleftrightarrow> vo_OperationID r' = vo_OperationID r \<and> vo_VaultID r' = vo_VaultID r \<and>
     vtxoReaches (vo_State r) (vo_State r') \<and> outflow r' \<le> outflow r \<and> (0 \<le> outflow r \<longrightarrow> 0 \<le> outflow r') \<and>
     (vtxoTerminal (vo_State r) \<longrightarrow> r' = r)"

lemma evolves_refl [simp]: "evolves r r"
  by (simp add: evolves_def)

lemma evolves_trans: "evolves r s \<Longrightarrow> evolves s t \<Longrightarrow> evolves r t"
  by (auto simp: evolves_def intro: rtranclp_trans)

abbreviation evolve_rows :: "VtxoOperation list \<Rightarrow> VtxoOperation list \<Rightarrow> bool" where
  "evolve_rows \<equiv> list_all2 evolves"

lemma evolve_rows_refl [simp]: "evolve_rows t t"
  by (simp add: list_all2_refl)

lemma evolve_rows_trans: "evolve_rows t u \<Longrightarrow> evolve_rows u w \<Longrightarrow> evolve_rows t w"
  by (rule list_all2_trans [of evolves evolves evolves]) (auto intro: evolves_trans)

lemma evolve_update_rows:
  assumes "\<And>r. r \<in> set t \<Longrightarrow> p r \<Longrightarrow> evolves r (f r)"
  shows "evolve_rows t (update_rows p f t)"
  using assms by (induction t) (auto simp: update_rows_def)

lemma evolve_rows_ids: "evolve_rows t u \<Longrightarrow> map vo_OperationID u = map vo_OperationID t"
  by (induction rule: list_all2_induct) (auto simp: evolves_def)

lemma evolve_rows_back: "evolve_rows t u \<Longrightarrow> r' \<in> set u \<Longrightarrow> \<exists>r \<in> set t. evolves r r'"
  by (induction rule: list_all2_induct) auto

lemma evolve_rows_forth: "evolve_rows t u \<Longrightarrow> r \<in> set t \<Longrightarrow> \<exists>r' \<in> set u. evolves r r'"
  by (induction rule: list_all2_induct) auto

section \<open>What each operation does to the tables\<close>

lemma SealVtxoOperation_keeps:
  "SealVtxoOperation r key = Inr s \<Longrightarrow>
     vo_OperationID s = vo_OperationID r \<and> vo_VaultID s = vo_VaultID r \<and> vo_State s = vo_State r \<and>
     vo_AmountSats s = vo_AmountSats r \<and> vo_FeeSats s = vo_FeeSats r \<and> vo_CreatedAt s = vo_CreatedAt r"
  by (auto simp: SealVtxoOperation_def res_simps)

lemma abortRows_evolves:
  "abortRows key rows d = Inr d' \<Longrightarrow>
     \<exists>ops. d' = d\<lparr> db_vtxo_operation := ops \<rparr> \<and> evolve_rows (db_vtxo_operation d) ops"
proof (induction rows arbitrary: d)
  case Nil
  then show ?case by (intro exI [of _ "db_vtxo_operation d"]) simp
next
  case (Cons rec rows)
  from Cons.prems obtain s where s: "SealVtxoOperation (rec\<lparr> vo_State := vtxoStateAborted \<rparr>) key = Inr s"
    and rest: "abortRows key rows (d\<lparr> db_vtxo_operation := update_rows
       (\<lambda>r. vo_OperationID r = vo_OperationID s \<and> vo_State r = vtxoStateReserved)
       (\<lambda>r. r\<lparr> vo_State := vo_State s, vo_IntegrityMAC := vo_IntegrityMAC s \<rparr>) (db_vtxo_operation d) \<rparr>) = Inr d'"
    by (auto simp: res_simps)
  from SealVtxoOperation_keeps [OF s] have st: "vo_State s = vtxoStateAborted" by simp
  have "evolve_rows (db_vtxo_operation d) (update_rows
       (\<lambda>r. vo_OperationID r = vo_OperationID s \<and> vo_State r = vtxoStateReserved)
       (\<lambda>r. r\<lparr> vo_State := vo_State s, vo_IntegrityMAC := vo_IntegrityMAC s \<rparr>) (db_vtxo_operation d))"
    by (rule evolve_update_rows)
      (auto simp: evolves_def st outflow_def vtxoTerminal_def validVtxoTransition_iff intro!: r_into_rtranclp)
  with Cons.IH [OF rest] show ?case by (auto intro: evolve_rows_trans)
qed

lemma abortExpired_evolves:
  "abortExpiredVtxoLocked l d v now = Inr d' \<Longrightarrow>
     \<exists>ops. d' = d\<lparr> db_vtxo_operation := ops \<rparr> \<and> evolve_rows (db_vtxo_operation d) ops"
  by (auto simp: abortExpiredVtxoLocked_def res_simps dest: abortRows_evolves)

lemma insertSealedInputs_Inr:
  "insertSealedInputs key opID is d = Inr d' \<Longrightarrow>
     \<exists>new. d' = d\<lparr> db_vtxo_operation_input := db_vtxo_operation_input d @ new \<rparr> \<and>
       map (\<lambda>i. (vi_Txid i, vi_Vout i)) new = map (\<lambda>i. (vi_Txid i, vi_Vout i)) is \<and>
       (\<forall>i \<in> set new. vi_OperationID i = opID \<and> VerifyVtxoOperationInput i key = Inr ())"
proof (induction "is" arbitrary: d)
  case Nil
  then show ?case by (intro exI [of _ "[]"]) simp
next
  case (Cons i "is")
  from Cons.prems obtain s d1 where s: "SealVtxoOperationInput (i\<lparr> vi_OperationID := opID \<rparr>) key = Inr s"
    and ins: "insertVtxoOperationInput s d = Inr d1" and rest: "insertSealedInputs key opID is d1 = Inr d'"
    by (auto simp: res_simps)
  from s have k: "length key = 32"
    by (auto simp: SealVtxoOperationInput_def vtxoOperationInputMAC_def res_simps split: if_splits)
  have v: "VerifyVtxoOperationInput s key = Inr ()" using k s by (rule input_seal.seal_verifies)
  from s have f: "vi_OperationID s = opID" "vi_Txid s = vi_Txid i" "vi_Vout s = vi_Vout i"
    by (auto simp: SealVtxoOperationInput_def res_simps)
  from ins have d1: "d1 = d\<lparr> db_vtxo_operation_input := db_vtxo_operation_input d @ [s] \<rparr>"
    by (auto simp: insertVtxoOperationInput_def res_simps)
  from Cons.IH [OF rest] obtain new where "d' = d1\<lparr> db_vtxo_operation_input := db_vtxo_operation_input d1 @ new \<rparr>"
    "map (\<lambda>i. (vi_Txid i, vi_Vout i)) new = map (\<lambda>i. (vi_Txid i, vi_Vout i)) is"
    "\<forall>i \<in> set new. vi_OperationID i = opID \<and> VerifyVtxoOperationInput i key = Inr ()" by blast
  with d1 f v show ?case by (intro exI [of _ "s # new"]) simp
qed

lemma insertVtxoOperation_Inr:
  "insertVtxoOperation r d = Inr d' \<Longrightarrow>
     d' = d\<lparr> db_vtxo_operation := db_vtxo_operation d @ [r] \<rparr> \<and>
     vo_OperationID r \<notin> vo_OperationID ` set (db_vtxo_operation d)"
  by (auto simp: insertVtxoOperation_def res_simps find_row_None)

lemma windowOutflow_nonneg:
  assumes "\<forall>r \<in> set (db_vtxo_operation d). vo_VaultID r = v \<longrightarrow> VerifyVtxoOperation r key = Inr ()"
  shows "0 \<le> windowOutflow now v d"
  unfolding windowOutflow_def using assms verified_outflow by (intro sum_list_nonneg) auto

text \<open>The facts of a reservation that went through, named for the proofs below.\<close>

lemma reserveBody_Inr:
  assumes "reserveBody l t1 t2 rec inputs cap d = Inr d'"
  obtains ops sealed new used d1 where
    "d1 = d\<lparr> db_vtxo_operation := ops \<rparr>" and "evolve_rows (db_vtxo_operation d) ops"
    and "rejectOverlappingVtxoInputs l d1 (vo_OperationID rec) inputs = Inr ()"
    and "rejectConcurrentVtxoOperationLocked l d1 (vo_VaultID rec) (vo_OperationID rec) = Inr ()"
    and "spentInWindow l t2 d1 (vo_VaultID rec) = Inr used"
    and "0 \<le> sint (vo_AmountSats rec) \<and> 0 \<le> sint (vo_FeeSats rec)"
    and "sint used + outflow rec \<le> sint cap"
    and "SealVtxoOperation rec (l_integrityKey l) = Inr sealed"
    and "vo_OperationID rec \<notin> vo_OperationID ` set ops"
    and "d' = d\<lparr> db_vtxo_operation := ops @ [sealed], db_vtxo_operation_input := db_vtxo_operation_input d @ new \<rparr>"
    and "map (\<lambda>i. (vi_Txid i, vi_Vout i)) new = map (\<lambda>i. (vi_Txid i, vi_Vout i)) inputs"
    and "\<forall>i \<in> set new. vi_OperationID i = vo_OperationID rec \<and> VerifyVtxoOperationInput i (l_integrityKey l) = Inr ()"
proof -
  from assms obtain d1 used need key sealed d2 where
    a: "abortExpiredVtxoLocked l d (vo_VaultID rec) t1 = Inr d1" and
    b: "rejectOverlappingVtxoInputs l d1 (vo_OperationID rec) inputs = Inr ()" and
    c: "rejectConcurrentVtxoOperationLocked l d1 (vo_VaultID rec) (vo_OperationID rec) = Inr ()" and
    u: "spentInWindow l t2 d1 (vo_VaultID rec) = Inr used" and
    n: "addOutflow (vo_AmountSats rec) (vo_FeeSats rec) = Inr need" and
    le: "sint used \<le> sint cap" and le': "sint need \<le> sint (cap - used)" and
    k: "integrityKeyCopy l = Inr key" and s: "SealVtxoOperation rec key = Inr sealed" and
    i: "insertVtxoOperation sealed d1 = Inr d2" and
    ins: "insertSealedInputs key (vo_OperationID sealed) inputs d2 = Inr d'"
    unfolding reserveBody_def by (auto simp: res_simps not_less)
  from abortExpired_evolves [OF a] obtain ops where ops: "d1 = d\<lparr> db_vtxo_operation := ops \<rparr>"
    "evolve_rows (db_vtxo_operation d) ops" by blast
  from k have key: "key = l_integrityKey l" by (auto simp: integrityKeyCopy_def split: if_splits)
  have amounts: "0 \<le> sint (vo_AmountSats rec) \<and> 0 \<le> sint (vo_FeeSats rec)"
    using n by (simp add: addOutflow_Inr)
  have need: "sint need = outflow rec" using addOutflow_sint [OF n] by (simp add: outflow_def)
  have used: "0 \<le> sint used"
    using u windowOutflow_nonneg [of d1 "vo_VaultID rec" "l_integrityKey l" t2] by (simp add: spentInWindow_Inr)
  have "sint (cap - used) = sint cap - sint used"
    using le used i64_upper [of cap] i64_lower [of cap] by (intro sint_sub_i64) linarith+
  with le' need have cap: "sint used + outflow rec \<le> sint cap" by simp
  note keeps = SealVtxoOperation_keeps [OF s]
  from insertVtxoOperation_Inr [OF i] have d2: "d2 = d1\<lparr> db_vtxo_operation := db_vtxo_operation d1 @ [sealed] \<rparr>"
    and fresh: "vo_OperationID sealed \<notin> vo_OperationID ` set (db_vtxo_operation d1)" by blast+
  from insertSealedInputs_Inr [OF ins] obtain new where
    new: "d' = d2\<lparr> db_vtxo_operation_input := db_vtxo_operation_input d2 @ new \<rparr>"
    "map (\<lambda>i. (vi_Txid i, vi_Vout i)) new = map (\<lambda>i. (vi_Txid i, vi_Vout i)) inputs"
    "\<forall>i \<in> set new. vi_OperationID i = vo_OperationID sealed \<and> VerifyVtxoOperationInput i key = Inr ()"
    by blast
  show thesis
    by (rule that [OF ops b c u amounts cap]) (use s key fresh ops d2 new keeps in simp_all)
qed

lemma observeAndCommit_cases:
  assumes "observeAndCommit fault cf l d = (r, l')"
  obtains (fail) e fl where "r = Inl e" and "l' = l\<lparr> l_file := fl \<rparr>"
  | (ok) fl where "r = Inr ()" and "l' = l\<lparr> l_file := fl, l_db := d \<rparr>"
      and "observeEconomicOutflowsLocked fault l d = (Inr (), fl)"
proof -
  obtain x fl where o: "observeEconomicOutflowsLocked fault l d = (x, fl)" by fastforce
  show thesis
  proof (cases x)
    case (Inl e)
    with o assms have "r = Inl (Wrapf ''policy sequence'' e)" "l' = l\<lparr> l_file := fl \<rparr>"
      by (simp_all add: observeAndCommit_def)
    then show thesis by (rule fail)
  next
    case (Inr u)
    show thesis
    proof (cases cf)
      case True
      with o Inr assms have "r = Inl ErrIO" "l' = l\<lparr> l_file := fl \<rparr>"
        by (simp_all add: observeAndCommit_def)
      then show thesis by (rule fail)
    next
      case False
      with o Inr assms have "r = Inr ()" "l' = l\<lparr> l_file := fl, l_db := d \<rparr>"
        by (simp_all add: observeAndCommit_def)
      then show thesis using o Inr by (intro ok) simp_all
    qed
  qed
qed

lemma Reserve_cases:
  assumes "ReserveVtxoOperation fault cf t1 t2 l rec inputs cap = (r, l')"
  obtains (fail) e fl where "r = Inl e" and "l' = l\<lparr> l_file := fl \<rparr>"
  | (ok) d fl where "r = Inr ()" and "l' = l\<lparr> l_file := fl, l_db := d \<rparr>" and "vo_State rec = vtxoStateReserved"
      and "reserveBody l t1 t2 rec inputs cap (l_db l) = Inr d"
      and "observeEconomicOutflowsLocked fault l d = (Inr (), fl)"
proof -
  have unchanged: thesis if "r = Inl e" "l' = l" for e
    by (rule fail [of e "l_file l"]) (use that in simp_all)
  show thesis
  proof (cases "vo_OperationID rec = [] \<or> vo_VaultID rec = [] \<or> vo_State rec \<noteq> vtxoStateReserved \<or>
      sint cap < 0 \<or> length inputs = 0 \<or> length inputs > MaxVtxoOperationInputs")
    case True
    then have "\<exists>e. (r, l') = (Inl e, l)" unfolding assms [symmetric] ReserveVtxoOperation_def by auto
    then show thesis using unchanged by blast
  next
    case False
    show thesis
    proof (cases "reserveBody l t1 t2 rec inputs cap (l_db l)")
      case (Inl e)
      with False assms show thesis by (intro unchanged) (auto simp: ReserveVtxoOperation_def)
    next
      case (Inr d)
      with False assms have "observeAndCommit fault cf l d = (r, l')"
        by (simp add: ReserveVtxoOperation_def)
      then show thesis
      proof (cases rule: observeAndCommit_cases)
        case (ok fl)
        with False Inr that(2) show thesis by blast
      qed (rule fail)
    qed
  qed
qed

section \<open>Well-formed tables\<close>

text \<open>What the schema and the ledger's operations keep true of the two tables.\<close>

definition opsInv :: "db \<Rightarrow> bool" where
  "opsInv d \<longleftrightarrow> distinct (map vo_OperationID (db_vtxo_operation d)) \<and>
     (\<forall>i \<in> set (db_vtxo_operation_input d). vi_OperationID i \<in> vo_OperationID ` set (db_vtxo_operation d))"

definition oneActive :: "db \<Rightarrow> bool" where
  "oneActive d \<longleftrightarrow> (\<forall>r \<in> set (db_vtxo_operation d). \<forall>s \<in> set (db_vtxo_operation d).
     vo_VaultID r = vo_VaultID s \<longrightarrow> vtxoStateBlocksNewOperation (vo_State r) \<longrightarrow>
     vtxoStateBlocksNewOperation (vo_State s) \<longrightarrow> r = s)"

text \<open>\<open>locks d o' i\<close>: the stored operation \<open>o'\<close> holds the outpoint of the stored input \<open>i\<close>.\<close>

definition locks :: "db \<Rightarrow> VtxoOperation \<Rightarrow> VtxoOperationInput \<Rightarrow> bool" where
  "locks d o' i \<longleftrightarrow> o' \<in> set (db_vtxo_operation d) \<and> i \<in> set (db_vtxo_operation_input d) \<and>
     vi_OperationID i = vo_OperationID o' \<and> vtxoStateLocksInputs (vo_State o')"

definition noOverlap :: "db \<Rightarrow> bool" where
  "noOverlap d \<longleftrightarrow> (\<forall>r i s j. locks d r i \<longrightarrow> locks d s j \<longrightarrow>
     (vi_Txid i, vi_Vout i) = (vi_Txid j, vi_Vout j) \<longrightarrow> r = s)"

lemma opsInv_evolves:
  assumes "evolve_rows (db_vtxo_operation d) ops" and "opsInv d"
  shows "opsInv (d\<lparr> db_vtxo_operation := ops \<rparr>)"
proof -
  have "vo_OperationID ` set ops = vo_OperationID ` set (db_vtxo_operation d)"
    using evolve_rows_ids [OF assms(1)] by (metis list.set_map)
  with assms(2) evolve_rows_ids [OF assms(1)] show ?thesis by (simp add: opsInv_def)
qed

lemma opsInv_unique:
  "opsInv d \<Longrightarrow> r \<in> set (db_vtxo_operation d) \<Longrightarrow> s \<in> set (db_vtxo_operation d) \<Longrightarrow>
     vo_OperationID r = vo_OperationID s \<Longrightarrow> r = s"
  unfolding opsInv_def by (elim conjE) (rule key_unique [of vo_OperationID "db_vtxo_operation d"])

lemma evolve_rows_distinct:
  assumes "evolve_rows t u" and "distinct (map vo_OperationID t)" and "r \<in> set t" and "s \<in> set t"
    and "evolves r r'" and "evolves s s'" and "r' \<in> set u" and "s' \<in> set u" and "r = s"
  shows "r' = s'"
proof -
  have "distinct (map vo_OperationID u)" using assms(2) evolve_rows_ids [OF assms(1)] by simp
  moreover have "vo_OperationID r' = vo_OperationID s'" using assms(5,6,9) by (simp add: evolves_def)
  ultimately show ?thesis using assms(7,8) key_unique [of vo_OperationID u r' s'] by blast
qed

lemma oneActive_evolves:
  assumes e: "evolve_rows (db_vtxo_operation d) ops" and "opsInv d" and "oneActive d"
  shows "oneActive (d\<lparr> db_vtxo_operation := ops \<rparr>)"
  unfolding oneActive_def
proof (intro ballI impI)
  fix r' s' assume r': "r' \<in> set (db_vtxo_operation (d\<lparr> db_vtxo_operation := ops \<rparr>))"
    and s': "s' \<in> set (db_vtxo_operation (d\<lparr> db_vtxo_operation := ops \<rparr>))"
    and v: "vo_VaultID r' = vo_VaultID s'" and br: "vtxoStateBlocksNewOperation (vo_State r')"
    and bs: "vtxoStateBlocksNewOperation (vo_State s')"
  from r' s' obtain r s where rs: "r \<in> set (db_vtxo_operation d)" "evolves r r'"
    "s \<in> set (db_vtxo_operation d)" "evolves s s'"
    using evolve_rows_back [OF e] by (metis db.select_convs(9) db.surjective db.update_convs(9))
  from rs br bs have "vtxoStateBlocksNewOperation (vo_State r)" "vtxoStateBlocksNewOperation (vo_State s)"
    "vo_VaultID r = vo_VaultID s"
    using v vtxoReaches_blocks by (auto simp: evolves_def)
  with rs assms(3) have "r = s" by (auto simp: oneActive_def)
  with evolve_rows_distinct [OF e _ rs(1,3) rs(2,4)] r' s' assms(2) show "r' = s'"
    by (simp add: opsInv_def)
qed

lemma noOverlap_evolves:
  assumes e: "evolve_rows (db_vtxo_operation d) ops" and "opsInv d" and "noOverlap d"
  shows "noOverlap (d\<lparr> db_vtxo_operation := ops \<rparr>)"
proof -
  have bk: "\<exists>r. locks d r i \<and> evolves r r' \<and> r' \<in> set ops" if "locks (d\<lparr> db_vtxo_operation := ops \<rparr>) r' i" for r' i
  proof -
    from that have r': "r' \<in> set ops" by (simp add: locks_def)
    with evolve_rows_back [OF e] obtain r where "r \<in> set (db_vtxo_operation d)" "evolves r r'" by blast
    with that r' show ?thesis using vtxoReaches_locks by (auto simp: locks_def evolves_def)
  qed
  show ?thesis
    unfolding noOverlap_def
  proof (intro allI impI)
    fix r' i s' j
    assume l: "locks (d\<lparr> db_vtxo_operation := ops \<rparr>) r' i" "locks (d\<lparr> db_vtxo_operation := ops \<rparr>) s' j"
      and eq: "(vi_Txid i, vi_Vout i) = (vi_Txid j, vi_Vout j)"
    from bk [OF l(1)] bk [OF l(2)] obtain r s where
      rs: "locks d r i" "evolves r r'" "r' \<in> set ops" "locks d s j" "evolves s s'" "s' \<in> set ops" by blast
    with eq assms(3) have "r = s" unfolding noOverlap_def by blast
    with rs assms(2) show "r' = s'"
      using evolve_rows_distinct [OF e _ _ _ rs(2,5,3,6)] by (simp add: locks_def opsInv_def)
  qed
qed

section \<open>A reservation keeps the tables well-formed\<close>

lemma rejectConcurrent_Inr:
  assumes "rejectConcurrentVtxoOperationLocked l d v opID = Inr ()" and "r \<in> set (db_vtxo_operation d)"
    and "vo_VaultID r = v" and "vtxoStateBlocksNewOperation (vo_State r)"
  shows "vo_OperationID r = opID"
proof -
  from assms(1) obtain key rows where
    m: "verifiedRows key (filter (\<lambda>r. vo_VaultID r = v) (db_vtxo_operation d)) = Inr rows"
    and no: "\<not> list_ex (\<lambda>r. vo_OperationID r \<noteq> opID \<and> vtxoStateBlocksNewOperation (vo_State r)) rows"
    by (auto simp: rejectConcurrentVtxoOperationLocked_def res_simps split: if_splits)
  from m have "rows = filter (\<lambda>r. vo_VaultID r = v) (db_vtxo_operation d)"
    unfolding verifiedRows_def mapR_iff by (auto simp: res_simps intro!: map_idI)
  with no assms(2-4) show ?thesis by (auto simp: list_ex_iff)
qed

lemma rejectOverlapping_Inr:
  assumes "rejectOverlappingVtxoInputs l d opID inputs = Inr ()" and "locks d r i"
    and "j \<in> set inputs" and "vi_Txid i = vi_Txid j" and "vi_Vout i = vi_Vout j"
  shows "vo_OperationID r = opID"
proof -
  from assms(1) obtain key matches where
    m: "mapR (authenticateMatch key) (overlapJoin d inputs) = Inr matches"
    and each: "eachR (\<lambda>(opID', state). if opID' = opID then Inr ()
          else if vtxoStateLocksInputs state then Inl (Errorf ''vtxo outpoint already reserved'')
          else Inr ()) matches = Inr ()"
    by (auto simp: rejectOverlappingVtxoInputs_def res_simps split: if_splits)
  have "(r, i) \<in> set (overlapJoin d inputs)"
    using assms(2-5) by (auto simp: overlapJoin_def locks_def)
  then obtain k where k: "k < length (overlapJoin d inputs)" "overlapJoin d inputs ! k = (r, i)"
    by (meson in_set_conv_nth)
  from mapR_nth [OF m k(1)] k(2) have "matches ! k = (vo_OperationID r, vo_State r)"
    by (auto simp: authenticateMatch_def res_simps split: if_splits)
  moreover have "matches ! k \<in> set matches" using k(1) mapR_length [OF m] by simp
  ultimately show ?thesis
    using each assms(2) by (auto simp: eachR_iff locks_def split: if_splits)
qed

text \<open>The tables after a reservation, from the tables after the expired ones were aborted.\<close>

lemma reserveBody_invariants:
  assumes body: "reserveBody l t1 t2 rec inputs cap d = Inr d'" and st: "vo_State rec = vtxoStateReserved"
    and inv: "opsInv d" "oneActive d" "noOverlap d"
  shows "opsInv d' \<and> oneActive d' \<and> noOverlap d'"
  using body
proof (rule reserveBody_Inr)
  fix ops sealed new used d1
  assume d1: "d1 = d\<lparr> db_vtxo_operation := ops \<rparr>" and ev: "evolve_rows (db_vtxo_operation d) ops"
    and over: "rejectOverlappingVtxoInputs l d1 (vo_OperationID rec) inputs = Inr ()"
    and conc: "rejectConcurrentVtxoOperationLocked l d1 (vo_VaultID rec) (vo_OperationID rec) = Inr ()"
    and seal: "SealVtxoOperation rec (l_integrityKey l) = Inr sealed"
    and fresh: "vo_OperationID rec \<notin> vo_OperationID ` set ops"
    and d': "d' = d\<lparr> db_vtxo_operation := ops @ [sealed],
      db_vtxo_operation_input := db_vtxo_operation_input d @ new \<rparr>"
    and outp: "map (\<lambda>i. (vi_Txid i, vi_Vout i)) new = map (\<lambda>i. (vi_Txid i, vi_Vout i)) inputs"
    and ids: "\<forall>i \<in> set new. vi_OperationID i = vo_OperationID rec \<and>
      VerifyVtxoOperationInput i (l_integrityKey l) = Inr ()"
  note keeps = SealVtxoOperation_keeps [OF seal]
  have i1: "opsInv d1" "oneActive d1" "noOverlap d1"
    unfolding d1 using ev inv opsInv_evolves oneActive_evolves noOverlap_evolves by blast+
  have ops: "db_vtxo_operation d1 = ops" "db_vtxo_operation_input d1 = db_vtxo_operation_input d"
    by (simp_all add: d1)
  have old_parent: "vi_OperationID i \<noteq> vo_OperationID rec" if "i \<in> set (db_vtxo_operation_input d)" for i
    using that i1(1) fresh unfolding opsInv_def ops by metis
  have "opsInv d'"
    using i1(1) fresh keeps ids by (auto simp: opsInv_def d' ops)
  moreover have "oneActive d'"
    unfolding oneActive_def d'
  proof (intro ballI impI)
    fix r s assume rs: "r \<in> set (db_vtxo_operation (d\<lparr> db_vtxo_operation := ops @ [sealed],
        db_vtxo_operation_input := db_vtxo_operation_input d @ new \<rparr>))"
      "s \<in> set (db_vtxo_operation (d\<lparr> db_vtxo_operation := ops @ [sealed],
        db_vtxo_operation_input := db_vtxo_operation_input d @ new \<rparr>))"
      and v: "vo_VaultID r = vo_VaultID s" and b: "vtxoStateBlocksNewOperation (vo_State r)"
      "vtxoStateBlocksNewOperation (vo_State s)"
    have no: "x \<notin> set ops" if "vo_VaultID x = vo_VaultID rec" "vtxoStateBlocksNewOperation (vo_State x)" for x
      using rejectConcurrent_Inr [OF conc, of x] that fresh by (metis imageI ops(1))
    consider "r \<in> set ops" "s \<in> set ops" | "r = sealed" "s = sealed" | "r = sealed" "s \<in> set ops" | "s = sealed" "r \<in> set ops"
      using rs by auto
    then show "r = s"
    proof cases
      case 1 with i1(2) v b show ?thesis by (auto simp: oneActive_def ops)
    next
      case 3 with no [of s] v b keeps show ?thesis by simp
    next
      case 4 with no [of r] v b keeps show ?thesis by simp
    qed simp
  qed
  moreover have "noOverlap d'"
  proof -
    have split: "locks d1 r i \<and> i \<in> set (db_vtxo_operation_input d) \<or> r = sealed \<and> i \<in> set new"
      if "locks d' r i" for r i
    proof -
      from that have mem: "r \<in> set ops \<or> r = sealed" "i \<in> set (db_vtxo_operation_input d) \<or> i \<in> set new"
        and eq: "vi_OperationID i = vo_OperationID r" and lk: "vtxoStateLocksInputs (vo_State r)"
        by (auto simp: locks_def d')
      show ?thesis
      proof (cases "i \<in> set new")
        case True
        with ids eq fresh mem show ?thesis by auto
      next
        case False
        with mem(2) have i: "i \<in> set (db_vtxo_operation_input d)" by simp
        with old_parent eq keeps mem have "r \<in> set ops" by auto
        with i eq lk show ?thesis by (simp add: locks_def ops)
      qed
    qed
    have cross: False if "locks d1 r i" "j \<in> set new" "(vi_Txid i, vi_Vout i) = (vi_Txid j, vi_Vout j)" for r i j
    proof -
      from that(2) have "(vi_Txid j, vi_Vout j) \<in> set (map (\<lambda>i. (vi_Txid i, vi_Vout i)) inputs)"
        unfolding outp [symmetric] by auto
      then obtain k where "k \<in> set inputs" "vi_Txid j = vi_Txid k" "vi_Vout j = vi_Vout k" by auto
      with rejectOverlapping_Inr [OF over that(1), of k] that(3) have "vo_OperationID r = vo_OperationID rec" by simp
      moreover have "r \<in> set ops" using that(1) by (simp add: locks_def ops)
      ultimately show False using fresh by (metis imageI)
    qed
    show ?thesis
      unfolding noOverlap_def
    proof (intro allI impI)
      fix r i s j assume l: "locks d' r i" "locks d' s j" and eq: "(vi_Txid i, vi_Vout i) = (vi_Txid j, vi_Vout j)"
      from split [OF l(1)] split [OF l(2)] show "r = s"
        using cross [of r i j] cross [of s j i] eq i1(3) unfolding noOverlap_def by metis
    qed
  qed
  ultimately show "opsInv d' \<and> oneActive d' \<and> noOverlap d'" by blast
qed

section \<open>Transitions\<close>

text \<open>The caller's record does not raise the outflow of the row it replaces.\<close>

definition keepsOutflow :: "db \<Rightarrow> VtxoOperation \<Rightarrow> bool" where
  "keepsOutflow d rec \<longleftrightarrow>
     (\<forall>r \<in> set (db_vtxo_operation d). vo_OperationID r = vo_OperationID rec \<longrightarrow> outflow rec \<le> outflow r)"

lemma updateVtxoOperation_evolves:
  assumes "updateVtxoOperation st0 rec d = Inr (n, d')" and "validVtxoTransition st0 (vo_State rec)"
    and "keepsOutflow d rec" and "0 \<le> outflow rec"
  shows "\<exists>ops. d' = d\<lparr> db_vtxo_operation := ops \<rparr> \<and> evolve_rows (db_vtxo_operation d) ops"
proof -
  let ?hit = "\<lambda>r. vo_OperationID r = vo_OperationID rec \<and> vo_VaultID r = vo_VaultID rec \<and> vo_State r = st0"
  have "evolve_rows (db_vtxo_operation d) (update_rows ?hit (\<lambda>_. rec) (db_vtxo_operation d))"
  proof (rule evolve_update_rows)
    fix r assume "r \<in> set (db_vtxo_operation d)" and "?hit r"
    with assms(2-4) terminal_no_transition [of st0 "vo_State rec"] show "evolves r rec"
      by (auto simp: evolves_def keepsOutflow_def)
  qed
  with assms(1) show ?thesis
    by (auto simp: updateVtxoOperation_def Let_def split: if_splits)
qed

lemma keepsOutflow_seal:
  "SealVtxoOperation rec key = Inr s \<Longrightarrow> keepsOutflow d s \<longleftrightarrow> keepsOutflow d rec"
  using SealVtxoOperation_keeps [of rec key s] by (simp add: keepsOutflow_def outflow_def)

lemma Transition_cases:
  assumes "TransitionVtxoOperation l st0 rec = (r, l')"
  obtains (same) "l' = l"
  | (update) s n d where "SealVtxoOperation rec (l_integrityKey l) = Inr s"
      and "validVtxoTransition st0 (vo_State s)" and "updateVtxoOperation st0 s (l_db l) = Inr (n, d)"
      and "l' = l\<lparr> l_db := d \<rparr>"
proof (cases "bindR (integrityKeyCopy l) (SealVtxoOperation rec)")
  case (Inl e)
  with assms same show thesis by (auto simp: TransitionVtxoOperation_def split: if_splits)
next
  case (Inr s)
  then have s: "SealVtxoOperation rec (l_integrityKey l) = Inr s"
    by (auto simp: res_simps integrityKeyCopy_def split: if_splits)
  show thesis
  proof (cases "l' = l")
    case False
    then obtain n d where u: "updateVtxoOperation st0 s (l_db l) = Inr (n, d)" and v: "validVtxoTransition st0 (vo_State rec)"
      using assms Inr unfolding TransitionVtxoOperation_def
      by (cases "updateVtxoOperation st0 s (l_db l)") (auto split: if_splits)
    with False assms Inr have "l' = l\<lparr> l_db := d \<rparr>"
      unfolding TransitionVtxoOperation_def by (auto simp: Let_def split: if_splits sum.splits)
    with update s u v SealVtxoOperation_keeps [OF s] show thesis by simp
  qed (rule same)
qed

lemma CommitSigned_cases:
  assumes "CommitSignedVtxoOperation cf now l rec cid sc = (r, l')"
  obtains (same) "l' = l" and "\<And>s. r \<noteq> Inr (s, True)"
  | (update) s d d' where "SealVtxoOperation rec (l_integrityKey l) = Inr s" and "vo_State s = vtxoStateSigned"
      and "updateVtxoOperation vtxoStateReserved s (l_db l) = Inr (1, d)"
      and "advanceSignCountLocked l now (vo_VaultID s) cid sc d = Inr d'"
      and "l' = l\<lparr> l_db := d' \<rparr>" and "r = Inr (s, True)"
proof -
  have failed: thesis if "(r, l') = (Inl e, l)" for e using that same by blast
  show thesis
  proof (cases "vo_OperationID rec = [] \<or> vo_VaultID rec = [] \<or> length cid = 0 \<or> vo_State rec \<noteq> vtxoStateSigned")
    case True
    then show thesis using assms failed by (auto simp: CommitSignedVtxoOperation_def)
  next
    case valid: False
    show thesis
    proof (cases "bindR (integrityKeyCopy l) (SealVtxoOperation rec)")
      case (Inl e)
      with valid show thesis using assms failed by (auto simp: CommitSignedVtxoOperation_def)
    next
      case sealed: (Inr s)
      then have s: "SealVtxoOperation rec (l_integrityKey l) = Inr s"
        by (auto simp: res_simps integrityKeyCopy_def split: if_splits)
      note run = assms [unfolded CommitSignedVtxoOperation_def if_not_P [OF valid] sealed sum.case]
      show thesis
      proof (cases "updateVtxoOperation vtxoStateReserved s (l_db l)")
        case (Inl e)
        then show thesis using run failed by auto
      next
        case upd: (Inr nd)
        obtain n d where nd: "nd = (n, d)" by fastforce
        note run = run [unfolded upd sum.case nd prod.case]
        show thesis
        proof (cases "n = 1")
          case False
          then have "l' = l \<and> (\<forall>s. r \<noteq> Inr (s, True))"
            using run by (auto split: sum.splits if_splits)
          with same show thesis by blast
        next
          case one: True
          show thesis
          proof (cases "advanceSignCountLocked l now (vo_VaultID s) cid sc d")
            case (Inl e)
            then show thesis using run one failed by auto
          next
            case (Inr d')
            note run = run [unfolded Inr sum.case]
            show thesis
            proof (cases cf)
              case True
              with run one have "(r, l') = (Inl ErrIO, l)" by simp
              then show thesis by (rule failed)
            next
              case False
              with run one have "l' = l\<lparr> l_db := d' \<rparr>" "r = Inr (s, True)" by simp_all
              moreover have "vo_State s = vtxoStateSigned" using valid SealVtxoOperation_keeps [OF s] by simp
              ultimately show thesis using s upd nd one Inr by (intro update) simp_all
            qed
          qed
        qed
      qed
    qed
  qed
qed

end
