(* ===== verification/VtxoRuns.thy ===== *)
theory VtxoRuns
  imports VtxoLedger
begin

text \<open>
  What holds along every run of the spending ledger (\<open>internal/policy/vtxo_ledger.go\<close>): a step
  relation over its state-changing methods with their faults, the invariant of its tables by
  rule induction, and the properties of reserving, advancing and signing an operation.
\<close>

section \<open>Runs of the ledger\<close>

lemma Seal_outflow_nonneg: "SealVtxoOperation rec key = Inr s \<Longrightarrow> 0 \<le> outflow s"
  using SealVtxoOperation_Inr [of rec key s] verified_outflow [of s key] op_seal.seal_verifies [of key rec s] by blast

lemma advanceSignCount_frame:
  "advanceSignCountLocked l now v c n d = Inr d' \<Longrightarrow>
     db_vtxo_operation d' = db_vtxo_operation d \<and> db_vtxo_operation_input d' = db_vtxo_operation_input d"
  by (auto simp: advanceSignCountLocked_def writeSignCount_def upsertSignCount_def Let_def res_simps
      split: option.splits if_splits)

text \<open>
  One step of a run of the ledger, seen from a vault \<open>v\<close> with the enrolled allowance \<open>cap\<close>: time
  passes, an operation is reserved (with \<open>cap\<close> as the allowance when it is for \<open>v\<close>), advanced or
  signed, with any faults, or anything else happens that leaves the two tables alone.
\<close>

inductive vtxoStep :: "string \<Rightarrow> i64 \<Rightarrow> time \<times> Ledger \<Rightarrow> time \<times> Ledger \<Rightarrow> bool" for v cap where
  tick: "t \<le> t' \<Longrightarrow> vtxoStep v cap (t, l) (t', l)"
| reserve: "t \<le> t2 \<Longrightarrow> (vo_VaultID rec = v \<longrightarrow> remaining = cap) \<Longrightarrow>
    ReserveVtxoOperation fault cf t1 t2 l rec inputs remaining = (r, l') \<Longrightarrow> vtxoStep v cap (t, l) (t2, l')"
| transition: "keepsOutflow (l_db l) rec \<Longrightarrow> TransitionVtxoOperation l st0 rec = (r', l') \<Longrightarrow>
    vtxoStep v cap (t, l) (t, l')"
| commit: "keepsOutflow (l_db l) rec \<Longrightarrow> CommitSignedVtxoOperation cf now l rec cid sc = (r', l') \<Longrightarrow>
    vtxoStep v cap (t, l) (t, l')"
| frame: "db_vtxo_operation (l_db l') = db_vtxo_operation (l_db l) \<Longrightarrow>
    db_vtxo_operation_input (l_db l') = db_vtxo_operation_input (l_db l) \<Longrightarrow> vtxoStep v cap (t, l) (t, l')"

inductive_cases vtxoStepE: "vtxoStep v cap s s'"

text \<open>What an operation holds of the allowance: all of an active one, a settled one while in the window.\<close>

definition held :: "time \<Rightarrow> VtxoOperation \<Rightarrow> bool" where
  "held now r \<longleftrightarrow> vtxoStateBlocksNewOperation (vo_State r) \<or> vo_State r = vtxoStateFinalized \<and> charged now r"

definition heldOutflow :: "time \<Rightarrow> string \<Rightarrow> VtxoOperation list \<Rightarrow> int" where
  "heldOutflow now v ops = sum_list (map outflow (filter (\<lambda>r. vo_VaultID r = v \<and> held now r) ops))"

lemma charged_held: "charged now r \<Longrightarrow> held now r"
  by (auto simp: held_def charged_def vtxo_state_defs)

lemma held_antimono: "t \<le> t' \<Longrightarrow> held t' r \<Longrightarrow> held t r"
  by (auto simp: held_def charged_def split: option.splits)

lemma vtxoReaches_finalized:
  "vtxoReaches a b \<Longrightarrow> b = vtxoStateFinalized \<Longrightarrow> a = vtxoStateFinalized \<or> vtxoStateBlocksNewOperation a"
  by (induction rule: converse_rtranclp_induct) (auto simp: validVtxoTransition_iff vtxoStateBlocksNewOperation_def)

lemma evolves_held: "evolves r r' \<Longrightarrow> held now r' \<Longrightarrow> held now r"
proof -
  assume e: "evolves r r'" and h: "held now r'"
  from h consider "vtxoStateBlocksNewOperation (vo_State r')" | "vo_State r' = vtxoStateFinalized"
    unfolding held_def by blast
  then have "vo_State r = vtxoStateFinalized \<or> vtxoStateBlocksNewOperation (vo_State r)"
    using e vtxoReaches_blocks vtxoReaches_finalized unfolding evolves_def by cases blast+
  moreover have "r' = r" if "vo_State r = vtxoStateFinalized"
    using e that by (simp add: evolves_def vtxoTerminal_def)
  ultimately show "held now r" using h unfolding held_def by blast
qed

lemma heldOutflow_evolves:
  assumes "evolve_rows ops ops'" and "\<forall>r \<in> set ops. 0 \<le> outflow r"
  shows "heldOutflow now v ops' \<le> heldOutflow now v ops"
  using assms
proof (induction rule: list_all2_induct)
  case (Cons r rs r' rs')
  then have "heldOutflow now v rs' \<le> heldOutflow now v rs" by simp
  moreover have "outflow r' \<le> outflow r" "vo_VaultID r' = vo_VaultID r" "held now r' \<Longrightarrow> held now r" "0 \<le> outflow r"
    using Cons.hyps(1) evolves_held Cons.prems by (auto simp: evolves_def)
  ultimately show ?case by (auto simp: heldOutflow_def)
qed (simp add: heldOutflow_def)

lemma heldOutflow_antimono:
  assumes "t \<le> t'" and "\<forall>r \<in> set ops. 0 \<le> outflow r"
  shows "heldOutflow t' v ops \<le> heldOutflow t v ops"
  unfolding heldOutflow_def using assms held_antimono by (intro sum_list_filter_le) auto

lemma windowOutflow_le_held:
  "\<forall>r \<in> set (db_vtxo_operation d). 0 \<le> outflow r \<Longrightarrow>
     windowOutflow now v d \<le> heldOutflow now v (db_vtxo_operation d)"
  unfolding windowOutflow_def heldOutflow_def using charged_held by (intro sum_list_filter_le) auto

text \<open>The invariant of a run.\<close>

definition vtxoInv :: "string \<Rightarrow> i64 \<Rightarrow> time \<times> Ledger \<Rightarrow> bool" where
  "vtxoInv v cap s \<longleftrightarrow> (case s of (t, l) \<Rightarrow> let d = l_db l in
     opsInv d \<and> oneActive d \<and> noOverlap d \<and> (\<forall>r \<in> set (db_vtxo_operation d). 0 \<le> outflow r) \<and>
     heldOutflow t v (db_vtxo_operation d) \<le> sint cap)"

lemma evolve_nonneg:
  "evolve_rows ops ops' \<Longrightarrow> \<forall>r \<in> set ops. 0 \<le> outflow r \<Longrightarrow> \<forall>r \<in> set ops'. 0 \<le> outflow r"
  using evolve_rows_back by (fastforce simp: evolves_def)

lemma tables_frame:
  assumes "db_vtxo_operation d' = db_vtxo_operation d" and "db_vtxo_operation_input d' = db_vtxo_operation_input d"
  shows "opsInv d' = opsInv d" and "oneActive d' = oneActive d" and "noOverlap d' = noOverlap d"
proof -
  have "locks d' = locks d" using assms by (intro ext) (simp add: locks_def)
  then show "noOverlap d' = noOverlap d" by (simp add: noOverlap_def)
qed (simp_all add: opsInv_def oneActive_def assms)

lemma vtxoInv_frame:
  assumes "vtxoInv v cap (t, l)" and "db_vtxo_operation (l_db l') = db_vtxo_operation (l_db l)"
    and "db_vtxo_operation_input (l_db l') = db_vtxo_operation_input (l_db l)"
  shows "vtxoInv v cap (t, l')"
  using assms tables_frame [OF assms(2,3)] by (simp add: vtxoInv_def Let_def)

lemma vtxoInv_tick:
  "vtxoInv v cap (t, l) \<Longrightarrow> t \<le> t' \<Longrightarrow> vtxoInv v cap (t', l)"
  using heldOutflow_antimono [of t t' "db_vtxo_operation (l_db l)" v]
  by (auto simp: vtxoInv_def Let_def)

lemma vtxoInv_evolve:
  assumes "vtxoInv v cap (t, l)" and "evolve_rows (db_vtxo_operation (l_db l)) ops"
  shows "vtxoInv v cap (t, l\<lparr> l_db := l_db l\<lparr> db_vtxo_operation := ops \<rparr> \<rparr>)"
  using assms opsInv_evolves oneActive_evolves noOverlap_evolves evolve_nonneg
    heldOutflow_evolves [OF assms(2), of t v]
  by (auto simp: vtxoInv_def Let_def)

lemma vtxoInv_reserve:
  assumes inv: "vtxoInv v cap (t, l)" and "t \<le> t2" and cap: "vo_VaultID rec = v \<longrightarrow> remaining = cap"
    and body: "reserveBody l t1 t2 rec inputs remaining (l_db l) = Inr d'" and st: "vo_State rec = vtxoStateReserved"
  shows "vtxoInv v cap (t2, l\<lparr> l_db := d' \<rparr>)"
  using body
proof (rule reserveBody_Inr)
  fix ops sealed new used d1
  assume d1: "d1 = l_db l\<lparr> db_vtxo_operation := ops \<rparr>" and ev: "evolve_rows (db_vtxo_operation (l_db l)) ops"
    and conc: "rejectConcurrentVtxoOperationLocked l d1 (vo_VaultID rec) (vo_OperationID rec) = Inr ()"
    and spent: "spentInWindow l t2 d1 (vo_VaultID rec) = Inr used"
    and le: "sint used + outflow rec \<le> sint remaining"
    and seal: "SealVtxoOperation rec (l_integrityKey l) = Inr sealed"
    and fresh: "vo_OperationID rec \<notin> vo_OperationID ` set ops"
    and d': "d' = l_db l\<lparr> db_vtxo_operation := ops @ [sealed],
      db_vtxo_operation_input := db_vtxo_operation_input (l_db l) @ new \<rparr>"
  note keeps = SealVtxoOperation_keeps [OF seal]
  have tables: "opsInv d'" "oneActive d'" "noOverlap d'"
    using reserveBody_invariants [OF body st] inv by (simp_all add: vtxoInv_def Let_def)
  have inv2: "vtxoInv v cap (t2, l\<lparr> l_db := l_db l\<lparr> db_vtxo_operation := ops \<rparr> \<rparr>)"
    using vtxoInv_evolve [OF vtxoInv_tick [OF inv \<open>t \<le> t2\<close>] ev] .
  then have nn: "\<forall>r \<in> set ops. 0 \<le> outflow r" and held: "heldOutflow t2 v ops \<le> sint cap"
    by (simp_all add: vtxoInv_def Let_def)
  have sealed: "outflow sealed = outflow rec" "held t2 sealed" "vo_VaultID sealed = vo_VaultID rec"
    using keeps st by (simp_all add: outflow_def held_def vtxoStateBlocksNewOperation_def)
  have new: "heldOutflow t2 v (ops @ [sealed]) \<le> sint cap"
  proof (cases "vo_VaultID rec = v")
    case False
    with held sealed show ?thesis by (simp add: heldOutflow_def)
  next
    case True
    have "filter (\<lambda>r. vo_VaultID r = v \<and> held t2 r) ops = filter (\<lambda>r. vo_VaultID r = v \<and> charged t2 r) ops"
    proof (rule filter_cong [OF refl])
      fix r assume r: "r \<in> set ops"
      have ops: "db_vtxo_operation d1 = ops" by (simp add: d1)
      have "\<not> vtxoStateBlocksNewOperation (vo_State r)" if "vo_VaultID r = v"
        using rejectConcurrent_Inr [OF conc, unfolded ops, OF r] that True r fresh by (metis imageI)
      then show "(vo_VaultID r = v \<and> held t2 r) = (vo_VaultID r = v \<and> charged t2 r)"
        using charged_held by (auto simp: held_def)
    qed
    then have "heldOutflow t2 v ops = sint used"
      using spent True by (simp add: heldOutflow_def spentInWindow_Inr windowOutflow_def d1)
    with le sealed True cap show ?thesis by (simp add: heldOutflow_def)
  qed
  show "vtxoInv v cap (t2, l\<lparr> l_db := d' \<rparr>)"
    using tables new nn Seal_outflow_nonneg [OF seal] by (auto simp: vtxoInv_def Let_def d')
qed

theorem vtxoStep_invariant:
  assumes "vtxoStep v cap s s'" and "vtxoInv v cap s"
  shows "vtxoInv v cap s'"
  using assms
proof (induction rule: vtxoStep.induct)
  case (tick t t' l)
  then show ?case by (blast intro: vtxoInv_tick)
next
  case (reserve t t2 rec remaining fault cf t1 l inputs r l')
  from reserve.hyps(3) show ?case
  proof (cases rule: Reserve_cases)
    case (fail e fl)
    with reserve show ?thesis by (auto intro: vtxoInv_frame vtxoInv_tick)
  next
    case (ok d fl)
    from vtxoInv_reserve [OF reserve.prems reserve.hyps(1,2) ok(4,3)] ok show ?thesis
      by (auto intro: vtxoInv_frame)
  qed
next
  case (transition l rec st0 r' l' t)
  from transition.hyps(2) show ?case
  proof (cases rule: Transition_cases)
    case (update s n d)
    have "keepsOutflow (l_db l) s" using transition.hyps(1) keepsOutflow_seal [OF update(1)] by simp
    from updateVtxoOperation_evolves [OF update(3,2) this Seal_outflow_nonneg [OF update(1)]]
    show ?thesis using vtxoInv_evolve [OF transition.prems] update(4) by auto
  qed (use transition in simp)
next
  case (commit l rec cf now cid sc r' l' t)
  from commit.hyps(2) show ?case
  proof (cases rule: CommitSigned_cases)
    case (update s d d')
    have k: "keepsOutflow (l_db l) s" using commit.hyps(1) keepsOutflow_seal [OF update(1)] by simp
    have v: "validVtxoTransition vtxoStateReserved (vo_State s)" using update(2) by (simp add: validVtxoTransition_iff)
    from updateVtxoOperation_evolves [OF update(3) v k Seal_outflow_nonneg [OF update(1)]] obtain ops where
      "d = l_db l\<lparr> db_vtxo_operation := ops \<rparr>" "evolve_rows (db_vtxo_operation (l_db l)) ops" by blast
    with vtxoInv_evolve [OF commit.prems] have "vtxoInv v cap (t, l\<lparr> l_db := d \<rparr>)" by simp
    with advanceSignCount_frame [OF update(4)] update(5) show ?thesis by (auto intro: vtxoInv_frame)
  qed (use commit in simp)
next
  case (frame l' l t)
  then show ?case by (blast intro: vtxoInv_frame)
qed

lemma vtxoRun_invariant:
  assumes "(vtxoStep v cap)\<^sup>*\<^sup>* s s'" and "vtxoInv v cap s"
  shows "vtxoInv v cap s'"
  using assms by (induction rule: rtranclp_induct) (auto intro: vtxoStep_invariant)

section \<open>A reservation that is due succeeds\<close>

lemma abortExpired_none:
  assumes "length (l_integrityKey l) = 32" and "\<forall>r \<in> set (db_vtxo_operation d). vo_VaultID r = v \<longrightarrow> vo_State r \<noteq> vtxoStateReserved"
  shows "abortExpiredVtxoLocked l d v now = Inr d"
proof -
  have "filter (\<lambda>r. vo_VaultID r = v \<and> vo_State r = vtxoStateReserved \<and> vo_ExpiresAt r \<noteq> [] \<and>
      vo_ExpiresAt r \<le> formatRFC3339 now) (db_vtxo_operation d) = []"
    using assms(2) by (auto simp: filter_empty_conv)
  then show ?thesis using assms(1) by (simp add: abortExpiredVtxoLocked_def integrityKeyCopy_def)
qed

lemma rejectOverlapping_none:
  assumes "length (l_integrityKey l) = 32" and "inputs \<noteq> []" and "length inputs \<le> MaxVtxoOperationInputs"
    and "\<forall>r \<in> set (db_vtxo_operation d). VerifyVtxoOperation r (l_integrityKey l) = Inr ()"
    and "\<forall>i \<in> set (db_vtxo_operation_input d). VerifyVtxoOperationInput i (l_integrityKey l) = Inr ()"
    and "\<forall>r i j. locks d r i \<longrightarrow> j \<in> set inputs \<longrightarrow> (vi_Txid i, vi_Vout i) \<noteq> (vi_Txid j, vi_Vout j)"
  shows "rejectOverlappingVtxoInputs l d opID inputs = Inr ()"
proof -
  let ?join = "overlapJoin d inputs"
  have m: "authenticateMatch (l_integrityKey l) (r, i) = Inr (vo_OperationID r, vo_State r) \<and>
      \<not> vtxoStateLocksInputs (vo_State r)" if "(r, i) \<in> set ?join" for r i
  proof -
    from that have ri: "r \<in> set (db_vtxo_operation d)" "i \<in> set (db_vtxo_operation_input d)"
      "vo_OperationID r = vi_OperationID i" "\<exists>j \<in> set inputs. vi_Txid i = vi_Txid j \<and> vi_Vout i = vi_Vout j"
      by (auto simp: overlapJoin_def)
    then have "authenticateMatch (l_integrityKey l) (r, i) = Inr (vo_OperationID r, vo_State r)"
      using assms(4,5) by (simp add: authenticateMatch_def)
    moreover have "\<not> vtxoStateLocksInputs (vo_State r)"
    proof
      assume "vtxoStateLocksInputs (vo_State r)"
      with ri(1-3) have "locks d r i" by (simp add: locks_def)
      with assms(6) ri(4) show False by blast
    qed
    ultimately show ?thesis ..
  qed
  have "\<forall>x \<in> set ?join. \<exists>y. authenticateMatch (l_integrityKey l) x = Inr y"
    using m by (metis surj_pair)
  then obtain ms where ms: "mapR (authenticateMatch (l_integrityKey l)) ?join = Inr ms"
    unfolding mapR_iff by blast
  have "\<not> vtxoStateLocksInputs (snd y)" if y: "y \<in> set ms" for y
  proof -
    from mapR_set [OF ms y] obtain x where "x \<in> set ?join" "authenticateMatch (l_integrityKey l) x = Inr y" by blast
    with m [of "fst x" "snd x"] show ?thesis by auto
  qed
  then have "eachR (\<lambda>(opID', state). if opID' = opID then Inr ()
          else if vtxoStateLocksInputs state then Inl (Errorf ''vtxo outpoint already reserved'')
          else Inr ()) ms = Inr ()"
    by (auto simp: eachR_iff)
  with ms assms(1-3) show ?thesis
    by (simp add: rejectOverlappingVtxoInputs_def integrityKeyCopy_def)
qed

lemma rejectConcurrent_none:
  assumes "length (l_integrityKey l) = 32"
    and "\<forall>r \<in> set (db_vtxo_operation d). VerifyVtxoOperation r (l_integrityKey l) = Inr ()"
    and "\<forall>r \<in> set (db_vtxo_operation d). vo_VaultID r = v \<longrightarrow> \<not> vtxoStateBlocksNewOperation (vo_State r)"
  shows "rejectConcurrentVtxoOperationLocked l d v opID = Inr ()"
proof -
  have "verifiedRows (l_integrityKey l) (filter (\<lambda>r. vo_VaultID r = v) (db_vtxo_operation d)) =
      Inr (filter (\<lambda>r. vo_VaultID r = v) (db_vtxo_operation d))"
    using assms(2) by (auto simp: verifiedRows_def mapR_iff intro!: sym [OF map_idI])
  with assms(1,3) show ?thesis
    by (auto simp: rejectConcurrentVtxoOperationLocked_def integrityKeyCopy_def list_ex_iff)
qed

lemma insertSealedInputs_ok:
  assumes "\<forall>i \<in> set is. \<exists>s. SealVtxoOperationInput (i\<lparr> vi_OperationID := opID \<rparr>) key = Inr s"
    and "\<forall>i \<in> set is. length (vi_Txid i) = 32"
    and "distinct (map (\<lambda>i. (vi_Txid i, vi_Vout i)) is)"
    and "\<forall>i \<in> set is. \<forall>j \<in> set (db_vtxo_operation_input d). vi_OperationID j = opID \<longrightarrow>
      (vi_Txid i, vi_Vout i) \<noteq> (vi_Txid j, vi_Vout j)"
    and "opID \<in> vo_OperationID ` set (db_vtxo_operation d)"
  shows "\<exists>d'. insertSealedInputs key opID is d = Inr d'"
  using assms
proof (induction "is" arbitrary: d)
  case (Cons i "is")
  from Cons.prems(1) obtain s where s: "SealVtxoOperationInput (i\<lparr> vi_OperationID := opID \<rparr>) key = Inr s" by auto
  then have f: "vi_OperationID s = opID" "vi_Txid s = vi_Txid i" "vi_Vout s = vi_Vout i"
    and mac: "length (vi_IntegrityMAC s) = 32" and nn: "0 \<le> sint (vi_Vout s)" "0 \<le> sint (vi_ValueSats s)"
    by (auto simp: SealVtxoOperationInput_def vtxoOperationInputMAC_def canonicalVtxoOperationInput_def res_simps
        split: if_splits)
  let ?d = "d\<lparr> db_vtxo_operation_input := db_vtxo_operation_input d @ [s] \<rparr>"
  have "find_row (\<lambda>r. vo_OperationID r = vi_OperationID s) (db_vtxo_operation d) \<noteq> None"
    using Cons.prems(5) f by (auto simp: find_row_None)
  then have ins: "insertVtxoOperationInput s d = Inr ?d"
    using f mac nn Cons.prems(2,4)
    by (auto simp: insertVtxoOperationInput_def insertInto_def find_row_None)
  have "\<exists>d'. insertSealedInputs key opID is ?d = Inr d'"
  proof (rule Cons.IH)
    have "(vi_Txid i, vi_Vout i) \<notin> (\<lambda>i. (vi_Txid i, vi_Vout i)) ` set is" using Cons.prems(3) by simp
    then have "\<forall>j \<in> set is. (vi_Txid j, vi_Vout j) \<noteq> (vi_Txid s, vi_Vout s)"
      unfolding f by (metis (no_types, lifting) image_eqI)
    with Cons.prems(4) show "\<forall>i \<in> set is. \<forall>j \<in> set (db_vtxo_operation_input ?d). vi_OperationID j = opID \<longrightarrow>
      (vi_Txid i, vi_Vout i) \<noteq> (vi_Txid j, vi_Vout j)" by auto
  qed (use Cons.prems in auto)
  with s ins show ?case by simp
qed simp

text \<open>What a reservation needs of the stored tables.\<close>

definition reserveReady :: "Ledger \<Rightarrow> time \<Rightarrow> VtxoOperation \<Rightarrow> VtxoOperationInput list \<Rightarrow> i64 \<Rightarrow> bool" where
  "reserveReady l now rec inputs cap \<longleftrightarrow> (let d = l_db l; key = l_integrityKey l in
     length key = 32 \<and>
     (\<forall>r \<in> set (db_vtxo_operation d). VerifyVtxoOperation r key = Inr () \<and> parseRFC3339 (vo_CreatedAt r) \<noteq> None) \<and>
     (\<forall>i \<in> set (db_vtxo_operation_input d). VerifyVtxoOperationInput i key = Inr ()) \<and>
     (\<forall>r \<in> set (db_vtxo_operation d). vo_OperationID r \<noteq> vo_OperationID rec \<and>
        (vo_VaultID r = vo_VaultID rec \<longrightarrow> \<not> vtxoStateBlocksNewOperation (vo_State r))) \<and>
     (\<forall>r i j. locks d r i \<longrightarrow> j \<in> set inputs \<longrightarrow> (vi_Txid i, vi_Vout i) \<noteq> (vi_Txid j, vi_Vout j)) \<and>
     (\<exists>v \<in> set (db_vault d). vr_VaultID v = vo_VaultID rec) \<and>
     windowOutflow now (vo_VaultID rec) d + outflow rec \<le> sint cap)"

text \<open>What it needs of the request: an operation and inputs that can be sealed and stored.\<close>

definition requestReady :: "bytes \<Rightarrow> VtxoOperation \<Rightarrow> VtxoOperationInput list \<Rightarrow> bool" where
  "requestReady key rec inputs \<longleftrightarrow>
     vo_OperationID rec \<noteq> [] \<and> vo_VaultID rec \<noteq> [] \<and> vo_State rec = vtxoStateReserved \<and>
     (\<exists>s. SealVtxoOperation rec key = Inr s \<and> vtxo_operation_check s) \<and>
     inputs \<noteq> [] \<and> length inputs \<le> MaxVtxoOperationInputs \<and> distinct (map (\<lambda>i. (vi_Txid i, vi_Vout i)) inputs) \<and>
     (\<forall>i \<in> set inputs. length (vi_Txid i) = 32 \<and>
        (\<exists>s. SealVtxoOperationInput (i\<lparr> vi_OperationID := vo_OperationID rec \<rparr>) key = Inr s))"

lemma reserveBody_ok:
  assumes "reserveReady l t2 rec inputs cap" and "requestReady (l_integrityKey l) rec inputs" and "opsInv (l_db l)"
  shows "\<exists>d. reserveBody l t1 t2 rec inputs cap (l_db l) = Inr d"
proof -
  let ?d = "l_db l" and ?key = "l_integrityKey l"
  from assms(1) have key: "length ?key = 32"
    and ver: "\<forall>r \<in> set (db_vtxo_operation ?d). VerifyVtxoOperation r ?key = Inr ()"
    and parse: "\<forall>r \<in> set (db_vtxo_operation ?d). parseRFC3339 (vo_CreatedAt r) \<noteq> None"
    and veri: "\<forall>i \<in> set (db_vtxo_operation_input ?d). VerifyVtxoOperationInput i ?key = Inr ()"
    and fresh: "\<forall>r \<in> set (db_vtxo_operation ?d). vo_OperationID r \<noteq> vo_OperationID rec"
    and idle: "\<forall>r \<in> set (db_vtxo_operation ?d). vo_VaultID r = vo_VaultID rec \<longrightarrow> \<not> vtxoStateBlocksNewOperation (vo_State r)"
    and free: "\<forall>r i j. locks ?d r i \<longrightarrow> j \<in> set inputs \<longrightarrow> (vi_Txid i, vi_Vout i) \<noteq> (vi_Txid j, vi_Vout j)"
    and vault: "\<exists>v \<in> set (db_vault ?d). vr_VaultID v = vo_VaultID rec"
    and fits: "windowOutflow t2 (vo_VaultID rec) ?d + outflow rec \<le> sint cap"
    by (simp_all add: reserveReady_def Let_def)
  from assms(2) obtain s where s: "SealVtxoOperation rec ?key = Inr s" "vtxo_operation_check s"
    and inputs: "inputs \<noteq> []" "length inputs \<le> MaxVtxoOperationInputs"
      "distinct (map (\<lambda>i. (vi_Txid i, vi_Vout i)) inputs)" "\<forall>i \<in> set inputs. length (vi_Txid i) = 32"
      "\<forall>i \<in> set inputs. \<exists>s. SealVtxoOperationInput (i\<lparr> vi_OperationID := vo_OperationID rec \<rparr>) ?key = Inr s"
    unfolding requestReady_def by blast
  note keeps = SealVtxoOperation_keeps [OF s(1)]
  let ?w = "windowOutflow t2 (vo_VaultID rec) ?d" and ?d1 = "?d\<lparr> db_vtxo_operation := db_vtxo_operation ?d @ [s] \<rparr>"
  have am: "0 \<le> sint (vo_AmountSats rec)" "0 \<le> sint (vo_FeeSats rec)"
    using s(2) keeps by (simp_all add: vtxo_operation_check_def)
  then have nn: "0 \<le> outflow rec" by (simp add: outflow_def)
  have w: "0 \<le> ?w" unfolding windowOutflow_def using ver by (rule charged_outflow_nonneg)
  have lim: "?w < 2 ^ 63" "outflow rec < 2 ^ 63" using fits nn w i64_upper [of cap] by linarith+
  obtain used where used: "used = (word_of_int ?w :: i64)" by blast
  have su: "sint used = ?w" unfolding used using w lim(1) by (rule sint_of_int_i64)
  have spent: "spentInWindow l t2 ?d (vo_VaultID rec) = Inr used"
    using key ver parse lim(1) su by (simp add: spentInWindow_Inr)
  have need: "addOutflow (vo_AmountSats rec) (vo_FeeSats rec) = Inr (vo_AmountSats rec + vo_FeeSats rec)"
    using am lim(2) by (simp add: addOutflow_Inr outflow_def)
  have sneed: "sint (vo_AmountSats rec + vo_FeeSats rec) = outflow rec"
    unfolding outflow_def by (rule addOutflow_sint [OF need])
  have rest: "sint (cap - used) = sint cap - ?w"
    unfolding su [symmetric] using su w fits nn i64_upper [of cap] by (intro sint_sub_i64) linarith+
  have ins: "insertVtxoOperation s ?d = Inr ?d1"
    using s(2) fresh vault keeps by (auto simp: insertVtxoOperation_def insertInto_def find_row_None)
  have "\<exists>d'. insertSealedInputs ?key (vo_OperationID s) inputs ?d1 = Inr d'"
  proof (rule insertSealedInputs_ok)
    show "\<forall>i \<in> set inputs. \<forall>j \<in> set (db_vtxo_operation_input ?d1). vi_OperationID j = vo_OperationID s \<longrightarrow>
      (vi_Txid i, vi_Vout i) \<noteq> (vi_Txid j, vi_Vout j)"
      using assms(3) fresh keeps by (auto simp: opsInv_def)
  qed (use inputs keeps in auto)
  then obtain d' where d': "insertSealedInputs ?key (vo_OperationID s) inputs ?d1 = Inr d'" ..
  have res: "\<forall>r \<in> set (db_vtxo_operation ?d). vo_VaultID r = vo_VaultID rec \<longrightarrow> vo_State r \<noteq> vtxoStateReserved"
    using idle by (auto simp: vtxoStateBlocksNewOperation_def)
  have "\<not> sint used > sint cap" "\<not> sint (vo_AmountSats rec + vo_FeeSats rec) > sint (cap - used)"
    using su sneed rest fits nn by linarith+
  then have "reserveBody l t1 t2 rec inputs cap ?d = Inr d'"
    unfolding reserveBody_def
    by (simp only: abortExpired_none [OF key res] rejectOverlapping_none [OF key inputs(1,2) ver veri free]
        rejectConcurrent_none [OF key ver idle] spent need bindR_Inr if_False integrityKeyCopy_def key s(1) ins d'
        simp_thms)
  then show ?thesis ..
qed

lemma reserve_appends:
  assumes "ReserveVtxoOperation fault cf t1 t2 l rec inputs cap = (r, l')"
  shows "\<exists>ops new. evolve_rows (db_vtxo_operation (l_db l)) ops \<and> db_vtxo_operation (l_db l') = ops @ new"
  using assms
proof (cases rule: Reserve_cases)
  case (fail e fl)
  then show ?thesis by (intro exI [of _ "db_vtxo_operation (l_db l)"] exI [of _ "[]"]) simp
next
  case (ok d fl)
  from ok(4) obtain ops s new where "evolve_rows (db_vtxo_operation (l_db l)) ops"
    "d = l_db l\<lparr> db_vtxo_operation := ops @ [s], db_vtxo_operation_input := db_vtxo_operation_input (l_db l) @ new \<rparr>"
    by (rule reserveBody_Inr)
  with ok(2) show ?thesis by auto
qed

lemma transition_evolves:
  assumes "keepsOutflow (l_db l) rec" and "TransitionVtxoOperation l st0 rec = (r, l')"
  shows "\<exists>ops. evolve_rows (db_vtxo_operation (l_db l)) ops \<and> db_vtxo_operation (l_db l') = ops"
  using assms(2)
proof (cases rule: Transition_cases)
  case (update s n d)
  have "keepsOutflow (l_db l) s" using assms(1) keepsOutflow_seal [OF update(1)] by simp
  from updateVtxoOperation_evolves [OF update(3,2) this Seal_outflow_nonneg [OF update(1)]] update(4)
  show ?thesis by auto
qed simp

lemma commit_evolves:
  assumes "keepsOutflow (l_db l) rec" and "CommitSignedVtxoOperation cf now l rec cid sc = (r, l')"
  shows "\<exists>ops. evolve_rows (db_vtxo_operation (l_db l)) ops \<and> db_vtxo_operation (l_db l') = ops"
  using assms(2)
proof (cases rule: CommitSigned_cases)
  case (update s d d')
  have k: "keepsOutflow (l_db l) s" using assms(1) keepsOutflow_seal [OF update(1)] by simp
  have v: "validVtxoTransition vtxoStateReserved (vo_State s)" using update(2) by (simp add: validVtxoTransition_iff)
  from updateVtxoOperation_evolves [OF update(3) v k Seal_outflow_nonneg [OF update(1)]]
    advanceSignCount_frame [OF update(4)] update(5) show ?thesis by auto
qed simp

lemma vtxoStep_evolves:
  "vtxoStep v cap s s' \<Longrightarrow> \<exists>ops new. evolve_rows (db_vtxo_operation (l_db (snd s))) ops \<and>
     db_vtxo_operation (l_db (snd s')) = ops @ new"
proof (induction rule: vtxoStep.induct)
  case (reserve t t2 rec remaining fault cf t1 l inputs r l')
  then show ?case using reserve_appends by simp
next
  case (transition l rec st0 r' l' t)
  then show ?case using transition_evolves by (metis append_Nil2 snd_conv)
next
  case (commit l rec cf now cid sc r' l' t)
  then show ?case using commit_evolves by (metis append_Nil2 snd_conv)
qed (metis append_Nil2 evolve_rows_refl snd_conv)+

lemma vtxoRun_evolves:
  assumes "(vtxoStep v cap)\<^sup>*\<^sup>* s s'" and "r \<in> set (db_vtxo_operation (l_db (snd s)))"
  shows "\<exists>r' \<in> set (db_vtxo_operation (l_db (snd s'))). evolves r r'"
  using assms
proof (induction rule: rtranclp_induct)
  case (step s1 s2)
  then obtain r1 where r1: "r1 \<in> set (db_vtxo_operation (l_db (snd s1)))" "evolves r r1" by blast
  from vtxoStep_evolves [OF step.hyps(2)] obtain ops new where
    "evolve_rows (db_vtxo_operation (l_db (snd s1))) ops" "db_vtxo_operation (l_db (snd s2)) = ops @ new" by blast
  moreover from this(1) r1(1) obtain r2 where "r2 \<in> set ops" "evolves r1 r2"
    using evolve_rows_forth by blast
  ultimately have "r2 \<in> set (db_vtxo_operation (l_db (snd s2)))" "evolves r1 r2" by simp_all
  with r1(2) evolves_trans show ?case by blast
qed (use evolves_refl in blast)

section \<open>Reservations and the sequence\<close>

lemma evolve_rows_length: "evolve_rows t u \<Longrightarrow> length u = length t"
  by (simp add: list_all2_lengthD)

lemma reserveBody_rows:
  "reserveBody l t1 t2 rec inputs cap d = Inr d' \<Longrightarrow> outflowRows d' = Suc (outflowRows d)"
  by (erule reserveBody_Inr) (auto simp: outflowRows_def dest: evolve_rows_length)

lemma Reserve_body:
  assumes "ReserveVtxoOperation fault cf t1 t2 l rec inputs cap = (r, l')"
  obtains (refused) e where "r = Inl e" and "l' = l"
  | (body) d where "reserveBody l t1 t2 rec inputs cap (l_db l) = Inr d" and "observeAndCommit fault cf l d = (r, l')"
  using assms by (auto simp: ReserveVtxoOperation_def split: if_splits sum.splits)

section \<open>A concrete run\<close>

lemma vtxoInv_empty:
  "db_vtxo_operation (l_db l) = [] \<Longrightarrow> db_vtxo_operation_input (l_db l) = [] \<Longrightarrow> 0 \<le> sint cap \<Longrightarrow> vtxoInv v cap (t, l)"
  by (simp add: vtxoInv_def opsInv_def oneActive_def noOverlap_def locks_def heldOutflow_def Let_def)

lemma exRequest: "requestReady exKey exOperation [exInput]"
proof -
  have c: "vtxo_operation_check exSealed"
  proof -
    from exSealed obtain m where m: "exSealed = exOperation\<lparr> vo_IntegrityMAC := m \<rparr>" "length m = 32"
      using SealVtxoOperation_Inr by blast
    then show ?thesis unfolding m(1) by (simp add: vtxo_operation_check_def exOperation_def)
  qed
  have i: "exInput\<lparr> vi_OperationID := vo_OperationID exOperation \<rparr> = exInput"
    by (simp add: exInput_def exOperation_def)
  have "vo_OperationID exOperation \<noteq> []" "vo_VaultID exOperation \<noteq> []" "vo_State exOperation = vtxoStateReserved"
    "length (vi_Txid exInput) = 32"
    by (simp_all add: exOperation_def exInput_def)
  with c exSealed exInput_sealed show ?thesis
    unfolding requestReady_def by (auto simp: i)
qed

lemma exReady: "reserveReady (exLedger []) now exOperation [exInput] 100000"
  by (simp add: reserveReady_def Let_def locks_def windowOutflow_def outflow_def) (simp add: exOperation_def)

definition exReserved :: Ledger where
  "exReserved = snd (ReserveVtxoOperation NoFault False exNow exNow (exLedger []) exOperation [exInput] 100000)"

lemma exReserved: "ReserveVtxoOperation NoFault False exNow exNow (exLedger []) exOperation [exInput] 100000 = (Inr (), exReserved)"
  and exReserved_rows: "db_vtxo_operation (l_db exReserved) = [exSealed]"
proof -
  have inv: "opsInv (l_db (exLedger []))" by (simp add: opsInv_def)
  from reserveBody_ok [of "exLedger []" exNow exOperation "[exInput]" 100000 exNow] exReady exRequest inv obtain d where
    d: "reserveBody (exLedger []) exNow exNow exOperation [exInput] 100000 (l_db (exLedger [])) = Inr d"
    by auto
  then have "db_vtxo_operation d = [exSealed]"
    by (rule reserveBody_Inr) (auto simp: exSealed)
  moreover have "ReserveVtxoOperation NoFault False exNow exNow (exLedger []) exOperation [exInput] 100000 =
      (Inr (), (exLedger [])\<lparr> l_db := d \<rparr>)"
    using d exRequest by (simp add: ReserveVtxoOperation_def requestReady_def observeAndCommit_def observeEconomicOutflowsLocked_def
        exLedger_def)
  ultimately show "ReserveVtxoOperation NoFault False exNow exNow (exLedger []) exOperation [exInput] 100000 = (Inr (), exReserved)"
    and "db_vtxo_operation (l_db exReserved) = [exSealed]"
    by (simp_all add: exReserved_def)
qed

lemma exReserved_locks: "\<exists>i. locks (l_db exReserved) exSealed i \<and> vi_Txid i = replicate 32 9"
  using exReserved
proof (cases rule: Reserve_cases)
  case (ok d fl)
  from ok(4) obtain ops new where
    d: "d = l_db (exLedger [])\<lparr> db_vtxo_operation := ops, db_vtxo_operation_input := db_vtxo_operation_input (l_db (exLedger [])) @ new \<rparr>"
    and new: "map (\<lambda>i. (vi_Txid i, vi_Vout i)) new = map (\<lambda>i. (vi_Txid i, vi_Vout i)) [exInput]"
      "\<forall>i \<in> set new. vi_OperationID i = vo_OperationID exOperation \<and> VerifyVtxoOperationInput i (l_integrityKey (exLedger [])) = Inr ()"
    by (rule reserveBody_Inr)
  from new obtain i where i: "new = [i]" "vi_Txid i = replicate 32 9" "vi_OperationID i = vo_OperationID exSealed"
    by (auto simp: exInput_def exOperation_def map_eq_Cons_conv)
  moreover have "db_vtxo_operation_input (l_db exReserved) = [i]" unfolding ok(2) d i(1) by simp
  ultimately show ?thesis using exReserved_rows by (intro exI [of _ i]) (simp add: locks_def vtxo_state_defs)
qed simp

lemma exCap: "0 \<le> sint (100000 :: i64)"
  by simp

lemma exRun: "(vtxoStep ''v1'' 100000)\<^sup>*\<^sup>* (0, exLedger []) (exNow + Hour, exReserved)"
proof -
  have "vtxoStep ''v1'' 100000 (0, exLedger []) (exNow, exReserved)"
    by (rule vtxoStep.reserve [OF _ _ exReserved]) (simp_all add: exNow_def)
  moreover have "vtxoStep ''v1'' 100000 (exNow, exReserved) (exNow + Hour, exReserved)"
    by (rule vtxoStep.tick) simp
  ultimately show ?thesis by (meson converse_rtranclp_into_rtranclp rtranclp.rtrancl_refl)
qed

section \<open>Properties\<close>

text \<open>
  C5. The rolling allowance is never exceeded: along every run of the ledger from empty tables, in
  which operations of the vault \<open>v\<close> are reserved against the allowance \<open>cap\<close> and later updates do
  not raise an operation's amounts, at every instant the outflow of the vault's active operations
  together with the settled ones of the last 24 hours is at most \<open>cap\<close>; so is the amount that
  \<open>SpentInPeriod\<close> reports.
\<close>

theorem allowance_never_exceeded:
  assumes "(vtxoStep v cap)\<^sup>*\<^sup>* (t0, l0) (t, l)" and "0 \<le> sint cap"
    and "db_vtxo_operation (l_db l0) = []" and "db_vtxo_operation_input (l_db l0) = []"
  shows "heldOutflow t v (db_vtxo_operation (l_db l)) \<le> sint cap \<and>
    (\<forall>used. SpentInPeriod l t v = Inr used \<longrightarrow> sint used \<le> sint cap)"
proof -
  from vtxoRun_invariant [OF assms(1) vtxoInv_empty [OF assms(3,4,2)]]
  have h: "heldOutflow t v (db_vtxo_operation (l_db l)) \<le> sint cap"
    and nn: "\<forall>r \<in> set (db_vtxo_operation (l_db l)). 0 \<le> outflow r" by (simp_all add: vtxoInv_def Let_def)
  from windowOutflow_le_held [OF nn, of t v] h show ?thesis
    by (auto simp: SpentInPeriod_def spentInWindow_Inr split: if_splits)
qed

theorem allowance_never_exceeded_witness:
  "heldOutflow (exNow + Hour) ''v1'' (db_vtxo_operation (l_db exReserved)) \<le> 100000 \<and>
   heldOutflow (exNow + Hour) ''v1'' (db_vtxo_operation (l_db exReserved)) = 1010"
  using allowance_never_exceeded [OF exRun] exReserved_rows
  by (simp add: heldOutflow_def held_def outflow_def vtxo_state_defs)

text \<open>
  C6. A vault has at most one active operation: along every run from empty tables, in which updates do
  not raise an operation's amounts, two stored operations of one vault that are both reserved, signed,
  submitted or unresolved are the same row.
\<close>

theorem one_active_operation:
  assumes "(vtxoStep v cap)\<^sup>*\<^sup>* (t0, l0) (t, l)" and "0 \<le> sint cap"
    and "db_vtxo_operation (l_db l0) = []" and "db_vtxo_operation_input (l_db l0) = []"
    and "r \<in> set (db_vtxo_operation (l_db l))" and "s \<in> set (db_vtxo_operation (l_db l))"
    and "vo_VaultID r = vo_VaultID s"
    and "vtxoStateBlocksNewOperation (vo_State r)" and "vtxoStateBlocksNewOperation (vo_State s)"
  shows "r = s"
  using vtxoRun_invariant [OF assms(1) vtxoInv_empty [OF assms(3,4,2)]] assms(5-9)
  unfolding vtxoInv_def Let_def oneActive_def by blast

theorem one_active_operation_witness:
  "{r \<in> set (db_vtxo_operation (l_db exReserved)). vo_VaultID r = ''v1'' \<and> vtxoStateBlocksNewOperation (vo_State r)} = {exSealed}"
  using one_active_operation [OF exRun, of _ exSealed] exReserved_rows by (auto simp: vtxo_state_defs)

text \<open>
  C7. An outpoint is locked by at most one operation: along every run from empty tables, in which
  updates do not raise an operation's amounts, if two stored inputs name the same outpoint and the
  operations they belong to both lock their inputs (they are reserved, signed, submitted or
  finalized), the two operations are the same row.
\<close>

theorem outpoint_locked_once:
  assumes "(vtxoStep v cap)\<^sup>*\<^sup>* (t0, l0) (t, l)" and "0 \<le> sint cap"
    and "db_vtxo_operation (l_db l0) = []" and "db_vtxo_operation_input (l_db l0) = []"
    and "locks (l_db l) r i" and "locks (l_db l) s j"
    and "vi_Txid i = vi_Txid j" and "vi_Vout i = vi_Vout j"
  shows "r = s"
  using vtxoRun_invariant [OF assms(1) vtxoInv_empty [OF assms(3,4,2)]] assms(5-8)
  unfolding vtxoInv_def Let_def noOverlap_def by blast

theorem outpoint_locked_once_witness:
  "\<exists>i :: VtxoOperationInput. vi_Txid i = replicate 32 9 \<and>
     {r. \<exists>j. locks (l_db exReserved) r j \<and> vi_Txid j = vi_Txid i \<and> vi_Vout j = vi_Vout i} = {exSealed}"
proof -
  obtain i where i: "locks (l_db exReserved) exSealed i" "vi_Txid i = replicate 32 9" using exReserved_locks by blast
  have "r = exSealed" if "locks (l_db exReserved) r j" "vi_Txid j = vi_Txid i" "vi_Vout j = vi_Vout i" for r j
    using outpoint_locked_once [OF exRun _ _ _ that(1) i(1)] that exCap by simp
  then have "{r. \<exists>j. locks (l_db exReserved) r j \<and> vi_Txid j = vi_Txid i \<and> vi_Vout j = vi_Vout i} = {exSealed}"
    using i(1) by auto
  with i(2) show ?thesis by (intro exI [of _ i]) simp
qed

text \<open>
  Stored operations only move forward: along every run each stored operation is still there,
  with its id and vault, in a state that \<open>validVtxoTransition\<close> reaches from the old one, with no
  larger outflow; one that was finalized, aborted or unresolved is unchanged in every column.
\<close>

theorem stored_operations_move_forward:
  assumes "(vtxoStep v cap)\<^sup>*\<^sup>* (t0, l0) (t, l)" and "r \<in> set (db_vtxo_operation (l_db l0))"
  shows "\<exists>r' \<in> set (db_vtxo_operation (l_db l)). vo_OperationID r' = vo_OperationID r \<and> vo_VaultID r' = vo_VaultID r \<and>
    validVtxoTransition\<^sup>*\<^sup>* (vo_State r) (vo_State r') \<and> outflow r' \<le> outflow r \<and>
    (vo_State r \<in> {vtxoStateFinalized, vtxoStateAborted, vtxoStateUnresolved} \<longrightarrow> r' = r)"
proof -
  from vtxoRun_evolves [OF assms(1), of r] assms(2) obtain r' where
    "r' \<in> set (db_vtxo_operation (l_db l))" "evolves r r'" by auto
  then show ?thesis by (intro bexI [of _ r']) (auto simp: evolves_def vtxoTerminal_def)
qed

theorem stored_operations_move_forward_witness:
  "\<exists>r' \<in> set (db_vtxo_operation (l_db exReserved)). vo_OperationID r' = vo_OperationID exSealed \<and>
     validVtxoTransition\<^sup>*\<^sup>* vtxoStateReserved (vo_State r')"
proof -
  have run: "(vtxoStep ''v1'' 100000)\<^sup>*\<^sup>* (exNow, exReserved) (exNow + Hour, exReserved)"
    by (rule r_into_rtranclp, rule vtxoStep.tick) simp
  from stored_operations_move_forward [OF run, of exSealed] show ?thesis using exReserved_rows by force
qed

text \<open>
  C29. A reservation that is due is accepted: when the vault has no active operation and enough
  allowance left, every stored row verifies, no outpoint of the request is locked and the request
  can be sealed, and when the sequence file is at most one ahead of the database (as a crash
  between the two leaves it), \<open>ReserveVtxoOperation\<close> succeeds in the absence of faults and
  \<open>GetVtxoOperation\<close> then returns the sealed operation.
\<close>

theorem reserve_accepts:
  assumes "reserveReady l t2 rec inputs cap" and "requestReady (l_integrityKey l) rec inputs" and "opsInv (l_db l)"
    and "Suc (outflowRows (l_db l)) < 2 ^ 63"
    and "\<forall>key. l_monotonic l = Some key \<longrightarrow>
      (\<exists>c. fileCount key (l_file l) = Some c \<and> unat c \<le> Suc (outflowRows (l_db l)))"
  shows "\<exists>l' sealed. ReserveVtxoOperation NoFault False t1 t2 l rec inputs cap = (Inr (), l') \<and>
    SealVtxoOperation rec (l_integrityKey l) = Inr sealed \<and> GetVtxoOperation l' (vo_OperationID rec) = Inr sealed"
proof -
  from reserveBody_ok [OF assms(1-3)] obtain d where d: "reserveBody l t1 t2 rec inputs cap (l_db l) = Inr d" by blast
  have "outflowRows d = Suc (outflowRows (l_db l))" by (rule reserveBody_rows [OF d])
  with observe_due [of d l] assms(4,5) obtain l' where
    l': "observeAndCommit NoFault False l d = (Inr (), l')" "l_db l' = d" "l_integrityKey l' = l_integrityKey l" by auto
  from d obtain ops s new used d1 where s: "SealVtxoOperation rec (l_integrityKey l) = Inr s"
    and fresh: "vo_OperationID rec \<notin> vo_OperationID ` set ops"
    and d': "d = l_db l\<lparr> db_vtxo_operation := ops @ [s], db_vtxo_operation_input := db_vtxo_operation_input (l_db l) @ new \<rparr>"
    and le: "sint used + outflow rec \<le> sint cap" and am: "0 \<le> sint (vo_AmountSats rec) \<and> 0 \<le> sint (vo_FeeSats rec)"
    and sp: "spentInWindow l t2 d1 (vo_VaultID rec) = Inr used"
    by (rule reserveBody_Inr)
  have "0 \<le> sint used"
    using sp windowOutflow_nonneg [of d1 "vo_VaultID rec" "l_integrityKey l" t2] by (simp add: spentInWindow_Inr)
  with le am have cap: "\<not> sint cap < 0" by (simp add: outflow_def)
  have key: "length (l_integrityKey l) = 32" using assms(1) by (simp add: reserveReady_def Let_def)
  from assms(2) have "ReserveVtxoOperation NoFault False t1 t2 l rec inputs cap = (Inr (), l')"
    using d l'(1) cap by (simp add: ReserveVtxoOperation_def requestReady_def)
  moreover have "find_row (\<lambda>r. vo_OperationID r = vo_OperationID rec) (ops @ [s]) = Some s"
  proof -
    have "find_row (\<lambda>r. vo_OperationID r = vo_OperationID rec) ops = None"
      unfolding find_row_None using fresh by (metis imageI)
    then show ?thesis using SealVtxoOperation_keeps [OF s] by (simp add: find_row_append)
  qed
  ultimately show ?thesis
    using s l' d' key assms(2) op_seal.seal_verifies [OF key s]
    by (auto simp: GetVtxoOperation_def loadVtxoOperation_def integrityKeyCopy_def requestReady_def)
qed

theorem reserve_accepts_witness:
  "\<exists>l. ReserveVtxoOperation NoFault False 0 exNow (exLedger []) exOperation [exInput] 100000 = (Inr (), l) \<and>
     GetVtxoOperation l (vo_OperationID exOperation) = Inr exSealed"
proof -
  have inv: "opsInv (l_db (exLedger []))" by (simp add: opsInv_def)
  have rows: "Suc (outflowRows (l_db (exLedger []))) < 2 ^ 63" by (simp add: outflowRows_def exLedger_def emptyDb_def)
  from reserve_accepts [of "exLedger []" exNow exOperation "[exInput]" 100000 0, OF exReady _ inv rows] exRequest exSealed
  show ?thesis by auto
qed

text \<open>
  A crash leaves nothing uncovered: whatever fault strikes the sequence file and whether or not
  the \<open>COMMIT\<close> takes effect, a reservation that reports an error leaves the database as it was,
  and the attached sequence file still holds a count of at least the database's rows; after a
  success it holds exactly their number.
\<close>

theorem reserve_crash_safe:
  assumes "covered l" and "Suc (outflowRows (l_db l)) < 2 ^ 63"
    and "ReserveVtxoOperation fault commitFails t1 t2 l rec inputs cap = (r, l')"
  shows "covered l' \<and> (r \<noteq> Inr () \<longrightarrow> l_db l' = l_db l) \<and>
    (\<forall>key. r = Inr () \<longrightarrow> l_monotonic l' = Some key \<longrightarrow>
       (\<exists>c. fileCount key (l_file l') = Some c \<and> unat c = outflowRows (l_db l')))"
  using assms(3)
proof (cases rule: Reserve_body)
  case (body d)
  have "outflowRows d < 2 ^ 63" using reserveBody_rows [OF body(1)] assms(2) by simp
  from observeAndCommit_covered [OF assms(1) this body(2)] show ?thesis by auto
qed (use assms(1) in simp)

text \<open>The example ledger with a sequence attached at count \<open>n\<close>.\<close>

definition exSequenced :: "u64 \<Rightarrow> Ledger" where
  "exSequenced n = (exLedger [])\<lparr> l_monotonic := Some exKey, l_file := Some (renderMonotonic exKey n) \<rparr>"

lemma exSequenced_simps [simp]:
  "l_monotonic (exSequenced n) = Some exKey" "l_file (exSequenced n) = Some (renderMonotonic exKey n)"
  "l_db (exSequenced n) = l_db (exLedger [])" "l_integrityKey (exSequenced n) = exKey" "outflowRows (l_db (exLedger [])) = 0"
  by (simp_all add: exSequenced_def outflowRows_def exLedger_def emptyDb_def)

theorem reserve_crash_safe_witness:
  "covered (snd (ReserveVtxoOperation DirSyncFault False exNow exNow (exSequenced 0) exOperation [exInput] 100000))"
proof -
  have "covered (exSequenced 0)" by (simp add: covered_def)
  from reserve_crash_safe [OF this, of DirSyncFault False exNow exNow exOperation "[exInput]" 100000] show ?thesis
    by (metis exSequenced_simps(3,5) lessI one_less_numeral_iff one_less_power prod.collapse zero_less_numeral
        semiring_norm(76) One_nat_def)
qed

text \<open>
  A rolled-back database cannot spend: when the attached sequence file is more than one ahead of
  the database's rows, every reservation is refused, whatever the faults, and the database stays as it is.
\<close>

theorem rolled_back_ledger_cannot_reserve:
  assumes "l_monotonic l = Some key" and "fileCount key (l_file l) = Some c"
    and "Suc (outflowRows (l_db l)) < unat c" and "Suc (outflowRows (l_db l)) < 2 ^ 63"
  shows "\<exists>e l'. ReserveVtxoOperation fault commitFails t1 t2 l rec inputs cap = (Inl e, l') \<and> l_db l' = l_db l"
proof -
  obtain r l' where run: "ReserveVtxoOperation fault commitFails t1 t2 l rec inputs cap = (r, l')" by fastforce
  then show ?thesis
  proof (cases rule: Reserve_body)
    case (refused e)
    with run show ?thesis by simp
  next
    case (body d)
    have rows: "outflowRows d = Suc (outflowRows (l_db l))" by (rule reserveBody_rows [OF body(1)])
    note n = economicOutflowCount_Inr [of d, unfolded rows, OF assms(4)]
    have "word_of_nat (Suc (outflowRows (l_db l))) < c" using n assms(3) by (simp add: word_less_nat_alt)
    from file_seq.observe_behind [OF assms(2) this, of fault] obtain e where
      "Observe fault key (word_of_nat (Suc (outflowRows (l_db l)))) (l_file l) = (Inl e, l_file l)" by blast
    with n assms(1) body(2) run show ?thesis
      by (auto simp: observeAndCommit_def observeEconomicOutflowsLocked_def)
  qed
qed

theorem rolled_back_ledger_cannot_reserve_witness:
  "\<exists>e l. ReserveVtxoOperation NoFault False exNow exNow (exSequenced 2) exOperation [exInput] 100000 = (Inl e, l)"
  using rolled_back_ledger_cannot_reserve [of "exSequenced 2" exKey 2 NoFault False exNow exNow exOperation "[exInput]" 100000]
  by (simp, blast)

lemma update_one_hit:
  assumes "updateVtxoOperation st0 rec d = Inr (1, d')"
  shows "(\<exists>r \<in> set (db_vtxo_operation d). vo_OperationID r = vo_OperationID rec \<and> vo_State r = st0) \<and>
    rec \<in> set (db_vtxo_operation d')"
proof -
  let ?hit = "\<lambda>r. vo_OperationID r = vo_OperationID rec \<and> vo_VaultID r = vo_VaultID rec \<and> vo_State r = st0"
  from assms have "affected ?hit (db_vtxo_operation d) = 1"
    and d': "d' = d\<lparr> db_vtxo_operation := update_rows ?hit (\<lambda>_. rec) (db_vtxo_operation d) \<rparr>"
    by (auto simp: updateVtxoOperation_def Let_def split: if_splits)
  then have "filter ?hit (db_vtxo_operation d) \<noteq> []" by (auto simp: affected_def)
  then obtain r where r: "r \<in> set (db_vtxo_operation d)" "?hit r" by (auto simp: filter_empty_conv)
  then have "rec \<in> set (db_vtxo_operation d')" unfolding d' by (auto simp: update_rows_def image_iff)
  with r show ?thesis by blast
qed

lemma vtxoReaches_signed: "vtxoReaches a b \<Longrightarrow> a = vtxoStateSigned \<Longrightarrow> b \<noteq> vtxoStateReserved"
  by (induction rule: rtranclp_induct) (auto simp: validVtxoTransition_iff)

lemma signed_commit_rows:
  assumes "CommitSignedVtxoOperation cf now l rec cid n = (Inr (s, True), l')"
  shows "s \<in> set (db_vtxo_operation (l_db l')) \<and> vo_State s = vtxoStateSigned \<and> vo_OperationID s = vo_OperationID rec \<and>
    (\<exists>r \<in> set (db_vtxo_operation (l_db l)). vo_OperationID r = vo_OperationID rec \<and> vo_State r = vtxoStateReserved)"
  using assms
proof (cases rule: CommitSigned_cases)
  case (update s' d d')
  then show ?thesis
    using update_one_hit [OF update(3)] advanceSignCount_frame [OF update(4)] SealVtxoOperation_keeps [OF update(1)] by auto
qed blast

text \<open>
  C27. Signing commits the operation and the authenticator counter together or not at all. Either the
  call reports a new signature; then the sealed signed operation is in the table, the counter of the
  credential holds the presented value, which is above the one stored before unless both are zero
  (an authenticator that does not count), and no other counter has changed. Or the ledger is unchanged and
  no new signature is reported.
\<close>

theorem signed_commit_atomic:
  assumes "CommitSignedVtxoOperation commitFails now l rec credentialID signCount = (r, l')"
  shows "(\<exists>s. r = Inr (s, True) \<and> SealVtxoOperation rec (l_integrityKey l) = Inr s \<and> vo_State s = vtxoStateSigned \<and>
      s \<in> set (db_vtxo_operation (l_db l')) \<and>
      (\<exists>row. findSignCount (l_db l') (vo_VaultID rec) credentialID = Some row \<and> sc_SignCount row = signCount) \<and>
      (case findSignCount (l_db l) (vo_VaultID rec) credentialID of None \<Rightarrow> True
       | Some old \<Rightarrow> sc_SignCount old < signCount \<or> sc_SignCount old = 0 \<and> signCount = 0) \<and>
      (\<forall>v c. (v, c) \<noteq> (vo_VaultID rec, credentialID) \<longrightarrow> findSignCount (l_db l') v c = findSignCount (l_db l) v c)) \<or>
    l' = l \<and> (\<nexists>s. r = Inr (s, True))"
  using assms
proof (cases rule: CommitSigned_cases)
  case (update s d d')
  from update_one_hit [OF update(3)] advanceSignCount_frame [OF update(4)]
  have "s \<in> set (db_vtxo_operation d')" by simp
  moreover from update(3) have "findSignCount d v c = findSignCount (l_db l) v c" for v c
    by (auto simp: updateVtxoOperation_def findSignCount_def Let_def split: if_splits)
  ultimately show ?thesis
    using update advanceSignCountLocked_Inr [OF update(4)] SealVtxoOperation_keeps [OF update(1)]
    by (auto split: option.splits)
qed blast

text \<open>The example operation, signed.\<close>

definition exSigning :: VtxoOperation where
  "exSigning = exOperation\<lparr> vo_State := vtxoStateSigned \<rparr>"

lemma exSigning: "\<exists>s. SealVtxoOperation exSigning exKey = Inr s \<and> vtxo_operation_check s \<and> vo_State s = vtxoStateSigned \<and>
    vo_OperationID s = vo_OperationID exSealed \<and> vo_VaultID s = vo_VaultID exSealed"
proof -
  have "\<exists>p. canonicalVtxoOperation exSigning = Inr p"
    by (simp add: canonicalVtxoOperation_def exSigning_def exOperation_def operationFields_def requireVtxoState_def
        appendCredentialField_fits fits_short)
  then obtain s where s: "SealVtxoOperation exSigning exKey = Inr s"
    by (auto simp: SealVtxoOperation_def vtxoOperationMAC_def)
  then obtain m where m: "s = exSigning\<lparr> vo_IntegrityMAC := m \<rparr>" "length m = 32" using SealVtxoOperation_Inr by blast
  then have "vtxo_operation_check s \<and> vo_State s = vtxoStateSigned \<and>
      vo_OperationID s = vo_OperationID exSealed \<and> vo_VaultID s = vo_VaultID exSealed"
    unfolding m(1) exSigning_def by (simp add: vtxo_operation_check_def exOperation_def)
  with s show ?thesis by blast
qed

lemma exReserved_frame: "l_integrityKey exReserved = exKey" "db_webauthn_sign_count (l_db exReserved) = []"
    "db_vault (l_db exReserved) = [exVault]"
proof -
  have "l_integrityKey exReserved = exKey \<and> db_webauthn_sign_count (l_db exReserved) = [] \<and> db_vault (l_db exReserved) = [exVault]"
    using exReserved
  proof (cases rule: Reserve_cases)
    case (ok d fl)
    from ok(4) have "db_webauthn_sign_count d = [] \<and> db_vault d = [exVault]" by (rule reserveBody_Inr) simp
    then show ?thesis unfolding ok(2) by simp
  qed simp
  then show "l_integrityKey exReserved = exKey" "db_webauthn_sign_count (l_db exReserved) = []"
    "db_vault (l_db exReserved) = [exVault]" by simp_all
qed

lemma exSigned:
  "\<exists>s l. CommitSignedVtxoOperation False exNow exReserved exSigning [1] 5 = (Inr (s, True), l)"
proof -
  obtain s where s: "SealVtxoOperation exSigning exKey = Inr s" "vtxo_operation_check s" "vo_State s = vtxoStateSigned"
    "vo_OperationID s = vo_OperationID exSealed" "vo_VaultID s = vo_VaultID exSealed" using exSigning by blast
  let ?d = "l_db exReserved\<lparr> db_vtxo_operation := [s] \<rparr>"
  have up: "updateVtxoOperation vtxoStateReserved s (l_db exReserved) = Inr (1, ?d)"
    using s by (simp add: updateVtxoOperation_def exReserved_rows affected_def update_rows_def Let_def)
  have "\<exists>d. advanceSignCountLocked exReserved exNow (vo_VaultID s) [1] 5 ?d = Inr d"
    using s by (simp add: advanceSignCountLocked_def findSignCount_def exReserved_frame writeSignCount_def
        upsertSignCount_def signCountMAC_def)
  then obtain d where d: "advanceSignCountLocked exReserved exNow (vo_VaultID s) [1] 5 ?d = Inr d" ..
  have "vo_OperationID exSigning \<noteq> []" "vo_VaultID exSigning \<noteq> []" "vo_State exSigning = vtxoStateSigned"
    by (simp_all add: exSigning_def exOperation_def)
  with s up d show ?thesis by (simp add: CommitSignedVtxoOperation_def integrityKeyCopy_def exReserved_frame)
qed

theorem signed_commit_atomic_witness:
  "\<exists>row. findSignCount (l_db (snd (CommitSignedVtxoOperation False exNow exReserved exSigning [1] 5))) ''v1'' [1] = Some row \<and>
     sc_SignCount row = 5"
proof -
  obtain s l where c: "CommitSignedVtxoOperation False exNow exReserved exSigning [1] 5 = (Inr (s, True), l)"
    using exSigned by blast
  have "vo_VaultID exSigning = ''v1''" by (simp add: exSigning_def exOperation_def)
  with signed_commit_atomic [OF c] c show ?thesis by auto
qed

text \<open>
  C14. An operation is signed at most once: along every run from empty tables, in which updates do not
  raise an operation's amounts, after a call of \<open>CommitSignedVtxoOperation\<close> has reported a new
  signature for an operation, and whatever happens in between, no later call reports a new
  signature for the same operation id.
\<close>

theorem signed_at_most_once:
  assumes "(vtxoStep v cap)\<^sup>*\<^sup>* (t0, l0) (t, l)" and "0 \<le> sint cap"
    and "db_vtxo_operation (l_db l0) = []" and "db_vtxo_operation_input (l_db l0) = []"
    and "keepsOutflow (l_db l) rec"
    and "CommitSignedVtxoOperation cf now l rec cid n = (Inr (s, True), l1)"
    and "(vtxoStep v cap)\<^sup>*\<^sup>* (t, l1) (t2, l2)" and "vo_OperationID rec' = vo_OperationID rec"
  shows "\<nexists>s'. fst (CommitSignedVtxoOperation cf' now' l2 rec' cid' n') = Inr (s', True)"
proof
  assume "\<exists>s'. fst (CommitSignedVtxoOperation cf' now' l2 rec' cid' n') = Inr (s', True)"
  then obtain s' l3 where again: "CommitSignedVtxoOperation cf' now' l2 rec' cid' n' = (Inr (s', True), l3)"
    by (metis prod.collapse)
  have inv: "vtxoInv v cap (t2, l2)"
    using vtxoRun_invariant [OF assms(7) vtxoStep_invariant [OF vtxoStep.commit [OF assms(5,6)]
      vtxoRun_invariant [OF assms(1) vtxoInv_empty [OF assms(3,4,2)]]]] .
  from signed_commit_rows [OF assms(6)] have s: "s \<in> set (db_vtxo_operation (l_db l1))"
    "vo_State s = vtxoStateSigned" "vo_OperationID s = vo_OperationID rec" by simp_all
  from vtxoRun_evolves [OF assms(7)] s(1) obtain r where
    r: "r \<in> set (db_vtxo_operation (l_db l2))" "evolves s r" by auto
  from signed_commit_rows [OF again] obtain q where
    q: "q \<in> set (db_vtxo_operation (l_db l2))" "vo_OperationID q = vo_OperationID rec'" "vo_State q = vtxoStateReserved"
    by blast
  have "q = r"
    using inv r q s(3) assms(8) opsInv_unique [of "l_db l2" q r] by (simp add: vtxoInv_def Let_def evolves_def)
  with r(2) s(2) q(3) vtxoReaches_signed show False by (auto simp: evolves_def)
qed

theorem signed_at_most_once_witness:
  "\<exists>s l. CommitSignedVtxoOperation False exNow exReserved exSigning [1] 5 = (Inr (s, True), l) \<and>
     (\<nexists>s'. fst (CommitSignedVtxoOperation False (exNow + Hour) l exSigning [1] 6) = Inr (s', True))"
proof -
  obtain s l where c: "CommitSignedVtxoOperation False exNow exReserved exSigning [1] 5 = (Inr (s, True), l)"
    using exSigned by blast
  have k: "keepsOutflow (l_db exReserved) exSigning"
    by (simp add: keepsOutflow_def exReserved_rows outflow_def) (simp add: exSigning_def exOperation_def)
  from signed_at_most_once [OF exRun exCap _ _ k c rtranclp.rtrancl_refl refl] c show ?thesis by auto
qed

end
