(* ===== verification/SessionLedger.thy ===== *)
theory SessionLedger
  imports LedgerCore
begin

text \<open>
  The stored recovery sessions of \<open>internal/policy/session.go\<close> (\<open>GetRecoverySession\<close>,
  \<open>PutRecoverySession\<close>, \<open>ApplyRecoveryReplay\<close>) and the recovery maps of
  \<open>internal/policy/vaultmap.go\<close>. A transition request makes two calls of \<open>ApplyRecoveryReplay\<close>: one
  without a signature before it signs, one with the signature after.
\<close>

section \<open>Sessions\<close>

type_synonym sessionKeyT = "string \<times> string \<times> i64 \<times> string"

definition sessionKey :: "RecoverySession \<Rightarrow> sessionKeyT" where
  "sessionKey r = (rs_VaultID r, rs_InputTxid r, rs_InputVout r, rs_Purpose r)"

definition findRecoverySession :: "sessionKeyT \<Rightarrow> db \<Rightarrow> RecoverySession option" where
  "findRecoverySession k d = find_row (\<lambda>r. sessionKey r = k) (db_recovery_session d)"

definition GetRecoverySession :: "Ledger \<Rightarrow> string \<Rightarrow> string \<Rightarrow> i64 \<Rightarrow> string \<Rightarrow> RecoverySession option result" where
  "GetRecoverySession l vaultID txid vout purpose =
     bindR (requireSessionPurpose purpose) (\<lambda>_.
     case findRecoverySession (vaultID, to_lower txid, vout, purpose) (l_db l) of
       None \<Rightarrow> Inr None
     | Some row \<Rightarrow> bindR (verifySession row (l_integrityKey l)) (\<lambda>_. Inr (Some row)))"

definition PutRecoverySession :: "Ledger \<Rightarrow> time \<Rightarrow> RecoverySession \<Rightarrow> unit result \<times> Ledger" where
  "PutRecoverySession l clock rec =
     (case requireSessionPurpose (rs_Purpose rec) of
        Inl e \<Rightarrow> (Inl e, l)
      | Inr _ \<Rightarrow>
          let now = formatRFC3339Nano clock;
              rec = (if rs_CreatedAt rec = [] then rec\<lparr> rs_CreatedAt := now \<rparr> else rec);
              rec = rec\<lparr> rs_UpdatedAt := now, rs_InputTxid := normalizeText (rs_InputTxid rec),
                rs_DestScript := normalizeText (rs_DestScript rec) \<rparr>
          in case bindR (sealSession rec (l_integrityKey l)) (\<lambda>rec. upsertRecoverySession rec (l_db l)) of
               Inl e \<Rightarrow> (Inl e, l)
             | Inr d \<Rightarrow> (Inr (), l\<lparr> l_db := d \<rparr>))"

text \<open>
  \<open>signature\<close> is the slice \<open>next.Signature\<close>, \<^const>\<open>None\<close> when it is nil; the method tells the two apart.
\<close>

definition ApplyRecoveryReplay ::
  "Ledger \<Rightarrow> time \<Rightarrow> RecoverySession \<Rightarrow> bytes option \<Rightarrow> (ReplayAction \<times> RecoverySession option) result \<times> Ledger" where
  "ApplyRecoveryReplay l clock next signature =
     (case GetRecoverySession l (rs_VaultID next) (rs_InputTxid next) (rs_InputVout next) (rs_Purpose next) of
        Inl e \<Rightarrow> (Inl e, l)
      | Inr existing \<Rightarrow>
          (case DecideReplay existing next of
             Inl e \<Rightarrow> (Inl e, l)
           | Inr action \<Rightarrow>
               if action = ReplayReplay then (Inr (action, existing), l)
               else
                 let next = (case existing of
                         None \<Rightarrow> next\<lparr> rs_Signature := case_option [] id signature \<rparr>
                       | Some e \<Rightarrow> next\<lparr> rs_CreatedAt := rs_CreatedAt e,
                           rs_Signature := case_option (rs_Signature e) id signature,
                           rs_LastSighash := (if rs_LastSighash next = [] then rs_LastSighash e else rs_LastSighash next) \<rparr>)
                 in case PutRecoverySession l clock next of
                      (Inl e, l) \<Rightarrow> (Inl e, l)
                    | (Inr _, l) \<Rightarrow>
                        (case GetRecoverySession l (rs_VaultID next) (rs_InputTxid next) (rs_InputVout next) (rs_Purpose next) of
                           Inl e \<Rightarrow> (Inl e, l)
                         | Inr stored \<Rightarrow> (Inr (action, stored), l))))"

section \<open>Recovery maps\<close>

record VaultMap =
  map_VaultID :: string
  map_KitHash :: string
  map_Payload :: string

abbreviation vaultMapMACDomain :: string where "vaultMapMACDomain \<equiv> ''arkade-2fa-vault/vault-map/v1''"

definition vaultMapMAC :: "VaultMap \<Rightarrow> bytes \<Rightarrow> bytes" where
  "vaultMapMAC rec key =
     hmac_sha256 key (str_bytes vaultMapMACDomain @ str_bytes (map_VaultID rec) @ str_bytes (map_KitHash rec) @
       str_bytes (map_Payload rec))"

definition PutVaultMap :: "Ledger \<Rightarrow> time \<Rightarrow> VaultMap \<Rightarrow> unit result \<times> Ledger" where
  "PutVaultMap l clock rec =
     (if length (l_integrityKey l) \<noteq> 32 then (Inl (Errorf ''map ledger required''), l)
      else
        let rec = rec\<lparr> map_VaultID := trim_space (map_VaultID rec), map_KitHash := normalizeText (map_KitHash rec) \<rparr>
        in if map_VaultID rec = [] \<or> length (map_KitHash rec) \<noteq> 64 \<or> map_Payload rec = [] \<or> length (map_Payload rec) > 98304 then
             (Inl (Errorf ''vault map required''), l)
           else case upsertVaultMap \<lparr> vm_VaultID = map_VaultID rec, vm_KitHash = map_KitHash rec, vm_Payload = map_Payload rec,
               vm_UpdatedAt = formatRFC3339Nano clock, vm_IntegrityMAC = vaultMapMAC rec (l_integrityKey l) \<rparr> (l_db l) of
             Inl e \<Rightarrow> (Inl e, l)
           | Inr d \<Rightarrow> (Inr (), l\<lparr> l_db := d \<rparr>))"

definition GetVaultMap :: "Ledger \<Rightarrow> string \<Rightarrow> VaultMap option result" where
  "GetVaultMap l vaultID =
     (if length (l_integrityKey l) \<noteq> 32 then Inl (Errorf ''map ledger required'')
      else if trim_space vaultID = [] then Inl (Errorf ''vault id required'')
      else case find_row (\<lambda>r. vm_VaultID r = trim_space vaultID) (db_vault_map (l_db l)) of
        None \<Rightarrow> Inr None
      | Some r \<Rightarrow>
          let rec = \<lparr> map_VaultID = vm_VaultID r, map_KitHash = vm_KitHash r, map_Payload = vm_Payload r \<rparr>
          in if vm_IntegrityMAC r \<noteq> vaultMapMAC rec (l_integrityKey l) then Inl (Errorf ''vault map MAC mismatch'')
             else Inr (Some rec))"

section \<open>Sessions and maps as keyed rows\<close>

lemma upsertRecoverySession_Inr:
  "upsertRecoverySession r d = Inr d' \<Longrightarrow>
     d' = d\<lparr> db_recovery_session :=
       (if findRecoverySession (sessionKey r) d = None then db_recovery_session d @ [r]
        else update_rows (\<lambda>x. sessionKey x = sessionKey r) (\<lambda>x. r\<lparr> rs_CreatedAt := rs_CreatedAt x \<rparr>) (db_recovery_session d)) \<rparr>"
  by (auto simp: upsertRecoverySession_def findRecoverySession_def sessionKey_def Let_def split: if_splits)

definition mergeSession :: "RecoverySession option \<Rightarrow> RecoverySession \<Rightarrow> RecoverySession" where
  "mergeSession e r = (case e of None \<Rightarrow> r | Some x \<Rightarrow> r\<lparr> rs_CreatedAt := rs_CreatedAt x \<rparr>)"

interpretation sessions: keyed_upsert findRecoverySession sessionKey upsertRecoverySession mergeSession
proof
  fix r d d'
  assume u: "upsertRecoverySession r d = Inr d'"
  have k: "sessionKey (r\<lparr> rs_CreatedAt := c \<rparr>) = sessionKey r" for c by (simp add: sessionKey_def)
  show "findRecoverySession (sessionKey r) d' = Some (mergeSession (findRecoverySession (sessionKey r) d) r)"
    using upsertRecoverySession_Inr [OF u]
      find_row_update [of sessionKey "\<lambda>x. r\<lparr> rs_CreatedAt := rs_CreatedAt x \<rparr>" "sessionKey r" "db_recovery_session d"]
    by (auto simp: findRecoverySession_def mergeSession_def find_row_append k split: option.splits)
  show "findRecoverySession j d' = findRecoverySession j d" if "j \<noteq> sessionKey r" for j
    using upsertRecoverySession_Inr [OF u] that
      find_row_update_other [of sessionKey "\<lambda>x. r\<lparr> rs_CreatedAt := rs_CreatedAt x \<rparr>" "sessionKey r" j "db_recovery_session d"]
    by (auto simp: findRecoverySession_def find_row_append k split: option.splits)
qed

lemma upsertVaultMap_Inr:
  "upsertVaultMap r d = Inr d' \<Longrightarrow>
     d' = d\<lparr> db_vault_map :=
       (if find_row (\<lambda>x. vm_VaultID x = vm_VaultID r) (db_vault_map d) = None then db_vault_map d @ [r]
        else update_rows (\<lambda>x. vm_VaultID x = vm_VaultID r) (\<lambda>_. r) (db_vault_map d)) \<rparr>"
  by (auto simp: upsertVaultMap_def Let_def split: if_splits)

interpretation vault_maps: keyed_upsert "\<lambda>v d. find_row (\<lambda>x. vm_VaultID x = v) (db_vault_map d)"
  vm_VaultID upsertVaultMap "\<lambda>_ r. r"
proof
  fix r d d'
  assume u: "upsertVaultMap r d = Inr d'"
  show "find_row (\<lambda>x. vm_VaultID x = vm_VaultID r) (db_vault_map d') = Some r"
    using upsertVaultMap_Inr [OF u] find_row_update [of vm_VaultID "\<lambda>_. r" "vm_VaultID r" "db_vault_map d"]
    by (auto simp: find_row_append split: option.splits)
  show "find_row (\<lambda>x. vm_VaultID x = k) (db_vault_map d') = find_row (\<lambda>x. vm_VaultID x = k) (db_vault_map d)"
    if "k \<noteq> vm_VaultID r" for k
    using upsertVaultMap_Inr [OF u] that find_row_update_other [of vm_VaultID "\<lambda>_. r" "vm_VaultID r" k "db_vault_map d"]
    by (auto simp: find_row_append split: option.splits)
qed

section \<open>What a call does\<close>

text \<open>The key a call reads and, when the transaction id has no surrounding space, the one it writes.\<close>

definition callKey :: "RecoverySession \<Rightarrow> sessionKeyT" where
  "callKey next = (rs_VaultID next, to_lower (rs_InputTxid next), rs_InputVout next, rs_Purpose next)"

definition trimmedTxid :: "RecoverySession \<Rightarrow> bool" where
  "trimmedTxid next \<longleftrightarrow> trim_space (rs_InputTxid next) = rs_InputTxid next"

text \<open>The row a call writes, before its seal.\<close>

definition writtenSession :: "time \<Rightarrow> RecoverySession \<Rightarrow> bytes option \<Rightarrow> RecoverySession option \<Rightarrow> RecoverySession" where
  "writtenSession clock next signature existing =
     next\<lparr> rs_InputTxid := normalizeText (rs_InputTxid next), rs_DestScript := normalizeText (rs_DestScript next),
       rs_UpdatedAt := formatRFC3339Nano clock,
       rs_CreatedAt := (let c = (case existing of None \<Rightarrow> rs_CreatedAt next | Some e \<Rightarrow> rs_CreatedAt e)
         in if c = [] then formatRFC3339Nano clock else c),
       rs_Signature := case_option (case_option [] rs_Signature existing) id signature,
       rs_LastSighash := (case existing of None \<Rightarrow> rs_LastSighash next
         | Some e \<Rightarrow> if rs_LastSighash next = [] then rs_LastSighash e else rs_LastSighash next) \<rparr>"

lemma Get_callKey:
  "GetRecoverySession l (rs_VaultID n) (rs_InputTxid n) (rs_InputVout n) (rs_Purpose n) =
     bindR (requireSessionPurpose (rs_Purpose n)) (\<lambda>_. case findRecoverySession (callKey n) (l_db l) of
       None \<Rightarrow> Inr None
     | Some row \<Rightarrow> bindR (verifySession row (l_integrityKey l)) (\<lambda>_. Inr (Some row)))"
  by (simp add: GetRecoverySession_def callKey_def)

lemma DecideReplay_purpose: "DecideReplay e n = Inr a \<Longrightarrow> requireSessionPurpose (rs_Purpose n) = Inr ()"
  by (auto simp: DecideReplay_def res_simps)

lemma Apply_unfold:
  assumes "GetRecoverySession l (rs_VaultID n) (rs_InputTxid n) (rs_InputVout n) (rs_Purpose n) = Inr existing"
    and "DecideReplay existing n = Inr a" and "a \<noteq> ReplayReplay"
  shows "ApplyRecoveryReplay l clock n sig =
    (case bindR (sealSession (writtenSession clock n sig existing) (l_integrityKey l)) (\<lambda>rec. upsertRecoverySession rec (l_db l)) of
       Inl e \<Rightarrow> (Inl e, l)
     | Inr d \<Rightarrow> (bindR (GetRecoverySession (l\<lparr> l_db := d \<rparr>) (rs_VaultID n) (rs_InputTxid n) (rs_InputVout n) (rs_Purpose n))
         (\<lambda>stored. Inr (a, stored)), l\<lparr> l_db := d \<rparr>))"
proof -
  let ?next = "case existing of None \<Rightarrow> n\<lparr> rs_Signature := case_option [] id sig \<rparr>
      | Some e \<Rightarrow> n\<lparr> rs_CreatedAt := rs_CreatedAt e, rs_Signature := case_option (rs_Signature e) id sig,
          rs_LastSighash := (if rs_LastSighash n = [] then rs_LastSighash e else rs_LastSighash n) \<rparr>"
  have p: "requireSessionPurpose (rs_Purpose ?next) = Inr ()"
    using DecideReplay_purpose [OF assms(2)] by (auto split: option.splits)
  have w: "(let rec = (if rs_CreatedAt ?next = [] then ?next\<lparr> rs_CreatedAt := formatRFC3339Nano clock \<rparr> else ?next)
      in rec\<lparr> rs_UpdatedAt := formatRFC3339Nano clock, rs_InputTxid := normalizeText (rs_InputTxid rec),
           rs_DestScript := normalizeText (rs_DestScript rec) \<rparr>) = writtenSession clock n sig existing"
    by (cases n; cases existing; cases sig) (simp_all add: writtenSession_def)
  have put: "PutRecoverySession l clock ?next =
      (case bindR (sealSession (writtenSession clock n sig existing) (l_integrityKey l)) (\<lambda>rec. upsertRecoverySession rec (l_db l)) of
         Inl e \<Rightarrow> (Inl e, l) | Inr d \<Rightarrow> (Inr (), l\<lparr> l_db := d \<rparr>))"
    unfolding PutRecoverySession_def p sum.case Let_def w [unfolded Let_def] ..
  have f: "rs_VaultID ?next = rs_VaultID n" "rs_InputTxid ?next = rs_InputTxid n" "rs_InputVout ?next = rs_InputVout n"
    "rs_Purpose ?next = rs_Purpose n" by (auto split: option.splits)
  show ?thesis
    unfolding ApplyRecoveryReplay_def assms(1,2) sum.case if_not_P [OF assms(3)] Let_def put f
    by (simp split: sum.splits add: bindR_def)
qed

lemma Apply_cases:
  assumes "ApplyRecoveryReplay l clock n sig = (r, l')"
  obtains (refused) e where "r = Inl e" and "l' = l"
  | (replay) e where "findRecoverySession (callKey n) (l_db l) = Some e" and "verifySession e (l_integrityKey l) = Inr ()"
      and "DecideReplay (Some e) n = Inr ReplayReplay" and "r = Inr (ReplayReplay, Some e)" and "l' = l"
  | (wrote) a existing rec d where "findRecoverySession (callKey n) (l_db l) = existing"
      and "DecideReplay existing n = Inr a" and "a \<noteq> ReplayReplay"
      and "sealSession (writtenSession clock n sig existing) (l_integrityKey l) = Inr rec"
      and "upsertRecoverySession rec (l_db l) = Inr d" and "l' = l\<lparr> l_db := d \<rparr>"
      and "r = bindR (GetRecoverySession l' (rs_VaultID n) (rs_InputTxid n) (rs_InputVout n) (rs_Purpose n))
         (\<lambda>stored. Inr (a, stored))"
proof (cases "GetRecoverySession l (rs_VaultID n) (rs_InputTxid n) (rs_InputVout n) (rs_Purpose n)")
  case (Inl e)
  with assms refused show thesis by (auto simp: ApplyRecoveryReplay_def)
next
  case get: (Inr existing)
  show thesis
  proof (cases "DecideReplay existing n")
    case (Inl e)
    with assms get refused show thesis by (auto simp: ApplyRecoveryReplay_def)
  next
    case dec: (Inr a)
    from get have f: "findRecoverySession (callKey n) (l_db l) = existing"
      and v: "\<And>e. existing = Some e \<Longrightarrow> verifySession e (l_integrityKey l) = Inr ()"
      unfolding Get_callKey by (auto simp: res_simps split: option.splits)
    show thesis
    proof (cases "a = ReplayReplay")
      case True
      then have "(r, l') = (Inr (ReplayReplay, existing), l)"
        using assms get dec by (simp add: ApplyRecoveryReplay_def)
      moreover obtain e where "existing = Some e"
        using dec True by (cases existing) (auto simp: DecideReplay_def res_simps Let_def split: if_splits)
      ultimately show thesis using replay f v dec True by auto
    next
      case False
      note run = assms [unfolded Apply_unfold [OF get dec False]]
      show thesis
      proof (cases "bindR (sealSession (writtenSession clock n sig existing) (l_integrityKey l)) (\<lambda>rec. upsertRecoverySession rec (l_db l))")
        case (Inl e)
        with run refused show thesis by auto
      next
        case (Inr d)
        then obtain rec where "sealSession (writtenSession clock n sig existing) (l_integrityKey l) = Inr rec"
          "upsertRecoverySession rec (l_db l) = Inr d" by (auto simp: res_simps)
        from wrote [OF f dec False this] run Inr show thesis by auto
      qed
    qed
  qed
qed

lemma sealSession_keeps:
  "sealSession r key = Inr s \<Longrightarrow> (\<exists>m. s = r\<lparr> rs_IntegrityMAC := m \<rparr>) \<and> length key = 32 \<and> verifySession s key = Inr ()"
  using session_seal.seal_verifies [of key r s]
  by (auto simp: sealSession_def res_simps split: if_splits)

lemma writtenSession_key:
  "trimmedTxid n \<Longrightarrow> sealSession (writtenSession clock n sig e) key = Inr rec \<Longrightarrow> sessionKey rec = callKey n"
  by (auto dest!: sealSession_keeps simp: sessionKey_def callKey_def writtenSession_def trimmedTxid_def normalizeText_def)

text \<open>After a write the row of the call's key is the sealed row; the other keys are untouched.\<close>

lemma Apply_wrote:
  assumes "trimmedTxid n" and "sealSession (writtenSession clock n sig existing) key = Inr rec"
    and "upsertRecoverySession rec d = Inr d'" and "findRecoverySession (callKey n) d = existing"
  shows "\<exists>c. findRecoverySession (callKey n) d' = Some (rec\<lparr> rs_CreatedAt := c \<rparr>) \<and>
      ((case existing of None \<Rightarrow> True | Some e \<Rightarrow> rs_CreatedAt e \<noteq> []) \<longrightarrow> c = rs_CreatedAt rec)"
    and "k \<noteq> callKey n \<Longrightarrow> findRecoverySession k d' = findRecoverySession k d"
proof -
  note k = writtenSession_key [OF assms(1,2)]
  from sessions.look_other [OF assms(3), of k] k
  show "k \<noteq> callKey n \<Longrightarrow> findRecoverySession k d' = findRecoverySession k d" by simp
  from assms(2) obtain m where m: "rec = writtenSession clock n sig existing\<lparr> rs_IntegrityMAC := m \<rparr>"
    using sealSession_keeps by blast
  show "\<exists>c. findRecoverySession (callKey n) d' = Some (rec\<lparr> rs_CreatedAt := c \<rparr>) \<and>
      ((case existing of None \<Rightarrow> True | Some e \<Rightarrow> rs_CreatedAt e \<noteq> []) \<longrightarrow> c = rs_CreatedAt rec)"
  proof (cases existing)
    case None
    with sessions.look_upsert [OF assms(3)] k assms(4) show ?thesis
      by (intro exI [of _ "rs_CreatedAt rec"]) (simp add: mergeSession_def)
  next
    case (Some e)
    then have "rs_CreatedAt e \<noteq> [] \<Longrightarrow> rs_CreatedAt rec = rs_CreatedAt e"
      unfolding m by (simp add: writtenSession_def)
    with Some sessions.look_upsert [OF assms(3)] k assms(4) show ?thesis
      by (intro exI [of _ "rs_CreatedAt e"]) (simp add: mergeSession_def)
  qed
qed

lemma DecideReplay_same_dest:
  "DecideReplay (Some e) n = Inr a \<Longrightarrow> rs_DestScript e = normalizeText (rs_DestScript n)"
  by (auto simp: DecideReplay_def res_simps Let_def split: if_splits)

lemma writtenSession_dest:
  "sealSession (writtenSession clock n sig e) key = Inr rec \<Longrightarrow> rs_DestScript rec = normalizeText (rs_DestScript n)"
  by (auto dest!: sealSession_keeps simp: writtenSession_def)

lemma apply_keeps_dest:
  assumes "findRecoverySession k (l_db l) = Some e" and "trimmedTxid n" and "ApplyRecoveryReplay l clock n sig = (r, l')"
  shows "\<exists>e'. findRecoverySession k (l_db l') = Some e' \<and> rs_DestScript e' = rs_DestScript e"
  using assms(3)
proof (cases rule: Apply_cases)
  case (wrote a existing rec d)
  note w = Apply_wrote [OF assms(2) wrote(4,5,1)]
  show ?thesis
  proof (cases "k = callKey n")
    case True
    with wrote(1) assms(1) have e: "existing = Some e" by simp
    have "rs_DestScript rec = rs_DestScript e"
      using DecideReplay_same_dest [of e n a] wrote(2) e writtenSession_dest [OF wrote(4)] by simp
    with w(1) True wrote(6) show ?thesis by auto
  next
    case False
    with w(2) wrote(6) assms(1) show ?thesis by simp
  qed
qed (use assms(1) in auto)

text \<open>A run of calls, each with its clock reading and signature, accepted or not.\<close>

definition applyRun :: "(time \<times> RecoverySession \<times> bytes option) list \<Rightarrow> Ledger \<Rightarrow> Ledger" where
  "applyRun calls l = fold (\<lambda>(t, n, s) l. snd (ApplyRecoveryReplay l t n s)) calls l"

lemma applyRun_keeps_dest:
  assumes "findRecoverySession k (l_db l) = Some e" and "list_all (\<lambda>(t, n, s). trimmedTxid n) calls"
  shows "\<exists>e'. findRecoverySession k (l_db (applyRun calls l)) = Some e' \<and> rs_DestScript e' = rs_DestScript e"
  using assms
proof (induction calls arbitrary: l e)
  case (Cons call calls)
  obtain t n s where call: "call = (t, n, s)" by (metis prod_cases3)
  obtain r l1 where a: "ApplyRecoveryReplay l t n s = (r, l1)" by fastforce
  from apply_keeps_dest [OF Cons.prems(1) _ a] Cons.prems(2) call obtain e1 where
    "findRecoverySession k (l_db l1) = Some e1" "rs_DestScript e1 = rs_DestScript e" by auto
  with Cons.IH [of l1 e1] Cons.prems(2) call a show ?case by (auto simp: applyRun_def)
qed (simp add: applyRun_def)

lemma apply_records_dest:
  assumes "ApplyRecoveryReplay l clock n sig = (Inr a, l')" and "trimmedTxid n"
  shows "\<exists>e. findRecoverySession (callKey n) (l_db l') = Some e \<and> rs_DestScript e = normalizeText (rs_DestScript n)"
  using assms(1)
proof (cases rule: Apply_cases)
  case (replay e)
  then show ?thesis using DecideReplay_same_dest by auto
next
  case (wrote a existing rec d)
  with Apply_wrote(1) [OF assms(2) wrote(4,5,1)] writtenSession_dest [OF wrote(4)] show ?thesis by auto
qed simp

section \<open>Properties\<close>

text \<open>
  C8. A recovery outpoint is signed to one destination only: once a call for an outpoint has
  succeeded, and after any further calls, a call for the same vault, outpoint and purpose with
  another destination is refused and changes nothing. The transaction ids of the calls carry no
  surrounding white space, as the one caller's do.
\<close>

theorem second_destination_refused:
  assumes "ApplyRecoveryReplay l t n sig = (Inr a, l')" and "trimmedTxid n"
    and "list_all (\<lambda>(t, n, s). trimmedTxid n) calls"
    and "callKey n' = callKey n" and "normalizeText (rs_DestScript n') \<noteq> normalizeText (rs_DestScript n)"
  shows "\<exists>e. ApplyRecoveryReplay (applyRun calls l') t' n' sig' = (Inl e, applyRun calls l')"
proof -
  from apply_records_dest [OF assms(1,2)] applyRun_keeps_dest [OF _ assms(3), of "callKey n'" l'] assms(4) obtain e where
    e: "findRecoverySession (callKey n') (l_db (applyRun calls l')) = Some e"
      "rs_DestScript e = normalizeText (rs_DestScript n)" by metis
  obtain r l'' where run: "ApplyRecoveryReplay (applyRun calls l') t' n' sig' = (r, l'')" by fastforce
  then show ?thesis
  proof (cases rule: Apply_cases)
    case (refused x)
    with run show ?thesis by simp
  next
    case (replay x)
    then show ?thesis using e assms(5) DecideReplay_same_dest by fastforce
  next
    case (wrote b existing rec d)
    then show ?thesis using e assms(5) DecideReplay_same_dest by fastforce
  qed
qed

lemma bindR_action: "Inr (a, x) = bindR m (\<lambda>stored. Inr (b, stored)) \<Longrightarrow> a = b"
  by (cases m) auto

lemma writtenSession_created: "rs_CreatedAt (writtenSession clock n sig e) \<noteq> []"
  by (simp add: writtenSession_def Let_def formatRFC3339Nano_nonempty)

lemma Get_found:
  assumes "findRecoverySession (callKey n) (l_db l) = Some e" and "verifySession e (l_integrityKey l) = Inr ()"
    and "requireSessionPurpose (rs_Purpose n) = Inr ()"
  shows "GetRecoverySession l (rs_VaultID n) (rs_InputTxid n) (rs_InputVout n) (rs_Purpose n) = Inr (Some e)"
  unfolding Get_callKey using assms by simp

lemma Apply_succeeds:
  assumes "findRecoverySession (callKey n) (l_db l) = existing"
    and "\<And>e. existing = Some e \<Longrightarrow> verifySession e (l_integrityKey l) = Inr () \<and> rs_CreatedAt e \<noteq> []"
    and "DecideReplay existing n = Inr a" and "a \<noteq> ReplayReplay" and "trimmedTxid n" and "length (l_integrityKey l) = 32"
    and "\<exists>p. canonicalSession (writtenSession clock n sig existing) = Inr p"
    and "\<exists>v \<in> set (db_vault (l_db l)). vr_VaultID v = rs_VaultID n"
  shows "\<exists>rec l'. ApplyRecoveryReplay l clock n sig = (Inr (a, Some rec), l') \<and>
    sealSession (writtenSession clock n sig existing) (l_integrityKey l) = Inr rec \<and>
    findRecoverySession (callKey n) (l_db l') = Some rec \<and> verifySession rec (l_integrityKey l) = Inr () \<and>
    l_integrityKey l' = l_integrityKey l \<and> db_vault (l_db l') = db_vault (l_db l)"
proof -
  note p = DecideReplay_purpose [OF assms(3)]
  have get: "GetRecoverySession l (rs_VaultID n) (rs_InputTxid n) (rs_InputVout n) (rs_Purpose n) = Inr existing"
    unfolding Get_callKey using assms(1,2) p by (auto split: option.splits)
  from assms(6,7) obtain rec where rec: "sealSession (writtenSession clock n sig existing) (l_integrityKey l) = Inr rec"
    by (auto simp: sealSession_def)
  then obtain m where m: "rec = writtenSession clock n sig existing\<lparr> rs_IntegrityMAC := m \<rparr>" "length m = 32"
    by (auto simp: sealSession_def sessionMAC_def res_simps split: if_splits)
  have v: "verifySession rec (l_integrityKey l) = Inr ()" using sealSession_keeps [OF rec] by simp
  have f: "rs_VaultID rec = rs_VaultID n" "rs_Purpose rec = rs_Purpose n" unfolding m(1) by (simp_all add: writtenSession_def)
  have "\<exists>d. upsertRecoverySession rec (l_db l) = Inr d"
    using p assms(8) m(2) f unfolding upsertRecoverySession_def m(1)
    by (auto simp: requireSessionPurpose_def find_row_None Let_def split: if_splits)
  then obtain d where d: "upsertRecoverySession rec (l_db l) = Inr d" ..
  have fd: "findRecoverySession (callKey n) d = Some rec"
    using Apply_wrote(1) [OF assms(5) rec d assms(1)] assms(2) by (cases existing) auto
  have get': "GetRecoverySession (l\<lparr> l_db := d \<rparr>) (rs_VaultID n) (rs_InputTxid n) (rs_InputVout n) (rs_Purpose n) = Inr (Some rec)"
    by (rule Get_found) (use fd v p in simp_all)
  have "db_vault d = db_vault (l_db l)" using upsertRecoverySession_Inr [OF d] by simp
  with Apply_unfold [OF get assms(3,4), of clock sig] rec d get' fd v show ?thesis by simp
qed

lemma writtenSession_fields:
  assumes "sealSession (writtenSession clock n sig e) key = Inr rec"
  shows "rs_DestScript rec = normalizeText (rs_DestScript n)" and "rs_InputTxid rec = normalizeText (rs_InputTxid n)"
    and "rs_InputVout rec = rs_InputVout n" and "rs_CreatedAt rec \<noteq> []"
    and "rs_Signature rec = case_option (case_option [] rs_Signature e) id sig"
    and "rs_LastSighash n \<noteq> [] \<Longrightarrow> rs_LastSighash rec = rs_LastSighash n"
proof -
  from sealSession_keeps [OF assms] obtain m where m: "rec = writtenSession clock n sig e\<lparr> rs_IntegrityMAC := m \<rparr>" by blast
  show "rs_CreatedAt rec \<noteq> []" unfolding m using writtenSession_created by simp
qed (use assms in \<open>auto dest!: sealSession_keeps simp: writtenSession_def split: option.splits\<close>)

lemma DecideReplay_first:
  "DecideReplay None n = Inr a \<longleftrightarrow> a = ReplaySign \<and> requireSessionPurpose (rs_Purpose n) = Inr () \<and>
     rs_VaultID n \<noteq> [] \<and> normalizeText (rs_InputTxid n) \<noteq> [] \<and> normalizeText (rs_DestScript n) \<noteq> []"
  by (auto simp: DecideReplay_def res_simps Let_def split: if_splits)

lemma DecideReplay_again:
  assumes "DecideReplay e0 n = Inr a" and "rs_DestScript e = normalizeText (rs_DestScript n)"
    and "rs_InputTxid e = normalizeText (rs_InputTxid n)" and "rs_InputVout e = rs_InputVout n"
    and "rs_LastSighash e = rs_LastSighash n" and "rs_LastSighash n \<noteq> []"
  shows "DecideReplay (Some e) n = Inr (if rs_Signature e = [] then ReplayResign else ReplayReplay)"
  using assms by (auto simp: DecideReplay_def res_simps Let_def split: if_splits)

lemma Apply_replays:
  assumes "findRecoverySession (callKey n) (l_db l) = Some e" and "verifySession e (l_integrityKey l) = Inr ()"
    and "DecideReplay (Some e) n = Inr ReplayReplay"
  shows "ApplyRecoveryReplay l clock n sig = (Inr (ReplayReplay, Some e), l)"
  using Get_found [OF assms(1,2) DecideReplay_purpose [OF assms(3)]] assms(3) by (simp add: ApplyRecoveryReplay_def)

text \<open>
  A signed transition is replayed, not signed again: for an outpoint with no session, the
  call before signing, the call with the signature and any later identical call return
  \<open>ReplaySign\<close>, \<open>ReplayResign\<close> and \<open>ReplayReplay\<close>, the last with exactly the recorded signature and
  without changing the ledger.
\<close>

theorem sign_then_replay:
  assumes "findRecoverySession (callKey n) (l_db l) = None" and "trimmedTxid n" and "rs_LastSighash n \<noteq> []" and "s \<noteq> []"
    and "ApplyRecoveryReplay l t n None = (Inr (a1, r1), l1)"
    and "ApplyRecoveryReplay l1 t1 n (Some s) = (Inr (a2, r2), l2)"
  shows "a1 = ReplaySign \<and> a2 = ReplayResign \<and>
    (\<exists>e. ApplyRecoveryReplay l2 t2 n sig = (Inr (ReplayReplay, Some e), l2) \<and> rs_Signature e = s)"
proof -
  from assms(5) have one: "a1 = ReplaySign \<and> (\<exists>e. findRecoverySession (callKey n) (l_db l1) = Some e \<and>
      verifySession e (l_integrityKey l1) = Inr () \<and> rs_CreatedAt e \<noteq> [] \<and>
      DecideReplay (Some e) n = Inr ReplayResign)"
  proof (cases rule: Apply_cases)
    case (wrote a existing rec d)
    note w = Apply_wrote(1) [OF assms(2) wrote(4,5,1)] and f = writtenSession_fields [OF wrote(4)]
    from wrote(1) assms(1) have e: "existing = None" by simp
    with w have "findRecoverySession (callKey n) d = Some rec" by auto
    moreover have "DecideReplay (Some rec) n = Inr ReplayResign"
      using DecideReplay_again [OF wrote(2) f(1-3) f(6) [OF assms(3)] assms(3)] f(5) e by simp
    ultimately show ?thesis
      using wrote(2,6) e f(4) sealSession_keeps [OF wrote(4)] bindR_action [OF wrote(7)]
      by (simp add: DecideReplay_first)
  qed (use assms(1) in simp_all)
  then obtain e where e: "findRecoverySession (callKey n) (l_db l1) = Some e" "rs_CreatedAt e \<noteq> []"
    "DecideReplay (Some e) n = Inr ReplayResign" by blast
  from assms(6) show ?thesis
  proof (cases rule: Apply_cases)
    case (wrote a existing rec d)
    note w = Apply_wrote(1) [OF assms(2) wrote(4,5,1)] and f = writtenSession_fields [OF wrote(4)]
    have "findRecoverySession (callKey n) (l_db l2) = Some rec" using w wrote(1,6) e by auto
    moreover have "DecideReplay (Some rec) n = Inr ReplayReplay" "rs_Signature rec = s"
      using DecideReplay_again [OF wrote(2) f(1-3) f(6) [OF assms(3)] assms(3)] f(5) assms(4) by simp_all
    moreover have "verifySession rec (l_integrityKey l2) = Inr ()" using sealSession_keeps [OF wrote(4)] wrote(6) by simp
    moreover have "a2 = ReplayResign" using wrote(1,2) bindR_action [OF wrote(7)] e by simp
    ultimately show ?thesis using one Apply_replays by blast
  qed (use e in simp_all)
qed

text \<open>
  C38. A fee bump loses its signature: with a signed session stored, the call before signing a
  transition with another sighash stores the new sighash beside the old signature, so that the
  call that brings the new signature is taken for a replay, discards it, and leaves the old
  signature recorded for the new sighash.
\<close>

theorem fee_bump_signature_lost:
  assumes "findRecoverySession (callKey n) (l_db l) = Some e" and "rs_Signature e \<noteq> []" and "rs_CreatedAt e \<noteq> []"
    and "trimmedTxid n" and "rs_LastSighash n \<noteq> []" and "rs_LastSighash n \<noteq> rs_LastSighash e"
    and "ApplyRecoveryReplay l t n None = (Inr (a, r), l1)"
  shows "a = ReplayResign \<and> (\<exists>e'. ApplyRecoveryReplay l1 t' n (Some s) = (Inr (ReplayReplay, Some e'), l1) \<and>
    rs_LastSighash e' = rs_LastSighash n \<and> rs_Signature e' = rs_Signature e)"
  using assms(7)
proof (cases rule: Apply_cases)
  case (replay x)
  with assms(1,6) show ?thesis by (auto simp: DecideReplay_def res_simps Let_def split: if_splits)
next
  case (wrote b existing rec d)
  note w = Apply_wrote(1) [OF assms(4) wrote(4,5,1)] and f = writtenSession_fields [OF wrote(4)]
  have x: "existing = Some e" using wrote(1) assms(1) by simp
  have "findRecoverySession (callKey n) (l_db l1) = Some rec" using w wrote(6) x assms(3) by auto
  moreover have "rs_Signature rec = rs_Signature e" "rs_LastSighash rec = rs_LastSighash n" using f(5,6) x assms(5) by simp_all
  moreover from this have "DecideReplay (Some rec) n = Inr ReplayReplay"
    using DecideReplay_again [OF wrote(2) f(1-3) f(6) [OF assms(5)] assms(5)] assms(2) by simp
  moreover have "verifySession rec (l_integrityKey l1) = Inr ()" using sealSession_keeps [OF wrote(4)] wrote(6) by simp
  moreover have "a = ReplayResign"
    using wrote(2,3) x bindR_action [OF wrote(7)] by (auto simp: DecideReplay_def res_simps Let_def split: if_splits)
  ultimately show ?thesis using Apply_replays by blast
qed simp

section \<open>Concrete instances\<close>

lemma canonicalSession_ok:
  "list_all fits (sessionFields r) \<Longrightarrow> 0 \<le> sint (rs_InputVout r) \<Longrightarrow> \<exists>p. canonicalSession r = Inr p"
  by (simp add: canonicalSession_def appendCredentialField_fits fits_short appendCredentialFields_fits)

definition exSession :: "string \<Rightarrow> string \<Rightarrow> RecoverySession" where
  "exSession dest sighash =
     \<lparr> rs_VaultID = ''v1'', rs_Purpose = ''initiate'', rs_InputTxid = ''ab'', rs_InputVout = 0, rs_DestScript = dest,
       rs_LastSighash = sighash, rs_Signature = [], rs_CreatedAt = [], rs_UpdatedAt = [], rs_IntegrityMAC = [] \<rparr>"

lemma exSession_simps [simp]: "rs_LastSighash (exSession x h) = h" "rs_DestScript (exSession x h) = x"
    "rs_InputVout (exSession x h) = 0" "rs_VaultID (exSession x h) = ''v1''" "normalizeText (rs_InputTxid (exSession x h)) = ''ab''"
    "trimmedTxid (exSession x h)" "callKey (exSession x h) = (''v1'', ''ab'', 0, ''initiate'')"
    "requireSessionPurpose (rs_Purpose (exSession x h)) = Inr ()"
  by (simp_all add: exSession_def trimmedTxid_def callKey_def normalizeText_def trim_space_def is_space_def to_lower_def
      to_lower_char_def requireSessionPurpose_def)

lemma ex_dest [simp]: "normalizeText ''51'' = ''51''" "normalizeText ''52'' = ''52''"
  by (simp_all add: normalizeText_def trim_space_def is_space_def to_lower_def to_lower_char_def)

text \<open>One successful call of the example, with or without a session stored.\<close>

lemma exApply:
  assumes "length h < 100" and "h \<noteq> []" and "length (case_option [] id sig) < 100"
    and "length (l_integrityKey l) = 32" and "db_vault (l_db l) = [exVault]"
    and "findRecoverySession (''v1'', ''ab'', 0, ''initiate'') (l_db l) = existing"
    and "\<And>e. existing = Some e \<Longrightarrow> verifySession e (l_integrityKey l) = Inr () \<and>
      rs_CreatedAt e = ''2026-01-01T00:00:00Z'' \<and> length (rs_Signature e) < 100"
    and "DecideReplay existing (exSession ''51'' h) = Inr a" and "a \<noteq> ReplayReplay"
  obtains r l' where "ApplyRecoveryReplay l exNow (exSession ''51'' h) sig = (Inr (a, Some r), l')"
    and "findRecoverySession (''v1'', ''ab'', 0, ''initiate'') (l_db l') = Some r"
    and "verifySession r (l_integrityKey l) = Inr ()" and "l_integrityKey l' = l_integrityKey l" and "db_vault (l_db l') = [exVault]"
    and "rs_CreatedAt r = ''2026-01-01T00:00:00Z''" and "rs_Signature r = case_option (case_option [] rs_Signature existing) id sig"
    and "rs_LastSighash r = h" and "rs_DestScript r = ''51''" and "rs_InputTxid r = ''ab''" and "rs_InputVout r = 0"
proof -
  let ?n = "exSession ''51'' h" and ?w = "writtenSession exNow (exSession ''51'' h) sig existing"
  have created: "rs_CreatedAt ?w = ''2026-01-01T00:00:00Z''"
    using assms(7) by (cases existing) (simp_all add: writtenSession_def exSession_def ex_nano)
  have "list_all fits (sessionFields ?w)"
    using assms(1-3,7) created
    by (cases existing; cases sig)
      (simp_all add: sessionFields_def fits_short, simp_all add: writtenSession_def ex_nano fits_short, simp_all add: exSession_def fits_short)
  then have canon: "\<exists>p. canonicalSession ?w = Inr p"
    by (rule canonicalSession_ok) (simp add: writtenSession_def)
  have ex: "verifySession e (l_integrityKey l) = Inr () \<and> rs_CreatedAt e \<noteq> []" if "existing = Some e" for e
    using assms(7) [OF that] by simp
  have f: "findRecoverySession (callKey ?n) (l_db l) = existing" using assms(6) by simp
  from Apply_succeeds [OF f ex assms(8,9) _ assms(4) canon] assms(5) obtain r l' where
    r: "ApplyRecoveryReplay l exNow ?n sig = (Inr (a, Some r), l')" "sealSession ?w (l_integrityKey l) = Inr r"
      "findRecoverySession (''v1'', ''ab'', 0, ''initiate'') (l_db l') = Some r" "verifySession r (l_integrityKey l) = Inr ()"
      "l_integrityKey l' = l_integrityKey l" "db_vault (l_db l') = [exVault]" by auto
  note w = writtenSession_fields [OF r(2)]
  have "rs_CreatedAt r = ''2026-01-01T00:00:00Z''"
    using sealSession_keeps [OF r(2)] created by auto
  with that r w assms(2) show thesis by simp
qed

lemma exSigned_session:
  "\<exists>r1 l1 r2 l2. ApplyRecoveryReplay (exLedger []) exNow (exSession ''51'' ''h1'') None = (Inr (ReplaySign, Some r1), l1) \<and>
     ApplyRecoveryReplay l1 exNow (exSession ''51'' ''h1'') (Some [1]) = (Inr (ReplayResign, Some r2), l2) \<and>
     findRecoverySession (''v1'', ''ab'', 0, ''initiate'') (l_db l2) = Some r2 \<and> verifySession r2 (l_integrityKey l2) = Inr () \<and>
     length (l_integrityKey l2) = 32 \<and> db_vault (l_db l2) = [exVault] \<and> rs_CreatedAt r2 = ''2026-01-01T00:00:00Z'' \<and>
     rs_Signature r2 = [1] \<and> rs_LastSighash r2 = ''h1'' \<and> rs_DestScript r2 = ''51'' \<and> rs_InputTxid r2 = ''ab'' \<and> rs_InputVout r2 = 0"
proof -
  let ?k = "(''v1'', ''ab'', 0, ''initiate'')"
  have none: "findRecoverySession ?k (l_db (exLedger [])) = None"
    by (simp add: findRecoverySession_def exLedger_def emptyDb_def)
  obtain r1 l1 where one: "ApplyRecoveryReplay (exLedger []) exNow (exSession ''51'' ''h1'') None = (Inr (ReplaySign, Some r1), l1)"
    "findRecoverySession ?k (l_db l1) = Some r1" "verifySession r1 exKey = Inr ()" "l_integrityKey l1 = exKey" "db_vault (l_db l1) = [exVault]"
    "rs_CreatedAt r1 = ''2026-01-01T00:00:00Z''" "rs_Signature r1 = []" "rs_LastSighash r1 = ''h1''" "rs_DestScript r1 = ''51''"
    "rs_InputTxid r1 = ''ab''" "rs_InputVout r1 = 0"
    by (rule exApply [of "''h1''" None "exLedger []" None ReplaySign]) (simp_all add: none DecideReplay_first)
  have dec: "DecideReplay (Some r1) (exSession ''51'' ''h1'') = Inr ReplayResign"
    using one by (simp add: DecideReplay_def)
  obtain r2 l2 where "ApplyRecoveryReplay l1 exNow (exSession ''51'' ''h1'') (Some [1]) = (Inr (ReplayResign, Some r2), l2)"
    "findRecoverySession ?k (l_db l2) = Some r2" "verifySession r2 exKey = Inr ()" "l_integrityKey l2 = exKey" "db_vault (l_db l2) = [exVault]"
    "rs_CreatedAt r2 = ''2026-01-01T00:00:00Z''" "rs_Signature r2 = [1]" "rs_LastSighash r2 = ''h1''" "rs_DestScript r2 = ''51''"
    "rs_InputTxid r2 = ''ab''" "rs_InputVout r2 = 0"
    by (rule exApply [of "''h1''" "Some [1]" l1 "Some r1" ReplayResign]) (use one dec in auto)
  with one show ?thesis by (intro exI [of _ r1] exI [of _ l1] exI [of _ r2] exI [of _ l2]) simp
qed


theorem second_destination_refused_witness:
  "\<exists>r l e. ApplyRecoveryReplay (exLedger []) exNow (exSession ''51'' ''h1'') None = (Inr (ReplaySign, Some r), l) \<and>
     ApplyRecoveryReplay (applyRun [(exNow, exSession ''51'' ''h1'', Some [1])] l) exNow (exSession ''52'' ''h3'') None =
       (Inl e, applyRun [(exNow, exSession ''51'' ''h1'', Some [1])] l)"
proof -
  obtain r l where a: "ApplyRecoveryReplay (exLedger []) exNow (exSession ''51'' ''h1'') None = (Inr (ReplaySign, Some r), l)"
    using exSigned_session by blast
  from second_destination_refused [OF a, of "[(exNow, exSession ''51'' ''h1'', Some [1])]" "exSession ''52'' ''h3''" exNow None]
  show ?thesis using a by auto
qed

theorem sign_then_replay_witness:
  "\<exists>r1 l1 r2 l2 e. ApplyRecoveryReplay (exLedger []) exNow (exSession ''51'' ''h1'') None = (Inr (ReplaySign, r1), l1) \<and>
     ApplyRecoveryReplay l1 exNow (exSession ''51'' ''h1'') (Some [1]) = (Inr (ReplayResign, r2), l2) \<and>
     ApplyRecoveryReplay l2 exNow (exSession ''51'' ''h1'') None = (Inr (ReplayReplay, Some e), l2) \<and> rs_Signature e = [1]"
proof -
  obtain r1 l1 r2 l2 where a: "ApplyRecoveryReplay (exLedger []) exNow (exSession ''51'' ''h1'') None = (Inr (ReplaySign, Some r1), l1)"
    "ApplyRecoveryReplay l1 exNow (exSession ''51'' ''h1'') (Some [1]) = (Inr (ReplayResign, Some r2), l2)"
    using exSigned_session by blast
  have none: "findRecoverySession (callKey (exSession ''51'' ''h1'')) (l_db (exLedger [])) = None"
    by (simp add: findRecoverySession_def exLedger_def emptyDb_def)
  from sign_then_replay [OF none _ _ _ a, of exNow None] a show ?thesis by auto
qed

theorem fee_bump_signature_lost_witness:
  "\<exists>l r1 l1 e. ApplyRecoveryReplay l exNow (exSession ''51'' ''h2'') None = (Inr (ReplayResign, r1), l1) \<and>
     ApplyRecoveryReplay l1 exNow (exSession ''51'' ''h2'') (Some [2]) = (Inr (ReplayReplay, Some e), l1) \<and>
     rs_LastSighash e = ''h2'' \<and> rs_Signature e = [1]"
proof -
  let ?k = "(''v1'', ''ab'', 0, ''initiate'')"
  obtain r2 :: RecoverySession and l2 :: Ledger where s: "findRecoverySession ?k (l_db l2) = Some r2" "verifySession r2 (l_integrityKey l2) = Inr ()"
    "length (l_integrityKey l2) = 32" "db_vault (l_db l2) = [exVault]" "rs_CreatedAt r2 = ''2026-01-01T00:00:00Z''"
    "rs_Signature r2 = [1]" "rs_LastSighash r2 = ''h1''" "rs_DestScript r2 = ''51''" "rs_InputTxid r2 = ''ab''" "rs_InputVout r2 = 0"
    using exSigned_session by (elim exE conjE) (rule that)
  have dec: "DecideReplay (Some r2) (exSession ''51'' ''h2'') = Inr ReplayResign" using s by (simp add: DecideReplay_def)
  obtain r3 l3 where b: "ApplyRecoveryReplay l2 exNow (exSession ''51'' ''h2'') None = (Inr (ReplayResign, Some r3), l3)"
    by (rule exApply [of "''h2''" None l2 "Some r2" ReplayResign]) (use s dec in auto)
  from fee_bump_signature_lost [OF _ _ _ _ _ _ b, of r2 exNow "[2]"] b s show ?thesis by auto
qed

lemma sql_length_a: "sql_length (replicate n CHR ''a'') = n"
  by (induction n) simp_all

text \<open>
  A recovery map that was stored is read back: after a successful \<open>PutVaultMap\<close>, \<open>GetVaultMap\<close>
  for the same vault returns the payload and the normalised kit hash, and the maps of
  other vaults are what they were.
\<close>

theorem vault_map_roundtrip:
  assumes "PutVaultMap l t rec = (Inr (), l')"
  shows "GetVaultMap l' (map_VaultID rec) =
      Inr (Some \<lparr> map_VaultID = trim_space (map_VaultID rec), map_KitHash = normalizeText (map_KitHash rec), map_Payload = map_Payload rec \<rparr>) \<and>
    (\<forall>v. trim_space v = trim_space (map_VaultID rec) \<or> GetVaultMap l' v = GetVaultMap l v)"
proof -
  let ?rec = "\<lparr> map_VaultID = trim_space (map_VaultID rec), map_KitHash = normalizeText (map_KitHash rec), map_Payload = map_Payload rec \<rparr>"
  let ?row = "\<lparr> vm_VaultID = trim_space (map_VaultID rec), vm_KitHash = normalizeText (map_KitHash rec), vm_Payload = map_Payload rec,
    vm_UpdatedAt = formatRFC3339Nano t, vm_IntegrityMAC = vaultMapMAC ?rec (l_integrityKey l) \<rparr>"
  have rec: "rec\<lparr> map_VaultID := trim_space (map_VaultID rec), map_KitHash := normalizeText (map_KitHash rec) \<rparr> = ?rec"
    by (cases rec) simp
  from assms obtain d where d: "upsertVaultMap ?row (l_db l) = Inr d" and l': "l' = l\<lparr> l_db := d \<rparr>"
    and ok: "length (l_integrityKey l) = 32" "trim_space (map_VaultID rec) \<noteq> []"
    unfolding PutVaultMap_def Let_def rec by (auto split: if_splits sum.splits)
  have other: "find_row (\<lambda>x. vm_VaultID x = v) (db_vault_map d) = find_row (\<lambda>x. vm_VaultID x = v) (db_vault_map (l_db l))"
    if "v \<noteq> trim_space (map_VaultID rec)" for v
    using vault_maps.look_other [OF d, of v] that by simp
  have "GetVaultMap l' v = GetVaultMap l v" if "trim_space v \<noteq> trim_space (map_VaultID rec)" for v
    using other [OF that] by (simp add: GetVaultMap_def l' Let_def split: option.split)
  moreover have "GetVaultMap l' (map_VaultID rec) = Inr (Some ?rec)"
    using vault_maps.look_upsert [OF d] ok by (simp add: GetVaultMap_def Let_def l')
  ultimately show ?thesis by blast
qed

theorem vault_map_roundtrip_witness:
  "GetVaultMap (snd (PutVaultMap (exLedger []) exNow \<lparr> map_VaultID = '' v1'', map_KitHash = replicate 64 CHR ''a'', map_Payload = ''p'' \<rparr>)) '' v1'' =
     Inr (Some \<lparr> map_VaultID = ''v1'', map_KitHash = replicate 64 CHR ''a'', map_Payload = ''p'' \<rparr>)"
proof -
  let ?m = "\<lparr> map_VaultID = '' v1'', map_KitHash = replicate 64 CHR ''a'', map_Payload = ''p'' \<rparr>"
  have t: "trim_space '' v1'' = ''v1''" by (simp add: trim_space_def is_space_def)
  have k: "normalizeText (replicate 64 CHR ''a'') = replicate 64 CHR ''a''"
    by (simp add: normalizeText_def trim_space_def is_space_def to_lower_def to_lower_char_def)
  have "fst (PutVaultMap (exLedger []) exNow ?m) = Inr ()"
    by (simp add: PutVaultMap_def Let_def t k upsertVaultMap_def vaultMapMAC_def sql_length_a)
  then have "PutVaultMap (exLedger []) exNow ?m = (Inr (), snd (PutVaultMap (exLedger []) exNow ?m))" by (metis prod.collapse)
  from vault_map_roundtrip [OF this] show ?thesis by (simp add: t k)
qed

end
