(* ===== verification/BoardLedger.thy ===== *)
theory BoardLedger
  imports LedgerCore
begin

text \<open>
  The boarding ledger of \<open>internal/policy/vault_board.go\<close>: allocating a register attempt,
  authorizing and dispatching its delete or finalize phase, recording dispatches and the
  operator's results, and reading the current attempt. Each method runs in one SQL transaction:
  its body computes the database it would commit, \<open>finishTx\<close> advances the policy sequence and
  commits. \<open>chain\<close> is the \<open>TipMTP\<close> of the chain state.
\<close>

section \<open>Ending a transaction\<close>

text \<open>
  \<open>observe\<close> says whether the branch that returned advances the policy sequence before its
  \<open>COMMIT\<close>; the branches that only re-read an existing row do not.
\<close>

definition finishTx :: "file_fault \<Rightarrow> bool \<Rightarrow> Ledger \<Rightarrow> (bool \<times> 'r \<times> db) result \<Rightarrow> 'r result \<times> Ledger" where
  "finishTx fault commitFails l body =
     (case body of
        Inl e \<Rightarrow> (Inl e, l)
      | Inr (observe, x, d) \<Rightarrow>
          if observe then
            (case observeAndCommit fault commitFails l d of
               (Inl e, l') \<Rightarrow> (Inl e, l')
             | (Inr _, l') \<Rightarrow> (Inr x, l'))
          else if commitFails then (Inl ErrIO, l)
          else (Inr x, l\<lparr> l_db := d \<rparr>))"

section \<open>Reading\<close>

definition loadVaultBoardOperation :: "db \<Rightarrow> string \<Rightarrow> VaultBoardOperation option" where
  "loadVaultBoardOperation d opID = find_row (\<lambda>r. bo_OperationID r = opID) (db_vault_board_operation d)"

definition loadVaultBoardAuthorization :: "db \<Rightarrow> string \<Rightarrow> u32 \<Rightarrow> string \<Rightarrow> VaultBoardAuthorization option" where
  "loadVaultBoardAuthorization d opID attempt phase =
     find_row (\<lambda>r. ba_OperationID r = opID \<and> ba_Attempt r = attempt \<and> ba_Phase r = phase) (db_vault_board_authorization d)"

definition loadVaultBoardSubmission :: "db \<Rightarrow> string \<Rightarrow> u32 \<Rightarrow> string \<Rightarrow> VaultBoardSubmission option" where
  "loadVaultBoardSubmission d opID attempt phase =
     find_row (\<lambda>r. bs_OperationID r = opID \<and> bs_Attempt r = attempt \<and> bs_Phase r = phase) (db_vault_board_submission d)"

definition loadVaultBoardDispatch :: "db \<Rightarrow> string \<Rightarrow> u32 \<Rightarrow> string \<Rightarrow> VaultBoardDispatch option" where
  "loadVaultBoardDispatch d opID attempt phase =
     find_row (\<lambda>r. bd_OperationID r = opID \<and> bd_Attempt r = attempt \<and> bd_Phase r = phase) (db_vault_board_dispatch d)"

definition registerRows :: "db \<Rightarrow> string \<Rightarrow> VaultBoardAuthorization list" where
  "registerRows d opID =
     sort_key ba_Attempt (filter (\<lambda>r. ba_OperationID r = opID \<and> ba_Phase r = VaultBoardPhaseRegister)
       (db_vault_board_authorization d))"

definition loadLatestVaultBoardRegister :: "db \<Rightarrow> string \<Rightarrow> VaultBoardAuthorization option" where
  "loadLatestVaultBoardRegister d opID =
     (case rev (registerRows d opID) of [] \<Rightarrow> None | r # _ \<Rightarrow> Some r)"

definition loadVerifiedVaultBoardRegisters :: "bytes \<Rightarrow> db \<Rightarrow> string \<Rightarrow> VaultBoardAuthorization list result" where
  "loadVerifiedVaultBoardRegisters key d opID =
     mapR (\<lambda>r. bindR (VerifyVaultBoardAuthorization r key) (\<lambda>_. Inr r)) (registerRows d opID)"

text \<open>A row that must exist, and one that may be missing, each verified before it is used.\<close>

definition requiredRow :: "('r \<Rightarrow> bytes \<Rightarrow> unit result) \<Rightarrow> bytes \<Rightarrow> error \<Rightarrow> 'r option \<Rightarrow> 'r result" where
  "requiredRow verify key missing row =
     (case row of None \<Rightarrow> Inl missing | Some r \<Rightarrow> bindR (verify r key) (\<lambda>_. Inr r))"

definition loadOptionalVerified :: "('r \<Rightarrow> bytes \<Rightarrow> unit result) \<Rightarrow> bytes \<Rightarrow> 'r option \<Rightarrow> 'r option result" where
  "loadOptionalVerified verify key row =
     (case row of None \<Rightarrow> Inr None | Some r \<Rightarrow> bindR (verify r key) (\<lambda>_. Inr (Some r)))"

definition loadOptionalVerifiedVaultBoardAuthorization ::
  "bytes \<Rightarrow> db \<Rightarrow> string \<Rightarrow> u32 \<Rightarrow> string \<Rightarrow> VaultBoardAuthorization option result" where
  "loadOptionalVerifiedVaultBoardAuthorization key d opID attempt phase =
     loadOptionalVerified VerifyVaultBoardAuthorization key (loadVaultBoardAuthorization d opID attempt phase)"

definition loadOptionalVerifiedVaultBoardSubmission ::
  "bytes \<Rightarrow> db \<Rightarrow> string \<Rightarrow> u32 \<Rightarrow> string \<Rightarrow> VaultBoardSubmission option result" where
  "loadOptionalVerifiedVaultBoardSubmission key d opID attempt phase =
     loadOptionalVerified VerifyVaultBoardSubmission key (loadVaultBoardSubmission d opID attempt phase)"

definition loadOptionalVerifiedVaultBoardDispatch ::
  "bytes \<Rightarrow> db \<Rightarrow> string \<Rightarrow> u32 \<Rightarrow> string \<Rightarrow> VaultBoardDispatch option result" where
  "loadOptionalVerifiedVaultBoardDispatch key d opID attempt phase =
     loadOptionalVerified VerifyVaultBoardDispatch key (loadVaultBoardDispatch d opID attempt phase)"

section \<open>Enrollment\<close>

definition PutVaultBoardEnrollmentTx :: "string \<Rightarrow> VaultBoardEnrollment \<Rightarrow> db \<Rightarrow> db result" where
  "PutVaultBoardEnrollmentTx network rec d = insertBoardEnrollment network rec d"

definition GetVaultBoardEnrollment :: "Ledger \<Rightarrow> string \<Rightarrow> VaultBoardEnrollment option result" where
  "GetVaultBoardEnrollment l vaultID =
     (if vaultID = [] then Inl (Errorf ''vault id required'')
      else bindR (integrityKeyCopy l) (\<lambda>key.
        loadOptionalVerified VerifyVaultBoardEnrollment key
          (find_row (\<lambda>r. be_VaultID r = vaultID) (db_vault_board_enrollment (l_db l)))))"

section \<open>The current attempt\<close>

text \<open>
  A result or dispatch must carry the digest of its authorization. The source checks the three
  dispatches in the order of a map iteration, which only decides the phase named in the message.
\<close>

definition digestMismatch :: "bytes option \<Rightarrow> VaultBoardAuthorization option \<Rightarrow> bool" where
  "digestMismatch digest auth \<longleftrightarrow>
     (case digest of None \<Rightarrow> False
      | Some x \<Rightarrow> (case auth of None \<Rightarrow> True | Some a \<Rightarrow> x \<noteq> ba_RequestDigest a))"

definition checkSnapshot :: "VaultBoardAttemptSnapshot \<Rightarrow> VaultBoardAttemptSnapshot result" where
  "checkSnapshot s =
     (if digestMismatch (map_option bs_RequestDigest (sn_RegisterSubmission s)) (Some (sn_Register s)) then
        Inl (Errorf ''vault-board-v1 register result digest mismatch'')
      else if digestMismatch (map_option bs_RequestDigest (sn_DeleteSubmission s)) (sn_DeleteAuthorization s) then
        Inl (Errorf ''vault-board-v1 delete result digest mismatch'')
      else if digestMismatch (map_option bs_RequestDigest (sn_FinalSubmission s)) (sn_FinalAuthorization s) then
        Inl (Errorf ''vault-board-v1 final result digest mismatch'')
      else if digestMismatch (map_option bd_RequestDigest (sn_RegisterDispatch s)) (Some (sn_Register s)) \<or>
          digestMismatch (map_option bd_RequestDigest (sn_DeleteDispatch s)) (sn_DeleteAuthorization s) \<or>
          digestMismatch (map_option bd_RequestDigest (sn_FinalDispatch s)) (sn_FinalAuthorization s) then
        Inl (Errorf ''vault-board-v1 %s dispatch digest mismatch'')
      else Inr s)"

definition GetCurrentVaultBoardAttempt :: "Ledger \<Rightarrow> string \<Rightarrow> VaultBoardAttemptSnapshot option result" where
  "GetCurrentVaultBoardAttempt l opID =
     (if opID = [] then Inl (Errorf ''vault-board-v1 operation id required'')
      else bindR (integrityKeyCopy l) (\<lambda>key. let d = l_db l in
        case loadVaultBoardOperation d opID of
          None \<Rightarrow> Inr None
        | Some operation \<Rightarrow>
            bindR (VerifyVaultBoardOperation operation key) (\<lambda>_.
            bindR (requiredRow VerifyVaultBoardAuthorization key
                (Errorf ''vault-board-v1 operation has no register attempt'') (loadLatestVaultBoardRegister d opID)) (\<lambda>register.
            let attempt = ba_Attempt register in
            bindR (loadOptionalVerifiedVaultBoardDispatch key d opID attempt VaultBoardPhaseRegister) (\<lambda>rd.
            bindR (loadOptionalVerifiedVaultBoardSubmission key d opID attempt VaultBoardPhaseRegister) (\<lambda>rs.
            bindR (loadOptionalVerifiedVaultBoardAuthorization key d opID attempt VaultBoardPhaseDelete) (\<lambda>da.
            bindR (loadOptionalVerifiedVaultBoardDispatch key d opID attempt VaultBoardPhaseDelete) (\<lambda>dd.
            bindR (loadOptionalVerifiedVaultBoardSubmission key d opID attempt VaultBoardPhaseDelete) (\<lambda>ds.
            bindR (loadOptionalVerifiedVaultBoardAuthorization key d opID attempt VaultBoardPhaseFinalize) (\<lambda>fa.
            bindR (loadOptionalVerifiedVaultBoardDispatch key d opID attempt VaultBoardPhaseFinalize) (\<lambda>fd.
            bindR (loadOptionalVerifiedVaultBoardSubmission key d opID attempt VaultBoardPhaseFinalize) (\<lambda>fs.
            bindR (checkSnapshot \<lparr> sn_Operation = operation, sn_Register = register,
              sn_RegisterDispatch = rd, sn_RegisterSubmission = rs, sn_DeleteAuthorization = da,
              sn_DeleteDispatch = dd, sn_DeleteSubmission = ds, sn_FinalAuthorization = fa,
              sn_FinalDispatch = fd, sn_FinalSubmission = fs \<rparr>) (\<lambda>s. Inr (Some s))))))))))))))"

section \<open>Checks\<close>

definition sameVaultBoardOperationFacts :: "VaultBoardOperation \<Rightarrow> VaultBoardOperation \<Rightarrow> bool" where
  "sameVaultBoardOperationFacts stored proposed \<longleftrightarrow>
     bo_OperationID stored = bo_OperationID proposed \<and> bo_VaultID stored = bo_VaultID proposed \<and>
     bo_Txid stored = bo_Txid proposed \<and> bo_Vout stored = bo_Vout proposed \<and>
     bo_ValueSats stored = bo_ValueSats proposed \<and> bo_BoardingScript stored = bo_BoardingScript proposed \<and>
     bo_ReceiverScript stored = bo_ReceiverScript proposed \<and> bo_SequenceAnchorMTP stored = bo_SequenceAnchorMTP proposed"

definition sameVaultBoardAuthorizationRequest :: "VaultBoardAuthorization \<Rightarrow> VaultBoardAuthorization \<Rightarrow> bool" where
  "sameVaultBoardAuthorizationRequest stored proposed \<longleftrightarrow>
     ba_OperationID stored = ba_OperationID proposed \<and> ba_Attempt stored = ba_Attempt proposed \<and>
     ba_Phase stored = ba_Phase proposed \<and> ba_RequestDigest stored = ba_RequestDigest proposed \<and>
     ba_TreeSessionPub stored = ba_TreeSessionPub proposed \<and> ba_ReceiverSats stored = ba_ReceiverSats proposed \<and>
     ba_FeeSats stored = ba_FeeSats proposed \<and> ba_ExpireAt stored = ba_ExpireAt proposed \<and>
     ba_CommitmentTxid stored = ba_CommitmentTxid proposed \<and> ba_ReceiverTxid stored = ba_ReceiverTxid proposed \<and>
     ba_ReceiverVout stored = ba_ReceiverVout proposed"

definition requireVaultBoardCooperativeWindow :: "Ledger \<Rightarrow> VaultBoardOperation \<Rightarrow> i64 \<Rightarrow> unit result" where
  "requireVaultBoardCooperativeWindow l operation tipMTP =
     bindR (PinsFor (l_network l)) (\<lambda>pins.
     let delay = (ucast (np_BoardExitDelay pins) :: i64); anchor = bo_SequenceAnchorMTP operation in
     if sint anchor \<le> 0 \<or> sint tipMTP \<le> 0 then
       Inl (Errorf ''authoritative vault-board-v1 chain MTP required'')
     else if sint anchor > sint (max_i64 - delay) \<or> sint tipMTP \<ge> sint (anchor + delay) then
       Inl (Errorf ''vault-board-v1 cooperative path has matured'')
     else Inr ())"

abbreviation stillActive :: error where
  "stillActive \<equiv> Errorf ''previous vault-board-v1 register is still active''"

definition requireVaultBoardAttemptCanRotate :: "bytes \<Rightarrow> db \<Rightarrow> string \<Rightarrow> u32 \<Rightarrow> time \<Rightarrow> unit result" where
  "requireVaultBoardAttemptCanRotate key d opID attempt now =
     (case loadVaultBoardAuthorization d opID attempt VaultBoardPhaseFinalize of
        Some finalAuth \<Rightarrow>
          bindR (VerifyVaultBoardAuthorization finalAuth key) (\<lambda>_.
          Inl (Errorf ''finalized vault-board-v1 attempt cannot rotate''))
      | None \<Rightarrow>
          bindR (requiredRow VerifyVaultBoardAuthorization key ErrNoRows
              (loadVaultBoardAuthorization d opID attempt VaultBoardPhaseRegister)) (\<lambda>register.
          case loadVaultBoardDispatch d opID attempt VaultBoardPhaseRegister of
            None \<Rightarrow> Inr ()
          | Some registerDispatch \<Rightarrow>
              bindR (VerifyVaultBoardDispatch registerDispatch key) (\<lambda>_.
              bindR (requiredRow VerifyVaultBoardSubmission key stillActive
                  (loadVaultBoardSubmission d opID attempt VaultBoardPhaseRegister)) (\<lambda>registerResult.
              if bs_Outcome registerResult = VaultBoardAuthRejected then Inr ()
              else
                let supersede = (if bs_Outcome registerResult = VaultBoardAuthSubmitted \<and>
                      VaultBoardRegisterCanSupersede (ba_ExpireAt register) now then Inr () else Inl stillActive)
                in case loadVaultBoardAuthorization d opID attempt VaultBoardPhaseDelete of
                     None \<Rightarrow> supersede
                   | Some deleteAuth \<Rightarrow>
                       bindR (VerifyVaultBoardAuthorization deleteAuth key) (\<lambda>_.
                       case loadVaultBoardDispatch d opID attempt VaultBoardPhaseDelete of
                         None \<Rightarrow> supersede
                       | Some deleteDispatch \<Rightarrow>
                           bindR (VerifyVaultBoardDispatch deleteDispatch key) (\<lambda>_.
                           case loadVaultBoardSubmission d opID attempt VaultBoardPhaseDelete of
                             None \<Rightarrow> Inl stillActive
                           | Some deleteResult \<Rightarrow>
                               bindR (VerifyVaultBoardSubmission deleteResult key) (\<lambda>_.
                               if bs_Outcome deleteResult = VaultBoardAuthReleased \<and>
                                   bs_RequestDigest deleteResult = ba_RequestDigest deleteAuth then Inr ()
                               else Inl stillActive)))))))"

definition requireVaultBoardAttemptCurrent :: "bytes \<Rightarrow> db \<Rightarrow> string \<Rightarrow> u32 \<Rightarrow> unit result" where
  "requireVaultBoardAttemptCurrent key d opID attempt =
     bindR (loadOptionalVerified VerifyVaultBoardSubmission key
         (loadVaultBoardSubmission d opID attempt VaultBoardPhaseRegister)) (\<lambda>registerResult.
     if (case registerResult of None \<Rightarrow> False | Some r \<Rightarrow> bs_Outcome r = VaultBoardAuthRejected) then
       Inl (Errorf ''vault-board-v1 register request was definitely rejected'')
     else
       bindR (loadOptionalVerified VerifyVaultBoardAuthorization key
           (loadVaultBoardAuthorization d opID attempt VaultBoardPhaseFinalize)) (\<lambda>finalAuth.
       if finalAuth \<noteq> None then Inl (Errorf ''vault-board-v1 attempt has final authorization'')
       else
         bindR (loadOptionalVerified VerifyVaultBoardAuthorization key
             (loadVaultBoardAuthorization d opID attempt VaultBoardPhaseDelete)) (\<lambda>deleteAuth.
         if deleteAuth \<noteq> None then Inl (Errorf ''vault-board-v1 attempt has delete authorization'')
         else
           bindR (loadOptionalVerified VerifyVaultBoardSubmission key
               (loadVaultBoardSubmission d opID attempt VaultBoardPhaseDelete)) (\<lambda>deleteResult.
           if deleteResult \<noteq> None then Inl (Errorf ''vault-board-v1 attempt was authoritatively released'')
           else Inr ()))))"

definition validateVaultBoardPhaseOrder :: "bytes \<Rightarrow> db \<Rightarrow> VaultBoardAuthorization \<Rightarrow> unit result" where
  "validateVaultBoardPhaseOrder key d auth =
     (let opID = ba_OperationID auth; attempt = ba_Attempt auth in
     bindR (requiredRow VerifyVaultBoardAuthorization key ErrNoRows (loadLatestVaultBoardRegister d opID)) (\<lambda>latest.
     if ba_Attempt latest \<noteq> attempt then Inl (Errorf ''vault-board-v1 attempt is no longer current'')
     else
       bindR (loadOptionalVerified VerifyVaultBoardAuthorization key
           (loadVaultBoardAuthorization d opID attempt VaultBoardPhaseRegister)) (\<lambda>register.
       if ba_Phase auth = VaultBoardPhaseDelete \<or> ba_Phase auth = VaultBoardPhaseFinalize then
         (if register = None then Inl (Errorf ''vault-board-v1 register authorization required'')
          else
            bindR (requiredRow VerifyVaultBoardSubmission key (Errorf ''vault-board-v1 register submission required'')
                (loadVaultBoardSubmission d opID attempt VaultBoardPhaseRegister)) (\<lambda>registerSubmission.
            if bs_Outcome registerSubmission \<noteq> VaultBoardAuthSubmitted then
              Inl (Errorf ''vault-board-v1 register was not accepted'')
            else
              let opposite = (if ba_Phase auth = VaultBoardPhaseFinalize then VaultBoardPhaseDelete else VaultBoardPhaseFinalize)
              in bindR (loadOptionalVerified VerifyVaultBoardAuthorization key
                     (loadVaultBoardAuthorization d opID attempt opposite)) (\<lambda>oppositeAuth.
                 if oppositeAuth \<noteq> None then
                   Inl (Errorf ''vault-board-v1 delete and finalize are mutually exclusive'')
                 else Inr ())))
       else Inl (Errorf ''invalid vault-board-v1 phase''))))"

section \<open>Beginning an attempt\<close>

text \<open>The stored operation of the outpoint, or the one the call inserts.\<close>

definition bindVaultBoardOperation ::
  "bytes \<Rightarrow> time \<Rightarrow> VaultBoardOperation \<Rightarrow> db \<Rightarrow> (VaultBoardOperation \<times> db) result" where
  "bindVaultBoardOperation key now operation d =
     (case loadVaultBoardOperation d (bo_OperationID operation) of
        Some stored \<Rightarrow>
          bindR (VerifyVaultBoardOperation stored key) (\<lambda>_.
          if \<not> sameVaultBoardOperationFacts stored operation then
            Inl (Errorf ''vault-board-v1 outpoint is bound to different economic facts'')
          else Inr (stored, d))
      | None \<Rightarrow>
          bindR (SealVaultBoardOperation (operation\<lparr> bo_CreatedAt := formatRFC3339Nano now \<rparr>) key) (\<lambda>operation.
          bindR (insertBoardOperation operation d) (\<lambda>d. Inr (operation, d))))"

text \<open>The first earlier attempt that shares the digest or the key, and whether it is the last.\<close>

fun reusedAttempt :: "VaultBoardRegisterRequest \<Rightarrow> VaultBoardAuthorization list \<Rightarrow> (VaultBoardAuthorization \<times> bool) option" where
  "reusedAttempt request [] = None"
| "reusedAttempt request (prior # later) =
     (if ba_RequestDigest prior = br_RequestDigest request \<or> ba_TreeSessionPub prior = br_TreeSessionPub request then
        Some (prior, later = [])
      else reusedAttempt request later)"

definition sameRegister :: "VaultBoardAuthorization \<Rightarrow> VaultBoardRegisterRequest \<Rightarrow> bool" where
  "sameRegister prior request \<longleftrightarrow>
     ba_RequestDigest prior = br_RequestDigest request \<and> ba_TreeSessionPub prior = br_TreeSessionPub request \<and>
     ba_ReceiverSats prior = br_ReceiverSats request \<and> ba_FeeSats prior = br_FeeSats request \<and>
     ba_ExpireAt prior = br_ExpireAt request"

definition nextAttempt :: "bytes \<Rightarrow> db \<Rightarrow> string \<Rightarrow> time \<Rightarrow> VaultBoardAuthorization list \<Rightarrow> u32 result" where
  "nextAttempt key d opID now registers =
     (case rev registers of
        [] \<Rightarrow> Inr 0
      | latest # _ \<Rightarrow>
          if ba_Attempt latest = 0xffffffff then Inl (Errorf ''vault-board-v1 attempt overflow'')
          else bindR (requireVaultBoardAttemptCanRotate key d opID (ba_Attempt latest) now) (\<lambda>_.
            Inr (ba_Attempt latest + 1)))"

definition registerAuthorization :: "string \<Rightarrow> u32 \<Rightarrow> time \<Rightarrow> VaultBoardRegisterRequest \<Rightarrow> VaultBoardAuthorization" where
  "registerAuthorization opID attempt now request =
     \<lparr> ba_OperationID = opID, ba_Attempt = attempt, ba_Phase = VaultBoardPhaseRegister,
       ba_RequestDigest = br_RequestDigest request, ba_TreeSessionPub = br_TreeSessionPub request,
       ba_ReceiverSats = br_ReceiverSats request, ba_FeeSats = br_FeeSats request, ba_ExpireAt = br_ExpireAt request,
       ba_CommitmentTxid = [], ba_ReceiverTxid = [], ba_ReceiverVout = 0,
       ba_CreatedAt = formatRFC3339Nano now, ba_IntegrityMAC = [] \<rparr>"

text \<open>The end of the transaction: the exact retry of the latest attempt, or a new attempt.\<close>

definition allocateAttempt ::
  "bytes \<Rightarrow> time \<Rightarrow> string \<Rightarrow> VaultBoardRegisterRequest \<Rightarrow> VaultBoardOperation \<Rightarrow> db \<Rightarrow> VaultBoardAuthorization list \<Rightarrow>
     (bool \<times> (VaultBoardOperation \<times> VaultBoardAuthorization \<times> bool) \<times> db) result" where
  "allocateAttempt key now opID request stored d registers =
     (case reusedAttempt request registers of
        Some (prior, isLatest) \<Rightarrow>
          if isLatest \<and> sameRegister prior request then
            bindR (requireVaultBoardAttemptCurrent key d opID (ba_Attempt prior)) (\<lambda>_.
            Inr (False, (stored, prior, False), d))
          else Inl (Errorf ''vault-board-v1 attempt must rotate register digest and tree session key'')
      | None \<Rightarrow>
          bindR (nextAttempt key d opID now registers) (\<lambda>attempt.
          bindR (SealVaultBoardAuthorization (registerAuthorization opID attempt now request) key) (\<lambda>auth.
          bindR (insertBoardAuthorization auth d) (\<lambda>d.
          Inr (True, (stored, auth, True), d)))))"

definition beginBody ::
  "Ledger \<Rightarrow> time \<Rightarrow> VaultBoardOperation \<Rightarrow> VaultBoardRegisterRequest \<Rightarrow> i64 \<Rightarrow> db \<Rightarrow>
     (bool \<times> (VaultBoardOperation \<times> VaultBoardAuthorization \<times> bool) \<times> db) result" where
  "beginBody l now operation request chain d =
     bindR (integrityKeyCopy l) (\<lambda>key.
     bindR (bindVaultBoardOperation key now operation d) (\<lambda>(stored, d).
     bindR (requireVaultBoardCooperativeWindow l stored chain) (\<lambda>_.
     bindR (loadVerifiedVaultBoardRegisters key d (bo_OperationID operation)) (\<lambda>registers.
     allocateAttempt key now (bo_OperationID operation) request stored d registers))))"

definition validRegisterRequest :: "time \<Rightarrow> VaultBoardOperation \<Rightarrow> VaultBoardRegisterRequest \<Rightarrow> bool" where
  "validRegisterRequest t0 operation request \<longleftrightarrow>
     \<not> (length (br_RequestDigest request) \<noteq> 32 \<or> length (br_TreeSessionPub request) \<noteq> 33 \<or>
        sint (br_ReceiverSats request) \<le> 0 \<or> sint (br_FeeSats request) < 0 \<or>
        sint (br_ReceiverSats request) > sint (max_i64 - br_FeeSats request) \<or>
        br_ReceiverSats request + br_FeeSats request \<noteq> bo_ValueSats operation \<or>
        sint (br_ExpireAt request) \<le> t0 div Second)"

definition BeginVaultBoardAttempt ::
  "file_fault \<Rightarrow> bool \<Rightarrow> time \<Rightarrow> time \<Rightarrow> Ledger \<Rightarrow> VaultBoardOperation \<Rightarrow> VaultBoardRegisterRequest \<Rightarrow> i64 \<Rightarrow>
     (VaultBoardOperation \<times> VaultBoardAuthorization \<times> bool) result \<times> Ledger" where
  "BeginVaultBoardAttempt fault commitFails t0 now l operation request chain =
     (case ComputeVaultBoardOperationID (bo_VaultID operation) (bo_Txid operation) (bo_Vout operation) of
        Inl e \<Rightarrow> (Inl e, l)
      | Inr opID \<Rightarrow>
          if bo_OperationID operation \<noteq> [] \<and> bo_OperationID operation \<noteq> opID then
            (Inl (Errorf ''vault-board-v1 operation id is server-derived''), l)
          else if \<not> validRegisterRequest t0 operation request then
            (Inl (Errorf ''vault-board-v1 finite register request required''), l)
          else finishTx fault commitFails l (beginBody l now (operation\<lparr> bo_OperationID := opID \<rparr>) request chain (l_db l)))"

section \<open>Authorizing delete and finalize\<close>

text \<open>The stored authorization of the phase, or the one the call inserts.\<close>

definition bindVaultBoardAuthorization ::
  "bytes \<Rightarrow> time \<Rightarrow> VaultBoardAuthorization \<Rightarrow> db \<Rightarrow> (VaultBoardAuthorization \<times> db) result" where
  "bindVaultBoardAuthorization key now auth d =
     (case loadVaultBoardAuthorization d (ba_OperationID auth) (ba_Attempt auth) (ba_Phase auth) of
        Some storedAuth \<Rightarrow>
          bindR (VerifyVaultBoardAuthorization storedAuth key) (\<lambda>_.
          if \<not> sameVaultBoardAuthorizationRequest storedAuth auth then
            Inl (Errorf ''vault-board-v1 phase is bound to a different exact request'')
          else Inr (storedAuth, d))
      | None \<Rightarrow>
          bindR (validateVaultBoardPhaseOrder key d auth) (\<lambda>_.
          bindR (SealVaultBoardAuthorization (auth\<lparr> ba_CreatedAt := formatRFC3339Nano now \<rparr>) key) (\<lambda>auth.
          bindR (insertBoardAuthorization auth d) (\<lambda>d. Inr (auth, d)))))"

definition requireLatestAttempt :: "bytes \<Rightarrow> db \<Rightarrow> string \<Rightarrow> u32 \<Rightarrow> unit result" where
  "requireLatestAttempt key d opID attempt =
     bindR (requiredRow VerifyVaultBoardAuthorization key ErrNoRows (loadLatestVaultBoardRegister d opID)) (\<lambda>latest.
     if ba_Attempt latest \<noteq> attempt then Inl (Errorf ''vault-board-v1 attempt is no longer current'')
     else Inr ())"

definition newDispatch :: "VaultBoardAuthorization \<Rightarrow> time \<Rightarrow> VaultBoardDispatch" where
  "newDispatch auth now =
     \<lparr> bd_OperationID = ba_OperationID auth, bd_Attempt = ba_Attempt auth, bd_Phase = ba_Phase auth,
       bd_RequestDigest = ba_RequestDigest auth, bd_CreatedAt = formatRFC3339Nano now, bd_IntegrityMAC = [] \<rparr>"

definition dispatchAuthorized ::
  "bytes \<Rightarrow> time \<Rightarrow> VaultBoardAuthorization \<Rightarrow> db \<Rightarrow>
     (bool \<times> (VaultBoardAuthorization \<times> VaultBoardDispatch \<times> bool) \<times> db) result" where
  "dispatchAuthorized key now auth d =
     (case loadVaultBoardDispatch d (ba_OperationID auth) (ba_Attempt auth) (ba_Phase auth) of
        Some existing \<Rightarrow>
          bindR (VerifyVaultBoardDispatch existing key) (\<lambda>_.
          if bd_RequestDigest existing \<noteq> ba_RequestDigest auth then
            Inl (Errorf ''vault-board-v1 dispatch request changed'')
          else Inr (False, (auth, existing, False), d))
      | None \<Rightarrow>
          if loadVaultBoardSubmission d (ba_OperationID auth) (ba_Attempt auth) (ba_Phase auth) \<noteq> None then
            Inl (Errorf ''vault-board-v1 result already recorded'')
          else
            bindR (SealVaultBoardDispatch (newDispatch auth now) key) (\<lambda>dispatch.
            bindR (insertBoardDispatch dispatch d) (\<lambda>d.
            Inr (True, (auth, dispatch, True), d))))"

definition authorizeBody ::
  "Ledger \<Rightarrow> time \<Rightarrow> time \<Rightarrow> VaultBoardAuthorization \<Rightarrow> i64 \<Rightarrow> db \<Rightarrow>
     (bool \<times> (VaultBoardAuthorization \<times> VaultBoardDispatch \<times> bool) \<times> db) result" where
  "authorizeBody l t1 t2 auth chain d =
     bindR (integrityKeyCopy l) (\<lambda>key.
     bindR (requiredRow VerifyVaultBoardOperation key ErrNoRows (loadVaultBoardOperation d (ba_OperationID auth))) (\<lambda>operation.
     bindR (requireVaultBoardCooperativeWindow l operation chain) (\<lambda>_.
     bindR (requireLatestAttempt key d (ba_OperationID auth) (ba_Attempt auth)) (\<lambda>_.
     bindR (bindVaultBoardAuthorization key t1 auth d) (\<lambda>(auth, d).
     dispatchAuthorized key t2 auth d)))))"

definition AppendVaultBoardAuthorizationAndDispatch ::
  "file_fault \<Rightarrow> bool \<Rightarrow> time \<Rightarrow> time \<Rightarrow> Ledger \<Rightarrow> VaultBoardAuthorization \<Rightarrow> i64 \<Rightarrow>
     (VaultBoardAuthorization \<times> VaultBoardDispatch \<times> bool) result \<times> Ledger" where
  "AppendVaultBoardAuthorizationAndDispatch fault commitFails t1 t2 l auth chain =
     (if ba_Phase auth \<noteq> VaultBoardPhaseDelete \<and> ba_Phase auth \<noteq> VaultBoardPhaseFinalize then
        (Inl (Errorf ''vault-board-v1 atomic dispatch is delete/final only''), l)
      else if ba_OperationID auth = [] then (Inl (Errorf ''vault-board-v1 operation required''), l)
      else finishTx fault commitFails l (authorizeBody l t1 t2 auth chain (l_db l)))"

section \<open>Recording dispatches and results\<close>

definition recordDispatch ::
  "bytes \<Rightarrow> time \<Rightarrow> VaultBoardDispatch \<Rightarrow> db \<Rightarrow> (bool \<times> (VaultBoardDispatch \<times> bool) \<times> db) result" where
  "recordDispatch key now rec d =
     (let opID = bd_OperationID rec; attempt = bd_Attempt rec; phase = bd_Phase rec in
     case loadVaultBoardDispatch d opID attempt phase of
       Some existing \<Rightarrow>
         bindR (VerifyVaultBoardDispatch existing key) (\<lambda>_.
         if bd_RequestDigest existing \<noteq> bd_RequestDigest rec then
           Inl (Errorf ''vault-board-v1 dispatch request changed'')
         else Inr (False, (existing, False), d))
     | None \<Rightarrow>
         bindR (requiredRow VerifyVaultBoardAuthorization key ErrNoRows
             (loadVaultBoardAuthorization d opID attempt phase)) (\<lambda>auth.
         if ba_RequestDigest auth \<noteq> bd_RequestDigest rec then
           Inl (Errorf ''vault-board-v1 dispatch request changed'')
         else
           bindR (requireLatestAttempt key d opID attempt) (\<lambda>_.
           if loadVaultBoardSubmission d opID attempt phase \<noteq> None then
             Inl (Errorf ''vault-board-v1 result already recorded'')
           else
             bindR (SealVaultBoardDispatch (rec\<lparr> bd_CreatedAt := formatRFC3339Nano now \<rparr>) key) (\<lambda>rec.
             bindR (insertBoardDispatch rec d) (\<lambda>d.
             Inr (True, (rec, True), d))))))"

definition dispatchBody ::
  "Ledger \<Rightarrow> time \<Rightarrow> VaultBoardDispatch \<Rightarrow> i64 \<Rightarrow> db \<Rightarrow> (bool \<times> (VaultBoardDispatch \<times> bool) \<times> db) result" where
  "dispatchBody l now rec chain d =
     bindR (integrityKeyCopy l) (\<lambda>key.
     bindR (requiredRow VerifyVaultBoardOperation key ErrNoRows (loadVaultBoardOperation d (bd_OperationID rec))) (\<lambda>operation.
     bindR (requireVaultBoardCooperativeWindow l operation chain) (\<lambda>_.
     recordDispatch key now rec d)))"

definition AppendVaultBoardDispatch ::
  "file_fault \<Rightarrow> bool \<Rightarrow> time \<Rightarrow> Ledger \<Rightarrow> VaultBoardDispatch \<Rightarrow> i64 \<Rightarrow> (VaultBoardDispatch \<times> bool) result \<times> Ledger" where
  "AppendVaultBoardDispatch fault commitFails now l rec chain =
     finishTx fault commitFails l (dispatchBody l now rec chain (l_db l))"

definition sameResult :: "VaultBoardSubmission \<Rightarrow> VaultBoardSubmission \<Rightarrow> bool" where
  "sameResult current rec \<longleftrightarrow>
     bs_RequestDigest current = bs_RequestDigest rec \<and> bs_Outcome current = bs_Outcome rec \<and>
     bs_OperatorRef current = bs_OperatorRef rec \<and> bs_CommitmentTxid current = bs_CommitmentTxid rec \<and>
     bs_ReceiverTxid current = bs_ReceiverTxid rec \<and> bs_ReceiverVout current = bs_ReceiverVout rec"

definition submissionBody ::
  "Ledger \<Rightarrow> time \<Rightarrow> VaultBoardSubmission \<Rightarrow> db \<Rightarrow> (bool \<times> (VaultBoardSubmission \<times> bool) \<times> db) result" where
  "submissionBody l now rec d =
     bindR (integrityKeyCopy l) (\<lambda>key. let opID = bs_OperationID rec; attempt = bs_Attempt rec; phase = bs_Phase rec in
     case loadVaultBoardSubmission d opID attempt phase of
       Some current \<Rightarrow>
         bindR (VerifyVaultBoardSubmission current key) (\<lambda>_.
         if \<not> sameResult current rec then Inl (Errorf ''vault-board-v1 Operator result changed'')
         else Inr (False, (current, False), d))
     | None \<Rightarrow>
         bindR (requiredRow VerifyVaultBoardAuthorization key ErrNoRows
             (loadVaultBoardAuthorization d opID attempt phase)) (\<lambda>auth.
         if ba_RequestDigest auth \<noteq> bs_RequestDigest rec then Inl (Errorf ''vault-board-v1 request changed'')
         else
           bindR (requiredRow VerifyVaultBoardDispatch key (Errorf ''vault-board-v1 dispatch required'')
               (loadVaultBoardDispatch d opID attempt phase)) (\<lambda>dispatch.
           if bd_RequestDigest dispatch \<noteq> bs_RequestDigest rec then
             Inl (Errorf ''vault-board-v1 dispatch request changed'')
           else
             bindR (SealVaultBoardSubmission (rec\<lparr> bs_CreatedAt := formatRFC3339Nano now \<rparr>) key) (\<lambda>rec.
             bindR (insertBoardSubmission rec d) (\<lambda>d.
             Inr (True, (rec, True), d))))))"

definition AppendVaultBoardSubmission ::
  "file_fault \<Rightarrow> bool \<Rightarrow> time \<Rightarrow> Ledger \<Rightarrow> VaultBoardSubmission \<Rightarrow> (VaultBoardSubmission \<times> bool) result \<times> Ledger" where
  "AppendVaultBoardSubmission fault commitFails now l rec =
     finishTx fault commitFails l (submissionBody l now rec (l_db l))"

end
