(* ===== verification/BoardRuns.thy ===== *)
theory BoardRuns
  imports BoardLedger
begin

text \<open>
  Runs of the boarding ledger. The four append-only tables satisfy one contract; the invariant of
  the tables is kept by every method under every fault; the rows of one attempt form a state
  machine, and every call moves at most one attempt along one of its arrows.
\<close>

section \<open>Append-only tables\<close>

text \<open>
  The contract of a table that only ever grows: an insert is refused when its key is taken, and
  otherwise makes exactly its key findable.
\<close>

locale append_table =
  fixes look :: "'d \<Rightarrow> 'k \<Rightarrow> 'r option"
    and key_of :: "'r \<Rightarrow> 'k"
    and insert_row :: "'r \<Rightarrow> 'd \<Rightarrow> 'd result"
  assumes insert_fresh: "insert_row r d = Inr d' \<Longrightarrow> look d (key_of r) = None"
    and look_insert: "insert_row r d = Inr d' \<Longrightarrow> look d' k = (if k = key_of r then Some r else look d k)"
begin

lemma insert_keeps: "insert_row r d = Inr d' \<Longrightarrow> look d k = Some x \<Longrightarrow> look d' k = Some x"
  using insert_fresh look_insert by fastforce

lemma insert_twice: "insert_row r d = Inr d' \<Longrightarrow> key_of s = key_of r \<Longrightarrow> insert_row s d' \<noteq> Inr d''"
  using insert_fresh look_insert by fastforce

end

type_synonym phaseKey = "string \<times> u32 \<times> string"

abbreviation authAt :: "db \<Rightarrow> phaseKey \<Rightarrow> VaultBoardAuthorization option" where
  "authAt d k \<equiv> loadVaultBoardAuthorization d (fst k) (fst (snd k)) (snd (snd k))"
abbreviation dispatchAt :: "db \<Rightarrow> phaseKey \<Rightarrow> VaultBoardDispatch option" where
  "dispatchAt d k \<equiv> loadVaultBoardDispatch d (fst k) (fst (snd k)) (snd (snd k))"
abbreviation submissionAt :: "db \<Rightarrow> phaseKey \<Rightarrow> VaultBoardSubmission option" where
  "submissionAt d k \<equiv> loadVaultBoardSubmission d (fst k) (fst (snd k)) (snd (snd k))"

lemmas board_load_defs = loadVaultBoardOperation_def loadVaultBoardAuthorization_def loadVaultBoardDispatch_def
  loadVaultBoardSubmission_def

lemma insertBoardOperation_Inr:
  "insertBoardOperation b d = Inr d' \<Longrightarrow>
     d' = d\<lparr> db_vault_board_operation := db_vault_board_operation d @ [b] \<rparr> \<and> loadVaultBoardOperation d (bo_OperationID b) = None"
  by (auto simp: insertBoardOperation_def res_simps board_load_defs)

lemma insertBoardAuthorization_Inr:
  "insertBoardAuthorization a d = Inr d' \<Longrightarrow>
     d' = d\<lparr> db_vault_board_authorization := db_vault_board_authorization d @ [a] \<rparr> \<and>
     loadVaultBoardAuthorization d (ba_OperationID a) (ba_Attempt a) (ba_Phase a) = None"
  by (auto simp: insertBoardAuthorization_def res_simps board_load_defs)

lemma insertBoardDispatch_Inr:
  "insertBoardDispatch x d = Inr d' \<Longrightarrow>
     d' = d\<lparr> db_vault_board_dispatch := db_vault_board_dispatch d @ [x] \<rparr> \<and>
     loadVaultBoardDispatch d (bd_OperationID x) (bd_Attempt x) (bd_Phase x) = None \<and>
     loadVaultBoardAuthorization d (bd_OperationID x) (bd_Attempt x) (bd_Phase x) \<noteq> None"
  by (auto simp: insertBoardDispatch_def res_simps board_load_defs)

lemma insertBoardSubmission_Inr:
  "insertBoardSubmission x d = Inr d' \<Longrightarrow>
     d' = d\<lparr> db_vault_board_submission := db_vault_board_submission d @ [x] \<rparr> \<and>
     loadVaultBoardSubmission d (bs_OperationID x) (bs_Attempt x) (bs_Phase x) = None"
  by (auto simp: insertBoardSubmission_def res_simps board_load_defs)

interpretation ops_table: append_table loadVaultBoardOperation bo_OperationID insertBoardOperation
  by unfold_locales (auto dest!: insertBoardOperation_Inr simp: board_load_defs find_row_append split: option.splits if_splits)

interpretation auths_table: append_table authAt "\<lambda>a. (ba_OperationID a, ba_Attempt a, ba_Phase a)" insertBoardAuthorization
  by unfold_locales (auto dest!: insertBoardAuthorization_Inr simp: board_load_defs find_row_append split: option.splits if_splits)

interpretation dispatches_table: append_table dispatchAt "\<lambda>x. (bd_OperationID x, bd_Attempt x, bd_Phase x)" insertBoardDispatch
  by unfold_locales (auto dest!: insertBoardDispatch_Inr simp: board_load_defs find_row_append split: option.splits if_splits)

interpretation submissions_table: append_table submissionAt "\<lambda>x. (bs_OperationID x, bs_Attempt x, bs_Phase x)" insertBoardSubmission
  by unfold_locales (auto dest!: insertBoardSubmission_Inr simp: board_load_defs find_row_append split: option.splits if_splits)

text \<open>An insert into one table leaves the others alone.\<close>

lemma board_frames:
  "loadVaultBoardAuthorization (d\<lparr> db_vault_board_operation := t \<rparr>) o1 a1 p1 = loadVaultBoardAuthorization d o1 a1 p1"
  "loadVaultBoardDispatch (d\<lparr> db_vault_board_operation := t \<rparr>) o1 a1 p1 = loadVaultBoardDispatch d o1 a1 p1"
  "loadVaultBoardSubmission (d\<lparr> db_vault_board_operation := t \<rparr>) o1 a1 p1 = loadVaultBoardSubmission d o1 a1 p1"
  "registerRows (d\<lparr> db_vault_board_operation := t \<rparr>) o1 = registerRows d o1"
  "loadVaultBoardOperation (d\<lparr> db_vault_board_authorization := u \<rparr>) o1 = loadVaultBoardOperation d o1"
  "loadVaultBoardDispatch (d\<lparr> db_vault_board_authorization := u \<rparr>) o1 a1 p1 = loadVaultBoardDispatch d o1 a1 p1"
  "loadVaultBoardSubmission (d\<lparr> db_vault_board_authorization := u \<rparr>) o1 a1 p1 = loadVaultBoardSubmission d o1 a1 p1"
  "loadVaultBoardOperation (d\<lparr> db_vault_board_dispatch := w \<rparr>) o1 = loadVaultBoardOperation d o1"
  "loadVaultBoardAuthorization (d\<lparr> db_vault_board_dispatch := w \<rparr>) o1 a1 p1 = loadVaultBoardAuthorization d o1 a1 p1"
  "loadVaultBoardSubmission (d\<lparr> db_vault_board_dispatch := w \<rparr>) o1 a1 p1 = loadVaultBoardSubmission d o1 a1 p1"
  "registerRows (d\<lparr> db_vault_board_dispatch := w \<rparr>) o1 = registerRows d o1"
  "loadVaultBoardOperation (d\<lparr> db_vault_board_submission := x \<rparr>) o1 = loadVaultBoardOperation d o1"
  "loadVaultBoardAuthorization (d\<lparr> db_vault_board_submission := x \<rparr>) o1 a1 p1 = loadVaultBoardAuthorization d o1 a1 p1"
  "loadVaultBoardDispatch (d\<lparr> db_vault_board_submission := x \<rparr>) o1 a1 p1 = loadVaultBoardDispatch d o1 a1 p1"
  "registerRows (d\<lparr> db_vault_board_submission := x \<rparr>) o1 = registerRows d o1"
  by (simp_all add: board_load_defs registerRows_def)

section \<open>What each transaction does\<close>

lemma requiredRow_Inr [res_simps]:
  "requiredRow verify key e row = Inr r \<longleftrightarrow> row = Some r \<and> verify r key = Inr ()"
  by (auto simp: requiredRow_def res_simps split: option.splits)

lemma loadOptionalVerified_Inr [res_simps]:
  "loadOptionalVerified verify key row = Inr r \<longleftrightarrow> row = r \<and> (\<forall>x. r = Some x \<longrightarrow> verify x key = Inr ())"
  by (auto simp: loadOptionalVerified_def res_simps split: option.splits)

lemma loadVerifiedVaultBoardRegisters_Inr [res_simps]:
  "loadVerifiedVaultBoardRegisters key d opID = Inr rs \<longleftrightarrow>
     rs = registerRows d opID \<and> (\<forall>r \<in> set (registerRows d opID). VerifyVaultBoardAuthorization r key = Inr ())"
proof -
  have "map (\<lambda>r. projr (bindR (VerifyVaultBoardAuthorization r key) (\<lambda>_. Inr r))) xs = xs"
    if "\<forall>r \<in> set xs. VerifyVaultBoardAuthorization r key = Inr ()" for xs
    using that by (induction xs) auto
  moreover have "(\<exists>y. bindR (VerifyVaultBoardAuthorization r key) (\<lambda>_. Inr r) = Inr y) \<longleftrightarrow> VerifyVaultBoardAuthorization r key = Inr ()" for r
    by (cases "VerifyVaultBoardAuthorization r key") auto
  ultimately show ?thesis unfolding loadVerifiedVaultBoardRegisters_def mapR_iff by auto
qed

lemma finishTx_cases:
  assumes "finishTx fault cf l body = (r, l')"
  obtains (same) "l_db l' = l_db l" and "l_integrityKey l' = l_integrityKey l" and "l_network l' = l_network l" and "\<And>x. r \<noteq> Inr x"
  | (ok) ob x d where "body = Inr (ob, x, d)" and "l_db l' = d" and "r = Inr x" and "l_integrityKey l' = l_integrityKey l"
      and "l_network l' = l_network l"
proof (cases body)
  case (Inl e)
  with assms same show thesis by (auto simp: finishTx_def)
next
  case (Inr b)
  obtain ob x d where b: "b = (ob, x, d)" by (metis prod_cases3)
  show thesis
  proof (cases ob)
    case True
    obtain r0 l0 where o: "observeAndCommit fault cf l d = (r0, l0)" by fastforce
    with assms Inr b True have "l' = l0" "r = (case r0 of Inl e \<Rightarrow> Inl e | Inr _ \<Rightarrow> Inr x)"
      by (auto simp: finishTx_def split: sum.splits)
    with o same ok Inr b show thesis
      by (auto simp: observeAndCommit_def split: sum.splits prod.splits if_splits)
  next
    case False
    with assms Inr b same ok show thesis by (auto simp: finishTx_def split: if_splits)
  qed
qed

text \<open>Only the row of the call's own key is new in the tables after each body.\<close>

lemma bindVaultBoardOperation_Inr:
  assumes "bindVaultBoardOperation key now operation d = Inr (stored, d1)"
  shows "loadVaultBoardOperation d1 (bo_OperationID operation) = Some stored" and "sameVaultBoardOperationFacts stored operation"
    and "\<exists>t. d1 = d\<lparr> db_vault_board_operation := t \<rparr>" and "loadVaultBoardOperation d o1 = Some x \<Longrightarrow> loadVaultBoardOperation d1 o1 = Some x"
proof -
  have "loadVaultBoardOperation d1 (bo_OperationID operation) = Some stored \<and> sameVaultBoardOperationFacts stored operation \<and>
      (\<exists>t. d1 = d\<lparr> db_vault_board_operation := t \<rparr>) \<and>
      (loadVaultBoardOperation d o1 = Some x \<longrightarrow> loadVaultBoardOperation d1 o1 = Some x)"
  proof (cases "loadVaultBoardOperation d (bo_OperationID operation)")
    case (Some s)
    with assms have "s = stored" "d1 = d" "sameVaultBoardOperationFacts stored operation"
      by (auto simp: bindVaultBoardOperation_def res_simps)
    moreover have "d = d\<lparr> db_vault_board_operation := db_vault_board_operation d \<rparr>" by simp
    ultimately show ?thesis using Some by blast
  next
    case None
    with assms have s: "SealVaultBoardOperation (operation\<lparr> bo_CreatedAt := formatRFC3339Nano now \<rparr>) key = Inr stored"
      and i: "insertBoardOperation stored d = Inr d1" by (auto simp: bindVaultBoardOperation_def res_simps)
    from s have "sameVaultBoardOperationFacts stored operation" "bo_OperationID stored = bo_OperationID operation"
      by (auto simp: SealVaultBoardOperation_def res_simps sameVaultBoardOperationFacts_def)
    with ops_table.look_insert [OF i] ops_table.insert_keeps [OF i] insertBoardOperation_Inr [OF i] show ?thesis by auto
  qed
  then show "loadVaultBoardOperation d1 (bo_OperationID operation) = Some stored" and "sameVaultBoardOperationFacts stored operation"
    and "\<exists>t. d1 = d\<lparr> db_vault_board_operation := t \<rparr>" and "loadVaultBoardOperation d o1 = Some x \<Longrightarrow> loadVaultBoardOperation d1 o1 = Some x"
    by simp_all
qed

lemma SealVaultBoardAuthorization_keeps:
  "SealVaultBoardAuthorization a key = Inr s \<Longrightarrow> (\<exists>m. s = a\<lparr> ba_IntegrityMAC := m \<rparr>) \<and> authorizationPhase a = Inr ()"
  by (auto simp: SealVaultBoardAuthorization_def vaultBoardMAC_def canonicalVaultBoardAuthorization_def res_simps split: if_splits)

lemma beginBody_cases:
  assumes "beginBody l now operation request chain d = Inr (ob, (stored, auth, created), d')"
  obtains (retry) t where "\<not> created" and "\<not> ob" and "d' = d\<lparr> db_vault_board_operation := t \<rparr>"
      and "loadVaultBoardOperation d' (bo_OperationID operation) = Some stored"
      and "\<And>o1 x. loadVaultBoardOperation d o1 = Some x \<Longrightarrow> loadVaultBoardOperation d' o1 = Some x"
      and "sameRegister auth request" and "registerRows d (bo_OperationID operation) \<noteq> []"
      and "auth = last (registerRows d (bo_OperationID operation))"
  | (new) d1 t attempt where "created" and "ob" and "d1 = d\<lparr> db_vault_board_operation := t \<rparr>"
      and "loadVaultBoardOperation d1 (bo_OperationID operation) = Some stored" and "sameVaultBoardOperationFacts stored operation"
      and "\<And>o1 x. loadVaultBoardOperation d o1 = Some x \<Longrightarrow> loadVaultBoardOperation d1 o1 = Some x"
      and "requireVaultBoardCooperativeWindow l stored chain = Inr ()"
      and "reusedAttempt request (registerRows d (bo_OperationID operation)) = None"
      and "\<forall>r \<in> set (registerRows d (bo_OperationID operation)). VerifyVaultBoardAuthorization r (l_integrityKey l) = Inr ()"
      and "nextAttempt (l_integrityKey l) d1 (bo_OperationID operation) now (registerRows d (bo_OperationID operation)) = Inr attempt"
      and "SealVaultBoardAuthorization (registerAuthorization (bo_OperationID operation) attempt now request) (l_integrityKey l) = Inr auth"
      and "insertBoardAuthorization auth d1 = Inr d'" and "length (l_integrityKey l) = 32"
proof -
  let ?key = "l_integrityKey l" and ?op = "bo_OperationID operation"
  from assms obtain key x where key: "integrityKeyCopy l = Inr key" and x: "bindVaultBoardOperation key now operation d = Inr x"
    and rest: "(case x of (stored, d) \<Rightarrow> bindR (requireVaultBoardCooperativeWindow l stored chain) (\<lambda>_.
       bindR (loadVerifiedVaultBoardRegisters key d ?op) (\<lambda>registers.
       allocateAttempt key now ?op request stored d registers))) = Inr (ob, (stored, auth, created), d')"
    unfolding beginBody_def bindR_eq_Inr by blast
  obtain st d1 where st: "x = (st, d1)" by fastforce
  have k: "key = ?key" "length ?key = 32" using key by (auto simp: integrityKeyCopy_def split: if_splits)
  from rest have w: "requireVaultBoardCooperativeWindow l st chain = Inr ()"
    and v: "\<forall>r \<in> set (registerRows d1 ?op). VerifyVaultBoardAuthorization r ?key = Inr ()"
    and a: "allocateAttempt ?key now ?op request st d1 (registerRows d1 ?op) = Inr (ob, (stored, auth, created), d')"
    by (simp_all add: st k(1) res_simps)
  note f = bindVaultBoardOperation_Inr [OF x [unfolded st]]
  obtain t where d1: "d1 = d\<lparr> db_vault_board_operation := t \<rparr>" using f(3) by blast
  have rows: "registerRows d1 o1 = registerRows d o1" for o1 by (simp add: board_frames d1)
  show thesis
  proof (cases "reusedAttempt request (registerRows d ?op)")
    case None
    with a obtain attempt where n: "st = stored" "created" "ob"
      "nextAttempt ?key d1 ?op now (registerRows d ?op) = Inr attempt"
      "SealVaultBoardAuthorization (registerAuthorization ?op attempt now request) ?key = Inr auth"
      "insertBoardAuthorization auth d1 = Inr d'"
      unfolding allocateAttempt_def rows by (auto simp: bindR_eq_Inr)
    from new [OF n(2,3) d1 _ _ _ _ None _ n(4-6) k(2)] f w v n(1) show thesis by (auto simp: rows)
  next
    case (Some p)
    obtain prior isLatest where p: "p = (prior, isLatest)" by fastforce
    have last: "xs \<noteq> [] \<and> prior = last xs" if "reusedAttempt request xs = Some (prior, True)" for xs
      using that by (induction xs) (auto split: if_splits)
    from Some p a have z: "isLatest" "sameRegister auth request" "auth = prior" "d' = d1" "\<not> created" "\<not> ob" "st = stored"
      unfolding allocateAttempt_def rows by (auto simp: bindR_eq_Inr split: if_splits)
    from last [of "registerRows d ?op"] Some p z(1,3) have "registerRows d ?op \<noteq> []" "auth = last (registerRows d ?op)" by simp_all
    then show thesis
      using retry [OF z(5,6) _ _ _ z(2)] d1 f(1,4) unfolding z(4,7) by blast
  qed
qed

lemma beginBody_request: "BeginVaultBoardAttempt fault cf t0 now l operation request chain = (r, l') \<Longrightarrow>
    (r, l') = (r, l) \<and> (\<forall>x. r \<noteq> Inr x) \<or>
    (\<exists>opID. ComputeVaultBoardOperationID (bo_VaultID operation) (bo_Txid operation) (bo_Vout operation) = Inr opID \<and>
       validRegisterRequest t0 operation request \<and>
       finishTx fault cf l (beginBody l now (operation\<lparr> bo_OperationID := opID \<rparr>) request chain (l_db l)) = (r, l'))"
  by (auto simp: BeginVaultBoardAttempt_def split: sum.splits if_splits)

lemma requireLatestAttempt_Inr [res_simps]:
  "requireLatestAttempt key d opID attempt = Inr () \<longleftrightarrow>
     (\<exists>r. loadLatestVaultBoardRegister d opID = Some r \<and> VerifyVaultBoardAuthorization r key = Inr () \<and> ba_Attempt r = attempt)"
  by (auto simp: requireLatestAttempt_def res_simps)

text \<open>What a delete or finalize must find before it is authorized.\<close>

lemma validateVaultBoardPhaseOrder_Inr:
  assumes "validateVaultBoardPhaseOrder key d auth = Inr ()"
  shows "ba_Phase auth \<in> {VaultBoardPhaseDelete, VaultBoardPhaseFinalize}"
    and "\<exists>s. loadVaultBoardSubmission d (ba_OperationID auth) (ba_Attempt auth) VaultBoardPhaseRegister = Some s \<and>
      bs_Outcome s = VaultBoardAuthSubmitted"
    and "loadVaultBoardAuthorization d (ba_OperationID auth) (ba_Attempt auth)
      (if ba_Phase auth = VaultBoardPhaseFinalize then VaultBoardPhaseDelete else VaultBoardPhaseFinalize) = None"
    and "loadVaultBoardAuthorization d (ba_OperationID auth) (ba_Attempt auth) VaultBoardPhaseRegister \<noteq> None"
  using assms by (auto simp: validateVaultBoardPhaseOrder_def Let_def res_simps split: if_splits)

lemma authorizeBody_cases:
  assumes "authorizeBody l t1 t2 auth chain d = Inr (ob, (auth', dispatch, created), d')"
  obtains (stored) "loadVaultBoardAuthorization d (ba_OperationID auth) (ba_Attempt auth) (ba_Phase auth) = Some auth'"
      and "loadVaultBoardDispatch d (ba_OperationID auth) (ba_Attempt auth) (ba_Phase auth) = Some dispatch" and "d' = d" and "\<not> ob"
  | (dispatch) "loadVaultBoardAuthorization d (ba_OperationID auth) (ba_Attempt auth) (ba_Phase auth) = Some auth'"
      and "SealVaultBoardDispatch (newDispatch auth' t2) (l_integrityKey l) = Inr dispatch"
      and "insertBoardDispatch dispatch d = Inr d'" and "ob"
      and "requireLatestAttempt (l_integrityKey l) d (ba_OperationID auth) (ba_Attempt auth) = Inr ()"
  | (orphan) d1 where "insertBoardAuthorization auth' d = Inr d1" and "d' = d1" and "\<not> ob"
      and "SealVaultBoardAuthorization (auth\<lparr> ba_CreatedAt := formatRFC3339Nano t1 \<rparr>) (l_integrityKey l) = Inr auth'"
      and "loadVaultBoardDispatch d (ba_OperationID auth) (ba_Attempt auth) (ba_Phase auth) = Some dispatch"
  | (new) d1 where "validateVaultBoardPhaseOrder (l_integrityKey l) d auth = Inr ()"
      and "SealVaultBoardAuthorization (auth\<lparr> ba_CreatedAt := formatRFC3339Nano t1 \<rparr>) (l_integrityKey l) = Inr auth'"
      and "insertBoardAuthorization auth' d = Inr d1"
      and "SealVaultBoardDispatch (newDispatch auth' t2) (l_integrityKey l) = Inr dispatch"
      and "insertBoardDispatch dispatch d1 = Inr d'" and "ob"
      and "requireLatestAttempt (l_integrityKey l) d (ba_OperationID auth) (ba_Attempt auth) = Inr ()"
proof -
  let ?key = "l_integrityKey l"
  from assms obtain key x u where key: "integrityKeyCopy l = Inr key"
    and latest': "requireLatestAttempt key d (ba_OperationID auth) (ba_Attempt auth) = Inr u"
    and x: "bindVaultBoardAuthorization key t1 auth d = Inr x"
    and rest': "(case x of (auth, d) \<Rightarrow> dispatchAuthorized key t2 auth d) = Inr (ob, (auth', dispatch, created), d')"
    unfolding authorizeBody_def bindR_eq_Inr by blast
  obtain st d1 where st: "x = (st, d1)" by fastforce
  have k: "key = ?key" using key by (auto simp: integrityKeyCopy_def split: if_splits)
  have latest: "requireLatestAttempt ?key d (ba_OperationID auth) (ba_Attempt auth) = Inr ()" using latest' k by simp
  have rest: "dispatchAuthorized ?key t2 st d1 = Inr (ob, (auth', dispatch, created), d')" using rest' st k by simp
  then have "st = auth'" by (auto simp: dispatchAuthorized_def bindR_eq_Inr split: option.splits if_splits)
  with x st k have b: "bindVaultBoardAuthorization ?key t1 auth d = Inr (auth', d1)" by simp
  note rest = rest [unfolded \<open>st = auth'\<close>]
  show thesis
  proof (cases "loadVaultBoardAuthorization d (ba_OperationID auth) (ba_Attempt auth) (ba_Phase auth)")
    case (Some a)
    with b have a: "a = auth'" "d1 = d" "sameVaultBoardAuthorizationRequest auth' auth"
      by (auto simp: bindVaultBoardAuthorization_def res_simps)
    then have k: "ba_Attempt auth' = ba_Attempt auth" "ba_Phase auth' = ba_Phase auth" "ba_OperationID auth' = ba_OperationID auth"
      by (auto simp: sameVaultBoardAuthorizationRequest_def)
    show thesis
    proof (cases "loadVaultBoardDispatch d (ba_OperationID auth) (ba_Attempt auth) (ba_Phase auth)")
      case (Some x)
      with rest k a stored \<open>loadVaultBoardAuthorization d _ _ _ = Some a\<close> show thesis
        by (auto simp: dispatchAuthorized_def bindR_eq_Inr split: if_splits)
    next
      case None
      with rest k a dispatch [OF _ _ _ _ latest] Some show thesis
        by (auto simp: dispatchAuthorized_def bindR_eq_Inr split: if_splits)
    qed
  next
    case none: None
    with b have p: "validateVaultBoardPhaseOrder ?key d auth = Inr ()"
      and s: "SealVaultBoardAuthorization (auth\<lparr> ba_CreatedAt := formatRFC3339Nano t1 \<rparr>) ?key = Inr auth'"
      and i: "insertBoardAuthorization auth' d = Inr d1" by (auto simp: bindVaultBoardAuthorization_def res_simps)
    from s have k: "ba_Attempt auth' = ba_Attempt auth" "ba_Phase auth' = ba_Phase auth" "ba_OperationID auth' = ba_OperationID auth"
      using SealVaultBoardAuthorization_keeps by fastforce+
    have f: "loadVaultBoardDispatch d1 o1 a1 p1 = loadVaultBoardDispatch d o1 a1 p1" for o1 a1 p1
      using insertBoardAuthorization_Inr [OF i] by (auto simp: board_frames)
    show thesis
    proof (cases "loadVaultBoardDispatch d (ba_OperationID auth) (ba_Attempt auth) (ba_Phase auth)")
      case (Some x)
      with rest k f orphan [OF i _ _ s] show thesis by (auto simp: dispatchAuthorized_def bindR_eq_Inr split: if_splits)
    next
      case None
      with rest k f new [OF p s i _ _ _ latest] show thesis
        by (auto simp: dispatchAuthorized_def bindR_eq_Inr split: if_splits)
    qed
  qed
qed

lemma dispatchBody_cases:
  assumes "dispatchBody l now rec chain d = Inr (ob, (x, created), d')"
  obtains (stored) "loadVaultBoardDispatch d (bd_OperationID rec) (bd_Attempt rec) (bd_Phase rec) = Some x" and "d' = d" and "\<not> ob"
  | (new) auth where "loadVaultBoardAuthorization d (bd_OperationID rec) (bd_Attempt rec) (bd_Phase rec) = Some auth"
      and "ba_RequestDigest auth = bd_RequestDigest rec"
      and "requireLatestAttempt (l_integrityKey l) d (bd_OperationID rec) (bd_Attempt rec) = Inr ()"
      and "loadVaultBoardSubmission d (bd_OperationID rec) (bd_Attempt rec) (bd_Phase rec) = None"
      and "SealVaultBoardDispatch (rec\<lparr> bd_CreatedAt := formatRFC3339Nano now \<rparr>) (l_integrityKey l) = Inr x"
      and "insertBoardDispatch x d = Inr d'" and "ob"
proof -
  let ?key = "l_integrityKey l"
  from assms obtain key where "integrityKeyCopy l = Inr key" and "recordDispatch key now rec d = Inr (ob, (x, created), d')"
    unfolding dispatchBody_def bindR_eq_Inr by blast
  then have rest: "recordDispatch ?key now rec d = Inr (ob, (x, created), d')"
    by (auto simp: integrityKeyCopy_def split: if_splits)
  show thesis
  proof (cases "loadVaultBoardDispatch d (bd_OperationID rec) (bd_Attempt rec) (bd_Phase rec)")
    case (Some y)
    with rest stored show thesis by (auto simp: recordDispatch_def bindR_eq_Inr split: if_splits)
  next
    case None
    with rest obtain auth where
      "loadVaultBoardAuthorization d (bd_OperationID rec) (bd_Attempt rec) (bd_Phase rec) = Some auth"
      "ba_RequestDigest auth = bd_RequestDigest rec"
      "requireLatestAttempt ?key d (bd_OperationID rec) (bd_Attempt rec) = Inr ()"
      "loadVaultBoardSubmission d (bd_OperationID rec) (bd_Attempt rec) (bd_Phase rec) = None"
      "SealVaultBoardDispatch (rec\<lparr> bd_CreatedAt := formatRFC3339Nano now \<rparr>) ?key = Inr x"
      "insertBoardDispatch x d = Inr d'" "ob"
      by (auto simp: recordDispatch_def Let_def bindR_eq_Inr if_Inl_eq_Inr requiredRow_Inr)
    with new show thesis by blast
  qed
qed

lemma submissionBody_cases:
  assumes "submissionBody l now rec d = Inr (ob, (x, created), d')"
  obtains (stored) "loadVaultBoardSubmission d (bs_OperationID rec) (bs_Attempt rec) (bs_Phase rec) = Some x"
      and "sameResult x rec" and "d' = d" and "\<not> ob"
  | (new) auth dispatch where "loadVaultBoardAuthorization d (bs_OperationID rec) (bs_Attempt rec) (bs_Phase rec) = Some auth"
      and "ba_RequestDigest auth = bs_RequestDigest rec"
      and "loadVaultBoardDispatch d (bs_OperationID rec) (bs_Attempt rec) (bs_Phase rec) = Some dispatch"
      and "bd_RequestDigest dispatch = bs_RequestDigest rec"
      and "SealVaultBoardSubmission (rec\<lparr> bs_CreatedAt := formatRFC3339Nano now \<rparr>) (l_integrityKey l) = Inr x"
      and "insertBoardSubmission x d = Inr d'" and "ob"
proof -
  let ?key = "l_integrityKey l"
  from assms have k: "integrityKeyCopy l = Inr ?key" unfolding submissionBody_def bindR_eq_Inr
    by (auto simp: integrityKeyCopy_def split: if_splits)
  note rest = assms [unfolded submissionBody_def k bindR_Inr Let_def]
  show thesis
  proof (cases "loadVaultBoardSubmission d (bs_OperationID rec) (bs_Attempt rec) (bs_Phase rec)")
    case (Some y)
    with rest stored show thesis by (auto simp: bindR_eq_Inr split: if_splits)
  next
    case None
    with rest obtain auth dispatch where
      "loadVaultBoardAuthorization d (bs_OperationID rec) (bs_Attempt rec) (bs_Phase rec) = Some auth"
      "ba_RequestDigest auth = bs_RequestDigest rec"
      "loadVaultBoardDispatch d (bs_OperationID rec) (bs_Attempt rec) (bs_Phase rec) = Some dispatch"
      "bd_RequestDigest dispatch = bs_RequestDigest rec"
      "SealVaultBoardSubmission (rec\<lparr> bs_CreatedAt := formatRFC3339Nano now \<rparr>) ?key = Inr x"
      "insertBoardSubmission x d = Inr d'" "ob"
      by (auto simp: bindR_eq_Inr if_Inl_eq_Inr requiredRow_Inr)
    with new show thesis by blast
  qed
qed

section \<open>The invariant of the boarding tables\<close>

text \<open>Every dispatch has its authorization and every result its dispatch, with the same digest.\<close>

definition dispatchBacked :: "db \<Rightarrow> bool" where
  "dispatchBacked d \<longleftrightarrow> (\<forall>o1 a p x. loadVaultBoardDispatch d o1 a p = Some x \<longrightarrow>
     (\<exists>y. loadVaultBoardAuthorization d o1 a p = Some y \<and> ba_RequestDigest y = bd_RequestDigest x))"

definition submissionBacked :: "db \<Rightarrow> bool" where
  "submissionBacked d \<longleftrightarrow> (\<forall>o1 a p x. loadVaultBoardSubmission d o1 a p = Some x \<longrightarrow>
     (\<exists>y. loadVaultBoardDispatch d o1 a p = Some y \<and> bd_RequestDigest y = bs_RequestDigest x))"

text \<open>
  A delete or finalize authorization stands on an accepted register and has crossed the dispatch
  boundary; an attempt has at most one of them; a finalize is on the latest attempt.
\<close>

definition closingBacked :: "db \<Rightarrow> bool" where
  "closingBacked d \<longleftrightarrow> (\<forall>o1 a p. p \<in> {VaultBoardPhaseDelete, VaultBoardPhaseFinalize} \<longrightarrow>
     loadVaultBoardAuthorization d o1 a p \<noteq> None \<longrightarrow>
     loadVaultBoardDispatch d o1 a p \<noteq> None \<and>
     (\<exists>s. loadVaultBoardSubmission d o1 a VaultBoardPhaseRegister = Some s \<and> bs_Outcome s = VaultBoardAuthSubmitted))"

definition exclusive :: "db \<Rightarrow> bool" where
  "exclusive d \<longleftrightarrow> (\<forall>o1 a. loadVaultBoardAuthorization d o1 a VaultBoardPhaseDelete = None \<or>
     loadVaultBoardAuthorization d o1 a VaultBoardPhaseFinalize = None)"

definition finalLatest :: "db \<Rightarrow> bool" where
  "finalLatest d \<longleftrightarrow> (\<forall>o1 a. loadVaultBoardAuthorization d o1 a VaultBoardPhaseFinalize \<noteq> None \<longrightarrow>
     (\<exists>r. loadLatestVaultBoardRegister d o1 = Some r \<and> ba_Attempt r = a))"

text \<open>The register attempts of an operation are numbered from zero without gaps, in the order of the table.\<close>

definition registers :: "db \<Rightarrow> string \<Rightarrow> VaultBoardAuthorization list" where
  "registers d o1 = filter (\<lambda>r. ba_OperationID r = o1 \<and> ba_Phase r = VaultBoardPhaseRegister) (db_vault_board_authorization d)"

definition contiguous :: "db \<Rightarrow> bool" where
  "contiguous d \<longleftrightarrow> (\<forall>o1. length (registers d o1) \<le> 2 ^ 32 \<and>
     map ba_Attempt (registers d o1) = map word_of_nat [0..<length (registers d o1)])"

text \<open>A register pays out the whole value of its operation: receiver and fee add up to it, without wrap-around.\<close>

definition balanced :: "db \<Rightarrow> bool" where
  "balanced d \<longleftrightarrow> (\<forall>o1 a x. loadVaultBoardAuthorization d o1 a VaultBoardPhaseRegister = Some x \<longrightarrow>
     (\<exists>b. loadVaultBoardOperation d o1 = Some b \<and> 0 < sint (ba_ReceiverSats x) \<and> 0 \<le> sint (ba_FeeSats x) \<and>
        sint (ba_ReceiverSats x) + sint (ba_FeeSats x) = sint (bo_ValueSats b)))"

definition boardInv :: "db \<Rightarrow> bool" where
  "boardInv d \<longleftrightarrow> dispatchBacked d \<and> submissionBacked d \<and> closingBacked d \<and> exclusive d \<and> finalLatest d \<and>
     contiguous d \<and> balanced d"

lemma boardInvD:
  assumes "boardInv d"
  shows "dispatchBacked d" and "submissionBacked d" and "closingBacked d" and "exclusive d" and "finalLatest d"
    and "contiguous d" and "balanced d"
  using assms by (simp_all add: boardInv_def)

lemma closingBackedI:
  assumes "\<And>o1 a p. p \<in> {VaultBoardPhaseDelete, VaultBoardPhaseFinalize} \<Longrightarrow> loadVaultBoardAuthorization d o1 a p \<noteq> None \<Longrightarrow>
    loadVaultBoardDispatch d o1 a p \<noteq> None \<and>
    (\<exists>s. loadVaultBoardSubmission d o1 a VaultBoardPhaseRegister = Some s \<and> bs_Outcome s = VaultBoardAuthSubmitted)"
  shows "closingBacked d"
  using assms by (simp add: closingBacked_def)

lemma closingBackedD:
  assumes "closingBacked d" and "p \<in> {VaultBoardPhaseDelete, VaultBoardPhaseFinalize}" and "loadVaultBoardAuthorization d o1 a p \<noteq> None"
  obtains x s where "loadVaultBoardDispatch d o1 a p = Some x"
    and "loadVaultBoardSubmission d o1 a VaultBoardPhaseRegister = Some s" and "bs_Outcome s = VaultBoardAuthSubmitted"
proof -
  from assms have "loadVaultBoardDispatch d o1 a p \<noteq> None \<and>
      (\<exists>s. loadVaultBoardSubmission d o1 a VaultBoardPhaseRegister = Some s \<and> bs_Outcome s = VaultBoardAuthSubmitted)"
    unfolding closingBacked_def by blast
  then show thesis using that by auto
qed

lemma word_of_nat_sorted: "n \<le> 2 ^ 32 \<Longrightarrow> sorted (map (word_of_nat :: nat \<Rightarrow> u32) [0..<n])"
  by (auto simp: sorted_iff_nth_mono word_le_nat_alt unat_of_nat take_bit_nat_eq_self)

lemma registerRows_eq: "contiguous d \<Longrightarrow> registerRows d o1 = registers d o1"
  unfolding registerRows_def registers_def [symmetric]
  using word_of_nat_sorted [of "length (registers d o1)"] by (intro sort_key_id_if_sorted) (simp add: contiguous_def)

lemma latest_eq:
  "contiguous d \<Longrightarrow> loadLatestVaultBoardRegister d o1 = (if registers d o1 = [] then None else Some (last (registers d o1)))"
  by (cases "registers d o1" rule: rev_cases) (simp_all add: loadLatestVaultBoardRegister_def registerRows_eq)

lemma contiguous_last:
  assumes "contiguous d" and "registers d o1 \<noteq> []"
  shows "ba_Attempt (last (registers d o1)) = word_of_nat (length (registers d o1) - 1)"
proof -
  have "last (map ba_Attempt (registers d o1)) = last (map word_of_nat [0..<length (registers d o1)])"
    using assms by (simp add: contiguous_def)
  then show ?thesis using assms(2) by (simp add: last_map)
qed

lemma look_auth:
  "insertBoardAuthorization x d = Inr d' \<Longrightarrow> loadVaultBoardAuthorization d' o1 a p =
     (if o1 = ba_OperationID x \<and> a = ba_Attempt x \<and> p = ba_Phase x then Some x else loadVaultBoardAuthorization d o1 a p)"
  using auths_table.look_insert [of x d d' "(o1, a, p)"] by simp

lemma look_dispatch:
  "insertBoardDispatch x d = Inr d' \<Longrightarrow> loadVaultBoardDispatch d' o1 a p =
     (if o1 = bd_OperationID x \<and> a = bd_Attempt x \<and> p = bd_Phase x then Some x else loadVaultBoardDispatch d o1 a p)"
  using dispatches_table.look_insert [of x d d' "(o1, a, p)"] by simp

lemma look_submission:
  "insertBoardSubmission x d = Inr d' \<Longrightarrow> loadVaultBoardSubmission d' o1 a p =
     (if o1 = bs_OperationID x \<and> a = bs_Attempt x \<and> p = bs_Phase x then Some x else loadVaultBoardSubmission d o1 a p)"
  using submissions_table.look_insert [of x d d' "(o1, a, p)"] by simp

lemma auth_frames:
  assumes "insertBoardAuthorization x d = Inr d'"
  shows "loadVaultBoardDispatch d' o1 a p = loadVaultBoardDispatch d o1 a p"
    and "loadVaultBoardSubmission d' o1 a p = loadVaultBoardSubmission d o1 a p"
    and "loadVaultBoardOperation d' o1 = loadVaultBoardOperation d o1"
    and "registers d' o1 = registers d o1 @ (if ba_OperationID x = o1 \<and> ba_Phase x = VaultBoardPhaseRegister then [x] else [])"
  using insertBoardAuthorization_Inr [OF assms] by (simp_all add: board_frames registers_def)

lemma dispatch_frames:
  assumes "insertBoardDispatch x d = Inr d'"
  shows "loadVaultBoardAuthorization d' o1 a p = loadVaultBoardAuthorization d o1 a p"
    and "loadVaultBoardSubmission d' o1 a p = loadVaultBoardSubmission d o1 a p"
    and "loadVaultBoardOperation d' o1 = loadVaultBoardOperation d o1" and "registers d' o1 = registers d o1"
    and "loadLatestVaultBoardRegister d' o1 = loadLatestVaultBoardRegister d o1"
  using insertBoardDispatch_Inr [OF assms] by (simp_all add: board_frames registers_def loadLatestVaultBoardRegister_def)

lemma submission_frames:
  assumes "insertBoardSubmission x d = Inr d'"
  shows "loadVaultBoardAuthorization d' o1 a p = loadVaultBoardAuthorization d o1 a p"
    and "loadVaultBoardDispatch d' o1 a p = loadVaultBoardDispatch d o1 a p"
    and "loadVaultBoardOperation d' o1 = loadVaultBoardOperation d o1" and "registers d' o1 = registers d o1"
    and "loadLatestVaultBoardRegister d' o1 = loadLatestVaultBoardRegister d o1"
  using insertBoardSubmission_Inr [OF assms] by (simp_all add: board_frames registers_def loadLatestVaultBoardRegister_def)

lemma op_frames:
  "registers (d\<lparr> db_vault_board_operation := t \<rparr>) o1 = registers d o1"
  "loadLatestVaultBoardRegister (d\<lparr> db_vault_board_operation := t \<rparr>) o1 = loadLatestVaultBoardRegister d o1"
  by (simp_all add: registers_def loadLatestVaultBoardRegister_def board_frames)

lemma inv_operation:
  assumes "boardInv d" and "\<And>o1 x. loadVaultBoardOperation d o1 = Some x \<Longrightarrow> loadVaultBoardOperation (d\<lparr> db_vault_board_operation := t \<rparr>) o1 = Some x"
  shows "boardInv (d\<lparr> db_vault_board_operation := t \<rparr>)"
proof -
  have "balanced (d\<lparr> db_vault_board_operation := t \<rparr>)"
    using boardInvD(7) [OF assms(1)] assms(2) unfolding balanced_def board_frames by blast
  with assms(1) show ?thesis
    by (simp add: boardInv_def dispatchBacked_def submissionBacked_def closingBacked_def exclusive_def finalLatest_def
        contiguous_def board_frames op_frames)
qed

lemma inv_dispatch:
  assumes "boardInv d" and i: "insertBoardDispatch x d = Inr d'"
    and "loadVaultBoardAuthorization d (bd_OperationID x) (bd_Attempt x) (bd_Phase x) = Some y" and "ba_RequestDigest y = bd_RequestDigest x"
  shows "boardInv d'"
proof -
  note f = dispatch_frames [OF i] and lk = look_dispatch [OF i]
  have keep: "loadVaultBoardDispatch d o1 a p = Some z \<Longrightarrow> loadVaultBoardDispatch d' o1 a p = Some z" for o1 a p z
    using dispatches_table.insert_keeps [OF i, of "(o1, a, p)"] by simp
  have "dispatchBacked d'" using boardInvD(1) [OF assms(1)] assms(3,4) unfolding dispatchBacked_def f lk by auto
  moreover have "submissionBacked d'" using boardInvD(2) [OF assms(1)] keep unfolding submissionBacked_def f by blast
  moreover have "closingBacked d'"
  proof (rule closingBackedI)
    fix o1 a p assume p: "p \<in> {VaultBoardPhaseDelete, VaultBoardPhaseFinalize}" "loadVaultBoardAuthorization d' o1 a p \<noteq> None"
    from p(2) have "loadVaultBoardAuthorization d o1 a p \<noteq> None" by (simp add: f)
    then obtain z s where "loadVaultBoardDispatch d o1 a p = Some z"
      "loadVaultBoardSubmission d o1 a VaultBoardPhaseRegister = Some s" "bs_Outcome s = VaultBoardAuthSubmitted"
      by (rule closingBackedD [OF boardInvD(3) [OF assms(1)] p(1)])
    with keep show "loadVaultBoardDispatch d' o1 a p \<noteq> None \<and>
        (\<exists>s. loadVaultBoardSubmission d' o1 a VaultBoardPhaseRegister = Some s \<and> bs_Outcome s = VaultBoardAuthSubmitted)"
      by (simp add: f)
  qed
  ultimately show ?thesis
    using assms(1) by (simp add: boardInv_def exclusive_def finalLatest_def contiguous_def balanced_def f)
qed

lemma inv_submission:
  assumes "boardInv d" and i: "insertBoardSubmission x d = Inr d'"
    and "loadVaultBoardDispatch d (bs_OperationID x) (bs_Attempt x) (bs_Phase x) = Some y" and "bd_RequestDigest y = bs_RequestDigest x"
  shows "boardInv d'"
proof -
  note f = submission_frames [OF i] and lk = look_submission [OF i]
  have keep: "loadVaultBoardSubmission d o1 a p = Some z \<Longrightarrow> loadVaultBoardSubmission d' o1 a p = Some z" for o1 a p z
    using submissions_table.insert_keeps [OF i, of "(o1, a, p)"] by simp
  have "submissionBacked d'" using boardInvD(2) [OF assms(1)] assms(3,4) unfolding submissionBacked_def f lk by auto
  moreover have "closingBacked d'"
  proof (rule closingBackedI)
    fix o1 a p assume p: "p \<in> {VaultBoardPhaseDelete, VaultBoardPhaseFinalize}" "loadVaultBoardAuthorization d' o1 a p \<noteq> None"
    from p(2) have "loadVaultBoardAuthorization d o1 a p \<noteq> None" by (simp add: f)
    then obtain z s where "loadVaultBoardDispatch d o1 a p = Some z"
      "loadVaultBoardSubmission d o1 a VaultBoardPhaseRegister = Some s" "bs_Outcome s = VaultBoardAuthSubmitted"
      by (rule closingBackedD [OF boardInvD(3) [OF assms(1)] p(1)])
    with keep show "loadVaultBoardDispatch d' o1 a p \<noteq> None \<and>
        (\<exists>s. loadVaultBoardSubmission d' o1 a VaultBoardPhaseRegister = Some s \<and> bs_Outcome s = VaultBoardAuthSubmitted)"
      by (simp add: f)
  qed
  ultimately show ?thesis
    using assms(1) by (simp add: boardInv_def dispatchBacked_def exclusive_def finalLatest_def contiguous_def balanced_def f)
qed

text \<open>The authorization of a closing phase together with its dispatch.\<close>

lemma inv_closing:
  assumes "boardInv d" and i: "insertBoardAuthorization x d = Inr d1" and j: "insertBoardDispatch y d1 = Inr d'"
    and ph: "ba_Phase x \<in> {VaultBoardPhaseDelete, VaultBoardPhaseFinalize}"
    and key: "bd_OperationID y = ba_OperationID x" "bd_Attempt y = ba_Attempt x" "bd_Phase y = ba_Phase x" "bd_RequestDigest y = ba_RequestDigest x"
    and reg: "\<exists>s. loadVaultBoardSubmission d (ba_OperationID x) (ba_Attempt x) VaultBoardPhaseRegister = Some s \<and> bs_Outcome s = VaultBoardAuthSubmitted"
    and opp: "loadVaultBoardAuthorization d (ba_OperationID x) (ba_Attempt x)
      (if ba_Phase x = VaultBoardPhaseFinalize then VaultBoardPhaseDelete else VaultBoardPhaseFinalize) = None"
    and latest: "\<exists>r. loadLatestVaultBoardRegister d (ba_OperationID x) = Some r \<and> ba_Attempt r = ba_Attempt x"
  shows "boardInv d'"
proof -
  note f = auth_frames [OF i] and lk = look_auth [OF i] and g = dispatch_frames [OF j] and lj = look_dispatch [OF j]
  have regs: "registers d1 o1 = registers d o1" for o1 using ph by (auto simp: f)
  then have cont: "contiguous d1" using assms(1) by (simp add: boardInv_def contiguous_def)
  have lat: "loadLatestVaultBoardRegister d1 o1 = loadLatestVaultBoardRegister d o1" for o1
    using cont assms(1) by (simp add: latest_eq boardInv_def regs)
  have keepA: "loadVaultBoardAuthorization d o1 a p = Some z \<Longrightarrow> loadVaultBoardAuthorization d1 o1 a p = Some z" for o1 a p z
    using auths_table.insert_keeps [OF i, of "(o1, a, p)"] by simp
  have keepD: "loadVaultBoardDispatch d1 o1 a p = Some z \<Longrightarrow> loadVaultBoardDispatch d' o1 a p = Some z" for o1 a p z
    using dispatches_table.insert_keeps [OF j, of "(o1, a, p)"] by simp
  have "dispatchBacked d'"
    unfolding dispatchBacked_def g lj
  proof (intro allI impI)
    fix o1 a p z
    assume z: "(if o1 = bd_OperationID y \<and> a = bd_Attempt y \<and> p = bd_Phase y then Some y else loadVaultBoardDispatch d1 o1 a p) = Some z"
    show "\<exists>w. loadVaultBoardAuthorization d1 o1 a p = Some w \<and> ba_RequestDigest w = bd_RequestDigest z"
    proof (cases "o1 = bd_OperationID y \<and> a = bd_Attempt y \<and> p = bd_Phase y")
      case True
      with z key show ?thesis by (simp add: lk)
    next
      case False
      with z have "loadVaultBoardDispatch d o1 a p = Some z" by (simp add: f)
      with boardInvD(1) [OF assms(1)] keepA show ?thesis unfolding dispatchBacked_def by blast
    qed
  qed
  moreover have "submissionBacked d'"
    using boardInvD(2) [OF assms(1)] keepD unfolding submissionBacked_def g f by blast
  moreover have "closingBacked d'"
  proof (rule closingBackedI)
    fix o1 a p assume p: "p \<in> {VaultBoardPhaseDelete, VaultBoardPhaseFinalize}" "loadVaultBoardAuthorization d' o1 a p \<noteq> None"
    show "loadVaultBoardDispatch d' o1 a p \<noteq> None \<and>
        (\<exists>s. loadVaultBoardSubmission d' o1 a VaultBoardPhaseRegister = Some s \<and> bs_Outcome s = VaultBoardAuthSubmitted)"
    proof (cases "o1 = ba_OperationID x \<and> a = ba_Attempt x \<and> p = ba_Phase x")
      case True
      with reg key show ?thesis by (simp add: g f lj)
    next
      case False
      with p(2) have "loadVaultBoardAuthorization d o1 a p \<noteq> None" by (simp add: g lk)
      then obtain z s where "loadVaultBoardDispatch d o1 a p = Some z"
        "loadVaultBoardSubmission d o1 a VaultBoardPhaseRegister = Some s" "bs_Outcome s = VaultBoardAuthSubmitted"
        by (rule closingBackedD [OF boardInvD(3) [OF assms(1)] p(1)])
      with keepD show ?thesis by (simp add: g f)
    qed
  qed
  moreover have "exclusive d'"
    unfolding exclusive_def
  proof (intro allI)
    fix o1 a
    have "loadVaultBoardAuthorization d o1 a VaultBoardPhaseDelete = None \<or> loadVaultBoardAuthorization d o1 a VaultBoardPhaseFinalize = None"
      using boardInvD(4) [OF assms(1)] by (simp add: exclusive_def)
    then show "loadVaultBoardAuthorization d' o1 a VaultBoardPhaseDelete = None \<or> loadVaultBoardAuthorization d' o1 a VaultBoardPhaseFinalize = None"
      using opp ph by (cases "ba_Phase x = VaultBoardPhaseFinalize"; cases "o1 = ba_OperationID x \<and> a = ba_Attempt x")
        (simp_all add: g lk)
  qed
  moreover have "finalLatest d'"
    using boardInvD(5) [OF assms(1)] latest unfolding finalLatest_def g lat lk by auto
  moreover have "balanced d'"
  proof -
    have "loadVaultBoardAuthorization d' o1 a VaultBoardPhaseRegister = loadVaultBoardAuthorization d o1 a VaultBoardPhaseRegister" for o1 a
      using ph by (auto simp: g lk)
    with boardInvD(7) [OF assms(1)] show ?thesis by (simp add: balanced_def g f)
  qed
  moreover have "contiguous d'" using cont by (simp add: contiguous_def g)
  ultimately show ?thesis by (simp add: boardInv_def)
qed

lemma canRotate_Inr:
  assumes "requireVaultBoardAttemptCanRotate key d o1 a now = Inr ()"
  shows "loadVaultBoardAuthorization d o1 a VaultBoardPhaseFinalize = None"
    and "\<exists>reg. loadVaultBoardAuthorization d o1 a VaultBoardPhaseRegister = Some reg \<and>
      (loadVaultBoardDispatch d o1 a VaultBoardPhaseRegister = None \<or>
       (\<exists>s. loadVaultBoardSubmission d o1 a VaultBoardPhaseRegister = Some s \<and> bs_Outcome s = VaultBoardAuthRejected) \<or>
       loadVaultBoardSubmission d o1 a VaultBoardPhaseDelete \<noteq> None \<and> loadVaultBoardAuthorization d o1 a VaultBoardPhaseDelete \<noteq> None \<or>
       (\<exists>s. loadVaultBoardSubmission d o1 a VaultBoardPhaseRegister = Some s \<and> bs_Outcome s = VaultBoardAuthSubmitted) \<and>
         loadVaultBoardDispatch d o1 a VaultBoardPhaseDelete = None \<and> VaultBoardRegisterCanSupersede (ba_ExpireAt reg) now \<or>
       (\<exists>s. loadVaultBoardSubmission d o1 a VaultBoardPhaseRegister = Some s \<and> bs_Outcome s = VaultBoardAuthSubmitted) \<and>
         loadVaultBoardAuthorization d o1 a VaultBoardPhaseDelete = None \<and> VaultBoardRegisterCanSupersede (ba_ExpireAt reg) now)"
proof -
  show fin: "loadVaultBoardAuthorization d o1 a VaultBoardPhaseFinalize = None"
    using assms by (auto simp: requireVaultBoardAttemptCanRotate_def bindR_eq_Inr split: option.splits)
  note run = assms [unfolded requireVaultBoardAttemptCanRotate_def fin option.case bindR_eq_Inr requiredRow_Inr]
  then obtain reg where reg: "loadVaultBoardAuthorization d o1 a VaultBoardPhaseRegister = Some reg"
    and rest: "(case loadVaultBoardDispatch d o1 a VaultBoardPhaseRegister of
            None \<Rightarrow> Inr ()
          | Some registerDispatch \<Rightarrow>
              bindR (VerifyVaultBoardDispatch registerDispatch key) (\<lambda>_.
              bindR (requiredRow VerifyVaultBoardSubmission key stillActive
                  (loadVaultBoardSubmission d o1 a VaultBoardPhaseRegister)) (\<lambda>registerResult.
              if bs_Outcome registerResult = VaultBoardAuthRejected then Inr ()
              else
                let supersede = (if bs_Outcome registerResult = VaultBoardAuthSubmitted \<and>
                      VaultBoardRegisterCanSupersede (ba_ExpireAt reg) now then Inr () else Inl stillActive)
                in case loadVaultBoardAuthorization d o1 a VaultBoardPhaseDelete of
                     None \<Rightarrow> supersede
                   | Some deleteAuth \<Rightarrow>
                       bindR (VerifyVaultBoardAuthorization deleteAuth key) (\<lambda>_.
                       case loadVaultBoardDispatch d o1 a VaultBoardPhaseDelete of
                         None \<Rightarrow> supersede
                       | Some deleteDispatch \<Rightarrow>
                           bindR (VerifyVaultBoardDispatch deleteDispatch key) (\<lambda>_.
                           case loadVaultBoardSubmission d o1 a VaultBoardPhaseDelete of
                             None \<Rightarrow> Inl stillActive
                           | Some deleteResult \<Rightarrow>
                               bindR (VerifyVaultBoardSubmission deleteResult key) (\<lambda>_.
                               if bs_Outcome deleteResult = VaultBoardAuthReleased \<and>
                                   bs_RequestDigest deleteResult = ba_RequestDigest deleteAuth then Inr ()
                               else Inl stillActive)))))) = Inr ()"
    by (elim exE conjE) (rule that)
  show "\<exists>reg. loadVaultBoardAuthorization d o1 a VaultBoardPhaseRegister = Some reg \<and>
      (loadVaultBoardDispatch d o1 a VaultBoardPhaseRegister = None \<or>
       (\<exists>s. loadVaultBoardSubmission d o1 a VaultBoardPhaseRegister = Some s \<and> bs_Outcome s = VaultBoardAuthRejected) \<or>
       loadVaultBoardSubmission d o1 a VaultBoardPhaseDelete \<noteq> None \<and> loadVaultBoardAuthorization d o1 a VaultBoardPhaseDelete \<noteq> None \<or>
       (\<exists>s. loadVaultBoardSubmission d o1 a VaultBoardPhaseRegister = Some s \<and> bs_Outcome s = VaultBoardAuthSubmitted) \<and>
         loadVaultBoardDispatch d o1 a VaultBoardPhaseDelete = None \<and> VaultBoardRegisterCanSupersede (ba_ExpireAt reg) now \<or>
       (\<exists>s. loadVaultBoardSubmission d o1 a VaultBoardPhaseRegister = Some s \<and> bs_Outcome s = VaultBoardAuthSubmitted) \<and>
         loadVaultBoardAuthorization d o1 a VaultBoardPhaseDelete = None \<and> VaultBoardRegisterCanSupersede (ba_ExpireAt reg) now)"
  proof (cases "loadVaultBoardDispatch d o1 a VaultBoardPhaseRegister")
    case None
    with reg show ?thesis by simp
  next
    case (Some rd)
    from rest [unfolded Some option.case bindR_eq_Inr requiredRow_Inr] obtain res where
      res: "loadVaultBoardSubmission d o1 a VaultBoardPhaseRegister = Some res" by (elim exE conjE) (rule that)
    show ?thesis
    proof (cases "loadVaultBoardSubmission d o1 a VaultBoardPhaseDelete \<noteq> None \<and> loadVaultBoardAuthorization d o1 a VaultBoardPhaseDelete \<noteq> None")
      case True
      with reg show ?thesis by simp
    next
      case False
      with rest Some res reg show ?thesis
        by (auto simp: bindR_eq_Inr requiredRow_Inr Let_def split: option.splits if_splits)
    qed
  qed
qed

lemma nextAttempt_Inr:
  assumes "contiguous d" and "nextAttempt key d o1 now (registerRows d o1) = Inr a"
  shows "a = word_of_nat (length (registers d o1))" and "length (registers d o1) < 2 ^ 32"
    and "registers d o1 \<noteq> [] \<Longrightarrow> requireVaultBoardAttemptCanRotate key d o1 (a - 1) now = Inr ()"
proof -
  let ?rs = "registers d o1"
  have "a = word_of_nat (length ?rs) \<and> length ?rs < 2 ^ 32 \<and> (?rs \<noteq> [] \<longrightarrow> requireVaultBoardAttemptCanRotate key d o1 (a - 1) now = Inr ())"
  proof (cases "?rs = []")
    case True
    with assms show ?thesis by (simp add: nextAttempt_def registerRows_eq)
  next
    case False
    then obtain xs x where rs: "?rs = xs @ [x]" by (cases ?rs rule: rev_cases) auto
    have lim: "length ?rs \<le> 2 ^ 32" using assms(1) by (simp add: contiguous_def)
    have x: "ba_Attempt x = word_of_nat (length xs)" using contiguous_last [OF assms(1) False] rs by simp
    from assms(2) have ne: "ba_Attempt x \<noteq> 0xffffffff" and a: "a = ba_Attempt x + 1"
      and rot: "requireVaultBoardAttemptCanRotate key d o1 (ba_Attempt x) now = Inr ()"
      by (auto simp: nextAttempt_def registerRows_eq [OF assms(1)] rs bindR_eq_Inr split: if_splits)
    have "length xs \<noteq> 4294967295" using ne x by auto
    with lim rs have "length ?rs < 2 ^ 32" by simp
    with a x rs rot show ?thesis by simp
  qed
  then show "a = word_of_nat (length ?rs)" and "length ?rs < 2 ^ 32"
    and "?rs \<noteq> [] \<Longrightarrow> requireVaultBoardAttemptCanRotate key d o1 (a - 1) now = Inr ()" by blast+
qed

lemma inv_register:
  assumes "boardInv d" and i: "insertBoardAuthorization x d = Inr d'" and ph: "ba_Phase x = VaultBoardPhaseRegister"
    and n: "nextAttempt key d (ba_OperationID x) now (registerRows d (ba_OperationID x)) = Inr (ba_Attempt x)"
    and b: "loadVaultBoardOperation d (ba_OperationID x) = Some b" "0 < sint (ba_ReceiverSats x)" "0 \<le> sint (ba_FeeSats x)"
      "sint (ba_ReceiverSats x) + sint (ba_FeeSats x) = sint (bo_ValueSats b)"
  shows "boardInv d'"
proof -
  note f = auth_frames [OF i] and lk = look_auth [OF i] and inv = boardInvD [OF assms(1)]
  note nx = nextAttempt_Inr [OF inv(6) n]
  have keep: "loadVaultBoardAuthorization d o1 a p = Some z \<Longrightarrow> loadVaultBoardAuthorization d' o1 a p = Some z" for o1 a p z
    using auths_table.insert_keeps [OF i, of "(o1, a, p)"] by simp
  have other: "loadVaultBoardAuthorization d' o1 a p = loadVaultBoardAuthorization d o1 a p" if "p \<noteq> VaultBoardPhaseRegister" for o1 a p
    using that ph by (auto simp: lk)
  have "dispatchBacked d'"
    using inv(1) keep unfolding dispatchBacked_def f by meson
  moreover have "submissionBacked d'" using inv(2) by (simp add: submissionBacked_def f)
  moreover have "closingBacked d'"
  proof (rule closingBackedI)
    fix o1 a p assume p: "p \<in> {VaultBoardPhaseDelete, VaultBoardPhaseFinalize}" "loadVaultBoardAuthorization d' o1 a p \<noteq> None"
    from p(1) have "p \<noteq> VaultBoardPhaseRegister" by auto
    with p(2) have "loadVaultBoardAuthorization d o1 a p \<noteq> None" by (simp only: other not_False_eq_True)
    then show "loadVaultBoardDispatch d' o1 a p \<noteq> None \<and>
        (\<exists>s. loadVaultBoardSubmission d' o1 a VaultBoardPhaseRegister = Some s \<and> bs_Outcome s = VaultBoardAuthSubmitted)"
      by (rule closingBackedD [OF inv(3) p(1)]) (simp add: f)
  qed
  moreover have "exclusive d'" using inv(4) by (simp add: exclusive_def other)
  moreover have cont: "contiguous d'"
    unfolding contiguous_def
  proof (intro allI)
    fix o1
    show "length (registers d' o1) \<le> 2 ^ 32 \<and> map ba_Attempt (registers d' o1) = map word_of_nat [0..<length (registers d' o1)]"
    proof (cases "ba_OperationID x = o1")
      case True
      with inv(6) nx(1,2) ph show ?thesis by (auto simp: contiguous_def f)
    next
      case False
      with inv(6) show ?thesis by (simp add: contiguous_def f)
    qed
  qed
  moreover have "finalLatest d'"
    unfolding finalLatest_def
  proof (intro allI impI)
    fix o1 a
    assume "loadVaultBoardAuthorization d' o1 a VaultBoardPhaseFinalize \<noteq> None"
    then have old: "loadVaultBoardAuthorization d o1 a VaultBoardPhaseFinalize \<noteq> None" by (simp add: other)
    then obtain r where r: "loadLatestVaultBoardRegister d o1 = Some r" "ba_Attempt r = a"
      using inv(5) unfolding finalLatest_def by meson
    then have ne: "registers d o1 \<noteq> []" "a = word_of_nat (length (registers d o1) - 1)"
      using latest_eq [OF inv(6)] contiguous_last [OF inv(6)] by (auto split: if_splits)
    show "\<exists>r. loadLatestVaultBoardRegister d' o1 = Some r \<and> ba_Attempt r = a"
    proof (cases "ba_OperationID x = o1")
      case True
      with nx(1,3) ne have rot: "requireVaultBoardAttemptCanRotate key d o1 (ba_Attempt x - 1) now = Inr ()" by simp
      have "ba_Attempt x - 1 = a"
        using ne True nx(1) by (cases "registers d o1") simp_all
      with canRotate_Inr(1) [OF rot] old show ?thesis by simp
    next
      case False
      with r cont inv(6) ne show ?thesis by (simp add: latest_eq f)
    qed
  qed
  moreover have "balanced d'"
    unfolding balanced_def
  proof (intro allI impI)
    fix o1 a z
    assume z: "loadVaultBoardAuthorization d' o1 a VaultBoardPhaseRegister = Some z"
    show "\<exists>b. loadVaultBoardOperation d' o1 = Some b \<and> 0 < sint (ba_ReceiverSats z) \<and> 0 \<le> sint (ba_FeeSats z) \<and>
        sint (ba_ReceiverSats z) + sint (ba_FeeSats z) = sint (bo_ValueSats b)"
    proof (cases "o1 = ba_OperationID x \<and> a = ba_Attempt x")
      case True
      with z ph b show ?thesis by (simp add: lk f)
    next
      case False
      with z have "loadVaultBoardAuthorization d o1 a VaultBoardPhaseRegister = Some z" by (auto simp: lk)
      with inv(7) show ?thesis by (simp add: balanced_def f)
    qed
  qed
  ultimately show ?thesis by (simp add: boardInv_def)
qed

section \<open>Runs of the boarding ledger\<close>

text \<open>
  One step: any call of the four methods, with any faults and whether or not it succeeds, or
  anything that leaves the four tables alone.
\<close>

inductive boardStep :: "Ledger \<Rightarrow> Ledger \<Rightarrow> bool" where
  begin_attempt: "BeginVaultBoardAttempt fault cf t0 now l operation request chain = (r1, l') \<Longrightarrow> boardStep l l'"
| authorize: "AppendVaultBoardAuthorizationAndDispatch fault cf t1 t2 l auth chain = (r2, l') \<Longrightarrow> boardStep l l'"
| dispatch: "AppendVaultBoardDispatch fault cf now l dis chain = (r3, l') \<Longrightarrow> boardStep l l'"
| submit: "AppendVaultBoardSubmission fault cf now l sub = (r4, l') \<Longrightarrow> boardStep l l'"
| frame: "db_vault_board_operation (l_db l') = db_vault_board_operation (l_db l) \<Longrightarrow>
    db_vault_board_authorization (l_db l') = db_vault_board_authorization (l_db l) \<Longrightarrow>
    db_vault_board_dispatch (l_db l') = db_vault_board_dispatch (l_db l) \<Longrightarrow>
    db_vault_board_submission (l_db l') = db_vault_board_submission (l_db l) \<Longrightarrow> boardStep l l'"

inductive_cases boardStepE: "boardStep l l'"

lemma boardInv_frame:
  assumes "boardInv d" and "db_vault_board_operation d' = db_vault_board_operation d"
    and "db_vault_board_authorization d' = db_vault_board_authorization d"
    and "db_vault_board_dispatch d' = db_vault_board_dispatch d" and "db_vault_board_submission d' = db_vault_board_submission d"
  shows "boardInv d'"
proof -
  have "loadVaultBoardOperation d' = loadVaultBoardOperation d" "loadVaultBoardAuthorization d' = loadVaultBoardAuthorization d"
    "loadVaultBoardDispatch d' = loadVaultBoardDispatch d" "loadVaultBoardSubmission d' = loadVaultBoardSubmission d"
    "registers d' = registers d" "loadLatestVaultBoardRegister d' = loadLatestVaultBoardRegister d"
    using assms(2-5) by (simp_all add: fun_eq_iff board_load_defs registers_def loadLatestVaultBoardRegister_def registerRows_def)
  then show ?thesis
    using assms(1) by (simp add: boardInv_def dispatchBacked_def submissionBacked_def closingBacked_def exclusive_def
        finalLatest_def contiguous_def balanced_def)
qed

lemma registerAuthorization_keeps:
  assumes "SealVaultBoardAuthorization (registerAuthorization o1 a now request) key = Inr x"
  shows "ba_OperationID x = o1" and "ba_Attempt x = a" and "ba_Phase x = VaultBoardPhaseRegister"
    and "ba_ReceiverSats x = br_ReceiverSats request" and "ba_FeeSats x = br_FeeSats request"
    and "ba_ExpireAt x = br_ExpireAt request" and "ba_RequestDigest x = br_RequestDigest request"
    and "ba_TreeSessionPub x = br_TreeSessionPub request"
  using SealVaultBoardAuthorization_keeps [OF assms] by (auto simp: registerAuthorization_def)

lemma validRegisterRequest_balance:
  assumes "validRegisterRequest t0 operation request"
  shows "0 < sint (br_ReceiverSats request)" and "0 \<le> sint (br_FeeSats request)"
    and "sint (br_ReceiverSats request) + sint (br_FeeSats request) = sint (bo_ValueSats operation)"
proof -
  from assms have r: "0 < sint (br_ReceiverSats request)" "0 \<le> sint (br_FeeSats request)"
    "sint (br_ReceiverSats request) \<le> sint (max_i64 - br_FeeSats request)"
    and sum: "br_ReceiverSats request + br_FeeSats request = bo_ValueSats operation"
    by (auto simp: validRegisterRequest_def)
  have "sint (br_ReceiverSats request) + sint (br_FeeSats request) < 2 ^ 63"
    using r(3) sint_max_minus [OF r(2)] by simp
  then show "sint (br_ReceiverSats request) + sint (br_FeeSats request) = sint (bo_ValueSats operation)"
    using r sint_add_i64 [of "br_ReceiverSats request" "br_FeeSats request"] by (simp add: sum [symmetric])
qed (use assms in \<open>auto simp: validRegisterRequest_def\<close>)

lemma SealVaultBoardDispatch_keeps: "SealVaultBoardDispatch x key = Inr s \<Longrightarrow> \<exists>m. s = x\<lparr> bd_IntegrityMAC := m \<rparr>"
  by (auto simp: SealVaultBoardDispatch_def res_simps)

lemma SealVaultBoardSubmission_keeps:
  "SealVaultBoardSubmission x key = Inr s \<Longrightarrow> (\<exists>m. s = x\<lparr> bs_IntegrityMAC := m \<rparr>) \<and> submissionPhase x = Inr ()"
  by (auto simp: SealVaultBoardSubmission_def vaultBoardMAC_def canonicalVaultBoardSubmission_def res_simps split: if_splits)

lemma submissionPhase_keeps:
  "submissionPhase (x\<lparr> bs_CreatedAt := c, bs_IntegrityMAC := m \<rparr>) = submissionPhase (x\<lparr> bs_CreatedAt := c \<rparr>)"
  by (simp add: submissionPhase_def)

lemma submissionPhase_outcome:
  "submissionPhase x = Inr () \<Longrightarrow>
     bs_Phase x = VaultBoardPhaseRegister \<and> bs_Outcome x \<in> {VaultBoardAuthSubmitted, VaultBoardAuthRejected} \<or>
     bs_Phase x = VaultBoardPhaseDelete \<and> bs_Outcome x = VaultBoardAuthReleased \<or>
     bs_Phase x = VaultBoardPhaseFinalize \<and> bs_Outcome x = VaultBoardAuthSubmitted"
  by (auto simp: submissionPhase_def Let_def split: if_splits)

lemma load_key:
  "loadVaultBoardAuthorization d o1 a p = Some x \<Longrightarrow> ba_OperationID x = o1 \<and> ba_Attempt x = a \<and> ba_Phase x = p"
  by (auto simp: loadVaultBoardAuthorization_def dest: find_row_Some)

text \<open>
  What a transaction can change in the four tables: nothing but a new operation row, a new attempt,
  the dispatch of a phase that has its authorization, the result of a dispatched phase, or a delete
  or finalize authorization together with its dispatch.
\<close>

definition grown :: "db \<Rightarrow> db \<Rightarrow> bool" where
  "grown d d' \<longleftrightarrow> (\<exists>t. d' = d\<lparr> db_vault_board_operation := t \<rparr>) \<and>
     (\<forall>o1 x. loadVaultBoardOperation d o1 = Some x \<longrightarrow> loadVaultBoardOperation d' o1 = Some x)"

inductive boardChange :: "db \<Rightarrow> db \<Rightarrow> bool" where
  same: "db_vault_board_operation d' = db_vault_board_operation d \<Longrightarrow>
    db_vault_board_authorization d' = db_vault_board_authorization d \<Longrightarrow>
    db_vault_board_dispatch d' = db_vault_board_dispatch d \<Longrightarrow>
    db_vault_board_submission d' = db_vault_board_submission d \<Longrightarrow> boardChange d d'"
| operation: "grown d d' \<Longrightarrow> boardChange d d'"
| register: "grown d d1 \<Longrightarrow> insertBoardAuthorization x d1 = Inr d' \<Longrightarrow> ba_Phase x = VaultBoardPhaseRegister \<Longrightarrow>
    nextAttempt key d1 (ba_OperationID x) now (registerRows d1 (ba_OperationID x)) = Inr (ba_Attempt x) \<Longrightarrow>
    loadVaultBoardOperation d1 (ba_OperationID x) = Some b \<Longrightarrow> 0 < sint (ba_ReceiverSats x) \<Longrightarrow> 0 \<le> sint (ba_FeeSats x) \<Longrightarrow>
    sint (ba_ReceiverSats x) + sint (ba_FeeSats x) = sint (bo_ValueSats b) \<Longrightarrow> boardChange d d'"
| dispatch: "insertBoardDispatch y d = Inr d' \<Longrightarrow>
    loadVaultBoardAuthorization d (bd_OperationID y) (bd_Attempt y) (bd_Phase y) = Some x \<Longrightarrow>
    ba_RequestDigest x = bd_RequestDigest y \<Longrightarrow>
    loadVaultBoardSubmission d (bd_OperationID y) (bd_Attempt y) (bd_Phase y) = None \<Longrightarrow> boardChange d d'"
| submission: "insertBoardSubmission z d = Inr d' \<Longrightarrow>
    loadVaultBoardDispatch d (bs_OperationID z) (bs_Attempt z) (bs_Phase z) = Some y \<Longrightarrow>
    bd_RequestDigest y = bs_RequestDigest z \<Longrightarrow> submissionPhase z = Inr () \<Longrightarrow> boardChange d d'"
| closing: "insertBoardAuthorization x d = Inr d1 \<Longrightarrow> insertBoardDispatch y d1 = Inr d' \<Longrightarrow>
    ba_Phase x \<in> {VaultBoardPhaseDelete, VaultBoardPhaseFinalize} \<Longrightarrow>
    bd_OperationID y = ba_OperationID x \<Longrightarrow> bd_Attempt y = ba_Attempt x \<Longrightarrow> bd_Phase y = ba_Phase x \<Longrightarrow>
    bd_RequestDigest y = ba_RequestDigest x \<Longrightarrow>
    loadVaultBoardSubmission d (ba_OperationID x) (ba_Attempt x) VaultBoardPhaseRegister = Some s \<Longrightarrow>
    bs_Outcome s = VaultBoardAuthSubmitted \<Longrightarrow>
    loadVaultBoardAuthorization d (ba_OperationID x) (ba_Attempt x)
      (if ba_Phase x = VaultBoardPhaseFinalize then VaultBoardPhaseDelete else VaultBoardPhaseFinalize) = None \<Longrightarrow>
    loadLatestVaultBoardRegister d (ba_OperationID x) = Some r \<Longrightarrow> ba_Attempt r = ba_Attempt x \<Longrightarrow> boardChange d d'"

lemma boardChange_refl: "boardChange d d" by (rule boardChange.same) simp_all

lemma begin_change:
  assumes "BeginVaultBoardAttempt fault cf t0 now l operation request chain = (r, l')"
  shows "boardChange (l_db l) (l_db l')"
  using beginBody_request [OF assms]
proof (elim disjE exE conjE)
  fix opID assume v: "validRegisterRequest t0 operation request"
    and f: "finishTx fault cf l (beginBody l now (operation\<lparr> bo_OperationID := opID \<rparr>) request chain (l_db l)) = (r, l')"
  from f show ?thesis
  proof (cases rule: finishTx_cases)
    case same then show ?thesis by (simp add: boardChange_refl)
  next
    case (ok ob x d)
    obtain stored auth created where x: "x = (stored, auth, created)" by (metis prod_cases3)
    from ok(1) [unfolded x] show ?thesis
    proof (cases rule: beginBody_cases)
      case (retry t) 
      then have "grown (l_db l) (l_db l')" unfolding grown_def ok(2) by blast
      then show ?thesis by (rule boardChange.operation)
    next
      case (new d1 t attempt)
      note k = registerAuthorization_keeps [OF new(11)]
      have g: "grown (l_db l) d1" using new(3,6) unfolding grown_def by blast
      have rows: "registerRows d1 opID = registerRows (l_db l) opID" using new(3) by (simp add: board_frames)
      have val: "bo_ValueSats stored = bo_ValueSats operation" using new(5) by (simp add: sameVaultBoardOperationFacts_def)
      show ?thesis
        by (rule boardChange.register [OF g, of auth _ "l_integrityKey l" now stored])
          (use new(4,10,12) k validRegisterRequest_balance [OF v] ok(2) rows val in simp_all)
    qed
  qed
qed (simp add: boardChange_refl)

text \<open>
  Under the invariant a delete or finalize either finds both of its rows or has to make both: the two
  other branches are for tables no run reaches.
\<close>

lemma authorizeBody_inv_cases:
  assumes body: "authorizeBody l t1 t2 auth chain d = Inr (ob, (auth', dis, created), d')" and inv: "boardInv d"
    and ph: "ba_Phase auth \<in> {VaultBoardPhaseDelete, VaultBoardPhaseFinalize}"
  obtains (stored) "d' = d" and "\<not> ob"
  | (new) d1 where "validateVaultBoardPhaseOrder (l_integrityKey l) d auth = Inr ()"
      and "SealVaultBoardAuthorization (auth\<lparr> ba_CreatedAt := formatRFC3339Nano t1 \<rparr>) (l_integrityKey l) = Inr auth'"
      and "insertBoardAuthorization auth' d = Inr d1"
      and "SealVaultBoardDispatch (newDispatch auth' t2) (l_integrityKey l) = Inr dis"
      and "insertBoardDispatch dis d1 = Inr d'" and "ob"
      and "requireLatestAttempt (l_integrityKey l) d (ba_OperationID auth) (ba_Attempt auth) = Inr ()"
  using body
proof (cases rule: authorizeBody_cases)
  case stored
  then show thesis using that(1) by blast
next
  case dispatch
  note key = load_key [OF dispatch(1)]
  obtain m where m: "dis = (newDispatch auth' t2)\<lparr> bd_IntegrityMAC := m \<rparr>" using SealVaultBoardDispatch_keeps [OF dispatch(2)] by blast
  have "loadVaultBoardDispatch d (ba_OperationID auth) (ba_Attempt auth) (ba_Phase auth) = None"
    using insertBoardDispatch_Inr [OF dispatch(3)] by (simp add: m newDispatch_def key)
  moreover have "loadVaultBoardDispatch d (ba_OperationID auth) (ba_Attempt auth) (ba_Phase auth) \<noteq> None"
    by (rule closingBackedD [OF boardInvD(3) [OF inv] ph, of "ba_OperationID auth" "ba_Attempt auth"]) (use dispatch(1) in simp_all)
  ultimately show thesis by simp
next
  case (orphan d1)
  note k = SealVaultBoardAuthorization_keeps [OF orphan(4)]
  have "loadVaultBoardAuthorization d (ba_OperationID auth) (ba_Attempt auth) (ba_Phase auth) \<noteq> None"
    using boardInvD(1) [OF inv] orphan(5) unfolding dispatchBacked_def by fastforce
  moreover have "loadVaultBoardAuthorization d (ba_OperationID auth) (ba_Attempt auth) (ba_Phase auth) = None"
    using insertBoardAuthorization_Inr [OF orphan(1)] k by auto
  ultimately show thesis by simp
qed (rule that(2))

lemma authorize_change:
  assumes "AppendVaultBoardAuthorizationAndDispatch fault cf t1 t2 l auth chain = (r, l')" and inv: "boardInv (l_db l)"
  shows "boardChange (l_db l) (l_db l')"
proof (cases "(r, l') = (r, l)")
  case False
  with assms have f: "finishTx fault cf l (authorizeBody l t1 t2 auth chain (l_db l)) = (r, l')"
    and ph: "ba_Phase auth \<in> {VaultBoardPhaseDelete, VaultBoardPhaseFinalize}"
    unfolding AppendVaultBoardAuthorizationAndDispatch_def by (simp_all split: if_splits)
  from f show ?thesis
  proof (cases rule: finishTx_cases)
    case same then show ?thesis by (simp add: boardChange_refl)
  next
    case (ok ob x d)
    obtain auth' dis created where x: "x = (auth', dis, created)" by (metis prod_cases3)
    from ok(1) [unfolded x] inv ph show ?thesis
    proof (cases rule: authorizeBody_inv_cases)
      case stored
      with ok(2) show ?thesis by (simp add: boardChange_refl)
    next
      case (new d1)
      note k = SealVaultBoardAuthorization_keeps [OF new(2)] and order = validateVaultBoardPhaseOrder_Inr [OF new(1)]
      have keep: "ba_OperationID auth' = ba_OperationID auth" "ba_Attempt auth' = ba_Attempt auth" "ba_Phase auth' = ba_Phase auth"
        using k by auto
      obtain m where m: "dis = (newDispatch auth' t2)\<lparr> bd_IntegrityMAC := m \<rparr>" using SealVaultBoardDispatch_keeps [OF new(4)] by blast
      obtain s where s: "loadVaultBoardSubmission (l_db l) (ba_OperationID auth) (ba_Attempt auth) VaultBoardPhaseRegister = Some s"
        "bs_Outcome s = VaultBoardAuthSubmitted" using order(2) by (elim exE conjE) (rule that)
      obtain r where r: "loadLatestVaultBoardRegister (l_db l) (ba_OperationID auth) = Some r" "ba_Attempt r = ba_Attempt auth"
        using new(7) unfolding requireLatestAttempt_Inr by (elim exE conjE) (rule that)
      show ?thesis
        by (rule boardChange.closing [OF new(3) new(5) [folded ok(2)], of s r])
          (use order(3) ph s r in \<open>simp_all add: keep m newDispatch_def\<close>)
    qed
  qed
qed (use assms in \<open>simp add: boardChange_refl\<close>)

lemma dispatch_change:
  assumes "AppendVaultBoardDispatch fault cf now l rec chain = (r, l')"
  shows "boardChange (l_db l) (l_db l')"
  using assms [unfolded AppendVaultBoardDispatch_def]
proof (cases rule: finishTx_cases)
  case same then show ?thesis by (simp add: boardChange_refl)
next
  case (ok ob x d)
  obtain dis created where x: "x = (dis, created)" by fastforce
  from ok(1) [unfolded x] show ?thesis
  proof (cases rule: dispatchBody_cases)
    case stored
    with ok(2) show ?thesis by (simp add: boardChange_refl)
  next
    case (new auth)
    obtain m where m: "dis = rec\<lparr> bd_CreatedAt := formatRFC3339Nano now, bd_IntegrityMAC := m \<rparr>"
      using SealVaultBoardDispatch_keeps [OF new(5)] by fastforce
    show ?thesis
      by (rule boardChange.dispatch [OF new(6) [folded ok(2)], of auth]) (use new(1,2,4) in \<open>simp_all add: m\<close>)
  qed
qed

lemma submission_change:
  assumes "AppendVaultBoardSubmission fault cf now l rec = (r, l')"
  shows "boardChange (l_db l) (l_db l')"
  using assms [unfolded AppendVaultBoardSubmission_def]
proof (cases rule: finishTx_cases)
  case same then show ?thesis by (simp add: boardChange_refl)
next
  case (ok ob x d)
  obtain sub created where x: "x = (sub, created)" by fastforce
  from ok(1) [unfolded x] show ?thesis
  proof (cases rule: submissionBody_cases)
    case stored
    with ok(2) show ?thesis by (simp add: boardChange_refl)
  next
    case (new auth dis)
    have ph: "submissionPhase (rec\<lparr> bs_CreatedAt := formatRFC3339Nano now \<rparr>) = Inr ()"
      using SealVaultBoardSubmission_keeps [OF new(5)] by simp
    obtain m where m: "sub = rec\<lparr> bs_CreatedAt := formatRFC3339Nano now, bs_IntegrityMAC := m \<rparr>"
      using SealVaultBoardSubmission_keeps [OF new(5)] by fastforce
    show ?thesis
      by (rule boardChange.submission [OF new(6) [folded ok(2)], of dis]) (use new(3,4) ph in \<open>simp_all add: m submissionPhase_keeps\<close>)
  qed
qed

lemma boardStep_change: "boardStep l l' \<Longrightarrow> boardInv (l_db l) \<Longrightarrow> boardChange (l_db l) (l_db l')"
  by (erule boardStepE) (blast intro: begin_change authorize_change dispatch_change submission_change boardChange.same)+

lemma boardChange_inv:
  assumes "boardChange d d'" and "boardInv d"
  shows "boardInv d'"
  using assms
proof cases
  case same
  from boardInv_frame [OF assms(2) this] show ?thesis .
next
  case operation
  with inv_operation [OF assms(2)] show ?thesis unfolding grown_def by blast
next
  case (register d1 x key now b)
  have "boardInv d1" using register(1) inv_operation [OF assms(2)] unfolding grown_def by blast
  from inv_register [OF this register(2-8)] show ?thesis .
next
  case (dispatch y x)
  with inv_dispatch [OF assms(2)] show ?thesis by simp
next
  case (submission z y)
  with inv_submission [OF assms(2)] show ?thesis by simp
next
  case (closing x d1 y s r)
  show ?thesis by (rule inv_closing [OF assms(2) closing(1-7)]) (use closing(8-12) in simp_all)
qed

inductive boardRun :: "Ledger \<Rightarrow> Ledger \<Rightarrow> bool" where
  start: "boardRun l l"
| step: "boardRun l m \<Longrightarrow> boardStep m n \<Longrightarrow> boardRun l n"

lemma boardRun_inv: "boardRun l l' \<Longrightarrow> boardInv (l_db l) \<Longrightarrow> boardInv (l_db l')"
  by (induction rule: boardRun.induct) (blast intro: boardChange_inv boardStep_change)+

lemma boardInv_empty:
  "db_vault_board_authorization d = [] \<Longrightarrow> db_vault_board_dispatch d = [] \<Longrightarrow> db_vault_board_submission d = [] \<Longrightarrow> boardInv d"
  by (simp add: boardInv_def dispatchBacked_def submissionBacked_def closingBacked_def exclusive_def finalLatest_def contiguous_def
      balanced_def board_load_defs registers_def)

section \<open>The life of one attempt\<close>

text \<open>
  The four tables of one attempt, read as one state, and the transitions the protocol means to have.
\<close>

datatype attemptState = Absent | Registered | Dispatched | Accepted | Rejected | Deleting | Released | Finalizing | Finalized

definition attempt :: "db \<Rightarrow> string \<Rightarrow> u32 \<Rightarrow> attemptState" where
  "attempt d o1 a =
     (if loadVaultBoardAuthorization d o1 a VaultBoardPhaseFinalize \<noteq> None then
        (if loadVaultBoardSubmission d o1 a VaultBoardPhaseFinalize = None then Finalizing else Finalized)
      else if loadVaultBoardAuthorization d o1 a VaultBoardPhaseDelete \<noteq> None then
        (if loadVaultBoardSubmission d o1 a VaultBoardPhaseDelete = None then Deleting else Released)
      else if loadVaultBoardAuthorization d o1 a VaultBoardPhaseRegister = None then Absent
      else if loadVaultBoardDispatch d o1 a VaultBoardPhaseRegister = None then Registered
      else case loadVaultBoardSubmission d o1 a VaultBoardPhaseRegister of
             None \<Rightarrow> Dispatched
           | Some s \<Rightarrow> if bs_Outcome s = VaultBoardAuthSubmitted then Accepted else Rejected)"

fun attemptNext :: "attemptState \<Rightarrow> attemptState list" where
  "attemptNext Absent = [Registered]"
| "attemptNext Registered = [Dispatched]"
| "attemptNext Dispatched = [Accepted, Rejected]"
| "attemptNext Accepted = [Deleting, Finalizing]"
| "attemptNext Deleting = [Released]"
| "attemptNext Finalizing = [Finalized]"
| "attemptNext _ = []"

lemma closing_none:
  assumes "boardInv d" and "loadVaultBoardSubmission d o1 a VaultBoardPhaseRegister = None"
  shows "loadVaultBoardAuthorization d o1 a VaultBoardPhaseDelete = None" and "loadVaultBoardAuthorization d o1 a VaultBoardPhaseFinalize = None"
proof -
  have "loadVaultBoardAuthorization d o1 a p = None" if "p \<in> {VaultBoardPhaseDelete, VaultBoardPhaseFinalize}" for p
  proof (rule ccontr)
    assume "loadVaultBoardAuthorization d o1 a p \<noteq> None"
    then show False by (rule closingBackedD [OF boardInvD(3) [OF assms(1)] that]) (simp add: assms(2))
  qed
  then show "loadVaultBoardAuthorization d o1 a VaultBoardPhaseDelete = None"
    and "loadVaultBoardAuthorization d o1 a VaultBoardPhaseFinalize = None" by simp_all
qed

lemma backed_none:
  assumes "boardInv d"
  shows "loadVaultBoardAuthorization d o1 a p = None \<Longrightarrow> loadVaultBoardDispatch d o1 a p = None"
    and "loadVaultBoardDispatch d o1 a p = None \<Longrightarrow> loadVaultBoardSubmission d o1 a p = None"
proof -
  show "loadVaultBoardDispatch d o1 a p = None" if "loadVaultBoardAuthorization d o1 a p = None"
    using boardInvD(1) [OF assms] that unfolding dispatchBacked_def by (metis option.exhaust option.distinct(1))
  show "loadVaultBoardSubmission d o1 a p = None" if "loadVaultBoardDispatch d o1 a p = None"
    using boardInvD(2) [OF assms] that unfolding submissionBacked_def by (metis option.exhaust option.distinct(1))
qed

lemma attempt_cong:
  assumes "\<And>p. loadVaultBoardAuthorization d' o1 a p = loadVaultBoardAuthorization d o1 a p"
    and "\<And>p. loadVaultBoardDispatch d' o1 a p = loadVaultBoardDispatch d o1 a p"
    and "\<And>p. loadVaultBoardSubmission d' o1 a p = loadVaultBoardSubmission d o1 a p"
  shows "attempt d' o1 a = attempt d o1 a"
  by (simp add: attempt_def assms)

lemma grown_attempt: "grown d d' \<Longrightarrow> attempt d' o1 a = attempt d o1 a"
  unfolding grown_def by (elim conjE exE) (rule attempt_cong, simp_all add: board_frames)

text \<open>Each change moves the attempt of its row along one arrow and no other attempt.\<close>

definition moves :: "db \<Rightarrow> db \<Rightarrow> string \<Rightarrow> u32 \<Rightarrow> bool" where
  "moves d d' o1 a \<longleftrightarrow> attempt d' o1 a \<in> set (attemptNext (attempt d o1 a)) \<and>
     (\<forall>o2 b. (o2, b) \<noteq> (o1, a) \<longrightarrow> attempt d' o2 b = attempt d o2 b)"

lemma register_moves:
  assumes inv: "boardInv d" and i: "insertBoardAuthorization x d = Inr d'" and ph: "ba_Phase x = VaultBoardPhaseRegister"
  shows "moves d d' (ba_OperationID x) (ba_Attempt x)"
proof -
  note f = auth_frames [OF i] and lk = look_auth [OF i]
  let ?o = "ba_OperationID x" and ?a = "ba_Attempt x"
  have n: "loadVaultBoardAuthorization d ?o ?a VaultBoardPhaseRegister = None" using insertBoardAuthorization_Inr [OF i] ph by simp
  note dn = backed_none(1) [OF inv n] and sn = backed_none(2) [OF inv backed_none(1) [OF inv n]]
  note cn = closing_none [OF inv sn]
  have "attempt d ?o ?a = Absent" "attempt d' ?o ?a = Registered" using n dn sn cn by (simp_all add: attempt_def lk f ph)
  moreover have "attempt d' o2 b = attempt d o2 b" if "(o2, b) \<noteq> (?o, ?a)" for o2 b
    using that by (intro attempt_cong) (auto simp: lk f)
  ultimately show ?thesis by (simp add: moves_def)
qed

lemma dispatch_moves:
  assumes inv: "boardInv d" and i: "insertBoardDispatch y d = Inr d'"
    and x: "loadVaultBoardAuthorization d (bd_OperationID y) (bd_Attempt y) (bd_Phase y) = Some x"
    and s: "loadVaultBoardSubmission d (bd_OperationID y) (bd_Attempt y) (bd_Phase y) = None"
  shows "moves d d' (bd_OperationID y) (bd_Attempt y) \<or> (\<forall>o1 a. attempt d' o1 a = attempt d o1 a)"
proof (cases "bd_Phase y = VaultBoardPhaseRegister")
  case True
  note f = dispatch_frames [OF i] and lk = look_dispatch [OF i]
  let ?o = "bd_OperationID y" and ?a = "bd_Attempt y"
  have n: "loadVaultBoardDispatch d ?o ?a VaultBoardPhaseRegister = None" using insertBoardDispatch_Inr [OF i] True by simp
  note sn = s [unfolded True] and xn = x [unfolded True]
  have "attempt d ?o ?a = Registered" "attempt d' ?o ?a = Dispatched"
    using n sn xn closing_none [OF inv sn] by (simp_all add: attempt_def lk f True)
  moreover have "attempt d' o2 b = attempt d o2 b" if "(o2, b) \<noteq> (?o, ?a)" for o2 b
    using that by (intro attempt_cong) (auto simp: lk f)
  ultimately show ?thesis by (simp add: moves_def)
next
  case False
  then have "attempt d' o1 a = attempt d o1 a" for o1 a
    by (simp add: attempt_def look_dispatch [OF i] dispatch_frames [OF i])
  then show ?thesis by simp
qed

lemma submission_moves:
  assumes inv: "boardInv d" and i: "insertBoardSubmission z d = Inr d'"
    and y: "loadVaultBoardDispatch d (bs_OperationID z) (bs_Attempt z) (bs_Phase z) = Some y"
    and ph: "submissionPhase z = Inr ()"
  shows "moves d d' (bs_OperationID z) (bs_Attempt z)"
proof -
  note f = submission_frames [OF i] and lk = look_submission [OF i]
  let ?o = "bs_OperationID z" and ?a = "bs_Attempt z"
  have n: "loadVaultBoardSubmission d ?o ?a (bs_Phase z) = None" using insertBoardSubmission_Inr [OF i] by simp
  have x: "loadVaultBoardAuthorization d ?o ?a (bs_Phase z) \<noteq> None"
    using backed_none(1) [OF inv, of ?o ?a "bs_Phase z"] y by auto
  have ex: "loadVaultBoardAuthorization d ?o ?a VaultBoardPhaseDelete = None \<or> loadVaultBoardAuthorization d ?o ?a VaultBoardPhaseFinalize = None"
    using boardInvD(4) [OF inv] by (simp add: exclusive_def)
  consider (r) "bs_Phase z = VaultBoardPhaseRegister" "bs_Outcome z \<in> {VaultBoardAuthSubmitted, VaultBoardAuthRejected}"
    | (del) "bs_Phase z = VaultBoardPhaseDelete" | (fin) "bs_Phase z = VaultBoardPhaseFinalize"
    using submissionPhase_outcome [OF ph] by (elim disjE conjE)
  then have "attempt d' ?o ?a \<in> set (attemptNext (attempt d ?o ?a))"
  proof cases
    case r
    have "attempt d ?o ?a = Dispatched" using x y n closing_none [OF inv n [unfolded r(1)]] by (auto simp: attempt_def r(1))
    moreover have "attempt d' ?o ?a \<in> {Accepted, Rejected}"
      using x y n closing_none [OF inv n [unfolded r(1)]] by (auto simp: attempt_def r(1) lk f)
    ultimately show ?thesis by auto
  next
    case del
    with ex x n show ?thesis by (auto simp: attempt_def lk f)
  next
    case fin
    with x n show ?thesis by (auto simp: attempt_def lk f)
  qed
  moreover have "attempt d' o2 b = attempt d o2 b" if "(o2, b) \<noteq> (?o, ?a)" for o2 b
    using that by (intro attempt_cong) (auto simp: lk f)
  ultimately show ?thesis by (simp add: moves_def)
qed

lemma closing_moves:
  assumes inv: "boardInv d" and i: "insertBoardAuthorization x d = Inr d1" and j: "insertBoardDispatch y d1 = Inr d'"
    and ph: "ba_Phase x \<in> {VaultBoardPhaseDelete, VaultBoardPhaseFinalize}"
    and key: "bd_OperationID y = ba_OperationID x" "bd_Attempt y = ba_Attempt x" "bd_Phase y = ba_Phase x"
    and s: "loadVaultBoardSubmission d (ba_OperationID x) (ba_Attempt x) VaultBoardPhaseRegister = Some s"
      "bs_Outcome s = VaultBoardAuthSubmitted"
    and opp: "loadVaultBoardAuthorization d (ba_OperationID x) (ba_Attempt x)
      (if ba_Phase x = VaultBoardPhaseFinalize then VaultBoardPhaseDelete else VaultBoardPhaseFinalize) = None"
  shows "moves d d' (ba_OperationID x) (ba_Attempt x)"
proof -
  note f = auth_frames [OF i] dispatch_frames [OF j] and lk = look_auth [OF i] look_dispatch [OF j]
  let ?o = "ba_OperationID x" and ?a = "ba_Attempt x"
  have n: "loadVaultBoardAuthorization d ?o ?a (ba_Phase x) = None" using insertBoardAuthorization_Inr [OF i] by simp
  have sn: "loadVaultBoardSubmission d ?o ?a (ba_Phase x) = None" by (rule backed_none(2) [OF inv backed_none(1) [OF inv n]])
  have rd: "loadVaultBoardDispatch d ?o ?a VaultBoardPhaseRegister \<noteq> None"
    using backed_none(2) [OF inv, of ?o ?a VaultBoardPhaseRegister] s(1) by auto
  then have ra: "loadVaultBoardAuthorization d ?o ?a VaultBoardPhaseRegister \<noteq> None"
    by (rule contrapos_nn) (rule backed_none(1) [OF inv])
  have cn: "loadVaultBoardAuthorization d ?o ?a VaultBoardPhaseDelete = None" "loadVaultBoardAuthorization d ?o ?a VaultBoardPhaseFinalize = None"
    using ph n opp by (auto split: if_splits)
  then have "attempt d ?o ?a = Accepted" using rd ra s by (simp add: attempt_def)
  moreover have "attempt d' ?o ?a \<in> {Deleting, Finalizing}"
  proof (cases "ba_Phase x = VaultBoardPhaseFinalize")
    case True
    with sn show ?thesis by (simp add: attempt_def lk f)
  next
    case False
    with ph have "ba_Phase x = VaultBoardPhaseDelete" by simp
    with sn cn show ?thesis by (simp add: attempt_def lk f)
  qed
  moreover have "attempt d' o2 b = attempt d o2 b" if "(o2, b) \<noteq> (?o, ?a)" for o2 b
    using that by (intro attempt_cong) (auto simp: lk f key)
  ultimately show ?thesis by (auto simp: moves_def)
qed

lemma boardChange_moves:
  assumes "boardChange d d'" and inv: "boardInv d"
  shows "(\<exists>o1 a. moves d d' o1 a) \<or> (\<forall>o1 a. attempt d' o1 a = attempt d o1 a)"
  using assms(1)
proof cases
  case same
  then have "attempt d' o1 a = attempt d o1 a" for o1 a by (intro attempt_cong) (simp_all add: board_load_defs)
  then show ?thesis by simp
next
  case operation
  then show ?thesis by (simp add: grown_attempt)
next
  case (register d1 x key now b)
  have "boardInv d1" using register(1) inv_operation [OF inv] unfolding grown_def by blast
  from register_moves [OF this register(2,3)] grown_attempt [OF register(1)] show ?thesis unfolding moves_def by metis
next
  case (dispatch y x)
  from dispatch_moves [OF inv dispatch(1,2,4)] show ?thesis by blast
next
  case (submission z y)
  from submission_moves [OF inv submission(1,2,4)] show ?thesis by blast
next
  case (closing x d1 y s r)
  from closing_moves [OF inv closing(1-6) closing(8-10)] show ?thesis by blast
qed

section \<open>A first attempt is accepted\<close>

text \<open>
  What a first register of an outpoint needs: the installed key, an enrolled vault, an outpoint no
  operation has, well-formed facts, a chain tip inside the cooperative window and an unexpired,
  balanced request.
\<close>

definition firstRegister ::
  "Ledger \<Rightarrow> time \<Rightarrow> time \<Rightarrow> VaultBoardOperation \<Rightarrow> VaultBoardRegisterRequest \<Rightarrow> i64 \<Rightarrow> string \<Rightarrow> bool" where
  "firstRegister l t0 now operation request chain opID \<longleftrightarrow>
     0 \<le> t0 \<and> length (l_integrityKey l) = 32 \<and> validRegisterRequest t0 operation request \<and>
     ComputeVaultBoardOperationID (bo_VaultID operation) (bo_Txid operation) (bo_Vout operation) = Inr opID \<and>
     bo_OperationID operation \<in> {[], opID} \<and>
     length (bo_BoardingScript operation) = 34 \<and> length (bo_ReceiverScript operation) \<in> {1..10000} \<and>
     fits (str_bytes (formatRFC3339Nano now)) \<and>
     requireVaultBoardCooperativeWindow l operation chain = Inr () \<and>
     find_row (\<lambda>e. be_VaultID e = bo_VaultID operation) (db_vault_board_enrollment (l_db l)) \<noteq> None \<and>
     find_row (\<lambda>r. bo_VaultID r = bo_VaultID operation \<and> bo_Txid r = bo_Txid operation \<and> bo_Vout r = bo_Vout operation)
       (db_vault_board_operation (l_db l)) = None \<and>
     loadVaultBoardOperation (l_db l) opID = None \<and> registers (l_db l) opID = []"

lemma ComputeVaultBoardOperationID_Inr:
  assumes "ComputeVaultBoardOperationID v t n = Inr opID"
  shows "v \<noteq> []" and "length t = 32" and "fits (str_bytes v)" and "length opID = 64"
  using assms by (auto simp: ComputeVaultBoardOperationID_def res_simps boardCanonical_Inr split: if_splits)

lemma register_seals:
  assumes "length key = 32" and v: "validRegisterRequest t0 operation request" and "0 \<le> t0" and "opID \<noteq> []"
    and "fits (str_bytes opID)" and "fits (str_bytes (formatRFC3339Nano now))"
  shows "\<exists>m. SealVaultBoardAuthorization (registerAuthorization opID a now request) key =
      Inr ((registerAuthorization opID a now request)\<lparr> ba_IntegrityMAC := m \<rparr>) \<and> length m = 32"
    and "0 < sint (br_ExpireAt request)"
proof -
  have "t0 div Second < sint (br_ExpireAt request)" using v by (auto simp: validRegisterRequest_def)
  moreover have "0 \<le> t0 div Second" using assms(3) by (simp add: pos_imp_zdiv_nonneg_iff)
  ultimately show e: "0 < sint (br_ExpireAt request)" by linarith
  have "\<exists>p. canonicalVaultBoardAuthorization (registerAuthorization opID a now request) = Inr p"
    using v e assms(4-6) unfolding validRegisterRequest_def
    by (auto simp: canonicalVaultBoardAuthorization_def registerAuthorization_def authorizationPhase_def res_simps boardCanonical_Inr fits_short
        formatRFC3339Nano_nonempty)
  then show "\<exists>m. SealVaultBoardAuthorization (registerAuthorization opID a now request) key =
      Inr ((registerAuthorization opID a now request)\<lparr> ba_IntegrityMAC := m \<rparr>) \<and> length m = 32"
    by (elim exE) (rule exI, auto simp: auth_seal.seal_iff [OF assms(1)])
qed

lemma register_inserts:
  assumes "validRegisterRequest t0 operation request" and "0 < sint (br_ExpireAt request)" and "length m = 32"
    and "loadVaultBoardAuthorization d opID a VaultBoardPhaseRegister = None" and "loadVaultBoardOperation d opID \<noteq> None"
  shows "insertBoardAuthorization ((registerAuthorization opID a now request)\<lparr> ba_IntegrityMAC := m \<rparr>) d =
    Inr (d\<lparr> db_vault_board_authorization := db_vault_board_authorization d @ [(registerAuthorization opID a now request)\<lparr> ba_IntegrityMAC := m \<rparr>] \<rparr>)"
  using assms unfolding validRegisterRequest_def
  by (simp add: insertBoardAuthorization_def insertInto_def registerAuthorization_def board_load_defs)

lemma first_seals:
  assumes "firstRegister l t0 now operation request chain opID"
  shows "\<exists>m. SealVaultBoardOperation (operation\<lparr> bo_OperationID := opID, bo_CreatedAt := formatRFC3339Nano now \<rparr>) (l_integrityKey l) =
      Inr (operation\<lparr> bo_OperationID := opID, bo_CreatedAt := formatRFC3339Nano now, bo_IntegrityMAC := m \<rparr>) \<and> length m = 32"
    and "opID \<noteq> []" and "fits (str_bytes opID)"
proof -
  from assms have key: "length (l_integrityKey l) = 32" and v: "validRegisterRequest t0 operation request"
    and c: "ComputeVaultBoardOperationID (bo_VaultID operation) (bo_Txid operation) (bo_Vout operation) = Inr opID"
    and s: "length (bo_BoardingScript operation) = 34" "length (bo_ReceiverScript operation) \<in> {1..10000}"
    and f: "fits (str_bytes (formatRFC3339Nano now))" and w: "requireVaultBoardCooperativeWindow l operation chain = Inr ()"
    by (simp_all add: firstRegister_def)
  note id = ComputeVaultBoardOperationID_Inr [OF c]
  show o: "opID \<noteq> []" and "fits (str_bytes opID)" using id(4) by (auto simp: fits_short)
  have anchor: "0 < sint (bo_SequenceAnchorMTP operation)"
    using w by (auto simp: requireVaultBoardCooperativeWindow_def res_simps Let_def split: if_splits)
  have val: "0 < sint (bo_ValueSats operation)" using validRegisterRequest_balance [OF v] by linarith
  have "\<exists>p. canonicalVaultBoardOperation (operation\<lparr> bo_OperationID := opID, bo_CreatedAt := formatRFC3339Nano now \<rparr>) = Inr p"
    using s f anchor val id c o by (auto simp: canonicalVaultBoardOperation_def res_simps boardCanonical_Inr fits_short formatRFC3339Nano_nonempty)
  then show "\<exists>m. SealVaultBoardOperation (operation\<lparr> bo_OperationID := opID, bo_CreatedAt := formatRFC3339Nano now \<rparr>) (l_integrityKey l) =
      Inr (operation\<lparr> bo_OperationID := opID, bo_CreatedAt := formatRFC3339Nano now, bo_IntegrityMAC := m \<rparr>) \<and> length m = 32"
    by (elim exE) (rule exI, auto simp: board_op_seal.seal_iff [OF key])
qed

lemma beginBody_first:
  assumes r: "firstRegister l t0 now operation request chain opID"
  shows "\<exists>stored auth d. beginBody l now (operation\<lparr> bo_OperationID := opID \<rparr>) request chain (l_db l) = Inr (True, (stored, auth, True), d) \<and>
    ba_Attempt auth = 0 \<and> ba_OperationID auth = opID \<and> ba_Phase auth = VaultBoardPhaseRegister \<and> sameRegister auth request \<and>
    VerifyVaultBoardOperation stored (l_integrityKey l) = Inr () \<and> VerifyVaultBoardAuthorization auth (l_integrityKey l) = Inr () \<and>
    bo_OperationID stored = opID \<and> requireVaultBoardCooperativeWindow l stored chain = Inr () \<and>
    sameVaultBoardOperationFacts stored (operation\<lparr> bo_OperationID := opID \<rparr>) \<and>
    d = (l_db l)\<lparr> db_vault_board_operation := db_vault_board_operation (l_db l) @ [stored],
      db_vault_board_authorization := db_vault_board_authorization (l_db l) @ [auth] \<rparr>"
proof -
  let ?key = "l_integrityKey l"
  obtain m where m: "SealVaultBoardOperation (operation\<lparr> bo_OperationID := opID, bo_CreatedAt := formatRFC3339Nano now \<rparr>) ?key =
      Inr (operation\<lparr> bo_OperationID := opID, bo_CreatedAt := formatRFC3339Nano now, bo_IntegrityMAC := m \<rparr>)" "length m = 32"
    using first_seals(1) [OF r] by blast
  obtain n where n: "SealVaultBoardAuthorization (registerAuthorization opID 0 now request) ?key =
      Inr ((registerAuthorization opID 0 now request)\<lparr> ba_IntegrityMAC := n \<rparr>)" "length n = 32"
    using register_seals(1) [of "l_integrityKey l" t0 operation request opID now 0] first_seals(2,3) [OF r] r
    by (auto simp: firstRegister_def)
  define stored where "stored = operation\<lparr> bo_OperationID := opID, bo_CreatedAt := formatRFC3339Nano now, bo_IntegrityMAC := m \<rparr>"
  define auth where "auth = (registerAuthorization opID 0 now request)\<lparr> ba_IntegrityMAC := n \<rparr>"
  define d1 where "d1 = l_db l\<lparr> db_vault_board_operation := db_vault_board_operation (l_db l) @ [stored] \<rparr>"
  define d2 where "d2 = d1\<lparr> db_vault_board_authorization := db_vault_board_authorization d1 @ [auth] \<rparr>"
  have key: "length ?key = 32" and v: "validRegisterRequest t0 operation request"
    and none: "loadVaultBoardOperation (l_db l) opID = None" and regs: "registers (l_db l) opID = []"
    and w: "requireVaultBoardCooperativeWindow l operation chain = Inr ()" and t: "0 \<le> t0" using r by (simp_all add: firstRegister_def)
  have t32: "length (bo_Txid operation) = 32" using r ComputeVaultBoardOperationID_Inr(2) by (auto simp: firstRegister_def)
  have anchor: "0 < sint (bo_SequenceAnchorMTP operation)"
    using w by (auto simp: requireVaultBoardCooperativeWindow_def res_simps Let_def split: if_splits)
  have val: "0 < sint (bo_ValueSats operation)" using validRegisterRequest_balance [OF v] by linarith
  have i: "insertBoardOperation stored (l_db l) = Inr d1"
    using r t32 anchor val m(2) unfolding firstRegister_def
    by (simp add: insertBoardOperation_def insertInto_def stored_def d1_def loadVaultBoardOperation_def) auto
  have w': "requireVaultBoardCooperativeWindow l stored chain = Inr ()"
    using w by (simp add: requireVaultBoardCooperativeWindow_def stored_def)
  have rows: "registerRows d1 opID = []" using regs by (simp add: d1_def board_frames registerRows_def registers_def)
  have e: "0 < sint (br_ExpireAt request)"
    using register_seals(2) [OF key v t] first_seals(2,3) [OF r] r by (auto simp: firstRegister_def)
  have fresh: "loadVaultBoardAuthorization d1 opID 0 VaultBoardPhaseRegister = None"
    using regs by (auto simp: loadVaultBoardAuthorization_def find_row_None registers_def filter_empty_conv d1_def)
  have there: "loadVaultBoardOperation d1 opID \<noteq> None"
    by (simp add: loadVaultBoardOperation_def d1_def find_row_None stored_def)
  have j: "insertBoardAuthorization auth d1 = Inr d2"
    unfolding auth_def d2_def by (rule register_inserts [OF v e n(2) fresh there])
  have b: "bindVaultBoardOperation ?key now (operation\<lparr> bo_OperationID := opID \<rparr>) (l_db l) = Inr (stored, d1)"
    using i m none by (simp add: bindVaultBoardOperation_def stored_def)
  have "allocateAttempt ?key now opID request stored d1 [] = Inr (True, (stored, auth, True), d2)"
    using n(1) j by (simp add: allocateAttempt_def nextAttempt_def auth_def)
  then have "beginBody l now (operation\<lparr> bo_OperationID := opID \<rparr>) request chain (l_db l) = Inr (True, (stored, auth, True), d2)"
    using b w' rows key by (simp add: beginBody_def integrityKeyCopy_def loadVerifiedVaultBoardRegisters_def)
  moreover have "VerifyVaultBoardOperation stored ?key = Inr ()" "VerifyVaultBoardAuthorization auth ?key = Inr ()"
    using board_op_seal.seal_verifies [OF key m(1)] auth_seal.seal_verifies [OF key n(1)] by (simp_all add: stored_def auth_def)
  moreover have "d2 = (l_db l)\<lparr> db_vault_board_operation := db_vault_board_operation (l_db l) @ [stored],
      db_vault_board_authorization := db_vault_board_authorization (l_db l) @ [auth] \<rparr>" by (simp add: d2_def d1_def)
  moreover have "ba_Attempt auth = 0 \<and> ba_OperationID auth = opID \<and> ba_Phase auth = VaultBoardPhaseRegister \<and> sameRegister auth request"
    by (simp add: auth_def registerAuthorization_def sameRegister_def)
  moreover have "bo_OperationID stored = opID \<and> sameVaultBoardOperationFacts stored (operation\<lparr> bo_OperationID := opID \<rparr>)"
    by (simp add: stored_def sameVaultBoardOperationFacts_def)
  ultimately show ?thesis using w' by blast
qed

end
