(* ===== verification/BoardProgress.thy ===== *)
theory BoardProgress
  imports BoardRuns
begin

text \<open>
  What the boarding ledger accepts: in a ledger whose rows verify and whose sequence file is due,
  every arrow of an attempt can be taken. Also the retry of a register and the effect of faults.
\<close>

section \<open>Every attempt can be carried through\<close>

lemma hex_digit_sql: "list_all (\<lambda>n. of_char (hex_digit n) \<noteq> (0 :: nat) \<and> of_char (hex_digit n) < (192 :: nat)) [0..<16]"
  by (simp add: upt_rec hex_digit_def)

lemma sql_length_hex [simp]: "sql_length (hex_encode bs) = 2 * length bs"
proof (induction bs)
  case (Cons b bs)
  have "unat b div 16 < 16" using unsigned_less [of b] by (simp add: div_less_iff_less_mult)
  with hex_digit_sql have "of_char (hex_digit (unat b div 16)) \<noteq> (0 :: nat)" "of_char (hex_digit (unat b div 16)) < (192 :: nat)"
    "of_char (hex_digit (unat b mod 16)) \<noteq> (0 :: nat)" "of_char (hex_digit (unat b mod 16)) < (192 :: nat)"
    unfolding list_all_iff by simp_all
  with Cons show ?case by (simp add: Let_def)
qed simp

lemma canonicalTxidText_hex:
  assumes "canonicalTxidText t"
  shows "\<exists>raw. t = hex_encode raw \<and> length raw = 32"
proof -
  from assms obtain canon raw where c: "canonicalVtxoTxid (str_bytes t) = Inr (canon, raw)" and t: "t = canon"
    unfolding canonicalTxidText_def by (cases "canonicalVtxoTxid (str_bytes t)") (simp_all split: prod.splits)
  show ?thesis
  proof (cases "length (str_bytes t) = 32")
    case True
    with c have "canon = hex_encode (str_bytes t)" by (auto simp: canonicalVtxoTxid_def)
    then have "length canon = 64" using True by simp
    moreover have "length canon = 32" using True t by simp
    ultimately show ?thesis by simp
  next
    case False
    with c have "canon = hex_encode raw \<and> length raw = 32" by (simp add: canonicalVtxoTxid_def split: if_splits option.splits)
    with t show ?thesis by blast
  qed
qed

text \<open>Every row of the four tables carries a valid code.\<close>

definition authentic :: "bytes \<Rightarrow> db \<Rightarrow> bool" where
  "authentic key d \<longleftrightarrow> (\<forall>o1 b. loadVaultBoardOperation d o1 = Some b \<longrightarrow> VerifyVaultBoardOperation b key = Inr ()) \<and>
     (\<forall>r \<in> set (db_vault_board_authorization d). VerifyVaultBoardAuthorization r key = Inr ()) \<and>
     (\<forall>r \<in> set (db_vault_board_dispatch d). VerifyVaultBoardDispatch r key = Inr ()) \<and>
     (\<forall>r \<in> set (db_vault_board_submission d). VerifyVaultBoardSubmission r key = Inr ())"

lemma authentic_loads:
  assumes "authentic key d"
  shows "loadVaultBoardOperation d o1 = Some b \<Longrightarrow> VerifyVaultBoardOperation b key = Inr ()"
    and "loadVaultBoardAuthorization d o1 a p = Some x \<Longrightarrow> VerifyVaultBoardAuthorization x key = Inr ()"
    and "loadVaultBoardDispatch d o1 a p = Some y \<Longrightarrow> VerifyVaultBoardDispatch y key = Inr ()"
    and "loadVaultBoardSubmission d o1 a p = Some z \<Longrightarrow> VerifyVaultBoardSubmission z key = Inr ()"
    and "loadLatestVaultBoardRegister d o1 = Some x \<Longrightarrow> VerifyVaultBoardAuthorization x key = Inr ()"
proof -
  show "loadLatestVaultBoardRegister d o1 = Some x \<Longrightarrow> VerifyVaultBoardAuthorization x key = Inr ()"
  proof -
    assume l: "loadLatestVaultBoardRegister d o1 = Some x"
    have "x \<in> set (registerRows d o1)"
    proof (cases "rev (registerRows d o1)")
      case (Cons r rs)
      with l have "r = x" by (simp add: loadLatestVaultBoardRegister_def)
      with Cons have "x \<in> set (rev (registerRows d o1))" by simp
      then show ?thesis by simp
    qed (use l in \<open>simp add: loadLatestVaultBoardRegister_def\<close>)
    then show ?thesis using assms by (simp add: registerRows_def authentic_def)
  qed
qed (use assms in \<open>auto simp: authentic_def board_load_defs dest!: find_row_Some\<close>)

text \<open>The sequence file is at the count of the database or one ahead.\<close>

definition due :: "Ledger \<Rightarrow> bool" where
  "due l \<longleftrightarrow> (\<forall>key. l_monotonic l = Some key \<longrightarrow>
     (\<exists>c. fileCount key (l_file l) = Some c \<and> outflowRows (l_db l) \<le> unat c \<and> unat c \<le> Suc (outflowRows (l_db l))))"

lemma finishTx_due:
  assumes "due l" and "outflowRows (l_db l) < outflowRows d" and "outflowRows d < 2 ^ 63"
  shows "\<exists>l'. finishTx NoFault False l (Inr (True, x, d)) = (Inr x, l') \<and> l_db l' = d \<and> l_integrityKey l' = l_integrityKey l \<and>
    l_network l' = l_network l \<and> due l'"
proof -
  have le: "\<forall>key. l_monotonic l = Some key \<longrightarrow> (\<exists>c. fileCount key (l_file l) = Some c \<and> unat c \<le> outflowRows d)"
    using assms(1,2) unfolding due_def by (meson Suc_leI le_trans)
  from observe_due [OF assms(3) le] obtain l' where
    l': "observeAndCommit NoFault False l d = (Inr (), l')" "l_db l' = d" "l_integrityKey l' = l_integrityKey l" by blast
  have "l_network l' = l_network l"
    using l'(1) by (auto simp: observeAndCommit_def split: sum.splits prod.splits if_splits)
  moreover have "due l'"
  proof -
    have "covered l" using assms(1) unfolding covered_def due_def by blast
    from observeAndCommit_covered [OF this assms(3) l'(1)] show ?thesis unfolding due_def by (metis le_refl le_Suc_eq)
  qed
  ultimately show ?thesis using l' by (auto simp: finishTx_def)
qed

text \<open>The rows that may be appended next: sealed, and within the constraints of their tables.\<close>

lemma authorization_facts:
  assumes "length key = 32" and "VerifyVaultBoardAuthorization x key = Inr ()"
  shows "ba_OperationID x \<noteq> []" and "fits (str_bytes (ba_OperationID x))" and "length (ba_RequestDigest x) = 32"
    and "authorizationPhase x = Inr ()"
  using assms by (auto simp: auth_seal.verify_iff canonicalVaultBoardAuthorization_def res_simps boardCanonical_Inr split: if_splits)

lemma dispatch_seals:
  assumes "length key = 32" and "bd_OperationID x \<noteq> []" and "fits (str_bytes (bd_OperationID x))"
    and "length (bd_RequestDigest x) = 32" and "bd_Phase x \<in> {VaultBoardPhaseRegister, VaultBoardPhaseDelete, VaultBoardPhaseFinalize}"
    and "bd_CreatedAt x \<noteq> []" and "fits (str_bytes (bd_CreatedAt x))"
  shows "\<exists>m. SealVaultBoardDispatch x key = Inr (x\<lparr> bd_IntegrityMAC := m \<rparr>) \<and> length m = 32"
proof -
  have f: "fits (str_bytes (bd_Phase x))" using assms(5) by (auto simp: fits_short)
  have "\<exists>p. canonicalVaultBoardDispatch x = Inr p"
    using assms(2-7) f by (simp add: canonicalVaultBoardDispatch_def boardCanonical_Inr res_simps fits_short)
  then show ?thesis by (elim exE) (rule exI, auto simp: dispatch_seal.seal_iff [OF assms(1)])
qed

text \<open>A result as the operator may return it for a phase.\<close>

definition wellFormedResult :: "VaultBoardSubmission \<Rightarrow> bool" where
  "wellFormedResult rec \<longleftrightarrow> submissionPhase rec = Inr () \<and> length (bs_OperatorRef rec) \<le> MaxVaultBoardOperatorRefBytes \<and>
     (bs_OperatorRef rec \<noteq> [] \<longrightarrow> 0 < sql_length (bs_OperatorRef rec))"

lemma submission_seals:
  assumes "length key = 32" and "wellFormedResult x" and "bs_OperationID x \<noteq> []" and "fits (str_bytes (bs_OperationID x))"
    and "length (bs_RequestDigest x) = 32" and "bs_CreatedAt x \<noteq> []" and "fits (str_bytes (bs_CreatedAt x))"
  shows "\<exists>m. SealVaultBoardSubmission x key = Inr (x\<lparr> bs_IntegrityMAC := m \<rparr>) \<and> length m = 32"
proof -
  have ph: "submissionPhase x = Inr ()" and len: "length (bs_OperatorRef x) \<le> MaxVaultBoardOperatorRefBytes"
    using assms(2) by (simp_all add: wellFormedResult_def)
  have t: "length (bs_CommitmentTxid x) \<le> 64 \<and> length (bs_ReceiverTxid x) \<le> 64"
    using ph canonicalTxidText_hex [of "bs_CommitmentTxid x"] canonicalTxidText_hex [of "bs_ReceiverTxid x"]
    by (auto simp: submissionPhase_def Let_def split: if_splits)
  have f: "fits (str_bytes (bs_Phase x)) \<and> fits (str_bytes (bs_Outcome x))"
    using submissionPhase_outcome [OF ph] by (auto simp: fits_short)
  have "\<exists>p. canonicalVaultBoardSubmission x = Inr p"
    using assms(3-7) f t ph len by (simp add: canonicalVaultBoardSubmission_def boardCanonical_Inr res_simps fits_short)
  then show ?thesis by (elim exE) (rule exI, auto simp: submission_seal.seal_iff [OF assms(1)])
qed

lemma sql_length_le: "sql_length s \<le> length s"
proof (induction s rule: sql_length.induct)
  case (2 c s)
  have "length (dropWhile p s) \<le> length s" for p by (rule length_dropWhile_le)
  with 2 show ?case by (auto simp: Let_def intro: le_trans)
qed simp

lemma submission_inserts:
  assumes "wellFormedResult x" and "length (bs_IntegrityMAC x) = 32" and "length (bs_RequestDigest x) = 32"
    and "loadVaultBoardSubmission d (bs_OperationID x) (bs_Attempt x) (bs_Phase x) = None"
    and "loadVaultBoardAuthorization d (bs_OperationID x) (bs_Attempt x) (bs_Phase x) \<noteq> None"
    and "loadVaultBoardDispatch d (bs_OperationID x) (bs_Attempt x) (bs_Phase x) \<noteq> None"
  shows "insertBoardSubmission x d = Inr (d\<lparr> db_vault_board_submission := db_vault_board_submission d @ [x] \<rparr>)"
proof -
  have ph: "submissionPhase x = Inr ()" and len: "length (bs_OperatorRef x) \<le> MaxVaultBoardOperatorRefBytes"
    and ref: "bs_OperatorRef x \<noteq> [] \<Longrightarrow> 0 < sql_length (bs_OperatorRef x)"
    using assms(1) by (simp_all add: wellFormedResult_def)
  have short: "sql_length (bs_OperatorRef x) \<le> 256" using len sql_length_le [of "bs_OperatorRef x"] by simp
  have hex: "canonicalTxidText t \<Longrightarrow> sql_length t = 64" for t using canonicalTxidText_hex [of t] by auto
  from submissionPhase_outcome [OF ph] show ?thesis
  proof (elim disjE conjE)
    assume p: "bs_Phase x = VaultBoardPhaseRegister" "bs_Outcome x \<in> {VaultBoardAuthSubmitted, VaultBoardAuthRejected}"
    then show ?thesis using assms(2-6) ph short ref
      by (auto simp: insertBoardSubmission_def insertInto_def board_load_defs submissionPhase_def Let_def split: if_splits)
  next
    assume p: "bs_Phase x = VaultBoardPhaseDelete" "bs_Outcome x = VaultBoardAuthReleased"
    then show ?thesis using assms(2-6) ph short
      by (simp add: insertBoardSubmission_def insertInto_def board_load_defs submissionPhase_def split: if_splits)
  next
    assume p: "bs_Phase x = VaultBoardPhaseFinalize" "bs_Outcome x = VaultBoardAuthSubmitted"
    then show ?thesis using assms(2-6) ph short
      by (simp add: insertBoardSubmission_def insertInto_def board_load_defs submissionPhase_def hex split: if_splits)
  qed
qed

text \<open>
  A ledger in which an attempt may go on: keyed, authentic, with the attempt the latest of its
  operation, the chain tip inside the cooperative window, and room for \<open>n\<close> more rows.
\<close>

definition boardReady :: "Ledger \<Rightarrow> string \<Rightarrow> u32 \<Rightarrow> i64 \<Rightarrow> nat \<Rightarrow> bool" where
  "boardReady l o1 a chain n \<longleftrightarrow>
     length (l_integrityKey l) = 32 \<and> authentic (l_integrityKey l) (l_db l) \<and> boardInv (l_db l) \<and> due l \<and>
     (\<exists>r. loadLatestVaultBoardRegister (l_db l) o1 = Some r \<and> ba_Attempt r = a) \<and>
     (\<exists>b. loadVaultBoardOperation (l_db l) o1 = Some b \<and> requireVaultBoardCooperativeWindow l b chain = Inr ()) \<and>
     outflowRows (l_db l) + n < 2 ^ 63"

lemma window_cong: "l_network l' = l_network l \<Longrightarrow> requireVaultBoardCooperativeWindow l' b chain = requireVaultBoardCooperativeWindow l b chain"
  by (simp add: requireVaultBoardCooperativeWindow_def)

lemma ready_next:
  assumes "boardReady l o1 a chain n" and "boardInv (l_db l')" and "authentic (l_integrityKey l) (l_db l')" and "due l'"
    and "l_integrityKey l' = l_integrityKey l" and "l_network l' = l_network l"
    and "loadLatestVaultBoardRegister (l_db l') o1 = loadLatestVaultBoardRegister (l_db l) o1"
    and "loadVaultBoardOperation (l_db l') o1 = loadVaultBoardOperation (l_db l) o1"
    and "outflowRows (l_db l') + k \<le> outflowRows (l_db l) + n"
  shows "boardReady l' o1 a chain k"
proof -
  have "outflowRows (l_db l') + k < 2 ^ 63" using assms(1,9) unfolding boardReady_def by linarith
  with assms show ?thesis unfolding boardReady_def by (simp add: window_cong [OF assms(6)])
qed

lemma authentic_append:
  assumes "authentic key d"
  shows "VerifyVaultBoardDispatch y key = Inr () \<Longrightarrow> authentic key (d\<lparr> db_vault_board_dispatch := db_vault_board_dispatch d @ [y] \<rparr>)"
    and "VerifyVaultBoardSubmission z key = Inr () \<Longrightarrow> authentic key (d\<lparr> db_vault_board_submission := db_vault_board_submission d @ [z] \<rparr>)"
    and "VerifyVaultBoardAuthorization x key = Inr () \<Longrightarrow> authentic key (d\<lparr> db_vault_board_authorization := db_vault_board_authorization d @ [x] \<rparr>)"
  using assms by (auto simp: authentic_def board_frames)

lemma attempt_dispatched:
  assumes "attempt d o1 a = Registered"
  shows "\<exists>y. loadVaultBoardAuthorization d o1 a VaultBoardPhaseRegister = Some y"
    and "loadVaultBoardDispatch d o1 a VaultBoardPhaseRegister = None"
  using assms by (auto simp: attempt_def split: if_splits option.splits)

lemma dispatch_accepts:
  assumes r: "boardReady l o1 a chain (Suc n)" and st: "attempt (l_db l) o1 a = Registered"
    and y: "loadVaultBoardAuthorization (l_db l) o1 a VaultBoardPhaseRegister = Some y" and t: "fits (str_bytes (formatRFC3339Nano now))"
  shows "\<exists>x l'. AppendVaultBoardDispatch NoFault False now l
      \<lparr> bd_OperationID = o1, bd_Attempt = a, bd_Phase = VaultBoardPhaseRegister, bd_RequestDigest = ba_RequestDigest y,
        bd_CreatedAt = [], bd_IntegrityMAC = [] \<rparr> chain = (Inr (x, True), l') \<and>
    attempt (l_db l') o1 a = Dispatched \<and> boardReady l' o1 a chain n \<and>
    loadVaultBoardAuthorization (l_db l') o1 a VaultBoardPhaseRegister = Some y"
proof -
  let ?key = "l_integrityKey l" and ?d = "l_db l"
  let ?rec = "\<lparr> bd_OperationID = o1, bd_Attempt = a, bd_Phase = VaultBoardPhaseRegister, bd_RequestDigest = ba_RequestDigest y,
        bd_CreatedAt = formatRFC3339Nano now, bd_IntegrityMAC = [] \<rparr>"
  from r have key: "length ?key = 32" and au: "authentic ?key ?d" and inv: "boardInv ?d" and du: "due l"
    and room: "outflowRows ?d + Suc n < 2 ^ 63" by (simp_all add: boardReady_def)
  from r obtain reg b where reg: "loadLatestVaultBoardRegister ?d o1 = Some reg" "ba_Attempt reg = a"
    and b: "loadVaultBoardOperation ?d o1 = Some b" "requireVaultBoardCooperativeWindow l b chain = Inr ()"
    unfolding boardReady_def by blast
  note none = attempt_dispatched(2) [OF st]
  have sub: "loadVaultBoardSubmission ?d o1 a VaultBoardPhaseRegister = None" by (rule backed_none(2) [OF inv none])
  note vy = authentic_loads(2) [OF au y] and yk = load_key [OF y]
  note facts = authorization_facts [OF key vy]
  obtain m where m: "SealVaultBoardDispatch ?rec ?key = Inr (?rec\<lparr> bd_IntegrityMAC := m \<rparr>)" "length m = 32"
    using dispatch_seals [OF key, of ?rec] facts yk t formatRFC3339Nano_nonempty by auto
  define x where "x = ?rec\<lparr> bd_IntegrityMAC := m \<rparr>"
  define d' where "d' = ?d\<lparr> db_vault_board_dispatch := db_vault_board_dispatch ?d @ [x] \<rparr>"
  have i: "insertBoardDispatch x ?d = Inr d'"
    using none y m(2) facts(3) by (simp add: insertBoardDispatch_def insertInto_def board_load_defs x_def d'_def)
  have "recordDispatch ?key now (?rec\<lparr> bd_CreatedAt := [] \<rparr>) ?d = Inr (True, (x, True), d')"
    using none y sub vy i m(1) reg authentic_loads(5) [OF au reg(1)]
    by (simp add: recordDispatch_def requiredRow_def requireLatestAttempt_def x_def)
  then have body: "dispatchBody l now (?rec\<lparr> bd_CreatedAt := [] \<rparr>) chain ?d = Inr (True, (x, True), d')"
    using key b authentic_loads(1) [OF au b(1)] by (simp add: dispatchBody_def integrityKeyCopy_def requiredRow_def)
  have rows: "outflowRows d' = Suc (outflowRows ?d)" by (simp add: d'_def outflowRows_def)
  obtain l' where l': "finishTx NoFault False l (Inr (True, (x, True), d')) = (Inr (x, True), l')" "l_db l' = d'"
    "l_integrityKey l' = ?key" "l_network l' = l_network l" "due l'"
    using finishTx_due [OF du, of d' "(x, True)"] rows room by auto
  have "boardChange ?d d'"
    by (rule boardChange.dispatch [OF i, of y]) (use y sub in \<open>simp_all add: x_def\<close>)
  then have inv': "boardInv d'" using inv by (rule boardChange_inv)
  have "authentic ?key d'"
    unfolding d'_def by (rule authentic_append(1) [OF au]) (use dispatch_seal.seal_verifies [OF key m(1)] in \<open>simp add: x_def\<close>)
  then have "boardReady l' o1 a chain n"
    by (intro ready_next [OF r]) (use inv' l' rows dispatch_frames [OF i] in simp_all)
  moreover have "attempt d' o1 a = Dispatched"
    using st closing_none [OF inv sub] y sub by (simp add: attempt_def look_dispatch [OF i] dispatch_frames [OF i] x_def)
  ultimately show ?thesis
    using body l' y dispatch_frames(1) [OF i] by (simp add: AppendVaultBoardDispatch_def)
qed

lemma wellFormedResult_cong [simp]: "wellFormedResult (rec\<lparr> bs_CreatedAt := c \<rparr>) = wellFormedResult rec"
    "wellFormedResult (rec\<lparr> bs_CreatedAt := c, bs_IntegrityMAC := m \<rparr>) = wellFormedResult rec"
  by (simp_all add: wellFormedResult_def submissionPhase_def)

lemma submission_accepts:
  assumes r: "boardReady l o1 a chain (Suc n)" and id: "bs_OperationID rec = o1" "bs_Attempt rec = a"
    and y: "loadVaultBoardAuthorization (l_db l) o1 a (bs_Phase rec) = Some y" "ba_RequestDigest y = bs_RequestDigest rec"
    and z: "loadVaultBoardDispatch (l_db l) o1 a (bs_Phase rec) \<noteq> None"
    and none: "loadVaultBoardSubmission (l_db l) o1 a (bs_Phase rec) = None"
    and wf: "wellFormedResult rec" and t: "fits (str_bytes (formatRFC3339Nano now))"
  shows "\<exists>x l'. AppendVaultBoardSubmission NoFault False now l rec = (Inr (x, True), l') \<and> insertBoardSubmission x (l_db l) = Inr (l_db l') \<and>
    bs_OperationID x = o1 \<and> bs_Attempt x = a \<and> bs_Phase x = bs_Phase rec \<and> bs_Outcome x = bs_Outcome rec \<and> boardReady l' o1 a chain n"
proof -
  let ?key = "l_integrityKey l" and ?d = "l_db l"
  let ?rec = "rec\<lparr> bs_CreatedAt := formatRFC3339Nano now \<rparr>"
  from r have key: "length ?key = 32" and au: "authentic ?key ?d" and inv: "boardInv ?d" and du: "due l"
    and room: "outflowRows ?d + Suc n < 2 ^ 63" by (simp_all add: boardReady_def)
  note vy = authentic_loads(2) [OF au y(1)] and yk = load_key [OF y(1)]
  note facts = authorization_facts [OF key vy]
  obtain dis where dis: "loadVaultBoardDispatch ?d o1 a (bs_Phase rec) = Some dis" using z by blast
  have dig: "bd_RequestDigest dis = bs_RequestDigest rec"
    using boardInvD(1) [OF inv] dis y unfolding dispatchBacked_def by fastforce
  obtain m where m: "SealVaultBoardSubmission ?rec ?key = Inr (?rec\<lparr> bs_IntegrityMAC := m \<rparr>)" "length m = 32"
    using submission_seals [OF key, of ?rec] wf facts yk y(2) id t formatRFC3339Nano_nonempty by auto
  define x where "x = ?rec\<lparr> bs_IntegrityMAC := m \<rparr>"
  define d' where "d' = ?d\<lparr> db_vault_board_submission := db_vault_board_submission ?d @ [x] \<rparr>"
  have wfx: "wellFormedResult x" using wf by (simp add: x_def)
  have i: "insertBoardSubmission x ?d = Inr d'"
    unfolding d'_def by (rule submission_inserts [OF wfx]) (use m(2) facts(3) y none z id in \<open>simp_all add: x_def\<close>)
  have body: "submissionBody l now rec ?d = Inr (True, (x, True), d')"
    using key none y dis dig vy i m(1) id authentic_loads(3) [OF au dis]
    by (simp add: submissionBody_def integrityKeyCopy_def requiredRow_def Let_def x_def)
  have rows: "outflowRows d' = Suc (outflowRows ?d)" by (simp add: d'_def outflowRows_def)
  obtain l' where l': "finishTx NoFault False l (Inr (True, (x, True), d')) = (Inr (x, True), l')" "l_db l' = d'"
    "l_integrityKey l' = ?key" "l_network l' = l_network l" "due l'"
    using finishTx_due [OF du, of d' "(x, True)"] rows room by auto
  have "boardChange ?d d'"
    by (rule boardChange.submission [OF i, of dis]) (use dis dig id wfx in \<open>simp_all add: x_def wellFormedResult_def\<close>)
  then have inv': "boardInv d'" using inv by (rule boardChange_inv)
  have "authentic ?key d'"
    unfolding d'_def by (rule authentic_append(2) [OF au]) (use submission_seal.seal_verifies [OF key m(1)] in \<open>simp add: x_def\<close>)
  then have "boardReady l' o1 a chain n"
    by (intro ready_next [OF r]) (use inv' l' rows submission_frames [OF i] in simp_all)
  with body l' i id show ?thesis
    by (intro exI [of _ x] exI [of _ l']) (simp add: AppendVaultBoardSubmission_def x_def)
qed

lemma attempt_accepted:
  assumes "attempt d o1 a = Accepted"
  shows "loadVaultBoardAuthorization d o1 a VaultBoardPhaseFinalize = None" and "loadVaultBoardAuthorization d o1 a VaultBoardPhaseDelete = None"
    and "\<exists>y. loadVaultBoardAuthorization d o1 a VaultBoardPhaseRegister = Some y"
    and "\<exists>s. loadVaultBoardSubmission d o1 a VaultBoardPhaseRegister = Some s \<and> bs_Outcome s = VaultBoardAuthSubmitted"
  using assms by (auto simp: attempt_def split: if_splits option.splits)

text \<open>A delete or finalize request with the fields of its phase.\<close>

definition wellFormedClosing :: "VaultBoardAuthorization \<Rightarrow> bool" where
  "wellFormedClosing x \<longleftrightarrow> ba_Phase x \<in> {VaultBoardPhaseDelete, VaultBoardPhaseFinalize} \<and> authorizationPhase x = Inr () \<and>
     length (ba_RequestDigest x) = 32"

lemma wellFormedClosing_cong [simp]: "wellFormedClosing (x\<lparr> ba_CreatedAt := c \<rparr>) = wellFormedClosing x"
    "wellFormedClosing (x\<lparr> ba_CreatedAt := c, ba_IntegrityMAC := m \<rparr>) = wellFormedClosing x"
  by (simp_all add: wellFormedClosing_def authorizationPhase_def)

lemma closing_fields:
  assumes "wellFormedClosing x"
  shows "ba_TreeSessionPub x = []" and "ba_ReceiverSats x = 0" and "ba_FeeSats x = 0"
    and "ba_Phase x = VaultBoardPhaseDelete \<and> 0 < sint (ba_ExpireAt x) \<and> ba_CommitmentTxid x = [] \<and> ba_ReceiverTxid x = [] \<and> ba_ReceiverVout x = 0 \<or>
      ba_Phase x = VaultBoardPhaseFinalize \<and> ba_ExpireAt x = 0 \<and> canonicalTxidText (ba_CommitmentTxid x) \<and> canonicalTxidText (ba_ReceiverTxid x)"
  using assms by (auto simp: wellFormedClosing_def authorizationPhase_def split: if_splits)

lemma closing_seals:
  assumes "length key = 32" and wf: "wellFormedClosing x" and "ba_OperationID x \<noteq> []" and "fits (str_bytes (ba_OperationID x))"
    and "ba_CreatedAt x \<noteq> []" and "fits (str_bytes (ba_CreatedAt x))"
  shows "\<exists>m. SealVaultBoardAuthorization x key = Inr (x\<lparr> ba_IntegrityMAC := m \<rparr>) \<and> length m = 32"
proof -
  note c = closing_fields [OF wf]
  have t: "length (ba_CommitmentTxid x) \<le> 64 \<and> length (ba_ReceiverTxid x) \<le> 64 \<and> length (ba_Phase x) \<le> 8"
    using c(4) canonicalTxidText_hex [of "ba_CommitmentTxid x"] canonicalTxidText_hex [of "ba_ReceiverTxid x"] by auto
  have "\<exists>p. canonicalVaultBoardAuthorization x = Inr p"
    using assms(3-6) wf t c(1) unfolding wellFormedClosing_def
    by (simp add: canonicalVaultBoardAuthorization_def boardCanonical_Inr res_simps fits_short)
  then show ?thesis by (elim exE) (rule exI, auto simp: auth_seal.seal_iff [OF assms(1)])
qed

lemma closing_inserts:
  assumes wf: "wellFormedClosing x" and "length (ba_IntegrityMAC x) = 32"
    and "loadVaultBoardAuthorization d (ba_OperationID x) (ba_Attempt x) (ba_Phase x) = None"
    and "loadVaultBoardOperation d (ba_OperationID x) \<noteq> None"
  shows "insertBoardAuthorization x d = Inr (d\<lparr> db_vault_board_authorization := db_vault_board_authorization d @ [x] \<rparr>)"
proof -
  note c = closing_fields [OF wf]
  have hex: "canonicalTxidText t \<Longrightarrow> sql_length t = 64" for t using canonicalTxidText_hex [of t] by auto
  from c(4) show ?thesis
  proof (elim disjE conjE)
    assume p: "ba_Phase x = VaultBoardPhaseDelete" "0 < sint (ba_ExpireAt x)" "ba_CommitmentTxid x = []" "ba_ReceiverTxid x = []" "ba_ReceiverVout x = 0"
    then show ?thesis using assms c(1-3)
      by (simp add: insertBoardAuthorization_def insertInto_def board_load_defs wellFormedClosing_def)
  next
    assume p: "ba_Phase x = VaultBoardPhaseFinalize" "ba_ExpireAt x = 0" "canonicalTxidText (ba_CommitmentTxid x)" "canonicalTxidText (ba_ReceiverTxid x)"
    then show ?thesis using assms c(1-3)
      by (simp add: insertBoardAuthorization_def insertInto_def board_load_defs wellFormedClosing_def hex)
  qed
qed

lemma authorize_accepts:
  assumes r: "boardReady l o1 a chain (Suc (Suc n))" and st: "attempt (l_db l) o1 a = Accepted"
    and id: "ba_OperationID rec = o1" "ba_Attempt rec = a" and wf: "wellFormedClosing rec"
    and t: "fits (str_bytes (formatRFC3339Nano t1))" "fits (str_bytes (formatRFC3339Nano t2))"
  shows "\<exists>x dis l'. AppendVaultBoardAuthorizationAndDispatch NoFault False t1 t2 l rec chain = (Inr (x, dis, True), l') \<and>
    attempt (l_db l') o1 a = (if ba_Phase rec = VaultBoardPhaseFinalize then Finalizing else Deleting) \<and>
    loadVaultBoardAuthorization (l_db l') o1 a (ba_Phase rec) = Some x \<and> ba_RequestDigest x = ba_RequestDigest rec \<and>
    boardReady l' o1 a chain n"
proof -
  let ?key = "l_integrityKey l" and ?d = "l_db l"
  let ?rec = "rec\<lparr> ba_CreatedAt := formatRFC3339Nano t1 \<rparr>"
  from r have key: "length ?key = 32" and au: "authentic ?key ?d" and inv: "boardInv ?d" and du: "due l"
    and room: "outflowRows ?d + Suc (Suc n) < 2 ^ 63" by (simp_all add: boardReady_def)
  from r obtain reg b where reg: "loadLatestVaultBoardRegister ?d o1 = Some reg" "ba_Attempt reg = a"
    and b: "loadVaultBoardOperation ?d o1 = Some b" "requireVaultBoardCooperativeWindow l b chain = Inr ()"
    unfolding boardReady_def by blast
  note acc = attempt_accepted [OF st]
  obtain y s where y: "loadVaultBoardAuthorization ?d o1 a VaultBoardPhaseRegister = Some y"
    and s: "loadVaultBoardSubmission ?d o1 a VaultBoardPhaseRegister = Some s" "bs_Outcome s = VaultBoardAuthSubmitted"
    using acc(3,4) by blast
  note facts = authorization_facts [OF key authentic_loads(2) [OF au y]] and yk = load_key [OF y]
  have ph: "ba_Phase rec \<in> {VaultBoardPhaseDelete, VaultBoardPhaseFinalize}" using wf by (simp add: wellFormedClosing_def)
  have none: "loadVaultBoardAuthorization ?d o1 a (ba_Phase rec) = None" using ph acc(1,2) by auto
  have opp: "loadVaultBoardAuthorization ?d o1 a (if ba_Phase rec = VaultBoardPhaseFinalize then VaultBoardPhaseDelete else VaultBoardPhaseFinalize) = None"
    using acc(1,2) by simp
  have dn: "loadVaultBoardDispatch ?d o1 a (ba_Phase rec) = None" by (rule backed_none(1) [OF inv none])
  have sn: "loadVaultBoardSubmission ?d o1 a (ba_Phase rec) = None" by (rule backed_none(2) [OF inv dn])
  obtain m where m: "SealVaultBoardAuthorization ?rec ?key = Inr (?rec\<lparr> ba_IntegrityMAC := m \<rparr>)" "length m = 32"
    using closing_seals [OF key, of ?rec] wf facts yk id t formatRFC3339Nano_nonempty by auto
  define x where "x = ?rec\<lparr> ba_IntegrityMAC := m \<rparr>"
  define d1 where "d1 = ?d\<lparr> db_vault_board_authorization := db_vault_board_authorization ?d @ [x] \<rparr>"
  have keep: "ba_OperationID x = o1" "ba_Attempt x = a" "ba_Phase x = ba_Phase rec" "ba_RequestDigest x = ba_RequestDigest rec"
    using id by (simp_all add: x_def)
  have i: "insertBoardAuthorization x ?d = Inr d1"
    unfolding d1_def by (rule closing_inserts) (use wf m(2) none b id in \<open>simp_all add: x_def\<close>)
  obtain k where k: "SealVaultBoardDispatch (newDispatch x t2) ?key = Inr ((newDispatch x t2)\<lparr> bd_IntegrityMAC := k \<rparr>)" "length k = 32"
    using dispatch_seals [OF key, of "newDispatch x t2"] keep facts yk ph wf t formatRFC3339Nano_nonempty
    by (auto simp: newDispatch_def wellFormedClosing_def)
  define dis where "dis = (newDispatch x t2)\<lparr> bd_IntegrityMAC := k \<rparr>"
  define d' where "d' = d1\<lparr> db_vault_board_dispatch := db_vault_board_dispatch d1 @ [dis] \<rparr>"
  note f1 = auth_frames [OF i] and k1 = look_auth [OF i]
  have dk: "bd_OperationID dis = o1" "bd_Attempt dis = a" "bd_Phase dis = ba_Phase rec" "bd_RequestDigest dis = ba_RequestDigest rec"
    using keep by (simp_all add: dis_def newDispatch_def)
  have "loadVaultBoardDispatch d1 o1 a (ba_Phase rec) = None" using dn f1(1) by simp
  moreover have "loadVaultBoardAuthorization d1 o1 a (ba_Phase rec) = Some x" using k1 keep by simp
  ultimately have j: "insertBoardDispatch dis d1 = Inr d'"
    using k(2) dk wf by (simp add: insertBoardDispatch_def insertInto_def board_load_defs d'_def wellFormedClosing_def dis_def)
  have order: "validateVaultBoardPhaseOrder ?key ?d rec = Inr ()"
    using reg y s opp ph id authentic_loads [OF au]
    by (auto simp: validateVaultBoardPhaseOrder_def Let_def requiredRow_def loadOptionalVerified_def)
  have "bindVaultBoardAuthorization ?key t1 rec ?d = Inr (x, d1)"
    using none id order m(1) i by (simp add: bindVaultBoardAuthorization_def x_def)
  moreover have "dispatchAuthorized ?key t2 x d1 = Inr (True, (x, dis, True), d')"
    using dn sn f1 keep k(1) j by (simp add: dispatchAuthorized_def dis_def)
  ultimately have body: "authorizeBody l t1 t2 rec chain ?d = Inr (True, (x, dis, True), d')"
    using key b reg id authentic_loads(1) [OF au b(1)] authentic_loads(5) [OF au reg(1)]
    by (simp add: authorizeBody_def integrityKeyCopy_def requiredRow_def requireLatestAttempt_def)
  have rows: "outflowRows d' = Suc (Suc (outflowRows ?d))" by (simp add: d'_def d1_def outflowRows_def)
  obtain l' where l': "finishTx NoFault False l (Inr (True, (x, dis, True), d')) = (Inr (x, dis, True), l')" "l_db l' = d'"
    "l_integrityKey l' = ?key" "l_network l' = l_network l" "due l'"
    using finishTx_due [OF du, of d' "(x, dis, True)"] rows room by auto
  have "boardChange ?d d'"
    by (rule boardChange.closing [OF i j, of s reg]) (use ph keep dk s opp reg in simp_all)
  then have inv': "boardInv d'" using inv by (rule boardChange_inv)
  have "authentic ?key d'"
    unfolding d'_def by (rule authentic_append(1), unfold d1_def, rule authentic_append(3) [OF au])
      (use auth_seal.seal_verifies [OF key m(1)] dispatch_seal.seal_verifies [OF key k(1)] in \<open>simp_all add: x_def dis_def\<close>)
  moreover have "loadLatestVaultBoardRegister d' o1 = loadLatestVaultBoardRegister ?d o1"
    using ph keep dispatch_frames(5) [OF j, of o1]
    by (auto simp: d1_def loadLatestVaultBoardRegister_def registerRows_def)
  ultimately have "boardReady l' o1 a chain n"
    by (intro ready_next [OF r]) (use inv' l' rows dispatch_frames [OF j] f1 in simp_all)
  moreover have "attempt d' o1 a = (if ba_Phase rec = VaultBoardPhaseFinalize then Finalizing else Deleting)"
  proof (cases "ba_Phase rec = VaultBoardPhaseFinalize")
    case True
    with sn keep show ?thesis by (simp add: attempt_def dispatch_frames [OF j] f1 k1)
  next
    case False
    with ph have "ba_Phase rec = VaultBoardPhaseDelete" by simp
    with sn keep acc(1,2) show ?thesis by (simp add: attempt_def dispatch_frames [OF j] f1 k1)
  qed
  moreover have "AppendVaultBoardAuthorizationAndDispatch NoFault False t1 t2 l rec chain = (Inr (x, dis, True), l')"
    using body l'(1) ph facts(1) yk id by (auto simp: AppendVaultBoardAuthorizationAndDispatch_def)
  moreover have "loadVaultBoardAuthorization d' o1 a (ba_Phase rec) = Some x"
    using k1 keep dispatch_frames(1) [OF j] by simp
  ultimately show ?thesis using l'(2) keep by blast
qed

lemma begin_ready:
  assumes r: "firstRegister l t0 now operation request chain opID" and inv: "boardInv (l_db l)"
    and au: "authentic (l_integrityKey l) (l_db l)" and du: "due l" and room: "outflowRows (l_db l) + Suc n < 2 ^ 63"
  shows "\<exists>stored auth l'. BeginVaultBoardAttempt NoFault False t0 now l operation request chain = (Inr (stored, auth, True), l') \<and>
    boardReady l' opID 0 chain n \<and> attempt (l_db l') opID 0 = Registered \<and>
    loadVaultBoardAuthorization (l_db l') opID 0 VaultBoardPhaseRegister = Some auth \<and> sameRegister auth request \<and>
    registerRows (l_db l') opID = [auth] \<and> loadVaultBoardOperation (l_db l') opID = Some stored \<and>
    sameVaultBoardOperationFacts stored (operation\<lparr> bo_OperationID := opID \<rparr>)"
proof -
  let ?key = "l_integrityKey l" and ?d = "l_db l"
  from beginBody_first [OF r] obtain stored auth d where
    b: "beginBody l now (operation\<lparr> bo_OperationID := opID \<rparr>) request chain ?d = Inr (True, (stored, auth, True), d)"
    and a: "ba_Attempt auth = 0" "ba_OperationID auth = opID" "ba_Phase auth = VaultBoardPhaseRegister" "sameRegister auth request"
    and v: "VerifyVaultBoardOperation stored ?key = Inr ()" "VerifyVaultBoardAuthorization auth ?key = Inr ()"
    and st: "bo_OperationID stored = opID" "requireVaultBoardCooperativeWindow l stored chain = Inr ()"
      "sameVaultBoardOperationFacts stored (operation\<lparr> bo_OperationID := opID \<rparr>)"
    and d: "d = ?d\<lparr> db_vault_board_operation := db_vault_board_operation ?d @ [stored],
      db_vault_board_authorization := db_vault_board_authorization ?d @ [auth] \<rparr>" by blast
  from r have key: "length ?key = 32" and none: "loadVaultBoardOperation ?d opID = None" and regs: "registers ?d opID = []"
    by (simp_all add: firstRegister_def)
  have rows: "outflowRows d = Suc (outflowRows ?d)" by (simp add: d outflowRows_def)
  obtain l' where l': "finishTx NoFault False l (Inr (True, (stored, auth, True), d)) = (Inr (stored, auth, True), l')" "l_db l' = d"
    "l_integrityKey l' = ?key" "l_network l' = l_network l" "due l'"
    using finishTx_due [OF du, of d "(stored, auth, True)"] rows room by auto
  with b have call: "BeginVaultBoardAttempt NoFault False t0 now l operation request chain = (Inr (stored, auth, True), l')"
    using r by (auto simp: BeginVaultBoardAttempt_def firstRegister_def)
  have inv': "boardInv d" using boardChange_inv [OF begin_change [OF call] inv] l'(2) by simp
  have op: "loadVaultBoardOperation d o1 = (if o1 = opID then Some stored else loadVaultBoardOperation ?d o1)" for o1
    using none st(1) by (simp add: d loadVaultBoardOperation_def find_row_append split: option.split)
  have regs': "registers d opID = [auth]" using regs a by (simp add: registers_def d)
  have latest: "loadLatestVaultBoardRegister d opID = Some auth"
    using latest_eq [OF boardInvD(6) [OF inv'], of opID] regs' by simp
  have "find_row (\<lambda>r. ba_OperationID r = opID \<and> ba_Attempt r = 0 \<and> ba_Phase r = VaultBoardPhaseRegister)
      (db_vault_board_authorization ?d) = None"
    using regs by (auto simp: find_row_None registers_def filter_empty_conv)
  then have na: "loadVaultBoardAuthorization ?d opID 0 VaultBoardPhaseRegister = None" by (simp add: loadVaultBoardAuthorization_def)
  then have au1: "loadVaultBoardAuthorization d opID 0 VaultBoardPhaseRegister = Some auth"
    using a by (simp add: loadVaultBoardAuthorization_def d find_row_append)
  have dn: "loadVaultBoardDispatch d opID 0 VaultBoardPhaseRegister = None"
    using backed_none(1) [OF inv na] by (simp add: d loadVaultBoardDispatch_def)
  then have "attempt d opID 0 = Registered"
    using closing_none [OF inv' backed_none(2) [OF inv' dn]] au1 by (simp add: attempt_def)
  moreover have "authentic ?key d"
    using au v op by (auto simp: authentic_def d)
  ultimately have "boardReady l' opID 0 chain n \<and> attempt (l_db l') opID 0 = Registered"
    using key inv' l' latest a op st(2) rows room by (simp add: boardReady_def window_cong [OF l'(4)])
  moreover have "registerRows d opID = [auth]" using registerRows_eq [OF boardInvD(6) [OF inv']] regs' by simp
  ultimately show ?thesis using call au1 a(4) l'(2) op [of opID] st(3) by (intro exI [of _ stored] exI [of _ auth] exI [of _ l']) simp
qed

lemma moves_state: "moves d d' o1 a \<Longrightarrow> attempt d' o1 a \<in> set (attemptNext (attempt d o1 a))"
  by (simp add: moves_def)

lemma closing_carried:
  assumes r: "boardReady l o1 a chain 4" and st: "attempt (l_db l) o1 a = Dispatched"
    and y: "loadVaultBoardAuthorization (l_db l) o1 a VaultBoardPhaseRegister = Some y"
    and acc: "wellFormedResult acc" "bs_OperationID acc = o1" "bs_Attempt acc = a" "bs_Phase acc = VaultBoardPhaseRegister"
      "bs_Outcome acc = VaultBoardAuthSubmitted" "bs_RequestDigest acc = ba_RequestDigest y"
    and cl: "wellFormedClosing cl" "ba_OperationID cl = o1" "ba_Attempt cl = a"
    and res: "wellFormedResult res" "bs_OperationID res = o1" "bs_Attempt res = a" "bs_Phase res = ba_Phase cl"
      "bs_RequestDigest res = ba_RequestDigest cl"
    and t: "\<forall>t \<in> {t2, t3, t4, t5}. fits (str_bytes (formatRFC3339Nano t))"
  shows "\<exists>x2 l3 x3 dis l4 x4 l5. AppendVaultBoardSubmission NoFault False t2 l acc = (Inr (x2, True), l3) \<and>
    AppendVaultBoardAuthorizationAndDispatch NoFault False t3 t4 l3 cl chain = (Inr (x3, dis, True), l4) \<and>
    AppendVaultBoardSubmission NoFault False t5 l4 res = (Inr (x4, True), l5) \<and>
    attempt (l_db l5) o1 a = (if ba_Phase cl = VaultBoardPhaseFinalize then Finalized else Released)"
proof -
  have inv: "boardInv (l_db l)" using r by (simp add: boardReady_def)
  have pend: "loadVaultBoardSubmission (l_db l) o1 a VaultBoardPhaseRegister = None"
      "loadVaultBoardDispatch (l_db l) o1 a VaultBoardPhaseRegister \<noteq> None"
    using st by (auto simp: attempt_def split: if_splits option.splits)
  have r4: "boardReady l o1 a chain (Suc 3)" using r by (simp add: eval_nat_numeral)
  obtain x2 l3 where s3: "AppendVaultBoardSubmission NoFault False t2 l acc = (Inr (x2, True), l3)"
    "insertBoardSubmission x2 (l_db l) = Inr (l_db l3)" "bs_OperationID x2 = o1" "bs_Attempt x2 = a" "bs_Phase x2 = VaultBoardPhaseRegister"
    "bs_Outcome x2 = VaultBoardAuthSubmitted" "boardReady l3 o1 a chain 3"
    using submission_accepts [OF r4 acc(2,3) y [folded acc(4)] acc(6) [symmetric], of t2] pend acc t by auto
  have a3: "attempt (l_db l3) o1 a = Accepted"
    using y pend(2) closing_none [OF inv pend(1)] s3(3-6)
    by (simp add: attempt_def look_submission [OF s3(2)] submission_frames [OF s3(2)])
  have r3: "boardReady l3 o1 a chain (Suc (Suc 1))" using s3(7) by (simp add: eval_nat_numeral)
  obtain x3 dis l4 where s4: "AppendVaultBoardAuthorizationAndDispatch NoFault False t3 t4 l3 cl chain = (Inr (x3, dis, True), l4)"
    "attempt (l_db l4) o1 a = (if ba_Phase cl = VaultBoardPhaseFinalize then Finalizing else Deleting)"
    "loadVaultBoardAuthorization (l_db l4) o1 a (ba_Phase cl) = Some x3" "ba_RequestDigest x3 = ba_RequestDigest cl" "boardReady l4 o1 a chain 1"
    using authorize_accepts [OF r3 a3 cl(2,3,1), of t3 t4] t by auto
  have ph: "ba_Phase cl \<in> {VaultBoardPhaseDelete, VaultBoardPhaseFinalize}" using cl(1) by (simp add: wellFormedClosing_def)
  have none: "loadVaultBoardSubmission (l_db l4) o1 a (ba_Phase cl) = None"
    using s4(2,3) ph by (auto simp: attempt_def split: if_splits option.splits)
  have inv4: "boardInv (l_db l4)" using s4(5) by (simp add: boardReady_def)
  have there: "loadVaultBoardDispatch (l_db l4) o1 a (ba_Phase cl) \<noteq> None"
    by (rule closingBackedD [OF boardInvD(3) [OF inv4] ph, of o1 a]) (use s4(3) in simp_all)
  have r4: "boardReady l4 o1 a chain (Suc 0)" using s4(5) by simp
  obtain x4 l5 where s5: "AppendVaultBoardSubmission NoFault False t5 l4 res = (Inr (x4, True), l5)"
    "insertBoardSubmission x4 (l_db l4) = Inr (l_db l5)" "bs_OperationID x4 = o1" "bs_Attempt x4 = a" "bs_Phase x4 = ba_Phase cl"
    using submission_accepts [OF r4 res(2,3), of x3 t5] s4(3,4) there none res t by auto
  have "attempt (l_db l5) o1 a = (if ba_Phase cl = VaultBoardPhaseFinalize then Finalized else Released)"
  proof (cases "ba_Phase cl = VaultBoardPhaseFinalize")
    case True
    with s4(3) s5(3-5) show ?thesis by (simp add: attempt_def look_submission [OF s5(2)] submission_frames [OF s5(2)])
  next
    case False
    with ph have del: "ba_Phase cl = VaultBoardPhaseDelete" by simp
    have "loadVaultBoardAuthorization (l_db l4) o1 a VaultBoardPhaseDelete = None \<or> loadVaultBoardAuthorization (l_db l4) o1 a VaultBoardPhaseFinalize = None"
      using boardInvD(4) [OF inv4] by (simp add: exclusive_def)
    with s4(3) del have "loadVaultBoardAuthorization (l_db l4) o1 a VaultBoardPhaseFinalize = None" by simp
    with s4(3) s5(3-5) del show ?thesis by (simp add: attempt_def look_submission [OF s5(2)] submission_frames [OF s5(2)])
  qed
  with s3(1) s4(1) s5(1) show ?thesis by blast
qed

lemma canRotate_attempt:
  assumes rot: "requireVaultBoardAttemptCanRotate key d o1 a now = Inr ()" and inv: "boardInv d"
  shows "attempt d o1 a \<in> {Registered, Rejected, Released} \<or> attempt d o1 a = Accepted \<and>
    (\<exists>reg. loadVaultBoardAuthorization d o1 a VaultBoardPhaseRegister = Some reg \<and> VaultBoardRegisterCanSupersede (ba_ExpireAt reg) now)"
proof -
  note fin = canRotate_Inr(1) [OF rot]
  have del: "loadVaultBoardDispatch d o1 a VaultBoardPhaseDelete \<noteq> None \<and>
      (\<exists>s. loadVaultBoardSubmission d o1 a VaultBoardPhaseRegister = Some s \<and> bs_Outcome s = VaultBoardAuthSubmitted)"
    if "loadVaultBoardAuthorization d o1 a VaultBoardPhaseDelete \<noteq> None"
    by (rule closingBackedD [OF boardInvD(3) [OF inv] _ that]) simp_all
  have dis: "loadVaultBoardDispatch d o1 a VaultBoardPhaseRegister \<noteq> None"
    if "loadVaultBoardSubmission d o1 a VaultBoardPhaseRegister = Some s" for s
    using backed_none(2) [OF inv, of o1 a VaultBoardPhaseRegister] that by auto
  from canRotate_Inr(2) [OF rot] obtain reg where reg: "loadVaultBoardAuthorization d o1 a VaultBoardPhaseRegister = Some reg"
    and c: "loadVaultBoardDispatch d o1 a VaultBoardPhaseRegister = None \<or>
       (\<exists>s. loadVaultBoardSubmission d o1 a VaultBoardPhaseRegister = Some s \<and> bs_Outcome s = VaultBoardAuthRejected) \<or>
       loadVaultBoardSubmission d o1 a VaultBoardPhaseDelete \<noteq> None \<and> loadVaultBoardAuthorization d o1 a VaultBoardPhaseDelete \<noteq> None \<or>
       (\<exists>s. loadVaultBoardSubmission d o1 a VaultBoardPhaseRegister = Some s \<and> bs_Outcome s = VaultBoardAuthSubmitted) \<and>
         loadVaultBoardDispatch d o1 a VaultBoardPhaseDelete = None \<and> VaultBoardRegisterCanSupersede (ba_ExpireAt reg) now \<or>
       (\<exists>s. loadVaultBoardSubmission d o1 a VaultBoardPhaseRegister = Some s \<and> bs_Outcome s = VaultBoardAuthSubmitted) \<and>
         loadVaultBoardAuthorization d o1 a VaultBoardPhaseDelete = None \<and> VaultBoardRegisterCanSupersede (ba_ExpireAt reg) now"
    by (elim exE conjE) (rule that)
  from c show ?thesis
  proof (elim disjE conjE exE)
    assume n: "loadVaultBoardDispatch d o1 a VaultBoardPhaseRegister = None"
    with reg closing_none [OF inv backed_none(2) [OF inv n]] show ?thesis by (simp add: attempt_def)
  next
    fix s assume s: "loadVaultBoardSubmission d o1 a VaultBoardPhaseRegister = Some s" "bs_Outcome s = VaultBoardAuthRejected"
    then have "loadVaultBoardAuthorization d o1 a VaultBoardPhaseDelete = None" using del by force
    with s reg fin dis [OF s(1)] show ?thesis by (auto simp: attempt_def)
  next
    assume "loadVaultBoardSubmission d o1 a VaultBoardPhaseDelete \<noteq> None" "loadVaultBoardAuthorization d o1 a VaultBoardPhaseDelete \<noteq> None"
    with fin show ?thesis by (simp add: attempt_def)
  next
    fix s assume s: "loadVaultBoardSubmission d o1 a VaultBoardPhaseRegister = Some s" "bs_Outcome s = VaultBoardAuthSubmitted"
      and n: "loadVaultBoardDispatch d o1 a VaultBoardPhaseDelete = None" and v: "VaultBoardRegisterCanSupersede (ba_ExpireAt reg) now"
    from n have "loadVaultBoardAuthorization d o1 a VaultBoardPhaseDelete = None" using del by force
    with s reg fin dis [OF s(1)] v show ?thesis by (auto simp: attempt_def)
  next
    fix s assume s: "loadVaultBoardSubmission d o1 a VaultBoardPhaseRegister = Some s" "bs_Outcome s = VaultBoardAuthSubmitted"
      and n: "loadVaultBoardAuthorization d o1 a VaultBoardPhaseDelete = None" and v: "VaultBoardRegisterCanSupersede (ba_ExpireAt reg) now"
    with s reg fin dis [OF s(1)] v show ?thesis by (auto simp: attempt_def)
  qed
qed

lemma begin_cases:
  assumes "BeginVaultBoardAttempt fault cf t0 now l operation request chain = (Inr (stored, auth, created), l')"
  obtains opID ob where "ComputeVaultBoardOperationID (bo_VaultID operation) (bo_Txid operation) (bo_Vout operation) = Inr opID"
    and "bo_OperationID operation \<in> {[], opID}" and "validRegisterRequest t0 operation request"
    and "beginBody l now (operation\<lparr> bo_OperationID := opID \<rparr>) request chain (l_db l) = Inr (ob, (stored, auth, created), l_db l')"
    and "l_integrityKey l' = l_integrityKey l" and "l_network l' = l_network l"
proof -
  from assms obtain opID where c: "ComputeVaultBoardOperationID (bo_VaultID operation) (bo_Txid operation) (bo_Vout operation) = Inr opID"
    and id: "bo_OperationID operation \<in> {[], opID}" and v: "validRegisterRequest t0 operation request"
    and f: "finishTx fault cf l (beginBody l now (operation\<lparr> bo_OperationID := opID \<rparr>) request chain (l_db l)) = (Inr (stored, auth, created), l')"
    by (auto simp: BeginVaultBoardAttempt_def split: sum.splits if_splits)
  from f show thesis
  proof (cases rule: finishTx_cases)
    case (ok ob x d)
    then show thesis using that [OF c id v] by auto
  qed blast
qed

lemma reusedAttempt_append:
  "reusedAttempt request rs = None \<Longrightarrow> ba_RequestDigest x = br_RequestDigest request \<Longrightarrow> reusedAttempt request (rs @ [x]) = Some (x, True)"
  by (induction rs) (auto split: if_splits)

lemma bindVaultBoardOperation_verifies:
  assumes "bindVaultBoardOperation key now operation d = Inr (stored, d1)" and "length key = 32"
  shows "VerifyVaultBoardOperation stored key = Inr ()"
proof (cases "loadVaultBoardOperation d (bo_OperationID operation)")
  case None
  with assms(1) have "SealVaultBoardOperation (operation\<lparr> bo_CreatedAt := formatRFC3339Nano now \<rparr>) key = Inr stored"
    by (auto simp: bindVaultBoardOperation_def res_simps)
  then show ?thesis by (rule board_op_seal.seal_verifies [OF assms(2)])
qed (use assms(1) in \<open>auto simp: bindVaultBoardOperation_def res_simps\<close>)

lemma beginBody_stored:
  assumes "beginBody l now operation request chain d = Inr (ob, (stored, auth, created), d')"
  shows "VerifyVaultBoardOperation stored (l_integrityKey l) = Inr ()"
proof -
  from assms obtain key x where k: "integrityKeyCopy l = Inr key" and b: "bindVaultBoardOperation key now operation d = Inr x"
    and rest: "(case x of (stored, d) \<Rightarrow> bindR (requireVaultBoardCooperativeWindow l stored chain) (\<lambda>_.
     bindR (loadVerifiedVaultBoardRegisters key d (bo_OperationID operation)) (\<lambda>registers.
     allocateAttempt key now (bo_OperationID operation) request stored d registers))) = Inr (ob, (stored, auth, created), d')"
    unfolding beginBody_def bindR_eq_Inr by blast
  obtain st d1 where x: "x = (st, d1)" by fastforce
  from k have key: "key = l_integrityKey l" "length key = 32" by (auto simp: integrityKeyCopy_def split: if_splits)
  have "st = stored"
    using rest by (auto simp: x bindR_eq_Inr allocateAttempt_def split: option.splits if_splits)
  with bindVaultBoardOperation_verifies [OF b [unfolded x] key(2)] key show ?thesis by simp
qed

lemma begin_retry:
  assumes inv: "boardInv (l_db l)"
    and call: "BeginVaultBoardAttempt fault cf t0 now l operation request chain = (Inr (stored, auth, True), l')"
    and t: "t0' div Second < sint (br_ExpireAt request)"
  shows "BeginVaultBoardAttempt fault' False t0' now' l' operation request chain = (Inr (stored, auth, False), l')"
  using call
proof (cases rule: begin_cases)
  case (1 opID ob)
  let ?d = "l_db l" and ?key = "l_integrityKey l"
  have inv': "boardInv (l_db l')" by (rule boardChange_inv [OF begin_change [OF call] inv])
  have vs: "VerifyVaultBoardOperation stored ?key = Inr ()" by (rule beginBody_stored [OF 1(4)])
  from 1(4) show ?thesis
  proof (cases rule: beginBody_cases)
    case (new d1 tab attempt)
    note new = new [simplified]
    note keep = registerAuthorization_keeps [OF new(11)]
    have g: "grown ?d d1" using new(3,6) unfolding grown_def by blast
    have inv1: "boardInv d1" using inv_operation [OF inv] g unfolding grown_def by blast
    have rows: "registerRows (l_db l') opID = registerRows ?d opID @ [auth]"
      using registerRows_eq [OF boardInvD(6) [OF inv']] registerRows_eq [OF boardInvD(6) [OF inv]] keep new(3)
      by (simp add: auth_frames [OF new(12)] op_frames)
    have fresh: "loadVaultBoardAuthorization d1 opID attempt VaultBoardPhaseRegister = None"
      using insertBoardAuthorization_Inr [OF new(12)] keep by simp
    have sn: "loadVaultBoardSubmission d1 opID attempt VaultBoardPhaseRegister = None"
      by (rule backed_none(2) [OF inv1 backed_none(1) [OF inv1 fresh]])
    note cn = closing_none [OF inv1 sn]
    have dsn: "loadVaultBoardSubmission d1 opID attempt VaultBoardPhaseDelete = None"
      by (rule backed_none(2) [OF inv1 backed_none(1) [OF inv1 cn(1)]])
    have current: "requireVaultBoardAttemptCurrent ?key (l_db l') opID attempt = Inr ()"
      using sn cn dsn keep
      by (simp add: requireVaultBoardAttemptCurrent_def loadOptionalVerified_def auth_frames [OF new(12)] look_auth [OF new(12)])
    have va: "VerifyVaultBoardAuthorization auth ?key = Inr ()" by (rule auth_seal.seal_verifies [OF new(13) new(11)])
    have "allocateAttempt ?key now' opID request stored (l_db l') (registerRows ?d opID @ [auth]) = Inr (False, (stored, auth, False), l_db l')"
      using reusedAttempt_append [OF new(8)] keep current by (simp add: allocateAttempt_def sameRegister_def)
    moreover have "loadVerifiedVaultBoardRegisters ?key (l_db l') opID = Inr (registerRows ?d opID @ [auth])"
      using rows new(9) va by (simp add: loadVerifiedVaultBoardRegisters_Inr)
    moreover have "bindVaultBoardOperation ?key now' (operation\<lparr> bo_OperationID := opID \<rparr>) (l_db l') = Inr (stored, l_db l')"
      using new(4,5) vs by (simp add: bindVaultBoardOperation_def auth_frames [OF new(12)])
    moreover have "requireVaultBoardCooperativeWindow l' stored chain = Inr ()" using new(7) window_cong [OF 1(6)] by simp
    ultimately have "beginBody l' now' (operation\<lparr> bo_OperationID := opID \<rparr>) request chain (l_db l') = Inr (False, (stored, auth, False), l_db l')"
      using 1(5) new(13) by (simp add: beginBody_def integrityKeyCopy_def)
    moreover have "validRegisterRequest t0' operation request" using 1(3) t by (auto simp: validRegisterRequest_def)
    ultimately show ?thesis using 1(1,2) by (auto simp: BeginVaultBoardAttempt_def finishTx_def)
  qed simp
qed

section \<open>Crashes\<close>

text \<open>The four methods as one relation, with whether the call reported success.\<close>

inductive boardCall :: "Ledger \<Rightarrow> bool \<Rightarrow> Ledger \<Rightarrow> bool" where
  begin_attempt: "BeginVaultBoardAttempt fault cf t0 now l operation request chain = (r1, l') \<Longrightarrow> boardCall l (\<not> isl r1) l'"
| authorize: "AppendVaultBoardAuthorizationAndDispatch fault cf t1 t2 l auth chain = (r2, l') \<Longrightarrow> boardCall l (\<not> isl r2) l'"
| dispatch: "AppendVaultBoardDispatch fault cf now l dis chain = (r3, l') \<Longrightarrow> boardCall l (\<not> isl r3) l'"
| submit: "AppendVaultBoardSubmission fault cf now l sub = (r4, l') \<Longrightarrow> boardCall l (\<not> isl r4) l'"

lemma finishTx_covered:
  assumes "covered l" and f: "finishTx fault cf l body = (r, l')"
    and rows: "\<And>ob x d. body = Inr (ob, x, d) \<Longrightarrow> outflowRows d < 2 ^ 63 \<and> (\<not> ob \<longrightarrow> outflowRows d = outflowRows (l_db l))"
  shows "covered l' \<and> (isl r \<longrightarrow> l_db l' = l_db l)"
proof (cases body)
  case (Inl e)
  with f assms(1) show ?thesis by (auto simp: finishTx_def)
next
  case (Inr b)
  obtain ob x d where b: "b = (ob, x, d)" by (metis prod_cases3)
  note n = rows [OF Inr [unfolded b]]
  show ?thesis
  proof (cases ob)
    case True
    obtain r0 l0 where o: "observeAndCommit fault cf l d = (r0, l0)" by fastforce
    with f Inr b True have l: "l' = l0" and r: "r = (case r0 of Inl e \<Rightarrow> Inl e | Inr _ \<Rightarrow> Inr x)"
      by (auto simp: finishTx_def split: sum.splits)
    from observeAndCommit_covered [OF assms(1) conjunct1 [OF n] o] have "covered l0" "r0 \<noteq> Inr () \<Longrightarrow> l_db l0 = l_db l" by auto
    with l r show ?thesis by (cases r0) auto
  next
    case False
    have cov: "covered (l\<lparr> l_db := d \<rparr>)" using assms(1) n False by (simp add: covered_def)
    show ?thesis
    proof (cases cf)
      case True
      with f Inr b False assms(1) show ?thesis by (auto simp: finishTx_def)
    next
      case no: False
      with f Inr b False cov show ?thesis by (auto simp: finishTx_def)
    qed
  qed
qed

lemma insert_rows:
  "insertBoardAuthorization x d = Inr d' \<Longrightarrow> outflowRows d' = Suc (outflowRows d)"
  "insertBoardDispatch y d = Inr d' \<Longrightarrow> outflowRows d' = Suc (outflowRows d)"
  "insertBoardSubmission z d = Inr d' \<Longrightarrow> outflowRows d' = Suc (outflowRows d)"
  by (auto simp: outflowRows_def dest!: insertBoardAuthorization_Inr insertBoardDispatch_Inr insertBoardSubmission_Inr)

lemma beginBody_rows:
  assumes "beginBody l now operation request chain d = Inr (ob, x, d')"
  shows "outflowRows d' \<le> Suc (outflowRows d)" and "\<not> ob \<Longrightarrow> outflowRows d' = outflowRows d"
proof -
  obtain stored auth created where x: "x = (stored, auth, created)" by (metis prod_cases3)
  from assms [unfolded x] have "outflowRows d' \<le> Suc (outflowRows d) \<and> (\<not> ob \<longrightarrow> outflowRows d' = outflowRows d)"
  proof (cases rule: beginBody_cases)
    case (retry t)
    then show ?thesis by (simp add: outflowRows_def)
  next
    case (new d1 t attempt)
    with insert_rows(1) [OF new(12)] show ?thesis by (simp add: outflowRows_def)
  qed
  then show "outflowRows d' \<le> Suc (outflowRows d)" and "\<not> ob \<Longrightarrow> outflowRows d' = outflowRows d" by simp_all
qed

lemma boardCall_covered:
  assumes "boardCall l ok l'" and inv: "boardInv (l_db l)" and cov: "covered l" and room: "outflowRows (l_db l) + 2 < 2 ^ 63"
  shows "covered l' \<and> (\<not> ok \<longrightarrow> l_db l' = l_db l)"
  using assms(1)
proof cases
  case (begin_attempt fault cf t0 now operation request chain r)
  from beginBody_request [OF begin_attempt(2)] show ?thesis
  proof (elim disjE conjE exE)
    fix opID assume f: "finishTx fault cf l (beginBody l now (operation\<lparr> bo_OperationID := opID \<rparr>) request chain (l_db l)) = (r, l')"
    from finishTx_covered [OF cov f] beginBody_rows room begin_attempt(1) show ?thesis by fastforce
  qed (use cov begin_attempt in auto)
next
  case (authorize fault cf t1 t2 auth chain r)
  show ?thesis
  proof (cases "finishTx fault cf l (authorizeBody l t1 t2 auth chain (l_db l)) = (r, l') \<and>
      ba_Phase auth \<in> {VaultBoardPhaseDelete, VaultBoardPhaseFinalize}")
    case True
    have "outflowRows d < 2 ^ 63 \<and> (\<not> ob \<longrightarrow> outflowRows d = outflowRows (l_db l))"
      if "authorizeBody l t1 t2 auth chain (l_db l) = Inr (ob, x, d)" for ob x d
    proof -
      obtain auth' dis created where x: "x = (auth', dis, created)" by (metis prod_cases3)
      from that [unfolded x] inv conjunct2 [OF True] show ?thesis
      proof (cases rule: authorizeBody_inv_cases)
        case stored
        with room show ?thesis by simp
      next
        case (new d1)
        with insert_rows(1) [OF new(3)] insert_rows(2) [OF new(5)] room show ?thesis by simp
      qed
    qed
    from finishTx_covered [OF cov conjunct1 [OF True] this] authorize(1) show ?thesis by simp
  next
    case False
    with authorize(2) have "l' = l \<and> isl r" unfolding AppendVaultBoardAuthorizationAndDispatch_def by (auto split: if_splits)
    with cov authorize(1) show ?thesis by simp
  qed
next
  case (dispatch fault cf now dis chain r)
  have "outflowRows d < 2 ^ 63 \<and> (\<not> ob \<longrightarrow> outflowRows d = outflowRows (l_db l))"
    if "dispatchBody l now dis chain (l_db l) = Inr (ob, x, d)" for ob x d
  proof -
    obtain y created where x: "x = (y, created)" by fastforce
    from that [unfolded x] show ?thesis
      by (cases rule: dispatchBody_cases) (use room insert_rows(2) in auto)
  qed
  from finishTx_covered [OF cov dispatch(2) [unfolded AppendVaultBoardDispatch_def] this] dispatch(1) show ?thesis by simp
next
  case (submit fault cf now sub r)
  have "outflowRows d < 2 ^ 63 \<and> (\<not> ob \<longrightarrow> outflowRows d = outflowRows (l_db l))"
    if "submissionBody l now sub (l_db l) = Inr (ob, x, d)" for ob x d
  proof -
    obtain y created where x: "x = (y, created)" by fastforce
    from that [unfolded x] show ?thesis
      by (cases rule: submissionBody_cases) (use room insert_rows(3) in auto)
  qed
  from finishTx_covered [OF cov submit(2) [unfolded AppendVaultBoardSubmission_def] this] submit(1) show ?thesis by simp
qed

end
