(* ===== verification/BoardProperties.thy ===== *)
theory BoardProperties
  imports BoardProgress
begin

text \<open>The properties of the boarding ledger, on runs from empty tables, with one deposit as example.\<close>

section \<open>Runs from empty tables\<close>

definition emptyBoard :: "db \<Rightarrow> bool" where
  "emptyBoard d \<longleftrightarrow> db_vault_board_authorization d = [] \<and> db_vault_board_dispatch d = [] \<and> db_vault_board_submission d = []"

lemma reachable_inv: "boardRun l0 l \<Longrightarrow> emptyBoard (l_db l0) \<Longrightarrow> boardInv (l_db l)"
  using boardRun_inv boardInv_empty unfolding emptyBoard_def by blast

lemma boardChange_keeps:
  assumes "boardChange d d'" and "loadVaultBoardAuthorization d o1 a p = Some x"
  shows "loadVaultBoardAuthorization d' o1 a p = Some x"
  using assms
proof cases
  case (register d1 y key now b)
  have "loadVaultBoardAuthorization d1 o1 a p = Some x" using register(1) assms(2) by (auto simp: grown_def board_frames)
  with auths_table.insert_keeps [OF register(2), of "(o1, a, p)"] show ?thesis by simp
next
  case (closing y d1 z s r)
  with auths_table.insert_keeps [OF closing(1), of "(o1, a, p)"] dispatch_frames(1) [OF closing(2)] assms(2) show ?thesis by simp
qed (auto simp: board_load_defs grown_def dispatch_frames(1) submission_frames(1) dest!: insertBoardDispatch_Inr insertBoardSubmission_Inr)

lemma boardRun_keeps:
  "boardRun l l' \<Longrightarrow> boardInv (l_db l) \<Longrightarrow> loadVaultBoardAuthorization (l_db l) o1 a p = Some x \<Longrightarrow>
     loadVaultBoardAuthorization (l_db l') o1 a p = Some x"
proof (induction rule: boardRun.induct)
  case (step l m n)
  then show ?case using boardRun_inv boardStep_change boardChange_keeps by blast
qed simp

lemma carried_through:
  assumes "firstRegister l t0 now operation request chain opID" and "boardInv (l_db l)" and "authentic (l_integrityKey l) (l_db l)"
    and "due l" and "outflowRows (l_db l) + 6 < 2 ^ 63" and "\<forall>t \<in> {t1, t2, t3, t4, t5}. fits (str_bytes (formatRFC3339Nano t))"
    and "wellFormedResult acc" "bs_OperationID acc = opID" "bs_Attempt acc = 0" "bs_Phase acc = VaultBoardPhaseRegister"
      "bs_Outcome acc = VaultBoardAuthSubmitted" "bs_RequestDigest acc = br_RequestDigest request"
    and "wellFormedClosing cl" "ba_OperationID cl = opID" "ba_Attempt cl = 0"
    and "wellFormedResult res" "bs_OperationID res = opID" "bs_Attempt res = 0" "bs_Phase res = ba_Phase cl"
      "bs_RequestDigest res = ba_RequestDigest cl"
  shows "\<exists>b r l1 d l2 s l3 c x l4 f l5. BeginVaultBoardAttempt NoFault False t0 now l operation request chain = (Inr (b, r, True), l1) \<and>
    AppendVaultBoardDispatch NoFault False t1 l1
      \<lparr> bd_OperationID = opID, bd_Attempt = 0, bd_Phase = VaultBoardPhaseRegister, bd_RequestDigest = br_RequestDigest request,
        bd_CreatedAt = [], bd_IntegrityMAC = [] \<rparr> chain = (Inr (d, True), l2) \<and>
    AppendVaultBoardSubmission NoFault False t2 l2 acc = (Inr (s, True), l3) \<and>
    AppendVaultBoardAuthorizationAndDispatch NoFault False t3 t4 l3 cl chain = (Inr (c, x, True), l4) \<and>
    AppendVaultBoardSubmission NoFault False t5 l4 res = (Inr (f, True), l5) \<and>
    attempt (l_db l5) opID 0 = (if ba_Phase cl = VaultBoardPhaseFinalize then Finalized else Released)"
proof -
  have room: "outflowRows (l_db l) + Suc 5 < 2 ^ 63" using assms(5) by simp
  obtain b r l1 where one: "BeginVaultBoardAttempt NoFault False t0 now l operation request chain = (Inr (b, r, True), l1)"
    "boardReady l1 opID 0 chain 5" "attempt (l_db l1) opID 0 = Registered"
    "loadVaultBoardAuthorization (l_db l1) opID 0 VaultBoardPhaseRegister = Some r" "sameRegister r request"
    using begin_ready [OF assms(1-4) room] by blast
  have dig: "ba_RequestDigest r = br_RequestDigest request" using one(5) by (simp add: sameRegister_def)
  have r5: "boardReady l1 opID 0 chain (Suc 4)" using one(2) by (simp add: eval_nat_numeral)
  obtain d l2 where two: "AppendVaultBoardDispatch NoFault False t1 l1
      \<lparr> bd_OperationID = opID, bd_Attempt = 0, bd_Phase = VaultBoardPhaseRegister, bd_RequestDigest = br_RequestDigest request,
        bd_CreatedAt = [], bd_IntegrityMAC = [] \<rparr> chain = (Inr (d, True), l2)"
    "attempt (l_db l2) opID 0 = Dispatched" "boardReady l2 opID 0 chain 4"
    "loadVaultBoardAuthorization (l_db l2) opID 0 VaultBoardPhaseRegister = Some r"
    using dispatch_accepts [OF r5 one(3,4), of t1] assms(6) dig by auto
  from closing_carried [OF two(3,2,4) assms(7-11) _ assms(13-20), of t2 t3 t4 t5] assms(6,12) dig one(1) two(1) show ?thesis
    by simp
qed

text \<open>A vault with a boarding enrollment, a deposit, and the requests that carry it through.\<close>

definition exEnrollment :: VaultBoardEnrollment where
  "exEnrollment = \<lparr> be_VaultID = ''v1'', be_Program = VaultBoardV1, be_BoardingPub = replicate 33 2, be_CosignerPub = replicate 33 2,
     be_OperatorPub = replicate 33 2, be_ExitDelay = 604672, be_ExitDelayUnit = ''seconds'', be_PkScript = replicate 34 1,
     be_Address = ''a'', be_IntegrityMAC = replicate 32 0 \<rparr>"

definition exBoard :: Ledger where
  "exBoard = (exLedger [])\<lparr> l_db := (l_db (exLedger []))\<lparr> db_vault_board_enrollment := [exEnrollment] \<rparr> \<rparr>"

definition exDeposit :: VaultBoardOperation where
  "exDeposit = \<lparr> bo_OperationID = [], bo_VaultID = ''v1'', bo_Txid = replicate 32 9, bo_Vout = 0, bo_ValueSats = 100000,
     bo_BoardingScript = replicate 34 1, bo_ReceiverScript = [1], bo_SequenceAnchorMTP = 1000, bo_CreatedAt = [], bo_IntegrityMAC = [] \<rparr>"

definition exRegister :: VaultBoardRegisterRequest where
  "exRegister = \<lparr> br_RequestDigest = replicate 32 7, br_TreeSessionPub = replicate 33 2, br_ReceiverSats = 99000, br_FeeSats = 1000,
     br_ExpireAt = 1767229200 \<rparr>"

definition exDepositID :: string where
  "exDepositID = projr (ComputeVaultBoardOperationID ''v1'' (replicate 32 9) 0)"

definition exAccepted :: VaultBoardSubmission where
  "exAccepted = \<lparr> bs_OperationID = exDepositID, bs_Attempt = 0, bs_Phase = VaultBoardPhaseRegister, bs_RequestDigest = replicate 32 7,
     bs_Outcome = VaultBoardAuthSubmitted, bs_OperatorRef = ''intent'', bs_CommitmentTxid = [], bs_ReceiverTxid = [], bs_ReceiverVout = 0,
     bs_CreatedAt = [], bs_IntegrityMAC = [] \<rparr>"

definition exFinalize :: VaultBoardAuthorization where
  "exFinalize = \<lparr> ba_OperationID = exDepositID, ba_Attempt = 0, ba_Phase = VaultBoardPhaseFinalize, ba_RequestDigest = replicate 32 8,
     ba_TreeSessionPub = [], ba_ReceiverSats = 0, ba_FeeSats = 0, ba_ExpireAt = 0, ba_CommitmentTxid = hex_encode (replicate 32 5),
     ba_ReceiverTxid = hex_encode (replicate 32 6), ba_ReceiverVout = 0, ba_CreatedAt = [], ba_IntegrityMAC = [] \<rparr>"

definition exFinalized :: VaultBoardSubmission where
  "exFinalized = \<lparr> bs_OperationID = exDepositID, bs_Attempt = 0, bs_Phase = VaultBoardPhaseFinalize, bs_RequestDigest = replicate 32 8,
     bs_Outcome = VaultBoardAuthSubmitted, bs_OperatorRef = [], bs_CommitmentTxid = hex_encode (replicate 32 5),
     bs_ReceiverTxid = hex_encode (replicate 32 6), bs_ReceiverVout = 0, bs_CreatedAt = [], bs_IntegrityMAC = [] \<rparr>"

lemma exDepositID: "ComputeVaultBoardOperationID ''v1'' (replicate 32 9) 0 = Inr exDepositID"
proof -
  have "\<exists>x. ComputeVaultBoardOperationID ''v1'' (replicate 32 9) 0 = Inr x"
    by (simp add: ComputeVaultBoardOperationID_def boardCanonical_Inr res_simps fits_short)
  then show ?thesis by (auto simp: exDepositID_def)
qed

lemma canonicalTxidText_encode: "length raw = 32 \<Longrightarrow> canonicalTxidText (hex_encode raw)"
  by (simp add: canonicalTxidText_def canonicalVtxoTxid_def hex_decode_encode)

lemma exBoard_first: "firstRegister exBoard exNow exNow exDeposit exRegister 2000 exDepositID"
proof -
  have "requireVaultBoardCooperativeWindow exBoard exDeposit 2000 = Inr ()"
    using sint_max_minus [of 604672]
    by (simp add: requireVaultBoardCooperativeWindow_def exBoard_def exLedger_def PinsFor_def exDeposit_def Let_def)
  moreover have "validRegisterRequest exNow exDeposit exRegister"
    using sint_max_minus [of 1000] by (simp add: validRegisterRequest_def exDeposit_def exRegister_def exNow_def)
  moreover have "0 \<le> exNow" by (simp add: exNow_def)
  ultimately show ?thesis
    using exDepositID by (simp add: firstRegister_def exBoard_def exDeposit_def exEnrollment_def ex_nano fits_short board_load_defs registers_def
        exLedger_def emptyDb_def)
qed

lemma exBoard_ready: "emptyBoard (l_db exBoard)" "boardInv (l_db exBoard)" "authentic (l_integrityKey exBoard) (l_db exBoard)" "due exBoard"
    "outflowRows (l_db exBoard) + 6 < 2 ^ 63" "covered exBoard"
proof -
  show "emptyBoard (l_db exBoard)" "authentic (l_integrityKey exBoard) (l_db exBoard)" "due exBoard"
    "outflowRows (l_db exBoard) + 6 < 2 ^ 63" "covered exBoard"
    by (simp_all add: emptyBoard_def exBoard_def exLedger_def emptyDb_def authentic_def board_load_defs due_def outflowRows_def covered_def)
  then show "boardInv (l_db exBoard)" using boardInv_empty unfolding emptyBoard_def by blast
qed

lemma exRequests: "wellFormedResult exAccepted" "wellFormedClosing exFinalize" "wellFormedResult exFinalized"
  by (simp_all add: wellFormedResult_def wellFormedClosing_def submissionPhase_def authorizationPhase_def exAccepted_def exFinalize_def
      exFinalized_def canonicalTxidText_encode)

lemma exFinal: "\<exists>l b r l1. BeginVaultBoardAttempt NoFault False exNow exNow exBoard exDeposit exRegister 2000 = (Inr (b, r, True), l1) \<and>
    boardRun l1 l \<and> attempt (l_db l) exDepositID 0 = Finalized"
proof -
  have t: "\<forall>t \<in> {exNow, exNow, exNow, exNow, exNow}. fits (str_bytes (formatRFC3339Nano t))" by (simp add: ex_nano fits_short)
  obtain b r l1 d l2 s l3 c x l4 f l5 where
    "BeginVaultBoardAttempt NoFault False exNow exNow exBoard exDeposit exRegister 2000 = (Inr (b, r, True), l1)"
    and two: "AppendVaultBoardDispatch NoFault False exNow l1
      \<lparr> bd_OperationID = exDepositID, bd_Attempt = 0, bd_Phase = VaultBoardPhaseRegister, bd_RequestDigest = br_RequestDigest exRegister,
        bd_CreatedAt = [], bd_IntegrityMAC = [] \<rparr> 2000 = (Inr (d, True), l2)"
    and three: "AppendVaultBoardSubmission NoFault False exNow l2 exAccepted = (Inr (s, True), l3)"
    and four: "AppendVaultBoardAuthorizationAndDispatch NoFault False exNow exNow l3 exFinalize 2000 = (Inr (c, x, True), l4)"
    and five: "AppendVaultBoardSubmission NoFault False exNow l4 exFinalized = (Inr (f, True), l5)"
    and "attempt (l_db l5) exDepositID 0 = Finalized"
    using carried_through [OF exBoard_first exBoard_ready(2-5) t exRequests(1) _ _ _ _ _ exRequests(2) _ _ exRequests(3)]
    by (auto simp: exAccepted_def exFinalize_def exFinalized_def exRegister_def)
  moreover have "boardRun l1 l5"
    by (rule boardRun.step [OF boardRun.step [OF boardRun.step [OF boardRun.step [OF boardRun.start boardStep.dispatch [OF two]]
        boardStep.submit [OF three]] boardStep.authorize [OF four]] boardStep.submit [OF five]])
  ultimately show ?thesis by blast
qed

lemma next_attempt_fresh:
  assumes "contiguous d" and "loadLatestVaultBoardRegister d o1 = Some reg" and "ba_Attempt reg \<noteq> 0xffffffff"
  shows "loadVaultBoardAuthorization d o1 (ba_Attempt reg + 1) VaultBoardPhaseRegister = None"
proof (rule ccontr)
  let ?n = "length (registers d o1)"
  have ne: "registers d o1 \<noteq> []" and last: "reg = last (registers d o1)"
    using assms(1,2) by (auto simp: latest_eq split: if_splits)
  have a: "ba_Attempt reg = word_of_nat (?n - 1)" using contiguous_last [OF assms(1) ne] last by simp
  have "?n \<le> 2 ^ 32" using assms(1) by (simp add: contiguous_def)
  moreover have "?n \<noteq> 2 ^ 32"
  proof
    assume "?n = 2 ^ 32"
    then have "?n - 1 = 4294967295" by simp
    with a have "ba_Attempt reg = word_of_nat 4294967295" by metis
    with assms(3) show False by simp
  qed
  ultimately have n: "?n < 2 ^ 32" by simp
  have nx: "ba_Attempt reg + 1 = word_of_nat ?n" using a ne by (cases "registers d o1") simp_all
  assume "loadVaultBoardAuthorization d o1 (ba_Attempt reg + 1) VaultBoardPhaseRegister \<noteq> None"
  then obtain z where "z \<in> set (registers d o1)" "ba_Attempt z = ba_Attempt reg + 1"
    by (auto simp: loadVaultBoardAuthorization_def registers_def dest!: find_row_Some)
  then have "word_of_nat ?n \<in> set (map ba_Attempt (registers d o1))" using nx by force
  moreover have "map ba_Attempt (registers d o1) = map word_of_nat [0..<?n]" using assms(1) by (simp add: contiguous_def)
  ultimately have "(word_of_nat ?n :: u32) \<in> set (map word_of_nat [0..<?n])" by (simp only:)
  then obtain i where "i < ?n" "(word_of_nat ?n :: u32) = word_of_nat i" by auto
  then have "unat (word_of_nat ?n :: u32) = unat (word_of_nat i :: u32)" by simp
  with n \<open>i < ?n\<close> have "?n = i" by (simp add: unat_of_nat take_bit_nat_eq_self)
  with \<open>i < ?n\<close> show False by simp
qed

lemma rotate_accepts:
  assumes r: "boardReady l o1 a chain (Suc n)" and st: "attempt (l_db l) o1 a = Registered" and lim: "a \<noteq> 0xffffffff"
    and op: "ComputeVaultBoardOperationID (bo_VaultID operation) (bo_Txid operation) (bo_Vout operation) = Inr o1" "bo_OperationID operation \<in> {[], o1}"
    and facts: "\<And>b. loadVaultBoardOperation (l_db l) o1 = Some b \<Longrightarrow> sameVaultBoardOperationFacts b (operation\<lparr> bo_OperationID := o1 \<rparr>)"
    and v: "validRegisterRequest t0 operation request" and t: "0 \<le> t0" "fits (str_bytes (formatRFC3339Nano now))"
    and fresh: "reusedAttempt request (registerRows (l_db l) o1) = None"
  shows "\<exists>b auth l'. BeginVaultBoardAttempt NoFault False t0 now l operation request chain = (Inr (b, auth, True), l') \<and> ba_Attempt auth = a + 1"
proof -
  let ?key = "l_integrityKey l" and ?d = "l_db l"
  from r have key: "length ?key = 32" and au: "authentic ?key ?d" and inv: "boardInv ?d" and du: "due l"
    and room: "outflowRows ?d + Suc n < 2 ^ 63" by (simp_all add: boardReady_def)
  from r obtain reg b where reg: "loadLatestVaultBoardRegister ?d o1 = Some reg" "ba_Attempt reg = a"
    and b: "loadVaultBoardOperation ?d o1 = Some b" "requireVaultBoardCooperativeWindow l b chain = Inr ()"
    unfolding boardReady_def by blast
  have rows: "\<exists>rs. registerRows ?d o1 = rs @ [reg]"
    using reg(1) by (cases "registerRows ?d o1" rule: rev_cases) (simp_all add: loadLatestVaultBoardRegister_def)
  have o: "o1 \<noteq> []" "fits (str_bytes o1)" using ComputeVaultBoardOperationID_Inr(4) [OF op(1)] by (auto simp: fits_short)
  obtain y where y: "loadVaultBoardAuthorization ?d o1 a VaultBoardPhaseRegister = Some y" using attempt_dispatched(1) [OF st] by blast
  note dn = attempt_dispatched(2) [OF st]
  have "loadVaultBoardSubmission ?d o1 a VaultBoardPhaseRegister = None" by (rule backed_none(2) [OF inv dn])
  note cn = closing_none [OF inv this]
  have rot: "requireVaultBoardAttemptCanRotate ?key ?d o1 a now = Inr ()"
    using y dn cn authentic_loads(2) [OF au y] by (simp add: requireVaultBoardAttemptCanRotate_def loadOptionalVerified_def requiredRow_def)
  have nx: "nextAttempt ?key ?d o1 now (registerRows ?d o1) = Inr (a + 1)"
    using rows lim reg(2) rot by (auto simp: nextAttempt_def)
  have none: "loadVaultBoardAuthorization ?d o1 (a + 1) VaultBoardPhaseRegister = None"
    using next_attempt_fresh [OF boardInvD(6) [OF inv] reg(1)] lim reg(2) by simp
  obtain m where m: "SealVaultBoardAuthorization (registerAuthorization o1 (a + 1) now request) ?key =
      Inr ((registerAuthorization o1 (a + 1) now request)\<lparr> ba_IntegrityMAC := m \<rparr>)" "length m = 32"
    using register_seals(1) [OF key v t(1) o t(2)] by blast
  define auth where "auth = (registerAuthorization o1 (a + 1) now request)\<lparr> ba_IntegrityMAC := m \<rparr>"
  define d' where "d' = ?d\<lparr> db_vault_board_authorization := db_vault_board_authorization ?d @ [auth] \<rparr>"
  have i: "insertBoardAuthorization auth ?d = Inr d'"
    unfolding auth_def d'_def
    by (rule register_inserts [OF v register_seals(2) [OF key v t(1) o t(2)] m(2) none]) (simp add: b)
  have "allocateAttempt ?key now o1 request b ?d (registerRows ?d o1) = Inr (True, (b, auth, True), d')"
    using fresh nx m(1) i by (simp add: allocateAttempt_def auth_def)
  moreover have "bindVaultBoardOperation ?key now (operation\<lparr> bo_OperationID := o1 \<rparr>) ?d = Inr (b, ?d)"
    using b(1) facts [OF b(1)] authentic_loads(1) [OF au b(1)] by (simp add: bindVaultBoardOperation_def)
  moreover have "loadVerifiedVaultBoardRegisters ?key ?d o1 = Inr (registerRows ?d o1)"
    using au by (simp add: loadVerifiedVaultBoardRegisters_Inr authentic_def registerRows_def)
  ultimately have body: "beginBody l now (operation\<lparr> bo_OperationID := o1 \<rparr>) request chain ?d = Inr (True, (b, auth, True), d')"
    using key b(2) by (simp add: beginBody_def integrityKeyCopy_def)
  have "outflowRows d' = Suc (outflowRows ?d)" by (simp add: d'_def outflowRows_def)
  then obtain l' where "finishTx NoFault False l (Inr (True, (b, auth, True), d')) = (Inr (b, auth, True), l')"
    using finishTx_due [OF du, of d' "(b, auth, True)"] room by auto
  with body have "BeginVaultBoardAttempt NoFault False t0 now l operation request chain = (Inr (b, auth, True), l')"
    using op v by (auto simp: BeginVaultBoardAttempt_def)
  then show ?thesis by (auto simp: auth_def registerAuthorization_def)
qed

lemma boardRun_trans: "boardRun m n \<Longrightarrow> boardRun l m \<Longrightarrow> boardRun l n"
  by (induction rule: boardRun.induct) (blast intro: boardRun.step)+

lemma exclusiveD:
  "boardInv d \<Longrightarrow> loadVaultBoardAuthorization d o1 a VaultBoardPhaseDelete = None \<or> loadVaultBoardAuthorization d o1 a VaultBoardPhaseFinalize = None"
  using boardInvD(4) by (simp add: exclusive_def)

text \<open>
  C9. A deposit is settled at most once: along every run of the boarding ledger from empty tables,
  after an attempt has received its finalize authorization, and whatever calls and faults follow, it
  never receives a delete, no other attempt of the operation is finalized, and no further attempt is
  opened.
\<close>

theorem board_settles_once:
  assumes "boardRun l0 l" and "emptyBoard (l_db l0)"
    and "loadVaultBoardAuthorization (l_db l) o1 a VaultBoardPhaseFinalize \<noteq> None" and "boardRun l l'"
  shows "loadVaultBoardAuthorization (l_db l') o1 a VaultBoardPhaseDelete = None \<and>
    {b. loadVaultBoardAuthorization (l_db l') o1 b VaultBoardPhaseFinalize \<noteq> None} = {a} \<and>
    (\<exists>r. loadLatestVaultBoardRegister (l_db l') o1 = Some r \<and> ba_Attempt r = a)"
proof -
  have inv: "boardInv (l_db l)" by (rule reachable_inv [OF assms(1,2)])
  note inv' = boardRun_inv [OF assms(4) inv]
  have fin: "loadVaultBoardAuthorization (l_db l') o1 a VaultBoardPhaseFinalize \<noteq> None"
    using boardRun_keeps [OF assms(4) inv] assms(3) by blast
  have latest: "\<exists>r. loadLatestVaultBoardRegister (l_db l') o1 = Some r \<and> ba_Attempt r = b"
    if "loadVaultBoardAuthorization (l_db l') o1 b VaultBoardPhaseFinalize \<noteq> None" for b
    using boardInvD(5) [OF inv'] that by (simp add: finalLatest_def)
  have "loadVaultBoardAuthorization (l_db l') o1 a VaultBoardPhaseDelete = None"
    using exclusiveD [OF inv', of o1 a] fin by simp
  moreover have "{b. loadVaultBoardAuthorization (l_db l') o1 b VaultBoardPhaseFinalize \<noteq> None} = {a}"
  proof (rule antisym; rule subsetI)
    fix b assume "b \<in> {b. loadVaultBoardAuthorization (l_db l') o1 b VaultBoardPhaseFinalize \<noteq> None}"
    then have "loadVaultBoardAuthorization (l_db l') o1 b VaultBoardPhaseFinalize \<noteq> None" by simp
    from latest [OF this] latest [OF fin] show "b \<in> {a}" by auto
  next
    fix b assume "b \<in> {a}"
    with fin show "b \<in> {b. loadVaultBoardAuthorization (l_db l') o1 b VaultBoardPhaseFinalize \<noteq> None}" by simp
  qed
  ultimately show ?thesis using latest [OF fin] by (intro conjI)
qed

theorem board_settles_once_witness:
  "\<exists>l. boardRun exBoard l \<and> attempt (l_db l) exDepositID 0 = Finalized \<and>
     {b. loadVaultBoardAuthorization (l_db l) exDepositID b VaultBoardPhaseFinalize \<noteq> None} = {0}"
proof -
  obtain l b r l1 where one: "BeginVaultBoardAttempt NoFault False exNow exNow exBoard exDeposit exRegister 2000 = (Inr (b, r, True), l1)"
    and l: "boardRun l1 l" "attempt (l_db l) exDepositID 0 = Finalized" using exFinal by blast
  have "boardRun exBoard l1" by (rule boardRun.step [OF boardRun.start boardStep.begin_attempt [OF one]])
  then have run: "boardRun exBoard l" by (rule boardRun_trans [OF l(1)])
  have "loadVaultBoardAuthorization (l_db l) exDepositID 0 VaultBoardPhaseFinalize \<noteq> None"
    using l(2) by (auto simp: attempt_def split: if_splits option.splits)
  from board_settles_once [OF run exBoard_ready(1) this boardRun.start] run l(2) show ?thesis by blast
qed

text \<open>
  C18. The four tables implement the protocol of one attempt: along every run from empty tables, each
  call, whatever its faults, either moves exactly one attempt along one arrow of \<open>attemptNext\<close>
  (absent, registered, dispatched, accepted or rejected, deleting or finalizing, released or
  finalized) and leaves every other attempt where it is, or moves none.
\<close>

theorem board_attempts_refine:
  assumes "boardRun l0 l" and "emptyBoard (l_db l0)" and "boardStep l l'"
  shows "(\<exists>o1 a. attempt (l_db l') o1 a \<in> set (attemptNext (attempt (l_db l) o1 a)) \<and>
      (\<forall>o2 b. (o2, b) = (o1, a) \<or> attempt (l_db l') o2 b = attempt (l_db l) o2 b)) \<or>
    attempt (l_db l') = attempt (l_db l)"
proof -
  have inv: "boardInv (l_db l)" by (rule reachable_inv [OF assms(1,2)])
  from boardChange_moves [OF boardStep_change [OF assms(3) inv] inv] show ?thesis
    unfolding moves_def fun_eq_iff by blast
qed

theorem board_attempts_refine_witness:
  "\<exists>l o1 a. boardStep exBoard l \<and> attempt (l_db exBoard) o1 a = Absent \<and> attempt (l_db l) o1 a = Registered"
proof -
  from begin_ready [OF exBoard_first exBoard_ready(2-4), of 5] exBoard_ready(5) obtain b r l1 where
    one: "BeginVaultBoardAttempt NoFault False exNow exNow exBoard exDeposit exRegister 2000 = (Inr (b, r, True), l1)"
    and "attempt (l_db l1) exDepositID 0 = Registered" by auto
  moreover have step: "boardStep exBoard l1" by (rule boardStep.begin_attempt [OF one])
  moreover have absent: "attempt (l_db exBoard) o1 a = Absent" for o1 a
    by (simp add: attempt_def exBoard_def exLedger_def emptyDb_def board_load_defs)
  ultimately have "attempt (l_db l1) \<noteq> attempt (l_db exBoard)" by (metis attemptState.distinct(1))
  with board_attempts_refine [OF boardRun.start exBoard_ready(1) step] absent step show ?thesis by fastforce
qed

text \<open>
  C17. A deposit is offered to the operator again only when the previous offer is dead: when
  \<open>BeginVaultBoardAttempt\<close> opens an attempt after the first, the one before it was never
  dispatched, was rejected, was released, or was accepted and has been expired for at least the
  quarantine; in particular no attempt that is being deleted or finalized, or whose dispatch is
  unanswered, is superseded.
\<close>

theorem board_rotation_safe:
  assumes "boardRun l0 l" and "emptyBoard (l_db l0)"
    and "BeginVaultBoardAttempt fault commitFails t0 now l operation request chain = (Inr (stored, auth, True), l')"
    and "ba_Attempt auth \<noteq> 0"
  shows "attempt (l_db l) (ba_OperationID auth) (ba_Attempt auth - 1) \<in> {Registered, Rejected, Released} \<or>
    attempt (l_db l) (ba_OperationID auth) (ba_Attempt auth - 1) = Accepted \<and>
      (\<exists>reg. loadVaultBoardAuthorization (l_db l) (ba_OperationID auth) (ba_Attempt auth - 1) VaultBoardPhaseRegister = Some reg \<and>
        sint (ba_ExpireAt reg) + 30 \<le> now div Second)"
  using assms(3)
proof (cases rule: begin_cases)
  case (1 opID ob)
  have inv: "boardInv (l_db l)" by (rule reachable_inv [OF assms(1,2)])
  from 1(4) show ?thesis
  proof (cases rule: beginBody_cases)
    case (new d1 tab n)
    note new = new [simplified]
    note keep = registerAuthorization_keeps [OF new(11)]
    have g: "grown (l_db l) d1" using new(3,6) unfolding grown_def by blast
    have inv1: "boardInv d1" using inv_operation [OF inv] g unfolding grown_def by blast
    have rows: "registerRows d1 opID = registerRows (l_db l) opID" using new(3) by (simp add: board_frames)
    note nx = nextAttempt_Inr [OF boardInvD(6) [OF inv1] new(10) [folded rows]]
    have "registers d1 opID \<noteq> []" using nx(1) assms(4) keep(2) by auto
    from canRotate_attempt [OF nx(3) [OF this] inv1] show ?thesis
      using keep grown_attempt [OF g] new(3) by (auto simp: VaultBoardRegisterCanSupersede_def Let_def board_frames)
  qed simp
qed

theorem board_rotation_safe_witness:
  "\<exists>b r l1 c s l2. BeginVaultBoardAttempt NoFault False exNow exNow exBoard exDeposit exRegister 2000 = (Inr (b, r, True), l1) \<and>
     BeginVaultBoardAttempt NoFault False exNow exNow l1 exDeposit
       (exRegister\<lparr> br_RequestDigest := replicate 32 1, br_TreeSessionPub := replicate 33 3 \<rparr>) 2000 = (Inr (c, s, True), l2) \<and>
     ba_Attempt s = 1 \<and> attempt (l_db l1) (ba_OperationID s) 0 \<in> {Registered, Rejected, Released, Accepted}"
proof -
  let ?req = "exRegister\<lparr> br_RequestDigest := replicate 32 1, br_TreeSessionPub := replicate 33 3 \<rparr>"
  from begin_ready [OF exBoard_first exBoard_ready(2-4), of 5] exBoard_ready(5) obtain b r l1 where
    one: "BeginVaultBoardAttempt NoFault False exNow exNow exBoard exDeposit exRegister 2000 = (Inr (b, r, True), l1)"
      "boardReady l1 exDepositID 0 2000 5" "attempt (l_db l1) exDepositID 0 = Registered" "sameRegister r exRegister"
      "registerRows (l_db l1) exDepositID = [r]" "loadVaultBoardOperation (l_db l1) exDepositID = Some b"
      "sameVaultBoardOperationFacts b (exDeposit\<lparr> bo_OperationID := exDepositID \<rparr>)"
    by auto
  have run: "boardRun exBoard l1" by (rule boardRun.step [OF boardRun.start boardStep.begin_attempt [OF one(1)]])
  have ready: "boardReady l1 exDepositID 0 2000 (Suc 4)" using one(2) by (simp add: eval_nat_numeral)
  have v: "validRegisterRequest exNow exDeposit ?req"
    using exBoard_first by (simp add: firstRegister_def validRegisterRequest_def exRegister_def)
  have fresh: "reusedAttempt ?req [r] = None" using one(4) by (simp add: sameRegister_def exRegister_def)
  obtain c s l2 where two: "BeginVaultBoardAttempt NoFault False exNow exNow l1 exDeposit ?req 2000 = (Inr (c, s, True), l2)" "ba_Attempt s = 1"
    using rotate_accepts [OF ready one(3), of exDeposit exNow ?req exNow] one(5-7) v fresh exBoard_first
    by (auto simp: firstRegister_def)
  from board_rotation_safe [OF run exBoard_ready(1) two(1)] two(2)
  have "attempt (l_db l1) (ba_OperationID s) 0 \<in> {Registered, Rejected, Released, Accepted}" by auto
  with one(1) two show ?thesis by blast
qed

text \<open>
  C19. Attempts are numbered without gaps and never create or lose value: along every run from empty
  tables the register authorizations of an operation, listed by their attempt, carry each of the
  numbers 0, 1, 2 and so on exactly once, and each pays the receiver a positive amount that together
  with its non-negative fee is exactly the value of the deposit.
\<close>

theorem board_attempts_balanced:
  assumes "boardRun l0 l" and "emptyBoard (l_db l0)"
  shows "map ba_Attempt (registerRows (l_db l) o1) = map word_of_nat [0..<length (registerRows (l_db l) o1)] \<and>
    (\<forall>a x. loadVaultBoardAuthorization (l_db l) o1 a VaultBoardPhaseRegister = Some x \<longrightarrow>
      (\<exists>b. loadVaultBoardOperation (l_db l) o1 = Some b \<and> 0 < sint (ba_ReceiverSats x) \<and> 0 \<le> sint (ba_FeeSats x) \<and>
         sint (ba_ReceiverSats x) + sint (ba_FeeSats x) = sint (bo_ValueSats b)))"
proof -
  have inv: "boardInv (l_db l)" by (rule reachable_inv [OF assms])
  have "map ba_Attempt (registerRows (l_db l) o1) = map word_of_nat [0..<length (registerRows (l_db l) o1)]"
    using boardInvD(6) [OF inv] by (simp add: registerRows_eq contiguous_def)
  with boardInvD(7) [OF inv] show ?thesis unfolding balanced_def by (intro conjI) simp_all
qed

theorem board_attempts_balanced_witness:
  "\<exists>l x. boardRun exBoard l \<and> registerRows (l_db l) exDepositID = [x] \<and> ba_Attempt x = 0"
proof -
  from begin_ready [OF exBoard_first exBoard_ready(2-4), of 5] exBoard_ready(5) obtain b r l1 where
    one: "BeginVaultBoardAttempt NoFault False exNow exNow exBoard exDeposit exRegister 2000 = (Inr (b, r, True), l1)"
      "registerRows (l_db l1) exDepositID = [r]" by auto
  have run: "boardRun exBoard l1" by (rule boardRun.step [OF boardRun.start boardStep.begin_attempt [OF one(1)]])
  from board_attempts_balanced [OF run exBoard_ready(1), of exDepositID] one(2) run show ?thesis by auto
qed

text \<open>
  C30. Boarding can be completed: from a ledger whose rows verify and whose sequence file is at its
  count or one ahead, a first register of an unused outpoint followed by its dispatch, the operator's
  acceptance, a well-formed finalize (or delete) and the operator's answer to it all succeed in the
  absence of faults, each creating its row, and the attempt ends finalized (or released).
\<close>

theorem board_completes:
  assumes "firstRegister l t0 now operation request chain opID" and "boardInv (l_db l)" and "authentic (l_integrityKey l) (l_db l)"
    and "due l" and "outflowRows (l_db l) + 6 < 2 ^ 63" and "\<forall>t \<in> {t1, t2, t3, t4, t5}. fits (str_bytes (formatRFC3339Nano t))"
    and "wellFormedResult acc" "bs_OperationID acc = opID" "bs_Attempt acc = 0" "bs_Phase acc = VaultBoardPhaseRegister"
      "bs_Outcome acc = VaultBoardAuthSubmitted" "bs_RequestDigest acc = br_RequestDigest request"
    and "wellFormedClosing cl" "ba_OperationID cl = opID" "ba_Attempt cl = 0"
    and "wellFormedResult res" "bs_OperationID res = opID" "bs_Attempt res = 0" "bs_Phase res = ba_Phase cl"
      "bs_RequestDigest res = ba_RequestDigest cl"
  shows "\<exists>b r l1 d l2 s l3 c x l4 f l5. BeginVaultBoardAttempt NoFault False t0 now l operation request chain = (Inr (b, r, True), l1) \<and>
    AppendVaultBoardDispatch NoFault False t1 l1
      \<lparr> bd_OperationID = opID, bd_Attempt = 0, bd_Phase = VaultBoardPhaseRegister, bd_RequestDigest = br_RequestDigest request,
        bd_CreatedAt = [], bd_IntegrityMAC = [] \<rparr> chain = (Inr (d, True), l2) \<and>
    AppendVaultBoardSubmission NoFault False t2 l2 acc = (Inr (s, True), l3) \<and>
    AppendVaultBoardAuthorizationAndDispatch NoFault False t3 t4 l3 cl chain = (Inr (c, x, True), l4) \<and>
    AppendVaultBoardSubmission NoFault False t5 l4 res = (Inr (f, True), l5) \<and>
    attempt (l_db l5) opID 0 = (if ba_Phase cl = VaultBoardPhaseFinalize then Finalized else Released)"
  by (rule carried_through [OF assms])

theorem board_completes_witness:
  "\<exists>b r l1 d l2 s l3 c x l4 f l5.
     BeginVaultBoardAttempt NoFault False exNow exNow exBoard exDeposit exRegister 2000 = (Inr (b, r, True), l1) \<and>
     AppendVaultBoardDispatch NoFault False exNow l1
       \<lparr> bd_OperationID = exDepositID, bd_Attempt = 0, bd_Phase = VaultBoardPhaseRegister, bd_RequestDigest = replicate 32 7,
         bd_CreatedAt = [], bd_IntegrityMAC = [] \<rparr> 2000 = (Inr (d, True), l2) \<and>
     AppendVaultBoardSubmission NoFault False exNow l2 exAccepted = (Inr (s, True), l3) \<and>
     AppendVaultBoardAuthorizationAndDispatch NoFault False exNow exNow l3 exFinalize 2000 = (Inr (c, x, True), l4) \<and>
     AppendVaultBoardSubmission NoFault False exNow l4 exFinalized = (Inr (f, True), l5) \<and>
     attempt (l_db l5) exDepositID 0 = Finalized"
proof -
  have t: "\<forall>t \<in> {exNow, exNow, exNow, exNow, exNow}. fits (str_bytes (formatRFC3339Nano t))" by (simp add: ex_nano fits_short)
  have "br_RequestDigest exRegister = replicate 32 7" by (simp add: exRegister_def)
  with board_completes [OF exBoard_first exBoard_ready(2-5) t exRequests(1) _ _ _ _ _ exRequests(2) _ _ exRequests(3)] show ?thesis
    by (simp add: exAccepted_def exFinalize_def exFinalized_def)
qed

text \<open>
  Opening an attempt is idempotent: when \<open>BeginVaultBoardAttempt\<close> has opened an attempt, the
  same request made again before it expires, at any clock reading and whatever the state of the
  sequence file, returns the same operation and authorization, says that nothing was created, and
  leaves the ledger as it is.
\<close>

theorem board_begin_idempotent:
  assumes "boardRun l0 l" and "emptyBoard (l_db l0)"
    and "BeginVaultBoardAttempt fault commitFails t0 now l operation request chain = (Inr (stored, auth, True), l')"
    and "t0' div Second < sint (br_ExpireAt request)"
  shows "BeginVaultBoardAttempt fault' False t0' now' l' operation request chain = (Inr (stored, auth, False), l')"
  by (rule begin_retry [OF reachable_inv [OF assms(1,2)] assms(3,4)])

theorem board_begin_idempotent_witness:
  "\<exists>b r l. BeginVaultBoardAttempt NoFault False exNow exNow exBoard exDeposit exRegister 2000 = (Inr (b, r, True), l) \<and>
     BeginVaultBoardAttempt ReadFault False (exNow + 5) (exNow + 6) l exDeposit exRegister 2000 = (Inr (b, r, False), l)"
proof -
  from begin_ready [OF exBoard_first exBoard_ready(2-4), of 5] exBoard_ready(5) obtain b r l where
    one: "BeginVaultBoardAttempt NoFault False exNow exNow exBoard exDeposit exRegister 2000 = (Inr (b, r, True), l)" by auto
  have "(exNow + 5) div Second < sint (br_ExpireAt exRegister)" by (simp add: exNow_def exRegister_def)
  from board_begin_idempotent [OF boardRun.start exBoard_ready(1) one this, of ReadFault "exNow + 6"] one show ?thesis by blast
qed

text \<open>
  C31. A crash leaves the boarding ledger covered: along every run from empty tables, whatever fault
  strikes the sequence file and whether or not the \<open>COMMIT\<close> takes effect, a call that reports an
  error leaves the database as it was, and afterwards the attached sequence file still holds a
  count of at least the database's rows.
\<close>

theorem board_crash_safe:
  assumes "boardRun l0 l" and "emptyBoard (l_db l0)" and "covered l" and "outflowRows (l_db l) + 2 < 2 ^ 63" and "boardCall l ok l'"
  shows "covered l' \<and> (ok \<or> l_db l' = l_db l)"
  using boardCall_covered [OF assms(5) reachable_inv [OF assms(1,2)] assms(3,4)] by blast

theorem board_crash_safe_witness:
  "covered (snd (BeginVaultBoardAttempt DirSyncFault True exNow exNow
     (exBoard\<lparr> l_monotonic := Some exKey, l_file := Some (renderMonotonic exKey 0) \<rparr>) exDeposit exRegister 2000))"
proof -
  let ?l = "exBoard\<lparr> l_monotonic := Some exKey, l_file := Some (renderMonotonic exKey 0) \<rparr>"
  have "boardCall ?l (\<not> isl (fst (BeginVaultBoardAttempt DirSyncFault True exNow exNow ?l exDeposit exRegister 2000)))
      (snd (BeginVaultBoardAttempt DirSyncFault True exNow exNow ?l exDeposit exRegister 2000))"
    by (rule boardCall.begin_attempt) simp
  moreover have "outflowRows (l_db ?l) = 0" by (simp add: exBoard_def exLedger_def emptyDb_def outflowRows_def)
  moreover have "covered ?l" using \<open>outflowRows (l_db ?l) = 0\<close> by (simp add: covered_def)
  ultimately show ?thesis using board_crash_safe [OF boardRun.start, of ?l] exBoard_ready(1) by simp
qed

end
