(* ===== verification/TenantLedger.thy ===== *)
theory TenantLedger
  imports BoardLedger
begin

text \<open>
  The tenants of the ledger: invites and open enrollment sessions (\<open>policy/invite.go\<close>,
  \<open>enrollment_session.go\<close>), pending enrollments (\<open>pending.go\<close>), the creation of a vault
  (\<open>vault_create.go\<close>) and its reads and recovery envelope (\<open>tenant.go\<close>). Timestamps are compared
  as text, byte by byte, as Go and SQLite do.
\<close>

section \<open>Inserts\<close>

definition insertVault :: "VaultRecord \<Rightarrow> db \<Rightarrow> db result" where
  "insertVault v d = insertInto
     (vr_ProtectionTier v \<in> {''standard'', ''advanced''} \<and>
      vr_PhoneBIP340 v \<noteq> [] \<and> vr_PhoneDirectP256 v \<noteq> [] \<and> vr_ExternalOwnerWallet v \<noteq> [] \<and>
      vr_VaultCosignerBase v \<noteq> [] \<and> vr_ArkadeCosignerBase v \<noteq> [] \<and>
      vr_CosignerMode v = ''hkdf-sha256-v1'' \<and> vr_SavingsScript v \<noteq> [] \<and> length (vr_IntegrityMAC v) = 32 \<and>
      (vr_ProtectionTier v = ''standard'' \<and> vr_RecoveryKey v = [] \<or>
       vr_ProtectionTier v = ''advanced'' \<and> length (vr_RecoveryKey v) = 33) \<and>
      find_row (\<lambda>r. vr_VaultID r = vr_VaultID v) (db_vault d) = None)
     (db_vault_update (\<lambda>t. t @ [v])) d"

text \<open>A \<open>BLOB PRIMARY KEY\<close> admits \<open>NULL\<close>, which equals nothing.\<close>

definition insertVaultCredential :: "VaultCredential \<Rightarrow> db \<Rightarrow> db result" where
  "insertVaultCredential c d = insertInto
     (vc_WebAuthnP256 c \<noteq> [] \<and> length (vc_IntegrityMAC c) = 32 \<and>
      (vc_CredentialID c = [] \<or> find_row (\<lambda>r. vc_CredentialID r = vc_CredentialID c) (db_vault_credential d) = None) \<and>
      find_row (\<lambda>r. vr_VaultID r = vc_VaultID c) (db_vault d) \<noteq> None)
     (db_vault_credential_update (\<lambda>t. t @ [c])) d"

definition envelope_check :: "CredentialEnvelope \<Rightarrow> bool" where
  "envelope_check e \<longleftrightarrow> ce_Version e = 2 \<and> 0 < sql_length (ce_Binding e) \<and> sql_length (ce_Binding e) \<le> 16384 \<and>
     length (ce_Nonce e) = 12 \<and> length (ce_Ciphertext e) = 48 \<and> length (ce_DirectSig e) = 64 \<and>
     length (ce_PhoneSig e) = 64 \<and> length (ce_IntegrityMAC e) = 32"

definition findEnvelope :: "db \<Rightarrow> string \<Rightarrow> (string \<times> CredentialEnvelope) option" where
  "findEnvelope d vaultID = find_row (\<lambda>r. fst r = vaultID) (db_vault_envelope d)"

definition insertVaultEnvelopeTx :: "string \<Rightarrow> CredentialEnvelope \<Rightarrow> db \<Rightarrow> db result" where
  "insertVaultEnvelopeTx vaultID e d = insertInto
     (envelope_check e \<and> findEnvelope d vaultID = None \<and>
      find_row (\<lambda>r. vr_VaultID r = vaultID) (db_vault d) \<noteq> None)
     (db_vault_envelope_update (\<lambda>t. t @ [(vaultID, e)])) d"

definition findInvite :: "db \<Rightarrow> bytes \<Rightarrow> InviteRow option" where
  "findInvite d tokenHash = find_row (\<lambda>r. iv_TokenHash r = tokenHash) (db_invite d)"

definition insertInvite :: "bytes \<Rightarrow> string \<Rightarrow> string \<Rightarrow> db \<Rightarrow> db result" where
  "insertInvite tokenHash expiresAt createdAt d = insertInto
     (length tokenHash = 32 \<and> findInvite d tokenHash = None)
     (db_invite_update (\<lambda>t. t @ [\<lparr> iv_TokenHash = tokenHash, iv_ExpiresAt = expiresAt, iv_ConsumedVaultID = None,
       iv_CreatedAt = createdAt \<rparr>])) d"

definition pending_check :: "PendingEnrollment \<Rightarrow> bool" where
  "pending_check p \<longleftrightarrow> pe_Challenge p \<noteq> [] \<and> pe_ProtectionTier p \<in> {''standard'', ''advanced''} \<and> length (pe_PolicyDigest p) = 32"

definition insertPending :: "PendingEnrollment \<Rightarrow> db \<Rightarrow> db result" where
  "insertPending p d = insertInto
     (pending_check p \<and> length (pe_TokenHash p) = 32 \<and>
      find_row (\<lambda>r. pe_Handle r = pe_Handle p) (db_pending_enrollment d) = None \<and>
      find_row (\<lambda>r. pe_VaultID r = pe_VaultID p) (db_pending_enrollment d) = None \<and>
      find_row (\<lambda>r. pe_TokenHash r = pe_TokenHash p) (db_pending_enrollment d) = None \<and>
      findInvite d (pe_TokenHash p) \<noteq> None)
     (db_pending_enrollment_update (\<lambda>t. t @ [p])) d"

section \<open>Invites\<close>

definition getInvite :: "db \<Rightarrow> bytes \<Rightarrow> InviteRow option" where
  "getInvite d tokenHash = findInvite d tokenHash"

definition GetInvite :: "Ledger \<Rightarrow> bytes \<Rightarrow> InviteRow option result" where
  "GetInvite l tokenHash =
     (if length tokenHash \<noteq> 32 then Inl (Errorf ''invite token_hash must be 32 bytes'')
      else Inr (getInvite (l_db l) tokenHash))"

text \<open>An empty \<open>ConsumedVaultID\<close> stands for \<open>NULL\<close> in Go; no vault has the empty id.\<close>

definition inviteConsumed :: "InviteRow \<Rightarrow> bool" where
  "inviteConsumed row \<longleftrightarrow> iv_ConsumedVaultID row \<noteq> None \<and> iv_ConsumedVaultID row \<noteq> Some []"

definition Usable :: "InviteRow option \<Rightarrow> time \<Rightarrow> bool" where
  "Usable row now =
     (case row of
        None \<Rightarrow> False
      | Some i \<Rightarrow> \<not> inviteConsumed i \<and> iv_ExpiresAt i \<noteq> [] \<and> formatRFC3339 now \<le> iv_ExpiresAt i)"

definition PutInvite :: "Ledger \<Rightarrow> bytes \<Rightarrow> string \<Rightarrow> string \<Rightarrow> unit result \<times> Ledger" where
  "PutInvite l tokenHash expiresAt createdAt =
     (if length tokenHash \<noteq> 32 then (Inl (Errorf ''invite token_hash must be 32 bytes''), l)
      else if expiresAt = [] \<or> createdAt = [] then (Inl (Errorf ''invite timestamps required''), l)
      else case insertInvite tokenHash expiresAt createdAt (l_db l) of
             Inl e \<Rightarrow> (Inl e, l)
           | Inr d \<Rightarrow> (Inr (), l\<lparr> l_db := d \<rparr>))"

text \<open>\<open>staleInvite\<close> is the \<open>WHERE\<close> clause of the two deletions.\<close>

definition staleInvite :: "string \<Rightarrow> InviteRow \<Rightarrow> bool" where
  "staleInvite cutoff row \<longleftrightarrow> iv_ConsumedVaultID row = None \<and> iv_ExpiresAt row < cutoff"

definition pruneInvites :: "string \<Rightarrow> db \<Rightarrow> db" where
  "pruneInvites cutoff d =
     d\<lparr> db_pending_enrollment := filter (\<lambda>p. \<not> (\<exists>row \<in> set (db_invite d). staleInvite cutoff row \<and> iv_TokenHash row = pe_TokenHash p))
          (db_pending_enrollment d),
        db_invite := filter (\<lambda>row. \<not> staleInvite cutoff row) (db_invite d) \<rparr>"

abbreviation Minute :: int where "Minute \<equiv> 60 * Second"

definition IssueEnrollmentSession :: "bool \<Rightarrow> Ledger \<Rightarrow> bytes \<Rightarrow> time \<Rightarrow> time result \<times> Ledger" where
  "IssueEnrollmentSession commitFails l hash now =
     (if length hash \<noteq> 32 then (Inl (Errorf ''enrollment token hash must be 32 bytes''), l)
      else
        let d = pruneInvites (formatRFC3339 (now - 24 * Hour)) (l_db l);
            recent = affected (\<lambda>row. formatRFC3339 (now - Minute) \<le> iv_CreatedAt row) (db_invite d);
            active = affected (\<lambda>row. iv_ConsumedVaultID row = None \<and> formatRFC3339 now \<le> iv_ExpiresAt row) (db_invite d)
        in if recent \<ge> 30 \<or> active \<ge> 1000 then (Inl (Errorf ''setup is busy; try again shortly''), l)
           else
             let expires = now + 10 * Minute in
             case insertInvite hash (formatRFC3339 expires) (formatRFC3339 now) d of
               Inl e \<Rightarrow> (Inl e, l)
             | Inr d \<Rightarrow> if commitFails then (Inl ErrIO, l) else (Inr expires, l\<lparr> l_db := d \<rparr>))"

section \<open>Pending enrollments\<close>

definition validatePendingEnrollment :: "PendingEnrollment \<Rightarrow> unit result" where
  "validatePendingEnrollment p =
     (if pe_Handle p = [] \<or> pe_VaultID p = [] then Inl (Errorf ''pending enrollment handle and vault id required'')
      else if length (pe_TokenHash p) \<noteq> 32 then Inl (Errorf ''pending enrollment token_hash must be 32 bytes'')
      else if length (pe_Challenge p) = 0 then Inl (Errorf ''pending enrollment challenge required'')
      else bindR (wrapR ''pending enrollment'' (ValidateProtectionTier (pe_ProtectionTier p))) (\<lambda>_.
        if length (pe_PolicyDigest p) \<noteq> 32 then Inl (Errorf ''pending enrollment policy_digest must be 32 bytes'')
        else if pe_ExpiresAt p = [] \<or> pe_CreatedAt p = [] then Inl (Errorf ''pending enrollment timestamps required'')
        else Inr ()))"

definition getPendingByTokenHashTx :: "db \<Rightarrow> bytes \<Rightarrow> PendingEnrollment option" where
  "getPendingByTokenHashTx d tokenHash = find_row (\<lambda>r. pe_TokenHash r = tokenHash) (db_pending_enrollment d)"

text \<open>
  The \<open>UPDATE\<close> of an expired row: the row with the old handle and challenge takes the new values,
  unless its new handle or vault id is another row's.
\<close>

definition replacePending :: "PendingEnrollment \<Rightarrow> PendingEnrollment \<Rightarrow> db \<Rightarrow> (nat \<times> db) result" where
  "replacePending existing p d =
     (let hit = (\<lambda>r. pe_TokenHash r = pe_TokenHash p \<and> pe_Handle r = pe_Handle existing \<and> pe_Challenge r = pe_Challenge existing);
          others = filter (\<lambda>r. \<not> hit r) (db_pending_enrollment d);
          n = affected hit (db_pending_enrollment d)
      in if n = 0 then Inr (0, d)
         else if pending_check p \<and> find_row (\<lambda>r. pe_Handle r = pe_Handle p \<or> pe_VaultID r = pe_VaultID p) others = None then
           Inr (n, d\<lparr> db_pending_enrollment := update_rows hit (\<lambda>_. p) (db_pending_enrollment d) \<rparr>)
         else Inl ErrConstraint)"

definition reservePendingEnrollmentTx :: "PendingEnrollment \<Rightarrow> db \<Rightarrow> (PendingEnrollment \<times> db) result" where
  "reservePendingEnrollmentTx p d =
     (case getInvite d (pe_TokenHash p) of
        None \<Rightarrow> Inl (Errorf ''invite not available'')
      | Some row \<Rightarrow>
          if inviteConsumed row then Inl (Errorf ''invite not available'')
          else if iv_ExpiresAt row \<noteq> [] \<and> iv_ExpiresAt row < pe_CreatedAt p then Inl (Errorf ''invite expired'')
          else
            (case getPendingByTokenHashTx d (pe_TokenHash p) of
               Some existing \<Rightarrow>
                 if pe_ExpiresAt existing \<noteq> [] \<and> pe_CreatedAt p \<le> pe_ExpiresAt existing then
                   (if pe_ProtectionTier existing \<noteq> pe_ProtectionTier p then
                      Inl (Errorf ''pending enrollment protection tier changed'')
                    else if pe_PolicyDigest existing \<noteq> pe_PolicyDigest p then
                      Inl (Errorf ''pending enrollment policy changed'')
                    else Inr (existing, d))
                 else
                   bindR (replacePending existing p d) (\<lambda>(updated, d).
                   if updated \<noteq> 1 then Inl (Errorf ''pending enrollment changed concurrently'')
                   else Inr (p, d))
             | None \<Rightarrow> bindR (wrapR ''pending enrollment'' (insertPending p d)) (\<lambda>d. Inr (p, d))))"

definition ReservePendingEnrollment :: "bool \<Rightarrow> Ledger \<Rightarrow> PendingEnrollment \<Rightarrow> PendingEnrollment result \<times> Ledger" where
  "ReservePendingEnrollment commitFails l p =
     (case bindR (validatePendingEnrollment p) (\<lambda>_. reservePendingEnrollmentTx p (l_db l)) of
        Inl e \<Rightarrow> (Inl e, l)
      | Inr (got, d) \<Rightarrow> if commitFails then (Inl ErrIO, l) else (Inr got, l\<lparr> l_db := d \<rparr>))"

definition GetPendingByHandle :: "Ledger \<Rightarrow> string \<Rightarrow> PendingEnrollment option result" where
  "GetPendingByHandle l handle =
     (if handle = [] then Inl (Errorf ''pending enrollment handle required'')
      else Inr (find_row (\<lambda>r. pe_Handle r = handle) (db_pending_enrollment (l_db l))))"

section \<open>Vaults\<close>

text \<open>
  The primary credential: \<open>ORDER BY resident DESC LIMIT 1\<close>. Among equals SQLite may return any row;
  the model takes the first, and \<open>CreateVault\<close> stores only one credential for a vault.
\<close>

definition getVaultCredentialTx :: "db \<Rightarrow> string \<Rightarrow> VaultCredential option" where
  "getVaultCredentialTx d vaultID =
     (case find_row (\<lambda>c. vc_VaultID c = vaultID \<and> vc_Resident c) (db_vault_credential d) of
        Some c \<Rightarrow> Some c
      | None \<Rightarrow> find_row (\<lambda>c. vc_VaultID c = vaultID) (db_vault_credential d))"

definition LoadVault :: "Ledger \<Rightarrow> string \<Rightarrow> (VaultRecord option \<times> VaultCredential option) result" where
  "LoadVault l vaultID =
     (if vaultID = [] then Inl (Errorf ''vault id required'')
      else case find_row (\<lambda>r. vr_VaultID r = vaultID) (db_vault (l_db l)) of
             None \<Rightarrow> Inr (None, None)
           | Some v \<Rightarrow> Inr (Some v, getVaultCredentialTx (l_db l) vaultID))"

definition LoadVerifiedVault :: "Ledger \<Rightarrow> string \<Rightarrow> bytes \<Rightarrow> (VaultRecord option \<times> VaultCredential option) result" where
  "LoadVerifiedVault l vaultID key =
     bindR (LoadVault l vaultID) (\<lambda>(rec, cred).
     case rec of
       None \<Rightarrow> Inr (None, cred)
     | Some v \<Rightarrow>
         bindR (verifyVaultRecord v key) (\<lambda>_.
         case cred of
           None \<Rightarrow> Inr (rec, None)
         | Some c \<Rightarrow> bindR (verifyVaultCredential c key) (\<lambda>_. Inr (rec, cred))))"

definition insertVaultTx :: "VaultRecord \<Rightarrow> VaultCredential \<Rightarrow> CredentialEnvelope option \<Rightarrow> db \<Rightarrow> db result" where
  "insertVaultTx v cred envelope d =
     bindR (insertVault v d) (\<lambda>d.
     bindR (insertVaultCredential cred d) (\<lambda>d.
     case envelope of
       None \<Rightarrow> Inr d
     | Some e \<Rightarrow> insertVaultEnvelopeTx (vr_VaultID v) e d))"

definition ListVaultIDs :: "Ledger \<Rightarrow> string list" where
  "ListVaultIDs l = sort (map vr_VaultID (db_vault (l_db l)))"

section \<open>The recovery envelope\<close>

definition getVaultEnvelope :: "db \<Rightarrow> string \<Rightarrow> CredentialEnvelope option result" where
  "getVaultEnvelope d vaultID =
     (case findEnvelope d vaultID of
        None \<Rightarrow> Inr None
      | Some (_, e) \<Rightarrow> bindR (validateCredentialEnvelope e) (\<lambda>_. Inr (Some e)))"

definition GetVaultEnvelope :: "Ledger \<Rightarrow> string \<Rightarrow> CredentialEnvelope option result" where
  "GetVaultEnvelope l vaultID =
     (if vaultID = [] then Inl (Errorf ''vault id required'') else getVaultEnvelope (l_db l) vaultID)"

definition storeEnvelopeBody :: "Ledger \<Rightarrow> string \<Rightarrow> CredentialEnvelope \<Rightarrow> db \<Rightarrow> db result" where
  "storeEnvelopeBody l vaultID envelope d =
     (case getVaultCredentialTx d vaultID of
        None \<Rightarrow> Inl (Errorf ''vault credential required'')
      | Some cred \<Rightarrow>
          bindR (VerifyVaultEnvelope envelope vaultID (vc_CredentialID cred) (l_integrityKey l)) (\<lambda>_.
          bindR (getVaultEnvelope d vaultID) (\<lambda>existing.
          case existing of
            Some e \<Rightarrow> if envelopesEqual e envelope then Inr d else Inl (Errorf ''credential envelope locked'')
          | None \<Rightarrow> wrapR ''credential envelope locked or failed'' (insertVaultEnvelopeTx vaultID envelope d))))"

definition StoreVaultEnvelopeIfAbsent :: "bool \<Rightarrow> Ledger \<Rightarrow> string \<Rightarrow> CredentialEnvelope \<Rightarrow> unit result \<times> Ledger" where
  "StoreVaultEnvelopeIfAbsent commitFails l vaultID envelope =
     (if vaultID = [] then (Inl (Errorf ''vault id required''), l)
      else case bindR (validateCredentialEnvelope envelope) (\<lambda>_.
          if length (ce_IntegrityMAC envelope) \<noteq> 32 then
            Inl (Errorf ''credential envelope integrity MAC must be 32 bytes'')
          else storeEnvelopeBody l vaultID envelope (l_db l)) of
        Inl e \<Rightarrow> (Inl e, l)
      | Inr d \<Rightarrow> if commitFails then (Inl ErrIO, l) else (Inr (), l\<lparr> l_db := d \<rparr>))"

definition updateEnvelope :: "string \<Rightarrow> CredentialEnvelope \<Rightarrow> db \<Rightarrow> (nat \<times> db) result" where
  "updateEnvelope vaultID e d =
     (let hit = (\<lambda>r. fst r = vaultID); n = affected hit (db_vault_envelope d)
      in if n = 0 then Inr (0, d)
         else if envelope_check e then Inr (n, d\<lparr> db_vault_envelope := update_rows hit (\<lambda>_. (vaultID, e)) (db_vault_envelope d) \<rparr>)
         else Inl ErrConstraint)"

definition replaceEnvelopeBody :: "Ledger \<Rightarrow> string \<Rightarrow> CredentialEnvelope \<Rightarrow> CredentialEnvelope \<Rightarrow> db \<Rightarrow> db result" where
  "replaceEnvelopeBody l vaultID expected replacement d =
     (case getVaultCredentialTx d vaultID of
        None \<Rightarrow> Inl (Errorf ''vault credential required'')
      | Some cred \<Rightarrow>
          bindR (VerifyVaultEnvelope expected vaultID (vc_CredentialID cred) (l_integrityKey l)) (\<lambda>_.
          bindR (VerifyVaultEnvelope replacement vaultID (vc_CredentialID cred) (l_integrityKey l)) (\<lambda>_.
          bindR (getVaultEnvelope d vaultID) (\<lambda>current.
          if (case current of None \<Rightarrow> True | Some e \<Rightarrow> \<not> envelopesEqual e expected) then
            Inl (Errorf ''credential envelope changed during upgrade'')
          else
            bindR (wrapR ''replace credential envelope'' (updateEnvelope vaultID replacement d)) (\<lambda>(rows, d).
            if rows \<noteq> 1 then Inl (Errorf ''replace credential envelope affected %d rows'') else Inr d)))))"

definition ReplaceVaultEnvelope ::
  "bool \<Rightarrow> Ledger \<Rightarrow> string \<Rightarrow> CredentialEnvelope \<Rightarrow> CredentialEnvelope \<Rightarrow> unit result \<times> Ledger" where
  "ReplaceVaultEnvelope commitFails l vaultID expected replacement =
     (if vaultID = [] then (Inl (Errorf ''vault id required''), l)
      else case bindR (validateCredentialEnvelope expected) (\<lambda>_.
          bindR (validateCredentialEnvelope replacement) (\<lambda>_.
          if length (ce_IntegrityMAC expected) \<noteq> 32 \<or> length (ce_IntegrityMAC replacement) \<noteq> 32 then
            Inl (Errorf ''credential envelope integrity MAC must be 32 bytes'')
          else replaceEnvelopeBody l vaultID expected replacement (l_db l))) of
        Inl e \<Rightarrow> (Inl e, l)
      | Inr d \<Rightarrow> if commitFails then (Inl ErrIO, l) else (Inr (), l\<lparr> l_db := d \<rparr>))"

section \<open>Creating a vault\<close>

record CreateVaultInput =
  cv_Record :: VaultRecord
  cv_Credential :: VaultCredential
  cv_Envelope :: "CredentialEnvelope option"
  cv_TokenHash :: bytes
  cv_Pending :: "PendingEnrollment option"

definition validateCreateVaultInput :: "CreateVaultInput \<Rightarrow> unit result" where
  "validateCreateVaultInput input =
     (if vr_VaultID (cv_Record input) = [] then Inl (Errorf ''create vault requires a new opaque vault id'')
      else if vr_CosignerMode (cv_Record input) \<noteq> CosignerModeHKDFSHA256V1 then Inl (Errorf ''new vaults must use %s'')
      else bindR (wrapR ''new vault protection tier''
          (ValidateProtectionTierRecovery (vr_ProtectionTier (cv_Record input)) (length (vr_RecoveryKey (cv_Record input)) > 0))) (\<lambda>_.
        if vc_VaultID (cv_Credential input) \<noteq> vr_VaultID (cv_Record input) then Inl (Errorf ''credential vault id mismatch'')
        else if length (cv_TokenHash input) \<noteq> 32 then Inl (Errorf ''invite token_hash must be 32 bytes'')
        else if length (vr_IntegrityMAC (cv_Record input)) \<noteq> 32 \<or> length (vc_IntegrityMAC (cv_Credential input)) \<noteq> 32 then
          Inl (Errorf ''vault and credential integrity MACs required'')
        else case cv_Pending input of
          None \<Rightarrow> Inr ()
        | Some p \<Rightarrow>
            if pe_Handle p = [] \<or> pe_VaultID p \<noteq> vr_VaultID (cv_Record input) then
              Inl (Errorf ''pending enrollment does not match vault'')
            else if length (pe_Challenge p) = 0 \<or> length (pe_TokenHash p) \<noteq> 32 \<or> length (pe_PolicyDigest p) \<noteq> 32 then
              Inl (Errorf ''pending enrollment challenge required'')
            else if pe_ProtectionTier p \<noteq> vr_ProtectionTier (cv_Record input) then
              Inl (Errorf ''pending enrollment protection tier mismatch'')
            else if pe_TokenHash p \<noteq> cv_TokenHash input then Inl (Errorf ''pending enrollment token mismatch'')
            else Inr ()))"

text \<open>The \<open>WHERE\<close> clause names every column but the creation time.\<close>

definition samePending :: "PendingEnrollment \<Rightarrow> PendingEnrollment \<Rightarrow> bool" where
  "samePending p r \<longleftrightarrow> pe_Handle r = pe_Handle p \<and> pe_TokenHash r = pe_TokenHash p \<and> pe_VaultID r = pe_VaultID p \<and>
     pe_Challenge r = pe_Challenge p \<and> pe_ProtectionTier r = pe_ProtectionTier p \<and>
     pe_PolicyDigest r = pe_PolicyDigest p \<and> pe_ExpiresAt r = pe_ExpiresAt p"

definition consumePendingEnrollmentTx :: "PendingEnrollment option \<Rightarrow> time \<Rightarrow> db \<Rightarrow> db result" where
  "consumePendingEnrollmentTx pending now d =
     (case pending of
        None \<Rightarrow> Inr d
      | Some p \<Rightarrow>
          if pe_ExpiresAt p \<noteq> [] \<and> pe_ExpiresAt p < formatRFC3339 now then Inl (Errorf ''pending enrollment expired'')
          else if affected (samePending p) (db_pending_enrollment d) \<noteq> 1 then Inl (Errorf ''pending enrollment changed'')
          else Inr (d\<lparr> db_pending_enrollment := filter (\<lambda>r. \<not> samePending p r) (db_pending_enrollment d) \<rparr>))"

text \<open>\<open>UPDATE invite SET consumed_vault_id = ?\<close>, which is \<open>UNIQUE\<close> and references the vault.\<close>

definition consumeInvite :: "string \<Rightarrow> bytes \<Rightarrow> db \<Rightarrow> (nat \<times> db) result" where
  "consumeInvite vaultID tokenHash d =
     (let hit = (\<lambda>row. iv_TokenHash row = tokenHash \<and> iv_ConsumedVaultID row = None); n = affected hit (db_invite d)
      in if n = 0 then Inr (0, d)
         else if find_row (\<lambda>row. iv_ConsumedVaultID row = Some vaultID) (db_invite d) = None \<and>
             find_row (\<lambda>v. vr_VaultID v = vaultID) (db_vault d) \<noteq> None then
           Inr (n, d\<lparr> db_invite := update_rows hit (\<lambda>row. row\<lparr> iv_ConsumedVaultID := Some vaultID \<rparr>) (db_invite d) \<rparr>)
         else Inl ErrConstraint)"

text \<open>\<open>PRAGMA foreign_key_check\<close> over the references the schema declares.\<close>

definition foreignKeysClean :: "db \<Rightarrow> bool" where
  "foreignKeysClean d \<longleftrightarrow>
     (let vaults = map vr_VaultID (db_vault d) in
      list_all (\<lambda>c. vc_VaultID c \<in> set vaults) (db_vault_credential d) \<and>
      list_all (\<lambda>e. fst e \<in> set vaults) (db_vault_envelope d) \<and>
      list_all (\<lambda>row. case iv_ConsumedVaultID row of None \<Rightarrow> True | Some v \<Rightarrow> v \<in> set vaults) (db_invite d) \<and>
      list_all (\<lambda>p. pe_TokenHash p \<in> set (map iv_TokenHash (db_invite d))) (db_pending_enrollment d) \<and>
      list_all (\<lambda>r. rs_VaultID r \<in> set vaults) (db_recovery_session d) \<and>
      list_all (\<lambda>r. sc_VaultID r \<in> set vaults) (db_webauthn_sign_count d) \<and>
      list_all (\<lambda>r. vm_VaultID r \<in> set vaults) (db_vault_map d) \<and>
      list_all (\<lambda>r. vo_VaultID r \<in> set vaults) (db_vtxo_operation d) \<and>
      list_all (\<lambda>i. vi_OperationID i \<in> set (map vo_OperationID (db_vtxo_operation d))) (db_vtxo_operation_input d) \<and>
      list_all (\<lambda>e. be_VaultID e \<in> set vaults) (db_vault_board_enrollment d) \<and>
      list_all (\<lambda>b. bo_VaultID b \<in> set (map be_VaultID (db_vault_board_enrollment d))) (db_vault_board_operation d) \<and>
      list_all (\<lambda>a. ba_OperationID a \<in> set (map bo_OperationID (db_vault_board_operation d))) (db_vault_board_authorization d) \<and>
      list_all (\<lambda>x. (bd_OperationID x, bd_Attempt x, bd_Phase x) \<in>
        set (map (\<lambda>a. (ba_OperationID a, ba_Attempt a, ba_Phase a)) (db_vault_board_authorization d))) (db_vault_board_dispatch d) \<and>
      list_all (\<lambda>s. (bs_OperationID s, bs_Attempt s, bs_Phase s) \<in>
          set (map (\<lambda>a. (ba_OperationID a, ba_Attempt a, ba_Phase a)) (db_vault_board_authorization d)) \<and>
        (bs_OperationID s, bs_Attempt s, bs_Phase s) \<in>
          set (map (\<lambda>x. (bd_OperationID x, bd_Attempt x, bd_Phase x)) (db_vault_board_dispatch d))) (db_vault_board_submission d))"

definition requireForeignKeyCheckClean :: "db \<Rightarrow> unit result" where
  "requireForeignKeyCheckClean d =
     (if foreignKeysClean d then Inr () else Inl (Errorf ''foreign key violation: table %s row %d parent %s''))"

definition createVaultBody ::
  "string \<Rightarrow> time \<Rightarrow> time \<Rightarrow> CreateVaultInput \<Rightarrow> VaultBoardEnrollment option \<Rightarrow> db \<Rightarrow> db result" where
  "createVaultBody network t1 t2 input board d =
     (case findInvite d (cv_TokenHash input) of
        None \<Rightarrow> Inl (Wrapf ''invite'' ErrNoRows)
      | Some row \<Rightarrow>
          if iv_ConsumedVaultID row \<noteq> None then Inl (Errorf ''invite already consumed'')
          else if iv_ExpiresAt row \<noteq> [] \<and> iv_ExpiresAt row < formatRFC3339 t1 then Inl (Errorf ''invite expired'')
          else
            bindR (consumePendingEnrollmentTx (cv_Pending input) t2 d) (\<lambda>d.
            bindR (wrapR ''create vault'' (insertVaultTx (cv_Record input) (cv_Credential input) (cv_Envelope input) d)) (\<lambda>d.
            bindR (case board of
                     None \<Rightarrow> Inr d
                   | Some b \<Rightarrow> wrapR ''create vault board'' (PutVaultBoardEnrollmentTx network b d)) (\<lambda>d.
            bindR (wrapR ''consume invite'' (consumeInvite (vr_VaultID (cv_Record input)) (cv_TokenHash input) d)) (\<lambda>(n, d).
            if n \<noteq> 1 then Inl (Errorf ''invite consume cas failed'') else Inr d)))))"

definition createVault ::
  "bool \<Rightarrow> time \<Rightarrow> time \<Rightarrow> Ledger \<Rightarrow> CreateVaultInput \<Rightarrow> VaultBoardEnrollment option \<Rightarrow> unit result \<times> Ledger" where
  "createVault commitFails t1 t2 l input board =
     (case bindR (validateCreateVaultInput input) (\<lambda>_.
          if (case board of None \<Rightarrow> False
              | Some b \<Rightarrow> be_VaultID b \<noteq> vr_VaultID (cv_Record input) \<or> length (be_IntegrityMAC b) \<noteq> 32) then
            Inl (Errorf ''vault-board-v1 enrollment mismatch'')
          else createVaultBody (l_network l) t1 t2 input board (l_db l)) of
        Inl e \<Rightarrow> (Inl e, l)
      | Inr d \<Rightarrow>
          if commitFails then (Inl ErrIO, l)
          else (requireForeignKeyCheckClean d, l\<lparr> l_db := d \<rparr>))"

definition CreateVault :: "bool \<Rightarrow> time \<Rightarrow> time \<Rightarrow> Ledger \<Rightarrow> CreateVaultInput \<Rightarrow> unit result \<times> Ledger" where
  "CreateVault commitFails t1 t2 l input = createVault commitFails t1 t2 l input None"

definition CreateVaultWithBoard ::
  "bool \<Rightarrow> time \<Rightarrow> time \<Rightarrow> Ledger \<Rightarrow> CreateVaultInput \<Rightarrow> VaultBoardEnrollment \<Rightarrow> unit result \<times> Ledger" where
  "CreateVaultWithBoard commitFails t1 t2 l input board = createVault commitFails t1 t2 l input (Some board)"

end
