(* ===== verification/TenantProperties.thy ===== *)
theory TenantProperties
  imports TenantLedger
begin

text \<open>
  What the transactions of the tenants do to the tables: the step relation of the enrollment methods,
  the references of the schema, and the properties of enrollment and of the recovery envelope.
\<close>

section \<open>What the transactions do\<close>

text \<open>The invites are a table that only grows, as far as consumed ones are concerned.\<close>

definition consumedBy :: "db \<Rightarrow> bytes \<Rightarrow> string \<Rightarrow> bool" where
  "consumedBy d tokenHash vaultID \<longleftrightarrow> (\<exists>row. findInvite d tokenHash = Some row \<and> iv_ConsumedVaultID row = Some vaultID)"

lemma find_row_filter:
  assumes "find_row p t = Some r" and "q r"
  shows "find_row p (filter q t) = Some r"
  using assms by (induction t) (auto split: if_splits)

lemma find_row_filter_other: "(\<And>r. p r \<Longrightarrow> q r) \<Longrightarrow> find_row p (filter q t) = find_row p t"
  by (induction t) auto

lemma insertInvite_Inr:
  assumes "insertInvite h e c d = Inr d'"
  shows "d' = d\<lparr> db_invite := db_invite d @ [\<lparr> iv_TokenHash = h, iv_ExpiresAt = e, iv_ConsumedVaultID = None, iv_CreatedAt = c \<rparr>] \<rparr>"
    and "findInvite d h = None" and "length h = 32"
  using assms by (auto simp: insertInvite_def res_simps)

lemma insertInvite_consumed: "insertInvite h e c d = Inr d' \<Longrightarrow> consumedBy d k v \<Longrightarrow> consumedBy d' k v"
  by (auto simp: consumedBy_def findInvite_def find_row_append dest!: insertInvite_Inr(1))

lemma prune_consumed: "consumedBy d k v \<Longrightarrow> consumedBy (pruneInvites cutoff d) k v"
  by (auto simp: consumedBy_def findInvite_def pruneInvites_def staleInvite_def intro!: find_row_filter)

lemma insertVault_Inr:
  "insertVault v d = Inr d' \<Longrightarrow> d' = d\<lparr> db_vault := db_vault d @ [v] \<rparr> \<and> find_row (\<lambda>r. vr_VaultID r = vr_VaultID v) (db_vault d) = None"
  by (auto simp: insertVault_def res_simps)

lemma insertVaultCredential_Inr:
  "insertVaultCredential c d = Inr d' \<Longrightarrow> d' = d\<lparr> db_vault_credential := db_vault_credential d @ [c] \<rparr>"
  by (auto simp: insertVaultCredential_def res_simps)

lemma insertVaultEnvelopeTx_Inr:
  "insertVaultEnvelopeTx v e d = Inr d' \<Longrightarrow>
     d' = d\<lparr> db_vault_envelope := db_vault_envelope d @ [(v, e)] \<rparr> \<and> findEnvelope d v = None \<and> envelope_check e"
  by (auto simp: insertVaultEnvelopeTx_def res_simps)

lemma insertVaultTx_Inr:
  assumes "insertVaultTx v cred envelope d = Inr d'"
  shows "d' = d\<lparr> db_vault := db_vault d @ [v], db_vault_credential := db_vault_credential d @ [cred],
      db_vault_envelope := db_vault_envelope d @ (case envelope of None \<Rightarrow> [] | Some e \<Rightarrow> [(vr_VaultID v, e)]) \<rparr>"
    and "find_row (\<lambda>r. vr_VaultID r = vr_VaultID v) (db_vault d) = None"
    and "envelope = Some e \<Longrightarrow> findEnvelope d (vr_VaultID v) = None \<and> envelope_check e"
proof -
  from assms obtain d1 d2 where one: "insertVault v d = Inr d1" and two: "insertVaultCredential cred d1 = Inr d2"
    and three: "(case envelope of None \<Rightarrow> Inr d2 | Some e \<Rightarrow> insertVaultEnvelopeTx (vr_VaultID v) e d2) = Inr d'"
    unfolding insertVaultTx_def bindR_eq_Inr by blast
  note a = insertVault_Inr [OF one] and b = insertVaultCredential_Inr [OF two]
  show "find_row (\<lambda>r. vr_VaultID r = vr_VaultID v) (db_vault d) = None" using a by simp
  show "d' = d\<lparr> db_vault := db_vault d @ [v], db_vault_credential := db_vault_credential d @ [cred],
      db_vault_envelope := db_vault_envelope d @ (case envelope of None \<Rightarrow> [] | Some e \<Rightarrow> [(vr_VaultID v, e)]) \<rparr>"
    using a b three by (auto split: option.splits dest!: insertVaultEnvelopeTx_Inr)
  show "envelope = Some e \<Longrightarrow> findEnvelope d (vr_VaultID v) = None \<and> envelope_check e"
    using a b three by (auto dest!: insertVaultEnvelopeTx_Inr simp: findEnvelope_def)
qed

lemma consumePending_Inr:
  assumes "consumePendingEnrollmentTx pending now d = Inr d'"
  shows "\<exists>t. d' = d\<lparr> db_pending_enrollment := t \<rparr> \<and> set t \<subseteq> set (db_pending_enrollment d) \<and>
    (\<forall>p. pending = Some p \<longrightarrow> (\<forall>r \<in> set t. \<not> samePending p r))"
proof (cases pending)
  case None
  with assms show ?thesis by (intro exI [of _ "db_pending_enrollment d"]) (simp add: consumePendingEnrollmentTx_def)
next
  case (Some p)
  with assms show ?thesis
    by (intro exI [of _ "filter (\<lambda>r. \<not> samePending p r) (db_pending_enrollment d)"])
      (auto simp: consumePendingEnrollmentTx_def split: if_splits)
qed

lemma PutVaultBoardEnrollmentTx_Inr:
  "PutVaultBoardEnrollmentTx network b d = Inr d' \<Longrightarrow> d' = d\<lparr> db_vault_board_enrollment := db_vault_board_enrollment d @ [b] \<rparr>"
  by (auto simp: PutVaultBoardEnrollmentTx_def insertBoardEnrollment_def res_simps)

lemma consumeInvite_Inr:
  assumes "consumeInvite v h d = Inr (1, d')"
  shows "d' = d\<lparr> db_invite := update_rows (\<lambda>row. iv_TokenHash row = h \<and> iv_ConsumedVaultID row = None)
      (\<lambda>row. row\<lparr> iv_ConsumedVaultID := Some v \<rparr>) (db_invite d) \<rparr>"
  using assms by (auto simp: consumeInvite_def Let_def split: if_splits)

text \<open>The database after a vault was created.\<close>

lemma createVaultBody_Inr:
  assumes "createVaultBody network t1 t2 input board d = Inr d'"
  obtains row t where "findInvite d (cv_TokenHash input) = Some row" and "iv_ConsumedVaultID row = None"
    and "iv_ExpiresAt row \<noteq> [] \<Longrightarrow> formatRFC3339 t1 \<le> iv_ExpiresAt row"
    and "set t \<subseteq> set (db_pending_enrollment d)"
    and "\<And>p r. cv_Pending input = Some p \<Longrightarrow> r \<in> set t \<Longrightarrow> \<not> samePending p r"
    and "find_row (\<lambda>r. vr_VaultID r = vr_VaultID (cv_Record input)) (db_vault d) = None"
    and "\<And>e. cv_Envelope input = Some e \<Longrightarrow> findEnvelope d (vr_VaultID (cv_Record input)) = None \<and> envelope_check e"
    and "d' = d\<lparr> db_pending_enrollment := t, db_vault := db_vault d @ [cv_Record input],
      db_vault_credential := db_vault_credential d @ [cv_Credential input],
      db_vault_envelope := db_vault_envelope d @ (case cv_Envelope input of None \<Rightarrow> [] | Some e \<Rightarrow> [(vr_VaultID (cv_Record input), e)]),
      db_vault_board_enrollment := db_vault_board_enrollment d @ (case board of None \<Rightarrow> [] | Some b \<Rightarrow> [b]),
      db_invite := update_rows (\<lambda>row. iv_TokenHash row = cv_TokenHash input \<and> iv_ConsumedVaultID row = None)
        (\<lambda>row. row\<lparr> iv_ConsumedVaultID := Some (vr_VaultID (cv_Record input)) \<rparr>) (db_invite d) \<rparr>"
proof -
  let ?v = "cv_Record input"
  obtain row where row: "findInvite d (cv_TokenHash input) = Some row" "iv_ConsumedVaultID row = None"
    "iv_ExpiresAt row \<noteq> [] \<Longrightarrow> formatRFC3339 t1 \<le> iv_ExpiresAt row"
    using assms by (auto simp: createVaultBody_def split: option.splits if_splits)
  from assms row(1,2) obtain d1 d2 d3 n where one: "consumePendingEnrollmentTx (cv_Pending input) t2 d = Inr d1"
    and two: "insertVaultTx ?v (cv_Credential input) (cv_Envelope input) d1 = Inr d2"
    and three: "(case board of None \<Rightarrow> Inr d2 | Some b \<Rightarrow> wrapR ''create vault board'' (PutVaultBoardEnrollmentTx network b d2)) = Inr d3"
    and four: "consumeInvite (vr_VaultID ?v) (cv_TokenHash input) d3 = Inr (1, d')"
    by (auto simp: createVaultBody_def res_simps split: if_splits prod.splits)
  from consumePending_Inr [OF one] obtain t where t: "d1 = d\<lparr> db_pending_enrollment := t \<rparr>" "set t \<subseteq> set (db_pending_enrollment d)"
    "\<And>p r. cv_Pending input = Some p \<Longrightarrow> r \<in> set t \<Longrightarrow> \<not> samePending p r" by blast
  note v = insertVaultTx_Inr [OF two]
  have three': "d3 = d2\<lparr> db_vault_board_enrollment := db_vault_board_enrollment d2 @ (case board of None \<Rightarrow> [] | Some b \<Rightarrow> [b]) \<rparr>"
    using three by (auto simp: res_simps split: option.splits dest!: PutVaultBoardEnrollmentTx_Inr)
  show thesis
    by (rule that [OF row t(2,3)])
      (use v(2,3) in \<open>simp_all add: consumeInvite_Inr [OF four] three' v(1) t(1) findEnvelope_def\<close>)
qed

lemma find_row_update_rows:
  assumes "\<And>r. p (f r) = p r"
  shows "find_row p (update_rows q f t) = map_option (\<lambda>r. if q r then f r else r) (find_row p t)"
  using assms by (induction t) (auto simp: update_rows_def)

lemma createVaultBody_consumes:
  assumes "createVaultBody network t1 t2 input board d = Inr d'"
  shows "consumedBy d' (cv_TokenHash input) (vr_VaultID (cv_Record input))"
    and "consumedBy d k v \<Longrightarrow> consumedBy d' k v" and "\<not> consumedBy d (cv_TokenHash input) v"
proof -
  obtain row t where row: "findInvite d (cv_TokenHash input) = Some row" "iv_ConsumedVaultID row = None"
    and d': "db_invite d' = update_rows (\<lambda>row. iv_TokenHash row = cv_TokenHash input \<and> iv_ConsumedVaultID row = None)
        (\<lambda>row. row\<lparr> iv_ConsumedVaultID := Some (vr_VaultID (cv_Record input)) \<rparr>) (db_invite d)"
    by (rule createVaultBody_Inr [OF assms]) simp
  have look: "findInvite d' h = map_option (\<lambda>row. if iv_TokenHash row = cv_TokenHash input \<and> iv_ConsumedVaultID row = None
      then row\<lparr> iv_ConsumedVaultID := Some (vr_VaultID (cv_Record input)) \<rparr> else row) (findInvite d h)" for h
    unfolding findInvite_def d' by (rule find_row_update_rows) simp
  have "iv_TokenHash row = cv_TokenHash input" using row(1) by (auto simp: findInvite_def dest: find_row_Some)
  with row show "consumedBy d' (cv_TokenHash input) (vr_VaultID (cv_Record input))" by (simp add: consumedBy_def look)
  show "consumedBy d' k v" if "consumedBy d k v"
  proof -
    from that obtain r where "findInvite d k = Some r" "iv_ConsumedVaultID r = Some v" by (auto simp: consumedBy_def)
    then show ?thesis by (simp add: consumedBy_def look)
  qed
  show "\<not> consumedBy d (cv_TokenHash input) v" using row by (simp add: consumedBy_def)
qed

lemma createVault_cases:
  assumes "createVault cf t1 t2 l input board = (r, l')"
  obtains (refused) e where "r = Inl e" and "l' = l"
  | (made) d where "createVaultBody (l_network l) t1 t2 input board (l_db l) = Inr d" and "l' = l\<lparr> l_db := d \<rparr>"
      and "r = requireForeignKeyCheckClean d" and "validateCreateVaultInput input = Inr ()"
      and "\<And>b. board = Some b \<Longrightarrow> be_VaultID b = vr_VaultID (cv_Record input)"
proof (cases "bindR (validateCreateVaultInput input) (\<lambda>_.
          if (case board of None \<Rightarrow> False
              | Some b \<Rightarrow> be_VaultID b \<noteq> vr_VaultID (cv_Record input) \<or> length (be_IntegrityMAC b) \<noteq> 32) then
            Inl (Errorf ''vault-board-v1 enrollment mismatch'')
          else createVaultBody (l_network l) t1 t2 input board (l_db l))")
  case (Inl e)
  with assms refused show thesis by (auto simp: createVault_def)
next
  case (Inr d)
  show thesis
  proof (cases cf)
    case True
    with assms Inr refused show thesis by (auto simp: createVault_def)
  next
    case False
    with assms Inr have "l' = l\<lparr> l_db := d \<rparr>" "r = requireForeignKeyCheckClean d" by (auto simp: createVault_def)
    moreover from Inr have "validateCreateVaultInput input = Inr ()" "createVaultBody (l_network l) t1 t2 input board (l_db l) = Inr d"
      "\<And>b. board = Some b \<Longrightarrow> be_VaultID b = vr_VaultID (cv_Record input)"
      by (auto simp: bindR_eq_Inr split: if_splits option.splits)
    ultimately show thesis by (intro made)
  qed
qed

text \<open>Runs of the enrollment methods, with anything else that leaves the invites alone.\<close>

inductive enrollStep :: "Ledger \<Rightarrow> Ledger \<Rightarrow> bool" where
  put: "PutInvite l h e c = (r1, l') \<Longrightarrow> enrollStep l l'"
| issue: "IssueEnrollmentSession cf l h now = (r2, l') \<Longrightarrow> enrollStep l l'"
| reserve: "ReservePendingEnrollment cf l p = (r3, l') \<Longrightarrow> enrollStep l l'"
| create: "createVault cf t1 t2 l input board = (r4, l') \<Longrightarrow> enrollStep l l'"
| frame: "db_invite (l_db l') = db_invite (l_db l) \<Longrightarrow> enrollStep l l'"

lemma put_cases: "PutInvite l h e c = (r, l') \<Longrightarrow> l' = l \<or> (\<exists>d. insertInvite h e c (l_db l) = Inr d \<and> l' = l\<lparr> l_db := d \<rparr>)"
  by (auto simp: PutInvite_def split: if_splits sum.splits)

lemma issue_cases:
  assumes "IssueEnrollmentSession cf l h now = (r, l')"
  obtains (refused) e where "r = Inl e" and "l' = l"
  | (issued) d where "insertInvite h (formatRFC3339 (now + 10 * Minute)) (formatRFC3339 now)
        (pruneInvites (formatRFC3339 (now - 24 * Hour)) (l_db l)) = Inr d"
      and "l' = l\<lparr> l_db := d \<rparr>" and "r = Inr (now + 10 * Minute)"
      and "affected (\<lambda>row. formatRFC3339 (now - Minute) \<le> iv_CreatedAt row) (db_invite (pruneInvites (formatRFC3339 (now - 24 * Hour)) (l_db l))) < 30"
      and "affected (\<lambda>row. iv_ConsumedVaultID row = None \<and> formatRFC3339 now \<le> iv_ExpiresAt row)
        (db_invite (pruneInvites (formatRFC3339 (now - 24 * Hour)) (l_db l))) < 1000"
proof -
  let ?d = "pruneInvites (formatRFC3339 (now - 24 * Hour)) (l_db l)"
  let ?recent = "affected (\<lambda>row. formatRFC3339 (now - Minute) \<le> iv_CreatedAt row) (db_invite ?d)"
  let ?active = "affected (\<lambda>row. iv_ConsumedVaultID row = None \<and> formatRFC3339 now \<le> iv_ExpiresAt row) (db_invite ?d)"
  let ?ins = "insertInvite h (formatRFC3339 (now + 10 * Minute)) (formatRFC3339 now) ?d"
  have call: "(r, l') = (if length h \<noteq> 32 then (Inl (Errorf ''enrollment token hash must be 32 bytes''), l)
      else if 30 \<le> ?recent \<or> 1000 \<le> ?active then (Inl (Errorf ''setup is busy; try again shortly''), l)
      else case ?ins of Inl e \<Rightarrow> (Inl e, l)
        | Inr d \<Rightarrow> if cf then (Inl ErrIO, l) else (Inr (now + 10 * Minute), l\<lparr> l_db := d \<rparr>))"
    using assms unfolding IssueEnrollmentSession_def Let_def by simp
  show thesis
  proof (cases "length h \<noteq> 32 \<or> 30 \<le> ?recent \<or> 1000 \<le> ?active")
    case True
    with call have "\<exists>e. r = Inl e" "l' = l" by (simp_all split: if_splits)
    with refused show thesis by blast
  next
    case small: False
    show thesis
    proof (cases ?ins)
      case (Inl e)
      with call small refused show thesis by simp
    next
      case (Inr d)
      with call small refused issued show thesis by (cases cf) simp_all
    qed
  qed
qed

lemma reserve_invites:
  assumes "ReservePendingEnrollment cf l p = (r, l')"
  shows "db_invite (l_db l') = db_invite (l_db l)"
proof -
  have "db_invite d = db_invite (l_db l)" if "reservePendingEnrollmentTx p (l_db l) = Inr (got, d)" for got d
    using that by (auto simp: reservePendingEnrollmentTx_def replacePending_def insertPending_def res_simps Let_def
        split: option.splits if_splits)
  with assms show ?thesis
    by (auto simp: ReservePendingEnrollment_def res_simps split: sum.splits if_splits prod.splits)
qed

lemma enrollStep_consumed: "enrollStep l l' \<Longrightarrow> consumedBy (l_db l) k v \<Longrightarrow> consumedBy (l_db l') k v"
proof (induction rule: enrollStep.induct)
  case (put l h e c r1 l')
  with put_cases [OF put(1)] show ?case by (auto dest: insertInvite_consumed)
next
  case (issue cf l h now r2 l')
  from issue(1) show ?case
  proof (cases rule: issue_cases)
    case (issued d)
    with insertInvite_consumed [OF issued(1) prune_consumed [OF issue(2)]] show ?thesis by simp
  qed (use issue(2) in simp)
next
  case (reserve cf l p r3 l')
  with reserve_invites [OF reserve(1)] show ?case by (simp add: consumedBy_def findInvite_def)
next
  case (create cf t1 t2 l input board r4 l')
  from create(1) show ?case
  proof (cases rule: createVault_cases)
    case (made d)
    with createVaultBody_consumes(2) [OF made(1) create(2)] show ?thesis by simp
  qed (use create(2) in simp)
qed (simp add: consumedBy_def findInvite_def)

lemma enrollRun_consumed: "enrollStep\<^sup>*\<^sup>* l l' \<Longrightarrow> consumedBy (l_db l) k v \<Longrightarrow> consumedBy (l_db l') k v"
  by (induction rule: rtranclp_induct) (auto dest: enrollStep_consumed)

lemma createVaultBody_clean:
  assumes "createVaultBody network t1 t2 input board d = Inr d'" and clean: "foreignKeysClean d"
    and "vc_VaultID (cv_Credential input) = vr_VaultID (cv_Record input)"
    and "\<And>b. board = Some b \<Longrightarrow> be_VaultID b = vr_VaultID (cv_Record input)"
  shows "foreignKeysClean d'"
  using assms(1)
proof (rule createVaultBody_Inr)
  fix row t
  let ?v = "vr_VaultID (cv_Record input)"
  let ?inv = "update_rows (\<lambda>row. iv_TokenHash row = cv_TokenHash input \<and> iv_ConsumedVaultID row = None)
        (\<lambda>row. row\<lparr> iv_ConsumedVaultID := Some ?v \<rparr>) (db_invite d)"
  assume t: "set t \<subseteq> set (db_pending_enrollment d)"
    and d': "d' = d\<lparr> db_pending_enrollment := t, db_vault := db_vault d @ [cv_Record input],
      db_vault_credential := db_vault_credential d @ [cv_Credential input],
      db_vault_envelope := db_vault_envelope d @ (case cv_Envelope input of None \<Rightarrow> [] | Some e \<Rightarrow> [(?v, e)]),
      db_vault_board_enrollment := db_vault_board_enrollment d @ (case board of None \<Rightarrow> [] | Some b \<Rightarrow> [b]),
      db_invite := ?inv \<rparr>"
  have tokens: "map iv_TokenHash ?inv = map iv_TokenHash (db_invite d)" by (auto simp: update_rows_def)
  note cl = clean [unfolded foreignKeysClean_def Let_def]
  have p: "list_all (\<lambda>p. pe_TokenHash p \<in> set (map iv_TokenHash ?inv)) t"
    using cl t unfolding tokens by (auto simp: list_all_iff)
  have i: "list_all (\<lambda>row. case iv_ConsumedVaultID row of None \<Rightarrow> True | Some v \<Rightarrow> v \<in> set (map vr_VaultID (db_vault d @ [cv_Record input]))) ?inv"
    using cl by (auto simp: list_all_iff update_rows_def split: option.splits)
  have b: "list_all (\<lambda>e. be_VaultID e \<in> set (map vr_VaultID (db_vault d @ [cv_Record input])))
      (db_vault_board_enrollment d @ (case board of None \<Rightarrow> [] | Some b \<Rightarrow> [b]))"
    using cl assms(4) by (auto simp: list_all_iff split: option.splits)
  have e: "list_all (\<lambda>e. fst e \<in> set (map vr_VaultID (db_vault d @ [cv_Record input])))
      (db_vault_envelope d @ (case cv_Envelope input of None \<Rightarrow> [] | Some e \<Rightarrow> [(?v, e)]))"
    using cl by (auto simp: list_all_iff split: option.splits)
  have o: "list_all (\<lambda>b. bo_VaultID b \<in> set (map be_VaultID (db_vault_board_enrollment d @ (case board of None \<Rightarrow> [] | Some b \<Rightarrow> [b]))))
      (db_vault_board_operation d)" using cl by (auto simp: list_all_iff)
  have rest: "list_all (\<lambda>c. vc_VaultID c \<in> set (map vr_VaultID (db_vault d @ [cv_Record input]))) (db_vault_credential d @ [cv_Credential input])"
    "list_all (\<lambda>r. rs_VaultID r \<in> set (map vr_VaultID (db_vault d @ [cv_Record input]))) (db_recovery_session d)"
    "list_all (\<lambda>r. sc_VaultID r \<in> set (map vr_VaultID (db_vault d @ [cv_Record input]))) (db_webauthn_sign_count d)"
    "list_all (\<lambda>r. vm_VaultID r \<in> set (map vr_VaultID (db_vault d @ [cv_Record input]))) (db_vault_map d)"
    "list_all (\<lambda>r. vo_VaultID r \<in> set (map vr_VaultID (db_vault d @ [cv_Record input]))) (db_vtxo_operation d)"
    using cl assms(3) by (auto simp: list_all_iff)
  have tables: "db_vault d' = db_vault d @ [cv_Record input]" "db_invite d' = ?inv" "db_pending_enrollment d' = t"
    "db_vault_credential d' = db_vault_credential d @ [cv_Credential input]"
    "db_vault_envelope d' = db_vault_envelope d @ (case cv_Envelope input of None \<Rightarrow> [] | Some e \<Rightarrow> [(?v, e)])"
    "db_vault_board_enrollment d' = db_vault_board_enrollment d @ (case board of None \<Rightarrow> [] | Some b \<Rightarrow> [b])"
    "db_recovery_session d' = db_recovery_session d" "db_webauthn_sign_count d' = db_webauthn_sign_count d"
    "db_vault_map d' = db_vault_map d" "db_vtxo_operation d' = db_vtxo_operation d"
    "db_vtxo_operation_input d' = db_vtxo_operation_input d" "db_vault_board_operation d' = db_vault_board_operation d"
    "db_vault_board_authorization d' = db_vault_board_authorization d" "db_vault_board_dispatch d' = db_vault_board_dispatch d"
    "db_vault_board_submission d' = db_vault_board_submission d"
    by (simp_all add: d')
  show ?thesis
    unfolding foreignKeysClean_def Let_def tables by (intro conjI) (fact p i b e o rest | use cl in blast)+
qed

lemma validateCreateVaultInput_Inr:
  assumes "validateCreateVaultInput input = Inr ()"
  shows "vr_VaultID (cv_Record input) \<noteq> []" and "vc_VaultID (cv_Credential input) = vr_VaultID (cv_Record input)"
  using assms by (auto simp: validateCreateVaultInput_def res_simps split: if_splits)

lemma foreignKeysCleanD:
  assumes "foreignKeysClean d" and "find_row (\<lambda>r. vr_VaultID r = v) (db_vault d) = None"
  shows "c \<in> set (db_vault_credential d) \<Longrightarrow> vc_VaultID c \<noteq> v" and "findEnvelope d v = None"
proof -
  have v: "v \<notin> set (map vr_VaultID (db_vault d))" using assms(2) by (auto simp: find_row_None)
  show "c \<in> set (db_vault_credential d) \<Longrightarrow> vc_VaultID c \<noteq> v"
    using assms(1) v by (auto simp: foreignKeysClean_def Let_def list_all_iff)
  show "findEnvelope d v = None"
    using assms(1) v by (auto simp: foreignKeysClean_def Let_def list_all_iff findEnvelope_def find_row_None)
qed

lemma createVault_loads:
  assumes body: "createVaultBody network t1 t2 input board d = Inr d'" and clean: "foreignKeysClean d"
    and val: "validateCreateVaultInput input = Inr ()"
  shows "find_row (\<lambda>r. vr_VaultID r = vr_VaultID (cv_Record input)) (db_vault d') = Some (cv_Record input)"
    and "getVaultCredentialTx d' (vr_VaultID (cv_Record input)) = Some (cv_Credential input)"
    and "findEnvelope d' (vr_VaultID (cv_Record input)) = map_option (\<lambda>e. (vr_VaultID (cv_Record input), e)) (cv_Envelope input)"
    and "cv_Pending input = Some p \<Longrightarrow> affected (samePending p) (db_pending_enrollment d') = 0"
proof -
  let ?v = "vr_VaultID (cv_Record input)"
  obtain t where t: "\<And>p r. cv_Pending input = Some p \<Longrightarrow> r \<in> set t \<Longrightarrow> \<not> samePending p r" and pend: "db_pending_enrollment d' = t"
    and fresh: "find_row (\<lambda>r. vr_VaultID r = ?v) (db_vault d) = None"
    and d': "db_vault d' = db_vault d @ [cv_Record input]" "db_vault_credential d' = db_vault_credential d @ [cv_Credential input]"
      "db_vault_envelope d' = db_vault_envelope d @ (case cv_Envelope input of None \<Rightarrow> [] | Some e \<Rightarrow> [(?v, e)])"
    by (rule createVaultBody_Inr [OF body]) simp
  note cred = validateCreateVaultInput_Inr(2) [OF val]
  note none = foreignKeysCleanD [OF clean fresh]
  show "find_row (\<lambda>r. vr_VaultID r = ?v) (db_vault d') = Some (cv_Record input)" using fresh by (simp add: d' find_row_append)
  have "find_row (\<lambda>c. vc_VaultID c = ?v \<and> q c) (db_vault_credential d) = None" for q
    using none(1) by (auto simp: find_row_None)
  moreover from this [of "\<lambda>_. True"] have "find_row (\<lambda>c. vc_VaultID c = ?v) (db_vault_credential d) = None" by simp
  ultimately show "getVaultCredentialTx d' ?v = Some (cv_Credential input)"
    using cred by (simp add: getVaultCredentialTx_def d' find_row_append)
  show "findEnvelope d' ?v = map_option (\<lambda>e. (?v, e)) (cv_Envelope input)"
    using none(2) by (auto simp: findEnvelope_def d' find_row_append split: option.splits)
  show "cv_Pending input = Some p \<Longrightarrow> affected (samePending p) (db_pending_enrollment d') = 0"
    using t by (simp add: pend affected_def filter_empty_conv)
qed

lemma reserve_found:
  assumes "reservePendingEnrollmentTx p d = Inr (got, d')" and "pe_ExpiresAt p \<noteq> []"
  shows "getPendingByTokenHashTx d' (pe_TokenHash p) = Some got"
    and "pe_ProtectionTier got = pe_ProtectionTier p" and "pe_PolicyDigest got = pe_PolicyDigest p"
    and "pe_ExpiresAt got \<noteq> []" and "db_invite d' = db_invite d"
    and "\<exists>row. getInvite d (pe_TokenHash p) = Some row \<and> \<not> inviteConsumed row"
proof -
  from assms(1) obtain row where row: "getInvite d (pe_TokenHash p) = Some row" "\<not> inviteConsumed row"
    by (auto simp: reservePendingEnrollmentTx_def split: option.splits if_splits)
  then show "\<exists>row. getInvite d (pe_TokenHash p) = Some row \<and> \<not> inviteConsumed row" by blast
  have "getPendingByTokenHashTx d' (pe_TokenHash p) = Some got \<and> pe_ProtectionTier got = pe_ProtectionTier p \<and>
    pe_PolicyDigest got = pe_PolicyDigest p \<and> pe_ExpiresAt got \<noteq> [] \<and> db_invite d' = db_invite d"
  proof (cases "getPendingByTokenHashTx d (pe_TokenHash p)")
    case None
    with assms row show ?thesis
      by (auto simp: reservePendingEnrollmentTx_def res_simps insertPending_def getPendingByTokenHashTx_def find_row_append split: if_splits)
  next
    case (Some old)
    show ?thesis
    proof (cases "pe_ExpiresAt old \<noteq> [] \<and> pe_CreatedAt p \<le> pe_ExpiresAt old")
      case True
      with assms row Some show ?thesis by (auto simp: reservePendingEnrollmentTx_def split: if_splits)
    next
      case False
      let ?hit = "\<lambda>r. pe_TokenHash r = pe_TokenHash p \<and> pe_Handle r = pe_Handle old \<and> pe_Challenge r = pe_Challenge old"
      from assms(1) row Some False have "replacePending old p d = Inr (1, d')" and got: "got = p"
        by (auto simp: reservePendingEnrollmentTx_def res_simps split: if_splits prod.splits)
      then have d': "d' = d\<lparr> db_pending_enrollment := update_rows ?hit (\<lambda>_. p) (db_pending_enrollment d) \<rparr>"
        by (auto simp: replacePending_def Let_def split: if_splits)
      from Some have old: "?hit old" "find_row (\<lambda>r. pe_TokenHash r = pe_TokenHash p) (db_pending_enrollment d) = Some old"
        by (auto simp: getPendingByTokenHashTx_def dest: find_row_Some)
      have "find_row (\<lambda>r. pe_TokenHash r = pe_TokenHash p) (update_rows ?hit (\<lambda>_. p) t) = Some p"
        if "find_row (\<lambda>r. pe_TokenHash r = pe_TokenHash p) t = Some old" for t
        using that old(1) by (induction t) (auto simp: update_rows_def split: if_splits)
      with old(2) assms(2) got d' show ?thesis by (simp add: getPendingByTokenHashTx_def)
    qed
  qed
  then show "getPendingByTokenHashTx d' (pe_TokenHash p) = Some got" "pe_ProtectionTier got = pe_ProtectionTier p"
    "pe_PolicyDigest got = pe_PolicyDigest p" "pe_ExpiresAt got \<noteq> []" "db_invite d' = db_invite d" by simp_all
qed

lemma reserve_cases:
  assumes "ReservePendingEnrollment cf l p = (Inr got, l')"
  obtains d' where "reservePendingEnrollmentTx p (l_db l) = Inr (got, d')" and "l' = l\<lparr> l_db := d' \<rparr>"
    and "pe_ExpiresAt p \<noteq> []" and "\<not> cf"
  using assms
  by (auto simp: ReservePendingEnrollment_def res_simps validatePendingEnrollment_def split: sum.splits if_splits prod.splits)

lemma reserve_again:
  assumes "getPendingByTokenHashTx d (pe_TokenHash p') = Some got" and "pe_ExpiresAt got \<noteq> []"
    and "getInvite d (pe_TokenHash p') = Some row" and "\<not> inviteConsumed row" and "pe_CreatedAt p' \<le> iv_ExpiresAt row"
    and "pe_CreatedAt p' \<le> pe_ExpiresAt got"
  shows "reservePendingEnrollmentTx p' d =
    (if pe_ProtectionTier got \<noteq> pe_ProtectionTier p' then Inl (Errorf ''pending enrollment protection tier changed'')
     else if pe_PolicyDigest got \<noteq> pe_PolicyDigest p' then Inl (Errorf ''pending enrollment policy changed'')
     else Inr (got, d))"
proof -
  have "\<not> (iv_ExpiresAt row \<noteq> [] \<and> iv_ExpiresAt row < pe_CreatedAt p')" using assms(5) by auto
  with assms show ?thesis unfolding reservePendingEnrollmentTx_def by simp
qed

text \<open>The envelopes as a partial map, and what the two writers do to it.\<close>

definition envelopes :: "Ledger \<Rightarrow> string \<Rightarrow> CredentialEnvelope option" where
  "envelopes l = (\<lambda>vaultID. map_option snd (findEnvelope (l_db l) vaultID))"

lemma store_envelope:
  assumes "StoreVaultEnvelopeIfAbsent cf l v e = (r, l')"
  obtains (refused) err where "r = Inl err" and "l' = l"
  | (stored) c where "r = Inr ()" and "envelopes l v \<in> {None, Some e}" and "envelopes l' = (envelopes l)(v \<mapsto> e)"
      and "getVaultCredentialTx (l_db l) v = Some c" and "VerifyVaultEnvelope e v (vc_CredentialID c) (l_integrityKey l) = Inr ()"
proof (cases "fst (StoreVaultEnvelopeIfAbsent cf l v e)")
  case (Inl err)
  then have "snd (StoreVaultEnvelopeIfAbsent cf l v e) = l"
    by (auto simp: StoreVaultEnvelopeIfAbsent_def split: if_splits sum.splits)
  with Inl assms refused show thesis by simp
next
  case (Inr u)
  then obtain d where body: "storeEnvelopeBody l v e (l_db l) = Inr d" and l': "l' = l\<lparr> l_db := d \<rparr>"
    using assms by (auto simp: StoreVaultEnvelopeIfAbsent_def res_simps split: if_splits sum.splits)
  from body obtain c old where c: "getVaultCredentialTx (l_db l) v = Some c"
    and ver: "VerifyVaultEnvelope e v (vc_CredentialID c) (l_integrityKey l) = Inr ()"
    and old: "getVaultEnvelope (l_db l) v = Inr old"
    and put: "(case old of Some e' \<Rightarrow> if envelopesEqual e' e then Inr (l_db l) else Inl (Errorf ''credential envelope locked'')
        | None \<Rightarrow> wrapR ''credential envelope locked or failed'' (insertVaultEnvelopeTx v e (l_db l))) = Inr d"
    by (auto simp: storeEnvelopeBody_def bindR_eq_Inr split: option.splits)
  have cur: "envelopes l v = old" using old
    by (auto simp: envelopes_def getVaultEnvelope_def res_simps split: option.splits)
  show thesis
  proof (rule stored [OF _ _ _ c ver])
    show "r = Inr ()" using Inr assms by simp
    show "envelopes l v \<in> {None, Some e}" using put cur by (auto split: option.splits if_splits)
    show "envelopes l' = (envelopes l)(v \<mapsto> e)"
    proof (cases old)
      case None
      with put l' have "l' = l\<lparr> l_db := (l_db l)\<lparr> db_vault_envelope := db_vault_envelope (l_db l) @ [(v, e)] \<rparr> \<rparr>"
        by (auto simp: wrapR_eq_Inr dest!: insertVaultEnvelopeTx_Inr)
      with cur None show ?thesis
        by (auto simp: envelopes_def findEnvelope_def find_row_append fun_eq_iff split: option.splits)
    next
      case (Some e')
      with put cur l' show ?thesis by (auto simp: fun_eq_iff envelopes_def split: if_splits)
    qed
  qed
qed

lemma replace_envelope:
  assumes "ReplaceVaultEnvelope cf l v e f = (r, l')"
  obtains (refused) err where "r = Inl err" and "l' = l"
  | (replaced) c where "r = Inr ()" and "envelopes l v = Some e" and "envelopes l' = (envelopes l)(v \<mapsto> f)"
      and "getVaultCredentialTx (l_db l) v = Some c" and "VerifyVaultEnvelope f v (vc_CredentialID c) (l_integrityKey l) = Inr ()"
proof (cases "fst (ReplaceVaultEnvelope cf l v e f)")
  case (Inl err)
  then have "snd (ReplaceVaultEnvelope cf l v e f) = l"
    by (auto simp: ReplaceVaultEnvelope_def split: if_splits sum.splits)
  with Inl assms refused show thesis by simp
next
  case (Inr u)
  let ?hit = "\<lambda>r. fst r = v"
  from Inr obtain d where body: "replaceEnvelopeBody l v e f (l_db l) = Inr d" and l': "l' = l\<lparr> l_db := d \<rparr>"
    using assms by (auto simp: ReplaceVaultEnvelope_def res_simps split: if_splits sum.splits)
  from body obtain c where c: "getVaultCredentialTx (l_db l) v = Some c"
    and ver: "VerifyVaultEnvelope f v (vc_CredentialID c) (l_integrityKey l) = Inr ()"
    and old: "getVaultEnvelope (l_db l) v = Inr (Some e)" and up: "updateEnvelope v f (l_db l) = Inr (1, d)"
    by (auto simp: replaceEnvelopeBody_def bindR_eq_Inr wrapR_eq_Inr split: option.splits if_splits prod.splits)
  have cur: "findEnvelope (l_db l) v = Some (v, e)" using old
    by (auto simp: getVaultEnvelope_def res_simps findEnvelope_def split: option.splits dest: find_row_Some)
  have "d = (l_db l)\<lparr> db_vault_envelope := update_rows ?hit (\<lambda>_. (v, f)) (db_vault_envelope (l_db l)) \<rparr>"
    using up by (auto simp: updateEnvelope_def Let_def split: if_splits)
  moreover have "find_row (\<lambda>r. fst r = w) (update_rows ?hit (\<lambda>_. (v, f)) t) =
      map_option (\<lambda>r. if ?hit r then (v, f) else r) (find_row (\<lambda>r. fst r = w) t)" for w and t :: "(string \<times> CredentialEnvelope) list"
    by (induction t) (auto simp: update_rows_def)
  ultimately have new: "findEnvelope d w = map_option (\<lambda>r. if ?hit r then (v, f) else r) (findEnvelope (l_db l) w)" for w
    by (simp add: findEnvelope_def)
  have "envelopes l' w = ((envelopes l)(v \<mapsto> f)) w" for w
  proof (cases "w = v")
    case True
    then show ?thesis by (simp add: envelopes_def l' new cur)
  next
    case False
    then have "findEnvelope (l_db l) w = Some x \<Longrightarrow> fst x \<noteq> v" for x by (auto simp: findEnvelope_def dest: find_row_Some)
    with False show ?thesis by (cases "findEnvelope (l_db l) w") (auto simp: envelopes_def l' new)
  qed
  then have "envelopes l' = (envelopes l)(v \<mapsto> f)" by blast
  with Inr assms cur c ver show thesis by (intro replaced) (auto simp: envelopes_def)
qed

lemma SealVaultEnvelope_verifies:
  assumes "SealVaultEnvelope e v c key = Inr e'"
  shows "VerifyVaultEnvelope e' v c key = Inr ()" and "validateCredentialEnvelope e' = Inr ()"
proof -
  have val: "validateCredentialEnvelope (e\<lparr> ce_IntegrityMAC := m \<rparr>) = Inr ()"
    if "validateCredentialEnvelope e = Inr ()" and "length m = 32" for m
    using that by (auto simp: validateCredentialEnvelope_def split: if_splits)
  show "VerifyVaultEnvelope e' v c key = Inr ()" "validateCredentialEnvelope e' = Inr ()"
    using assms
    by (auto simp: SealVaultEnvelope_def VerifyVaultEnvelope_def vaultEnvelopeMAC_def bindR_eq_Inr val vaultEnvelopePayload_def)
qed

lemma createVault_isolated:
  assumes body: "createVaultBody network t1 t2 input board d = Inr d'" and val: "validateCreateVaultInput input = Inr ()"
    and "w \<noteq> vr_VaultID (cv_Record input)"
  shows "find_row (\<lambda>r. vr_VaultID r = w) (db_vault d') = find_row (\<lambda>r. vr_VaultID r = w) (db_vault d)"
    and "getVaultCredentialTx d' w = getVaultCredentialTx d w" and "findEnvelope d' w = findEnvelope d w"
proof -
  let ?v = "vr_VaultID (cv_Record input)"
  obtain t where d': "db_vault d' = db_vault d @ [cv_Record input]" "db_vault_credential d' = db_vault_credential d @ [cv_Credential input]"
      "db_vault_envelope d' = db_vault_envelope d @ (case cv_Envelope input of None \<Rightarrow> [] | Some e \<Rightarrow> [(?v, e)])"
    by (rule createVaultBody_Inr [OF body]) simp
  note cred = validateCreateVaultInput_Inr(2) [OF val]
  show "find_row (\<lambda>r. vr_VaultID r = w) (db_vault d') = find_row (\<lambda>r. vr_VaultID r = w) (db_vault d)"
    using assms(3) by (simp add: d' find_row_append split: option.split)
  show "getVaultCredentialTx d' w = getVaultCredentialTx d w"
    using assms(3) cred by (simp add: getVaultCredentialTx_def d' find_row_append split: option.split)
  show "findEnvelope d' w = findEnvelope d w"
    using assms(3) by (simp add: findEnvelope_def d' find_row_append split: option.split)
qed

section \<open>Examples\<close>

definition exToken :: bytes where "exToken = replicate 32 3"

definition exCredential :: VaultCredential where
  "exCredential = \<lparr> vc_CredentialID = [9], vc_VaultID = ''v1'', vc_WebAuthnP256 = replicate 33 2, vc_UserHandle = [], vc_Resident = True,
     vc_IntegrityMAC = replicate 32 0 \<rparr>"

definition exPending :: PendingEnrollment where
  "exPending = \<lparr> pe_Handle = ''h1'', pe_VaultID = ''v1'', pe_TokenHash = exToken, pe_Challenge = [1], pe_ProtectionTier = ''standard'',
     pe_PolicyDigest = replicate 32 5, pe_ExpiresAt = ''2026-01-01T00:05:00Z'', pe_CreatedAt = ''2026-01-01T00:00:00Z'' \<rparr>"

definition exInvited :: Ledger where
  "exInvited = \<lparr> l_db = emptyDb\<lparr> db_invite := [\<lparr> iv_TokenHash = exToken, iv_ExpiresAt = ''2026-01-01T00:10:00Z'',
       iv_ConsumedVaultID = None, iv_CreatedAt = ''2026-01-01T00:00:00Z'' \<rparr>] \<rparr>, l_network = ''mutinynet'', l_integrityKey = exKey,
     l_monotonic = None, l_file = None \<rparr>"

definition exStarted :: Ledger where
  "exStarted = exInvited\<lparr> l_db := (l_db exInvited)\<lparr> db_pending_enrollment := [exPending] \<rparr> \<rparr>"

definition exCreate :: CreateVaultInput where
  "exCreate = \<lparr> cv_Record = exVault, cv_Credential = exCredential, cv_Envelope = None, cv_TokenHash = exToken, cv_Pending = Some exPending \<rparr>"

definition exCreated :: Ledger where
  "exCreated = exStarted\<lparr> l_db := emptyDb\<lparr> db_vault := [exVault], db_vault_credential := [exCredential],
     db_invite := [\<lparr> iv_TokenHash = exToken, iv_ExpiresAt = ''2026-01-01T00:10:00Z'',
       iv_ConsumedVaultID = Some ''v1'', iv_CreatedAt = ''2026-01-01T00:00:00Z'' \<rparr>] \<rparr> \<rparr>"

lemma ex_time: "formatRFC3339 exNow = ''2026-01-01T00:00:00Z''"
  unfolding exNow_def by code_simp

lemma ex_order: "\<not> ''2026-01-01T00:10:00Z'' < ''2026-01-01T00:00:00Z''" "\<not> ''2026-01-01T00:05:00Z'' < ''2026-01-01T00:00:00Z''"
    "''2026-01-01T00:00:00Z'' \<le> ''2026-01-01T00:10:00Z''" "''2026-01-01T00:00:00Z'' \<le> ''2026-01-01T00:05:00Z''"
  by code_simp+

lemma exStarted_reserves: "ReservePendingEnrollment False exInvited exPending = (Inr exPending, exStarted)"
proof -
  have "validatePendingEnrollment exPending = Inr ()"
    by (simp add: validatePendingEnrollment_def ValidateProtectionTier_def res_simps exPending_def exToken_def)
  moreover have "insertPending exPending (l_db exInvited) = Inr (l_db exStarted)"
    by (simp add: insertPending_def pending_check_def exInvited_def exStarted_def findInvite_def exPending_def exToken_def emptyDb_def res_simps)
  then have "reservePendingEnrollmentTx exPending (l_db exInvited) = Inr (exPending, l_db exStarted)"
    by (simp add: reservePendingEnrollmentTx_def getInvite_def findInvite_def inviteConsumed_def getPendingByTokenHashTx_def
        exInvited_def exPending_def ex_order emptyDb_def res_simps)
  moreover have "exInvited\<lparr> l_db := l_db exStarted \<rparr> = exStarted" by (simp add: exStarted_def)
  ultimately show ?thesis by (simp add: ReservePendingEnrollment_def)
qed

lemma exCreated_creates: "createVault False exNow exNow exStarted exCreate None = (Inr (), exCreated)"
proof -
  have val: "validateCreateVaultInput exCreate = Inr ()"
    by (simp add: validateCreateVaultInput_def exCreate_def exVault_def exCredential_def exPending_def exToken_def res_simps
        ValidateProtectionTierRecovery_def ValidateProtectionTier_def)
  have body: "createVaultBody ''mutinynet'' exNow exNow exCreate None (l_db exStarted) = Inr (l_db exCreated)"
    by (simp add: createVaultBody_def exCreate_def exStarted_def exInvited_def exCreated_def findInvite_def consumePendingEnrollmentTx_def
        ex_time ex_order exPending_def samePending_def affected_def insertVaultTx_def insertVault_def insertVaultCredential_def exVault_def
        exCredential_def res_simps consumeInvite_def Let_def update_rows_def emptyDb_def)
  have "foreignKeysClean (l_db exCreated)"
    by (simp add: foreignKeysClean_def exCreated_def emptyDb_def exCredential_def)
  moreover have "l_network exStarted = ''mutinynet''" "exStarted\<lparr> l_db := l_db exCreated \<rparr> = exCreated"
    by (simp_all add: exStarted_def exInvited_def exCreated_def)
  ultimately show ?thesis using val body by (simp add: createVault_def res_simps requireForeignKeyCheckClean_def)
qed

section \<open>The properties of enrollment\<close>

text \<open>
  C13. An invite makes at most one vault. Once a vault was created with a token, then whatever
  invites are added, sessions issued, enrollments reserved and vaults created afterwards, and
  whatever is written to the other tables, every further creation with that token is refused and
  changes nothing.
\<close>

theorem invite_used_once:
  assumes "createVault cf t1 t2 l input board = (Inr (), l')" and "enrollStep\<^sup>*\<^sup>* l' l''"
    and "cv_TokenHash input' = cv_TokenHash input"
  shows "\<exists>e. createVault cf' t1' t2' l'' input' board' = (Inl e, l'')"
proof -
  from assms(1) have "consumedBy (l_db l') (cv_TokenHash input) (vr_VaultID (cv_Record input))"
  proof (cases rule: createVault_cases)
    case (made d)
    then show ?thesis using createVaultBody_consumes(1) [OF made(1)] by simp
  qed simp
  with enrollRun_consumed [OF assms(2)] assms(3)
  have used: "consumedBy (l_db l'') (cv_TokenHash input') (vr_VaultID (cv_Record input))" by simp
  obtain r l3 where call: "createVault cf' t1' t2' l'' input' board' = (r, l3)" by fastforce
  then show ?thesis
  proof (cases rule: createVault_cases)
    case (made d)
    with createVaultBody_consumes(3) [OF made(1)] used show ?thesis by blast
  qed (use call in simp)
qed

theorem invite_used_once_witness:
  "createVault False exNow exNow exStarted exCreate None = (Inr (), exCreated) \<and>
   (\<exists>e. createVault False exNow exNow exCreated (exCreate\<lparr> cv_Record := exVault\<lparr> vr_VaultID := ''v2'' \<rparr> \<rparr>) None = (Inl e, exCreated))"
  using exCreated_creates
    invite_used_once [OF exCreated_creates rtranclp.rtrancl_refl, of "exCreate\<lparr> cv_Record := exVault\<lparr> vr_VaultID := ''v2'' \<rparr> \<rparr>" False exNow exNow None]
  by simp

text \<open>
  C32. A vault is created whole or not at all. From a database without dangling references, the call
  either reports an error and leaves the ledger as it was, or the vault, its credential and its
  envelope are read back as they were given, the invite names the vault, the pending enrollment is
  gone, no reference dangles, and what is read of every other vault is what it was before.
\<close>

theorem vault_created_whole:
  assumes "foreignKeysClean (l_db l)" and "createVault cf t1 t2 l input board = (r, l')"
  shows "(\<exists>e. r = Inl e) \<and> l' = l \<or>
    (let v = vr_VaultID (cv_Record input) in
     r = Inr () \<and> foreignKeysClean (l_db l') \<and> consumedBy (l_db l') (cv_TokenHash input) v \<and>
     LoadVault l v = Inr (None, None) \<and> LoadVault l' v = Inr (Some (cv_Record input), Some (cv_Credential input)) \<and>
     envelopes l' v = cv_Envelope input \<and>
     (\<forall>p. cv_Pending input = Some p \<longrightarrow> affected (samePending p) (db_pending_enrollment (l_db l')) = 0) \<and>
     (\<forall>w. w \<noteq> v \<longrightarrow> LoadVault l' w = LoadVault l w \<and> envelopes l' w = envelopes l w))"
  using assms(2)
proof (cases rule: createVault_cases)
  case (made d)
  let ?v = "vr_VaultID (cv_Record input)"
  note val = validateCreateVaultInput_Inr [OF made(4)]
  note loads = createVault_loads [OF made(1) assms(1) made(4)]
  note other = createVault_isolated [OF made(1,4)]
  have clean: "foreignKeysClean d" using createVaultBody_clean [OF made(1) assms(1) val(2)] made(5) by blast
  have fresh: "find_row (\<lambda>r. vr_VaultID r = ?v) (db_vault (l_db l)) = None" by (rule createVaultBody_Inr [OF made(1)])
  have "r = Inr ()" using made(3) clean by (simp add: requireForeignKeyCheckClean_def)
  moreover have "consumedBy d (cv_TokenHash input) ?v" by (rule createVaultBody_consumes(1) [OF made(1)])
  moreover have "LoadVault l ?v = Inr (None, None)" using fresh val(1) by (simp add: LoadVault_def)
  moreover have "LoadVault l' ?v = Inr (Some (cv_Record input), Some (cv_Credential input))"
    using loads(1,2) val(1) made(2) by (simp add: LoadVault_def)
  moreover have "envelopes l' ?v = cv_Envelope input"
    using loads(3) made(2) by (cases "cv_Envelope input") (simp_all add: envelopes_def)
  moreover have "LoadVault l' w = LoadVault l w" "envelopes l' w = envelopes l w" if "w \<noteq> ?v" for w
    using other [OF that] made(2) by (simp_all add: LoadVault_def envelopes_def split: option.split)
  ultimately show ?thesis using clean made(2) loads(4) by (simp add: Let_def)
qed simp

theorem vault_created_whole_witness:
  "foreignKeysClean (l_db exStarted) \<and> createVault False exNow exNow exStarted exCreate None = (Inr (), exCreated) \<and>
   LoadVault exCreated ''v1'' = Inr (Some exVault, Some exCredential) \<and> affected (samePending exPending) (db_pending_enrollment (l_db exCreated)) = 0"
proof -
  have "foreignKeysClean (l_db exStarted)"
    by (simp add: foreignKeysClean_def exStarted_def exInvited_def emptyDb_def exPending_def)
  moreover from vault_created_whole [OF this exCreated_creates]
  have "LoadVault exCreated ''v1'' = Inr (Some exVault, Some exCredential)"
    "affected (samePending exPending) (db_pending_enrollment (l_db exCreated)) = 0"
    by (simp_all add: exCreate_def Let_def)
  ultimately show ?thesis using exCreated_creates by simp
qed

text \<open>
  C33. A repeated start of an enrollment keeps its identity. After a reservation returned a pending
  enrollment, another reservation with the same token, while neither the invite nor the pending row
  has expired, returns that same row and writes nothing when it asks for the same tier and policy,
  and is refused without a change when it asks for another.
\<close>

theorem reservation_keeps_identity:
  assumes "ReservePendingEnrollment cf l p = (Inr got, l')"
    and "validatePendingEnrollment p' = Inr ()" and "pe_TokenHash p' = pe_TokenHash p"
    and "getInvite (l_db l') (pe_TokenHash p) = Some row" and "pe_CreatedAt p' \<le> iv_ExpiresAt row"
    and "pe_CreatedAt p' \<le> pe_ExpiresAt got"
  shows "ReservePendingEnrollment False l' p' =
    (if pe_ProtectionTier p' \<noteq> pe_ProtectionTier p then (Inl (Errorf ''pending enrollment protection tier changed''), l')
     else if pe_PolicyDigest p' \<noteq> pe_PolicyDigest p then (Inl (Errorf ''pending enrollment policy changed''), l')
     else (Inr got, l'))"
proof -
  obtain d' where d': "reservePendingEnrollmentTx p (l_db l) = Inr (got, d')" "l' = l\<lparr> l_db := d' \<rparr>" "pe_ExpiresAt p \<noteq> []"
    by (rule reserve_cases [OF assms(1)])
  note found = reserve_found [OF d'(1,3)]
  have "\<not> inviteConsumed row"
    using found(5,6) assms(4) d'(2) by (auto simp: getInvite_def findInvite_def)
  with reserve_again [of d' p' got row] found assms(2-6) d'(2)
  have "reservePendingEnrollmentTx p' d' =
    (if pe_ProtectionTier p \<noteq> pe_ProtectionTier p' then Inl (Errorf ''pending enrollment protection tier changed'')
     else if pe_PolicyDigest p \<noteq> pe_PolicyDigest p' then Inl (Errorf ''pending enrollment policy changed'')
     else Inr (got, d'))" by simp
  with assms(2) d'(2) show ?thesis by (auto simp: ReservePendingEnrollment_def)
qed

theorem reservation_keeps_identity_witness:
  "ReservePendingEnrollment False exInvited exPending = (Inr exPending, exStarted) \<and>
   ReservePendingEnrollment False exStarted (exPending\<lparr> pe_Handle := ''h2'', pe_VaultID := ''v2'', pe_Challenge := [2] \<rparr>) =
     (Inr exPending, exStarted)"
proof -
  let ?p = "exPending\<lparr> pe_Handle := ''h2'', pe_VaultID := ''v2'', pe_Challenge := [2] \<rparr>"
  have "validatePendingEnrollment ?p = Inr ()"
    by (simp add: validatePendingEnrollment_def ValidateProtectionTier_def res_simps exPending_def exToken_def)
  from reservation_keeps_identity [OF exStarted_reserves this, of "hd (db_invite (l_db exStarted))"] show ?thesis
    using exStarted_reserves
    by (simp add: exPending_def exStarted_def exInvited_def getInvite_def findInvite_def ex_order)
qed

text \<open>
  Open admission is limited. A session that is issued lives for ten minutes and is stored unused;
  at most thirty stored invites are of the last minute and at most a thousand are unused and alive.
  Issuing removes exactly the unused invites that expired a day ago, and the pending enrollments of
  those only; a consumed invite stays for a client that lost the response.
\<close>

theorem admission_bounded:
  assumes "IssueEnrollmentSession cf l hash now = (Inr expires, l')"
  shows "let cutoff = formatRFC3339 (now - 24 * Hour) in
    expires = now + 10 * Minute \<and>
    affected (\<lambda>row. formatRFC3339 (now - Minute) \<le> iv_CreatedAt row) (db_invite (l_db l')) \<le> 30 \<and>
    affected (\<lambda>row. iv_ConsumedVaultID row = None \<and> formatRFC3339 now \<le> iv_ExpiresAt row) (db_invite (l_db l')) \<le> 1000 \<and>
    db_invite (l_db l') = filter (\<lambda>row. \<not> (iv_ConsumedVaultID row = None \<and> iv_ExpiresAt row < cutoff)) (db_invite (l_db l)) @
      [\<lparr> iv_TokenHash = hash, iv_ExpiresAt = formatRFC3339 expires, iv_ConsumedVaultID = None, iv_CreatedAt = formatRFC3339 now \<rparr>] \<and>
    set (db_pending_enrollment (l_db l)) - set (db_pending_enrollment (l_db l')) =
      {p \<in> set (db_pending_enrollment (l_db l)). \<exists>row \<in> set (db_invite (l_db l)).
         iv_TokenHash row = pe_TokenHash p \<and> iv_ConsumedVaultID row = None \<and> iv_ExpiresAt row < cutoff}"
  using assms
proof (cases rule: issue_cases)
  case (issued d)
  note new = insertInvite_Inr(1) [OF issued(1)]
  have pend: "db_pending_enrollment (l_db l') = db_pending_enrollment (pruneInvites (formatRFC3339 (now - 24 * Hour)) (l_db l))"
    using new issued(2) by simp
  have inv: "db_invite (l_db l') = db_invite (pruneInvites (formatRFC3339 (now - 24 * Hour)) (l_db l)) @
      [\<lparr> iv_TokenHash = hash, iv_ExpiresAt = formatRFC3339 expires, iv_ConsumedVaultID = None, iv_CreatedAt = formatRFC3339 now \<rparr>]"
    using new issued(2,3) by simp
  have more: "affected q (xs @ [x]) \<le> Suc (affected q xs)" for q xs and x :: InviteRow by (simp add: affected_def)
  show ?thesis
    unfolding Let_def
  proof (intro conjI)
    show "expires = now + 10 * Minute" using issued(3) by simp
    show "affected (\<lambda>row. formatRFC3339 (now - Minute) \<le> iv_CreatedAt row) (db_invite (l_db l')) \<le> 30"
      unfolding inv by (rule order_trans [OF more]) (use issued(4) in simp)
    show "affected (\<lambda>row. iv_ConsumedVaultID row = None \<and> formatRFC3339 now \<le> iv_ExpiresAt row) (db_invite (l_db l')) \<le> 1000"
      unfolding inv by (rule order_trans [OF more]) (use issued(5) in simp)
  qed (auto simp: inv pend pruneInvites_def staleInvite_def)
qed simp

theorem admission_bounded_witness:
  "fst (IssueEnrollmentSession False exInvited (replicate 32 4) exNow) = Inr (exNow + 10 * Minute) \<and>
   affected (\<lambda>row. formatRFC3339 (exNow - Minute) \<le> iv_CreatedAt row)
     (db_invite (l_db (snd (IssueEnrollmentSession False exInvited (replicate 32 4) exNow)))) \<le> 30"
proof -
  have cutoff: "formatRFC3339 (exNow - 86400000000000) = ''2025-12-31T00:00:00Z''" "formatRFC3339 (exNow - 60000000000) = ''2025-12-31T23:59:00Z''"
    unfolding exNow_def by code_simp+
  have order: "\<not> ''2026-01-01T00:10:00Z'' < ''2025-12-31T00:00:00Z''" "''2025-12-31T23:59:00Z'' \<le> ''2026-01-01T00:00:00Z''"
    by code_simp+
  have prune: "pruneInvites (formatRFC3339 (exNow - 24 * Hour)) (l_db exInvited) = l_db exInvited"
    by (simp add: pruneInvites_def staleInvite_def cutoff order exInvited_def emptyDb_def)
  have "\<exists>d. insertInvite (replicate 32 4) (formatRFC3339 (exNow + 10 * Minute)) (formatRFC3339 exNow) (l_db exInvited) = Inr d"
    by (simp add: insertInvite_def findInvite_def exInvited_def exToken_def insertInto_def)
  then have "\<exists>l'. IssueEnrollmentSession False exInvited (replicate 32 4) exNow = (Inr (exNow + 10 * Minute), l')"
    unfolding IssueEnrollmentSession_def Let_def prune
    by (auto simp: exInvited_def affected_def)
  then obtain l' where call: "IssueEnrollmentSession False exInvited (replicate 32 4) exNow = (Inr (exNow + 10 * Minute), l')" by blast
  then show ?thesis using admission_bounded [OF call, unfolded Let_def, THEN conjunct2, THEN conjunct1] by (simp only: fst_conv snd_conv simp_thms)
qed


definition verifiedFor :: "Ledger \<Rightarrow> string \<Rightarrow> CredentialEnvelope \<Rightarrow> bool" where
  "verifiedFor l v e \<longleftrightarrow> (\<exists>c. getVaultCredentialTx (l_db l) v = Some c \<and>
     VerifyVaultEnvelope e v (vc_CredentialID c) (l_integrityKey l) = Inr ())"

text \<open>
  C34. The recovery envelopes are a map with put-if-absent and compare-and-swap. Storing an envelope
  either is refused and changes nothing, or sets the vault's entry, which was absent or already
  this envelope; replacing one either is refused, or swaps the vault's entry, which was the expected
  envelope. No other vault's entry changes, and what is written verifies for the vault's credential.
\<close>

theorem envelope_compare_and_swap:
  "(StoreVaultEnvelopeIfAbsent cf l v e = (r, l') \<longrightarrow>
      (\<exists>err. r = Inl err) \<and> l' = l \<or>
      r = Inr () \<and> envelopes l v \<in> {None, Some e} \<and> envelopes l' = (envelopes l)(v \<mapsto> e) \<and> verifiedFor l v e) \<and>
   (ReplaceVaultEnvelope cf l v expected e = (r, l') \<longrightarrow>
      (\<exists>err. r = Inl err) \<and> l' = l \<or>
      r = Inr () \<and> envelopes l v = Some expected \<and> envelopes l' = (envelopes l)(v \<mapsto> e) \<and> verifiedFor l v e)"
proof (intro conjI impI)
  assume "StoreVaultEnvelopeIfAbsent cf l v e = (r, l')"
  then show "(\<exists>err. r = Inl err) \<and> l' = l \<or>
      r = Inr () \<and> envelopes l v \<in> {None, Some e} \<and> envelopes l' = (envelopes l)(v \<mapsto> e) \<and> verifiedFor l v e"
    by (cases rule: store_envelope) (auto simp: verifiedFor_def)
next
  assume "ReplaceVaultEnvelope cf l v expected e = (r, l')"
  then show "(\<exists>err. r = Inl err) \<and> l' = l \<or>
      r = Inr () \<and> envelopes l v = Some expected \<and> envelopes l' = (envelopes l)(v \<mapsto> e) \<and> verifiedFor l v e"
    by (cases rule: replace_envelope) (auto simp: verifiedFor_def)
qed

definition exEnvelope :: CredentialEnvelope where
  "exEnvelope = projr (SealVaultEnvelope \<lparr> ce_Version = 2, ce_Binding = ''b'', ce_Nonce = replicate 12 0, ce_Ciphertext = replicate 48 0,
     ce_DirectSig = replicate 64 0, ce_PhoneSig = replicate 64 0, ce_IntegrityMAC = [] \<rparr> ''v1'' [9] exKey)"

theorem envelope_compare_and_swap_witness:
  "fst (StoreVaultEnvelopeIfAbsent False exCreated ''v1'' exEnvelope) = Inr () \<and>
   envelopes (snd (StoreVaultEnvelopeIfAbsent False exCreated ''v1'' exEnvelope)) ''v1'' = Some exEnvelope"
proof -
  let ?e = "\<lparr> ce_Version = 2, ce_Binding = ''b'', ce_Nonce = replicate 12 0, ce_Ciphertext = replicate 48 0,
     ce_DirectSig = replicate 64 0, ce_PhoneSig = replicate 64 0, ce_IntegrityMAC = [] \<rparr>"
  have sealed: "SealVaultEnvelope ?e ''v1'' [9] exKey = Inr exEnvelope"
    "ce_Version exEnvelope = 2" "ce_Binding exEnvelope = ''b''" "length (ce_Nonce exEnvelope) = 12" "length (ce_Ciphertext exEnvelope) = 48"
    "length (ce_DirectSig exEnvelope) = 64" "length (ce_PhoneSig exEnvelope) = 64" "length (ce_IntegrityMAC exEnvelope) = 32"
    by (simp_all add: exEnvelope_def SealVaultEnvelope_def vaultEnvelopeMAC_def DeriveVaultEnvelopeMACKey_def validateCredentialEnvelope_def
        exKey_def)
  note ver = SealVaultEnvelope_verifies [OF sealed(1)]
  have "getVaultCredentialTx (l_db exCreated) ''v1'' = Some exCredential" "getVaultEnvelope (l_db exCreated) ''v1'' = Inr None"
    "l_integrityKey exCreated = exKey" "vc_CredentialID exCredential = [9]"
    by (simp_all add: getVaultCredentialTx_def exCreated_def exStarted_def exInvited_def exCredential_def getVaultEnvelope_def findEnvelope_def
        emptyDb_def)
  moreover have "\<exists>d. insertVaultEnvelopeTx ''v1'' exEnvelope (l_db exCreated) = Inr d"
    by (simp add: insertVaultEnvelopeTx_def envelope_check_def sealed findEnvelope_def exCreated_def emptyDb_def insertInto_def)
  ultimately have "\<exists>l'. StoreVaultEnvelopeIfAbsent False exCreated ''v1'' exEnvelope = (Inr (), l')"
    using ver sealed(8) by (auto simp: StoreVaultEnvelopeIfAbsent_def storeEnvelopeBody_def)
  then obtain l' where call: "StoreVaultEnvelopeIfAbsent False exCreated ''v1'' exEnvelope = (Inr (), l')" by blast
  with envelope_compare_and_swap [of False exCreated "''v1''" exEnvelope "Inr ()" l'] show ?thesis by simp
qed

end
