(* ===== verification/Cbor.thy ===== *)
theory Cbor
  imports Bytes
begin

text \<open>
  The CBOR subset of \<open>webauthn/cbor.go\<close>: decoding with its limits, and the encoders. A decoded
  value carries its kind as a constructor. Decoding is nested recursion: the rest left by the first
  call is the argument of the next one, so termination needs that every call consumes input.
\<close>

unbundle bit_operations_syntax

section \<open>Values\<close>

abbreviation maxCBORBytes :: nat where "maxCBORBytes \<equiv> 4096"

datatype cborValue =
    cborInt i64
  | cborBytes bytes
  | cborText string
  | cborMap "(cborValue \<times> cborValue) list"
  | cborBool bool

fun sameCBORMapKey :: "cborValue \<Rightarrow> cborValue \<Rightarrow> bool" where
  "sameCBORMapKey (cborInt a) (cborInt b) = (a = b)"
| "sameCBORMapKey (cborText a) (cborText b) = (a = b)"
| "sameCBORMapKey _ _ = False"

fun isMapKey :: "cborValue \<Rightarrow> bool" where
  "isMapKey (cborInt _) = True"
| "isMapKey (cborText _) = True"
| "isMapKey _ = False"

fun findPair :: "(cborValue \<Rightarrow> bool) \<Rightarrow> (cborValue \<times> cborValue) list \<Rightarrow> cborValue option" where
  "findPair q [] = None"
| "findPair q ((k, v) # ps) = (if q k then Some v else findPair q ps)"

fun mapInt :: "cborValue \<Rightarrow> i64 \<Rightarrow> cborValue option" where
  "mapInt (cborMap ps) key = findPair (\<lambda>k. k = cborInt key) ps"
| "mapInt _ key = None"

fun mapText :: "cborValue \<Rightarrow> string \<Rightarrow> cborValue option" where
  "mapText (cborMap ps) key = findPair (\<lambda>k. k = cborText key) ps"
| "mapText _ key = None"

section \<open>Decoding\<close>

definition decodeCBORLen :: "byte \<Rightarrow> bytes \<Rightarrow> (u64 \<times> bytes) result" where
  "decodeCBORLen ai rest =
     (if ai < 24 then Inr (ucast ai, rest)
      else if ai = 24 then
        (case rest of
           [] \<Rightarrow> Inl (Errorf ''truncated cbor length'')
         | a # rest' \<Rightarrow>
             let n = (ucast a :: u64)
             in if n < 24 then Inl (Errorf ''non-minimal cbor length'') else Inr (n, rest'))
      else if ai = 25 then
        (case rest of
           a # b # rest' \<Rightarrow>
             let n = push_bit 8 (ucast a :: u64) OR ucast b
             in if n \<le> 0xff then Inl (Errorf ''non-minimal cbor length'') else Inr (n, rest')
         | _ \<Rightarrow> Inl (Errorf ''truncated cbor length''))
      else Inl (Errorf ''unsupported cbor additional info''))"

lemma decodeCBORLen_shrinks: "decodeCBORLen ai rest = Inr (n, rest') \<Longrightarrow> length rest' \<le> length rest"
  by (auto simp: decodeCBORLen_def Let_def split: if_splits list.splits)

function (sequential) decodeCBOR :: "bytes \<Rightarrow> (cborValue \<times> bytes) result"
  and decodePairs :: "nat \<Rightarrow> (cborValue \<times> cborValue) list \<Rightarrow> bytes \<Rightarrow> ((cborValue \<times> cborValue) list \<times> bytes) result" where
  "decodeCBOR [] = Inl (Errorf ''truncated cbor'')"
| "decodeCBOR (b # rest0) =
     (if length (b # rest0) > maxCBORBytes then Inl (Errorf ''cbor too large'')
      else
        bindR (decodeCBORLen (b AND 0x1f) rest0) (\<lambda>(n, rest).
        let major = drop_bit 5 b; ai = b AND 0x1f in
        if major = 0 then Inr (cborInt n, rest)
        else if major = 1 then Inr (cborInt (NOT n), rest)
        else if major = 2 then
          (if unat n > length rest then Inl (Errorf ''truncated cbor bytes'')
           else Inr (cborBytes (take (unat n) rest), drop (unat n) rest))
        else if major = 3 then
          (if unat n > length rest then Inl (Errorf ''truncated cbor text'')
           else Inr (cborText (bytes_str (take (unat n) rest)), drop (unat n) rest))
        else if major = 7 then
          (if ai = 20 then Inr (cborBool False, rest)
           else if ai = 21 then Inr (cborBool True, rest)
           else Inl (Errorf ''unsupported cbor simple value''))
        else if major = 5 then
          (if n > 16 then Inl (Errorf ''cbor map too large'')
           else bindR (decodePairs (unat n) [] rest) (\<lambda>(pairs, rest). Inr (cborMap pairs, rest)))
        else Inl (Errorf ''unsupported cbor major type %d'')))"
| "decodePairs 0 pairs rest = Inr (pairs, rest)"
| "decodePairs (Suc i) pairs rest =
     bindR (decodeCBOR rest) (\<lambda>(k, rest1).
     if \<not> isMapKey k then Inl (Errorf ''unsupported cbor map key'')
     else if \<exists>pair \<in> set pairs. sameCBORMapKey (fst pair) k then Inl (Errorf ''duplicate cbor map key'')
     else
       bindR (decodeCBOR rest1) (\<lambda>(v, rest2).
       decodePairs i (pairs @ [(k, v)]) rest2))"
  by pat_completeness auto

termination
proof -
  have shrinks:
    "decodeCBOR_decodePairs_dom (Inl bs) \<Longrightarrow> (\<forall>v rest. decodeCBOR bs = Inr (v, rest) \<longrightarrow> length rest < length bs)"
    "decodeCBOR_decodePairs_dom (Inr (i, ps, bs)) \<Longrightarrow> (\<forall>qs rest. decodePairs i ps bs = Inr (qs, rest) \<longrightarrow> length rest \<le> length bs)" for bs i ps
  proof (induction rule: decodeCBOR_decodePairs.pinduct)
    case 1
    then show ?case by (simp add: decodeCBOR.psimps)
  next
    case (2 b rest0)
    show ?case
    proof (intro allI impI)
      fix v rest assume dec: "decodeCBOR (b # rest0) = Inr (v, rest)"
      then have small: "\<not> length (b # rest0) > maxCBORBytes" using 2(1) by (simp add: decodeCBOR.psimps split: if_splits)
      with dec obtain n rest1 where len: "decodeCBORLen (b AND 0x1f) rest0 = Inr (n, rest1)"
        using 2(1) by (auto simp: decodeCBOR.psimps bindR_eq_Inr)
      note body = dec [unfolded decodeCBOR.psimps(2) [OF 2(1)] if_not_P [OF small] len bindR_Inr prod.case Let_def]
      have "length rest \<le> length rest1"
      proof (cases "drop_bit 5 b = 5")
        case True
        then have "n \<le> 16" and "\<exists>ps. decodePairs (unat n) [] rest1 = Inr (ps, rest)"
          using body by (auto simp: bindR_eq_Inr split: if_splits)
        then show ?thesis using 2(2) [OF small len refl refl refl] True by (auto simp: not_less)
      next
        case False
        with body show ?thesis by (auto split: if_splits)
      qed
      with decodeCBORLen_shrinks [OF len] show "length rest < length (b # rest0)" by simp
    qed
  next
    case (3 pairs rest)
    then show ?case by (simp add: decodePairs.psimps)
  next
    case (4 i pairs rest)
    show ?case
    proof (intro allI impI)
      fix qs rest' assume "decodePairs (Suc i) pairs rest = Inr (qs, rest')"
      then obtain k rest1 v rest2 where k: "decodeCBOR rest = Inr (k, rest1)" "isMapKey k"
          "\<not> (\<exists>pair \<in> set pairs. sameCBORMapKey (fst pair) k)"
        and v: "decodeCBOR rest1 = Inr (v, rest2)" and ps: "decodePairs i (pairs @ [(k, v)]) rest2 = Inr (qs, rest')"
        using 4(1) by (auto simp: decodePairs.psimps bindR_eq_Inr split: if_splits)
      have "length rest1 < length rest" using 4(2) k(1) by blast
      moreover have "length rest2 < length rest1" using 4(3) [OF k(1) refl] k v by blast
      moreover have "length rest' \<le> length rest2" using 4(4) [OF k(1) refl _ k(3) v refl] k(2) ps by blast
      ultimately show "length rest' \<le> length rest" by simp
    qed
  qed
  show ?thesis
    by (relation "measure (case_sum (\<lambda>bs. 2 * length bs) (\<lambda>(i, ps, bs). 2 * length bs + 1))")
      (auto dest!: decodeCBORLen_shrinks shrinks(1) [rule_format])
qed

declare decodeCBOR.simps(2) [simp del] decodePairs.simps(2) [simp del]

section \<open>Encoding\<close>

definition encodeCBORUnsigned :: "u64 \<Rightarrow> bytes" where
  "encodeCBORUnsigned n =
     (if n < 24 then [ucast n] else if n < 256 then [24, ucast n] else [25, ucast (drop_bit 8 n), ucast n])"

text \<open>\<open>hdr[0] |= x\<close>.\<close>

fun orHead :: "byte \<Rightarrow> bytes \<Rightarrow> bytes" where
  "orHead x [] = []"
| "orHead x (b # bs) = (b OR x) # bs"

definition encodeCBORNegative :: "i64 \<Rightarrow> bytes" where
  "encodeCBORNegative n = orHead (push_bit 5 1) (encodeCBORUnsigned (NOT n))"

definition encodeCBORBytes :: "bytes \<Rightarrow> bytes" where
  "encodeCBORBytes b = orHead (push_bit 5 2) (encodeCBORUnsigned (word_of_nat (length b))) @ b"

definition encodeCBORText :: "string \<Rightarrow> bytes" where
  "encodeCBORText s = orHead (push_bit 5 3) (encodeCBORUnsigned (word_of_nat (length s))) @ str_bytes s"

definition encodeCBORMap :: "bytes list \<Rightarrow> bytes" where
  "encodeCBORMap pairs = orHead (push_bit 5 5) (encodeCBORUnsigned (word_of_nat (length pairs))) @ concat pairs"

definition encodeCBORBool :: "bool \<Rightarrow> bytes" where
  "encodeCBORBool v = (if v then [0xf5] else [0xf4])"

text \<open>The encoders put together, and the values they can express.\<close>

fun encodeCBOR :: "cborValue \<Rightarrow> bytes" where
  "encodeCBOR (cborInt i) = (if 0 \<le> sint i then encodeCBORUnsigned i else encodeCBORNegative i)"
| "encodeCBOR (cborBytes b) = encodeCBORBytes b"
| "encodeCBOR (cborText s) = encodeCBORText s"
| "encodeCBOR (cborMap ps) = encodeCBORMap (map (\<lambda>p. encodeCBOR (fst p) @ encodeCBOR (snd p)) ps)"
| "encodeCBOR (cborBool v) = encodeCBORBool v"

fun expressible :: "cborValue \<Rightarrow> bool" where
  "expressible (cborInt i) \<longleftrightarrow> - 65536 \<le> sint i \<and> sint i < 65536"
| "expressible (cborBytes b) \<longleftrightarrow> length b < 65536"
| "expressible (cborText s) \<longleftrightarrow> length s < 65536"
| "expressible (cborMap ps) \<longleftrightarrow> length ps \<le> 16 \<and> distinct (map fst ps) \<and>
     (\<forall>p \<in> set ps. isMapKey (fst p) \<and> expressible (fst p) \<and> expressible (snd p))"
| "expressible (cborBool v) \<longleftrightarrow> True"

section \<open>Headers\<close>

definition header :: "byte \<Rightarrow> u64 \<Rightarrow> bytes" where
  "header m n = orHead (push_bit 5 m) (encodeCBORUnsigned n)"

lemma low_mask: "(0x1f :: byte) = mask 5"
  by (simp add: mask_eq_exp_minus_1)

lemma byte_split: "(b AND 0x1f) OR push_bit 5 (drop_bit 5 b) = (b :: byte)"
proof (rule bit_eqI)
  fix k
  show "bit ((b AND 0x1f) OR push_bit 5 (drop_bit 5 b)) k = bit b k"
    by (cases "5 \<le> k") (auto simp: bit_simps low_mask dest: bit_imp_le_length)
qed

lemma u64_of_byte: "ucast (ucast (b :: byte) :: u64) = b"
  by (rule bit_eqI) (auto simp: bit_simps)

lemma unat_u64_of_byte [simp]: "unat (ucast (b :: byte) :: u64) = unat b"
  using unat_byte_less [of b] by (simp add: unsigned_ucast_eq take_bit_nat_eq_self)

lemma unat_byte_of_u64: "unat (n :: u64) < 256 \<Longrightarrow> unat (ucast n :: byte) = unat n"
  by (simp add: unsigned_ucast_eq take_bit_nat_eq_self)

lemma u16_join:
  fixes a b :: byte
  defines "n \<equiv> push_bit 8 (ucast a :: u64) OR ucast b"
  shows "ucast (drop_bit 8 n) = a" and "ucast n = b" and "unat n < 65536"
proof -
  show "ucast (drop_bit 8 n) = a"
    unfolding n_def by (rule bit_eqI) (auto simp: bit_simps dest: bit_imp_le_length)
  show "ucast n = b"
    unfolding n_def by (rule bit_eqI) (auto simp: bit_simps)
  have "n = take_bit 16 n"
    unfolding n_def by (rule bit_eqI) (auto simp: bit_simps dest: bit_imp_le_length)
  then have "unat n = unat (take_bit 16 n)" by simp
  also have "\<dots> < 2 ^ 16" by (simp add: unsigned_take_bit_eq take_bit_nat_less_exp [of 16, simplified])
  finally show "unat n < 65536" by simp
qed

lemma u16_split:
  assumes "unat (n :: u64) < 65536"
  shows "push_bit 8 (ucast (ucast (drop_bit 8 n) :: byte)) OR ucast (ucast n :: byte) = n"
proof -
  have "take_bit 16 n = n"
    using assms by (simp add: take_bit_eq_mod unat_arith_simps word_arith_nat_defs)
  then have high: "bit n k \<Longrightarrow> k < 16" for k by (metis bit_take_bit_iff)
  show ?thesis by (rule bit_eqI) (auto simp: bit_simps dest: high)
qed

lemma header_sound:
  assumes "decodeCBORLen (b AND 0x1f) rest0 = Inr (n, rest)"
  shows "b # rest0 = header (drop_bit 5 b) n @ rest" and "unat n < 65536"
proof -
  note split = byte_split [of b]
  consider (short) "b AND 0x1f < 24" "n = ucast (b AND 0x1f)" "rest = rest0"
    | (one) a where "b AND 0x1f = 24" "rest0 = a # rest" "n = ucast a" "\<not> n < 24"
    | (two) a c where "b AND 0x1f = 25" "rest0 = a # c # rest" "n = push_bit 8 (ucast a) OR ucast c" "\<not> n \<le> 0xff"
    using assms by (auto simp: decodeCBORLen_def Let_def split: if_splits list.splits)
  then have "b # rest0 = header (drop_bit 5 b) n @ rest \<and> unat n < 65536"
  proof cases
    case short
    then have "n < 24" "unat n < 65536" by (simp_all add: word_less_nat_alt)
    with short split show ?thesis by (simp add: header_def encodeCBORUnsigned_def u64_of_byte)
  next
    case one
    then have "n < 256" "unat n < 65536" using unat_byte_less [of a] by (simp_all add: word_less_nat_alt)
    with one split show ?thesis by (simp add: header_def encodeCBORUnsigned_def u64_of_byte)
  next
    case two
    then have "\<not> n < 24" "\<not> n < 256" by (simp_all add: word_less_nat_alt word_le_nat_alt)
    with two split u16_join [of a c] show ?thesis by (simp add: header_def encodeCBORUnsigned_def)
  qed
  then show "b # rest0 = header (drop_bit 5 b) n @ rest" "unat n < 65536" by blast+
qed

definition additional :: "u64 \<Rightarrow> byte" where
  "additional n = (if n < 24 then ucast n else if n < 256 then 24 else 25)"

lemma additional_small: "take_bit 5 (additional n) = additional n"
proof (cases "n < 24")
  case True
  then have "unat (additional n) < 32" by (simp add: additional_def word_less_nat_alt unat_byte_of_u64)
  then show ?thesis by (simp add: take_bit_eq_mod unat_arith_simps word_arith_nat_defs)
qed (simp add: additional_def)

lemma header_parts:
  assumes "unat m < 8"
  shows "drop_bit 5 (additional n OR push_bit 5 m) = m" and "(additional n OR push_bit 5 m) AND 0x1f = additional n"
proof -
  have low: "bit (additional n) k \<Longrightarrow> k < 5" for k using additional_small [of n] by (metis bit_take_bit_iff)
  have "take_bit 3 m = m" using assms by (simp add: take_bit_eq_mod unat_arith_simps word_arith_nat_defs)
  then have high: "bit m k \<Longrightarrow> k < 3" for k by (metis bit_take_bit_iff)
  show "drop_bit 5 (additional n OR push_bit 5 m) = m"
    by (rule bit_eqI) (auto simp: bit_simps dest: low high)
  show "(additional n OR push_bit 5 m) AND 0x1f = additional n"
    unfolding low_mask by (rule bit_eqI) (auto simp: bit_simps dest: low)
qed

lemma additional_decodes:
  assumes "unat n < 65536"
  obtains bs where "encodeCBORUnsigned n = additional n # bs"
    and "\<And>rest. decodeCBORLen (additional n) (bs @ rest) = Inr (n, rest)"
proof (cases "n < 256")
  case True
  have wide: "ucast (ucast n :: byte) = n"
    using True by (intro word_unat_eq_iff [THEN iffD2]) (simp add: word_less_nat_alt unat_byte_of_u64)
  show thesis
  proof (cases "n < 24")
    case tiny: True
    then have "(ucast n :: byte) < 24" by (simp add: word_less_nat_alt unat_byte_of_u64)
    with tiny wide show thesis by (intro that [of "[]"]) (simp_all add: encodeCBORUnsigned_def additional_def decodeCBORLen_def)
  next
    case False
    with True wide show thesis
      by (intro that [of "[ucast n]"]) (simp_all add: encodeCBORUnsigned_def additional_def decodeCBORLen_def)
  qed
next
  case False
  then have "\<not> n < 24" "\<not> n \<le> 0xff" by (simp_all add: word_less_nat_alt word_le_nat_alt)
  with False u16_split [OF assms] show thesis
    by (intro that [of "[ucast (drop_bit 8 n), ucast n]"]) (simp_all add: encodeCBORUnsigned_def additional_def decodeCBORLen_def)
qed

lemma header_complete:
  assumes "unat m < 8" and "unat n < 65536"
  obtains b bs where "header m n = b # bs" and "drop_bit 5 b = m" and "b AND 0x1f = additional n"
    and "\<And>rest. decodeCBORLen (b AND 0x1f) (bs @ rest) = Inr (n, rest)"
proof -
  obtain bs where enc: "encodeCBORUnsigned n = additional n # bs" and dec: "\<And>rest. decodeCBORLen (additional n) (bs @ rest) = Inr (n, rest)"
    using additional_decodes [OF assms(2)] by blast
  show thesis
  proof (rule that)
    show "header m n = (additional n OR push_bit 5 m) # bs" by (simp add: header_def enc)
    show "decodeCBORLen ((additional n OR push_bit 5 m) AND 0x1f) (bs @ rest) = Inr (n, rest)" for rest
      unfolding header_parts(2) [OF assms(1)] by (rule dec)
  qed (fact header_parts [OF assms(1)])+
qed

section \<open>Decoding accepts exactly the encodings\<close>

lemma encode_headers:
  "encodeCBORUnsigned n = header 0 n" "encodeCBORNegative i = header 1 (NOT i)"
  "encodeCBORBytes b = header 2 (word_of_nat (length b)) @ b" "encodeCBORText s = header 3 (word_of_nat (length s)) @ str_bytes s"
  "encodeCBORMap ps = header 5 (word_of_nat (length ps)) @ concat ps"
  by (simp_all add: header_def encodeCBORUnsigned_def encodeCBORNegative_def encodeCBORBytes_def encodeCBORText_def encodeCBORMap_def)

lemma sint_small:
  assumes "unat (n :: u64) < 65536"
  shows "0 \<le> sint n" and "sint n < 65536"
proof -
  have u: "uint n = int (unat n)" by (rule uint_nat)
  have b: "0 \<le> uint n" "uint n < 65536" using assms u by linarith+
  have "- (2 ^ 63) \<le> uint n" "uint n < 2 ^ 63"
    by (rule order_trans [OF _ b(1)], simp) (rule less_trans [OF b(2)], simp)
  then have "sint n = uint n" by (simp add: sint_uint signed_take_bit_int_eq_self)
  with b show "0 \<le> sint n" "sint n < 65536" by simp_all
qed

lemma sint_not: "sint (NOT (n :: i64)) = - sint n - 1"
  using i64_upper [of n] i64_lower [of n] by (simp add: signed_not_eq not_int_def signed_take_bit_int_eq_self)

lemma expressible_int:
  assumes "unat (n :: u64) < 65536"
  shows "expressible (cborInt n)" and "encodeCBOR (cborInt n) = header 0 n"
    and "expressible (cborInt (NOT n))" and "encodeCBOR (cborInt (NOT n)) = header 1 n"
  using sint_small [OF assms] by (simp_all add: sint_not encode_headers)

lemma sameKey: "isMapKey a \<Longrightarrow> sameCBORMapKey a b \<longleftrightarrow> a = b"
  by (cases a; cases b) auto

lemma unat_length: "length xs < 65536 \<Longrightarrow> unat (word_of_nat (length xs) :: u64) = length xs"
  by (simp add: unat_of_nat take_bit_nat_eq_self)

abbreviation encodePair :: "cborValue \<times> cborValue \<Rightarrow> bytes" where
  "encodePair p \<equiv> encodeCBOR (fst p) @ encodeCBOR (snd p)"

abbreviation pairOk :: "cborValue \<times> cborValue \<Rightarrow> bool" where
  "pairOk p \<equiv> isMapKey (fst p) \<and> expressible (fst p) \<and> expressible (snd p)"

lemma decode_sound:
  "\<forall>v rest. decodeCBOR bs = Inr (v, rest) \<longrightarrow> bs = encodeCBOR v @ rest \<and> expressible v \<and> length bs \<le> maxCBORBytes"
  "\<forall>qs rest. decodePairs i ps bs' = Inr (qs, rest) \<longrightarrow> (\<forall>p \<in> set ps. isMapKey (fst p)) \<longrightarrow> distinct (map fst ps) \<longrightarrow>
     (\<exists>ts. qs = ps @ ts \<and> length ts = i \<and> bs' = concat (map encodePair ts) @ rest \<and> distinct (map fst qs) \<and> (\<forall>p \<in> set ts. pairOk p))"
proof (induction bs and i ps bs' rule: decodeCBOR_decodePairs.induct)
  case (2 b rest0)
  show ?case
  proof (intro allI impI)
    fix v rest assume dec: "decodeCBOR (b # rest0) = Inr (v, rest)"
    then have small: "\<not> length (b # rest0) > maxCBORBytes" by (simp add: decodeCBOR.simps split: if_splits)
    with dec obtain n rest1 where len: "decodeCBORLen (b AND 0x1f) rest0 = Inr (n, rest1)"
      by (auto simp: decodeCBOR.simps bindR_eq_Inr)
    note body = dec [unfolded decodeCBOR.simps(2) if_not_P [OF small] len bindR_Inr prod.case Let_def]
    note head = header_sound [OF len]
    have "b # rest0 = encodeCBOR v @ rest \<and> expressible v"
    proof (cases "drop_bit 5 b = 5")
      case True
      then obtain ps where n: "unat n \<le> 16" and ps: "decodePairs (unat n) [] rest1 = Inr (ps, rest)" and v: "v = cborMap ps"
        using body by (auto simp: bindR_eq_Inr word_less_nat_alt split: if_splits)
      from 2 [OF small len refl refl refl] True n ps
      have "length ps = unat n" "rest1 = concat (map encodePair ps) @ rest" "distinct (map fst ps)" "\<forall>p \<in> set ps. pairOk p"
        by (auto simp: word_less_nat_alt)
      with head(1) True v n show ?thesis by (simp add: encode_headers comp_def)
    next
      case False
      then consider (pos) "drop_bit 5 b = 0" "v = cborInt n" "rest = rest1" | (neg) "drop_bit 5 b = 1" "v = cborInt (NOT n)" "rest = rest1"
        | (blob) "drop_bit 5 b = 2" "unat n \<le> length rest1" "v = cborBytes (take (unat n) rest1)" "rest = drop (unat n) rest1"
        | (words) "drop_bit 5 b = 3" "unat n \<le> length rest1" "v = cborText (bytes_str (take (unat n) rest1))" "rest = drop (unat n) rest1"
        | (ff) "drop_bit 5 b = 7" "b AND 0x1f = 20" "v = cborBool False" "rest = rest1"
        | (tt) "drop_bit 5 b = 7" "b AND 0x1f = 21" "v = cborBool True" "rest = rest1"
        using body by (auto split: if_splits)
      then show ?thesis
      proof cases
        case ff
        then have "rest1 = rest0" using len by (simp add: decodeCBORLen_def)
        with ff byte_split [of b] show ?thesis by (simp add: encodeCBORBool_def)
      next
        case tt
        then have "rest1 = rest0" using len by (simp add: decodeCBORLen_def)
        with tt byte_split [of b] show ?thesis by (simp add: encodeCBORBool_def)
      qed (use head expressible_int [of n] in \<open>simp_all add: encode_headers del: encodeCBOR.simps(1) expressible.simps(1)\<close>)
    qed
    with small show "b # rest0 = encodeCBOR v @ rest \<and> expressible v \<and> length (b # rest0) \<le> maxCBORBytes" by simp
  qed
next
  case (4 i pairs rest)
  show ?case
  proof (intro allI impI)
    fix qs rest'
    assume dec: "decodePairs (Suc i) pairs rest = Inr (qs, rest')" and keys: "\<forall>p \<in> set pairs. isMapKey (fst p)" and dist: "distinct (map fst pairs)"
    then obtain k rest1 v rest2 where k: "decodeCBOR rest = Inr (k, rest1)" "isMapKey k"
        "\<not> (\<exists>pair \<in> set pairs. sameCBORMapKey (fst pair) k)"
      and v: "decodeCBOR rest1 = Inr (v, rest2)" and ps: "decodePairs i (pairs @ [(k, v)]) rest2 = Inr (qs, rest')"
      by (auto simp: decodePairs.simps bindR_eq_Inr split: if_splits)
    have fresh: "k \<notin> fst ` set pairs" using k(3) keys by (auto simp: sameKey)
    have "rest = encodeCBOR k @ rest1 \<and> expressible k" using 4(1) k(1) by blast
    moreover have "rest1 = encodeCBOR v @ rest2 \<and> expressible v" using 4(2) [OF k(1) refl] k v by blast
    moreover have "\<exists>ts. qs = (pairs @ [(k, v)]) @ ts \<and> length ts = i \<and> rest2 = concat (map encodePair ts) @ rest' \<and>
        distinct (map fst qs) \<and> (\<forall>p \<in> set ts. pairOk p)"
      using 4(3) [OF k(1) refl _ k(3) v refl] k(2) ps keys dist fresh by auto
    ultimately obtain ts where ts: "qs = (pairs @ [(k, v)]) @ ts" "length ts = i" "rest2 = concat (map encodePair ts) @ rest'"
        "distinct (map fst qs)" "\<forall>p \<in> set ts. pairOk p"
      and here: "rest = encodeCBOR k @ rest1" "expressible k" "rest1 = encodeCBOR v @ rest2" "expressible v" by blast
    show "\<exists>ts. qs = pairs @ ts \<and> length ts = Suc i \<and> rest = concat (map encodePair ts) @ rest' \<and> distinct (map fst qs) \<and> (\<forall>p \<in> set ts. pairOk p)"
      by (intro exI [of _ "(k, v) # ts"]) (use ts here k(2) in auto)
  qed
qed simp_all

lemma decode_header:
  assumes "unat m < 8" and "unat n < 65536" and "length (header m n @ tail) \<le> maxCBORBytes"
  shows "decodeCBOR (header m n @ tail) =
     (if m = 0 then Inr (cborInt n, tail)
      else if m = 1 then Inr (cborInt (NOT n), tail)
      else if m = 2 then
        (if unat n > length tail then Inl (Errorf ''truncated cbor bytes'')
         else Inr (cborBytes (take (unat n) tail), drop (unat n) tail))
      else if m = 3 then
        (if unat n > length tail then Inl (Errorf ''truncated cbor text'')
         else Inr (cborText (bytes_str (take (unat n) tail)), drop (unat n) tail))
      else if m = 7 then
        (if additional n = 20 then Inr (cborBool False, tail)
         else if additional n = 21 then Inr (cborBool True, tail)
         else Inl (Errorf ''unsupported cbor simple value''))
      else if m = 5 then
        (if n > 16 then Inl (Errorf ''cbor map too large'')
         else bindR (decodePairs (unat n) [] tail) (\<lambda>(pairs, rest). Inr (cborMap pairs, rest)))
      else Inl (Errorf ''unsupported cbor major type %d''))"
proof -
  obtain b bs where h: "header m n = b # bs" "drop_bit 5 b = m" "b AND 0x1f = additional n"
    "\<And>rest. decodeCBORLen (b AND 0x1f) (bs @ rest) = Inr (n, rest)"
    using header_complete [OF assms(1,2)] by blast
  have "\<not> length (b # bs @ tail) > maxCBORBytes" using assms(3) h(1) by simp
  then show ?thesis
    unfolding h(1) append_Cons decodeCBOR.simps(2) h(4) using h(2,3) by (simp only: if_False bindR_Inr prod.case Let_def)
qed

lemma expressible_intE:
  assumes "expressible (cborInt i)"
  obtains n where "unat n < 65536" and "i = n \<and> 0 \<le> sint i \<or> i = NOT n \<and> sint i < 0"
proof (cases "0 \<le> sint i")
  case True
  have "uint i < 65536" using assms True by (simp add: uint_sint take_bit_int_eq_self)
  then have "unat i < 65536" using uint_nat [of i] by linarith
  with True that show thesis by blast
next
  case False
  have "0 \<le> sint (NOT i)" "sint (NOT i) < 65536" using assms False by (simp_all add: sint_not)
  then have "uint (NOT i) < 65536" by (simp add: uint_sint take_bit_int_eq_self)
  then have "unat (NOT i) < 65536" using uint_nat [of "NOT i"] by linarith
  with False that [of "NOT i"] show thesis by simp
qed

lemma decodePairs_complete:
  assumes "\<And>p rest. p \<in> set ts \<Longrightarrow> length (encodeCBOR (fst p) @ rest) \<le> maxCBORBytes \<Longrightarrow> decodeCBOR (encodeCBOR (fst p) @ rest) = Inr (fst p, rest)"
    and "\<And>p rest. p \<in> set ts \<Longrightarrow> length (encodeCBOR (snd p) @ rest) \<le> maxCBORBytes \<Longrightarrow> decodeCBOR (encodeCBOR (snd p) @ rest) = Inr (snd p, rest)"
    and "\<forall>p \<in> set ts. isMapKey (fst p)" and "\<forall>p \<in> set ps. isMapKey (fst p)" and "distinct (map fst (ps @ ts))"
    and "length (concat (map encodePair ts) @ rest) \<le> maxCBORBytes"
  shows "decodePairs (length ts) ps (concat (map encodePair ts) @ rest) = Inr (ps @ ts, rest)"
  using assms
proof (induction ts arbitrary: ps)
  case (Cons t ts)
  let ?r2 = "concat (map encodePair ts) @ rest"
  have k: "decodeCBOR (encodeCBOR (fst t) @ encodeCBOR (snd t) @ ?r2) = Inr (fst t, encodeCBOR (snd t) @ ?r2)"
    using Cons.prems(1) [of t "encodeCBOR (snd t) @ ?r2"] Cons.prems(6) by simp
  have v: "decodeCBOR (encodeCBOR (snd t) @ ?r2) = Inr (snd t, ?r2)"
    using Cons.prems(2) [of t ?r2] Cons.prems(6) by simp
  have "fst t \<notin> fst ` set ps" using Cons.prems(5) by simp
  then have fresh: "\<not> (\<exists>pair \<in> set ps. sameCBORMapKey (fst pair) (fst t))"
    using Cons.prems(4) sameKey by (metis image_eqI)
  have "decodePairs (length ts) (ps @ [t]) ?r2 = Inr ((ps @ [t]) @ ts, rest)"
    using Cons.prems by (intro Cons.IH) auto
  with k v fresh Cons.prems(3) show ?case by (simp add: decodePairs.simps)
qed simp

lemma decode_complete:
  "expressible v \<Longrightarrow> length (encodeCBOR v @ rest) \<le> maxCBORBytes \<Longrightarrow> decodeCBOR (encodeCBOR v @ rest) = Inr (v, rest)"
proof (induction v arbitrary: rest)
  case (cborInt i)
  then obtain n where n: "unat n < 65536" "i = n \<and> 0 \<le> sint i \<or> i = NOT n \<and> sint i < 0" by (blast elim: expressible_intE)
  then have "encodeCBOR (cborInt i) = header 0 n \<and> i = n \<or> encodeCBOR (cborInt i) = header 1 n \<and> i = NOT n"
    using expressible_int [OF n(1)] by auto
  with cborInt.prems(2) n(1) show ?case by (auto simp: decode_header)
next
  case (cborBytes b)
  then show ?case by (auto simp: encode_headers decode_header unat_length)
next
  case (cborText s)
  then show ?case using unat_length [of s] by (auto simp: encode_headers decode_header)
next
  case (cborMap ps)
  have len: "unat (word_of_nat (length ps) :: u64) = length ps" using cborMap.prems(1) by (intro unat_length) simp
  let ?tail = "concat (map encodePair ps) @ rest"
  have pairs: "decodePairs (length ps) [] ?tail = Inr ([] @ ps, rest)"
  proof (rule decodePairs_complete)
    fix p r assume p: "p \<in> set ps"
    then have "fst p \<in> Basic_BNFs.fsts p" "snd p \<in> Basic_BNFs.snds p" by (simp_all add: fsts.simps snds.simps)
    with cborMap.IH p cborMap.prems(1)
    show "length (encodeCBOR (fst p) @ r) \<le> maxCBORBytes \<Longrightarrow> decodeCBOR (encodeCBOR (fst p) @ r) = Inr (fst p, r)"
      and "length (encodeCBOR (snd p) @ r) \<le> maxCBORBytes \<Longrightarrow> decodeCBOR (encodeCBOR (snd p) @ r) = Inr (snd p, r)"
      by auto
  qed (use cborMap.prems in \<open>auto simp: encode_headers comp_def\<close>)
  have "decodeCBOR (header 5 (word_of_nat (length ps)) @ ?tail) = Inr (cborMap ps, rest)"
    using cborMap.prems pairs len by (subst decode_header) (auto simp: encode_headers comp_def word_less_nat_alt)
  then show ?case by (simp add: encode_headers comp_def)
next
  case (cborBool v)
  have "additional 20 = 20" "additional 21 = 21" "header 7 20 = [0xf4]" "header 7 21 = [0xf5]"
    by (simp_all add: additional_def header_def encodeCBORUnsigned_def)
  with decode_header [of 7 20 rest] decode_header [of 7 21 rest] cborBool.prems(2) show ?case
    by (auto simp: encodeCBORBool_def)
qed

text \<open>
  C21. The CBOR decoder accepts exactly the canonical encodings: it returns a value and the remaining
  input precisely when the input, of at most 4096 bytes, is the encoding of that value followed by
  the remainder, and the value is one the encoders can express (16-bit lengths and integers, maps of
  at most sixteen distinct integer or text keys). So no value has two accepted encodings.
\<close>

theorem cbor_decodes_canonical:
  "decodeCBOR bs = Inr (v, rest) \<longleftrightarrow> bs = encodeCBOR v @ rest \<and> expressible v \<and> length bs \<le> maxCBORBytes"
  using decode_sound(1) [of bs] decode_complete [of v rest] by blast

end
