(* ===== verification/P256.thy ===== *)
theory P256
  imports Sha256
begin

text \<open>
  The signatures of \<open>webauthn/der.go\<close> and \<open>p256.go\<close>, with what they use of Go's library: the DER
  subset of \<open>encoding/asn1\<close> for a sequence of two integers, big-endian numbers of \<open>math/big\<close>, and the
  curve P-256 of \<open>crypto/elliptic\<close> and \<open>crypto/ecdsa\<close> in affine coordinates.
\<close>

section \<open>Big-endian numbers\<close>

definition setBytes :: "bytes \<Rightarrow> nat" where
  "setBytes bs = foldl (\<lambda>n b. 256 * n + unat b) 0 bs"

fun fillBytes :: "nat \<Rightarrow> nat \<Rightarrow> bytes" where
  "fillBytes 0 n = []"
| "fillBytes (Suc k) n = fillBytes k (n div 256) @ [word_of_nat n]"

lemma length_fillBytes [simp]: "length (fillBytes k n) = k"
  by (induction k arbitrary: n) simp_all

lemma setBytes_snoc [simp]: "setBytes (bs @ [b]) = 256 * setBytes bs + unat b"
  by (simp add: setBytes_def)

lemma setBytes_Nil [simp]: "setBytes [] = 0"
  by (simp add: setBytes_def)

lemma setBytes_fillBytes: "n < 256 ^ k \<Longrightarrow> setBytes (fillBytes k n) = n"
  by (induction k arbitrary: n) (simp_all add: unat_of_nat less_mult_imp_div_less take_bit_eq_mod)

lemma fillBytes_setBytes: "fillBytes (length bs) (setBytes bs) = bs"
proof (induction bs rule: rev_induct)
  case (snoc b bs)
  have wrap: "(256 :: byte) = 0" by (simp add: word_unat_eq_iff)
  have "word_of_nat (256 * setBytes bs + unat b) = (256 :: byte) * word_of_nat (setBytes bs) + b" by simp
  also have "\<dots> = b" by (simp only: wrap mult_zero_left add_0_left)
  finally have "word_of_nat (256 * setBytes bs + unat b) = b" .
  with snoc unat_byte_less [of b] show ?case by simp
qed simp

lemma setBytes_less: "setBytes bs < 256 ^ length bs"
proof (induction bs rule: rev_induct)
  case (snoc b bs)
  then have "256 * Suc (setBytes bs) \<le> 256 * 256 ^ length bs" by simp
  with unat_byte_less [of b] show ?case by simp
qed simp

lemma fillBytes_inject: "m < 256 ^ k \<Longrightarrow> n < 256 ^ k \<Longrightarrow> fillBytes k m = fillBytes k n \<longleftrightarrow> m = n"
  by (metis setBytes_fillBytes)

section \<open>The curve\<close>

definition p256_p :: int where
  "p256_p = 0xffffffff00000001000000000000000000000000ffffffffffffffffffffffff"

definition p256_b :: int where
  "p256_b = 0x5ac635d8aa3a93e7b3ebbd55769886bc651d06b0cc53b0f63bce3c3e27d2604b"

definition p256_n :: int where
  "p256_n = 0xffffffff00000000ffffffffffffffffbce6faada7179e84f3b9cac2fc632551"

datatype point = Infinity | Affine int int

definition p256_G :: point where
  "p256_G = Affine 0x6b17d1f2e12c4247f8bce6e563a440f277037d812deb33a0f4a13945d898c296
     0x4fe342e2fe1a7f9b8ee7eb4a7c0f9e162bce33576b315ececbb6406837bf51f5"

text \<open>The right-hand side of the curve equation, and the points of the curve.\<close>

definition p256_rhs :: "int \<Rightarrow> int" where
  "p256_rhs x = (x * x * x - 3 * x + p256_b) mod p256_p"

definition onCurve :: "int \<Rightarrow> int \<Rightarrow> bool" where
  "onCurve x y \<longleftrightarrow> 0 \<le> x \<and> x < p256_p \<and> 0 \<le> y \<and> y < p256_p \<and> y * y mod p256_p = p256_rhs x"

function mod_pow :: "int \<Rightarrow> nat \<Rightarrow> int \<Rightarrow> int" where
  "mod_pow b e m =
     (if e = 0 then 1 mod m
      else let r = mod_pow (b * b mod m) (e div 2) m in if odd e then b * r mod m else r)"
  by pat_completeness auto
termination by (relation "measure (\<lambda>(b, e, m). e)") auto

declare mod_pow.simps [simp del]

text \<open>The inverse by the extended Euclidean algorithm.\<close>

function inverse_steps :: "int \<Rightarrow> int \<Rightarrow> int \<Rightarrow> int \<Rightarrow> int" where
  "inverse_steps r0 r1 t0 t1 =
     (if r1 \<le> 0 then t0 else inverse_steps r1 (r0 mod r1) t1 (t0 - r0 div r1 * t1))"
  by pat_completeness auto
termination by (relation "measure (\<lambda>(r0, r1, t0, t1). nat r1)") auto

declare inverse_steps.simps [simp del]

definition mod_inv :: "int \<Rightarrow> int \<Rightarrow> int" where
  "mod_inv a m = inverse_steps m (a mod m) 0 1 mod m"

fun point_add :: "point \<Rightarrow> point \<Rightarrow> point" where
  "point_add Infinity q = q"
| "point_add p Infinity = p"
| "point_add (Affine x1 y1) (Affine x2 y2) =
     (if x1 = x2 \<and> (y1 + y2) mod p256_p = 0 then Infinity
      else
        let k = (if x1 = x2 then (3 * x1 * x1 - 3) * mod_inv (2 * y1) p256_p else (y2 - y1) * mod_inv (x2 - x1) p256_p);
            x3 = (k * k - x1 - x2) mod p256_p
        in Affine x3 ((k * (x1 - x3) - y1) mod p256_p))"

function point_mult :: "nat \<Rightarrow> point \<Rightarrow> point" where
  "point_mult k p =
     (if k = 0 then Infinity
      else let q = point_mult (k div 2) (point_add p p) in if odd k then point_add p q else q)"
  by pat_completeness auto
termination by (relation "measure fst") auto

declare point_mult.simps [simp del]

section \<open>Keys and verification\<close>

type_synonym PublicKey = "int \<times> int"

definition ParseUncompressedPublicKey :: "bytes \<Rightarrow> PublicKey result" where
  "ParseUncompressedPublicKey data =
     (let x = int (setBytes (take 32 (drop 1 data))); y = int (setBytes (drop 33 data))
      in if length data \<noteq> 65 \<or> data ! 0 \<noteq> 4 \<or> \<not> onCurve x y then Inl (Errorf ''ecdsa: invalid uncompressed public key'')
         else Inr (x, y))"

text \<open>\<open>elliptic.UnmarshalCompressed\<close>: the root with the parity the prefix names, if there is one.\<close>

definition UnmarshalCompressed :: "bytes \<Rightarrow> (int \<times> int) option" where
  "UnmarshalCompressed b =
     (let x = int (setBytes (drop 1 b)); c = p256_rhs x; y = mod_pow c (nat ((p256_p + 1) div 4)) p256_p;
          y' = (if y mod 2 = int (unat (b ! 0)) mod 2 then y else (- y) mod p256_p)
      in if x < p256_p \<and> y * y mod p256_p = c then Some (x, y') else None)"

definition ParseCompressedP256 :: "bytes \<Rightarrow> PublicKey result" where
  "ParseCompressedP256 b =
     (if length b \<noteq> 33 then Inl (Errorf ''p256 must be 33-byte compressed'')
      else if b ! 0 \<noteq> 2 \<and> b ! 0 \<noteq> 3 then Inl (Errorf ''p256 compressed prefix'')
      else case UnmarshalCompressed b of
             None \<Rightarrow> Inl (Errorf ''p256 point is off-curve'')
           | Some (x, y) \<Rightarrow>
               (case ParseUncompressedPublicKey ([4] @ fillBytes 32 (nat x) @ fillBytes 32 (nat y)) of
                  Inl _ \<Rightarrow> Inl (Errorf ''p256 point is off-curve'')
                | Inr pub \<Rightarrow> Inr pub))"

text \<open>\<open>ecdsa.Verify\<close>: the leftmost 32 bytes of the hash as a number, and the standard equation.\<close>

definition ecdsa_verify :: "PublicKey \<Rightarrow> bytes \<Rightarrow> int \<Rightarrow> int \<Rightarrow> bool" where
  "ecdsa_verify pub hash r s \<longleftrightarrow>
     0 < r \<and> r < p256_n \<and> 0 < s \<and> s < p256_n \<and> onCurve (fst pub) (snd pub) \<and>
     (let e = int (setBytes (take 32 hash)); w = mod_inv s p256_n;
          u1 = e * w mod p256_n; u2 = r * w mod p256_n
      in case point_add (point_mult (nat u1) p256_G) (point_mult (nat u2) (Affine (fst pub) (snd pub))) of
           Infinity \<Rightarrow> False
         | Affine x y \<Rightarrow> x mod p256_n = r)"

text \<open>The part \<open>VerifyES256\<close> and \<open>VerifyDigestLowS\<close> share: the range checks and the equation.\<close>

definition verifyCompact :: "string \<Rightarrow> PublicKey \<Rightarrow> bytes \<Rightarrow> bytes \<Rightarrow> unit result" where
  "verifyCompact msg pub digest compact =
     (let r = int (setBytes (take 32 compact)); s = int (setBytes (drop 32 compact)) in
      if r \<le> 0 \<or> s \<le> 0 \<or> r \<ge> p256_n \<or> s \<ge> p256_n then Inl (Errorf ''compact signature out of range'')
      else if s > p256_n div 2 then Inl (Errorf ''compact signature is not low-S'')
      else if \<not> ecdsa_verify pub digest r s then Inl (Errorf msg)
      else Inr ())"

definition SignedMessage :: "bytes \<Rightarrow> bytes \<Rightarrow> bytes" where
  "SignedMessage authenticatorData clientDataJSON = authenticatorData @ sha256 clientDataJSON"

definition Digest :: "bytes \<Rightarrow> bytes \<Rightarrow> bytes" where
  "Digest authenticatorData clientDataJSON = sha256 (SignedMessage authenticatorData clientDataJSON)"

definition VerifyES256 :: "PublicKey option \<Rightarrow> bytes \<Rightarrow> bytes \<Rightarrow> bytes \<Rightarrow> unit result" where
  "VerifyES256 pub authenticatorData clientDataJSON compact =
     (case pub of
        None \<Rightarrow> Inl (Errorf ''nil p256 public key'')
      | Some k \<Rightarrow>
          if length compact \<noteq> 64 then Inl (Errorf ''compact signature must be 64 bytes'')
          else verifyCompact ''es256 signature invalid'' k (Digest authenticatorData clientDataJSON) compact)"

definition VerifyDigestLowS :: "PublicKey option \<Rightarrow> bytes \<Rightarrow> bytes \<Rightarrow> unit result" where
  "VerifyDigestLowS pub digest compact =
     (case pub of
        None \<Rightarrow> Inl (Errorf ''nil p256 public key'')
      | Some k \<Rightarrow>
          if length digest \<noteq> 32 then Inl (Errorf ''digest must be 32 bytes'')
          else if length compact \<noteq> 64 then Inl (Errorf ''compact signature must be 64 bytes'')
          else verifyCompact ''direct p256 signature invalid'' k digest compact)"

text \<open>The compact form of a signature, with \<open>s\<close> in the lower half of the order.\<close>

definition lowS :: "int \<Rightarrow> int" where
  "lowS s = (if s > p256_n div 2 then p256_n - s else s)"

definition compactBytes :: "int \<Rightarrow> int \<Rightarrow> bytes" where
  "compactBytes r s = fillBytes 32 (nat r) @ fillBytes 32 (nat (lowS s))"

text \<open>\<open>sig\<close> is what \<open>ecdsa.Sign\<close> returned for the key and the digest.\<close>

definition SignDigestLowS :: "(int \<times> int) result option \<Rightarrow> bytes \<Rightarrow> bytes result" where
  "SignDigestLowS sig digest =
     (case sig of
        None \<Rightarrow> Inl (Errorf ''nil p256 private key'')
      | Some made \<Rightarrow>
          if length digest \<noteq> 32 then Inl (Errorf ''digest must be 32 bytes'')
          else bindR made (\<lambda>(r, s). Inr (compactBytes r s)))"

section \<open>DER\<close>

text \<open>
  \<open>asn1.Unmarshal\<close> into a struct of two integers. An element is an identifier octet, a length and the
  content; bytes after the second integer of the sequence are ignored, as the library does. Which of
  its errors the library reports is not distinguished.
\<close>

fun asn1LongLength :: "nat \<Rightarrow> nat \<Rightarrow> bytes \<Rightarrow> (nat \<times> bytes) result" where
  "asn1LongLength 0 n rest = Inr (n, rest)"
| "asn1LongLength (Suc k) n [] = Inl (Errorf ''truncated tag or length'')"
| "asn1LongLength (Suc k) n (b # rest) =
     (if n \<ge> 2 ^ 23 then Inl (Errorf ''length too large'')
      else let n' = 256 * n + unat b
           in if n' = 0 then Inl (Errorf ''superfluous leading zeros in length'') else asn1LongLength k n' rest)"

fun asn1Length :: "bytes \<Rightarrow> (nat \<times> bytes) result" where
  "asn1Length [] = Inl (Errorf ''truncated tag or length'')"
| "asn1Length (b # rest) =
     (if unat b < 128 then Inr (unat b, rest)
      else if unat b = 128 then Inl (Errorf ''indefinite length found (not DER)'')
      else bindR (asn1LongLength (unat b - 128) 0 rest) (\<lambda>(n, rest).
        if n < 128 then Inl (Errorf ''non-minimal length'') else Inr (n, rest)))"

fun asn1Element :: "byte \<Rightarrow> bytes \<Rightarrow> (bytes \<times> bytes) result" where
  "asn1Element tag [] = Inl (Errorf ''sequence truncated'')"
| "asn1Element tag (b # rest) =
     (if b \<noteq> tag then Inl (Errorf ''tags don't match'')
      else bindR (asn1Length rest) (\<lambda>(n, rest).
        if n > length rest then Inl (Errorf ''data truncated'') else Inr (take n rest, drop n rest)))"

definition asn1Integer :: "bytes \<Rightarrow> int result" where
  "asn1Integer bs =
     (if bs = [] then Inl (Errorf ''empty integer'')
      else if length bs > 1 \<and>
          (bs ! 0 = 0 \<and> unat (bs ! 1) < 128 \<or> bs ! 0 = 0xff \<and> 128 \<le> unat (bs ! 1)) then
        Inl (Errorf ''integer not minimally-encoded'')
      else if 128 \<le> unat (bs ! 0) then Inr (int (setBytes bs) - 256 ^ length bs)
      else Inr (int (setBytes bs)))"

definition asn1Signature :: "bytes \<Rightarrow> ((int \<times> int) \<times> bytes) result" where
  "asn1Signature der =
     bindR (asn1Element 0x30 der) (\<lambda>(inner, rest).
     bindR (asn1Element 2 inner) (\<lambda>(rb, inner).
     bindR (asn1Integer rb) (\<lambda>r.
     bindR (asn1Element 2 inner) (\<lambda>(sb, _).
     bindR (asn1Integer sb) (\<lambda>s. Inr ((r, s), rest))))))"

definition canonicalScalar :: "int \<Rightarrow> string \<Rightarrow> unit result" where
  "canonicalScalar v name =
     (if v < 0 then Inl (Errorf ''der ecdsa: negative %s'')
      else if v = 0 then Inl (Errorf ''der ecdsa: zero %s'')
      else Inr ())"

definition CompactLowS :: "bytes \<Rightarrow> bytes result" where
  "CompactLowS der =
     bindR (wrapR ''der ecdsa'' (asn1Signature der)) (\<lambda>((r, s), rest).
     if rest \<noteq> [] then Inl (Errorf ''der ecdsa: trailing bytes'')
     else
       bindR (canonicalScalar r ''r'') (\<lambda>_.
       bindR (canonicalScalar s ''s'') (\<lambda>_.
       if r \<le> 0 \<or> r \<ge> p256_n then Inl (Errorf ''der ecdsa: r out of range'')
       else if s \<le> 0 \<or> s \<ge> p256_n then Inl (Errorf ''der ecdsa: s out of range'')
       else Inr (compactBytes r s))))"

text \<open>\<open>asn1.Marshal\<close> of two positive integers.\<close>

fun natBytes :: "nat \<Rightarrow> bytes" where
  "natBytes n = (if n = 0 then [] else natBytes (n div 256) @ [word_of_nat n])"

declare natBytes.simps [simp del]

definition asn1MarshalInteger :: "int \<Rightarrow> bytes" where
  "asn1MarshalInteger v =
     (let bs = natBytes (nat v); body = (if bs = [] \<or> 128 \<le> unat (bs ! 0) then 0 # bs else bs)
      in 2 # word_of_nat (length body) # body)"

definition asn1MarshalSignature :: "int \<Rightarrow> int \<Rightarrow> bytes" where
  "asn1MarshalSignature r s =
     (let body = asn1MarshalInteger r @ asn1MarshalInteger s in 0x30 # word_of_nat (length body) # body)"

section \<open>The compact form\<close>

lemma p256_n_bounds: "0 < p256_n" "p256_n < 256 ^ 32" "odd p256_n"
  by (simp_all add: p256_n_def)

lemma half_order: "2 * (p256_n div 2) = p256_n - 1"
  using p256_n_bounds(3) by presburger

lemma lowS_range: "0 < s \<Longrightarrow> s < p256_n \<Longrightarrow> 0 < lowS s \<and> lowS s \<le> p256_n div 2"
  using half_order by (auto simp: lowS_def)

lemma lowS_eq_iff:
  assumes "0 < s" "s < p256_n" "0 < t" "t < p256_n"
  shows "lowS s = lowS t \<longleftrightarrow> t = s \<or> t = p256_n - s"
  using assms half_order by (auto simp: lowS_def)

lemma scalar_fits: "0 < v \<Longrightarrow> v < p256_n \<Longrightarrow> nat v < 256 ^ 32"
  using p256_n_bounds(2) by (simp add: nat_less_iff)

lemma CompactLowS_iff:
  "CompactLowS der = Inr c \<longleftrightarrow>
     (\<exists>r s. asn1Signature der = Inr ((r, s), []) \<and> 0 < r \<and> r < p256_n \<and> 0 < s \<and> s < p256_n \<and> c = compactBytes r s)"
  by (auto simp: CompactLowS_def res_simps canonicalScalar_def split: if_splits)

lemma compact_parts:
  assumes "0 < r" "r < p256_n" "0 < s" "s < p256_n"
  shows "int (setBytes (take 32 (compactBytes r s))) = r" and "int (setBytes (drop 32 (compactBytes r s))) = lowS s"
    and "length (compactBytes r s) = 64"
proof -
  have "lowS s < p256_n" "0 < lowS s" using lowS_range [OF assms(3,4)] p256_n_bounds(1) by auto
  then show "int (setBytes (take 32 (compactBytes r s))) = r" "int (setBytes (drop 32 (compactBytes r s))) = lowS s"
    "length (compactBytes r s) = 64"
    using assms by (simp_all add: compactBytes_def setBytes_fillBytes [OF scalar_fits])
qed

text \<open>
  Compact signatures are a normal form. A signature that is accepted becomes 64 bytes: \<open>r\<close> and
  the smaller of \<open>s\<close> and the order minus \<open>s\<close>, both in the range the verifier asks for, so that
  verification can only fail on the curve equation. Another DER encoding has the same compact form
  exactly when it encodes the same \<open>r\<close> with \<open>s\<close> or its negation.
\<close>

theorem compact_is_normal_form:
  assumes "CompactLowS der = Inr c"
  shows "\<exists>r s. asn1Signature der = Inr ((r, s), []) \<and> length c = 64 \<and>
    int (setBytes (take 32 c)) = r \<and> int (setBytes (drop 32 c)) = min s (p256_n - s) \<and>
    (\<forall>msg pub digest. verifyCompact msg pub digest c =
       (if ecdsa_verify pub digest r (min s (p256_n - s)) then Inr () else Inl (Errorf msg))) \<and>
    (\<forall>other. CompactLowS other = Inr c \<longleftrightarrow>
       (\<exists>t \<in> {s, p256_n - s}. asn1Signature other = Inr ((r, t), [])))"
proof -
  from assms obtain r s where sig: "asn1Signature der = Inr ((r, s), [])" and r: "0 < r" "r < p256_n"
    and s: "0 < s" "s < p256_n" and c: "c = compactBytes r s" by (auto simp: CompactLowS_iff)
  note parts = compact_parts [OF r s]
  have low: "lowS s = min s (p256_n - s)" using half_order by (auto simp: lowS_def min_def)
  have "verifyCompact msg pub digest c = (if ecdsa_verify pub digest r (min s (p256_n - s)) then Inr () else Inl (Errorf msg))"
    for msg pub digest
    using r lowS_range [OF s] p256_n_bounds(1) unfolding verifyCompact_def Let_def c parts low [symmetric] by auto
  moreover have "CompactLowS other = Inr c \<longleftrightarrow> (\<exists>t \<in> {s, p256_n - s}. asn1Signature other = Inr ((r, t), []))" for other
  proof
    assume "CompactLowS other = Inr c"
    then obtain q t where o: "asn1Signature other = Inr ((q, t), [])" and q: "0 < q" "q < p256_n" and t: "0 < t" "t < p256_n"
      and same: "compactBytes r s = compactBytes q t" unfolding CompactLowS_iff c by blast
    from compact_parts [OF q t] parts same have "q = r" "lowS s = lowS t" by simp_all
    with o lowS_eq_iff [OF s t] show "\<exists>t \<in> {s, p256_n - s}. asn1Signature other = Inr ((r, t), [])" by auto
  next
    assume "\<exists>t \<in> {s, p256_n - s}. asn1Signature other = Inr ((r, t), [])"
    then obtain t where t: "t = s \<or> t = p256_n - s" and o: "asn1Signature other = Inr ((r, t), [])" by auto
    have t': "0 < t" "t < p256_n" using t s by auto
    then have "lowS s = lowS t" using lowS_eq_iff [OF s t'] t by simp
    with o r t' show "CompactLowS other = Inr c" by (auto simp: CompactLowS_iff c compactBytes_def)
  qed
  ultimately show ?thesis using sig parts c low by (intro exI [of _ r] exI [of _ s]) simp
qed

theorem compact_is_normal_form_witness:
  "CompactLowS [0x30, 6, 2, 1, 7, 2, 1, 9] = Inr (compactBytes 7 9) \<and>
   (\<exists>r s. asn1Signature [0x30, 6, 2, 1, 7, 2, 1, 9] = Inr ((r, s), []) \<and> length (compactBytes 7 9) = 64 \<and>
      int (setBytes (take 32 (compactBytes 7 9))) = r)"
proof -
  have "CompactLowS [0x30, 6, 2, 1, 7, 2, 1, 9] = Inr (compactBytes 7 9)"
    by (simp add: CompactLowS_def asn1Signature_def asn1Integer_def setBytes_def canonicalScalar_def p256_n_def)
  with compact_is_normal_form [OF this] show ?thesis by blast
qed

end
