(* ===== verification/Json.thy ===== *)
theory Json
  imports Bytes
begin

text \<open>
  What the sources use of Go's \<open>encoding/base64\<close> (the raw URL alphabet) and \<open>encoding/json\<close>
  (\<open>Unmarshal\<close>). A JSON text is parsed to a value; numbers are only recognised, since no field of the
  decoded structs is a number. Strings are unquoted to their UTF-8 bytes, with the replacement
  character for what is not valid.
\<close>

section \<open>Base64\<close>

definition b64_alphabet :: string where
  "b64_alphabet = ''ABCDEFGHIJKLMNOPQRSTUVWXYZabcdefghijklmnopqrstuvwxyz0123456789-_''"

definition b64_char :: "nat \<Rightarrow> char" where
  "b64_char n = b64_alphabet ! n"

definition b64_value :: "char \<Rightarrow> nat option" where
  "b64_value c =
     (if CHR ''A'' \<le> c \<and> c \<le> CHR ''Z'' then Some (of_char c - 65)
      else if CHR ''a'' \<le> c \<and> c \<le> CHR ''z'' then Some (of_char c - 71)
      else if CHR ''0'' \<le> c \<and> c \<le> CHR ''9'' then Some (of_char c + 4)
      else if c = CHR ''-'' then Some 62
      else if c = CHR ''_'' then Some 63
      else None)"

fun b64_encode :: "bytes \<Rightarrow> string" where
  "b64_encode [] = []"
| "b64_encode [a] = [b64_char (unat a div 4), b64_char (unat a mod 4 * 16)]"
| "b64_encode [a, b] = [b64_char (unat a div 4), b64_char (unat a mod 4 * 16 + unat b div 16), b64_char (unat b mod 16 * 4)]"
| "b64_encode (a # b # c # bs) =
     [b64_char (unat a div 4), b64_char (unat a mod 4 * 16 + unat b div 16),
      b64_char (unat b mod 16 * 4 + unat c div 64), b64_char (unat c mod 64)] @ b64_encode bs"

fun b64_join :: "nat list \<Rightarrow> bytes option" where
  "b64_join [] = Some []"
| "b64_join [w] = None"
| "b64_join [w, x] = Some [word_of_nat (w * 4 + x div 16)]"
| "b64_join [w, x, y] = Some [word_of_nat (w * 4 + x div 16), word_of_nat (x mod 16 * 16 + y div 4)]"
| "b64_join (w # x # y # z # vs) =
     map_option (\<lambda>bs. [word_of_nat (w * 4 + x div 16), word_of_nat (x mod 16 * 16 + y div 4), word_of_nat (y mod 4 * 64 + z)] @ bs)
       (b64_join vs)"

text \<open>Line breaks are skipped, and the unused bits of the last digit are not checked.\<close>

definition b64_decode :: "string \<Rightarrow> bytes option" where
  "b64_decode s =
     (let ds = map b64_value (filter (\<lambda>c. c \<noteq> CHR 0x0a \<and> c \<noteq> CHR 0x0d) s)
      in if None \<in> set ds then None else b64_join (map the ds))"

section \<open>UTF-8\<close>

abbreviation code :: "char \<Rightarrow> nat" where "code c \<equiv> of_char c"

definition between :: "nat \<Rightarrow> nat \<Rightarrow> char \<Rightarrow> bool" where
  "between lo hi c \<longleftrightarrow> lo \<le> code c \<and> code c \<le> hi"

abbreviation continuation :: "char \<Rightarrow> bool" where "continuation \<equiv> between 0x80 0xbf"

text \<open>The length of the valid sequence at the start of the text, 0 if there is none.\<close>

definition utf8_len :: "string \<Rightarrow> nat" where
  "utf8_len s =
     (case s of
        [] \<Rightarrow> 0
      | a # t \<Rightarrow>
          if code a < 0x80 then 1
          else if between 0xc2 0xdf a then (case t of b # _ \<Rightarrow> if continuation b then 2 else 0 | _ \<Rightarrow> 0)
          else if between 0xe0 0xef a then
            (case t of
               b # c # _ \<Rightarrow>
                 if between (if code a = 0xe0 then 0xa0 else 0x80) (if code a = 0xed then 0x9f else 0xbf) b \<and> continuation c then 3 else 0
             | _ \<Rightarrow> 0)
          else if between 0xf0 0xf4 a then
            (case t of
               b # c # d # _ \<Rightarrow>
                 if between (if code a = 0xf0 then 0x90 else 0x80) (if code a = 0xf4 then 0x8f else 0xbf) b \<and>
                   continuation c \<and> continuation d then 4 else 0
             | _ \<Rightarrow> 0)
          else 0)"

definition encode_rune :: "nat \<Rightarrow> string" where
  "encode_rune r =
     (if r < 0x80 then [char_of r]
      else if r < 0x800 then [char_of (0xc0 + r div 64), char_of (0x80 + r mod 64)]
      else if r < 0x10000 then [char_of (0xe0 + r div 4096), char_of (0x80 + r div 64 mod 64), char_of (0x80 + r mod 64)]
      else [char_of (0xf0 + r div 262144), char_of (0x80 + r div 4096 mod 64), char_of (0x80 + r div 64 mod 64), char_of (0x80 + r mod 64)])"

abbreviation replacement :: string where "replacement \<equiv> encode_rune 0xfffd"

section \<open>JSON texts\<close>

datatype json = JNull | JBool bool | JNumber | JString string | JArray "json list" | JObject "(string \<times> json) list"

definition is_ws :: "char \<Rightarrow> bool" where
  "is_ws c \<longleftrightarrow> c = CHR 0x20 \<or> c = CHR 0x09 \<or> c = CHR 0x0a \<or> c = CHR 0x0d"

abbreviation skip_ws :: "string \<Rightarrow> string" where "skip_ws \<equiv> dropWhile is_ws"

definition hex4 :: "string \<Rightarrow> nat option" where
  "hex4 s =
     (case s of
        a # b # c # d # _ \<Rightarrow>
          (case (hex_value a, hex_value b, hex_value c, hex_value d) of
             (Some w, Some x, Some y, Some z) \<Rightarrow> Some (((w * 16 + x) * 16 + y) * 16 + z)
           | _ \<Rightarrow> None)
      | _ \<Rightarrow> None)"

text \<open>\<open>getu4\<close>: the code unit of an escape at the start of the text.\<close>

definition getu4 :: "string \<Rightarrow> nat option" where
  "getu4 s = (if take 2 s = [CHR 0x5c, CHR ''u''] then hex4 (drop 2 s) else None)"

text \<open>The rune of an escape with code unit \<open>u\<close>, given the text after it, and the length of a second escape it uses.\<close>

definition escape_rune :: "nat \<Rightarrow> string \<Rightarrow> nat \<times> nat" where
  "escape_rune u rest =
     (if u < 0xd800 \<or> 0xe000 \<le> u then (u, 0)
      else
        (case getu4 rest of
           Some v \<Rightarrow>
             if u < 0xdc00 \<and> 0xdc00 \<le> v \<and> v < 0xe000 then (0x10000 + (u - 0xd800) * 1024 + (v - 0xdc00), 6)
             else (0xfffd, 0)
         | None \<Rightarrow> (0xfffd, 0)))"

definition simple_escape :: "char \<Rightarrow> char option" where
  "simple_escape c =
     (if c = CHR 0x22 \<or> c = CHR 0x5c \<or> c = CHR 0x2f then Some c
      else if c = CHR ''b'' then Some (CHR 0x08)
      else if c = CHR ''f'' then Some (CHR 0x0c)
      else if c = CHR ''n'' then Some (CHR 0x0a)
      else if c = CHR ''r'' then Some (CHR 0x0d)
      else if c = CHR ''t'' then Some (CHR 0x09)
      else None)"

text \<open>One character of a string literal: its unquoted text, and how many characters it takes beyond the first.\<close>

definition string_piece :: "string \<Rightarrow> (string \<times> nat) result" where
  "string_piece s =
     (let c = hd s; t = tl s in
      if c = CHR 0x5c then
        (case t of
           [] \<Rightarrow> Inl (Errorf ''unexpected end of JSON input'')
         | e # t' \<Rightarrow>
             if e = CHR ''u'' then
               (case hex4 t' of
                  None \<Rightarrow> Inl (Errorf ''invalid character in hexadecimal character escape'')
                | Some u \<Rightarrow> let (r, used) = escape_rune u (drop 4 t') in Inr (encode_rune r, 5 + used))
             else
               (case simple_escape e of
                  None \<Rightarrow> Inl (Errorf ''invalid character in string escape code'')
                | Some x \<Rightarrow> Inr ([x], 1)))
      else if code c < 0x20 then Inl (Errorf ''invalid character in string literal'')
      else if utf8_len s = 0 then Inr (replacement, 0)
      else Inr (take (utf8_len s) s, utf8_len s - 1))"

text \<open>The rest of a string literal after its opening quote: the unquoted text and what follows.\<close>

function unquote :: "string \<Rightarrow> (string \<times> string) result" where
  "unquote s =
     (if s = [] then Inl (Errorf ''unexpected end of JSON input'')
      else if hd s = CHR 0x22 then Inr ([], tl s)
      else
        bindR (string_piece s) (\<lambda>(x, n).
        bindR (unquote (drop (Suc n) s)) (\<lambda>(v, rest). Inr (x @ v, rest))))"
  by pat_completeness auto
termination by (relation "measure length") auto

declare unquote.simps [simp del]

text \<open>The text after a number, if one starts here.\<close>

definition digits1 :: "string \<Rightarrow> string option" where
  "digits1 s = (if s \<noteq> [] \<and> is_digit (hd s) then Some (dropWhile is_digit s) else None)"

definition scan_number :: "string \<Rightarrow> string option" where
  "scan_number s0 =
     (let s = (if take 1 s0 = ''-'' then drop 1 s0 else s0) in
      Option.bind (if take 1 s = ''0'' then Some (drop 1 s) else digits1 s) (\<lambda>s.
      Option.bind (if take 1 s = ''.'' then digits1 (drop 1 s) else Some s) (\<lambda>s.
      if take 1 s = ''e'' \<or> take 1 s = ''E'' then
        digits1 (let t = drop 1 s in if take 1 t = ''+'' \<or> take 1 t = ''-'' then drop 1 t else t)
      else Some s)))"

abbreviation maxNestingDepth :: nat where "maxNestingDepth \<equiv> 10000"

lemma unquote_shrinks: "unquote s = Inr (v, rest) \<Longrightarrow> length rest < length s"
proof (induction s arbitrary: v rest rule: unquote.induct)
  case (1 s)
  show ?case
  proof (cases "s = [] \<or> hd s = CHR 0x22")
    case True
    with 1(2) show ?thesis by (cases s) (auto simp: unquote.simps)
  next
    case False
    then obtain x n v' where "string_piece s = Inr (x, n)" "unquote (drop (Suc n) s) = Inr (v', rest)"
      using 1(2) by (subst (asm) unquote.simps) (auto simp: bindR_eq_Inr)
    with 1(1) False have "length rest < length (drop (Suc n) s)" by blast
    then show ?thesis by simp
  qed
qed

lemma digits1_shrinks: "digits1 s = Some rest \<Longrightarrow> length rest < length s"
  by (cases s) (auto simp: digits1_def le_imp_less_Suc length_dropWhile_le split: if_splits)

lemma scan_number_shrinks:
  assumes "scan_number s = Some rest"
  shows "length rest < length s"
proof -
  have opt: "length (if b then drop 1 t else t) \<le> length t" for b and t :: string by simp
  let ?s = "if take 1 s = ''-'' then drop 1 s else s"
  from assms obtain a b where a: "(if take 1 ?s = ''0'' then Some (drop 1 ?s) else digits1 ?s) = Some a"
    and b: "(if take 1 a = ''.'' then digits1 (drop 1 a) else Some a) = Some b"
    and c: "(if take 1 b = ''e'' \<or> take 1 b = ''E'' then
        digits1 (if take 1 (drop 1 b) = ''+'' \<or> take 1 (drop 1 b) = ''-'' then drop 1 (drop 1 b) else drop 1 b) else Some b) = Some rest"
    unfolding scan_number_def Let_def bind_eq_Some_conv by blast
  have "length a < length ?s" using a by (cases ?s) (auto split: if_splits dest: digits1_shrinks)
  moreover have "length b \<le> length a" using b by (auto split: if_splits dest: digits1_shrinks)
  moreover have "length rest \<le> length b" using c by (auto split: if_splits dest!: digits1_shrinks)
  ultimately show ?thesis using opt [of "take 1 s = ''-''" s] by linarith
qed

lemma ws_Cons: "skip_ws s = c # t \<Longrightarrow> length t < length s"
  by (metis length_Cons length_dropWhile_le less_eq_Suc_le)

function (sequential) parse_value :: "nat \<Rightarrow> string \<Rightarrow> (json \<times> string) result"
  and parse_elements :: "nat \<Rightarrow> json list \<Rightarrow> string \<Rightarrow> (json list \<times> string) result"
  and parse_members :: "nat \<Rightarrow> (string \<times> json) list \<Rightarrow> string \<Rightarrow> ((string \<times> json) list \<times> string) result" where
  "parse_value depth s =
     (case skip_ws s of
        [] \<Rightarrow> Inl (Errorf ''unexpected end of JSON input'')
      | c # t \<Rightarrow>
          if c = CHR 0x22 then bindR (unquote t) (\<lambda>(v, rest). Inr (JString v, rest))
          else if c = CHR ''{'' then
            (if depth \<ge> maxNestingDepth then Inl (Errorf ''exceeded max depth'')
             else if take 1 (skip_ws t) = ''}'' then Inr (JObject [], drop 1 (skip_ws t))
             else bindR (parse_members (Suc depth) [] t) (\<lambda>(ms, rest). Inr (JObject ms, rest)))
          else if c = CHR ''['' then
            (if depth \<ge> maxNestingDepth then Inl (Errorf ''exceeded max depth'')
             else if take 1 (skip_ws t) = '']'' then Inr (JArray [], drop 1 (skip_ws t))
             else bindR (parse_elements (Suc depth) [] t) (\<lambda>(vs, rest). Inr (JArray vs, rest)))
          else if take 4 (c # t) = ''true'' then Inr (JBool True, drop 3 t)
          else if take 5 (c # t) = ''false'' then Inr (JBool False, drop 4 t)
          else if take 4 (c # t) = ''null'' then Inr (JNull, drop 3 t)
          else
            (case scan_number (c # t) of
               None \<Rightarrow> Inl (Errorf ''invalid character looking for beginning of value'')
             | Some rest \<Rightarrow> Inr (JNumber, rest)))"
| "parse_elements depth vs s =
     bindR (parse_value depth s) (\<lambda>(v, rest).
     case skip_ws rest of
       c # t \<Rightarrow>
         if c = CHR '','' then parse_elements depth (vs @ [v]) t
         else if c = CHR '']'' then Inr (vs @ [v], t)
         else Inl (Errorf ''invalid character after array element'')
     | [] \<Rightarrow> Inl (Errorf ''unexpected end of JSON input''))"
| "parse_members depth ms s =
     (case skip_ws s of
        c # t \<Rightarrow>
          if c \<noteq> CHR 0x22 then Inl (Errorf ''invalid character looking for beginning of object key string'')
          else
            bindR (unquote t) (\<lambda>(key, rest1).
            case skip_ws rest1 of
              d # u \<Rightarrow>
                if d \<noteq> CHR '':'' then Inl (Errorf ''invalid character after object key'')
                else
                  bindR (parse_value depth u) (\<lambda>(v, rest2).
                  case skip_ws rest2 of
                    e # w \<Rightarrow>
                      if e = CHR '','' then parse_members depth (ms @ [(key, v)]) w
                      else if e = CHR ''}'' then Inr (ms @ [(key, v)], w)
                      else Inl (Errorf ''invalid character after object key:value pair'')
                  | [] \<Rightarrow> Inl (Errorf ''unexpected end of JSON input''))
            | [] \<Rightarrow> Inl (Errorf ''unexpected end of JSON input''))
      | [] \<Rightarrow> Inl (Errorf ''unexpected end of JSON input''))"
  by pat_completeness auto

termination
proof -
  have shrinks:
    "parse_value_parse_elements_parse_members_dom (Inl (d, s)) \<Longrightarrow>
    (\<forall>v rest. parse_value d s = Inr (v, rest) \<longrightarrow> length rest < length s)"
    "parse_value_parse_elements_parse_members_dom (Inr (Inl (d, vs, s))) \<Longrightarrow>
    (\<forall>ws rest. parse_elements d vs s = Inr (ws, rest) \<longrightarrow> length rest < length s)"
    "parse_value_parse_elements_parse_members_dom (Inr (Inr (d, ms, s))) \<Longrightarrow>
    (\<forall>ns rest. parse_members d ms s = Inr (ns, rest) \<longrightarrow> length rest < length s)" for d s vs ms
  proof (induction rule: parse_value_parse_elements_parse_members.pinduct)
    case (1 d s)
    show ?case
    proof (intro allI impI)
      fix v rest assume "parse_value d s = Inr (v, rest)"
      note dec = this [unfolded parse_value.psimps [OF 1(1)]]
      then obtain c t where ct: "skip_ws s = c # t" by (cases "skip_ws s") auto
      have "length rest \<le> length t"
      proof (cases "c = CHR ''{'' \<or> c = CHR ''[''")
        case True
        then show ?thesis
          using dec ct 1(2) [OF ct] 1(3) [OF ct] length_dropWhile_le [of is_ws t]
          by (fastforce simp: bindR_eq_Inr split: if_splits)
      next
        case False
        then show ?thesis
          using dec ct scan_number_shrinks [of "c # t" rest]
          by (auto simp: bindR_eq_Inr split: if_splits option.splits dest!: unquote_shrinks)
      qed
      with ws_Cons [OF ct] show "length rest < length s" by simp
    qed
  next
    case (2 d vs s)
    show ?case
    proof (intro allI impI)
      fix ws rest assume "parse_elements d vs s = Inr (ws, rest)"
      note dec = this [unfolded parse_elements.psimps [OF 2(1)] bindR_eq_Inr]
      then obtain v rest1 where v: "parse_value d s = Inr (v, rest1)" and
        next1: "(case skip_ws rest1 of
           c # t \<Rightarrow>
             if c = CHR '','' then parse_elements d (vs @ [v]) t
             else if c = CHR '']'' then Inr (vs @ [v], t)
             else Inl (Errorf ''invalid character after array element'')
         | [] \<Rightarrow> Inl (Errorf ''unexpected end of JSON input'')) = Inr (ws, rest)" by auto
      from next1 obtain c t where ct: "skip_ws rest1 = c # t" by (cases "skip_ws rest1") simp_all
      have more: "c = CHR '','' \<and> parse_elements d (vs @ [v]) t = Inr (ws, rest) \<or> rest = t"
        using next1 unfolding ct list.case by (cases "c = CHR '',''"; cases "c = CHR '']''") simp_all
      have "length rest \<le> length t" using more 2(3) [OF v refl ct] by (auto dest: less_imp_le)
      with ws_Cons [OF ct] 2(2) v show "length rest < length s" by fastforce
    qed
  next
    case (3 d ms s)
    show ?case
    proof (intro allI impI)
      fix ns rest assume "parse_members d ms s = Inr (ns, rest)"
      note dec = this [unfolded parse_members.psimps [OF 3(1)]]
      then obtain c t where ct: "skip_ws s = c # t" by (cases "skip_ws s") simp_all
      then have c: "c = CHR 0x22" using dec by (cases "c = CHR 0x22") simp_all
      note t = ct [unfolded c] and dec1 = dec [unfolded ct list.case c bindR_eq_Inr, simplified]
      from dec1 obtain key rest1 where key: "unquote t = Inr (key, rest1)" by (cases "unquote t") auto
      note dec2 = dec1 [unfolded key, simplified]
      then obtain c2 u where cu: "skip_ws rest1 = c2 # u" by (cases "skip_ws rest1") simp_all
      then have c2: "c2 = CHR '':''" using dec2 by (cases "c2 = CHR '':''") simp_all
      note u = cu [unfolded c2] and dec3 = dec2 [unfolded cu list.case c2 bindR_eq_Inr, simplified]
      from dec3 obtain v rest2 where v: "parse_value d u = Inr (v, rest2)" by (cases "parse_value d u") auto
      note dec4 = dec3 [unfolded v, simplified]
      then obtain e w where w: "skip_ws rest2 = e # w" by (cases "skip_ws rest2") simp_all
      have more: "e = CHR '','' \<and> parse_members d (ms @ [(key, v)]) w = Inr (ns, rest) \<or> rest = w"
        using dec4 unfolding w list.case by (cases "e = CHR '',''"; cases "e = CHR ''}''") simp_all
      have "length rest \<le> length w" using more 3(3) [OF t _ key refl u _ v refl w] by (auto dest: less_imp_le)
      moreover have "length rest2 < length u" using 3(2) [OF t _ key refl u] v by simp
      ultimately show "length rest < length s"
        using ws_Cons [OF t] ws_Cons [OF u] ws_Cons [OF w] unquote_shrinks [OF key] by linarith
    qed
  qed
  show ?thesis
    by (relation "measure (case_sum (\<lambda>(d, s). 2 * length s) (case_sum (\<lambda>(d, vs, s). 2 * length s + 1) (\<lambda>(d, ms, s). 2 * length s + 1)))") (auto dest!: ws_Cons unquote_shrinks shrinks(1) [rule_format])
qed

declare parse_value.simps [simp del] parse_elements.simps [simp del] parse_members.simps [simp del]

text \<open>\<open>json.Unmarshal\<close> accepts one value with nothing but white space after it.\<close>

definition parse_json :: "bytes \<Rightarrow> json result" where
  "parse_json data =
     bindR (parse_value 0 (bytes_str data)) (\<lambda>(v, rest).
     if skip_ws rest \<noteq> [] then Inl (Errorf ''invalid character after top-level value'') else Inr v)"

end
