(* ===== verification/WebAuthn.thy ===== *)
theory WebAuthn
  imports Cbor P256 Json
begin

text \<open>
  The ceremonies of \<open>webauthn/assert.go\<close> and \<open>create.go\<close>: an assertion is checked against what the
  server expects, a new credential is taken from the authenticator data of a create ceremony. The
  builders of \<open>create.go\<close> and \<open>synth.go\<close> produce what an authenticator sends.
\<close>

section \<open>Client data\<close>

record ClientData =
  cd_Type :: string
  cd_Challenge :: string
  cd_Origin :: string
  cd_CrossOrigin :: "bool option"

definition noClientData :: ClientData where
  "noClientData = \<lparr> cd_Type = [], cd_Challenge = [], cd_Origin = [], cd_CrossOrigin = None \<rparr>"

text \<open>
  The case folding by which \<open>encoding/json\<close> matches keys. Outside ASCII only the long s and the
  Kelvin sign fold to a letter.
\<close>

definition upper_char :: "char \<Rightarrow> char" where
  "upper_char c = (if CHR ''a'' \<le> c \<and> c \<le> CHR ''z'' then char_of (code c - 32) else c)"

function foldName :: "string \<Rightarrow> string" where
  "foldName s =
     (if s = [] then []
      else if code (hd s) < 0x80 then upper_char (hd s) # foldName (tl s)
      else if utf8_len s = 0 then replacement @ foldName (tl s)
      else
        (if take (utf8_len s) s = encode_rune 0x17f then ''S''
         else if take (utf8_len s) s = encode_rune 0x212a then ''K''
         else take (utf8_len s) s) @ foldName (drop (utf8_len s) s))"
  by pat_completeness auto
termination by (relation "measure length") auto

declare foldName.simps [simp del]

definition clientField :: "string \<Rightarrow> string option" where
  "clientField key =
     (let names = [''type'', ''challenge'', ''origin'', ''crossOrigin''] in
      case find (\<lambda>n. n = key) names of
        Some n \<Rightarrow> Some n
      | None \<Rightarrow> find (\<lambda>n. foldName n = foldName key) names)"

fun jsonText :: "json \<Rightarrow> string \<Rightarrow> string result" where
  "jsonText JNull old = Inr old"
| "jsonText (JString s) old = Inr s"
| "jsonText _ old = Inl (Errorf ''json: cannot unmarshal value into Go value of type string'')"

fun jsonFlag :: "json \<Rightarrow> bool option result" where
  "jsonFlag JNull = Inr None"
| "jsonFlag (JBool b) = Inr (Some b)"
| "jsonFlag _ = Inl (Errorf ''json: cannot unmarshal value into Go value of type bool'')"

definition setClientField :: "ClientData \<Rightarrow> string \<times> json \<Rightarrow> ClientData result" where
  "setClientField cd kv =
     (case clientField (fst kv) of
        None \<Rightarrow> Inr cd
      | Some n \<Rightarrow>
          if n = ''type'' then bindR (jsonText (snd kv) (cd_Type cd)) (\<lambda>v. Inr (cd\<lparr> cd_Type := v \<rparr>))
          else if n = ''challenge'' then bindR (jsonText (snd kv) (cd_Challenge cd)) (\<lambda>v. Inr (cd\<lparr> cd_Challenge := v \<rparr>))
          else if n = ''origin'' then bindR (jsonText (snd kv) (cd_Origin cd)) (\<lambda>v. Inr (cd\<lparr> cd_Origin := v \<rparr>))
          else bindR (jsonFlag (snd kv)) (\<lambda>v. Inr (cd\<lparr> cd_CrossOrigin := v \<rparr>)))"

fun setClientFields :: "ClientData \<Rightarrow> (string \<times> json) list \<Rightarrow> ClientData result" where
  "setClientFields cd [] = Inr cd"
| "setClientFields cd (kv # kvs) = bindR (setClientField cd kv) (\<lambda>cd. setClientFields cd kvs)"

definition unmarshalClientData :: "bytes \<Rightarrow> ClientData result" where
  "unmarshalClientData data =
     bindR (parse_json data) (\<lambda>v.
     case v of
       JNull \<Rightarrow> Inr noClientData
     | JObject kvs \<Rightarrow> setClientFields noClientData kvs
     | _ \<Rightarrow> Inl (Errorf ''json: cannot unmarshal value into Go value of type webauthn.ClientData''))"

text \<open>An object as a map of raw values: the last member with a key counts.\<close>

fun jsonMembers :: "json \<Rightarrow> (string \<times> json) list option" where
  "jsonMembers (JObject kvs) = Some kvs"
| "jsonMembers JNull = Some []"
| "jsonMembers _ = None"

definition member :: "string \<Rightarrow> (string \<times> json) list \<Rightarrow> json option" where
  "member key kvs = map_of (rev kvs) key"

definition ContainsPRFField :: "bytes \<Rightarrow> bool" where
  "ContainsPRFField raw =
     (case parse_json raw of
        Inl _ \<Rightarrow> False
      | Inr v \<Rightarrow>
          (case jsonMembers v of
             None \<Rightarrow> False
           | Some obj \<Rightarrow>
               member ''prf'' obj \<noteq> None \<or>
               (case member ''clientExtensionResults'' obj of
                  None \<Rightarrow> False
                | Some ext \<Rightarrow>
                    (case jsonMembers ext of None \<Rightarrow> False | Some extObj \<Rightarrow> member ''prf'' extObj \<noteq> None))))"

section \<open>Assertions\<close>

abbreviation flagUP :: byte where "flagUP \<equiv> 0x01"
abbreviation flagUV :: byte where "flagUV \<equiv> 0x04"
abbreviation flagAT :: byte where "flagAT \<equiv> 0x40"
abbreviation flagED :: byte where "flagED \<equiv> 0x80"
abbreviation maxClientDataJSON :: nat where "maxClientDataJSON \<equiv> 4096"

record Assertion =
  as_CredentialID :: bytes
  as_ClientDataJSON :: bytes
  as_AuthenticatorData :: bytes
  as_DERSignature :: bytes

record Expected =
  ex_CredentialID :: bytes
  ex_WebAuthnP256 :: bytes
  ex_Challenge :: bytes
  ex_Origin :: string
  ex_RPID :: string

record Verified =
  ve_Assertion :: Assertion
  ve_CompactSig :: bytes
  ve_ClientData :: ClientData
  ve_SignCount :: u32

definition decodeChallenge :: "string \<Rightarrow> bytes result" where
  "decodeChallenge s =
     (case b64_decode s of
        None \<Rightarrow> Inl (Errorf ''challenge encoding'')
      | Some raw \<Rightarrow> Inr raw)"

definition EncodeChallenge :: "bytes \<Rightarrow> string" where
  "EncodeChallenge raw = b64_encode raw"

definition SignCount :: "bytes \<Rightarrow> u32" where
  "SignCount authData =
     (if length authData < 37 then 0
      else push_bit 24 (ucast (authData ! 33)) OR push_bit 16 (ucast (authData ! 34)) OR
        push_bit 8 (ucast (authData ! 35)) OR ucast (authData ! 36))"

text \<open>
  The checks both ceremonies make of the client data and of the authenticator data. (An error is
  named by its text without arguments; the two ceremonies print the origin differently.)
\<close>

definition checkClientData :: "string \<Rightarrow> bytes \<Rightarrow> string \<Rightarrow> bytes \<Rightarrow> ClientData result" where
  "checkClientData type challenge origin clientDataJSON =
     bindR (wrapR ''clientDataJSON'' (unmarshalClientData clientDataJSON)) (\<lambda>cd.
     if cd_Type cd \<noteq> type then Inl (Errorf ''clientDataJSON type %q'')
     else if cd_Origin cd \<noteq> origin then Inl (Errorf ''origin'')
     else if cd_CrossOrigin cd = None \<or> cd_CrossOrigin cd = Some True then Inl (Errorf ''crossOrigin must be false'')
     else
       bindR (decodeChallenge (cd_Challenge cd)) (\<lambda>gotChallenge.
       if gotChallenge \<noteq> challenge then Inl (Errorf ''challenge mismatch'') else Inr cd))"

definition checkPresence :: "string \<Rightarrow> bytes \<Rightarrow> unit result" where
  "checkPresence rpID authenticatorData =
     (let flags = authenticatorData ! 32 in
      if take 32 authenticatorData \<noteq> sha256 (str_bytes rpID) then Inl (Errorf ''rpIdHash mismatch'')
      else if flags AND flagUP = 0 then Inl (Errorf ''user presence required'')
      else if flags AND flagUV = 0 then Inl (Errorf ''user verification required'')
      else Inr ())"

definition Validate :: "Assertion \<Rightarrow> Expected \<Rightarrow> Verified result" where
  "Validate a exp =
     (if as_CredentialID a \<noteq> ex_CredentialID exp then Inl (Errorf ''unknown credential'')
      else if length (ex_WebAuthnP256 exp) \<noteq> 33 then Inl (Errorf ''registered webauthn p256 key must be 33-byte compressed'')
      else if length (ex_Challenge exp) \<noteq> 32 then Inl (Errorf ''challenge must be 32-byte arkade sighash'')
      else if length (as_AuthenticatorData a) < 37 then Inl (Errorf ''authenticatorData too short'')
      else if length (as_ClientDataJSON a) = 0 \<or> length (as_ClientDataJSON a) > maxClientDataJSON then
        Inl (Errorf ''clientDataJSON too large'')
      else
        bindR (checkClientData ''webauthn.get'' (ex_Challenge exp) (ex_Origin exp) (as_ClientDataJSON a)) (\<lambda>cd.
        bindR (checkPresence (ex_RPID exp) (as_AuthenticatorData a)) (\<lambda>_.
        bindR (CompactLowS (as_DERSignature a)) (\<lambda>compact.
        bindR (ParseCompressedP256 (ex_WebAuthnP256 exp)) (\<lambda>pub.
        bindR (VerifyES256 (Some pub) (as_AuthenticatorData a) (as_ClientDataJSON a) compact) (\<lambda>_.
        Inr \<lparr> ve_Assertion = a, ve_CompactSig = compact, ve_ClientData = cd, ve_SignCount = SignCount (as_AuthenticatorData a) \<rparr>))))))"

definition ChallengeFromClientDataJSON :: "bytes \<Rightarrow> bytes result" where
  "ChallengeFromClientDataJSON clientDataJSON =
     bindR (wrapR ''clientDataJSON'' (unmarshalClientData clientDataJSON)) (\<lambda>cd.
     bindR (decodeChallenge (cd_Challenge cd)) (\<lambda>raw.
     if length raw \<noteq> 32 then Inl (Errorf ''challenge must be 32 bytes'') else Inr raw))"

section \<open>Creating a credential\<close>

abbreviation coseKtyEC2 :: i64 where "coseKtyEC2 \<equiv> 2"
abbreviation coseAlgES256 :: i64 where "coseAlgES256 \<equiv> - 7"
abbreviation coseCrvP256 :: i64 where "coseCrvP256 \<equiv> 1"

record CreateResult =
  cc_CredentialID :: bytes
  cc_WebAuthnP256 :: bytes

definition compressedP256XY :: "bytes \<Rightarrow> bytes \<Rightarrow> bytes result" where
  "compressedP256XY x y =
     (if length x \<noteq> 32 \<or> length y \<noteq> 32 then Inl (Errorf ''p256 coordinates'')
      else
        (case ParseUncompressedPublicKey ([4] @ x @ y) of
           Inl _ \<Rightarrow> Inl (Errorf ''p256 point is off-curve'')
         | Inr _ \<Rightarrow>
             let out = (if last y AND 1 = 1 then 3 else 2) # x
             in bindR (ParseCompressedP256 out) (\<lambda>_. Inr out)))"

definition coordinate :: "cborValue \<Rightarrow> i64 \<Rightarrow> string \<Rightarrow> bytes result" where
  "coordinate val key msg =
     (case mapInt val key of
        Some (cborBytes b) \<Rightarrow> if length b \<noteq> 32 then Inl (Errorf msg) else Inr b
      | _ \<Rightarrow> Inl (Errorf msg))"

definition parseCOSEES256 :: "bytes \<Rightarrow> (bytes \<times> bytes) result" where
  "parseCOSEES256 raw =
     bindR (wrapR ''cose key'' (decodeCBOR raw)) (\<lambda>(val, rest).
     if mapInt val 1 \<noteq> Some (cborInt coseKtyEC2) then Inl (Errorf ''cose kty must be EC2'')
     else if mapInt val 3 \<noteq> Some (cborInt coseAlgES256) then Inl (Errorf ''cose alg must be ES256'')
     else if mapInt val (- 1) \<noteq> Some (cborInt coseCrvP256) then Inl (Errorf ''cose curve must be P-256'')
     else
       bindR (coordinate val (- 2) ''cose x must be 32 bytes'') (\<lambda>x.
       bindR (coordinate val (- 3) ''cose y must be 32 bytes'') (\<lambda>y.
       bindR (compressedP256XY x y) (\<lambda>compressed. Inr (compressed, rest)))))"

fun nonEmptyMap :: "cborValue \<Rightarrow> bool" where
  "nonEmptyMap (cborMap ps) \<longleftrightarrow> ps \<noteq> []"
| "nonEmptyMap _ \<longleftrightarrow> False"

definition extractAttestedCredential :: "bytes \<Rightarrow> CreateResult result" where
  "extractAttestedCredential auth =
     (let hdr = 37 + 16 + 2 in
      if length auth < hdr then Inl (Errorf ''attested credential data truncated'')
      else
        let credLen = setBytes [auth ! 53, auth ! 54] in
        if credLen = 0 \<or> hdr + credLen \<ge> length auth then Inl (Errorf ''attested credential id truncated'')
        else
          let credID = take credLen (drop hdr auth) in
          bindR (parseCOSEES256 (drop (hdr + credLen) auth)) (\<lambda>(compressed, rest).
          bindR (if auth ! 32 AND flagED \<noteq> 0 then
                   (if rest = [] then Inl (Errorf ''authenticator extensions required'')
                    else
                      bindR (wrapR ''authenticator extensions'' (decodeCBOR rest)) (\<lambda>(ext, rest).
                      if \<not> nonEmptyMap ext then Inl (Errorf ''authenticator extensions must be a non-empty map'')
                      else if rest \<noteq> [] then Inl (Errorf ''trailing authenticator extension data'')
                      else Inr ()))
                 else if rest \<noteq> [] then Inl (Errorf ''unexpected trailing authenticator data'')
                 else Inr ()) (\<lambda>_.
          Inr \<lparr> cc_CredentialID = credID, cc_WebAuthnP256 = compressed \<rparr>)))"

definition ValidateCreate :: "bytes \<Rightarrow> bytes \<Rightarrow> bytes \<Rightarrow> string \<Rightarrow> string \<Rightarrow> CreateResult result" where
  "ValidateCreate clientDataJSON authenticatorData challenge origin rpID =
     (if length challenge \<noteq> 32 then Inl (Errorf ''challenge must be 32 bytes'')
      else if length authenticatorData < 37 then Inl (Errorf ''authenticatorData too short'')
      else if length clientDataJSON = 0 \<or> length clientDataJSON > maxClientDataJSON then Inl (Errorf ''clientDataJSON too large'')
      else
        bindR (checkClientData ''webauthn.create'' challenge origin clientDataJSON) (\<lambda>_.
        bindR (checkPresence rpID authenticatorData) (\<lambda>_.
        if authenticatorData ! 32 AND flagAT = 0 then Inl (Errorf ''attested credential data required'')
        else extractAttestedCredential authenticatorData)))"

definition ParseAttestationObject :: "bytes \<Rightarrow> bytes result" where
  "ParseAttestationObject raw =
     bindR (wrapR ''attestationObject'' (decodeCBOR raw)) (\<lambda>(val, rest).
     if rest \<noteq> [] then Inl (Errorf ''attestationObject trailing data'')
     else
       (case mapText val ''fmt'' of
          Some (cborText fmt) \<Rightarrow>
            if fmt \<noteq> ''none'' then Inl (Errorf ''unsupported attestation format %q'')
            else
              (case mapText val ''authData'' of
                 Some (cborBytes auth) \<Rightarrow>
                   if length auth < 37 then Inl (Errorf ''attestationObject authData required'') else Inr auth
               | _ \<Rightarrow> Inl (Errorf ''attestationObject authData required''))
        | _ \<Rightarrow> Inl (Errorf ''attestationObject fmt required'')))"

section \<open>What an authenticator sends\<close>

definition EncodeCOSEES256 :: "bytes \<Rightarrow> bytes result" where
  "EncodeCOSEES256 compressed =
     bindR (ParseCompressedP256 compressed) (\<lambda>(x, y). Inr (encodeCBORMap
       [encodeCBORUnsigned 1 @ encodeCBORUnsigned coseKtyEC2,
        encodeCBORUnsigned 3 @ encodeCBORNegative coseAlgES256,
        encodeCBORNegative (- 1) @ encodeCBORUnsigned coseCrvP256,
        encodeCBORNegative (- 2) @ encodeCBORBytes (fillBytes 32 (nat x)),
        encodeCBORNegative (- 3) @ encodeCBORBytes (fillBytes 32 (nat y))]))"

definition EncodeNoneAttestationObject :: "bytes \<Rightarrow> bytes" where
  "EncodeNoneAttestationObject authData = encodeCBORMap
     [encodeCBORText ''fmt'' @ encodeCBORText ''none'',
      encodeCBORText ''authData'' @ encodeCBORBytes authData,
      encodeCBORText ''attStmt'' @ encodeCBORMap []]"

definition attestedAuthenticatorData :: "string \<Rightarrow> bytes \<Rightarrow> bytes \<Rightarrow> bytes \<Rightarrow> bytes result" where
  "attestedAuthenticatorData rpID credID compressedP256 extensions =
     bindR (EncodeCOSEES256 compressedP256) (\<lambda>cose.
     if length credID = 0 \<or> length credID > 1024 then Inl (Errorf ''credential id required'')
     else
       let flags = flagUP OR flagUV OR flagAT OR (if length extensions > 0 then flagED else 0)
       in Inr (sha256 (str_bytes rpID) @ [flags] @ [0, 0, 0, 0] @ replicate 16 0 @ fillBytes 2 (length credID) @ credID @ cose @ extensions))"

definition AttestedAuthenticatorData :: "string \<Rightarrow> bytes \<Rightarrow> bytes \<Rightarrow> bytes result" where
  "AttestedAuthenticatorData rpID credID compressedP256 = attestedAuthenticatorData rpID credID compressedP256 []"

definition prfExtensions :: bytes where
  "prfExtensions = encodeCBORMap
     [encodeCBORText ''hmac-secret'' @ encodeCBORBool True,
      encodeCBORText ''prf'' @ encodeCBORMap [encodeCBORText ''enabled'' @ encodeCBORBool True]]"

definition AttestedAuthenticatorDataPRF :: "string \<Rightarrow> bytes \<Rightarrow> bytes \<Rightarrow> bytes result" where
  "AttestedAuthenticatorDataPRF rpID credID compressedP256 = attestedAuthenticatorData rpID credID compressedP256 prfExtensions"

definition synthClientData :: "bytes \<Rightarrow> string \<Rightarrow> string" where
  "synthClientData challenge origin =
     [CHR ''{'', CHR 0x22] @ ''type'' @ [CHR 0x22, CHR '':'', CHR 0x22] @ ''webauthn.get'' @ [CHR 0x22, CHR '','', CHR 0x22] @
     ''challenge'' @ [CHR 0x22, CHR '':'', CHR 0x22] @ EncodeChallenge challenge @ [CHR 0x22, CHR '','', CHR 0x22] @
     ''origin'' @ [CHR 0x22, CHR '':'', CHR 0x22] @ origin @ [CHR 0x22, CHR '','', CHR 0x22] @
     ''crossOrigin'' @ [CHR 0x22, CHR '':''] @ ''false'' @ [CHR ''}'']"

definition synthAuthData :: "string \<Rightarrow> bool \<Rightarrow> bool \<Rightarrow> u32 \<Rightarrow> bytes" where
  "synthAuthData rpID uv up signCount =
     sha256 (str_bytes rpID) @ [(if up then flagUP else 0) OR (if uv then flagUV else 0)] @ be32 signCount"

text \<open>\<open>sign\<close> is the key's \<open>ecdsa.Sign\<close> with its randomness: the signature of a digest.\<close>

definition SynthWithSignCount ::
  "(bytes \<Rightarrow> (int \<times> int) result) \<Rightarrow> bytes \<Rightarrow> bytes \<Rightarrow> string \<Rightarrow> string \<Rightarrow> bool \<Rightarrow> bool \<Rightarrow> u32 \<Rightarrow> Assertion result" where
  "SynthWithSignCount sign credID challenge origin rpID uv up signCount =
     (let cd = str_bytes (synthClientData challenge origin); auth = synthAuthData rpID uv up signCount
      in bindR (sign (Digest auth cd)) (\<lambda>(r, s).
         Inr \<lparr> as_CredentialID = credID, as_ClientDataJSON = cd, as_AuthenticatorData = auth,
               as_DERSignature = asn1MarshalSignature r s \<rparr>))"

definition Synth :: "(bytes \<Rightarrow> (int \<times> int) result) \<Rightarrow> bytes \<Rightarrow> bytes \<Rightarrow> string \<Rightarrow> string \<Rightarrow> bool \<Rightarrow> bool \<Rightarrow> Assertion result" where
  "Synth sign credID challenge origin rpID uv up = SynthWithSignCount sign credID challenge origin rpID uv up 0"

definition CompressedP256 :: "PublicKey option \<Rightarrow> bytes" where
  "CompressedP256 pub =
     (case pub of
        None \<Rightarrow> []
      | Some (x, y) \<Rightarrow> (2 OR (last (fillBytes 32 (nat y)) AND 1)) # fillBytes 32 (nat x))"

end
