(* ===== verification/WebAuthnProperties.thy ===== *)
theory WebAuthnProperties
  imports WebAuthn
begin

text \<open>
  The round trips of the ceremonies: base64, the JSON of the client data, DER signatures, COSE keys
  and attested authenticator data, and what they give for assertions and registrations.
\<close>

section \<open>Base64 round trip\<close>

lemma b64_table: "list_all (\<lambda>n. b64_value (b64_char n) = Some n \<and> b64_char n \<noteq> CHR 0x0a \<and> b64_char n \<noteq> CHR 0x0d) [0..<64]"
  by code_simp

lemma b64_char_props:
  assumes "n < 64"
  shows "b64_value (b64_char n) = Some n" and "b64_char n \<noteq> CHR 0x0a" and "b64_char n \<noteq> CHR 0x0d"
  using b64_table assms by (simp_all add: list_all_iff)

fun b64_digits :: "bytes \<Rightarrow> nat list" where
  "b64_digits [] = []"
| "b64_digits [a] = [unat a div 4, unat a mod 4 * 16]"
| "b64_digits [a, b] = [unat a div 4, unat a mod 4 * 16 + unat b div 16, unat b mod 16 * 4]"
| "b64_digits (a # b # c # bs) =
     [unat a div 4, unat a mod 4 * 16 + unat b div 16, unat b mod 16 * 4 + unat c div 64, unat c mod 64] @ b64_digits bs"

lemma b64_encode_digits: "b64_encode bs = map b64_char (b64_digits bs)"
  by (induction bs rule: b64_digits.induct) simp_all

lemma byte_div: "unat (a :: byte) div 4 < 64" "unat (a :: byte) div 16 < 16" "unat (a :: byte) div 64 < 4"
  using unat_byte_less [of a] by (simp_all add: less_mult_imp_div_less)

lemma b64_digit_bounds:
  "unat (a :: byte) div 4 < 64" "unat (a :: byte) mod 4 * 16 + unat (b :: byte) div 16 < 64" "unat (a :: byte) mod 4 * 16 < 64"
  "unat (b :: byte) mod 16 * 4 + unat (c :: byte) div 64 < 64" "unat (b :: byte) mod 16 * 4 < 64"
proof -
  have "unat a mod 4 < 4" "unat b mod 16 < 16" by simp_all
  with byte_div [of a] byte_div [of b] byte_div [of c]
  show "unat (a :: byte) div 4 < 64" "unat (a :: byte) mod 4 * 16 + unat (b :: byte) div 16 < 64" "unat (a :: byte) mod 4 * 16 < 64"
    "unat (b :: byte) mod 16 * 4 + unat (c :: byte) div 64 < 64" "unat (b :: byte) mod 16 * 4 < 64" by linarith+
qed

lemma byte_regroup:
  "word_of_nat (unat a div 4 * 4 + (unat a mod 4 * 16 + unat (b :: byte) div 16) div 16) = (a :: byte)"
  "word_of_nat ((unat (a :: byte) mod 4 * 16 + unat b div 16) mod 16 * 16 + (unat b mod 16 * 4 + unat (c :: byte) div 64) div 4) = (b :: byte)"
  "word_of_nat ((unat (b :: byte) mod 16 * 4 + unat c div 64) mod 4 * 64 + unat c mod 64) = (c :: byte)"
proof -
  have "(unat a mod 4 * 16 + unat b div 16) div 16 = unat a mod 4" "(unat a mod 4 * 16 + unat b div 16) mod 16 = unat b div 16"
    "(unat b mod 16 * 4 + unat c div 64) div 4 = unat b mod 16" "(unat b mod 16 * 4 + unat c div 64) mod 4 = unat c div 64"
    using byte_div [of b] byte_div [of c] by simp_all
  then show "word_of_nat (unat a div 4 * 4 + (unat a mod 4 * 16 + unat b div 16) div 16) = a"
    "word_of_nat ((unat a mod 4 * 16 + unat b div 16) mod 16 * 16 + (unat b mod 16 * 4 + unat c div 64) div 4) = b"
    "word_of_nat ((unat b mod 16 * 4 + unat c div 64) mod 4 * 64 + unat c mod 64) = c"
    by (simp_all only: div_mult_mod_eq) simp_all
qed

lemma b64_digits_small: "\<forall>d \<in> set (b64_digits bs). d < 64"
  by (induction bs rule: b64_digits.induct) (simp_all add: b64_digit_bounds)

lemma b64_join_digits: "b64_join (b64_digits bs) = Some bs"
proof (induction bs rule: b64_digits.induct)
  case (2 a)
  then show ?case using byte_regroup(1) [of a 0] by (simp only: b64_digits.simps b64_join.simps) simp
next
  case (3 a b)
  then show ?case using byte_regroup(1) [of a b] byte_regroup(2) [of a b 0] by (simp only: b64_digits.simps b64_join.simps) simp
next
  case (4 a b c bs)
  then show ?case
    by (simp only: b64_digits.simps b64_join.simps append_Cons append_Nil byte_regroup option.map)
qed simp

lemma b64_decode_encode: "b64_decode (b64_encode bs) = Some bs"
proof -
  have "filter (\<lambda>c. c \<noteq> CHR 0x0a \<and> c \<noteq> CHR 0x0d) (b64_encode bs) = b64_encode bs"
    using b64_digits_small [of bs] b64_char_props by (auto simp: b64_encode_digits filter_id_conv)
  moreover have "map b64_value (b64_encode bs) = map Some (b64_digits bs)"
    using b64_digits_small [of bs] b64_char_props(1) by (simp add: b64_encode_digits)
  ultimately show ?thesis by (simp add: b64_decode_def b64_join_digits Let_def comp_def)
qed

section \<open>Client data round trip\<close>

definition plain :: "string \<Rightarrow> bool" where
  "plain s \<longleftrightarrow> list_all (\<lambda>c. 0x20 \<le> code c \<and> code c < 0x80 \<and> c \<noteq> CHR 0x22 \<and> c \<noteq> CHR 0x5c) s"

lemma unquote_plain: "plain s \<Longrightarrow> unquote (s @ CHR 0x22 # rest) = Inr (s, rest)"
proof (induction s)
  case Nil
  show ?case by (subst unquote.simps) simp
next
  case (Cons c s)
  then have c: "0x20 \<le> code c" "code c < 0x80" "c \<noteq> CHR 0x22" "c \<noteq> CHR 0x5c" and s: "plain s" by (auto simp: plain_def)
  have "string_piece (c # s @ CHR 0x22 # rest) = Inr ([c], 0)"
    using c by (simp add: string_piece_def Let_def utf8_len_def)
  with c(3) Cons.IH [OF s] show ?case by (subst unquote.simps) simp
qed

lemma b64_alphabet_plain: "plain b64_alphabet" "length b64_alphabet = 64"
  by (simp_all add: plain_def b64_alphabet_def)

lemma plain_b64: "plain (b64_encode bs)"
proof -
  have "b64_char d \<in> set b64_alphabet" if "d \<in> set (b64_digits bs)" for d
    using that b64_digits_small [of bs] b64_alphabet_plain(2) by (simp add: b64_char_def)
  with b64_alphabet_plain(1) show ?thesis by (auto simp: plain_def list_all_iff b64_encode_digits)
qed

text \<open>The text of a client data object with the four members in this order.\<close>

abbreviation member_text :: "string \<Rightarrow> string \<Rightarrow> string" where
  "member_text key val \<equiv> CHR 0x22 # key @ CHR 0x22 # CHR '':'' # val"

abbreviation quoted :: "string \<Rightarrow> string" where
  "quoted s \<equiv> CHR 0x22 # s @ [CHR 0x22]"

definition clientDataText :: "string \<Rightarrow> string \<Rightarrow> string \<Rightarrow> string" where
  "clientDataText type challenge origin =
     CHR ''{'' # member_text ''type'' (quoted type) @ CHR '','' # member_text ''challenge'' (quoted challenge) @
     CHR '','' # member_text ''origin'' (quoted origin) @ CHR '','' # member_text ''crossOrigin'' ''false'' @ ''}''"

lemma synthClientData_text: "synthClientData challenge origin = clientDataText ''webauthn.get'' (b64_encode challenge) origin"
  by (simp add: synthClientData_def clientDataText_def EncodeChallenge_def)

lemma parse_string: "plain s \<Longrightarrow> parse_value d (quoted s @ rest) = Inr (JString s, rest)"
  by (subst parse_value.simps) (simp add: is_ws_def unquote_plain)

lemma parse_false: "parse_value d (''false'' @ rest) = Inr (JBool False, rest)"
  by (subst parse_value.simps) (simp add: is_ws_def)

lemma parse_member:
  assumes "plain key" and "parse_value d (val @ CHR '','' # rest) = Inr (v, CHR '','' # rest)"
  shows "parse_members d ms (member_text key val @ CHR '','' # rest) = parse_members d (ms @ [(key, v)]) rest"
  using assms by (subst parse_members.simps) (simp add: is_ws_def unquote_plain)

lemma parse_last_member:
  assumes "plain key" and "parse_value d (val @ CHR ''}'' # rest) = Inr (v, CHR ''}'' # rest)"
  shows "parse_members d ms (member_text key val @ CHR ''}'' # rest) = Inr (ms @ [(key, v)], rest)"
  using assms by (subst parse_members.simps) (simp add: is_ws_def unquote_plain)

lemma parse_client_data:
  assumes "plain type" and "plain challenge" and "plain origin"
  shows "parse_json (str_bytes (clientDataText type challenge origin)) =
    Inr (JObject [(''type'', JString type), (''challenge'', JString challenge), (''origin'', JString origin), (''crossOrigin'', JBool False)])"
proof -
  have keys: "plain ''type''" "plain ''challenge''" "plain ''origin''" "plain ''crossOrigin''" by (simp_all add: plain_def)
  have strings: "parse_value 1 (quoted s @ CHR '','' # rest) = Inr (JString s, CHR '','' # rest)" if "plain s" for s rest
    by (rule parse_string [OF that])
  have "parse_members 1 [] (member_text ''type'' (quoted type) @ CHR '','' # member_text ''challenge'' (quoted challenge) @
     CHR '','' # member_text ''origin'' (quoted origin) @ CHR '','' # member_text ''crossOrigin'' ''false'' @ ''}'') =
    Inr ([(''type'', JString type), (''challenge'', JString challenge), (''origin'', JString origin), (''crossOrigin'', JBool False)], [])"
    unfolding parse_member [OF keys(1) strings [OF assms(1)]] parse_member [OF keys(2) strings [OF assms(2)]]
      parse_member [OF keys(3) strings [OF assms(3)]] parse_last_member [OF keys(4) parse_false]
    by simp
  then have "parse_value 0 (clientDataText type challenge origin) =
    Inr (JObject [(''type'', JString type), (''challenge'', JString challenge), (''origin'', JString origin), (''crossOrigin'', JBool False)], [])"
    unfolding clientDataText_def by (subst parse_value.simps) (simp add: is_ws_def)
  then show ?thesis by (simp add: parse_json_def)
qed

lemma clientField_names: "clientField ''type'' = Some ''type''" "clientField ''challenge'' = Some ''challenge''"
    "clientField ''origin'' = Some ''origin''" "clientField ''crossOrigin'' = Some ''crossOrigin''"
  by (simp_all add: clientField_def)

lemma unmarshal_client_data:
  assumes "plain type" and "plain challenge" and "plain origin"
  shows "unmarshalClientData (str_bytes (clientDataText type challenge origin)) =
    Inr \<lparr> cd_Type = type, cd_Challenge = challenge, cd_Origin = origin, cd_CrossOrigin = Some False \<rparr>"
  by (simp add: unmarshalClientData_def parse_client_data [OF assms] setClientField_def clientField_names noClientData_def)

lemma check_client_data:
  assumes "plain type" and "plain origin"
  shows "checkClientData type' challenge' origin' (str_bytes (clientDataText type (b64_encode challenge) origin)) = Inr cd \<longleftrightarrow>
    type = type' \<and> origin = origin' \<and> challenge = challenge' \<and>
    cd = \<lparr> cd_Type = type, cd_Challenge = b64_encode challenge, cd_Origin = origin, cd_CrossOrigin = Some False \<rparr>"
  by (auto simp: checkClientData_def unmarshal_client_data [OF assms(1) plain_b64 assms(2)] decodeChallenge_def b64_decode_encode
      split: if_splits)

section \<open>DER round trip\<close>

lemma setBytes_natBytes: "setBytes (natBytes n) = n"
proof (induction n rule: natBytes.induct)
  case (1 n)
  then show ?case
    by (subst natBytes.simps) (simp add: unat_of_nat take_bit_eq_mod)
qed

lemma natBytes_length: "n < 256 ^ k \<Longrightarrow> length (natBytes n) \<le> k"
proof (induction k arbitrary: n)
  case 0
  then show ?case by (subst natBytes.simps) simp
next
  case (Suc k)
  then have "n div 256 < 256 ^ k" by (simp add: less_mult_imp_div_less mult.commute)
  with Suc.IH [of "n div 256"] show ?case by (subst natBytes.simps) simp
qed

lemma natBytes_head: "0 < n \<Longrightarrow> natBytes n \<noteq> [] \<and> natBytes n ! 0 \<noteq> 0"
proof (induction n rule: natBytes.induct)
  case (1 n)
  show ?case
  proof (cases "n < 256")
    case True
    then have "natBytes n = [word_of_nat n]" using 1(2) by (subst natBytes.simps, subst natBytes.simps) simp
    moreover have "unat (word_of_nat n :: byte) = n" using True by (simp add: unat_of_nat take_bit_nat_eq_self)
    then have "(word_of_nat n :: byte) \<noteq> 0" using 1(2) by (metis unsigned_0 less_numeral_extra(3))
    ultimately show ?thesis by simp
  next
    case False
    then have "0 < n div 256" by (simp add: div_greater_zero_iff)
    with 1 have "natBytes (n div 256) \<noteq> []" "natBytes (n div 256) ! 0 \<noteq> 0" by auto
    then show ?thesis using 1(2) by (subst (1 2) natBytes.simps) (simp add: nth_append)
  qed
qed

lemma unat_small_length: "n < 128 \<Longrightarrow> unat (word_of_nat n :: byte) = n"
  by (simp add: unat_of_nat take_bit_nat_eq_self)

lemma asn1_element:
  assumes "length body < 128"
  shows "asn1Element tag (tag # word_of_nat (length body) # body @ rest) = Inr (body, rest)"
  using assms by (simp add: unat_small_length)

definition integerBody :: "int \<Rightarrow> bytes" where
  "integerBody v = (let bs = natBytes (nat v) in if bs = [] \<or> 128 \<le> unat (bs ! 0) then 0 # bs else bs)"

lemma asn1MarshalInteger_eq: "asn1MarshalInteger v = 2 # word_of_nat (length (integerBody v)) # integerBody v"
  by (simp add: asn1MarshalInteger_def integerBody_def Let_def)

lemma setBytes_0: "setBytes (0 # bs) = setBytes bs"
  by (simp add: setBytes_def)

lemma integer_body:
  assumes "0 < v" and "v < 256 ^ 32"
  shows "asn1Integer (integerBody v) = Inr v" and "length (integerBody v) \<le> 33"
proof -
  let ?bs = "natBytes (nat v)"
  have "0 < nat v" "nat v < 256 ^ 32" using assms by (simp_all add: nat_less_iff)
  note head = natBytes_head [OF this(1)] and len = natBytes_length [OF this(2)]
  show "length (integerBody v) \<le> 33" using len by (auto simp: integerBody_def Let_def)
  have val: "int (setBytes ?bs) = v" using assms by (simp add: setBytes_natBytes)
  show "asn1Integer (integerBody v) = Inr v"
  proof (cases "128 \<le> unat (?bs ! 0)")
    case True
    then show ?thesis using head val by (cases ?bs) (auto simp: integerBody_def asn1Integer_def setBytes_0)
  next
    case False
    then have "?bs ! 0 \<noteq> 0xff" by auto
    with False show ?thesis using head val by (auto simp: integerBody_def asn1Integer_def)
  qed
qed

lemma asn1_round_trip:
  assumes "0 < r" "r < p256_n" "0 < s" "s < p256_n"
  shows "asn1Signature (asn1MarshalSignature r s) = Inr ((r, s), [])"
proof -
  have fits: "r < 256 ^ 32" "s < 256 ^ 32" using assms p256_n_bounds(2) by linarith+
  note R = integer_body [OF assms(1) fits(1)] and S = integer_body [OF assms(3) fits(2)]
  let ?body = "asn1MarshalInteger r @ asn1MarshalInteger s"
  have "length ?body < 128" using R(2) S(2) by (simp add: asn1MarshalInteger_eq)
  from asn1_element [OF this, of "0x30" "[]"]
  have "asn1Element 0x30 (asn1MarshalSignature r s) = Inr (?body, [])" by (simp add: asn1MarshalSignature_def Let_def)
  moreover have "asn1Element 2 ?body = Inr (integerBody r, asn1MarshalInteger s)"
    using asn1_element [of "integerBody r" 2 "asn1MarshalInteger s"] R(2) by (simp add: asn1MarshalInteger_eq)
  moreover have "asn1Element 2 (asn1MarshalInteger s) = Inr (integerBody s, [])"
    using asn1_element [of "integerBody s" 2 "[]"] S(2) by (simp add: asn1MarshalInteger_eq)
  ultimately show ?thesis using R(1) S(1) by (simp add: asn1Signature_def)
qed

lemma compact_of_marshalled:
  assumes "0 < r" "r < p256_n" "0 < s" "s < p256_n"
  shows "CompactLowS (asn1MarshalSignature r s) = Inr (compactBytes r s)"
  using assms asn1_round_trip [OF assms] by (auto simp: CompactLowS_iff)

section \<open>Assertions\<close>

lemma be32_bytes: "be32 v = [ucast (drop_bit 24 v), ucast (drop_bit 16 v), ucast (drop_bit 8 v), ucast v]"
  by (simp add: be32_def le_bytes_def upt_rec)

lemma be32_join:
  "push_bit 24 (ucast (ucast (drop_bit 24 v) :: byte)) OR push_bit 16 (ucast (ucast (drop_bit 16 v) :: byte)) OR
   push_bit 8 (ucast (ucast (drop_bit 8 v) :: byte)) OR ucast (ucast v :: byte) = (v :: u32)"
proof (rule bit_eqI)
  fix k assume "possible_bit TYPE(u32) k"
  then have "k < 32" by simp
  then consider "k < 8" | "8 \<le> k" "k < 16" | "16 \<le> k" "k < 24" | "24 \<le> k" "k < 32" by linarith
  then show "bit (push_bit 24 (ucast (ucast (drop_bit 24 v) :: byte)) OR push_bit 16 (ucast (ucast (drop_bit 16 v) :: byte)) OR
   push_bit 8 (ucast (ucast (drop_bit 8 v) :: byte)) OR ucast (ucast v :: byte) :: u32) k = bit v k"
    by cases (auto simp: bit_simps)
qed

lemma synthAuthData_parts:
  "length (synthAuthData rpID uv up signCount) = 37" "take 32 (synthAuthData rpID uv up signCount) = sha256 (str_bytes rpID)"
  "synthAuthData rpID uv up signCount ! 32 = (if up then flagUP else 0) OR (if uv then flagUV else 0)"
  "SignCount (synthAuthData rpID uv up signCount) = signCount"
  by (simp_all add: synthAuthData_def SignCount_def nth_append be32_bytes be32_join)

lemma check_presence_synth:
  "checkPresence rpID' (synthAuthData rpID uv up signCount) = Inr () \<longleftrightarrow> sha256 (str_bytes rpID) = sha256 (str_bytes rpID') \<and> up \<and> uv"
  by (cases up; cases uv) (auto simp: checkPresence_def synthAuthData_parts)

lemma length_clientDataText:
  "length (clientDataText type challenge origin) = 58 + length type + length challenge + length origin"
  by (simp add: clientDataText_def)

lemma length_b64: "length (b64_digits bs) \<le> 2 * length bs"
  by (induction bs rule: b64_digits.induct) auto

text \<open>
  C20. What an assertion is accepted for. Take an assertion as \<open>SynthWithSignCount\<close> makes it for a
  credential, a challenge of 32 bytes, an origin of at most 3900 plain characters and a relying party,
  with a signature in range, and a registered key that is a point of the curve. The server accepts it
  exactly when it expects this credential, challenge and origin and a relying party with the same
  hash, the user was present and verified, and the signature with its low \<open>s\<close> satisfies the curve
  equation over the authenticator data and the client data. It is then returned with its compact
  signature and its counter.
\<close>

theorem assertion_accepted_iff:
  assumes "SynthWithSignCount sign credID challenge origin rpID uv up signCount = Inr a"
    and "sign (Digest (as_AuthenticatorData a) (as_ClientDataJSON a)) = Inr (r, s)"
    and "0 < r" "r < p256_n" "0 < s" "s < p256_n"
    and "plain origin" "length origin \<le> 3900" "length challenge = 32"
    and "ParseCompressedP256 (ex_WebAuthnP256 exp) = Inr pub"
  shows "Validate a exp = Inr v \<longleftrightarrow>
    credID = ex_CredentialID exp \<and> challenge = ex_Challenge exp \<and> origin = ex_Origin exp \<and>
    sha256 (str_bytes rpID) = sha256 (str_bytes (ex_RPID exp)) \<and> up \<and> uv \<and>
    ecdsa_verify pub (Digest (as_AuthenticatorData a) (as_ClientDataJSON a)) r (min s (p256_n - s)) \<and>
    v = \<lparr> ve_Assertion = a, ve_CompactSig = fillBytes 32 (nat r) @ fillBytes 32 (nat (min s (p256_n - s))),
          ve_ClientData = \<lparr> cd_Type = ''webauthn.get'', cd_Challenge = EncodeChallenge challenge, cd_Origin = origin, cd_CrossOrigin = Some False \<rparr>,
          ve_SignCount = signCount \<rparr>"
proof -
  let ?cd = "str_bytes (clientDataText ''webauthn.get'' (b64_encode challenge) origin)"
  let ?auth = "synthAuthData rpID uv up signCount"
  have a: "a = \<lparr> as_CredentialID = credID, as_ClientDataJSON = ?cd, as_AuthenticatorData = ?auth, as_DERSignature = asn1MarshalSignature r s \<rparr>"
    using assms(1,2) by (auto simp: SynthWithSignCount_def Let_def bindR_eq_Inr synthClientData_text)
  have size: "length ?cd \<noteq> 0" "\<not> length ?cd > maxClientDataJSON"
    using length_b64 [of challenge] assms(8,9) by (simp_all add: length_clientDataText b64_encode_digits)
  have key: "length (ex_WebAuthnP256 exp) = 33" using assms(10) by (auto simp: ParseCompressedP256_def split: if_splits)
  have low: "lowS s = min s (p256_n - s)" using half_order by (auto simp: lowS_def min_def)
  note compact = compact_of_marshalled [OF assms(3-6)]
  have ver: "VerifyES256 (Some pub) ?auth ?cd (compactBytes r s) = Inr () \<longleftrightarrow> ecdsa_verify pub (Digest ?auth ?cd) r (lowS s)"
    using lowS_range [OF assms(5,6)] p256_n_bounds(1) assms(3,4)
    by (auto simp: VerifyES256_def verifyCompact_def Let_def compact_parts [OF assms(3-6)] split: if_splits)
  have get: "plain ''webauthn.get''" by (simp add: plain_def)
  have form: "fillBytes 32 (nat r) @ fillBytes 32 (nat (min s (p256_n - s))) = compactBytes r s" by (simp add: compactBytes_def low)
  note checks = check_client_data [OF get assms(7)] check_presence_synth
  show ?thesis
    using assms(9) size key
    by (auto simp: Validate_def a bindR_eq_Inr checks compact assms(10) ver synthAuthData_parts form low EncodeChallenge_def)
qed

text \<open>A key whose point has the ordinate 1, so that its square root is plain to see.\<close>

definition exX :: int where
  "exX = 0x8d0177ebab9c6e9e10db6dd095dbac0d6375e8a97b70f611875d877f0069d2c7"

definition exP256 :: bytes where "exP256 = 3 # fillBytes 32 (nat exX)"

lemma mod_pow_1: "1 < m \<Longrightarrow> mod_pow 1 e m = 1"
proof (induction e rule: less_induct)
  case (less e)
  then show ?case by (subst mod_pow.simps) (auto simp: Let_def)
qed

lemma exX_range: "0 \<le> exX" "exX < p256_p" "nat exX < 256 ^ 32"
  by (simp_all add: exX_def p256_p_def)

lemma exX_rhs: "p256_rhs exX = 1"
proof -
  have "exX * exX * exX - 3 * exX + p256_b = 1 + 0x2ac76b21e280b22c42294ce0725afb7999701d0500113e30447271998d29c9441f291b115339eb5654d6fa5c50aa4237e274d1687962c880f5073224ede44274 * p256_p"
    by (simp add: exX_def p256_p_def p256_b_def)
  then have "p256_rhs exX = 1 mod p256_p" by (simp only: p256_rhs_def mod_mult_self1)
  then show ?thesis by (simp add: p256_p_def)
qed

lemma exX_onCurve: "onCurve exX 1"
  using exX_range(1,2) exX_rhs by (simp add: onCurve_def p256_p_def)

lemmas exX_facts = exX_range(1,2) exX_rhs exX_range(3) exX_onCurve

lemma exP256_parses: "ParseCompressedP256 exP256 = Inr (exX, 1)"
proof -
  have x: "int (setBytes (fillBytes 32 (nat exX))) = exX" using exX_facts(1,4) by (simp only: setBytes_fillBytes nat_0_le)
  have y: "setBytes (fillBytes 32 (Suc 0)) = 1" by (subst setBytes_fillBytes) simp_all
  have p: "1 < p256_p" by (simp add: p256_p_def)
  have "UnmarshalCompressed exP256 = Some (exX, 1)"
    using exX_facts p by (simp add: UnmarshalCompressed_def exP256_def x mod_pow_1)
  moreover have "ParseUncompressedPublicKey ([4] @ fillBytes 32 (nat exX) @ fillBytes 32 (nat 1)) = Inr (exX, 1)"
    using exX_facts(5) by (simp add: ParseUncompressedPublicKey_def x y)
  ultimately show ?thesis by (simp add: ParseCompressedP256_def exP256_def)
qed

definition exAssertion :: Assertion where
  "exAssertion = projr (SynthWithSignCount (\<lambda>digest. Inr (7, 9)) [1] (replicate 32 1) ''https://vault'' ''vault'' True True 5)"

definition exExpected :: Expected where
  "exExpected = \<lparr> ex_CredentialID = [1], ex_WebAuthnP256 = exP256, ex_Challenge = replicate 32 1, ex_Origin = ''https://vault'', ex_RPID = ''vault'' \<rparr>"

theorem assertion_accepted_iff_witness:
  "((\<exists>v. Validate exAssertion exExpected = Inr v) \<longleftrightarrow>
      ecdsa_verify (exX, 1) (Digest (as_AuthenticatorData exAssertion) (as_ClientDataJSON exAssertion)) 7 9) \<and>
   (\<nexists>v. Validate exAssertion (exExpected\<lparr> ex_Challenge := replicate 32 2 \<rparr>) = Inr v)"
proof -
  have made: "SynthWithSignCount (\<lambda>digest. Inr (7, 9)) [1] (replicate 32 1) ''https://vault'' ''vault'' True True 5 = Inr exAssertion"
    by (simp add: exAssertion_def SynthWithSignCount_def Let_def)
  have range: "0 < (7 :: int)" "7 < p256_n" "0 < (9 :: int)" "9 < p256_n" "min 9 (p256_n - 9) = 9" by (simp_all add: p256_n_def)
  have origin: "plain ''https://vault''" "length ''https://vault'' \<le> 3900" "length (replicate 32 (1 :: byte)) = 32" by (simp_all add: plain_def)
  have key: "ParseCompressedP256 (ex_WebAuthnP256 exExpected) = Inr (exX, 1)" "ParseCompressedP256 (ex_WebAuthnP256 (exExpected\<lparr> ex_Challenge := replicate 32 2 \<rparr>)) = Inr (exX, 1)"
    by (simp_all add: exExpected_def exP256_parses)
  have "replicate 32 (1 :: byte) \<noteq> replicate 32 2" by (simp add: replicate_eq_replicate)
  with assertion_accepted_iff [OF made refl range(1-4) origin key(1)] assertion_accepted_iff [OF made refl range(1-4) origin key(2)] range(5)
  show ?thesis by (simp add: exExpected_def)
qed

section \<open>Registration\<close>

lemma mod_pow_range: "0 < m \<Longrightarrow> 0 \<le> mod_pow b e m \<and> mod_pow b e m < m"
proof (induction e arbitrary: b rule: less_induct)
  case (less e)
  then show ?case by (subst (1 2) mod_pow.simps) (auto simp: Let_def)
qed

lemma p256_p_facts: "0 < p256_p" "odd p256_p" "nat p256_p < 256 ^ 32"
  by (simp_all add: p256_p_def)

lemma coordinate_fits: "0 \<le> x \<Longrightarrow> x < p256_p \<Longrightarrow> int (setBytes (fillBytes 32 (nat x))) = x"
proof -
  assume "0 \<le> x" "x < p256_p"
  moreover from this have "nat x < 256 ^ 32" using p256_p_facts(3) by linarith
  ultimately show ?thesis by (simp only: setBytes_fillBytes nat_0_le)
qed

lemma neg_parity:
  assumes "0 < y" and "y < p256_p"
  shows "(- y) mod p256_p = p256_p - y" and "(p256_p - y) mod 2 \<noteq> y mod 2"
proof -
  have "(- y) mod p256_p = (p256_p - y) mod p256_p" by (metis minus_mod_self1 diff_conv_add_uminus add.commute mod_add_self1)
  also have "\<dots> = p256_p - y" using assms by (intro mod_pos_pos_trivial) auto
  finally show "(- y) mod p256_p = p256_p - y" .
  show "(p256_p - y) mod 2 \<noteq> y mod 2" using p256_p_facts(2) by presburger
qed

lemma parity_flip: "(u :: int) mod 2 \<noteq> v mod 2 \<Longrightarrow> v mod 2 \<noteq> w mod 2 \<Longrightarrow> u mod 2 = w mod 2"
  by presburger

lemma ParseCompressed_parts:
  assumes "ParseCompressedP256 key = Inr (x, y)"
  shows "key = (key ! 0) # fillBytes 32 (nat x)" and "key ! 0 = 2 \<or> key ! 0 = 3"
    and "ParseUncompressedPublicKey ([4] @ fillBytes 32 (nat x) @ fillBytes 32 (nat y)) = Inr (x, y)"
    and "onCurve x y" and "y \<noteq> 0 \<Longrightarrow> y mod 2 = int (unat (key ! 0)) mod 2"
proof -
  from assms obtain a b where len: "length key = 33" and pre: "key ! 0 = 2 \<or> key ! 0 = 3"
    and un: "UnmarshalCompressed key = Some (a, b)"
    and unc: "ParseUncompressedPublicKey ([4] @ fillBytes 32 (nat a) @ fillBytes 32 (nat b)) = Inr (x, y)"
    by (auto simp: ParseCompressedP256_def split: if_splits option.splits sum.splits)
  define z where "z = mod_pow (p256_rhs a) (nat ((p256_p + 1) div 4)) p256_p"
  have a: "a = int (setBytes (drop 1 key))" "a < p256_p"
    and b: "b = (if z mod 2 = int (unat (key ! 0)) mod 2 then z else (- z) mod p256_p)"
    using un unfolding UnmarshalCompressed_def Let_def z_def by (auto split: if_splits)
  have range: "0 \<le> z" "z < p256_p" using mod_pow_range [OF p256_p_facts(1)] unfolding z_def by blast+
  have b_range: "0 \<le> b" "b < p256_p" using range p256_p_facts(1) b by auto
  have "0 \<le> a" using a(1) by simp
  then have xy: "x = a" "y = b"
    using unc coordinate_fits [OF _ a(2)] coordinate_fits [OF b_range]
    by (auto simp: ParseUncompressedPublicKey_def Let_def split: if_splits)
  show "key ! 0 = 2 \<or> key ! 0 = 3" by (fact pre)
  have "fillBytes 32 (nat a) = drop 1 key" using fillBytes_setBytes [of "drop 1 key"] len by (simp add: a(1))
  with len xy show "key = (key ! 0) # fillBytes 32 (nat x)" by (cases key) simp_all
  show "ParseUncompressedPublicKey ([4] @ fillBytes 32 (nat x) @ fillBytes 32 (nat y)) = Inr (x, y)" using unc xy by simp
  show "onCurve x y" using unc by (auto simp: ParseUncompressedPublicKey_def Let_def split: if_splits)
  show "y mod 2 = int (unat (key ! 0)) mod 2" if "y \<noteq> 0"
  proof (cases "z mod 2 = int (unat (key ! 0)) mod 2")
    case True
    with b xy show ?thesis by simp
  next
    case False
    have "z \<noteq> 0"
    proof
      assume "z = 0"
      then have "b = 0" by (simp only: b minus_zero mod_0 if_cancel)
      with xy that show False by simp
    qed
    with range(1) have "0 < z" by simp
    note neg = neg_parity [OF this range(2)]
    have "y = p256_p - z" by (simp only: xy(2) b if_not_P [OF False] neg(1))
    with parity_flip [OF neg(2) False] show ?thesis by simp
  qed
qed


lemma last_fillBytes: "0 < k \<Longrightarrow> last (fillBytes k n) = word_of_nat n"
  by (cases k) simp_all

lemma odd_byte: "(word_of_nat n :: byte) AND 1 = 1 \<longleftrightarrow> odd n"
proof -
  have "odd (word_of_nat n :: byte) \<longleftrightarrow> odd n" by (simp add: bit_of_nat_iff flip: bit_0)
  moreover have "(w :: byte) AND 1 = 1 \<longleftrightarrow> odd w" for w by (simp add: and_one_eq odd_iff_mod_2_eq_one)
  ultimately show ?thesis by (simp only:)
qed

lemma compressedP256XY_parts:
  assumes "ParseCompressedP256 key = Inr (x, y)" and "y \<noteq> 0"
  shows "compressedP256XY (fillBytes 32 (nat x)) (fillBytes 32 (nat y)) = Inr key"
proof -
  note parts = ParseCompressed_parts [OF assms(1)]
  have y: "0 \<le> y" using parts(4) by (simp add: onCurve_def)
  have "odd (nat y) \<longleftrightarrow> key ! 0 = 3"
    using parts(2) parts(5) [OF assms(2)] y by (auto simp: even_nat_iff odd_iff_mod_2_eq_one)
  then have pre: "(if last (fillBytes 32 (nat y)) AND 1 = 1 then 3 else 2) = key ! 0"
    using parts(2) by (auto simp: last_fillBytes odd_byte)
  show ?thesis
    unfolding compressedP256XY_def Let_def pre using parts(1,3) assms(1) by simp
qed

lemma compressed_key_round_trip:
  assumes "ParseCompressedP256 key = Inr (x, y)" and "y \<noteq> 0" and "EncodeCOSEES256 key = Inr cose" and "length rest \<le> 4000"
  shows "parseCOSEES256 (cose @ rest) = Inr (key, rest)" and "length cose = 77"
proof -
  let ?x = "fillBytes 32 (nat x)" and ?y = "fillBytes 32 (nat y)"
  let ?v = "cborMap [(cborInt 1, cborInt coseKtyEC2), (cborInt 3, cborInt coseAlgES256), (cborInt (- 1), cborInt coseCrvP256),
    (cborInt (- 2), cborBytes ?x), (cborInt (- 3), cborBytes ?y)]"
  have ex: "expressible ?v" by simp
  have cose: "cose = encodeCBOR ?v"
    using assms(1,3) by (simp add: EncodeCOSEES256_def)
  show len: "length cose = 77"
    unfolding cose by (simp add: encodeCBORMap_def encodeCBORBytes_def encodeCBORUnsigned_def encodeCBORNegative_def)
  have "decodeCBOR (cose @ rest) = Inr (?v, rest)"
    using decode_complete [OF ex, of rest] len assms(4) by (simp add: cose)
  then show "parseCOSEES256 (cose @ rest) = Inr (key, rest)"
    by (simp add: parseCOSEES256_def coordinate_def compressedP256XY_parts [OF assms(1,2)])
qed

definition flagsFor :: "bytes \<Rightarrow> byte" where
  "flagsFor extensions = flagUP OR flagUV OR flagAT OR (if length extensions > 0 then flagED else 0)"

lemma flagsFor_bits:
  "flagsFor e AND flagUP \<noteq> 0" "flagsFor e AND flagUV \<noteq> 0" "flagsFor e AND flagAT \<noteq> 0"
  "flagsFor e AND flagED \<noteq> 0 \<longleftrightarrow> e \<noteq> []"
  by (simp_all add: flagsFor_def)

lemma fillBytes_2: "fillBytes 2 n = [word_of_nat (n div 256), word_of_nat n]"
  by (simp add: numeral_2_eq_2)

lemma attested_parts:
  assumes "length credID \<le> 1024" and "0 < length credID"
    and auth_def: "auth = sha256 (str_bytes rpID) @ [flags] @ [0, 0, 0, 0] @ replicate 16 0 @ fillBytes 2 (length credID) @ credID @ tail"
  shows "length auth = 55 + length credID + length tail" and "take 32 auth = sha256 (str_bytes rpID)" and "auth ! 32 = flags"
    and "setBytes [auth ! 53, auth ! 54] = length credID" and "take (length credID) (drop 55 auth) = credID"
    and "drop (55 + length credID) auth = tail"
proof -
  have two: "fillBytes 2 (length credID) = [word_of_nat (length credID div 256), word_of_nat (length credID)]"
    by (rule fillBytes_2)
  show "length auth = 55 + length credID + length tail" "take 32 auth = sha256 (str_bytes rpID)" "auth ! 32 = flags"
    by (simp_all add: auth_def nth_append)
  have "[auth ! 53, auth ! 54] = fillBytes 2 (length credID)"
    by (simp add: auth_def nth_append two)
  then show "setBytes [auth ! 53, auth ! 54] = length credID" using assms(1) by (simp add: setBytes_fillBytes)
  have from55: "drop 55 auth = credID @ tail" by (simp add: auth_def two)
  then show "take (length credID) (drop 55 auth) = credID" by simp
  have "drop (55 + length credID) auth = drop (length credID) (drop 55 auth)" by (simp add: add.commute)
  then show "drop (55 + length credID) auth = tail" using from55 by simp
qed

text \<open>
  C22. Registration reads back what the authenticator attested. Authenticator data built for a relying
  party, a credential id and a key on the curve, without extensions or with a non-empty CBOR map of at
  most 2500 bytes, goes through the attestation object unchanged; with client data of a create ceremony
  for the expected challenge and origin, validation returns exactly this credential id and this
  compressed key. (A point with ordinate zero, which a curve of odd order does not have, would lose its
  prefix.)
\<close>

theorem registration_round_trip:
  assumes "attestedAuthenticatorData rpID credID key extensions = Inr auth"
    and "ParseCompressedP256 key = Inr (x, y)" "y \<noteq> 0"
    and "extensions = [] \<or> (\<exists>m. decodeCBOR extensions = Inr (m, []) \<and> nonEmptyMap m)" "length extensions \<le> 2500"
    and "checkClientData ''webauthn.create'' challenge origin clientDataJSON = Inr cd" "length challenge = 32"
    and "0 < length clientDataJSON" "length clientDataJSON \<le> maxClientDataJSON"
  shows "ParseAttestationObject (EncodeNoneAttestationObject auth) = Inr auth \<and>
    ValidateCreate clientDataJSON auth challenge origin rpID = Inr \<lparr> cc_CredentialID = credID, cc_WebAuthnP256 = key \<rparr>"
proof -
  obtain cose where cose: "EncodeCOSEES256 key = Inr cose" and id: "0 < length credID" "length credID \<le> 1024"
    and auth: "auth = sha256 (str_bytes rpID) @ [flagsFor extensions] @ [0, 0, 0, 0] @ replicate 16 0 @ fillBytes 2 (length credID) @
      credID @ cose @ extensions"
    using assms(1) by (auto simp: attestedAuthenticatorData_def bindR_eq_Inr flagsFor_def Let_def split: if_splits)
  note parts = attested_parts [OF id(2,1) auth]
  have rest: "length extensions \<le> 4000" using assms(5) by simp
  note trip = compressed_key_round_trip [OF assms(2,3) cose rest]
  have size: "length auth = 132 + length credID + length extensions" using parts(1) trip(2) by simp
  let ?v = "cborMap [(cborText ''fmt'', cborText ''none''), (cborText ''authData'', cborBytes auth), (cborText ''attStmt'', cborMap [])]"
  have "expressible ?v" using size id(2) assms(5) by simp
  moreover have obj: "EncodeNoneAttestationObject auth = encodeCBOR ?v" by (simp add: EncodeNoneAttestationObject_def)
  moreover have "length (encodeCBOR ?v) \<le> maxCBORBytes"
    using size id(2) assms(5) by (simp add: encodeCBORMap_def encodeCBORText_def encodeCBORBytes_def encodeCBORUnsigned_def)
  ultimately have "decodeCBOR (EncodeNoneAttestationObject auth) = Inr (?v, [])" using decode_complete [of ?v "[]"] by simp
  then have "ParseAttestationObject (EncodeNoneAttestationObject auth) = Inr auth" using size by (simp add: ParseAttestationObject_def)
  moreover have "checkPresence rpID auth = Inr ()" by (simp add: checkPresence_def Let_def parts(2,3) flagsFor_bits)
  moreover have "extractAttestedCredential auth = Inr \<lparr> cc_CredentialID = credID, cc_WebAuthnP256 = key \<rparr>"
    using size id(1) assms(4) trip(1)
    by (auto simp: extractAttestedCredential_def Let_def parts(3-6) flagsFor_bits(4))
  ultimately show ?thesis using assms(6-9) size by (simp add: ValidateCreate_def parts(3) flagsFor_bits(3))
qed

theorem registration_round_trip_witness:
  "\<exists>auth. AttestedAuthenticatorDataPRF ''vault'' [1, 2] exP256 = Inr auth \<and>
     ValidateCreate (str_bytes (clientDataText ''webauthn.create'' (b64_encode (replicate 32 1)) ''https://vault'')) auth (replicate 32 1)
       ''https://vault'' ''vault'' = Inr \<lparr> cc_CredentialID = [1, 2], cc_WebAuthnP256 = exP256 \<rparr>"
proof -
  let ?json = "str_bytes (clientDataText ''webauthn.create'' (b64_encode (replicate 32 1)) ''https://vault'')"
  let ?m = "cborMap [(cborText ''hmac-secret'', cborBool True), (cborText ''prf'', cborMap [(cborText ''enabled'', cborBool True)])]"
  have ext: "prfExtensions = encodeCBOR ?m" by (simp add: prfExtensions_def)
  have len: "length prfExtensions \<le> 2500"
    by (simp add: prfExtensions_def encodeCBORMap_def encodeCBORText_def encodeCBORBool_def encodeCBORUnsigned_def)
  have dec: "prfExtensions = [] \<or> (\<exists>m. decodeCBOR prfExtensions = Inr (m, []) \<and> nonEmptyMap m)"
    using decode_complete [of ?m "[]"] len by (auto simp: ext)
  obtain auth where auth: "attestedAuthenticatorData ''vault'' [1, 2] exP256 prfExtensions = Inr auth"
    by (auto simp: attestedAuthenticatorData_def EncodeCOSEES256_def exP256_parses Let_def)
  have "plain ''webauthn.create''" "plain ''https://vault''" by (simp_all add: plain_def)
  then obtain cd where cd: "checkClientData ''webauthn.create'' (replicate 32 1) ''https://vault'' ?json = Inr cd"
    using check_client_data by blast
  have size: "0 < length ?json" "length ?json \<le> maxClientDataJSON"
    using length_b64 [of "replicate 32 1"] by (simp_all add: length_clientDataText b64_encode_digits)
  from registration_round_trip [OF auth exP256_parses _ dec len cd _ size] auth show ?thesis
    by (simp add: AttestedAuthenticatorDataPRF_def)
qed

end
