(* ===== verification/AppError.thy ===== *)
theory AppError
  imports Prelude
begin

text \<open>
  \<open>internal/apperr/apperr.go\<close>: the error set of the application. An \<open>*apperr.Error\<close> is the
  constructor \<open>AppErr code msg\<close> of the model's errors; every other error reaches the caller
  as a rejection that carries its text.
\<close>

abbreviation CodeRejected :: string where "CodeRejected \<equiv> ''REJECTED''"
abbreviation CodeNotFound :: string where "CodeNotFound \<equiv> ''NOT_FOUND''"
abbreviation CodeBusy :: string where "CodeBusy \<equiv> ''BUSY''"
abbreviation CodeVaultIDRequired :: string where "CodeVaultIDRequired \<equiv> ''VAULT_ID_REQUIRED''"
abbreviation CodeNotEnrolled :: string where "CodeNotEnrolled \<equiv> ''NOT_ENROLLED''"
abbreviation CodeEnrollmentClosed :: string where "CodeEnrollmentClosed \<equiv> ''ENROLLMENT_CLOSED''"

abbreviation ErrRejected :: error where "ErrRejected \<equiv> AppErr CodeRejected ''request rejected''"
abbreviation ErrNotFound :: error where "ErrNotFound \<equiv> AppErr CodeNotFound ''not found''"
abbreviation ErrBusy :: error where "ErrBusy \<equiv> AppErr CodeBusy ''busy''"
abbreviation ErrVaultIDRequired :: error where
  "ErrVaultIDRequired \<equiv> AppErr CodeVaultIDRequired ''vault id required''"
abbreviation ErrNotEnrolled :: error where "ErrNotEnrolled \<equiv> AppErr CodeNotEnrolled ''not enrolled''"
abbreviation ErrEnrollmentClosed :: error where
  "ErrEnrollmentClosed \<equiv> AppErr CodeEnrollmentClosed ''not found''"

text \<open>\<open>err.Error()\<close>; the texts of the two database errors belong to the driver and are not relied on.\<close>

fun errorText :: "error \<Rightarrow> string" where
  "errorText (Errorf s) = s"
| "errorText (Wrapf s e) = s @ '': '' @ errorText e"
| "errorText ErrNoRows = ''sql: no rows in result set''"
| "errorText ErrConstraint = ''constraint failed''"
| "errorText ErrIO = ''disk I/O error''"
| "errorText ErrPeriodAllowanceExceeded = ''period allowance exceeded''"
| "errorText ErrVtxoOperationActive = ''vtxo operation already active''"
| "errorText ErrRecoveryBusy = ''recovery session already in progress''"
| "errorText (AppErr code msg) = (if msg \<noteq> [] then msg else code)"

text \<open>\<open>errors.Is\<close>: an error or one it wraps; an application error matches every one of its code.\<close>

fun errorIs :: "error \<Rightarrow> error \<Rightarrow> bool" where
  "errorIs (Wrapf s e) t = (Wrapf s e = t \<or> errorIs e t)"
| "errorIs (AppErr code msg) t = (case t of AppErr code' _ \<Rightarrow> code = code' | _ \<Rightarrow> False)"
| "errorIs e t = (e = t)"

text \<open>\<open>errors.As\<close> for an application error.\<close>

fun errorAs :: "error \<Rightarrow> error option" where
  "errorAs (Wrapf s e) = errorAs e"
| "errorAs (AppErr code msg) = Some (AppErr code msg)"
| "errorAs _ = None"

definition Of :: "error option \<Rightarrow> error option" where
  "Of err = (case err of
     None \<Rightarrow> None
   | Some e \<Rightarrow> (case errorAs e of Some a \<Rightarrow> Some a | None \<Rightarrow> Some (AppErr CodeRejected (errorText e))))"

fun errorCode :: "error \<Rightarrow> string" where
  "errorCode (AppErr code msg) = code"
| "errorCode _ = CodeRejected"

definition CodeOf :: "error option \<Rightarrow> string" where
  "CodeOf err = (case Of err of Some e \<Rightarrow> errorCode e | None \<Rightarrow> CodeRejected)"

definition Wrap :: "string \<Rightarrow> string \<Rightarrow> error option \<Rightarrow> error" where
  "Wrap code msg err = (case err of
     None \<Rightarrow> AppErr code msg
   | Some e \<Rightarrow> AppErr code (msg @ '': '' @ errorText e))"

text \<open>\<open>if err := m; err != nil { return apperr.New(CodeRejected, msg) }\<close>, with the fixed text or the error's own.\<close>

abbreviation rejected :: "string \<Rightarrow> 'a result" where
  "rejected msg \<equiv> Inl (AppErr CodeRejected msg)"

definition rejectAs :: "string \<Rightarrow> 'a result \<Rightarrow> 'a result" where
  "rejectAs msg m = (case m of Inl _ \<Rightarrow> rejected msg | Inr x \<Rightarrow> Inr x)"

definition rejectWith :: "'a result \<Rightarrow> 'a result" where
  "rejectWith m = (case m of Inl e \<Rightarrow> rejected (errorText e) | Inr x \<Rightarrow> Inr x)"

lemma rejectAs_eq_Inr [res_simps]: "rejectAs msg m = Inr x \<longleftrightarrow> m = Inr x"
  by (cases m) (simp_all add: rejectAs_def)

lemma rejectWith_eq_Inr [res_simps]: "rejectWith m = Inr x \<longleftrightarrow> m = Inr x"
  by (cases m) (simp_all add: rejectWith_def)

lemma reject_Inr [simp]: "rejectAs msg (Inr x) = Inr x" "rejectWith (Inr x) = Inr x"
  by (simp_all add: rejectAs_def rejectWith_def)

lemma reject_Inl [simp]:
  "rejectAs msg (Inl e) = rejected msg" "rejectWith (Inl e) = rejected (errorText e)"
  by (simp_all add: rejectAs_def rejectWith_def)

lemma CodeOf_AppErr [simp]: "CodeOf (Some (AppErr code msg)) = code"
  by (simp add: CodeOf_def Of_def)

end
