(* ===== verification/CoinSelection.thy ===== *)
theory CoinSelection
  imports Complex_Main AppError Vtxo GoTime
begin

text \<open>
  The coin selection of \<open>internal/application/vtxo.go\<close>: which outputs of the vault a spend
  takes, and the fee and the change it leaves. The Operator prices a transaction with programs of
  its own, run by the \<open>arkfee\<close> package; an \<open>Estimator\<close> is that package's evaluator and a
  parameter of every definition here. Go's \<open>float64\<close> is a rational or one of the special
  values.
\<close>

section \<open>The fee programs\<close>

datatype float64 = NaN | PlusInf | MinusInf | Finite rat

datatype VtxoType = VtxoTypeVtxo | VtxoTypeRecoverable | VtxoTypeNote

record OffchainInput =
  fi_Amount :: u64
  fi_Birth :: time
  fi_Expiry :: "time option"
  fi_Type :: VtxoType
  fi_Weight :: nat

record FeeOutput =
  fo_Amount :: u64
  fo_Script :: string

record Estimator =
  EvalOffchainInput :: "OffchainInput \<Rightarrow> float64 result"
  Eval :: "OffchainInput list \<Rightarrow> FeeOutput list \<Rightarrow> float64 result"

record FeeConfig =
  IntentOffchainInputProgram :: string
  IntentOffchainOutputProgram :: string
  IntentOnchainInputProgram :: string
  IntentOnchainOutputProgram :: string

record IntentFeePolicy =
  ifp_OffchainInput :: string
  ifp_OffchainOutput :: string
  ifp_OnchainInput :: string
  ifp_OnchainOutput :: string

record ResolvedVtxo =
  rv_Txid :: string
  rv_Vout :: u32
  rv_ValueSats :: u64
  rv_Script :: bytes
  rv_CreatedAt :: i64
  rv_ExpiresAt :: "i64 option"
  rv_IsSwept :: bool
  rv_CommitmentTxids :: "string list"

definition normalizeProgram :: "string \<Rightarrow> string" where
  "normalizeProgram p = (if p = [] then ''0.0'' else p)"

definition intentFeeEstimatorConfig :: "IntentFeePolicy \<Rightarrow> FeeConfig" where
  "intentFeeEstimatorConfig fee =
     \<lparr> IntentOffchainInputProgram = normalizeProgram (ifp_OffchainInput fee),
       IntentOffchainOutputProgram = normalizeProgram (ifp_OffchainOutput fee),
       IntentOnchainInputProgram = normalizeProgram (ifp_OnchainInput fee),
       IntentOnchainOutputProgram = normalizeProgram (ifp_OnchainOutput fee) \<rparr>"

text \<open>\<open>arkfeeNew\<close> is \<open>arkfee.New\<close>, which compiles the four programs.\<close>

definition newVtxoFeeEstimator ::
  "(FeeConfig \<Rightarrow> Estimator result) \<Rightarrow> IntentFeePolicy \<Rightarrow> (Estimator \<times> bytes) result" where
  "newVtxoFeeEstimator arkfeeNew fee =
     bindR (rejectAs ''Operator fee policy invalid'' (arkfeeNew (intentFeeEstimatorConfig fee))) (\<lambda>estimator.
     Inr (estimator, ComputeIntentFeePolicyDigest (ifp_OffchainInput fee) (ifp_OffchainOutput fee)
       (ifp_OnchainInput fee) (ifp_OnchainOutput fee)))"

definition resolvedArkFeeInput :: "ResolvedVtxo \<Rightarrow> OffchainInput" where
  "resolvedArkFeeInput v =
     \<lparr> fi_Amount = rv_ValueSats v, fi_Birth = sint (rv_CreatedAt v) * Second,
       fi_Expiry = map_option (\<lambda>t. sint t * Second) (rv_ExpiresAt v),
       fi_Type = (if rv_IsSwept v then VtxoTypeRecoverable
                  else if rv_CommitmentTxids v = [] then VtxoTypeNote else VtxoTypeVtxo),
       fi_Weight = 0 \<rparr>"

definition exactFeeSats :: "float64 \<Rightarrow> u64 result" where
  "exactFeeSats fee =
     (case fee of
        Finite value \<Rightarrow>
          if value < 0 \<or> \<lceil>value\<rceil> \<ge> 2 ^ 63 then rejected ''Operator fee result invalid''
          else Inr (word_of_int \<lceil>value\<rceil>)
      | _ \<Rightarrow> rejected ''Operator fee result invalid'')"

section \<open>The evaluation budget\<close>

abbreviation maxVtxoFeeProgramEvaluations :: nat where "maxVtxoFeeProgramEvaluations \<equiv> 20000"

definition consumeBudget :: "nat \<Rightarrow> nat result" where
  "consumeBudget remaining =
     (if remaining = 0 then Inl (AppErr CodeBusy ''Operator fee policy exceeds evaluation limit'')
      else Inr (remaining - 1))"

section \<open>Coins\<close>

record reservedCoin =
  rc_Txid :: bytes
  rc_Vout :: u32
  rc_ValueSats :: u64
  rc_Script :: bytes
  rc_FeeInput :: OffchainInput
  rc_Effective :: u64

abbreviation maxVtxoSpendInputs :: nat where "maxVtxoSpendInputs \<equiv> MaxVtxoOperationInputs"

definition canonicalTxidHex :: "string \<Rightarrow> bytes option" where
  "canonicalTxidHex s = (case hex_decode s of
     None \<Rightarrow> None
   | Some raw \<Rightarrow> if length raw \<noteq> 32 \<or> s \<noteq> to_lower s then None else Some raw)"

text \<open>One pass of the loop: \<open>None\<close> is a coin whose own fee eats it.\<close>

definition vtxoToCoin :: "bytes \<Rightarrow> Estimator \<Rightarrow> ResolvedVtxo \<Rightarrow> nat \<Rightarrow> (reservedCoin option \<times> nat) result" where
  "vtxoToCoin pkScript estimator v budget =
     (case canonicalTxidHex (rv_Txid v) of
        None \<Rightarrow> rejected ''invalid indexed vtxo''
      | Some raw \<Rightarrow>
          if rv_Script v \<noteq> pkScript \<or> rv_ValueSats v > max_i64 then rejected ''invalid indexed vtxo''
          else
            let feeInput = resolvedArkFeeInput v in
            bindR (consumeBudget budget) (\<lambda>budget.
            bindR (rejectAs ''Operator input fee evaluation'' (EvalOffchainInput estimator feeInput)) (\<lambda>inputFee.
            bindR (exactFeeSats inputFee) (\<lambda>feeSats.
            if feeSats \<ge> rv_ValueSats v then Inr (None, budget)
            else Inr (Some \<lparr> rc_Txid = raw, rc_Vout = rv_Vout v, rc_ValueSats = rv_ValueSats v,
              rc_Script = pkScript, rc_FeeInput = feeInput, rc_Effective = rv_ValueSats v - feeSats \<rparr>, budget)))))"

fun vtxosToCoins :: "ResolvedVtxo list \<Rightarrow> bytes \<Rightarrow> Estimator \<Rightarrow> nat \<Rightarrow> (reservedCoin list \<times> nat) result" where
  "vtxosToCoins [] pkScript estimator budget = Inr ([], budget)"
| "vtxosToCoins (v # vs) pkScript estimator budget =
     bindR (vtxoToCoin pkScript estimator v budget) (\<lambda>(c, budget).
     bindR (vtxosToCoins vs pkScript estimator budget) (\<lambda>(cs, budget).
     Inr (case c of None \<Rightarrow> cs | Some c \<Rightarrow> c # cs, budget)))"

section \<open>The fee and the change of a set of coins\<close>

fun totalCoins :: "u64 \<Rightarrow> reservedCoin list \<Rightarrow> u64 result" where
  "totalCoins coinTotal [] = Inr coinTotal"
| "totalCoins coinTotal (c # cs) =
     (if rc_ValueSats c > - 1 - coinTotal then rejected ''vtxo input amount overflow''
      else totalCoins (coinTotal + rc_ValueSats c) cs)"

text \<open>
  The loop over candidate fees. \<open>available\<close> is what the coins leave above the amount,
  \<open>priced change\<close> the fee of the transaction with that much change, \<open>cancelled c\<close> the
  reading of the context at candidate \<open>c\<close>.
\<close>

function solveCandidates ::
  "(u64 \<Rightarrow> bool) \<Rightarrow> (u64 \<Rightarrow> u64 result) \<Rightarrow> u64 \<Rightarrow> u64 \<Rightarrow> u64 \<Rightarrow> nat \<Rightarrow> ((u64 \<times> u64 \<times> bool) \<times> nat) result" where
  "solveCandidates cancelled priced available maxCandidate candidate budget =
     (if \<not> candidate \<le> maxCandidate then Inr ((0, 0, False), budget)
      else if cancelled candidate then Inl (AppErr CodeBusy ''fee selection cancelled'')
      else
        let candidateChange = available - candidate in
        if candidateChange < DustSats then
          solveCandidates cancelled priced available maxCandidate (candidate + 1) budget
        else if budget = 0 then Inl (AppErr CodeBusy ''Operator fee policy exceeds evaluation limit'')
        else
          (case priced candidateChange of
             Inl e \<Rightarrow> Inl e
           | Inr actual \<Rightarrow>
               if actual = candidate then Inr ((candidate, candidateChange, True), budget - 1)
               else if candidate = - 1 then Inr ((0, 0, False), budget - 1)
               else solveCandidates cancelled priced available maxCandidate (candidate + 1) (budget - 1)))"
  by pat_completeness auto
termination
proof (relation "measures [\<lambda>(_, _, _, _, _, b). b,
    \<lambda>(_, _, available, _, c, _). if available - c < DustSats then unat (available - c) + 1 else 0]")
  fix cancelled :: "u64 \<Rightarrow> bool" and priced :: "u64 \<Rightarrow> u64 result" and available maxCandidate candidate :: u64
    and budget :: nat and x
  assume x: "x = available - candidate" "x < DustSats"
  have "x - 1 < DustSats \<longrightarrow> unat (x - 1) < unat x"
  proof (cases "x = 0")
    case False
    then have "0 < unat x" by (simp add: unat_gt_0)
    with False show ?thesis by (simp add: unat_minus_one)
  qed simp
  then have "available - candidate - 1 < DustSats \<longrightarrow> unat (available - candidate - 1) < unat (available - candidate)"
    by (simp only: x)
  then show "((cancelled, priced, available, maxCandidate, candidate + 1, budget),
      cancelled, priced, available, maxCandidate, candidate, budget)
    \<in> measures [\<lambda>(_, _, _, _, _, b). b,
    \<lambda>(_, _, available, _, c, _). if available - c < DustSats then unat (available - c) + 1 else 0]"
    using x by (simp add: diff_diff_eq [symmetric])
qed simp_all

text \<open>The Operator's price of a transaction, in whole satoshis.\<close>

definition evalFee :: "Estimator \<Rightarrow> OffchainInput list \<Rightarrow> FeeOutput list \<Rightarrow> u64 result" where
  "evalFee estimator feeInputs outputs =
     bindR (rejectAs ''Operator fee evaluation'' (Eval estimator feeInputs outputs)) exactFeeSats"

definition withChange :: "bytes \<Rightarrow> u64 \<Rightarrow> bytes \<Rightarrow> u64 \<Rightarrow> FeeOutput list" where
  "withChange destScript amount changeScript change =
     [\<lparr> fo_Amount = amount, fo_Script = hex_encode destScript \<rparr>,
      \<lparr> fo_Amount = change, fo_Script = hex_encode changeScript \<rparr>]"

definition withoutChange :: "bytes \<Rightarrow> u64 \<Rightarrow> FeeOutput list" where
  "withoutChange destScript amount = [\<lparr> fo_Amount = amount, fo_Script = hex_encode destScript \<rparr>]"

text \<open>\<open>ctx None\<close> is the reading of the context on entry, \<open>ctx (Some c)\<close> the one at candidate \<open>c\<close>.\<close>

definition solveVtxoSpendWithBudget ::
  "(u64 option \<Rightarrow> bool) \<Rightarrow> reservedCoin list \<Rightarrow> bytes \<Rightarrow> bytes \<Rightarrow> u64 \<Rightarrow> u64 \<Rightarrow> Estimator \<Rightarrow> nat \<Rightarrow>
     ((u64 \<times> u64 \<times> bool) \<times> nat) result" where
  "solveVtxoSpendWithBudget ctx coins destScript changeScript amount feeCap estimator budget =
     (if ctx None then Inl (AppErr CodeBusy ''fee selection cancelled'')
      else bindR (totalCoins 0 coins) (\<lambda>coinTotal.
      if coinTotal < amount then Inr ((0, 0, False), budget)
      else
        let feeInputs = map rc_FeeInput coins in
        bindR (consumeBudget budget) (\<lambda>budget.
        bindR (evalFee estimator feeInputs (withoutChange destScript amount)) (\<lambda>noChangeFee.
        if noChangeFee \<le> feeCap \<and> coinTotal - amount = noChangeFee then Inr ((noChangeFee, 0, True), budget)
        else
          solveCandidates (\<lambda>c. ctx (Some c))
            (\<lambda>change. evalFee estimator feeInputs (withChange destScript amount changeScript change))
            (coinTotal - amount) (min feeCap (coinTotal - amount)) 0 budget))))"

definition solveVtxoSpend ::
  "(u64 option \<Rightarrow> bool) \<Rightarrow> reservedCoin list \<Rightarrow> bytes \<Rightarrow> bytes \<Rightarrow> u64 \<Rightarrow> u64 \<Rightarrow> Estimator \<Rightarrow> (u64 \<times> u64 \<times> bool) result" where
  "solveVtxoSpend ctx coins destScript changeScript amount feeCap estimator =
     bindR (solveVtxoSpendWithBudget ctx coins destScript changeScript amount feeCap estimator
       maxVtxoFeeProgramEvaluations) (\<lambda>(r, _). Inr r)"

section \<open>Selection\<close>

text \<open>Largest effective value first, then by outpoint; and by outpoint alone.\<close>

definition coinOrder :: "reservedCoin \<Rightarrow> u64 \<times> nat list \<times> u32" where
  "coinOrder c = (- 1 - rc_Effective c, map unat (rc_Txid c), rc_Vout c)"

definition coinOutpoint :: "reservedCoin \<Rightarrow> nat list \<times> u32" where
  "coinOutpoint c = (map unat (rc_Txid c), rc_Vout c)"

definition coinInput :: "reservedCoin \<Rightarrow> VtxoBundleInput" where
  "coinInput c = \<lparr> vb_Txid = rc_Txid c, vb_Vout = rc_Vout c, vb_ValueSats = rc_ValueSats c \<rparr>"

text \<open>The loop over how many coins to take: \<open>n\<close> further counts remain from \<open>m\<close>.\<close>

fun selectCount ::
  "(nat \<Rightarrow> nat \<Rightarrow> ((u64 \<times> u64 \<times> bool) \<times> nat) result) \<Rightarrow> nat \<Rightarrow> nat \<Rightarrow> nat \<Rightarrow> (nat \<times> u64 \<times> u64) result" where
  "selectCount solve 0 m budget = rejected ''insufficient economic vtxo funds''"
| "selectCount solve (Suc n) m budget =
     bindR (solve m budget) (\<lambda>((fee, change, ok), budget).
     if ok then Inr (m, fee, change) else selectCount solve n (Suc m) budget)"

text \<open>\<open>slots\<close> is the limit on concurrent selections and \<open>busy\<close> how many are running.\<close>

abbreviation defaultConcurrentFeeSelections :: int where "defaultConcurrentFeeSelections \<equiv> 2"

definition acquireSlot :: "int \<Rightarrow> int \<Rightarrow> error \<Rightarrow> nat \<Rightarrow> error option \<Rightarrow> unit result" where
  "acquireSlot limit standard exhausted busy ctxErr =
     (case ctxErr of
        Some e \<Rightarrow> Inl e
      | None \<Rightarrow> if int busy < (if limit \<le> 0 then standard else limit) then Inr () else Inl exhausted)"

definition acquireFeeSelection :: "int \<Rightarrow> nat \<Rightarrow> error option \<Rightarrow> unit result" where
  "acquireFeeSelection limit busy ctxErr =
     acquireSlot limit defaultConcurrentFeeSelections (AppErr CodeBusy ''fee selection capacity exhausted'') busy ctxErr"

definition selectCoins ::
  "(nat \<Rightarrow> u64 option \<Rightarrow> bool) \<Rightarrow> reservedCoin list \<Rightarrow> bytes \<Rightarrow> bytes \<Rightarrow> u64 \<Rightarrow> u64 \<Rightarrow> Estimator \<Rightarrow> nat \<Rightarrow>
     (reservedCoin list \<times> u64 \<times> u64) result" where
  "selectCoins ctx coins pkScript destScript amountSats feeCap estimator budget =
     bindR (rejectWith (CanonicalVtxoBundleInputs (map coinInput coins))) (\<lambda>_.
     let sorted = sort_key coinOrder coins in
     bindR (selectCount (\<lambda>m budget. solveVtxoSpendWithBudget (ctx m) (take m sorted) destScript pkScript amountSats
         feeCap estimator budget) (min (length sorted) maxVtxoSpendInputs) 1 budget) (\<lambda>(m, fee, change).
     Inr (sort_key coinOutpoint (take m sorted), fee, change)))"

text \<open>
  The whole selection. \<open>indexed\<close> is the answer of the resolver's \<open>SpendableVtxos\<close>, \<open>acquired\<close>
  that of \<open>acquireFeeSelection\<close>.
\<close>

definition selectSpendVtxos ::
  "(nat \<Rightarrow> u64 option \<Rightarrow> bool) \<Rightarrow> ResolvedVtxo list result \<Rightarrow> unit result \<Rightarrow> bytes \<Rightarrow> bytes \<Rightarrow> u64 \<Rightarrow> u64 \<Rightarrow> Estimator \<Rightarrow>
     (reservedCoin list \<times> u64 \<times> u64) result" where
  "selectSpendVtxos ctx indexed acquired pkScript destScript amountSats feeCap estimator =
     bindR (rejectAs ''ark indexer'' indexed) (\<lambda>vtxos.
     bindR acquired (\<lambda>_.
     bindR (vtxosToCoins vtxos pkScript estimator maxVtxoFeeProgramEvaluations) (\<lambda>(coins, budget).
     selectCoins ctx coins pkScript destScript amountSats feeCap estimator budget)))"

section \<open>What the solver finds\<close>

text \<open>
  The reference: a fee within the ceiling and a change that spend the coins exactly and that the
  Operator prices at this fee, the change being absent or at least the dust limit.
\<close>

definition coinValue :: "reservedCoin list \<Rightarrow> nat" where
  "coinValue coins = sum_list (map (unat \<circ> rc_ValueSats) coins)"

definition spendSolution ::
  "Estimator \<Rightarrow> reservedCoin list \<Rightarrow> bytes \<Rightarrow> bytes \<Rightarrow> u64 \<Rightarrow> u64 \<Rightarrow> u64 \<Rightarrow> u64 \<Rightarrow> bool" where
  "spendSolution estimator coins destScript changeScript amount feeCap fee change \<longleftrightarrow>
     fee \<le> feeCap \<and> coinValue coins = unat amount + unat fee + unat change \<and>
     (if change = 0 then evalFee estimator (map rc_FeeInput coins) (withoutChange destScript amount) = Inr fee
      else DustSats \<le> change \<and>
        evalFee estimator (map rc_FeeInput coins) (withChange destScript amount changeScript change) = Inr fee)"

lemma u64_upper: "unat (t :: u64) < 2 ^ 64"
  using unsigned_less [of t] by simp

lemma unat_max_u64: "unat (- 1 :: u64) = 2 ^ 64 - 1"
  by (simp add: unsigned_minus_1_eq_mask mask_eq_exp_minus_1)

lemma unat_inc_u64: "(c :: u64) \<noteq> - 1 \<Longrightarrow> unat (c + 1) = unat c + 1"
proof -
  assume "c \<noteq> - 1"
  then have "unat c \<noteq> unat (- 1 :: u64)" by (simp only: word_unat_eq_iff [symmetric] not_False_eq_True)
  then have "unat c + 1 < 2 ^ 64" using u64_upper [of c] by (simp add: unat_max_u64)
  then show ?thesis by (simp add: unat_word_ariths)
qed

lemma u64_below_max: "c \<le> m \<Longrightarrow> m \<noteq> - 1 \<Longrightarrow> (c :: u64) \<noteq> - 1"
  by (metis word_order.extremum_unique)

lemma u64_Suc_le: "c \<le> m \<Longrightarrow> m \<noteq> - 1 \<Longrightarrow> c + 1 \<le> d \<longleftrightarrow> c < (d :: u64)"
  using unat_inc_u64 [OF u64_below_max] by (simp add: word_le_nat_alt word_less_nat_alt Suc_le_eq)

lemma totalCoins_Inr:
  "totalCoins t coins = Inr s \<longleftrightarrow> unat t + coinValue coins < 2 ^ 64 \<and> unat s = unat t + coinValue coins"
proof (induction coins arbitrary: t)
  case Nil
  show ?case using u64_upper [of t] by (auto simp: coinValue_def word_unat_eq_iff)
next
  case (Cons c cs)
  have m: "unat (- 1 - t) = 2 ^ 64 - 1 - unat t"
    by (simp add: unat_sub unat_max_u64)
  show ?case
  proof (cases "rc_ValueSats c > - 1 - t")
    case True
    then have "2 ^ 64 - 1 - unat t < unat (rc_ValueSats c)" by (simp add: word_less_nat_alt m)
    then have "\<not> unat t + coinValue (c # cs) < 2 ^ 64" using u64_upper [of t] by (simp add: coinValue_def)
    with True show ?thesis by simp
  next
    case False
    then have le: "unat (rc_ValueSats c) \<le> 2 ^ 64 - 1 - unat t" by (simp add: word_less_nat_alt m not_less)
    then have "unat t + unat (rc_ValueSats c) < 2 ^ 64" using u64_upper [of t] by simp
    then have "unat (t + rc_ValueSats c) = unat t + unat (rc_ValueSats c)"
      by (subst unat_add_lem [symmetric]) simp_all
    with False Cons.IH show ?thesis by (auto simp: coinValue_def)
  qed
qed

text \<open>The candidates that would be accepted.\<close>

definition changeFee :: "(u64 \<Rightarrow> u64 result) \<Rightarrow> u64 \<Rightarrow> u64 \<Rightarrow> bool" where
  "changeFee priced available c \<longleftrightarrow> DustSats \<le> available - c \<and> priced (available - c) = Inr c"

declare solveCandidates.simps [simp del]

lemma candidate_step:
  assumes "c \<le> m" and "m \<noteq> (- 1 :: u64)" and "\<not> F c"
    and "if ok then c + 1 \<le> fee \<and> P \<and> (\<forall>d. c + 1 \<le> d \<longrightarrow> d < fee \<longrightarrow> \<not> F d)
      else \<forall>d. c + 1 \<le> d \<longrightarrow> d \<le> m \<longrightarrow> \<not> F d"
  shows "if ok then c \<le> fee \<and> P \<and> (\<forall>d. c \<le> d \<longrightarrow> d < fee \<longrightarrow> \<not> F d)
    else \<forall>d. c \<le> d \<longrightarrow> d \<le> m \<longrightarrow> \<not> F d"
proof -
  have "c \<le> d \<longleftrightarrow> d = c \<or> c + 1 \<le> d" for d
    using u64_Suc_le [OF assms(1,2), of d] by auto
  with assms(3,4) show ?thesis by (cases ok) auto
qed

lemma solveCandidates_Inr:
  assumes "solveCandidates cancelled priced available m c b = Inr ((fee, change, ok), b')" and "m \<noteq> - 1"
  shows "if ok then c \<le> fee \<and> (fee \<le> m \<and> changeFee priced available fee \<and> change = available - fee) \<and>
      (\<forall>d. c \<le> d \<longrightarrow> d < fee \<longrightarrow> \<not> changeFee priced available d)
    else \<forall>d. c \<le> d \<longrightarrow> d \<le> m \<longrightarrow> \<not> changeFee priced available d"
  using assms
proof (induction cancelled priced available m c b rule: solveCandidates.induct)
  case (1 cancelled priced available m c b)
  note eq = solveCandidates.simps [of cancelled priced available m c b]
  show ?case
  proof (cases "c \<le> m")
    case False
    with "1.prems" show ?thesis by (auto simp: eq dest: order_trans)
  next
    case le: True
    note step = candidate_step [where F = "changeFee priced available", OF le "1.prems"(2)]
    from "1.prems"(1) le have nc: "\<not> cancelled c" by (auto simp: eq split: if_splits)
    show ?thesis
    proof (cases "available - c < DustSats")
      case True
      then have "solveCandidates cancelled priced available m (c + 1) b = Inr ((fee, change, ok), b')"
        using "1.prems"(1) le nc by (simp add: eq)
      note ih = "1.IH"(1) [OF _ nc refl True this "1.prems"(2)]
      have "\<not> changeFee priced available c" using True by (simp add: changeFee_def not_le)
      then show ?thesis by (rule step) (rule ih, simp add: le)
    next
      case dust: False
      then obtain actual where a: "priced (available - c) = Inr actual" and b: "b \<noteq> 0"
        using "1.prems"(1) le nc by (auto simp: eq Let_def split: sum.splits if_splits)
      show ?thesis
      proof (cases "actual = c")
        case True
        then show ?thesis using "1.prems"(1) le nc dust a b by (auto simp: eq Let_def changeFee_def)
      next
        case False
        have n1: "c \<noteq> - 1" using le "1.prems"(2) by (metis word_order.extremum_unique)
        then have "solveCandidates cancelled priced available m (c + 1) (b - 1) = Inr ((fee, change, ok), b')"
          using "1.prems"(1) le nc dust a b False by (simp add: eq Let_def)
        note ih = "1.IH"(2) [OF _ nc refl dust b a False n1 this "1.prems"(2)]
        have "\<not> changeFee priced available c" using a False by (simp add: changeFee_def)
        then show ?thesis by (rule step) (rule ih, simp add: le)
      qed
    qed
  qed
qed

text \<open>With budget for every candidate and prices for every change, the loop returns.\<close>

lemma solveCandidates_returns:
  assumes "\<forall>d. \<not> cancelled d" and "\<forall>change. \<exists>fee. priced change = Inr fee"
    and "m \<noteq> - 1" and "c \<le> m + 1" and "unat m + 1 \<le> unat c + b"
  shows "\<exists>r. solveCandidates cancelled priced available m c b = Inr r"
  using assms
proof (induction cancelled priced available m c b rule: solveCandidates.induct)
  case (1 cancelled priced available m c b)
  note eq = solveCandidates.simps [of cancelled priced available m c b]
  show ?case
  proof (cases "c \<le> m")
    case le: True
    have n1: "c \<noteq> - 1" using le "1.prems"(3) by (metis word_order.extremum_unique)
    then have u: "unat (c + 1) = Suc (unat c)" by (simp add: unat_inc_u64)
    have next_le: "c + 1 \<le> m + 1"
      using le unat_inc_u64 [OF "1.prems"(3)] u by (simp add: word_le_nat_alt)
    from "1.prems"(5) le have b: "b \<noteq> 0" by (auto simp: word_le_nat_alt)
    obtain actual where a: "priced (available - c) = Inr actual" using "1.prems"(2) by blast
    show ?thesis
    proof (cases "available - c < DustSats")
      case True
      have "\<exists>r. solveCandidates cancelled priced available m (c + 1) b = Inr r"
        by (rule "1.IH"(1)) (use le True "1.prems" next_le u in auto)
      then show ?thesis unfolding eq using le True "1.prems"(1) by simp
    next
      case dust: False
      show ?thesis
      proof (cases "actual = c")
        case True
        then show ?thesis unfolding eq using le dust "1.prems"(1) a b by auto
      next
        case False
        have "\<exists>r. solveCandidates cancelled priced available m (c + 1) (b - 1) = Inr r"
          by (rule "1.IH"(2)) (use le dust a b False n1 "1.prems" next_le u in auto)
        then show ?thesis unfolding eq using le dust "1.prems"(1) a b False n1 by simp
      qed
    qed
  qed (auto simp: eq)
qed


text \<open>The difference of the coins and the amount, and the changes that leave a fee.\<close>

lemma spend_difference:
  assumes "unat t = coinValue coins" and "amount \<le> t"
  shows "coinValue coins = unat amount + unat fee + unat change \<longleftrightarrow> fee \<le> t - amount \<and> change = t - amount - fee"
proof -
  have d: "unat (t - amount) = coinValue coins - unat amount" "unat amount \<le> coinValue coins"
    using assms by (simp_all add: unat_sub word_le_nat_alt)
  show ?thesis
  proof
    assume "coinValue coins = unat amount + unat fee + unat change"
    then have "unat (t - amount) = unat fee + unat change" using d by simp
    then have "fee \<le> t - amount" and "unat change = unat (t - amount - fee)"
      by (simp_all add: word_le_nat_alt unat_sub)
    then show "fee \<le> t - amount \<and> change = t - amount - fee" by (simp add: word_unat_eq_iff)
  next
    assume a: "fee \<le> t - amount \<and> change = t - amount - fee"
    then have "unat change = unat (t - amount) - unat fee" by (simp add: unat_sub word_le_nat_alt)
    moreover have "unat fee \<le> unat (t - amount)" using a by (simp add: word_le_nat_alt)
    ultimately show "coinValue coins = unat amount + unat fee + unat change" using d by linarith
  qed
qed

lemma spendSolution_difference:
  assumes "unat t = coinValue coins" and "amount \<le> t" and "change \<noteq> 0"
  shows "spendSolution est coins dest cs amount cap fee change \<longleftrightarrow>
    fee \<le> min cap (t - amount) \<and> change = t - amount - fee \<and>
    changeFee (\<lambda>c. evalFee est (map rc_FeeInput coins) (withChange dest amount cs c)) (t - amount) fee"
  using assms(3) by (auto simp: spendSolution_def spend_difference [OF assms(1,2)] changeFee_def)

lemma spendSolution_noChange:
  assumes "unat t = coinValue coins" and "amount \<le> t"
  shows "spendSolution est coins dest cs amount cap fee 0 \<longleftrightarrow>
    fee \<le> cap \<and> fee = t - amount \<and> evalFee est (map rc_FeeInput coins) (withoutChange dest amount) = Inr fee"
proof -
  have "coinValue coins = unat amount + unat fee + unat (0 :: u64) \<longleftrightarrow> fee \<le> t - amount \<and> 0 = t - amount - fee"
    by (rule spend_difference [OF assms])
  then have "coinValue coins = unat amount + unat fee + unat (0 :: u64) \<longleftrightarrow> fee = t - amount" by auto
  then show ?thesis by (auto simp: spendSolution_def)
qed

lemma spendSolution_value: "spendSolution est coins dest cs amount cap fee change \<Longrightarrow> unat amount \<le> coinValue coins"
  by (simp add: spendSolution_def)

lemma solve_spec:
  assumes s: "solveVtxoSpendWithBudget ctx coins dest cs amount cap est b = Inr ((fee, change, ok), b')"
    and cap: "cap \<noteq> - 1"
  shows "if ok then spendSolution est coins dest cs amount cap fee change \<and>
      (change \<noteq> 0 \<longrightarrow> (\<forall>fee' change'. spendSolution est coins dest cs amount cap fee' change' \<longrightarrow> fee \<le> fee'))
    else \<forall>fee' change'. \<not> spendSolution est coins dest cs amount cap fee' change'"
proof -
  let ?priced = "\<lambda>c. evalFee est (map rc_FeeInput coins) (withChange dest amount cs c)"
  from s obtain t where t: "totalCoins 0 coins = Inr t"
    by (auto simp: solveVtxoSpendWithBudget_def res_simps split: if_splits)
  then have u: "unat t = coinValue coins" by (simp add: totalCoins_Inr)
  show ?thesis
  proof (cases "t < amount")
    case True
    then have "\<not> spendSolution est coins dest cs amount cap fee' change'" for fee' change'
      using spendSolution_value [of est coins dest cs amount cap fee' change'] u by (auto simp: word_less_nat_alt)
    moreover have "\<not> ok" using s t True by (auto simp: solveVtxoSpendWithBudget_def split: if_splits)
    ultimately show ?thesis by simp
  next
    case False
    then have le: "amount \<le> t" by simp
    note diff = spendSolution_difference [OF u le] and none = spendSolution_noChange [OF u le]
    from s t False obtain b1 nf where b1: "consumeBudget b = Inr b1"
      and nf: "evalFee est (map rc_FeeInput coins) (withoutChange dest amount) = Inr nf"
      and rest: "(if nf \<le> cap \<and> t - amount = nf then Inr ((nf, 0, True), b1)
        else solveCandidates (\<lambda>c. ctx (Some c)) ?priced (t - amount) (min cap (t - amount)) 0 b1) = Inr ((fee, change, ok), b')"
      by (auto simp: solveVtxoSpendWithBudget_def res_simps Let_def split: if_splits)
    show ?thesis
    proof (cases "nf \<le> cap \<and> t - amount = nf")
      case True
      with rest have "fee = nf \<and> change = 0 \<and> ok" by simp
      with True show ?thesis by (simp add: none nf)
    next
      case False
      then have nn: "\<not> spendSolution est coins dest cs amount cap fee' 0" for fee'
        by (auto simp: none nf)
      have m: "min cap (t - amount) \<noteq> - 1" using cap by (metis min.cobounded1 word_order.extremum_unique)
      from False rest have "solveCandidates (\<lambda>c. ctx (Some c)) ?priced (t - amount) (min cap (t - amount)) 0 b1 =
        Inr ((fee, change, ok), b')" by (simp only: if_False)
      note spec = solveCandidates_Inr [OF this m]
      show ?thesis
      proof (cases ok)
        case True
        with spec have f: "fee \<le> min cap (t - amount)" "changeFee ?priced (t - amount) fee" "change = t - amount - fee"
          and min: "\<And>d. d < fee \<Longrightarrow> \<not> changeFee ?priced (t - amount) d"
          by simp_all
        from f have c0: "change \<noteq> 0" by (auto simp: changeFee_def)
        have "fee \<le> fee'" if "spendSolution est coins dest cs amount cap fee' change'" for fee' change'
        proof (cases "change' = 0")
          case False
          show ?thesis by (rule ccontr) (use that min [of fee'] False in \<open>simp add: diff not_le\<close>)
        qed (use that nn in simp)
        with f c0 True show ?thesis by (simp add: diff)
      next
        case False
        with spec have "\<not> changeFee ?priced (t - amount) d" if "d \<le> min cap (t - amount)" for d using that by simp
        then have "\<not> spendSolution est coins dest cs amount cap fee' change'" for fee' change'
          using nn by (cases "change' = 0") (auto simp: diff)
        with False show ?thesis by simp
      qed
    qed
  qed
qed

lemma solve_returns:
  assumes "\<forall>r. \<not> ctx r" and "coinValue coins < 2 ^ 64" and "cap \<noteq> - 1" and "unat cap + 2 \<le> b"
    and priced: "\<forall>outputs. \<exists>fee. evalFee est (map rc_FeeInput coins) outputs = Inr fee"
  shows "\<exists>r. solveVtxoSpendWithBudget ctx coins dest cs amount cap est b = Inr r"
proof -
  have t: "totalCoins 0 coins = Inr (of_nat (coinValue coins))"
    using assms(2) by (simp add: totalCoins_Inr unat_of_nat)
  obtain nf where nf: "evalFee est (map rc_FeeInput coins) (withoutChange dest amount) = Inr nf" using priced by blast
  let ?t = "of_nat (coinValue coins) - amount :: u64"
  have m: "min cap ?t \<noteq> - 1" using assms(3) by (metis min.cobounded1 word_order.extremum_unique)
  have "unat (min cap ?t) \<le> unat cap" by (metis min.cobounded1 word_le_nat_alt)
  then have "\<exists>r. solveCandidates (\<lambda>c. ctx (Some c))
      (\<lambda>c. evalFee est (map rc_FeeInput coins) (withChange dest amount cs c)) ?t (min cap ?t) 0 (b - 1) = Inr r"
    using assms(1,4) priced m by (intro solveCandidates_returns) auto
  then show ?thesis
    using assms(1,4) t nf by (auto simp: solveVtxoSpendWithBudget_def consumeBudget_def Let_def)
qed

section \<open>What the selection takes\<close>

text \<open>
  The reference for the pool: an output is economic when it is worth more than the Operator charges for
  spending it, and its coin counts for the difference.
\<close>

definition inputFee :: "Estimator \<Rightarrow> ResolvedVtxo \<Rightarrow> u64 result" where
  "inputFee estimator v =
     bindR (rejectAs ''Operator input fee evaluation'' (EvalOffchainInput estimator (resolvedArkFeeInput v))) exactFeeSats"

definition economic :: "Estimator \<Rightarrow> ResolvedVtxo \<Rightarrow> bool" where
  "economic estimator v = (case inputFee estimator v of Inl _ \<Rightarrow> False | Inr fee \<Rightarrow> fee < rv_ValueSats v)"

definition coinOf :: "bytes \<Rightarrow> Estimator \<Rightarrow> ResolvedVtxo \<Rightarrow> reservedCoin \<Rightarrow> bool" where
  "coinOf pkScript estimator v c \<longleftrightarrow> hex_encode (rc_Txid c) = rv_Txid v \<and> length (rc_Txid c) = 32 \<and> rc_Vout c = rv_Vout v \<and>
     rc_ValueSats c = rv_ValueSats v \<and> rc_Script c = pkScript \<and> rv_Script v = pkScript \<and>
     rc_FeeInput c = resolvedArkFeeInput v \<and> rv_ValueSats v \<le> max_i64 \<and>
     inputFee estimator v = Inr (rv_ValueSats v - rc_Effective c)"

lemma canonicalTxidHex_Some: "canonicalTxidHex s = Some raw \<Longrightarrow> hex_encode raw = s \<and> length raw = 32"
  by (auto simp: canonicalTxidHex_def hex_encode_decode split: option.splits if_splits)

lemma vtxoToCoin_Inr:
  assumes "vtxoToCoin pkScript est v b = Inr (x, b')"
  shows "case x of None \<Rightarrow> \<not> economic est v | Some c \<Rightarrow> economic est v \<and> coinOf pkScript est v c"
  using assms by (auto simp: vtxoToCoin_def coinOf_def economic_def inputFee_def Let_def res_simps not_less not_le
      dest: canonicalTxidHex_Some split: option.splits if_splits)

text \<open>The pool holds exactly the coins of the economic outputs, in the indexer's order.\<close>

lemma vtxosToCoins_Inr:
  "vtxosToCoins vs pkScript est b = Inr (cs, b') \<Longrightarrow> list_all2 (coinOf pkScript est) (filter (economic est) vs) cs"
proof (induction vs arbitrary: b cs)
  case (Cons v vs)
  from Cons.prems obtain x b1 ds where x: "vtxoToCoin pkScript est v b = Inr (x, b1)"
    and ds: "vtxosToCoins vs pkScript est b1 = Inr (ds, b')" and cs: "cs = (case x of None \<Rightarrow> ds | Some c \<Rightarrow> c # ds)"
    by (auto simp: res_simps)
  with Cons.IH [OF ds] vtxoToCoin_Inr [OF x] show ?case by (cases x) auto
qed simp

lemma pool_txids: "list_all2 (coinOf pkScript est) vs cs \<Longrightarrow> \<forall>c \<in> set cs. length (rc_Txid c) = 32"
  by (induction rule: list_all2_induct) (auto simp: coinOf_def)

lemma inj_unat_byte: "inj (unat :: byte \<Rightarrow> nat)"
  by (simp add: inj_def word_unat_eq_iff)

lemma coinOutpoint_order:
  "length (rc_Txid c) = 32 \<Longrightarrow> length (rc_Txid d) = 32 \<Longrightarrow>
     coinOutpoint c = coinOutpoint d \<longleftrightarrow> outpointOrder (coinInput c) = outpointOrder (coinInput d)"
  by (auto simp: coinOutpoint_def outpointOrder_def coinInput_def hex_encode_inject inj_map_eq_map [OF inj_unat_byte])

lemma distinct_coins:
  assumes "CanonicalVtxoBundleInputs (map coinInput coins) = Inr os"
    and len: "\<forall>c \<in> set coins. length (rc_Txid c) = 32"
  shows "distinct (map coinOutpoint coins)"
proof -
  have "mapR normalizeBundleInput (map coinInput coins) = Inr (map coinInput coins)"
    using len by (auto simp: mapR_iff normalizeBundleInput_id coinInput_def map_idI)
  with assms(1) have "distinct (map outpointOrder (map coinInput coins))"
    by (auto simp: CanonicalVtxoBundleInputs_iff)
  then have d: "distinct coins" "inj_on (outpointOrder \<circ> coinInput) (set coins)" by (simp_all add: distinct_map)
  then have "inj_on coinOutpoint (set coins)"
    using len coinOutpoint_order by (auto simp: inj_on_def)
  with d show ?thesis by (simp add: distinct_map)
qed

lemma selectCount_Inr:
  assumes "selectCount solve n m b = Inr (k, fee, change)"
  shows "m \<le> k \<and> k < m + n \<and> (\<exists>b b'. solve k b = Inr ((fee, change, True), b')) \<and>
    (\<forall>j. m \<le> j \<longrightarrow> j < k \<longrightarrow> (\<exists>b f c b'. solve j b = Inr ((f, c, False), b')))"
  using assms
proof (induction n arbitrary: m b)
  case (Suc n)
  from Suc.prems obtain f c ok b1 where s: "solve m b = Inr ((f, c, ok), b1)"
    and rest: "(if ok then Inr (m, f, c) else selectCount solve n (Suc m) b1) = Inr (k, fee, change)"
    by (auto simp: res_simps)
  show ?case
  proof (cases ok)
    case True
    with rest s show ?thesis by auto
  next
    case False
    with rest have "selectCount solve n (Suc m) b1 = Inr (k, fee, change)" by simp
    note ih = Suc.IH [OF this]
    have "\<exists>b f c b'. solve j b = Inr ((f, c, False), b')" if "m \<le> j" "j < k" for j
      using ih that s False by (cases "j = m") auto
    with ih show ?thesis by auto
  qed
qed simp

lemma coinValue_sort [simp]: "coinValue (sort_key f coins) = coinValue coins"
  by (simp add: coinValue_def) (metis mset_map mset_sort sum_mset_sum_list)

lemma sort_key_split:
  assumes "c \<in> set (take k (sort_key f xs))" and "d \<in> set (drop k (sort_key f xs))"
  shows "f c \<le> (f d :: 'a :: linorder)"
proof -
  have "sorted (map f (take k (sort_key f xs)) @ map f (drop k (sort_key f xs)))"
    by (simp flip: map_append)
  with assms show ?thesis by (auto simp: sorted_append)
qed

lemma coinOrder_effective: "coinOrder c \<le> coinOrder d \<Longrightarrow> rc_Effective d \<le> rc_Effective c"
proof -
  have m: "unat (- 1 - x) = 2 ^ 64 - 1 - unat x" for x :: u64 by (simp add: unat_sub unat_max_u64)
  assume "coinOrder c \<le> coinOrder d"
  then have "unat (- 1 - rc_Effective c) \<le> unat (- 1 - rc_Effective d)"
    by (auto simp: coinOrder_def word_le_nat_alt word_less_nat_alt)
  then show ?thesis using u64_upper [of "rc_Effective c"] u64_upper [of "rc_Effective d"] by (simp add: m word_le_nat_alt)
qed

lemma selectCoins_Inr:
  assumes s: "selectCoins ctx coins pkScript dest amount cap est b = Inr (picked, fee, change)" and cap: "cap \<noteq> - 1"
    and len: "\<forall>c \<in> set coins. length (rc_Txid c) = 32"
  obtains k where "0 < k" and "k \<le> maxVtxoSpendInputs" and "length picked = k"
    and "mset picked = mset (take k (sort_key coinOrder coins))"
    and "sorted (map coinOutpoint picked)" and "distinct (map coinOutpoint picked)"
    and "spendSolution est (take k (sort_key coinOrder coins)) dest pkScript amount cap fee change"
    and "\<And>j f c. 0 < j \<Longrightarrow> j < k \<Longrightarrow> \<not> spendSolution est (take j (sort_key coinOrder coins)) dest pkScript amount cap f c"
proof -
  let ?s = "sort_key coinOrder coins"
  let ?solve = "\<lambda>m b. solveVtxoSpendWithBudget (ctx m) (take m ?s) dest pkScript amount cap est b"
  from s obtain os k where os: "CanonicalVtxoBundleInputs (map coinInput coins) = Inr os"
    and k: "selectCount ?solve (min (length ?s) maxVtxoSpendInputs) 1 b = Inr (k, fee, change)"
    and picked: "picked = sort_key coinOutpoint (take k ?s)"
    by (auto simp: selectCoins_def res_simps Let_def)
  note sc = selectCount_Inr [OF k]
  then have kl: "0 < k" "k \<le> length ?s" "k \<le> maxVtxoSpendInputs" by auto
  have d: "distinct (map coinOutpoint ?s)"
    using distinct_coins [OF os len] by (metis distinct_map distinct_sort set_sort)
  have dk: "distinct (map coinOutpoint (take k ?s))"
    using d by (simp add: take_map [symmetric])
  show thesis
  proof (rule that [of k])
    show "0 < k" "k \<le> maxVtxoSpendInputs" by (fact kl)+
    show "length picked = k" using kl by (simp add: picked)
    show "mset picked = mset (take k ?s)" by (simp add: picked)
    show "sorted (map coinOutpoint picked)" by (simp add: picked)
    show "distinct (map coinOutpoint picked)" using dk by (simp add: picked distinct_map)
    show "spendSolution est (take k ?s) dest pkScript amount cap fee change"
      using sc solve_spec [OF _ cap] by force
    show "\<not> spendSolution est (take j ?s) dest pkScript amount cap f c" if j: "0 < j" "j < k" for j f c
    proof -
      obtain b f' c' b' where "?solve j b = Inr ((f', c', False), b')" using sc j by (metis Suc_leI One_nat_def)
      from solve_spec [OF this cap] show ?thesis by simp
    qed
  qed
qed

lemma coinValue_mset: "mset xs = mset ys \<Longrightarrow> coinValue xs = coinValue ys"
  unfolding coinValue_def by (metis mset_map sum_mset_sum_list)

lemma cap_below_max: "(cap :: u64) \<le> max_i64 \<Longrightarrow> cap \<noteq> - 1"
  by (auto simp: max_i64_def word_le_nat_alt unat_max_u64)

section \<open>Properties\<close>

text \<open>An estimator that charges three quarters of a satoshi, twice that for two outputs, and coins.\<close>

definition exEstimator :: Estimator where
  "exEstimator = \<lparr> EvalOffchainInput = (\<lambda>_. Inr (Finite 0)), Eval = (\<lambda>_ outs. Inr (Finite (if length outs = 2 then 3 / 2 else 3 / 4))) \<rparr>"

lemma exCeilings [simp]: "\<lceil>3 / 4 :: rat\<rceil> = 1" "\<lceil>3 / 2 :: rat\<rceil> = 2"
  by (simp_all add: ceiling_eq_iff)

definition exVtxo :: "byte \<Rightarrow> u64 \<Rightarrow> ResolvedVtxo" where
  "exVtxo b v = \<lparr> rv_Txid = hex_encode (replicate 32 b), rv_Vout = 0, rv_ValueSats = v, rv_Script = [0x51],
     rv_CreatedAt = 0, rv_ExpiresAt = None, rv_IsSwept = False, rv_CommitmentTxids = [] \<rparr>"

definition exCoin :: "byte \<Rightarrow> u64 \<Rightarrow> reservedCoin" where
  "exCoin b v = \<lparr> rc_Txid = replicate 32 b, rc_Vout = 0, rc_ValueSats = v, rc_Script = [0x51],
     rc_FeeInput = resolvedArkFeeInput (exVtxo b v), rc_Effective = v \<rparr>"

lemmas exSolve = solveVtxoSpendWithBudget_def exCoin_def exEstimator_def consumeBudget_def evalFee_def exactFeeSats_def
  withoutChange_def withChange_def Let_def solveCandidates.simps min_def

lemma canonicalTxidHex_encode: "length bs = 32 \<Longrightarrow> canonicalTxidHex (hex_encode bs) = Some bs"
  by (simp add: canonicalTxidHex_def hex_decode_encode)

lemma exVtxo_coin:
  assumes "0 < v" and "v \<le> max_i64"
  shows "vtxoToCoin [0x51] exEstimator (exVtxo b v) (Suc n) = Inr (Some (exCoin b v), n)"
proof -
  have t: "canonicalTxidHex (rv_Txid (exVtxo b v)) = Some (replicate 32 b)"
    by (simp add: exVtxo_def canonicalTxidHex_encode)
  show ?thesis
    unfolding vtxoToCoin_def t
    using assms by (simp add: consumeBudget_def exactFeeSats_def exEstimator_def exCoin_def Let_def exVtxo_def not_less)
qed

text \<open>
  C24. The answer of the fee solver, on every outcome. A pair it returns spends the coins to the last
  satoshi, the change being absent or at least the dust limit, at a fee within the ceiling that is the
  Operator's own price of that transaction; and when there is a change no smaller fee would do. When it
  reports that the coins cannot pay, no such pair exists. It fails only if the context is cancelled, the
  coins overflow 64 bits, the Operator's program refuses a transaction, or fewer evaluations are left
  than the fee ceiling and two.
\<close>

theorem fee_solution_exact:
  assumes "feeCap \<le> max_i64"
  shows "case solveVtxoSpendWithBudget ctx coins destScript changeScript amount feeCap estimator budget of
      Inr ((fee, change, True), _) \<Rightarrow> spendSolution estimator coins destScript changeScript amount feeCap fee change \<and>
        (change \<noteq> 0 \<longrightarrow> (\<forall>f c. spendSolution estimator coins destScript changeScript amount feeCap f c \<longrightarrow> fee \<le> f))
    | Inr ((_, _, False), _) \<Rightarrow> \<nexists>f c. spendSolution estimator coins destScript changeScript amount feeCap f c
    | Inl _ \<Rightarrow> (\<exists>reading. ctx reading) \<or> 2 ^ 64 \<le> coinValue coins \<or> budget < unat feeCap + 2 \<or>
        (\<exists>outputs e. evalFee estimator (map rc_FeeInput coins) outputs = Inl e)"
proof (cases "solveVtxoSpendWithBudget ctx coins destScript changeScript amount feeCap estimator budget")
  case (Inl e)
  have "(\<exists>outputs e. evalFee estimator (map rc_FeeInput coins) outputs = Inl e) \<or>
      (\<forall>outputs. \<exists>fee. evalFee estimator (map rc_FeeInput coins) outputs = Inr fee)"
    by (metis old.sum.exhaust)
  with Inl solve_returns [of ctx coins feeCap budget estimator destScript changeScript amount] cap_below_max [OF assms]
  show ?thesis by (auto simp: not_less)
next
  case (Inr r)
  obtain fee change ok b' where r: "r = ((fee, change, ok), b')" by (metis prod.exhaust)
  from solve_spec [OF Inr [unfolded r] cap_below_max [OF assms]] show ?thesis by (cases ok) (auto simp: Inr r)
qed

theorem fee_solution_exact_witness:
  "solveVtxoSpendWithBudget (\<lambda>_. False) [exCoin 1 1000] [0x52] [0x51] 500 10 exEstimator 20 = Inr ((2, 498, True), 16) \<and>
   spendSolution exEstimator [exCoin 1 1000] [0x52] [0x51] 500 10 2 498 \<and>
   solveVtxoSpendWithBudget (\<lambda>_. False) [exCoin 1 1000] [0x52] [0x51] 1000 10 exEstimator 20 = Inr ((0, 0, False), 19) \<and>
   (\<nexists>f c. spendSolution exEstimator [exCoin 1 1000] [0x52] [0x51] 1000 10 f c)"
proof -
  have yes: "solveVtxoSpendWithBudget (\<lambda>_. False) [exCoin 1 1000] [0x52] [0x51] 500 10 exEstimator 20 = Inr ((2, 498, True), 16)"
    by (simp add: exSolve)
  have no: "solveVtxoSpendWithBudget (\<lambda>_. False) [exCoin 1 1000] [0x52] [0x51] 1000 10 exEstimator 20 = Inr ((0, 0, False), 19)"
    by (simp add: exSolve)
  have cap: "(10 :: u64) \<le> max_i64" by (simp add: max_i64_def)
  show ?thesis
    using fee_solution_exact [OF cap, where ctx = "\<lambda>_. False" and coins = "[exCoin 1 1000]" and destScript = "[0x52]"
        and changeScript = "[0x51]" and amount = 500 and estimator = exEstimator and budget = 20]
      fee_solution_exact [OF cap, where ctx = "\<lambda>_. False" and coins = "[exCoin 1 1000]" and destScript = "[0x52]"
        and changeScript = "[0x51]" and amount = 1000 and estimator = exEstimator and budget = 20]
    by (simp add: yes no)
qed




text \<open>
  C23. The selection takes the fewest of the largest coins that can pay. The pool is made of exactly the
  indexed outputs of the vault that are worth more than the Operator charges for spending them, each
  counting for the difference. Of the pool, ordered from the largest on, the selection takes the first
  \<open>k\<close>, at least one and at most the maximum number of inputs: no coin left out counts for more than one
  taken, the \<open>k\<close> pay amount, fee and change exactly at the Operator's price, the fee within the ceiling,
  and no smaller number of the largest could pay. The coins come in canonical outpoint order, none twice.
\<close>

theorem selection_exact:
  assumes "selectSpendVtxos ctx (Inr vtxos) acquired pkScript destScript amount feeCap estimator = Inr (picked, fee, change)"
    and "feeCap \<le> max_i64"
  shows "\<exists>pool largest. list_all2 (coinOf pkScript estimator) (filter (economic estimator) vtxos) pool \<and>
    largest = sort_key coinOrder pool \<and> length picked \<in> {1..maxVtxoSpendInputs} \<and>
    mset picked = mset (take (length picked) largest) \<and>
    (\<forall>c \<in> set picked. \<forall>d \<in> set (drop (length picked) largest). rc_Effective d \<le> rc_Effective c) \<and>
    coinValue picked = unat amount + unat fee + unat change \<and> fee \<le> feeCap \<and> (change = 0 \<or> DustSats \<le> change) \<and>
    spendSolution estimator (take (length picked) largest) destScript pkScript amount feeCap fee change \<and>
    (\<forall>n f c. 0 < n \<longrightarrow> n < length picked \<longrightarrow>
       \<not> spendSolution estimator (take n largest) destScript pkScript amount feeCap f c) \<and>
    sorted (map coinOutpoint picked) \<and> distinct (map coinOutpoint picked)"
proof -
  from assms(1) obtain coins b where coins: "vtxosToCoins vtxos pkScript estimator maxVtxoFeeProgramEvaluations = Inr (coins, b)"
    and sel: "selectCoins ctx coins pkScript destScript amount feeCap estimator b = Inr (picked, fee, change)"
    by (auto simp: selectSpendVtxos_def res_simps)
  note pool = vtxosToCoins_Inr [OF coins]
  then have len: "\<forall>c \<in> set coins. length (rc_Txid c) = 32" by (rule pool_txids)
  let ?s = "sort_key coinOrder coins"
  obtain k where k: "0 < k" "k \<le> maxVtxoSpendInputs" "length picked = k" "mset picked = mset (take k ?s)"
    "sorted (map coinOutpoint picked)" "distinct (map coinOutpoint picked)"
    "spendSolution estimator (take k ?s) destScript pkScript amount feeCap fee change"
    "\<And>j f c. 0 < j \<Longrightarrow> j < k \<Longrightarrow> \<not> spendSolution estimator (take j ?s) destScript pkScript amount feeCap f c"
    using selectCoins_Inr [OF sel cap_below_max [OF assms(2)] len] by blast
  have "set picked = set (take k ?s)" using k(4) by (metis set_mset_mset)
  then have "\<forall>c \<in> set picked. \<forall>d \<in> set (drop k ?s). rc_Effective d \<le> rc_Effective c"
    using sort_key_split [where f = coinOrder] coinOrder_effective by blast
  moreover have "coinValue picked = unat amount + unat fee + unat change" "fee \<le> feeCap" "change = 0 \<or> DustSats \<le> change"
    using k(7) coinValue_mset [OF k(4)] by (auto simp: spendSolution_def split: if_splits)
  ultimately show ?thesis using k pool by (intro exI [of _ coins] exI [of _ ?s]) (simp add: Suc_le_eq)
qed

text \<open>Of coins of 100, 900 and 700 an amount of 1200 takes the two largest.\<close>

theorem selection_exact_witness:
  "selectSpendVtxos (\<lambda>_ _. False) (Inr [exVtxo 1 100, exVtxo 3 900, exVtxo 2 700]) (Inr ()) [0x51] [0x52] 1200 10 exEstimator =
     Inr ([exCoin 2 700, exCoin 3 900], 2, 398) \<and>
   (\<exists>pool largest. list_all2 (coinOf [0x51] exEstimator) (filter (economic exEstimator) [exVtxo 1 100, exVtxo 3 900, exVtxo 2 700]) pool \<and>
     largest = sort_key coinOrder pool \<and> mset [exCoin 2 700, exCoin 3 900] = mset (take 2 largest) \<and>
     spendSolution exEstimator (take 2 largest) [0x52] [0x51] 1200 10 2 398 \<and>
     \<not> spendSolution exEstimator (take 1 largest) [0x52] [0x51] 1200 10 2 398)"
proof -
  let ?coins = "[exCoin 1 100, exCoin 3 900, exCoin 2 700]"
  have pool: "vtxosToCoins [exVtxo 1 100, exVtxo 3 900, exVtxo 2 700] [0x51] exEstimator 20000 = Inr (?coins, 19997)"
    using exVtxo_coin [of 100 1 19999] exVtxo_coin [of 900 3 19998] exVtxo_coin [of 700 2 19997]
    by (simp add: max_i64_def)
  have ok: "\<exists>os. CanonicalVtxoBundleInputs (map coinInput ?coins) = Inr os"
    by (simp add: CanonicalVtxoBundleInputs_iff normalizeBundleInput_id coinInput_def exCoin_def outpointOrder_def
        hex_encode_inject)
  have sorted: "sort_key coinOrder ?coins = [exCoin 3 900, exCoin 2 700, exCoin 1 100]"
    by (simp add: coinOrder_def exCoin_def)
  have first: "replicate 32 (x :: nat) = x # replicate 31 x" for x
    by (simp flip: replicate_Suc)
  have picked: "\<not> coinOutpoint (exCoin 3 900) \<le> coinOutpoint (exCoin 2 700)"
    by (simp add: coinOutpoint_def exCoin_def first)
  have one: "solveVtxoSpendWithBudget (\<lambda>_. False) [exCoin 3 900] [82] [81] 1200 10 exEstimator 19997 = Inr ((0, 0, False), 19997)"
    by (simp add: exSolve)
  have two: "solveVtxoSpendWithBudget (\<lambda>_. False) [exCoin 3 900, exCoin 2 700] [82] [81] 1200 10 exEstimator 19997 =
      Inr ((2, 398, True), 19993)"
    by (simp add: exSolve)
  have "selectCoins (\<lambda>_ _. False) ?coins [0x51] [0x52] 1200 10 exEstimator 19997 = Inr ([exCoin 2 700, exCoin 3 900], 2, 398)"
    using ok unfolding selectCoins_def sorted by (auto simp: Let_def one two picked)
  then have s: "selectSpendVtxos (\<lambda>_ _. False) (Inr [exVtxo 1 100, exVtxo 3 900, exVtxo 2 700]) (Inr ()) [0x51] [0x52] 1200 10 exEstimator =
      Inr ([exCoin 2 700, exCoin 3 900], 2, 398)"
    by (simp only: selectSpendVtxos_def reject_Inr bindR_Inr pool case_prod_conv)
  have cap: "(10 :: u64) \<le> max_i64" by (simp add: max_i64_def)
  obtain pool largest where pool: "list_all2 (coinOf [0x51] exEstimator) (filter (economic exEstimator) [exVtxo 1 100, exVtxo 3 900, exVtxo 2 700]) pool"
      "largest = sort_key coinOrder pool" "mset [exCoin 2 700, exCoin 3 900] = mset (take (length [exCoin 2 700, exCoin 3 900]) largest)"
      "spendSolution exEstimator (take (length [exCoin 2 700, exCoin 3 900]) largest) [0x52] [0x51] 1200 10 2 398"
    and few: "\<forall>n f c. 0 < n \<longrightarrow> n < length [exCoin 2 700, exCoin 3 900] \<longrightarrow>
      \<not> spendSolution exEstimator (take n largest) [0x52] [0x51] 1200 10 f c"
    using selection_exact [OF s cap] by (elim exE conjE)
  have n: "length [exCoin 2 700, exCoin 3 900] = 2" by simp
  have "\<not> spendSolution exEstimator (take 1 largest) [0x52] [0x51] 1200 10 2 398"
    using few [rule_format, of 1] unfolding n by simp
  with pool [unfolded n] show ?thesis
    by (rule_tac conjI [OF s], rule_tac x = pool in exI, rule_tac x = largest in exI) (rule conjI | assumption)+
qed

end
