(* ===== verification/Bitcoin.thy ===== *)
theory Bitcoin
  imports CoinSelection
begin

text \<open>
  The Bitcoin and Arkade packages the application calls, which are not part of the repository:
  \<open>wire\<close>, \<open>psbt\<close>, \<open>txscript\<close>, \<open>btcec\<close>, \<open>schnorr\<close>, \<open>ark-lib\<close> and \<open>arkfee\<close>. Their data
  is modelled with the fields the repository reads; their functions are the fields of a record
  \<open>lib\<close>, a parameter of every definition that calls them. Keys, scalars and signatures are type
  parameters.
\<close>

section \<open>Transactions and packets\<close>

record TxOut =
  to_Value :: i64
  to_PkScript :: bytes

record OutPoint =
  op_Hash :: bytes
  op_Index :: u32

record TxIn =
  ti_PreviousOutPoint :: OutPoint
  ti_Sequence :: u32

record MsgTx =
  tx_Version :: "32 word"
  tx_TxIn :: "TxIn list"
  tx_TxOut :: "TxOut list"
  tx_LockTime :: u32

record TaprootScriptSpendSig =
  ts_XOnlyPubKey :: bytes
  ts_LeafHash :: bytes
  ts_Signature :: bytes
  ts_SigHash :: u32

record TaprootTapLeafScript =
  tl_ControlBlock :: bytes
  tl_Script :: bytes
  tl_LeafVersion :: byte

text \<open>An element of a slice of pointers is an option; \<open>rest\<close> stands for the fields that are never read.\<close>

record PInput =
  pi_WitnessUtxo :: "TxOut option"
  pi_SighashType :: u32
  pi_TaprootLeafScript :: "TaprootTapLeafScript option list"
  pi_TaprootScriptSpendSig :: "TaprootScriptSpendSig option list"
  pi_rest :: bytes

record Packet =
  pk_UnsignedTx :: "MsgTx option"
  pk_Inputs :: "PInput list"
  pk_Outputs :: "bytes list"
  pk_Unknowns :: "(bytes \<times> bytes) option list"
  pk_rest :: bytes

text \<open>The values of BIP 341 and of the transaction format.\<close>

abbreviation SigHashDefault :: u32 where "SigHashDefault \<equiv> 0"
abbreviation SigHashAll :: u32 where "SigHashAll \<equiv> 1"
abbreviation BaseLeafVersion :: byte where "BaseLeafVersion \<equiv> 0xc0"
abbreviation MaxTxInSequenceNum :: u32 where "MaxTxInSequenceNum \<equiv> 0xffffffff"
abbreviation OP_RETURN :: byte where "OP_RETURN \<equiv> 0x6a"

section \<open>Packages\<close>

datatype 'pk Closure =
    MultisigClosure "'pk option list"
  | CSVMultisigClosure "'pk option list" u32
  | OtherClosure bytes

record 'pk ArkAddress =
  aa_Version :: nat
  aa_HRP :: string
  aa_Signer :: "'pk option"
  aa_VtxoTapKey :: "'pk option"

text \<open>
  The fetcher of the spent outputs is a function from outpoints. \<open>ControlRoot\<close> parses a control
  block and returns its \<open>RootHash\<close>; \<open>TaprootOutputKey\<close> tweaks the unspendable key by a root;
  \<open>SetByteSlice\<close> reports the overflow of a scalar.
\<close>

record ('pk, 'sk, 'sg) BtcLib =
  NewFromRawBytes :: "string \<Rightarrow> Packet result"
  B64Encode :: "Packet \<Rightarrow> string result"
  TxHash :: "MsgTx \<Rightarrow> bytes"
  HashString :: "bytes \<Rightarrow> string"
  ParsePubKey :: "bytes \<Rightarrow> 'pk result"
  SerializeCompressed :: "'pk \<Rightarrow> bytes"
  PrivKeyFromBytes :: "bytes \<Rightarrow> 'sk option"
  PrivSerialize :: "'sk \<Rightarrow> bytes"
  PrivNegate :: "'sk \<Rightarrow> 'sk"
  PubKey :: "'sk \<Rightarrow> 'pk"
  SetByteSlice :: "bytes \<Rightarrow> bool"
  ScalarIsZero :: "bytes \<Rightarrow> bool"
  SerializePubKey :: "'pk \<Rightarrow> bytes"
  XOnlyParsePubKey :: "bytes \<Rightarrow> 'pk result"
  ParseSignature :: "bytes \<Rightarrow> 'sg result"
  SchnorrVerify :: "'sg \<Rightarrow> bytes \<Rightarrow> 'pk \<Rightarrow> bool"
  TapHash :: "bytes \<Rightarrow> bytes"
  ControlRoot :: "bytes \<Rightarrow> (bytes \<Rightarrow> bytes) result"
  TaprootOutputKey :: "bytes \<Rightarrow> 'pk"
  CalcTapscriptSignaturehash :: "u32 \<Rightarrow> MsgTx \<Rightarrow> nat \<Rightarrow> (OutPoint \<Rightarrow> TxOut option) \<Rightarrow> bytes \<Rightarrow> bytes result"
  RawTxInTapscriptSignature ::
    "MsgTx \<Rightarrow> (OutPoint \<Rightarrow> TxOut option) \<Rightarrow> nat \<Rightarrow> i64 \<Rightarrow> bytes \<Rightarrow> bytes \<Rightarrow> u32 \<Rightarrow> 'sk \<Rightarrow> bytes result"

record ('pk, 'sk, 'sg) ArkLib = "('pk, 'sk, 'sg) BtcLib" +
  P2TRScript :: "'pk \<Rightarrow> bytes result"
  DecodeClosure :: "bytes \<Rightarrow> 'pk Closure result"
  ClosureScript :: "'pk Closure \<Rightarrow> bytes result"
  TapTree :: "'pk Closure list \<Rightarrow> ('pk \<times> (bytes \<Rightarrow> bytes result)) result"
  EncodeClosures :: "'pk Closure list \<Rightarrow> string list result"
  ExitClosures :: "'pk Closure list \<Rightarrow> 'pk Closure list"
  NewDefaultVtxoScript :: "'pk \<Rightarrow> 'pk \<Rightarrow> u32 \<Rightarrow> 'pk Closure list"
  IntentVerify :: "string \<Rightarrow> string \<Rightarrow> 'pk list \<Rightarrow> unit result"
  ANCHOR_PKSCRIPT :: bytes
  DecodeAddressV0 :: "string \<Rightarrow> 'pk ArkAddress result"
  AddressPkScript :: "'pk ArkAddress \<Rightarrow> bytes result"
  EncodeV0 :: "'pk ArkAddress \<Rightarrow> string result"
  BitcoinAddr :: string
  BitcoinMutinyNetAddr :: string
  NewAddressTaproot :: "bytes \<Rightarrow> string \<Rightarrow> string result"
  PrevoutTxFields :: "Packet \<Rightarrow> MsgTx list result"
  arkfeeNew :: "FeeConfig \<Rightarrow> Estimator result"

text \<open>
  What the properties rely on of the packet encoding. Encoding orders the signatures of an input, so
  decoding what was encoded gives the same packet up to that order.
\<close>

definition sameInput :: "PInput \<Rightarrow> PInput \<Rightarrow> bool" where
  "sameInput a b \<longleftrightarrow> a\<lparr> pi_TaprootScriptSpendSig := [] \<rparr> = b\<lparr> pi_TaprootScriptSpendSig := [] \<rparr> \<and>
     mset (pi_TaprootScriptSpendSig a) = mset (pi_TaprootScriptSpendSig b)"

definition samePacket :: "Packet \<Rightarrow> Packet \<Rightarrow> bool" where
  "samePacket p q \<longleftrightarrow> p\<lparr> pk_Inputs := [] \<rparr> = q\<lparr> pk_Inputs := [] \<rparr> \<and> list_all2 sameInput (pk_Inputs p) (pk_Inputs q)"

definition codec :: "('pk, 'sk, 'sg, 'x) BtcLib_scheme \<Rightarrow> bool" where
  "codec lib \<longleftrightarrow> (\<forall>p s. B64Encode lib p = Inr s \<longrightarrow> (\<exists>q. NewFromRawBytes lib s = Inr q \<and> samePacket p q))"

text \<open>
  A small library for the concrete instances: keys are byte strings, every signature verifies, and
  packets are encoded by a table.
\<close>

definition exArk :: "(string \<times> Packet) list \<Rightarrow> (bytes, bytes, bytes) ArkLib" where
  "exArk packets = \<lparr>
     NewFromRawBytes = (\<lambda>s. case map_of packets s of None \<Rightarrow> Inl (Errorf ''psbt'') | Some p \<Rightarrow> Inr p),
     B64Encode = (\<lambda>p. case find (\<lambda>e. snd e = p) packets of None \<Rightarrow> Inl (Errorf ''psbt'') | Some e \<Rightarrow> Inr (fst e)),
     TxHash = (\<lambda>_. []), HashString = hex_encode, ParsePubKey = Inr, SerializeCompressed = (\<lambda>p. 0x02 # p),
     PrivKeyFromBytes = (\<lambda>_. Some (replicate 32 5)), PrivSerialize = id, PrivNegate = id, PubKey = id,
     SetByteSlice = (\<lambda>_. False), ScalarIsZero = (\<lambda>_. False), SerializePubKey = id, XOnlyParsePubKey = Inr,
     ParseSignature = Inr, SchnorrVerify = (\<lambda>_ _ _. True), TapHash = id, ControlRoot = (\<lambda>_. Inr id),
     TaprootOutputKey = id, CalcTapscriptSignaturehash = (\<lambda>_ _ _ _ _. Inr []),
     RawTxInTapscriptSignature = (\<lambda>_ _ _ _ _ _ _ _. Inr (replicate 64 0)),
     P2TRScript = (\<lambda>_. Inr [9]), DecodeClosure = (\<lambda>leaf. Inr (MultisigClosure [Some leaf])), ClosureScript = (\<lambda>_. Inr [1]),
     TapTree = (\<lambda>_. Inr ([9], \<lambda>_. Inr [3])), EncodeClosures = (\<lambda>_. Inr []), ExitClosures = (\<lambda>_. []),
     NewDefaultVtxoScript = (\<lambda>_ _ _. []), IntentVerify = (\<lambda>_ _ _. Inr ()), ANCHOR_PKSCRIPT = [4],
     DecodeAddressV0 = (\<lambda>_. Inl (Errorf ''address'')), AddressPkScript = (\<lambda>_. Inr [9]), EncodeV0 = (\<lambda>_. Inr ''address''),
     BitcoinAddr = ''ark'', BitcoinMutinyNetAddr = ''tark'', NewAddressTaproot = (\<lambda>_ _. Inr ''address''),
     PrevoutTxFields = (\<lambda>_. Inr [\<lparr> tx_Version = 2, tx_TxIn = [], tx_TxOut = [\<lparr> to_Value = 7, to_PkScript = [9] \<rparr>], tx_LockTime = 0 \<rparr>]),
     arkfeeNew = (\<lambda>_. Inl (Errorf ''fee'')) \<rparr>"

lemma samePacket_refl [simp]: "samePacket p p"
  by (simp add: samePacket_def sameInput_def list_all2_same)

lemma exArk_fields [simp]:
  "B64Encode (exArk packets) p = (case find (\<lambda>e. snd e = p) packets of None \<Rightarrow> Inl (Errorf ''psbt'') | Some e \<Rightarrow> Inr (fst e))"
  "NewFromRawBytes (exArk packets) s = (case map_of packets s of None \<Rightarrow> Inl (Errorf ''psbt'') | Some p \<Rightarrow> Inr p)"
  by (simp_all add: exArk_def)

lemma codec_exArk:
  assumes "distinct (map fst packets)"
  shows "codec (exArk packets)"
  unfolding codec_def
proof (intro allI impI)
  fix p s assume "B64Encode (exArk packets) p = Inr s"
  then obtain e where e: "find (\<lambda>e. snd e = p) packets = Some e" "fst e = s" by (auto split: option.splits)
  then have "(s, p) \<in> set packets" unfolding find_Some_iff using nth_mem by fastforce
  with assms have "map_of packets s = Some p" by simp
  then show "\<exists>q. NewFromRawBytes (exArk packets) s = Inr q \<and> samePacket p q" by simp
qed

end
