(* ===== verification/PsbtGuard.thy ===== *)
theory PsbtGuard
  imports Bitcoin
begin

text \<open>
  \<open>internal/application/psbtguard.go\<close>, \<open>internal/vault/schnorr.go\<close> and \<open>internal/vault/prevout.go\<close>:
  parsing the packets a client sends, and adding exactly one verified signature of the server to
  each input, whatever else the signer returns.
\<close>

section \<open>Parsing and copying\<close>

definition parsePSBT :: "('pk, 'sk, 'sg, 'x) BtcLib_scheme \<Rightarrow> string \<Rightarrow> Packet result" where
  "parsePSBT lib raw =
     (if raw = [] then Inl (Errorf ''psbt required'')
      else bindR (wrapR ''psbt'' (NewFromRawBytes lib raw)) (\<lambda>ptx.
      case pk_UnsignedTx ptx of
        None \<Rightarrow> Inl (Errorf ''psbt required'')
      | Some tx \<Rightarrow>
          if length (pk_Inputs ptx) \<noteq> length (tx_TxIn tx) then Inl (Errorf ''psbt input count'')
          else Inr ptx))"

definition clonePacket :: "('pk, 'sk, 'sg, 'x) BtcLib_scheme \<Rightarrow> Packet \<Rightarrow> Packet result" where
  "clonePacket lib p = bindR (B64Encode lib p) (NewFromRawBytes lib)"

text \<open>The transaction of a packet that has one; the callers have checked.\<close>

definition theTx :: "Packet \<Rightarrow> MsgTx" where
  "theTx p = (case pk_UnsignedTx p of Some tx \<Rightarrow> tx
     | None \<Rightarrow> \<lparr> tx_Version = 0, tx_TxIn = [], tx_TxOut = [], tx_LockTime = 0 \<rparr>)"

definition multiWitnessFetcher :: "Packet \<Rightarrow> OutPoint \<Rightarrow> TxOut option" where
  "multiWitnessFetcher ptx =
     foldl (\<lambda>prevs (i, pin). case pi_WitnessUtxo pin of None \<Rightarrow> prevs | Some u \<Rightarrow> prevs(ti_PreviousOutPoint i \<mapsto> u))
       Map.empty (zip (tx_TxIn (theTx ptx)) (pk_Inputs ptx))"

section \<open>Signatures of one input\<close>

definition verifySchnorrOnInputWithSighash ::
  "('pk, 'sk, 'sg, 'x) BtcLib_scheme \<Rightarrow> Packet \<Rightarrow> nat \<Rightarrow> bytes \<Rightarrow> bytes \<Rightarrow> bytes \<Rightarrow> u32 \<Rightarrow> unit result" where
  "verifySchnorrOnInputWithSighash lib ptx idx sig wantXOnly leafScript sigHash =
     (if pk_UnsignedTx ptx = None \<or> idx \<ge> length (pk_Inputs ptx) \<or> idx \<ge> length (tx_TxIn (theTx ptx)) then
        Inl (Errorf ''input index'')
      else if length sig \<noteq> 64 then Inl (Errorf ''signature length'')
      else case pi_WitnessUtxo (pk_Inputs ptx ! idx) of
        None \<Rightarrow> Inl (Errorf ''witness utxo required'')
      | Some prev \<Rightarrow>
          bindR (CalcTapscriptSignaturehash lib sigHash (theTx ptx) idx (multiWitnessFetcher ptx) leafScript) (\<lambda>digest.
          bindR (ParseSignature lib sig) (\<lambda>parsed.
          bindR (XOnlyParsePubKey lib wantXOnly) (\<lambda>pub.
          if \<not> SchnorrVerify lib parsed digest pub then Inl (Errorf ''invalid'') else Inr ()))))"

definition signTapLeafAtWithSighash ::
  "('pk, 'sk, 'sg, 'x) BtcLib_scheme \<Rightarrow> Packet \<Rightarrow> nat \<Rightarrow> 'sk \<Rightarrow> bytes \<Rightarrow> u32 \<Rightarrow> TaprootScriptSpendSig result" where
  "signTapLeafAtWithSighash lib ptx idx priv leafScript sigHash =
     (if idx \<ge> length (pk_Inputs ptx) \<or> idx \<ge> length (tx_TxIn (theTx ptx)) then Inl (Errorf ''input index'')
      else case pi_WitnessUtxo (pk_Inputs ptx ! idx) of
        None \<Rightarrow> Inl (Errorf ''witness utxo required'')
      | Some prev \<Rightarrow>
          bindR (RawTxInTapscriptSignature lib (theTx ptx) (multiWitnessFetcher ptx) idx (to_Value prev) (to_PkScript prev)
            leafScript sigHash priv) (\<lambda>sig.
          Inr \<lparr> ts_XOnlyPubKey = SerializePubKey lib (PubKey lib priv), ts_LeafHash = TapHash lib leafScript,
            ts_Signature = (if length sig = 65 then take 64 sig else sig), ts_SigHash = sigHash \<rparr>))"

definition addSig :: "TaprootScriptSpendSig \<Rightarrow> PInput \<Rightarrow> PInput" where
  "addSig sig pin = pin\<lparr> pi_TaprootScriptSpendSig := pi_TaprootScriptSpendSig pin @ [Some sig] \<rparr>"

section \<open>Signing a stage of an Arkade transaction\<close>

text \<open>The body of the loop at input \<open>i\<close>: \<open>work\<close> is signed, \<open>submitted\<close> is what the signature must verify on.\<close>

definition signArkInput ::
  "('pk, 'sk, 'sg, 'x) BtcLib_scheme \<Rightarrow> Packet \<Rightarrow> Packet \<Rightarrow> 'sk \<Rightarrow> bytes \<Rightarrow> bytes \<Rightarrow> u32 \<Rightarrow> nat \<Rightarrow> TaprootScriptSpendSig result" where
  "signArkInput lib submitted work priv expectedXOnly expectedLeaf wantSigHash i =
     (case pi_TaprootLeafScript (pk_Inputs work ! i) of
        [Some leaf] \<Rightarrow>
          if tl_Script leaf \<noteq> expectedLeaf then Inl (Errorf ''unexpected tapleaf'')
          else if pi_SighashType (pk_Inputs work ! i) \<noteq> wantSigHash then Inl (Errorf ''unexpected input sighash'')
          else
            bindR (signTapLeafAtWithSighash lib work i priv expectedLeaf wantSigHash) (\<lambda>added.
            case verifySchnorrOnInputWithSighash lib submitted i (ts_Signature added) expectedXOnly expectedLeaf wantSigHash of
              Inl _ \<Rightarrow> Inl (Errorf ''vtxo vault signature invalid'')
            | Inr _ \<Rightarrow> Inr added)
      | _ \<Rightarrow> Inl (Errorf ''exactly one tapleaf required''))"

definition signExactArkStageWithSighash ::
  "('pk, 'sk, 'sg, 'x) BtcLib_scheme \<Rightarrow> error option \<Rightarrow> string \<Rightarrow> 'sk \<Rightarrow> bytes \<Rightarrow> bytes \<Rightarrow> u32 \<Rightarrow> string result" where
  "signExactArkStageWithSighash lib ctxErr stored priv expectedXOnly expectedLeaf wantSigHash =
     (case ctxErr of
        Some e \<Rightarrow> Inl e
      | None \<Rightarrow>
          if length expectedXOnly \<noteq> 32 then Inl (Errorf ''expected signer x-only key'')
          else if SerializePubKey lib (PubKey lib priv) \<noteq> expectedXOnly then Inl (Errorf ''signer key mismatch'')
          else
            bindR (parsePSBT lib stored) (\<lambda>submitted.
            if length (tx_TxIn (theTx submitted)) = 0 then Inl (Errorf ''psbt input required'')
            else
              bindR (clonePacket lib submitted) (\<lambda>work.
              bindR (clonePacket lib submitted) (\<lambda>out.
              if length expectedLeaf = 0 then Inl (Errorf ''expected leaf required'')
              else
                bindR (mapR (signArkInput lib submitted work priv expectedXOnly expectedLeaf wantSigHash)
                  [0..<length (pk_Inputs work)]) (\<lambda>added.
                if length added = 0 then Inl (Errorf ''collaborative leaf missing'')
                else B64Encode lib (out\<lparr> pk_Inputs := map2 addSig added (pk_Inputs out) \<rparr>))))))"

definition signExactArkStage ::
  "('pk, 'sk, 'sg, 'x) BtcLib_scheme \<Rightarrow> error option \<Rightarrow> string \<Rightarrow> 'sk \<Rightarrow> bytes \<Rightarrow> bytes \<Rightarrow> string result" where
  "signExactArkStage lib ctxErr stored priv expectedXOnly expectedLeaf =
     signExactArkStageWithSighash lib ctxErr stored priv expectedXOnly expectedLeaf SigHashDefault"

section \<open>Signing a stage of a boarding\<close>

definition signBoardInput ::
  "('pk, 'sk, 'sg, 'x) BtcLib_scheme \<Rightarrow> Packet \<Rightarrow> Packet \<Rightarrow> 'sk \<Rightarrow> bytes \<Rightarrow> bytes \<Rightarrow> u32 \<Rightarrow> nat \<Rightarrow> TaprootScriptSpendSig result" where
  "signBoardInput lib submitted work priv expectedXOnly expectedLeaf wantSigHash idx =
     (case pi_TaprootLeafScript (pk_Inputs work ! idx) of
        [Some leaf] \<Rightarrow>
          if tl_Script leaf \<noteq> expectedLeaf \<or> pi_SighashType (pk_Inputs work ! idx) \<noteq> wantSigHash then
            Inl (Errorf ''vault-board-v1 collaborative leaf'')
          else if list_ex (\<lambda>s. case s of None \<Rightarrow> False | Some e \<Rightarrow> ts_XOnlyPubKey e = expectedXOnly)
              (pi_TaprootScriptSpendSig (pk_Inputs work ! idx)) then
            Inl (Errorf ''vault-board-v1 signature already present'')
          else
            bindR (signTapLeafAtWithSighash lib work idx priv expectedLeaf wantSigHash) (\<lambda>added.
            case verifySchnorrOnInputWithSighash lib submitted idx (ts_Signature added) expectedXOnly expectedLeaf wantSigHash of
              Inl _ \<Rightarrow> Inl (Errorf ''vault-board-v1 signature invalid'')
            | Inr _ \<Rightarrow> Inr added)
      | _ \<Rightarrow> Inl (Errorf ''vault-board-v1 collaborative leaf''))"

fun signBoardInputs ::
  "('pk, 'sk, 'sg, 'x) BtcLib_scheme \<Rightarrow> Packet \<Rightarrow> Packet \<Rightarrow> 'sk \<Rightarrow> bytes \<Rightarrow> bytes \<Rightarrow> u32 \<Rightarrow> int list \<Rightarrow> int list \<Rightarrow> Packet \<Rightarrow>
     Packet result" where
  "signBoardInputs lib submitted work priv x leaf sh seen [] out = Inr out"
| "signBoardInputs lib submitted work priv x leaf sh seen (idx # rest) out =
     (if idx < 0 \<or> nat idx \<ge> length (pk_Inputs work) \<or> nat idx \<ge> length (tx_TxIn (theTx work)) then
        Inl (Errorf ''vault-board-v1 input index'')
      else if idx \<in> set seen then Inl (Errorf ''vault-board-v1 duplicate input index'')
      else
        bindR (signBoardInput lib submitted work priv x leaf sh (nat idx)) (\<lambda>added.
        signBoardInputs lib submitted work priv x leaf sh (idx # seen) rest
          (out\<lparr> pk_Inputs := (pk_Inputs out)[nat idx := addSig added (pk_Inputs out ! nat idx)] \<rparr>)))"

definition signExactVaultBoardStage ::
  "('pk, 'sk, 'sg, 'x) BtcLib_scheme \<Rightarrow> error option \<Rightarrow> string \<Rightarrow> 'sk \<Rightarrow> bytes \<Rightarrow> bytes \<Rightarrow> int list \<Rightarrow> u32 \<Rightarrow> string result" where
  "signExactVaultBoardStage lib ctxErr stored priv expectedXOnly expectedLeaf inputIndexes wantSigHash =
     (case ctxErr of
        Some e \<Rightarrow> Inl e
      | None \<Rightarrow>
          if length expectedXOnly \<noteq> 32 \<or> SerializePubKey lib (PubKey lib priv) \<noteq> expectedXOnly then
            Inl (Errorf ''vault-board-v1 signer key mismatch'')
          else if length expectedLeaf = 0 \<or> length inputIndexes = 0 then
            Inl (Errorf ''vault-board-v1 authorization required'')
          else
            bindR (parsePSBT lib stored) (\<lambda>submitted.
            bindR (clonePacket lib submitted) (\<lambda>work.
            bindR (clonePacket lib submitted) (\<lambda>out.
            bindR (signBoardInputs lib submitted work priv expectedXOnly expectedLeaf wantSigHash [] inputIndexes out)
              (B64Encode lib)))))"

section \<open>The one signature of a foreign signer\<close>

text \<open>The canned fetcher answers every outpoint with the one output.\<close>

definition VerifySchnorrOnSubmittedTx ::
  "('pk, 'sk, 'sg, 'x) BtcLib_scheme \<Rightarrow> Packet \<Rightarrow> bytes \<Rightarrow> bytes \<Rightarrow> bytes \<Rightarrow> unit result" where
  "VerifySchnorrOnSubmittedTx lib ptx sig wantXOnly leafScript =
     (if pk_UnsignedTx ptx = None \<or> length (pk_Inputs ptx) \<noteq> 1 \<or> length (tx_TxIn (theTx ptx)) \<noteq> 1 then
        Inl (Errorf ''exactly one submitted input required'')
      else if length sig \<noteq> 64 then Inl (Errorf ''signature length'')
      else case pi_WitnessUtxo (hd (pk_Inputs ptx)) of
        None \<Rightarrow> Inl (Errorf ''witness utxo required'')
      | Some prev \<Rightarrow>
          bindR (CalcTapscriptSignaturehash lib SigHashDefault (theTx ptx) 0 (\<lambda>_. Some prev) leafScript) (\<lambda>digest.
          bindR (ParseSignature lib sig) (\<lambda>parsed.
          bindR (XOnlyParsePubKey lib wantXOnly) (\<lambda>pub.
          if \<not> SchnorrVerify lib parsed digest pub then Inl (Errorf ''invalid'') else Inr ()))))"

definition RequireVerifiedPrevout :: "('pk, 'sk, 'sg) ArkLib \<Rightarrow> Packet \<Rightarrow> MsgTx result" where
  "RequireVerifiedPrevout lib ptx =
     (if pk_UnsignedTx ptx = None \<or> length (pk_Inputs ptx) \<noteq> 1 \<or> length (tx_TxIn (theTx ptx)) \<noteq> 1 then
        Inl (Errorf ''exactly one input required'')
      else case pi_WitnessUtxo (hd (pk_Inputs ptx)) of
        None \<Rightarrow> Inl (Errorf ''witness utxo required'')
      | Some got \<Rightarrow>
          bindR (PrevoutTxFields lib ptx) (\<lambda>fs.
          case fs of
            [prev] \<Rightarrow>
              let op = ti_PreviousOutPoint (hd (tx_TxIn (theTx ptx))) in
              if TxHash lib prev \<noteq> op_Hash op then Inl (Errorf ''prevout tx hash mismatch'')
              else if unat (op_Index op) \<ge> length (tx_TxOut prev) then Inl (Errorf ''prevout vout out of range'')
              else if got \<noteq> tx_TxOut prev ! unat (op_Index op) then Inl (Errorf ''witness utxo does not match prevout'')
              else Inr prev
          | _ \<Rightarrow> Inl (Errorf ''PrevoutTxField required'')))"

definition parseAndVerifyPrevout :: "('pk, 'sk, 'sg) ArkLib \<Rightarrow> string \<Rightarrow> (Packet \<times> MsgTx) result" where
  "parseAndVerifyPrevout lib raw =
     bindR (wrapR ''psbt'' (NewFromRawBytes lib raw)) (\<lambda>ptx.
     bindR (RequireVerifiedPrevout lib ptx) (\<lambda>prev. Inr (ptx, prev)))"

text \<open>The index of the first original signature equal to \<open>s\<close>.\<close>

fun indexOriginalSig :: "TaprootScriptSpendSig option list \<Rightarrow> TaprootScriptSpendSig option \<Rightarrow> nat option" where
  "indexOriginalSig before None = None"
| "indexOriginalSig [] (Some s) = None"
| "indexOriginalSig (want # before) (Some s) =
     (if want = Some s then Some 0 else map_option Suc (indexOriginalSig before (Some s)))"

text \<open>The signatures of the response beyond those submitted: each original accounts for one of them.\<close>

fun extraSigs :: "TaprootScriptSpendSig option list \<Rightarrow> nat list \<Rightarrow> TaprootScriptSpendSig option list \<Rightarrow>
    TaprootScriptSpendSig option list" where
  "extraSigs before matched [] = []"
| "extraSigs before matched (s # ss) =
     (case indexOriginalSig before s of
        Some i \<Rightarrow> if i \<notin> set matched then extraSigs before (i # matched) ss else s # extraSigs before matched ss
      | None \<Rightarrow> s # extraSigs before matched ss)"

definition signerSigOk :: "('pk, 'sk, 'sg, 'x) BtcLib_scheme \<Rightarrow> Packet \<Rightarrow> bytes \<Rightarrow> bytes \<Rightarrow> TaprootScriptSpendSig option \<Rightarrow> bool" where
  "signerSigOk lib submitted expectedXOnly leafScript extra =
     (case extra of
        None \<Rightarrow> False
      | Some e \<Rightarrow> length (ts_Signature e) = 64 \<and> ts_XOnlyPubKey e = expectedXOnly \<and>
          ts_LeafHash e = TapHash lib leafScript \<and> ts_SigHash e = SigHashDefault \<and>
          VerifySchnorrOnSubmittedTx lib submitted (ts_Signature e) expectedXOnly leafScript = Inr ())"

definition extractVerifiedSignerSig ::
  "('pk, 'sk, 'sg, 'x) BtcLib_scheme \<Rightarrow> Packet \<Rightarrow> Packet option \<Rightarrow> bytes \<Rightarrow> TaprootScriptSpendSig result" where
  "extractVerifiedSignerSig lib submitted response expectedXOnly =
     (if pk_UnsignedTx submitted = None \<or> length (pk_Inputs submitted) \<noteq> 1 \<or> length (tx_TxIn (theTx submitted)) \<noteq> 1 then
        Inl (Errorf ''exactly one submitted input required'')
      else case response of
        None \<Rightarrow> Inl (Errorf ''malformed signed psbt'')
      | Some response \<Rightarrow>
          if pk_UnsignedTx response = None \<or> length (pk_Inputs response) \<noteq> 1 \<or> length (tx_TxIn (theTx response)) \<noteq> 1 then
            Inl (Errorf ''malformed signed psbt'')
          else if length expectedXOnly \<noteq> 32 then Inl (Errorf ''expected signer x-only key'')
          else
            (let pin = hd (pk_Inputs submitted) in
             case (pi_WitnessUtxo pin, pi_TaprootLeafScript pin) of
               (Some _, [Some leaf]) \<Rightarrow>
                 (case filter (signerSigOk lib submitted expectedXOnly (tl_Script leaf))
                     (extraSigs (pi_TaprootScriptSpendSig pin) [] (pi_TaprootScriptSpendSig (hd (pk_Inputs response)))) of
                    [] \<Rightarrow> Inl (Errorf ''expected exactly one new signer signature'')
                  | [Some found] \<Rightarrow> Inr found
                  | _ \<Rightarrow> Inl (Errorf ''expected exactly one new signer signature, got extra''))
             | _ \<Rightarrow> Inl (Errorf ''submitted input missing leaf commitment'')))"

text \<open>\<open>sign\<close> is the \<open>Sign\<close> method of the signer: the in-process one or a remote, possibly hostile, service.\<close>

definition signExactStage ::
  "('pk, 'sk, 'sg) ArkLib \<Rightarrow> string \<Rightarrow> (Packet \<Rightarrow> Packet option result) \<Rightarrow> bytes \<Rightarrow> string \<Rightarrow> string result" where
  "signExactStage lib stored sign expectedXOnly role =
     bindR (wrapR (role @ '' stored stage'') (parseAndVerifyPrevout lib stored)) (\<lambda>(submitted, _).
     bindR (clonePacket lib submitted) (\<lambda>work.
     bindR (wrapR role (sign work)) (\<lambda>response.
     bindR (wrapR (role @ '' response'') (extractVerifiedSignerSig lib submitted response expectedXOnly)) (\<lambda>added.
     bindR (clonePacket lib submitted) (\<lambda>out.
     B64Encode lib (out\<lparr> pk_Inputs := map (addSig added) (take 1 (pk_Inputs out)) @ drop 1 (pk_Inputs out) \<rparr>))))))"

section \<open>What a stage adds\<close>

lemma sameInput_refl [simp]: "sameInput a a"
  by (simp add: sameInput_def)

lemma sameInput_trans: "sameInput a b \<Longrightarrow> sameInput b c \<Longrightarrow> sameInput a c"
  by (simp add: sameInput_def)

lemma samePacket_trans: "samePacket p q \<Longrightarrow> samePacket q r \<Longrightarrow> samePacket p r"
  unfolding samePacket_def using list_all2_trans [of sameInput sameInput sameInput] sameInput_trans by (metis (no_types, lifting))

lemma samePacket_length: "samePacket p q \<Longrightarrow> length (pk_Inputs q) = length (pk_Inputs p)"
  unfolding samePacket_def by (metis list_all2_lengthD)

lemma samePacket_input:
  "samePacket p q \<Longrightarrow> i < length (pk_Inputs p) \<Longrightarrow> sameInput (pk_Inputs p ! i) (pk_Inputs q ! i)"
  by (simp add: samePacket_def list_all2_nthD)

lemma sameInput_leaf:
  "sameInput a b \<Longrightarrow> pi_TaprootLeafScript b = pi_TaprootLeafScript a \<and> pi_SighashType b = pi_SighashType a \<and>
     pi_WitnessUtxo b = pi_WitnessUtxo a"
  by (cases a; cases b) (simp add: sameInput_def)

lemma clonePacket_same: "codec lib \<Longrightarrow> clonePacket lib p = Inr q \<Longrightarrow> samePacket p q"
  unfolding clonePacket_def codec_def bindR_eq_Inr by fastforce

lemma encode_same: "codec lib \<Longrightarrow> B64Encode lib p = Inr s \<Longrightarrow> \<exists>q. NewFromRawBytes lib s = Inr q \<and> samePacket p q"
  by (simp add: codec_def)

text \<open>An input with one more signature, and nothing else different.\<close>

definition oneSigMore :: "PInput \<Rightarrow> TaprootScriptSpendSig \<Rightarrow> PInput \<Rightarrow> bool" where
  "oneSigMore a sig b \<longleftrightarrow> b\<lparr> pi_TaprootScriptSpendSig := [] \<rparr> = a\<lparr> pi_TaprootScriptSpendSig := [] \<rparr> \<and>
     mset (pi_TaprootScriptSpendSig b) = add_mset (Some sig) (mset (pi_TaprootScriptSpendSig a))"

lemma oneSigMore_addSig: "sameInput a b \<Longrightarrow> sameInput (addSig sig b) c \<Longrightarrow> oneSigMore a sig c"
  by (cases a; cases b; cases c) (auto simp: sameInput_def addSig_def oneSigMore_def)

lemma signArkInput_Inr:
  assumes "signArkInput lib submitted work priv x leaf sh i = Inr sig"
  shows "ts_XOnlyPubKey sig = SerializePubKey lib (PubKey lib priv) \<and> ts_LeafHash sig = TapHash lib leaf \<and>
    ts_SigHash sig = sh \<and> verifySchnorrOnInputWithSighash lib submitted i (ts_Signature sig) x leaf sh = Inr () \<and>
    (\<exists>l. pi_TaprootLeafScript (pk_Inputs work ! i) = [Some l] \<and> tl_Script l = leaf) \<and>
    pi_SighashType (pk_Inputs work ! i) = sh"
  using assms unfolding signArkInput_def
  by (auto simp: signTapLeafAtWithSighash_def res_simps split: list.splits option.splits if_splits sum.splits)

lemma signExactArkStage_Inr:
  assumes "signExactArkStageWithSighash lib ctxErr stored priv x leaf sh = Inr out" and codec: "codec lib"
  obtains p q added where "parsePSBT lib stored = Inr p" and "NewFromRawBytes lib out = Inr q"
    and "q\<lparr> pk_Inputs := [] \<rparr> = p\<lparr> pk_Inputs := [] \<rparr>" and "length (pk_Inputs q) = length (pk_Inputs p)"
    and "length added = length (pk_Inputs p)" and "0 < length (pk_Inputs p)"
    and "SerializePubKey lib (PubKey lib priv) = x"
    and "\<And>i. i < length (pk_Inputs p) \<Longrightarrow> oneSigMore (pk_Inputs p ! i) (added ! i) (pk_Inputs q ! i) \<and>
      ts_XOnlyPubKey (added ! i) = x \<and> ts_LeafHash (added ! i) = TapHash lib leaf \<and> ts_SigHash (added ! i) = sh \<and>
      verifySchnorrOnInputWithSighash lib p i (ts_Signature (added ! i)) x leaf sh = Inr () \<and>
      (\<exists>l. pi_TaprootLeafScript (pk_Inputs p ! i) = [Some l] \<and> tl_Script l = leaf)"
proof -
  from assms(1) obtain p work o' added where key: "SerializePubKey lib (PubKey lib priv) = x"
    and p: "parsePSBT lib stored = Inr p"
    and w: "clonePacket lib p = Inr work" and o': "clonePacket lib p = Inr o'"
    and added: "mapR (signArkInput lib p work priv x leaf sh) [0..<length (pk_Inputs work)] = Inr added"
    and ne: "length added \<noteq> 0" and out: "B64Encode lib (o'\<lparr> pk_Inputs := map2 addSig added (pk_Inputs o') \<rparr>) = Inr out"
    unfolding signExactArkStageWithSighash_def by (auto simp: res_simps split: option.splits if_splits)
  from encode_same [OF codec out] obtain q where q: "NewFromRawBytes lib out = Inr q"
    and sq: "samePacket (o'\<lparr> pk_Inputs := map2 addSig added (pk_Inputs o') \<rparr>) q" by blast
  note sw = clonePacket_same [OF codec w] and so = clonePacket_same [OF codec o']
  have la: "length added = length (pk_Inputs p)"
    using mapR_length [OF added] samePacket_length [OF sw] by simp
  have lq: "length (pk_Inputs q) = length (pk_Inputs p)"
    using samePacket_length [OF sq] samePacket_length [OF so] la by simp
  show thesis
  proof (rule that [OF p q _ lq la _ key])
    show "q\<lparr> pk_Inputs := [] \<rparr> = p\<lparr> pk_Inputs := [] \<rparr>" using sq so by (simp add: samePacket_def)
    show "0 < length (pk_Inputs p)" using ne la by simp
    fix i assume i: "i < length (pk_Inputs p)"
    have ii: "i < length (pk_Inputs work)" "i < length (pk_Inputs o')"
      using i samePacket_length [OF sw] samePacket_length [OF so] by simp_all
    have "signArkInput lib p work priv x leaf sh i = Inr (added ! i)"
      using mapR_nth [OF added, of i] ii by simp
    note s = signArkInput_Inr [OF this]
    have same: "sameInput (addSig (added ! i) (pk_Inputs o' ! i)) (pk_Inputs q ! i)"
      using samePacket_input [OF sq, of i] ii i la by simp
    show "oneSigMore (pk_Inputs p ! i) (added ! i) (pk_Inputs q ! i) \<and>
      ts_XOnlyPubKey (added ! i) = x \<and> ts_LeafHash (added ! i) = TapHash lib leaf \<and> ts_SigHash (added ! i) = sh \<and>
      verifySchnorrOnInputWithSighash lib p i (ts_Signature (added ! i)) x leaf sh = Inr () \<and>
      (\<exists>l. pi_TaprootLeafScript (pk_Inputs p ! i) = [Some l] \<and> tl_Script l = leaf)"
      using s key oneSigMore_addSig [OF samePacket_input [OF so i] same]
        sameInput_leaf [OF samePacket_input [OF sw i]] by auto
  qed
qed

text \<open>A response that is not the submitted packet with one more good signature contributes nothing else.\<close>

lemma extractVerifiedSignerSig_Inr:
  assumes "extractVerifiedSignerSig lib p response x = Inr sig"
  shows "length (pk_Inputs p) = 1 \<and> (\<exists>l. pi_TaprootLeafScript (hd (pk_Inputs p)) = [Some l] \<and>
    signerSigOk lib p x (tl_Script l) (Some sig))"
proof -
  from assms obtain l and r :: Packet where "length (pk_Inputs p) = 1" and l: "pi_TaprootLeafScript (hd (pk_Inputs p)) = [Some l]"
    and f: "filter (signerSigOk lib p x (tl_Script l))
      (extraSigs (pi_TaprootScriptSpendSig (hd (pk_Inputs p))) [] (pi_TaprootScriptSpendSig (hd (pk_Inputs r)))) = [Some sig]"
    unfolding extractVerifiedSignerSig_def by (auto simp: Let_def split: option.splits list.splits if_splits)
  from f have "Some sig \<in> set (filter (signerSigOk lib p x (tl_Script l))
      (extraSigs (pi_TaprootScriptSpendSig (hd (pk_Inputs p))) [] (pi_TaprootScriptSpendSig (hd (pk_Inputs r)))))" by simp
  then have "signerSigOk lib p x (tl_Script l) (Some sig)" by simp
  with \<open>length (pk_Inputs p) = 1\<close> l show ?thesis by blast
qed

lemma signExactStage_Inr:
  assumes "signExactStage lib stored sign x role = Inr out" and codec: "codec lib"
  obtains p q sig a b l prev where "NewFromRawBytes lib stored = Inr p" and "RequireVerifiedPrevout lib p = Inr prev"
    and "NewFromRawBytes lib out = Inr q"
    and "q\<lparr> pk_Inputs := [] \<rparr> = p\<lparr> pk_Inputs := [] \<rparr>" and "pk_Inputs p = [a]" and "pk_Inputs q = [b]"
    and "oneSigMore a sig b" and "pi_TaprootLeafScript a = [Some l]" and "signerSigOk lib p x (tl_Script l) (Some sig)"
proof -
  from assms(1) obtain p prev response sig o' where p: "NewFromRawBytes lib stored = Inr p"
    and prev: "RequireVerifiedPrevout lib p = Inr prev"
    and sig: "extractVerifiedSignerSig lib p response x = Inr sig" and o': "clonePacket lib p = Inr o'"
    and out: "B64Encode lib (o'\<lparr> pk_Inputs := map (addSig sig) (take 1 (pk_Inputs o')) @ drop 1 (pk_Inputs o') \<rparr>) = Inr out"
    unfolding signExactStage_def parseAndVerifyPrevout_def by (auto simp: res_simps)
  from extractVerifiedSignerSig_Inr [OF sig] obtain a l where a: "pk_Inputs p = [a]"
    and l: "pi_TaprootLeafScript a = [Some l]" "signerSigOk lib p x (tl_Script l) (Some sig)"
    by (auto simp: length_Suc_conv)
  note so = clonePacket_same [OF codec o']
  from so a obtain c where c: "pk_Inputs o' = [c]" "sameInput a c"
    by (auto simp: samePacket_def list_all2_Cons1)
  from encode_same [OF codec out] obtain q where q: "NewFromRawBytes lib out = Inr q"
    and sq: "samePacket (o'\<lparr> pk_Inputs := [addSig sig c] \<rparr>) q" by (auto simp: c)
  from sq obtain b where b: "pk_Inputs q = [b]" "sameInput (addSig sig c) b"
    by (auto simp: samePacket_def list_all2_Cons1)
  have "q\<lparr> pk_Inputs := [] \<rparr> = p\<lparr> pk_Inputs := [] \<rparr>" using sq so by (simp add: samePacket_def)
  with that p prev q a b l oneSigMore_addSig [OF c(2) b(2)] show thesis by blast
qed

text \<open>
  \<open>out\<close> is the packet \<open>stored\<close> with one signature of \<open>x\<close> added to each of its inputs, which verifies on
  the packet as it was submitted, for the leaf the input commits to; nothing else differs.
\<close>

definition signedStage :: "('pk, 'sk, 'sg, 'x) BtcLib_scheme \<Rightarrow> string \<Rightarrow> bytes \<Rightarrow> bytes \<Rightarrow> u32 \<Rightarrow> string \<Rightarrow> bool" where
  "signedStage lib stored x leaf sh out \<longleftrightarrow>
     (\<exists>p q added. parsePSBT lib stored = Inr p \<and> NewFromRawBytes lib out = Inr q \<and>
        q\<lparr> pk_Inputs := [] \<rparr> = p\<lparr> pk_Inputs := [] \<rparr> \<and> 0 < length (pk_Inputs p) \<and>
        length (pk_Inputs q) = length (pk_Inputs p) \<and>
        (\<forall>i < length (pk_Inputs p). oneSigMore (pk_Inputs p ! i) (added ! i) (pk_Inputs q ! i) \<and>
           ts_XOnlyPubKey (added ! i) = x \<and> ts_LeafHash (added ! i) = TapHash lib leaf \<and> ts_SigHash (added ! i) = sh \<and>
           verifySchnorrOnInputWithSighash lib p i (ts_Signature (added ! i)) x leaf sh = Inr () \<and>
           (\<exists>l. pi_TaprootLeafScript (pk_Inputs p ! i) = [Some l] \<and> tl_Script l = leaf)))"

lemma signExactArkStage_signed:
  assumes "signExactArkStageWithSighash lib ctxErr stored priv x leaf sh = Inr out" and "codec lib"
  shows "signedStage lib stored x leaf sh out"
  using assms by (rule signExactArkStage_Inr) (unfold signedStage_def, blast)

text \<open>The same for the listed inputs of a boarding packet; the other inputs stay as they are.\<close>

definition boardSigOk :: "('pk, 'sk, 'sg, 'x) BtcLib_scheme \<Rightarrow> Packet \<Rightarrow> bytes \<Rightarrow> bytes \<Rightarrow> u32 \<Rightarrow> nat \<Rightarrow> TaprootScriptSpendSig \<Rightarrow> bool" where
  "boardSigOk lib p x leaf sh i sig \<longleftrightarrow>
     ts_XOnlyPubKey sig = x \<and> ts_LeafHash sig = TapHash lib leaf \<and> ts_SigHash sig = sh \<and>
     verifySchnorrOnInputWithSighash lib p i (ts_Signature sig) x leaf sh = Inr () \<and>
     (\<exists>l. pi_TaprootLeafScript (pk_Inputs p ! i) = [Some l] \<and> tl_Script l = leaf)"

definition signedBoardStage ::
  "('pk, 'sk, 'sg, 'x) BtcLib_scheme \<Rightarrow> string \<Rightarrow> bytes \<Rightarrow> bytes \<Rightarrow> int list \<Rightarrow> u32 \<Rightarrow> string \<Rightarrow> bool" where
  "signedBoardStage lib stored x leaf idxs sh out \<longleftrightarrow>
     (\<exists>p q. parsePSBT lib stored = Inr p \<and> NewFromRawBytes lib out = Inr q \<and>
        q\<lparr> pk_Inputs := [] \<rparr> = p\<lparr> pk_Inputs := [] \<rparr> \<and> length (pk_Inputs q) = length (pk_Inputs p) \<and>
        (\<forall>idx \<in> set idxs. 0 \<le> idx \<and> nat idx < length (pk_Inputs p)) \<and>
        (\<forall>i < length (pk_Inputs p).
           if int i \<in> set idxs then \<exists>sig. oneSigMore (pk_Inputs p ! i) sig (pk_Inputs q ! i) \<and> boardSigOk lib p x leaf sh i sig
           else sameInput (pk_Inputs p ! i) (pk_Inputs q ! i)))"

lemma signBoardInput_Inr:
  assumes "signBoardInput lib p work priv x leaf sh i = Inr sig" and "SerializePubKey lib (PubKey lib priv) = x"
    and "sameInput (pk_Inputs p ! i) (pk_Inputs work ! i)"
  shows "boardSigOk lib p x leaf sh i sig"
  using assms(1,2) sameInput_leaf [OF assms(3)] unfolding signBoardInput_def boardSigOk_def
  by (auto simp: signTapLeafAtWithSighash_def res_simps split: list.splits option.splits if_splits sum.splits)

lemma signBoardInputs_Inr:
  assumes "signBoardInputs lib p work priv x leaf sh seen idxs out = Inr out'"
    and "SerializePubKey lib (PubKey lib priv) = x" and "samePacket p work" and "length (pk_Inputs out) = length (pk_Inputs p)"
  shows "out'\<lparr> pk_Inputs := [] \<rparr> = out\<lparr> pk_Inputs := [] \<rparr> \<and> length (pk_Inputs out') = length (pk_Inputs p) \<and>
    set idxs \<inter> set seen = {} \<and> (\<forall>idx \<in> set idxs. 0 \<le> idx \<and> nat idx < length (pk_Inputs p)) \<and>
    (\<forall>i < length (pk_Inputs p).
       if int i \<in> set idxs then \<exists>sig. pk_Inputs out' ! i = addSig sig (pk_Inputs out ! i) \<and> boardSigOk lib p x leaf sh i sig
       else pk_Inputs out' ! i = pk_Inputs out ! i)"
  using assms
proof (induction idxs arbitrary: seen out)
  case (Cons idx rest)
  let ?n = "nat idx"
  from Cons.prems(1) obtain sig where r: "\<not> idx < 0" "?n < length (pk_Inputs work)" "idx \<notin> set seen"
    and sig: "signBoardInput lib p work priv x leaf sh ?n = Inr sig"
    and rest: "signBoardInputs lib p work priv x leaf sh (idx # seen) rest
      (out\<lparr> pk_Inputs := (pk_Inputs out)[?n := addSig sig (pk_Inputs out ! ?n)] \<rparr>) = Inr out'"
    by (auto simp: res_simps split: if_splits)
  have n: "?n < length (pk_Inputs p)" using r samePacket_length [OF Cons.prems(3)] by simp
  have ok: "boardSigOk lib p x leaf sh ?n sig"
    by (rule signBoardInput_Inr [OF sig Cons.prems(2) samePacket_input [OF Cons.prems(3) n]])
  have IH: "out'\<lparr> pk_Inputs := [] \<rparr> = out\<lparr> pk_Inputs := [] \<rparr> \<and> length (pk_Inputs out') = length (pk_Inputs p) \<and>
    set rest \<inter> set (idx # seen) = {} \<and> (\<forall>idx \<in> set rest. 0 \<le> idx \<and> nat idx < length (pk_Inputs p)) \<and>
    (\<forall>i < length (pk_Inputs p).
       if int i \<in> set rest then \<exists>s. pk_Inputs out' ! i = addSig s ((pk_Inputs out)[?n := addSig sig (pk_Inputs out ! ?n)] ! i) \<and>
         boardSigOk lib p x leaf sh i s
       else pk_Inputs out' ! i = (pk_Inputs out)[?n := addSig sig (pk_Inputs out ! ?n)] ! i)"
    using Cons.IH [OF rest Cons.prems(2,3)] Cons.prems(4) by (simp cong: if_cong)
  have step: "if int i \<in> set (idx # rest)
      then \<exists>s. pk_Inputs out' ! i = addSig s (pk_Inputs out ! i) \<and> boardSigOk lib p x leaf sh i s
      else pk_Inputs out' ! i = pk_Inputs out ! i" if i: "i < length (pk_Inputs p)" for i
  proof (cases "i = ?n")
    case True
    then have "int i = idx" using r(1) by simp
    moreover from this IH have "int i \<notin> set rest" by auto
    ultimately show ?thesis using IH i ok True Cons.prems(4) by (auto split: if_splits)
  next
    case False
    then have "int i \<noteq> idx" by auto
    moreover from IH i have "if int i \<in> set rest
      then \<exists>s. pk_Inputs out' ! i = addSig s ((pk_Inputs out)[?n := addSig sig (pk_Inputs out ! ?n)] ! i) \<and>
        boardSigOk lib p x leaf sh i s
      else pk_Inputs out' ! i = (pk_Inputs out)[?n := addSig sig (pk_Inputs out ! ?n)] ! i" by blast
    ultimately show ?thesis using False by (simp cong: if_cong)
  qed
  from IH r n show ?case
    by (intro conjI allI impI step) auto
qed simp

lemma signExactVaultBoardStage_signed:
  assumes "signExactVaultBoardStage lib ctxErr stored priv x leaf idxs sh = Inr out" and codec: "codec lib"
  shows "signedBoardStage lib stored x leaf idxs sh out"
proof -
  from assms(1) obtain p work o' o'' where key: "SerializePubKey lib (PubKey lib priv) = x"
    and p: "parsePSBT lib stored = Inr p" and w: "clonePacket lib p = Inr work" and o': "clonePacket lib p = Inr o'"
    and s: "signBoardInputs lib p work priv x leaf sh [] idxs o' = Inr o''" and out: "B64Encode lib o'' = Inr out"
    unfolding signExactVaultBoardStage_def by (auto simp: res_simps split: option.splits if_splits)
  from encode_same [OF codec out] obtain q where q: "NewFromRawBytes lib out = Inr q" and sq: "samePacket o'' q" by blast
  note sw = clonePacket_same [OF codec w] and so = clonePacket_same [OF codec o']
  note i = signBoardInputs_Inr [OF s key sw samePacket_length [OF so]]
  have "if int j \<in> set idxs then \<exists>sig. oneSigMore (pk_Inputs p ! j) sig (pk_Inputs q ! j) \<and> boardSigOk lib p x leaf sh j sig
      else sameInput (pk_Inputs p ! j) (pk_Inputs q ! j)" if j: "j < length (pk_Inputs p)" for j
  proof -
    note sp = samePacket_input [OF so j]
    have "sameInput (pk_Inputs o'' ! j) (pk_Inputs q ! j)" using samePacket_input [OF sq, of j] i j by simp
    then show ?thesis
      using i j oneSigMore_addSig [OF sp] sameInput_trans [OF sp] by (auto split: if_splits) metis
  qed
  moreover have "q\<lparr> pk_Inputs := [] \<rparr> = p\<lparr> pk_Inputs := [] \<rparr>" using sq so i by (simp add: samePacket_def)
  moreover have "length (pk_Inputs q) = length (pk_Inputs p)" using samePacket_length [OF sq] i by simp
  ultimately show ?thesis using p q i unfolding signedBoardStage_def by (intro exI [of _ p] exI [of _ q]) simp
qed

end
