(* ===== verification/VtxoVerify.thy ===== *)
theory VtxoVerify
  imports PsbtGuard Json
begin

text \<open>
  \<open>internal/application/vtxo_verify.go\<close> and \<open>vtxo_pending_proof.go\<close>: what the transactions of a
  spend must look like before the server signs them, against the stored operation and the policy
  tree of the vault.
\<close>

record 'pk vtxoPolicyTree =
  vt_CosignerPub :: "'pk option"
  vt_DelegatePub :: "'pk option"
  vt_ArkdPub :: "'pk option"
  vt_TapKey :: "'pk option"
  vt_PkScript :: bytes
  vt_SpendLeaf :: bytes
  vt_DelegateLeaf :: bytes
  vt_SpendControl :: bytes
  vt_DelegateControl :: bytes
  vt_RevealedScripts :: "string list"
  vt_ArkAddress :: string
  vt_OnchainAddress :: string

section \<open>Leaves and signatures of an input\<close>

definition controlBlockMatches :: "('pk, 'sk, 'sg) ArkLib \<Rightarrow> bytes \<Rightarrow> bytes \<Rightarrow> bytes \<Rightarrow> unit result" where
  "controlBlockMatches lib pkScript leafScript control =
     (if length pkScript = 0 \<or> length leafScript = 0 \<or> length control = 0 then Inl (Errorf ''control block'')
      else bindR (wrapR ''control block'' (ControlRoot lib control)) (\<lambda>rootHash.
        bindR (P2TRScript lib (TaprootOutputKey lib (rootHash leafScript))) (\<lambda>want.
        if want \<noteq> pkScript then Inl (Errorf ''control block does not match prevout'') else Inr ())))"

definition firstLeafPub :: "('pk, 'sk, 'sg) ArkLib \<Rightarrow> bytes \<Rightarrow> bytes" where
  "firstLeafPub lib leaf =
     (case DecodeClosure lib leaf of
        Inr (MultisigClosure (Some pub # _)) \<Rightarrow> SerializePubKey lib pub
      | _ \<Rightarrow> [])"

definition leafSigOk :: "('pk, 'sk, 'sg) ArkLib \<Rightarrow> bytes \<Rightarrow> bytes list \<Rightarrow> u32 \<Rightarrow> TaprootScriptSpendSig option \<Rightarrow> unit result" where
  "leafSigOk lib leafScript allowed wantSigHash sig =
     (case sig of
        None \<Rightarrow> Inl (Errorf ''nil signature'')
      | Some s \<Rightarrow>
          if ts_SigHash s \<noteq> wantSigHash then Inl (Errorf ''unexpected sighash'')
          else if ts_LeafHash s \<noteq> TapHash lib leafScript then Inl (Errorf ''signature leaf hash'')
          else if ts_XOnlyPubKey s \<notin> set allowed then Inl (Errorf ''unexpected signature'')
          else Inr ())"

definition requireExactLeafWithSighash ::
  "('pk, 'sk, 'sg) ArkLib \<Rightarrow> PInput \<Rightarrow> bytes \<Rightarrow> bytes \<Rightarrow> bytes \<Rightarrow> bytes list \<Rightarrow> u32 \<Rightarrow> unit result" where
  "requireExactLeafWithSighash lib pin pkScript wantLeaf wantControl allowed wantSigHash =
     (case pi_WitnessUtxo pin of
        None \<Rightarrow> Inl (Errorf ''witness utxo required'')
      | Some wu \<Rightarrow>
          if to_PkScript wu \<noteq> pkScript then Inl (Errorf ''input script'')
          else (case pi_TaprootLeafScript pin of
            [Some leaf] \<Rightarrow>
              if pi_SighashType pin \<noteq> wantSigHash then Inl (Errorf ''unexpected input sighash'')
              else if tl_LeafVersion leaf \<noteq> BaseLeafVersion then Inl (Errorf ''tapleaf version'')
              else if tl_Script leaf \<noteq> wantLeaf then Inl (Errorf ''unexpected tapleaf'')
              else
                bindR (controlBlockMatches lib pkScript (tl_Script leaf) (tl_ControlBlock leaf)) (\<lambda>_.
                if length wantControl > 0 \<and> tl_ControlBlock leaf \<noteq> wantControl then Inl (Errorf ''unexpected control block'')
                else eachR (leafSigOk lib (tl_Script leaf) allowed wantSigHash) (pi_TaprootScriptSpendSig pin))
          | _ \<Rightarrow> Inl (Errorf ''exactly one tapleaf required'')))"

definition requireExactLeaf ::
  "('pk, 'sk, 'sg) ArkLib \<Rightarrow> PInput \<Rightarrow> bytes \<Rightarrow> bytes \<Rightarrow> bytes \<Rightarrow> bytes list \<Rightarrow> unit result" where
  "requireExactLeaf lib pin pkScript wantLeaf wantControl allowed =
     requireExactLeafWithSighash lib pin pkScript wantLeaf wantControl allowed SigHashDefault"

text \<open>The loop over the signatures: \<open>found\<close> holds the keys whose signature was verified so far.\<close>

fun collectSigners ::
  "('pk, 'sk, 'sg) ArkLib \<Rightarrow> Packet \<Rightarrow> nat \<Rightarrow> bytes list \<Rightarrow> bytes \<Rightarrow> u32 \<Rightarrow> bytes list \<Rightarrow> TaprootScriptSpendSig option list \<Rightarrow>
     bytes list result" where
  "collectSigners lib ptx idx want leaf sh found [] = Inr found"
| "collectSigners lib ptx idx want leaf sh found (sig # sigs) =
     (case sig of
        None \<Rightarrow> Inl (Errorf ''nil signature'')
      | Some s \<Rightarrow>
          if ts_XOnlyPubKey s \<notin> set want then Inl (Errorf ''unexpected signature'')
          else if ts_XOnlyPubKey s \<in> set found then Inl (Errorf ''duplicate signature'')
          else if ts_SigHash s \<noteq> sh \<or> ts_LeafHash s \<noteq> TapHash lib leaf then Inl (Errorf ''unexpected sighash'')
          else (case verifySchnorrOnInputWithSighash lib ptx idx (ts_Signature s) (ts_XOnlyPubKey s) leaf sh of
            Inl _ \<Rightarrow> Inl (Errorf ''signature invalid'')
          | Inr _ \<Rightarrow> collectSigners lib ptx idx want leaf sh (ts_XOnlyPubKey s # found) sigs))"

definition requireVerifiedSignersWithSighash ::
  "('pk, 'sk, 'sg) ArkLib \<Rightarrow> Packet \<Rightarrow> nat \<Rightarrow> bytes list \<Rightarrow> bytes \<Rightarrow> u32 \<Rightarrow> unit result" where
  "requireVerifiedSignersWithSighash lib ptx idx signers leaf wantSigHash =
     (if idx \<ge> length (pk_Inputs ptx) then Inl (Errorf ''required signatures missing'')
      else if list_ex (\<lambda>s. length s \<noteq> 32) signers then Inl (Errorf ''signer pubkey'')
      else case pi_TaprootLeafScript (pk_Inputs ptx ! idx) of
        [Some _] \<Rightarrow>
          bindR (collectSigners lib ptx idx signers leaf wantSigHash [] (pi_TaprootScriptSpendSig (pk_Inputs ptx ! idx))) (\<lambda>found.
          if length found \<noteq> card (set signers) then Inl (Errorf ''required signatures missing'') else Inr ())
      | _ \<Rightarrow> Inl (Errorf ''required signatures missing''))"

definition requireVerifiedUserSignature ::
  "('pk, 'sk, 'sg) ArkLib \<Rightarrow> Packet \<Rightarrow> nat \<Rightarrow> bytes \<Rightarrow> bytes \<Rightarrow> unit result" where
  "requireVerifiedUserSignature lib ptx idx user leaf =
     requireVerifiedSignersWithSighash lib ptx idx [user] leaf SigHashDefault"

section \<open>Checkpoints\<close>

definition checkpointDestScript :: "('pk, 'sk, 'sg) ArkLib \<Rightarrow> bytes \<Rightarrow> bytes \<Rightarrow> (bytes \<times> bytes) result" where
  "checkpointDestScript lib unroll spendLeaf =
     (case DecodeClosure lib unroll of
        Inl _ \<Rightarrow> Inl (Errorf ''checkpoint tapscript'')
      | Inr unrollClosure \<Rightarrow>
          (case DecodeClosure lib spendLeaf of
             Inl _ \<Rightarrow> Inl (Errorf ''spend leaf'')
           | Inr spendClosure \<Rightarrow>
               bindR (TapTree lib [unrollClosure, spendClosure]) (\<lambda>(tapKey, proof).
               bindR (P2TRScript lib tapKey) (\<lambda>pk.
               bindR (proof (TapHash lib spendLeaf)) (\<lambda>control. Inr (pk, control))))))"

definition matchReservedOutpoint ::
  "('pk, 'sk, 'sg) ArkLib \<Rightarrow> (string \<rightharpoonup> VtxoOperationInput) \<Rightarrow> OutPoint \<Rightarrow> VtxoOperationInput option" where
  "matchReservedOutpoint lib seen op =
     (case hex_decode (HashString lib (op_Hash op)) of
        None \<Rightarrow> None
      | Some display \<Rightarrow> seen (outpointKey (hex_encode display, op_Index op)))"

definition onlyReserved :: "VtxoOperationInput \<Rightarrow> string \<rightharpoonup> VtxoOperationInput" where
  "onlyReserved i = [outpointKey (hex_encode (vi_Txid i), ucast (vi_Vout i)) \<mapsto> i]"

definition verifyUnsignedCheckpointPSBT ::
  "('pk, 'sk, 'sg) ArkLib \<Rightarrow> Packet \<Rightarrow> VtxoOperationInput \<Rightarrow> VtxoOperation \<Rightarrow> 'pk vtxoPolicyTree \<Rightarrow> unit result" where
  "verifyUnsignedCheckpointPSBT lib ptx i op tree =
     (case pk_UnsignedTx ptx of
        None \<Rightarrow> Inl (Errorf ''checkpoint psbt'')
      | Some tx \<Rightarrow>
          if tx_Version tx \<noteq> 3 \<or> tx_LockTime tx \<noteq> 0 then Inl (Errorf ''checkpoint version/locktime'')
          else if length (tx_TxIn tx) \<noteq> 1 \<or> length (pk_Inputs ptx) \<noteq> 1 then
            Inl (Errorf ''checkpoint must spend one reserved input'')
          else if ti_Sequence (hd (tx_TxIn tx)) \<noteq> MaxTxInSequenceNum then Inl (Errorf ''checkpoint sequence'')
          else if matchReservedOutpoint lib (onlyReserved i) (ti_PreviousOutPoint (hd (tx_TxIn tx))) = None then
            Inl (Errorf ''checkpoint outpoint'')
          else (case pi_WitnessUtxo (hd (pk_Inputs ptx)) of
            None \<Rightarrow> Inl (Errorf ''checkpoint value'')
          | Some wu \<Rightarrow>
              if to_Value wu \<noteq> vi_ValueSats i then Inl (Errorf ''checkpoint value'')
              else if to_PkScript wu \<noteq> vt_PkScript tree \<or> length (vi_Script i) > 0 \<and> to_PkScript wu \<noteq> vi_Script i then
                Inl (Errorf ''checkpoint script'')
              else if length (vo_CheckpointTapscript op) = 0 then Inl (Errorf ''checkpoint tapscript required'')
              else
                bindR (requireExactLeaf lib (hd (pk_Inputs ptx)) (vt_PkScript tree) (vt_SpendLeaf tree) (vt_SpendControl tree)
                  [firstLeafPub lib (vt_SpendLeaf tree)]) (\<lambda>_.
                if length (pi_TaprootScriptSpendSig (hd (pk_Inputs ptx))) \<noteq> 0 then
                  Inl (Errorf ''checkpoint must be unsigned before submit'')
                else
                  bindR (checkpointDestScript lib (vo_CheckpointTapscript op) (vt_SpendLeaf tree)) (\<lambda>(dest, _).
                  case tx_TxOut tx of
                    [o0, o1] \<Rightarrow>
                      if to_PkScript o0 \<noteq> dest \<or> to_Value o0 \<noteq> vi_ValueSats i then Inl (Errorf ''checkpoint dest'')
                      else if to_PkScript o1 \<noteq> ANCHOR_PKSCRIPT lib \<or> to_Value o1 \<noteq> 0 then Inl (Errorf ''checkpoint p2a'')
                      else Inr ()
                  | _ \<Rightarrow> Inl (Errorf ''checkpoint output count'')))))"

definition stripSigs :: "Packet \<Rightarrow> Packet" where
  "stripSigs p = p\<lparr> pk_Inputs := map (\<lambda>i. i\<lparr> pi_TaprootScriptSpendSig := [] \<rparr>) (pk_Inputs p) \<rparr>"

definition verifyCheckpointShape ::
  "('pk, 'sk, 'sg) ArkLib \<Rightarrow> Packet \<Rightarrow> VtxoOperationInput \<Rightarrow> VtxoOperation \<Rightarrow> 'pk vtxoPolicyTree \<Rightarrow> unit result" where
  "verifyCheckpointShape lib ptx i op tree =
     (if pk_UnsignedTx ptx = None \<or> length (pk_Inputs ptx) \<noteq> 1 then Inl (Errorf ''checkpoint psbt'')
      else case clonePacket lib ptx of
        Inl _ \<Rightarrow> Inl (Errorf ''checkpoint psbt'')
      | Inr clone \<Rightarrow> verifyUnsignedCheckpointPSBT lib (stripSigs clone) i op tree)"

definition verifySubmittedCheckpointPSBT ::
  "('pk, 'sk, 'sg) ArkLib \<Rightarrow> Packet \<Rightarrow> VtxoOperationInput \<Rightarrow> VtxoOperation \<Rightarrow> 'pk vtxoPolicyTree \<Rightarrow> unit result" where
  "verifySubmittedCheckpointPSBT lib ptx i op tree =
     bindR (verifyCheckpointShape lib ptx i op tree) (\<lambda>_.
     case vt_ArkdPub tree of
       None \<Rightarrow> Inl (Errorf ''Operator pubkey required'')
     | Some arkd \<Rightarrow>
         let signers = [firstLeafPub lib (vt_SpendLeaf tree), SerializePubKey lib arkd] in
         bindR (requireExactLeaf lib (hd (pk_Inputs ptx)) (vt_PkScript tree) (vt_SpendLeaf tree) (vt_SpendControl tree) signers) (\<lambda>_.
         requireVerifiedSignersWithSighash lib ptx 0 signers (vt_SpendLeaf tree) SigHashDefault))"

section \<open>Equality of packets without signatures\<close>

text \<open>Indexes and previous outputs of the two packets agree input by input.\<close>

definition unsignedInputEqual :: "TxIn \<times> PInput \<Rightarrow> TxIn \<times> PInput \<Rightarrow> bool" where
  "unsignedInputEqual a b =
     (ti_Sequence (fst a) = ti_Sequence (fst b) \<and> pi_SighashType (snd a) = pi_SighashType (snd b) \<and>
      (case (pi_WitnessUtxo (snd a), pi_WitnessUtxo (snd b)) of
         (Some aw, Some bw) \<Rightarrow> to_Value aw = to_Value bw \<and> to_PkScript aw = to_PkScript bw
       | _ \<Rightarrow> False) \<and>
      (case (pi_TaprootLeafScript (snd a), pi_TaprootLeafScript (snd b)) of
         ([Some al], [Some bl]) \<Rightarrow> tl_LeafVersion al = tl_LeafVersion bl \<and> tl_Script al = tl_Script bl \<and>
           tl_ControlBlock al = tl_ControlBlock bl
       | _ \<Rightarrow> False) \<and>
      length (pi_TaprootScriptSpendSig (snd a)) = length (pi_TaprootScriptSpendSig (snd b)) \<and>
      list_all2 (\<lambda>s t. case (s, t) of
          (Some s, Some t) \<Rightarrow> ts_SigHash s = ts_SigHash t \<and> ts_XOnlyPubKey s = ts_XOnlyPubKey t \<and>
            ts_LeafHash s = ts_LeafHash t \<and> ts_Signature s = ts_Signature t
        | _ \<Rightarrow> False)
        (pi_TaprootScriptSpendSig (snd a)) (pi_TaprootScriptSpendSig (snd b)))"

definition unsignedPSBTEqual :: "('pk, 'sk, 'sg, 'x) BtcLib_scheme \<Rightarrow> Packet \<Rightarrow> Packet \<Rightarrow> bool" where
  "unsignedPSBTEqual lib a b =
     (case (pk_UnsignedTx a, pk_UnsignedTx b) of
        (Some ta, Some tb) \<Rightarrow>
          tx_Version ta = tx_Version tb \<and> tx_LockTime ta = tx_LockTime tb \<and> TxHash lib ta = TxHash lib tb \<and>
          length (pk_Inputs a) = length (pk_Inputs b) \<and> length (tx_TxIn ta) = length (tx_TxIn tb) \<and>
          list_all2 unsignedInputEqual (zip (tx_TxIn ta) (pk_Inputs a)) (zip (tx_TxIn tb) (pk_Inputs b))
      | _ \<Rightarrow> False)"

definition sameUnsignedPSBT :: "('pk, 'sk, 'sg, 'x) BtcLib_scheme \<Rightarrow> Packet \<Rightarrow> Packet \<Rightarrow> bool" where
  "sameUnsignedPSBT lib a b =
     (case (clonePacket lib a, clonePacket lib b) of
        (Inr ac, Inr bc) \<Rightarrow> unsignedPSBTEqual lib (stripSigs ac) (stripSigs bc)
      | _ \<Rightarrow> False)"

section \<open>The spending transaction\<close>

text \<open>The loop over the inputs, from index \<open>i\<close> on; it returns the sum of their values.\<close>

fun spendInputs ::
  "('pk, 'sk, 'sg) ArkLib \<Rightarrow> Packet \<Rightarrow> bytes \<Rightarrow> bytes \<Rightarrow> 'pk vtxoPolicyTree \<Rightarrow> nat \<Rightarrow> u64 \<Rightarrow>
     (VtxoOperationInput \<times> Packet) list \<Rightarrow> u64 result" where
  "spendInputs lib ptx destScript arkControl tree i inSum [] = Inr inSum"
| "spendInputs lib ptx destScript arkControl tree i inSum ((input, cp) # rest) =
     (if ti_Sequence (tx_TxIn (theTx ptx) ! i) \<noteq> MaxTxInSequenceNum then Inl (Errorf ''ark input sequence'')
      else case pk_UnsignedTx cp of
        None \<Rightarrow> Inl (Errorf ''checkpoint psbt'')
      | Some ctx \<Rightarrow>
          if ti_PreviousOutPoint (tx_TxIn (theTx ptx) ! i) \<noteq> \<lparr> op_Hash = TxHash lib ctx, op_Index = 0 \<rparr> then
            Inl (Errorf ''ark input is not checkpoint %d'')
          else (case pi_WitnessUtxo (pk_Inputs ptx ! i) of
            None \<Rightarrow> Inl (Errorf ''ark prevout'')
          | Some wu \<Rightarrow>
              if sint (to_Value wu) < 0 \<or> to_Value wu \<noteq> vi_ValueSats input \<or> to_PkScript wu \<noteq> destScript then
                Inl (Errorf ''ark prevout'')
              else if to_Value wu > - 1 - inSum then Inl (Errorf ''input amount overflow'')
              else
                bindR (requireExactLeaf lib (pk_Inputs ptx ! i) destScript (vt_SpendLeaf tree) arkControl
                  [firstLeafPub lib (vt_SpendLeaf tree)]) (\<lambda>_.
                bindR (requireVerifiedUserSignature lib ptx i (firstLeafPub lib (vt_SpendLeaf tree)) (vt_SpendLeaf tree)) (\<lambda>_.
                spendInputs lib ptx destScript arkControl tree (Suc i) (inSum + to_Value wu) rest))))"

text \<open>The outputs: the recipient, the change when there is one, and the anchor.\<close>

definition spendChange :: "TxOut list \<Rightarrow> VtxoOperation \<Rightarrow> 'pk vtxoPolicyTree \<Rightarrow> u64 result" where
  "spendChange outs op tree =
     (if vo_ChangeSats op = 0 then
        (if vo_ChangeVout op \<noteq> None \<or> length (vo_ChangeScript op) \<noteq> 0 then Inl (Errorf ''invalid no-change shape'') else Inr 0)
      else if vo_ChangeVout op \<noteq> Some 1 \<or> sint (vo_ChangeSats op) < sint DustSats then Inl (Errorf ''invalid change shape'')
      else
        let change = outs ! 1 in
        if to_PkScript change \<noteq> vt_PkScript tree \<or> to_PkScript change \<noteq> vo_ChangeScript op then
          Inl (Errorf ''change must be vault-policy-v1'')
        else if to_Value change \<noteq> vo_ChangeSats op then Inl (Errorf ''change amount'')
        else Inr (to_Value change))"

definition spendOutputs ::
  "('pk, 'sk, 'sg) ArkLib \<Rightarrow> TxOut list \<Rightarrow> VtxoOperation \<Rightarrow> 'pk vtxoPolicyTree \<Rightarrow> u64 \<Rightarrow> unit result" where
  "spendOutputs lib outs op tree inSum =
     (if length outs \<noteq> (if sint (vo_ChangeSats op) > 0 then 3 else 2) then Inl (Errorf ''ark output count'')
      else
        let dest = hd outs; anchor = last outs in
        if to_Value dest \<noteq> vo_AmountSats op \<or> to_PkScript dest \<noteq> vo_DestScript op then Inl (Errorf ''dest'')
        else if sint (to_Value dest) < sint DustSats then Inl (Errorf ''dest amount'')
        else
          bindR (spendChange outs op tree) (\<lambda>changeValue.
          if to_PkScript anchor \<noteq> ANCHOR_PKSCRIPT lib \<or> to_Value anchor \<noteq> 0 then Inl (Errorf ''p2a output'')
          else
            let outSum = to_Value dest + changeValue in
            if sint (vo_FeeSats op) < 0 \<or> vo_FeeSats op > - 1 - outSum \<or> inSum \<noteq> outSum + vo_FeeSats op then
              Inl (Errorf ''input/output conservation'')
            else Inr ()))"

definition verifySpendPSBT ::
  "('pk, 'sk, 'sg) ArkLib \<Rightarrow> Packet \<Rightarrow> VtxoOperation \<Rightarrow> VtxoOperationInput list \<Rightarrow> 'pk vtxoPolicyTree \<Rightarrow> Packet list \<Rightarrow> unit result" where
  "verifySpendPSBT lib ptx op inputs tree checkpoints =
     (case pk_UnsignedTx ptx of
        None \<Rightarrow> Inl (Errorf ''psbt required'')
      | Some tx \<Rightarrow>
          if length inputs = 0 \<or> length inputs > maxVtxoSpendInputs \<or> length checkpoints \<noteq> length inputs then
            Inl (Errorf ''ark input count'')
          else if tx_Version tx \<noteq> 3 \<or> tx_LockTime tx \<noteq> 0 then Inl (Errorf ''ark tx version/locktime'')
          else if length (tx_TxIn tx) \<noteq> length inputs \<or> length (pk_Inputs ptx) \<noteq> length inputs then
            Inl (Errorf ''ark input count'')
          else
            bindR (checkpointDestScript lib (vo_CheckpointTapscript op) (vt_SpendLeaf tree)) (\<lambda>(destScript, arkControl).
            bindR (spendInputs lib ptx destScript arkControl tree 0 0 (zip inputs checkpoints)) (\<lambda>inSum.
            spendOutputs lib (tx_TxOut tx) op tree inSum)))"

section \<open>The proof of a pending transaction\<close>

abbreviation canonicalGetPendingTxMessage :: string where
  "canonicalGetPendingTxMessage \<equiv> ''{\"type\":\"get-pending-tx\",\"expire_at\":0}''"

text \<open>\<open>base64.StdEncoding\<close>: the standard alphabet with padding; line breaks are skipped.\<close>

definition std_b64_value :: "char \<Rightarrow> nat option" where
  "std_b64_value c =
     (if c = CHR ''+'' then Some 62 else if c = CHR ''/'' then Some 63
      else if c = CHR ''-'' \<or> c = CHR ''_'' then None else b64_value c)"

definition std_b64_decode :: "string \<Rightarrow> bytes option" where
  "std_b64_decode s =
     (let cs = filter (\<lambda>c. c \<noteq> CHR 0x0a \<and> c \<noteq> CHR 0x0d) s;
          body = takeWhile (\<lambda>c. c \<noteq> CHR ''='') cs;
          ds = map std_b64_value body
      in if length cs mod 4 \<noteq> 0 \<or> drop (length body) cs \<notin> {[], ''='', ''==''} then None
         else if None \<in> set ds then None else b64_join (map the ds))"

definition pendingProofDigest :: "('pk, 'sk, 'sg) ArkLib \<Rightarrow> string \<Rightarrow> bytes result" where
  "pendingProofDigest lib raw =
     bindR (parsePSBT lib raw) (\<lambda>packet.
     bindR (B64Encode lib packet) (\<lambda>canonical.
     if canonical \<noteq> raw then Inl (Errorf ''pending proof must use canonical base64 PSBT encoding'')
     else case std_b64_decode canonical of
       None \<Rightarrow> Inl (Errorf ''pending proof encoding'')
     | Some decoded \<Rightarrow> Inr (sha256 decoded)))"

definition requirePendingProofMessage :: "Packet \<Rightarrow> unit result" where
  "requirePendingProofMessage packet =
     (case pk_Unknowns packet of
        [Some (key, val)] \<Rightarrow>
          if key \<noteq> [0x09] then Inl (Errorf ''pending proof canonical message required'')
          else if val \<noteq> str_bytes canonicalGetPendingTxMessage then Inl (Errorf ''pending proof message'')
          else Inr ()
      | _ \<Rightarrow> Inl (Errorf ''pending proof canonical message required''))"

text \<open>Input 0 of the proof is the intent's own; input \<open>i + 1\<close> is the reserved input \<open>i\<close>.\<close>

definition pendingProofInput ::
  "('pk, 'sk, 'sg) ArkLib \<Rightarrow> Packet \<Rightarrow> VtxoOperationInput list \<Rightarrow> 'pk vtxoPolicyTree \<Rightarrow> bytes list \<Rightarrow> nat \<Rightarrow> unit result" where
  "pendingProofInput lib packet inputs tree requiredXOnly i =
     (if ti_Sequence (tx_TxIn (theTx packet) ! i) \<noteq> MaxTxInSequenceNum then Inl (Errorf ''pending proof sequence'')
      else if i > 0 \<and> matchReservedOutpoint lib (onlyReserved (inputs ! (i - 1)))
          (ti_PreviousOutPoint (tx_TxIn (theTx packet) ! i)) = None then
        Inl (Errorf ''pending proof input order'')
      else
        let wantValue = (if i > 0 then vi_ValueSats (inputs ! (i - 1)) else 0);
            wantScript = (if i > 0 then vi_Script (inputs ! (i - 1)) else vt_PkScript tree)
        in case pi_WitnessUtxo (pk_Inputs packet ! i) of
          None \<Rightarrow> Inl (Errorf ''pending proof input %d prevout'')
        | Some witness \<Rightarrow>
            if to_Value witness \<noteq> wantValue \<or> to_PkScript witness \<noteq> vt_PkScript tree \<or> to_PkScript witness \<noteq> wantScript then
              Inl (Errorf ''pending proof input %d prevout'')
            else
              bindR (wrapR ''pending proof input %d'' (requireExactLeafWithSighash lib (pk_Inputs packet ! i) (vt_PkScript tree)
                (vt_SpendLeaf tree) (vt_SpendControl tree) requiredXOnly SigHashAll)) (\<lambda>_.
              wrapR ''pending proof input %d''
                (requireVerifiedSignersWithSighash lib packet i requiredXOnly (vt_SpendLeaf tree) SigHashAll)))"

definition verifyPendingProof ::
  "('pk, 'sk, 'sg) ArkLib \<Rightarrow> string \<Rightarrow> VtxoOperationInput list \<Rightarrow> 'pk vtxoPolicyTree \<Rightarrow> 'pk list \<Rightarrow> 'pk list \<Rightarrow> unit result" where
  "verifyPendingProof lib raw inputs tree required skipped =
     (if length inputs = 0 \<or> length (vt_PkScript tree) = 0 \<or> length (vt_SpendLeaf tree) = 0 then
        Inl (Errorf ''pending proof policy inputs required'')
      else
        bindR (parsePSBT lib raw) (\<lambda>packet.
        if B64Encode lib packet \<noteq> Inr raw then Inl (Errorf ''pending proof must use canonical base64 PSBT encoding'')
        else
          bindR (requirePendingProofMessage packet) (\<lambda>_.
          let tx = theTx packet in
          if tx_Version tx \<noteq> 2 \<or> tx_LockTime tx \<noteq> 0 then Inl (Errorf ''pending proof version/locktime'')
          else if length (tx_TxIn tx) \<noteq> length inputs + 1 \<or> length (pk_Inputs packet) \<noteq> length inputs + 1 then
            Inl (Errorf ''pending proof input count'')
          else if length (tx_TxOut tx) \<noteq> 1 \<or> length (pk_Outputs packet) \<noteq> 1 \<or> to_Value (hd (tx_TxOut tx)) \<noteq> 0 \<or>
              to_PkScript (hd (tx_TxOut tx)) \<noteq> [OP_RETURN] then
            Inl (Errorf ''pending proof outputs'')
          else
            bindR (eachR (pendingProofInput lib packet inputs tree (map (SerializePubKey lib) required))
              [0..<length (pk_Inputs packet)]) (\<lambda>_.
            wrapR ''pending proof invalid'' (IntentVerify lib raw canonicalGetPendingTxMessage skipped)))))"

definition verifyPhonePendingProof ::
  "('pk, 'sk, 'sg) ArkLib \<Rightarrow> string \<Rightarrow> VtxoOperationInput list \<Rightarrow> 'pk vtxoPolicyTree \<Rightarrow> 'pk option \<Rightarrow> unit result" where
  "verifyPhonePendingProof lib raw inputs tree phone =
     (case (phone, vt_CosignerPub tree, vt_ArkdPub tree) of
        (Some phone, Some cosigner, Some arkd) \<Rightarrow> verifyPendingProof lib raw inputs tree [phone] [cosigner, arkd]
      | _ \<Rightarrow> Inl (Errorf ''pending proof signer policy required''))"

definition verifyDualSignedPendingProof ::
  "('pk, 'sk, 'sg) ArkLib \<Rightarrow> string \<Rightarrow> VtxoOperationInput list \<Rightarrow> 'pk vtxoPolicyTree \<Rightarrow> 'pk option \<Rightarrow> unit result" where
  "verifyDualSignedPendingProof lib raw inputs tree phone =
     (case (phone, vt_CosignerPub tree, vt_ArkdPub tree) of
        (Some phone, Some cosigner, Some arkd) \<Rightarrow> verifyPendingProof lib raw inputs tree [phone, cosigner] [arkd]
      | _ \<Rightarrow> Inl (Errorf ''pending proof signer policy required''))"

text \<open>The signatures of the server's key are removed again, exactly one from each input.\<close>

definition isSigOf :: "bytes \<Rightarrow> TaprootScriptSpendSig option \<Rightarrow> bool" where
  "isSigOf x sig = (case sig of None \<Rightarrow> False | Some s \<Rightarrow> ts_XOnlyPubKey s = x)"

definition requireOnlyVaultSignatureAdded :: "('pk, 'sk, 'sg) ArkLib \<Rightarrow> string \<Rightarrow> string \<Rightarrow> bytes \<Rightarrow> unit result" where
  "requireOnlyVaultSignatureAdded lib beforeRaw afterRaw expectedVault =
     bindR (parsePSBT lib beforeRaw) (\<lambda>before.
     bindR (parsePSBT lib afterRaw) (\<lambda>after.
     if length (pk_Inputs before) \<noteq> length (pk_Inputs after) \<or> length expectedVault \<noteq> 32 then
       Inl (Errorf ''authorized pending proof shape'')
     else
       bindR (eachR (\<lambda>pin. if length (filter (isSigOf expectedVault) (pi_TaprootScriptSpendSig pin)) \<noteq> 1 then
           Inl (Errorf ''expected one VaultCosigner signature on pending proof input %d'') else Inr ()) (pk_Inputs after)) (\<lambda>_.
       bindR (B64Encode lib (after\<lparr> pk_Inputs := map (\<lambda>pin. pin\<lparr> pi_TaprootScriptSpendSig :=
           filter (\<lambda>s. \<not> isSigOf expectedVault s) (pi_TaprootScriptSpendSig pin) \<rparr>) (pk_Inputs after) \<rparr>)) (\<lambda>stripped.
       if stripped \<noteq> beforeRaw then Inl (Errorf ''authorized pending proof mutated phone proof'') else Inr ()))))"

section \<open>What an accepted spend pays\<close>

text \<open>Input \<open>k\<close> of an accepted transaction takes the first output of its checkpoint, at the reserved value.\<close>

definition spendsCheckpoint ::
  "('pk, 'sk, 'sg) ArkLib \<Rightarrow> Packet \<Rightarrow> 'pk vtxoPolicyTree \<Rightarrow> nat \<Rightarrow> VtxoOperationInput \<Rightarrow> Packet \<Rightarrow> bool" where
  "spendsCheckpoint lib ptx tree k input cp \<longleftrightarrow>
     ti_PreviousOutPoint (tx_TxIn (theTx ptx) ! k) = \<lparr> op_Hash = TxHash lib (theTx cp), op_Index = 0 \<rparr> \<and>
     map_option to_Value (pi_WitnessUtxo (pk_Inputs ptx ! k)) = Some (vi_ValueSats input) \<and> 0 \<le> sint (vi_ValueSats input) \<and>
     requireVerifiedUserSignature lib ptx k (firstLeafPub lib (vt_SpendLeaf tree)) (vt_SpendLeaf tree) = Inr ()"

lemma unat_sint: "0 \<le> sint (a :: i64) \<Longrightarrow> unat a = nat (sint a)"
  using i64_upper [of a] by (simp add: unat_eq_nat_uint uint_sint take_bit_int_eq_self)

lemma spendInputs_Inr:
  assumes "spendInputs lib ptx d c tree k s xs = Inr r"
  shows "unat r = unat s + sum_list (map (\<lambda>(i, _). unat (vi_ValueSats i)) xs) \<and>
    (\<forall>j < length xs. spendsCheckpoint lib ptx tree (k + j) (fst (xs ! j)) (snd (xs ! j)))"
  using assms
proof (induction xs arbitrary: k s)
  case (Cons x xs)
  obtain input cp where x: "x = (input, cp)" by (cases x)
  from Cons.prems obtain ctx wu where u: "pk_UnsignedTx cp = Some ctx"
    and po: "ti_PreviousOutPoint (tx_TxIn (theTx ptx) ! k) = \<lparr> op_Hash = TxHash lib ctx, op_Index = 0 \<rparr>"
    and wu: "pi_WitnessUtxo (pk_Inputs ptx ! k) = Some wu" "0 \<le> sint (to_Value wu)" "to_Value wu = vi_ValueSats input"
    and fits: "\<not> to_Value wu > - 1 - s"
    and user: "requireVerifiedUserSignature lib ptx k (firstLeafPub lib (vt_SpendLeaf tree)) (vt_SpendLeaf tree) = Inr ()"
    and rest: "spendInputs lib ptx d c tree (Suc k) (s + to_Value wu) xs = Inr r"
    by (auto simp: x res_simps split: option.splits if_splits)
  have "unat (to_Value wu) \<le> 2 ^ 64 - 1 - unat s"
    using fits by (simp add: word_less_nat_alt not_less unat_sub unat_max_u64)
  then have sum: "unat (s + to_Value wu) = unat s + unat (to_Value wu)"
    using u64_upper [of s] by (subst unat_add_lem [symmetric]) simp_all
  have "theTx cp = ctx" using u by (simp add: theTx_def)
  then have ok: "spendsCheckpoint lib ptx tree k input cp"
    using po wu user by (simp add: spendsCheckpoint_def)
  show ?case
    using Cons.IH [OF rest] sum ok by (auto simp: x wu nth_Cons split: nat.splits)
qed simp

lemma spendOutputs_Inr:
  assumes "spendOutputs lib outs op tree inSum = Inr ()"
  shows "hd outs = \<lparr> to_Value = vo_AmountSats op, to_PkScript = vo_DestScript op \<rparr> \<and>
    last outs = \<lparr> to_Value = 0, to_PkScript = ANCHOR_PKSCRIPT lib \<rparr> \<and>
    (if vo_ChangeSats op = 0 then length outs = 2
     else length outs = 3 \<and> outs ! 1 = \<lparr> to_Value = vo_ChangeSats op, to_PkScript = vt_PkScript tree \<rparr>) \<and>
    sint DustSats \<le> sint (vo_AmountSats op) \<and> 0 \<le> sint (vo_FeeSats op) \<and> 0 \<le> sint (vo_ChangeSats op) \<and>
    int (unat inSum) = sint (vo_AmountSats op) + sint (vo_ChangeSats op) + sint (vo_FeeSats op)"
proof -
  from assms obtain cv where len: "length outs = (if sint (vo_ChangeSats op) > 0 then 3 else 2)"
    and d: "to_Value (hd outs) = vo_AmountSats op" "to_PkScript (hd outs) = vo_DestScript op"
    and dust: "sint DustSats \<le> sint (vo_AmountSats op)"
    and cv: "spendChange outs op tree = Inr cv"
    and a: "to_PkScript (last outs) = ANCHOR_PKSCRIPT lib" "to_Value (last outs) = 0"
    and fee: "0 \<le> sint (vo_FeeSats op)" "\<not> vo_FeeSats op > - 1 - (vo_AmountSats op + cv)"
    and sum: "inSum = vo_AmountSats op + cv + vo_FeeSats op"
    unfolding spendOutputs_def Let_def by (auto simp: res_simps not_less split: if_splits)
  have rec: "r = \<lparr> to_Value = v, to_PkScript = s \<rparr>" if "to_Value r = v" "to_PkScript r = s" for r :: TxOut and v s
    using that by (cases r) simp
  have c: "cv = vo_ChangeSats op" "0 \<le> sint (vo_ChangeSats op)"
    "vo_ChangeSats op \<noteq> 0 \<longrightarrow> outs ! 1 = \<lparr> to_Value = vo_ChangeSats op, to_PkScript = vt_PkScript tree \<rparr> \<and> 0 < sint (vo_ChangeSats op)"
    using cv rec unfolding spendChange_def Let_def by (auto split: if_splits)
  have u: "int (unat (vo_AmountSats op + cv)) = sint (vo_AmountSats op) + sint cv"
  proof -
    have "unat (vo_AmountSats op) + unat cv < 2 ^ 64"
      using dust c i64_upper [of "vo_AmountSats op"] i64_upper [of cv] by (simp add: unat_sint)
    then have "unat (vo_AmountSats op + cv) = unat (vo_AmountSats op) + unat cv"
      by (subst unat_add_lem [symmetric]) simp_all
    then show ?thesis using dust c by (simp add: unat_sint)
  qed
  have "unat (vo_FeeSats op) \<le> 2 ^ 64 - 1 - unat (vo_AmountSats op + cv)"
    using fee(2) by (simp add: word_less_nat_alt not_less unat_sub unat_max_u64)
  then have "unat inSum = unat (vo_AmountSats op + cv) + unat (vo_FeeSats op)"
    unfolding sum using u64_upper [of "vo_AmountSats op + cv"] by (subst unat_add_lem [symmetric]) simp_all
  then have "int (unat inSum) = sint (vo_AmountSats op) + sint (vo_ChangeSats op) + sint (vo_FeeSats op)"
    using u fee(1) c by (simp add: unat_sint)
  with d a dust fee c len rec show ?thesis by (auto split: if_splits)
qed

lemma verifySpendPSBT_Inr:
  assumes "verifySpendPSBT lib ptx op inputs tree checkpoints = Inr ()"
  obtains tx inSum where "pk_UnsignedTx ptx = Some tx" and "length checkpoints = length inputs" and "0 < length inputs"
    and "length (tx_TxIn tx) = length inputs" and "length (pk_Inputs ptx) = length inputs"
    and "spendOutputs lib (tx_TxOut tx) op tree inSum = Inr ()"
    and "int (unat inSum) = sum_list (map (\<lambda>i. int (unat (vi_ValueSats i))) inputs)"
    and "\<And>j. j < length inputs \<Longrightarrow> spendsCheckpoint lib ptx tree j (inputs ! j) (checkpoints ! j)"
proof -
  from assms obtain tx d c s where tx: "pk_UnsignedTx ptx = Some tx"
    and l: "length checkpoints = length inputs" "0 < length inputs"
      "length (tx_TxIn tx) = length inputs" "length (pk_Inputs ptx) = length inputs"
    and ins: "spendInputs lib ptx d c tree 0 0 (zip inputs checkpoints) = Inr s"
    and outs: "spendOutputs lib (tx_TxOut tx) op tree s = Inr ()"
    unfolding verifySpendPSBT_def by (auto simp: res_simps split: option.splits if_splits)
  have "map (\<lambda>(i, _). unat (vi_ValueSats i)) (zip inputs checkpoints) =
      map (\<lambda>i. unat (vi_ValueSats i)) (map fst (zip inputs checkpoints))"
    by (simp add: case_prod_unfold)
  then have "map (\<lambda>(i, _). unat (vi_ValueSats i)) (zip inputs checkpoints) = map (\<lambda>i. unat (vi_ValueSats i)) inputs"
    using l by simp
  with spendInputs_Inr [OF ins] l have "int (unat s) = sum_list (map (\<lambda>i. int (unat (vi_ValueSats i))) inputs)"
    and "\<And>j. j < length inputs \<Longrightarrow> spendsCheckpoint lib ptx tree j (inputs ! j) (checkpoints ! j)"
    by (simp_all add: sum_list_of_nat [symmetric] comp_def)
  with that tx l outs show thesis by blast
qed

text \<open>
  C10. A spending transaction that passes verification moves exactly the reserved coins. Its inputs are
  the first outputs of the checkpoints, in the order of the reserved inputs and at their values, each
  signed by the phone. It pays the reserved amount to the reserved destination, the change back to the
  vault and nothing else: the inputs add up to amount, change and fee with no wrap-around of the
  64-bit sums.
\<close>

theorem spend_conserves_value:
  assumes "verifySpendPSBT lib ptx op inputs tree checkpoints = Inr ()"
  shows "\<exists>tx. pk_UnsignedTx ptx = Some tx \<and>
    tx_TxOut tx = \<lparr> to_Value = vo_AmountSats op, to_PkScript = vo_DestScript op \<rparr> #
      (if vo_ChangeSats op = 0 then [] else [\<lparr> to_Value = vo_ChangeSats op, to_PkScript = vt_PkScript tree \<rparr>]) @
      [\<lparr> to_Value = 0, to_PkScript = ANCHOR_PKSCRIPT lib \<rparr>] \<and>
    sum_list (map (\<lambda>i. sint (vi_ValueSats i)) inputs) = sint (vo_AmountSats op) + sint (vo_ChangeSats op) + sint (vo_FeeSats op) \<and>
    sint DustSats \<le> sint (vo_AmountSats op) \<and> 0 \<le> sint (vo_ChangeSats op) \<and> 0 \<le> sint (vo_FeeSats op) \<and>
    length (tx_TxIn tx) = length inputs \<and> length checkpoints = length inputs \<and>
    (\<forall>j < length inputs. spendsCheckpoint lib ptx tree j (inputs ! j) (checkpoints ! j))"
  using assms
proof (rule verifySpendPSBT_Inr)
  fix tx inSum
  assume tx: "pk_UnsignedTx ptx = Some tx" and l: "length checkpoints = length inputs" "length (tx_TxIn tx) = length inputs"
    and o: "spendOutputs lib (tx_TxOut tx) op tree inSum = Inr ()"
    and s: "int (unat inSum) = sum_list (map (\<lambda>i. int (unat (vi_ValueSats i))) inputs)"
    and c: "\<And>j. j < length inputs \<Longrightarrow> spendsCheckpoint lib ptx tree j (inputs ! j) (checkpoints ! j)"
  note out = spendOutputs_Inr [OF o]
  have "0 \<le> sint (vi_ValueSats i)" if "i \<in> set inputs" for i
    using that c by (auto simp: in_set_conv_nth spendsCheckpoint_def)
  then have "int (unat (vi_ValueSats i)) = sint (vi_ValueSats i)" if "i \<in> set inputs" for i
    using that unat_sint [of "vi_ValueSats i"] by simp
  then have m: "map (\<lambda>i. int (unat (vi_ValueSats i))) inputs = map (\<lambda>i. sint (vi_ValueSats i)) inputs"
    by (rule map_cong [OF refl])
  from s [unfolded m] out have sums: "sum_list (map (\<lambda>i. sint (vi_ValueSats i)) inputs) =
    sint (vo_AmountSats op) + sint (vo_ChangeSats op) + sint (vo_FeeSats op)" by simp
  have outs: "tx_TxOut tx = \<lparr> to_Value = vo_AmountSats op, to_PkScript = vo_DestScript op \<rparr> #
      (if vo_ChangeSats op = 0 then [] else [\<lparr> to_Value = vo_ChangeSats op, to_PkScript = vt_PkScript tree \<rparr>]) @
      [\<lparr> to_Value = 0, to_PkScript = ANCHOR_PKSCRIPT lib \<rparr>]"
  proof (cases "vo_ChangeSats op = 0")
    case True
    with out obtain a b where "tx_TxOut tx = [a, b]" by (auto simp: length_Suc_conv numeral_2_eq_2)
    with out True show ?thesis by simp
  next
    case False
    with out obtain a b d where "tx_TxOut tx = [a, b, d]" by (auto simp: length_Suc_conv numeral_3_eq_3)
    with out False show ?thesis by simp
  qed
  show ?thesis using tx l out sums outs c by (intro exI [of _ tx]) simp
qed

definition exSpendTree :: "bytes vtxoPolicyTree" where
  "exSpendTree = \<lparr> vt_CosignerPub = None, vt_DelegatePub = None, vt_ArkdPub = None, vt_TapKey = None, vt_PkScript = [9],
     vt_SpendLeaf = replicate 32 1, vt_DelegateLeaf = [], vt_SpendControl = [3], vt_DelegateControl = [], vt_RevealedScripts = [],
     vt_ArkAddress = [], vt_OnchainAddress = [] \<rparr>"

definition exSpend :: Packet where
  "exSpend = \<lparr> pk_UnsignedTx = Some \<lparr> tx_Version = 3,
       tx_TxIn = [\<lparr> ti_PreviousOutPoint = \<lparr> op_Hash = [], op_Index = 0 \<rparr>, ti_Sequence = 0xffffffff \<rparr>],
       tx_TxOut = [\<lparr> to_Value = 1000, to_PkScript = [3] \<rparr>, \<lparr> to_Value = 0, to_PkScript = [4] \<rparr>], tx_LockTime = 0 \<rparr>,
     pk_Inputs = [\<lparr> pi_WitnessUtxo = Some \<lparr> to_Value = 1010, to_PkScript = [9] \<rparr>, pi_SighashType = 0,
       pi_TaprootLeafScript = [Some \<lparr> tl_ControlBlock = [3], tl_Script = replicate 32 1, tl_LeafVersion = 0xc0 \<rparr>],
       pi_TaprootScriptSpendSig = [Some \<lparr> ts_XOnlyPubKey = replicate 32 1, ts_LeafHash = replicate 32 1,
         ts_Signature = replicate 64 0, ts_SigHash = 0 \<rparr>], pi_rest = [] \<rparr>],
     pk_Outputs = [], pk_Unknowns = [], pk_rest = [] \<rparr>"

theorem spend_conserves_value_witness:
  "verifySpendPSBT (exArk []) exSpend exOperation [exInput] exSpendTree [exSpend] = Inr () \<and>
   (\<exists>tx. pk_UnsignedTx exSpend = Some tx \<and> length (tx_TxOut tx) = 2 \<and> sint (vi_ValueSats exInput) = 1000 + 10)"
proof -
  have s: "requireVerifiedSignersWithSighash (exArk []) exSpend 0 [replicate 32 1] (replicate 32 1) 0 = Inr ()"
    by (simp add: requireVerifiedSignersWithSighash_def exSpend_def verifySchnorrOnInputWithSighash_def theTx_def exArk_def res_simps)
  have l: "requireExactLeaf (exArk []) (pk_Inputs exSpend ! 0) [9] (replicate 32 1) [3] [replicate 32 1] = Inr ()"
    by (simp add: requireExactLeaf_def requireExactLeafWithSighash_def exSpend_def controlBlockMatches_def leafSigOk_def exArk_def res_simps)
  have f: "firstLeafPub (exArk []) (replicate 32 1) = replicate 32 1" by (simp add: firstLeafPub_def exArk_def)
  have cp: "checkpointDestScript (exArk []) t sl = Inr ([9], [3])" for t sl
    by (simp add: checkpointDestScript_def exArk_def res_simps)
  have i: "spendInputs (exArk []) exSpend [9] [3] exSpendTree 0 0 [(exInput, exSpend)] = Inr 1010"
  proof -
    have "tx_TxIn (theTx exSpend) ! 0 = \<lparr> ti_PreviousOutPoint = \<lparr> op_Hash = [], op_Index = 0 \<rparr>, ti_Sequence = 0xffffffff \<rparr>"
      "pk_UnsignedTx exSpend = Some (theTx exSpend)" "TxHash (exArk []) x = []"
      "pi_WitnessUtxo (pk_Inputs exSpend ! 0) = Some \<lparr> to_Value = 1010, to_PkScript = [9] \<rparr>" "vi_ValueSats exInput = 1010" for x
      by (simp_all add: exSpend_def theTx_def exInput_def exArk_def)
    with s l show ?thesis by (simp add: requireVerifiedUserSignature_def f res_simps exSpendTree_def)
  qed
  have o: "spendOutputs (exArk []) (tx_TxOut (theTx exSpend)) exOperation exSpendTree 1010 = Inr ()"
    by (simp add: spendOutputs_def spendChange_def exOperation_def exSpend_def theTx_def exArk_def res_simps exSpendTree_def)
  have v: "verifySpendPSBT (exArk []) exSpend exOperation [exInput] exSpendTree [exSpend] = Inr ()"
  proof -
    have u: "pk_UnsignedTx exSpend = Some (theTx exSpend)" by (simp add: exSpend_def theTx_def)
    have "tx_Version (theTx exSpend) = 3" "tx_LockTime (theTx exSpend) = 0" "length (tx_TxIn (theTx exSpend)) = 1"
      "length (pk_Inputs exSpend) = 1" by (simp_all add: exSpend_def theTx_def)
    with i o show ?thesis unfolding verifySpendPSBT_def u by (simp add: cp res_simps del: spendInputs.simps)
  qed
  show ?thesis using spend_conserves_value [OF v] v by (auto simp: exOperation_def)
qed

end
