(* ===== verification/Cosigner.thy ===== *)
theory Cosigner
  imports PsbtGuard Tenant
begin

text \<open>
  \<open>internal/policy/cosigner.go\<close> and the file-backed keys of \<open>internal/application/key_provider.go\<close>:
  the keys of a vault are derived from one master scalar, and a derived key only ever signs through
  a named operation.
\<close>

section \<open>Derivation\<close>

abbreviation vaultCosignerHKDFSalt :: string where
  "vaultCosignerHKDFSalt \<equiv> ''arkade-2fa-vault/vault-cosigner/hkdf-sha256-v1''"
abbreviation vaultCosignerHKDFInfo :: string where "vaultCosignerHKDFInfo \<equiv> ''vault-cosigner/v1''"
abbreviation vtxoVaultCosignerHKDFSalt :: string where
  "vtxoVaultCosignerHKDFSalt \<equiv> ''arkade-2fa-vault/vtxo-vault-cosigner/hkdf-sha256-v1''"
abbreviation vtxoVaultCosignerHKDFInfo :: string where "vtxoVaultCosignerHKDFInfo \<equiv> ''vtxo-vault-cosigner/v1''"
abbreviation vaultBoardCosignerHKDFSalt :: string where
  "vaultBoardCosignerHKDFSalt \<equiv> ''arkade-vault/vault-board-v1-cosigner/hkdf-sha256-v1''"
abbreviation vaultBoardCosignerHKDFInfo :: string where "vaultBoardCosignerHKDFInfo \<equiv> ''vault-board-cosigner/v1''"

definition scalarInRange :: "('pk, 'sk, 'sg, 'x) BtcLib_scheme \<Rightarrow> bytes \<Rightarrow> bool" where
  "scalarInRange lib raw = (length raw = 32 \<and> \<not> SetByteSlice lib raw \<and> \<not> ScalarIsZero lib raw)"

text \<open>One block of the HKDF expansion, and the loop over the counter.\<close>

definition hkdfBlock :: "bytes \<Rightarrow> bytes \<Rightarrow> bytes" where
  "hkdfBlock prk info = hmac_sha256 prk (info @ [1])"

fun hkdfScalar :: "('pk, 'sk, 'sg, 'x) BtcLib_scheme \<Rightarrow> bytes \<Rightarrow> (byte \<Rightarrow> bytes) \<Rightarrow> nat list \<Rightarrow> 'sk option" where
  "hkdfScalar lib prk info [] = None"
| "hkdfScalar lib prk info (c # cs) =
     (let okm = hkdfBlock prk (info (word_of_nat c)) in
      if scalarInRange lib okm then
        (case PrivKeyFromBytes lib okm of None \<Rightarrow> hkdfScalar lib prk info cs | Some priv \<Rightarrow> Some priv)
      else hkdfScalar lib prk info cs)"

definition vaultCosignerInfo :: "string \<Rightarrow> byte \<Rightarrow> bytes" where
  "vaultCosignerInfo vaultID counter = str_bytes vaultCosignerHKDFInfo @ [0] @ str_bytes vaultID @ [0, counter]"

definition vtxoVaultCosignerInfo :: "string \<Rightarrow> string \<Rightarrow> string \<Rightarrow> bytes \<Rightarrow> byte \<Rightarrow> bytes" where
  "vtxoVaultCosignerInfo vaultID policyVersion network advertisedServerPub counter =
     str_bytes vtxoVaultCosignerHKDFInfo @ [0] @ str_bytes vaultID @ [0] @ str_bytes policyVersion @ [0] @
     str_bytes network @ [0] @ advertisedServerPub @ [0, counter]"

definition vaultBoardCosignerInfo :: "string \<Rightarrow> string \<Rightarrow> bytes \<Rightarrow> byte \<Rightarrow> bytes" where
  "vaultBoardCosignerInfo vaultID network operatorPub counter =
     concat (map (\<lambda>field. field @ [0]) [str_bytes vaultBoardCosignerHKDFInfo, str_bytes vaultID, str_bytes VaultBoardV1,
       str_bytes network, operatorPub]) @ [counter]"

definition evenYPrivateKey :: "('pk, 'sk, 'sg, 'x) BtcLib_scheme \<Rightarrow> 'sk \<Rightarrow> 'sk" where
  "evenYPrivateKey lib priv =
     (if hd (SerializeCompressed lib (PubKey lib priv)) \<noteq> 0x03 then priv else PrivNegate lib priv)"

definition deriveHKDFVaultCosigner :: "('pk, 'sk, 'sg, 'x) BtcLib_scheme \<Rightarrow> 'sk \<Rightarrow> string \<Rightarrow> 'sk result" where
  "deriveHKDFVaultCosigner lib master vaultID =
     (let prk = hmac_sha256 (str_bytes vaultCosignerHKDFSalt) (PrivSerialize lib master) in
      case hkdfScalar lib prk (vaultCosignerInfo vaultID) [0..<256] of
        None \<Rightarrow> Inl (Errorf ''hkdf-sha256-v1 produced no valid secp256k1 scalar'')
      | Some priv \<Rightarrow> Inr priv)"

definition DeriveVaultCosignerScalar ::
  "('pk, 'sk, 'sg, 'x) BtcLib_scheme \<Rightarrow> 'sk option \<Rightarrow> string \<Rightarrow> string \<Rightarrow> 'sk result" where
  "DeriveVaultCosignerScalar lib master vaultID mode =
     (case master of
        None \<Rightarrow> Inl (Errorf ''vault cosigner master required'')
      | Some master \<Rightarrow>
          if vaultID = [] then Inl (Errorf ''vault id required'')
          else if mode \<noteq> CosignerModeHKDFSHA256V1 then Inl (Errorf ''unknown cosigner mode'')
          else deriveHKDFVaultCosigner lib master vaultID)"

definition deriveVtxoHKDFVaultCosigner ::
  "('pk, 'sk, 'sg, 'x) BtcLib_scheme \<Rightarrow> 'sk \<Rightarrow> string \<Rightarrow> string \<Rightarrow> string \<Rightarrow> bytes \<Rightarrow> 'sk result" where
  "deriveVtxoHKDFVaultCosigner lib master vaultID policyVersion network advertisedServerPub =
     (let prk = hmac_sha256 (str_bytes vtxoVaultCosignerHKDFSalt) (PrivSerialize lib master) in
      case hkdfScalar lib prk (vtxoVaultCosignerInfo vaultID policyVersion network advertisedServerPub) [0..<256] of
        None \<Rightarrow> Inl (Errorf ''vtxo-hkdf-sha256-v1 produced no valid secp256k1 scalar'')
      | Some priv \<Rightarrow> Inr (evenYPrivateKey lib priv))"

definition compressedPub :: "('pk, 'sk, 'sg, 'x) BtcLib_scheme \<Rightarrow> bytes \<Rightarrow> bool" where
  "compressedPub lib pub =
     (length pub = 33 \<and> (hd pub = 0x02 \<or> hd pub = 0x03) \<and> (case ParsePubKey lib pub of Inl _ \<Rightarrow> False | Inr _ \<Rightarrow> True))"

definition DeriveVtxoVaultCosignerScalar ::
  "('pk, 'sk, 'sg, 'x) BtcLib_scheme \<Rightarrow> 'sk option \<Rightarrow> string \<Rightarrow> string \<Rightarrow> string \<Rightarrow> bytes \<Rightarrow> 'sk result" where
  "DeriveVtxoVaultCosignerScalar lib master vaultID policyVersion network advertisedServerPub =
     (case master of
        None \<Rightarrow> Inl (Errorf ''vault cosigner master required'')
      | Some master \<Rightarrow>
          if vaultID = [] then Inl (Errorf ''vault id required'')
          else if policyVersion = [] then Inl (Errorf ''policy version required'')
          else if network \<noteq> NetworkMutinynet \<and> network \<noteq> NetworkMainnet then Inl (Errorf ''unsupported network'')
          else if \<not> compressedPub lib advertisedServerPub then
            Inl (Errorf ''advertised server pub must be 33-byte compressed secp256k1'')
          else deriveVtxoHKDFVaultCosigner lib master vaultID policyVersion network advertisedServerPub)"

definition DeriveVaultBoardCosignerScalar ::
  "('pk, 'sk, 'sg, 'x) BtcLib_scheme \<Rightarrow> 'sk option \<Rightarrow> string \<Rightarrow> string \<Rightarrow> bytes \<Rightarrow> 'sk result" where
  "DeriveVaultBoardCosignerScalar lib master vaultID network operatorPub =
     (case master of
        None \<Rightarrow> Inl (Errorf ''vault cosigner master required'')
      | Some master \<Rightarrow>
          if vaultID = [] then Inl (Errorf ''vault id required'')
          else (case PinsFor network of
            Inl _ \<Rightarrow> Inl (Errorf ''vault-board-v1 is not enabled for this network'')
          | Inr _ \<Rightarrow>
              if \<not> compressedPub lib operatorPub then Inl (Errorf ''Operator pub must be compressed secp256k1'')
              else
                let prk = hmac_sha256 (str_bytes vaultBoardCosignerHKDFSalt) (PrivSerialize lib master) in
                case hkdfScalar lib prk (vaultBoardCosignerInfo vaultID network operatorPub) [0..<256] of
                  None \<Rightarrow> Inl (Errorf ''vault-board-v1 HKDF produced no valid secp256k1 scalar'')
                | Some priv \<Rightarrow> Inr (evenYPrivateKey lib priv)))"

definition VerifyVaultCosignerPub :: "('pk, 'sk, 'sg, 'x) BtcLib_scheme \<Rightarrow> 'sk option \<Rightarrow> VaultRecord \<Rightarrow> unit result" where
  "VerifyVaultCosignerPub lib master rec =
     bindR (DeriveVaultCosignerScalar lib master (vr_VaultID rec) (vr_CosignerMode rec)) (\<lambda>derived.
     if SerializeCompressed lib (PubKey lib derived) \<noteq> vr_VaultCosignerBase rec then
       Inl (Errorf ''stored vault cosigner pubkey does not match %s derivation'')
     else Inr ())"

section \<open>What separates derived keys\<close>

text \<open>The three uses of a derived key, with everything that identifies one, and the input of its HKDF.\<close>

datatype cosignerContext =
    SavingsKey string
  | VtxoKey string string bytes
  | BoardKey string string bytes

fun deriveContext :: "('pk, 'sk, 'sg, 'x) BtcLib_scheme \<Rightarrow> 'sk \<Rightarrow> cosignerContext \<Rightarrow> 'sk result" where
  "deriveContext lib master (SavingsKey v) = DeriveVaultCosignerScalar lib (Some master) v CosignerModeHKDFSHA256V1"
| "deriveContext lib master (VtxoKey v n p) = DeriveVtxoVaultCosignerScalar lib (Some master) v VaultPolicyV1 n p"
| "deriveContext lib master (BoardKey v n p) = DeriveVaultBoardCosignerScalar lib (Some master) v n p"

fun hkdfInput :: "cosignerContext \<Rightarrow> byte \<Rightarrow> string \<times> bytes" where
  "hkdfInput (SavingsKey v) c = (vaultCosignerHKDFSalt, vaultCosignerInfo v c)"
| "hkdfInput (VtxoKey v n p) c = (vtxoVaultCosignerHKDFSalt, vtxoVaultCosignerInfo v VaultPolicyV1 n p c)"
| "hkdfInput (BoardKey v n p) c = (vaultBoardCosignerHKDFSalt, vaultBoardCosignerInfo v n p c)"

fun evenContext :: "cosignerContext \<Rightarrow> bool" where
  "evenContext (SavingsKey v) = False"
| "evenContext _ = True"

definition hkdfOutput :: "('pk, 'sk, 'sg, 'x) BtcLib_scheme \<Rightarrow> 'sk \<Rightarrow> cosignerContext \<Rightarrow> byte \<Rightarrow> bytes" where
  "hkdfOutput lib master a c =
     (case hkdfInput a c of (salt, info) \<Rightarrow> hkdfBlock (hmac_sha256 (str_bytes salt) (PrivSerialize lib master)) info)"

lemma PinsFor_networks: "PinsFor n = Inr p \<Longrightarrow> n = NetworkMainnet \<or> n = NetworkMutinynet"
  by (auto simp: PinsFor_def split: if_splits)

lemma hkdfScalar_Some:
  "hkdfScalar lib prk info cs = Some priv \<Longrightarrow>
     \<exists>before c after. cs = before @ c # after \<and>
       scalarInRange lib (hkdfBlock prk (info (word_of_nat c))) \<and> PrivKeyFromBytes lib (hkdfBlock prk (info (word_of_nat c))) = Some priv \<and>
       (\<forall>e \<in> set before. \<not> scalarInRange lib (hkdfBlock prk (info (word_of_nat e))) \<or>
          PrivKeyFromBytes lib (hkdfBlock prk (info (word_of_nat e))) = None)"
proof (induction cs)
  case (Cons e cs)
  let ?okm = "hkdfBlock prk (info (word_of_nat e))"
  show ?case
  proof (cases "scalarInRange lib ?okm \<and> PrivKeyFromBytes lib ?okm \<noteq> None")
    case True
    with Cons.prems have "PrivKeyFromBytes lib ?okm = Some priv" by (auto simp: Let_def)
    with True show ?thesis by (intro exI [of _ "[]"] exI [of _ e] exI [of _ cs]) simp
  next
    case False
    with Cons.prems have "hkdfScalar lib prk info cs = Some priv" by (auto simp: Let_def split: if_splits)
    from Cons.IH [OF this] obtain before c after where s: "cs = before @ c # after"
      "scalarInRange lib (hkdfBlock prk (info (word_of_nat c)))" "PrivKeyFromBytes lib (hkdfBlock prk (info (word_of_nat c))) = Some priv"
      "\<forall>e \<in> set before. \<not> scalarInRange lib (hkdfBlock prk (info (word_of_nat e))) \<or>
        PrivKeyFromBytes lib (hkdfBlock prk (info (word_of_nat e))) = None" by blast
    with False show ?thesis by (intro exI [of _ "e # before"] exI [of _ c] exI [of _ after]) auto
  qed
qed simp

text \<open>An HKDF output the loop passes over: it is no valid scalar.\<close>

definition unusable :: "('pk, 'sk, 'sg, 'x) BtcLib_scheme \<Rightarrow> bytes \<Rightarrow> bool" where
  "unusable lib okm \<longleftrightarrow> \<not> scalarInRange lib okm \<or> PrivKeyFromBytes lib okm = None"

lemma hkdfScalar_first:
  assumes "hkdfScalar lib prk info [0..<256] = Some priv"
  obtains c :: byte where "scalarInRange lib (hkdfBlock prk (info c))" and "PrivKeyFromBytes lib (hkdfBlock prk (info c)) = Some priv"
    and "\<And>e. e < c \<Longrightarrow> unusable lib (hkdfBlock prk (info e))"
proof -
  from hkdfScalar_Some [OF assms] obtain before c after where s: "[0..<256] = before @ c # after"
    "scalarInRange lib (hkdfBlock prk (info (word_of_nat c)))" "PrivKeyFromBytes lib (hkdfBlock prk (info (word_of_nat c))) = Some priv"
    "\<forall>e \<in> set before. \<not> scalarInRange lib (hkdfBlock prk (info (word_of_nat e))) \<or>
      PrivKeyFromBytes lib (hkdfBlock prk (info (word_of_nat e))) = None" by blast
  have len: "length before < 256" using arg_cong [OF s(1), of length] by simp
  have "before = take (length before) [0..<256]" using s(1) by simp
  then have b: "before = [0..<length before]" using len by (simp add: take_upt)
  have "c = [0..<256] ! length before" unfolding s(1) by simp
  then have c: "c = length before" using len by simp
  have "unusable lib (hkdfBlock prk (info e))" if "e < word_of_nat c" for e
  proof -
    have "unat e < c" using that len by (simp add: c word_less_nat_alt unat_of_nat)
    then have "unat e \<in> set before" by (subst b) (simp add: c)
    with s(4) show ?thesis by (auto simp: unusable_def)
  qed
  with s(2,3) that show thesis by blast
qed

lemma deriveContext_Inr:
  assumes "deriveContext lib master a = Inr k"
  obtains c priv where "scalarInRange lib (hkdfOutput lib master a c)"
    and "PrivKeyFromBytes lib (hkdfOutput lib master a c) = Some priv"
    and "k = (if evenContext a then evenYPrivateKey lib priv else priv)"
    and "\<And>e. e < c \<Longrightarrow> unusable lib (hkdfOutput lib master a e)"
proof (cases a)
  case (SavingsKey v)
  with assms that show thesis
    by (auto simp: DeriveVaultCosignerScalar_def deriveHKDFVaultCosigner_def hkdfOutput_def Let_def
        elim!: hkdfScalar_first split: if_splits option.splits)
next
  case (VtxoKey v n p)
  with assms that show thesis
    by (auto simp: DeriveVtxoVaultCosignerScalar_def deriveVtxoHKDFVaultCosigner_def hkdfOutput_def Let_def
        elim!: hkdfScalar_first split: if_splits option.splits)
next
  case (BoardKey v n p)
  with assms that show thesis
    by (auto simp: DeriveVaultBoardCosignerScalar_def hkdfOutput_def Let_def
        elim!: hkdfScalar_first split: if_splits option.splits sum.splits)
qed

fun contextOk :: "cosignerContext \<Rightarrow> bool" where
  "contextOk (SavingsKey v) = True"
| "contextOk (VtxoKey v n p) = ((n = NetworkMainnet \<or> n = NetworkMutinynet) \<and> length p = 33)"
| "contextOk (BoardKey v n p) = ((n = NetworkMainnet \<or> n = NetworkMutinynet) \<and> length p = 33)"

lemma deriveContext_ok: "deriveContext lib master a = Inr k \<Longrightarrow> contextOk a"
  by (cases a) (auto simp: DeriveVtxoVaultCosignerScalar_def DeriveVaultBoardCosignerScalar_def compressedPub_def
      dest: PinsFor_networks split: if_splits sum.splits)

text \<open>The network is recognisable at the end of what precedes it, whatever the vault id contains.\<close>

lemma network_suffix:
  assumes "n = NetworkMainnet \<or> n = NetworkMutinynet" and "n' = NetworkMainnet \<or> n' = NetworkMutinynet"
    and "x @ [0] @ str_bytes n = y @ [0] @ str_bytes n'"
  shows "n = n' \<and> x = y"
proof -
  have rev: "str_bytes ''mainnet'' = [0x6d,0x61,0x69,0x6e,0x6e,0x65,0x74]"
    "str_bytes ''mutinynet'' = [0x6d,0x75,0x74,0x69,0x6e,0x79,0x6e,0x65,0x74]"
    by (simp_all add: str_bytes_def char_byte_def)
  from arg_cong [OF assms(3), of "rev"] have "rev (str_bytes n) @ [0] @ rev x = rev (str_bytes n') @ [0] @ rev y" by simp
  with assms(1,2) show ?thesis by (auto simp: rev)
qed

lemma context_tail:
  assumes "(x @ [0] @ str_bytes n) @ [0] @ p @ [0, c] = (y @ [0] @ str_bytes n') @ [0] @ p' @ [0, d]"
    and "length p = 33" and "length p' = 33"
    and "n = NetworkMainnet \<or> n = NetworkMutinynet" and "n' = NetworkMainnet \<or> n' = NetworkMutinynet"
  shows "x = y \<and> n = n' \<and> p = p' \<and> c = d"
proof -
  from assms(1-3) have "(x @ [0] @ str_bytes n) = (y @ [0] @ str_bytes n') \<and> [0] @ p @ [0, c] = [0] @ p' @ [0, d]"
    by (subst append_eq_append_conv [symmetric]) simp_all
  then have e: "x @ [0] @ str_bytes n = y @ [0] @ str_bytes n'" and "p = p' \<and> c = d" by auto
  with network_suffix [OF assms(4,5) e] show ?thesis by simp
qed

lemma hkdfInput_inject:
  assumes "contextOk a" and "contextOk b" and "hkdfInput a c = hkdfInput b d"
  shows "a = b \<and> c = d"
proof -
  have salts: "vaultCosignerHKDFSalt \<noteq> vtxoVaultCosignerHKDFSalt" "vaultCosignerHKDFSalt \<noteq> vaultBoardCosignerHKDFSalt"
    "vtxoVaultCosignerHKDFSalt \<noteq> vaultBoardCosignerHKDFSalt" by simp_all
  show ?thesis
  proof (cases a)
    case (SavingsKey v)
    with assms(3) salts show ?thesis by (cases b) (auto simp: vaultCosignerInfo_def)
  next
    case (VtxoKey v n p)
    then obtain v' n' p' where b: "b = VtxoKey v' n' p'" using assms(3) salts by (cases b) auto
    let ?pre = "\<lambda>v. str_bytes vtxoVaultCosignerHKDFInfo @ [0] @ str_bytes v @ [0] @ str_bytes VaultPolicyV1"
    have "?pre v = ?pre v' \<and> n = n' \<and> p = p' \<and> c = d"
      by (rule context_tail) (use assms in \<open>simp_all add: VtxoKey b vtxoVaultCosignerInfo_def\<close>)
    then show ?thesis by (simp add: VtxoKey b)
  next
    case (BoardKey v n p)
    then obtain v' n' p' where b: "b = BoardKey v' n' p'" using assms(3) salts by (cases b) auto
    let ?pre = "\<lambda>v. str_bytes vaultBoardCosignerHKDFInfo @ [0] @ str_bytes v @ [0] @ str_bytes VaultBoardV1"
    have "?pre v = ?pre v' \<and> n = n' \<and> p = p' \<and> c = d"
      by (rule context_tail) (use assms in \<open>simp_all add: BoardKey b vaultBoardCosignerInfo_def\<close>)
    then show ?thesis by (simp add: BoardKey b)
  qed
qed

text \<open>\<open>k\<close> is the key of context \<open>a\<close> made from its HKDF output at counter \<open>c\<close>, the first that can be used.\<close>

definition keyFrom :: "('pk, 'sk, 'sg, 'x) BtcLib_scheme \<Rightarrow> 'sk \<Rightarrow> cosignerContext \<Rightarrow> byte \<Rightarrow> 'sk \<Rightarrow> bool" where
  "keyFrom lib master a c k \<longleftrightarrow> scalarInRange lib (hkdfOutput lib master a c) \<and>
     (\<exists>priv. PrivKeyFromBytes lib (hkdfOutput lib master a c) = Some priv \<and>
        k = (if evenContext a then evenYPrivateKey lib priv else priv)) \<and>
     (\<forall>e < c. unusable lib (hkdfOutput lib master a e))"

lemma deriveContext_key:
  assumes "deriveContext lib master a = Inr k"
  obtains c where "keyFrom lib master a c k"
  using deriveContext_Inr [OF assms] unfolding keyFrom_def by metis

text \<open>The documented behaviour of \<open>btcec\<close>: a compressed key starts with its parity, and negation flips it.\<close>

definition parityLaw :: "('pk, 'sk, 'sg, 'x) BtcLib_scheme \<Rightarrow> bool" where
  "parityLaw lib \<longleftrightarrow> (\<forall>p. hd (SerializeCompressed lib (PubKey lib p)) \<in> {0x02, 0x03} \<and>
     (hd (SerializeCompressed lib (PubKey lib p)) = 0x03 \<longrightarrow>
      hd (SerializeCompressed lib (PubKey lib (PrivNegate lib p))) = 0x02))"

lemma evenYPrivateKey_even: "parityLaw lib \<Longrightarrow> hd (SerializeCompressed lib (PubKey lib (evenYPrivateKey lib p))) = 0x02"
  by (auto simp: parityLaw_def evenYPrivateKey_def)

text \<open>
  C26. Every derived key is the first HKDF output of its context that is a valid scalar, and two
  different uses never share one: the salt and the info of the extraction and expansion differ
  whenever the purpose, the vault, the network or the Operator key differ, even though the fields are
  only separated by zero bytes. The keys of Arkade scripts have an even public key.
\<close>

theorem cosigner_keys_separated:
  assumes "deriveContext lib master a = Inr k" and "deriveContext lib master b = Inr k'" and "parityLaw lib"
  shows "\<exists>c d. keyFrom lib master a c k \<and> keyFrom lib master b d k' \<and> (hkdfInput a c = hkdfInput b d \<longrightarrow> a = b) \<and>
    (evenContext a \<longrightarrow> hd (SerializeCompressed lib (PubKey lib k)) = 0x02)"
proof -
  obtain c where c: "keyFrom lib master a c k" by (rule deriveContext_key [OF assms(1)])
  obtain d where d: "keyFrom lib master b d k'" by (rule deriveContext_key [OF assms(2)])
  have "evenContext a \<longrightarrow> hd (SerializeCompressed lib (PubKey lib k)) = 0x02"
    using c evenYPrivateKey_even [OF assms(3)] by (auto simp: keyFrom_def)
  with c d hkdfInput_inject [OF deriveContext_ok [OF assms(1)] deriveContext_ok [OF assms(2)]] show ?thesis by blast
qed

theorem cosigner_keys_separated_witness:
  "\<exists>k k' c d. keyFrom (exArk []) [7] (VtxoKey ''a'' NetworkMainnet (replicate 33 2)) c k \<and>
     keyFrom (exArk []) [7] (SavingsKey ''b'') d k' \<and> hd (SerializeCompressed (exArk []) (PubKey (exArk []) k)) = 0x02"
proof -
  have r: "scalarInRange (exArk []) (hkdfBlock prk info)" for prk info
    by (simp add: scalarInRange_def exArk_def hkdfBlock_def)
  have s: "\<exists>k. hkdfScalar (exArk []) prk info [0..<256] = Some k" for prk info
    by (subst upt_conv_Cons) (simp_all add: r Let_def, simp add: exArk_def)
  have "\<exists>k. deriveContext (exArk []) [7] (VtxoKey ''a'' NetworkMainnet (replicate 33 2)) = Inr k"
    using s by (auto simp: DeriveVtxoVaultCosignerScalar_def deriveVtxoHKDFVaultCosigner_def compressedPub_def Let_def
        exArk_def split: option.splits)
  moreover have "\<exists>k. deriveContext (exArk []) [7] (SavingsKey ''b'') = Inr k"
    using s by (auto simp: DeriveVaultCosignerScalar_def deriveHKDFVaultCosigner_def Let_def split: option.splits)
  moreover have "parityLaw (exArk [])" by (simp add: parityLaw_def exArk_def)
  ultimately show ?thesis using cosigner_keys_separated [of "exArk []" "[7]"] by (metis evenContext.simps(2))
qed

end
