(* ===== verification/KeyProvider.thy ===== *)
theory KeyProvider
  imports Cosigner LedgerCore
begin

text \<open>
  \<open>internal/application/key_provider.go\<close>: the key capabilities of the service. The file-backed
  provider holds the master scalar and signs only through its named operations, each of which derives
  the key of its context, checks that it is the expected one and adds one signature per input. A
  context is read each time the code asks for its error: \<open>ctx n\<close> is the answer at the \<open>n\<close>-th stage.
\<close>

section \<open>Capabilities\<close>

record 'sk fileBackedVaultKeys =
  fk_master :: "'sk option"

text \<open>\<open>None\<close> is a nil interface; the Savings authorizer also holds the public Emulator's signer.\<close>

record 'sk KeyCapabilities =
  kc_enrollment :: "'sk fileBackedVaultKeys option"
  kc_savingsRecovery :: "('sk fileBackedVaultKeys \<times> (Packet \<Rightarrow> Packet option result)) option"
  kc_vtxoTransaction :: "'sk fileBackedVaultKeys option"
  kc_vtxoCheckpoint :: "'sk fileBackedVaultKeys option"
  kc_vaultBoard :: "'sk fileBackedVaultKeys option"
  kc_publicEmulator :: "(Packet \<Rightarrow> Packet option result) option"
  kc_lifecycle :: "'sk fileBackedVaultKeys option"

definition ValidateKeys :: "'sk KeyCapabilities \<Rightarrow> unit result" where
  "ValidateKeys k =
     (if kc_enrollment k = None then Inl (Errorf ''arkade-vault-v1 enrollment derivation required'')
      else if kc_savingsRecovery k = None then Inl (Errorf ''arkade-vault-v1 Savings recovery authorization required'')
      else if kc_vtxoTransaction k = None then Inl (Errorf ''arkade-vault-v1 VTXO transaction authorization required'')
      else if kc_vtxoCheckpoint k = None then Inl (Errorf ''arkade-vault-v1 VTXO checkpoint authorization required'')
      else if kc_vaultBoard k = None then Inl (Errorf ''vault-board-v1 authorization required'')
      else if kc_publicEmulator k = None then Inl (Errorf ''arkade-vault-v1 public Emulator operation required'')
      else if kc_lifecycle k = None then Inl (Errorf ''arkade-vault-v1 key lifecycle required'')
      else Inr ())"

definition noKeys :: "'sk KeyCapabilities" where
  "noKeys = \<lparr> kc_enrollment = None, kc_savingsRecovery = None, kc_vtxoTransaction = None, kc_vtxoCheckpoint = None,
     kc_vaultBoard = None, kc_publicEmulator = None, kc_lifecycle = None \<rparr>"


definition NewFileBackedKeyCapabilities ::
  "'sk option \<Rightarrow> (Packet \<Rightarrow> Packet option result) option \<Rightarrow> 'sk KeyCapabilities result" where
  "NewFileBackedKeyCapabilities master emulator =
     (case (master, emulator) of
        (None, _) \<Rightarrow> Inl (Errorf ''VaultCosigner IKM required'')
      | (_, None) \<Rightarrow> Inl (Errorf ''public Emulator operation required'')
      | (Some m, Some sign) \<Rightarrow>
          let keys = \<lparr> fk_master = Some m \<rparr>;
              capabilities = \<lparr> kc_enrollment = Some keys, kc_savingsRecovery = Some (keys, sign), kc_vtxoTransaction = Some keys,
                kc_vtxoCheckpoint = Some keys, kc_vaultBoard = Some keys, kc_publicEmulator = Some sign, kc_lifecycle = Some keys \<rparr>
          in bindR (ValidateKeys capabilities) (\<lambda>_. Inr capabilities))"

definition withMaster :: "'sk fileBackedVaultKeys \<Rightarrow> ('sk \<Rightarrow> 'a result) \<Rightarrow> 'a result" where
  "withMaster k fn = (case fk_master k of None \<Rightarrow> Inl (Errorf ''VaultCosigner IKM required'') | Some m \<Rightarrow> fn m)"

definition wipe :: "'sk fileBackedVaultKeys \<Rightarrow> 'sk fileBackedVaultKeys" where
  "wipe k = k\<lparr> fk_master := None \<rparr>"

text \<open>Wiping empties the capabilities and, through the lifecycle, the keys they shared.\<close>

definition WipeKeys :: "'sk KeyCapabilities \<Rightarrow> 'sk fileBackedVaultKeys option \<times> 'sk KeyCapabilities" where
  "WipeKeys k = (map_option wipe (kc_lifecycle k), noKeys)"

definition vaultCosignerPublic ::
  "('pk, 'sk, 'sg, 'x) BtcLib_scheme \<Rightarrow> 'sk fileBackedVaultKeys \<Rightarrow> string \<Rightarrow> 'pk result" where
  "vaultCosignerPublic lib k vaultID =
     (if vaultID = [] then Inl (Errorf ''tenant vault id required'')
      else withMaster k (\<lambda>m.
        bindR (DeriveVaultCosignerScalar lib (Some m) vaultID CosignerModeHKDFSHA256V1) (\<lambda>child. Inr (PubKey lib child))))"

definition enrollmentPublic :: "('pk, 'sk, 'sg, 'x) BtcLib_scheme \<Rightarrow> 'sk KeyCapabilities \<Rightarrow> string \<Rightarrow> 'pk result" where
  "enrollmentPublic lib k vaultID =
     (case kc_enrollment k of
        None \<Rightarrow> Inl (Errorf ''arkade-vault-v1 enrollment derivation required'')
      | Some keys \<Rightarrow> vaultCosignerPublic lib keys vaultID)"

section \<open>Spending\<close>

record vtxoKeyContext =
  vk_vaultID :: string
  vk_network :: string
  vk_operatorPub :: bytes
  vk_expectedXOnly :: bytes

definition newVtxoKeyContext :: "string \<Rightarrow> string \<Rightarrow> bytes \<Rightarrow> vtxoKeyContext result" where
  "newVtxoKeyContext vaultID network operatorPub =
     (if vaultID = [] \<or> network = [] \<or> length operatorPub \<noteq> 33 then Inl (Errorf ''vault-policy-v1 key context required'')
      else Inr \<lparr> vk_vaultID = vaultID, vk_network = network, vk_operatorPub = operatorPub, vk_expectedXOnly = [] \<rparr>)"

definition validateVtxoKeyContext :: "vtxoKeyContext \<Rightarrow> bool \<Rightarrow> unit result" where
  "validateVtxoKeyContext req requireExpected =
     (if vk_vaultID req = [] \<or> vk_network req = [] \<or> length (vk_operatorPub req) \<noteq> 33 then
        Inl (Errorf ''vault-policy-v1 key context required'')
      else if requireExpected \<and> length (vk_expectedXOnly req) \<noteq> 32 then
        Inl (Errorf ''vault-policy-v1 expected signer required'')
      else Inr ())"

definition deriveVtxoKey :: "('pk, 'sk, 'sg, 'x) BtcLib_scheme \<Rightarrow> 'sk \<Rightarrow> vtxoKeyContext \<Rightarrow> 'sk result" where
  "deriveVtxoKey lib master req =
     (case validateVtxoKeyContext req False of
        Inl _ \<Rightarrow> Inl (Errorf ''vault-policy-v1 key context required'')
      | Inr _ \<Rightarrow> DeriveVtxoVaultCosignerScalar lib (Some master) (vk_vaultID req) VaultPolicyV1 (vk_network req) (vk_operatorPub req))"

definition vtxoVaultCosignerPublic ::
  "('pk, 'sk, 'sg, 'x) BtcLib_scheme \<Rightarrow> 'sk fileBackedVaultKeys \<Rightarrow> vtxoKeyContext \<Rightarrow> 'pk result" where
  "vtxoVaultCosignerPublic lib k req =
     withMaster k (\<lambda>m. bindR (deriveVtxoKey lib m req) (\<lambda>priv. Inr (PubKey lib priv)))"

definition vtxoPublic :: "('pk, 'sk, 'sg, 'x) BtcLib_scheme \<Rightarrow> 'sk KeyCapabilities \<Rightarrow> vtxoKeyContext \<Rightarrow> 'pk result" where
  "vtxoPublic lib k req =
     (case kc_vtxoTransaction k of
        None \<Rightarrow> Inl (Errorf ''arkade-vault-v1 VTXO transaction authorization required'')
      | Some keys \<Rightarrow> vtxoVaultCosignerPublic lib keys req)"

record vtxoTransactionAuthorization =
  ta_key :: vtxoKeyContext
  ta_unsignedArk :: string
  ta_pendingProof :: string
  ta_spendLeaf :: bytes

definition newVtxoTransactionAuthorization ::
  "vtxoKeyContext \<Rightarrow> string \<Rightarrow> string \<Rightarrow> bytes \<Rightarrow> bytes \<Rightarrow> vtxoTransactionAuthorization result" where
  "newVtxoTransactionAuthorization key unsignedArk pendingProof spendLeaf expectedXOnly =
     (if unsignedArk = [] \<or> pendingProof = [] \<or> length spendLeaf = 0 \<or> length expectedXOnly \<noteq> 32 then
        Inl (Errorf ''vault-policy-v1 transaction authorization required'')
      else Inr \<lparr> ta_key = key\<lparr> vk_expectedXOnly := expectedXOnly \<rparr>, ta_unsignedArk = unsignedArk,
        ta_pendingProof = pendingProof, ta_spendLeaf = spendLeaf \<rparr>)"

text \<open>Deriving the key of a context for signing: it must be the one the tree commits to.\<close>

definition expectedVtxoKey :: "('pk, 'sk, 'sg, 'x) BtcLib_scheme \<Rightarrow> 'sk \<Rightarrow> vtxoKeyContext \<Rightarrow> 'sk result" where
  "expectedVtxoKey lib m key =
     bindR (deriveVtxoKey lib m key) (\<lambda>priv.
     if SerializePubKey lib (PubKey lib priv) \<noteq> vk_expectedXOnly key then Inl (Errorf ''vault-policy-v1 signer key mismatch'')
     else Inr priv)"

definition authorizeVtxoTransaction ::
  "('pk, 'sk, 'sg, 'x) BtcLib_scheme \<Rightarrow> (nat \<Rightarrow> error option) \<Rightarrow> 'sk fileBackedVaultKeys \<Rightarrow> vtxoTransactionAuthorization \<Rightarrow>
     (string \<times> string) result" where
  "authorizeVtxoTransaction lib ctx k req =
     (if ta_unsignedArk req = [] \<or> ta_pendingProof req = [] \<or> length (ta_spendLeaf req) = 0 \<or>
         validateVtxoKeyContext (ta_key req) True \<noteq> Inr () then
        Inl (Errorf ''invalid vault-policy-v1 transaction authorization'')
      else withMaster k (\<lambda>m.
        bindR (expectedVtxoKey lib m (ta_key req)) (\<lambda>priv.
        bindR (signExactArkStage lib (ctx 0) (ta_unsignedArk req) priv (vk_expectedXOnly (ta_key req)) (ta_spendLeaf req)) (\<lambda>ark.
        bindR (signExactArkStageWithSighash lib (ctx 1) (ta_pendingProof req) priv (vk_expectedXOnly (ta_key req))
          (ta_spendLeaf req) SigHashAll) (\<lambda>proof.
        Inr (ark, proof))))))"

definition authorizeTransactionWith ::
  "('pk, 'sk, 'sg, 'x) BtcLib_scheme \<Rightarrow> (nat \<Rightarrow> error option) \<Rightarrow> 'sk KeyCapabilities \<Rightarrow> vtxoTransactionAuthorization \<Rightarrow>
     (string \<times> string) result" where
  "authorizeTransactionWith lib ctx k req =
     (case kc_vtxoTransaction k of
        None \<Rightarrow> Inl (Errorf ''arkade-vault-v1 VTXO transaction authorization required'')
      | Some keys \<Rightarrow> authorizeVtxoTransaction lib ctx keys req)"

record vtxoCheckpointAuthorization =
  ca_key :: vtxoKeyContext
  ca_checkpoints :: "string list"
  ca_spendLeaf :: bytes

definition newVtxoCheckpointAuthorization ::
  "vtxoKeyContext \<Rightarrow> string list \<Rightarrow> bytes \<Rightarrow> bytes \<Rightarrow> vtxoCheckpointAuthorization result" where
  "newVtxoCheckpointAuthorization key checkpoints spendLeaf expectedXOnly =
     (if checkpoints = [] \<or> length spendLeaf = 0 \<or> length expectedXOnly \<noteq> 32 then
        Inl (Errorf ''vault-policy-v1 checkpoint authorization required'')
      else if [] \<in> set checkpoints then Inl (Errorf ''vault-policy-v1 checkpoint PSBT required'')
      else Inr \<lparr> ca_key = key\<lparr> vk_expectedXOnly := expectedXOnly \<rparr>, ca_checkpoints = checkpoints, ca_spendLeaf = spendLeaf \<rparr>)"

definition authorizeVtxoCheckpoints ::
  "('pk, 'sk, 'sg, 'x) BtcLib_scheme \<Rightarrow> (nat \<Rightarrow> error option) \<Rightarrow> 'sk fileBackedVaultKeys \<Rightarrow> vtxoCheckpointAuthorization \<Rightarrow>
     string list result" where
  "authorizeVtxoCheckpoints lib ctx k req =
     (if ca_checkpoints req = [] \<or> length (ca_spendLeaf req) = 0 \<or> validateVtxoKeyContext (ca_key req) True \<noteq> Inr () then
        Inl (Errorf ''invalid vault-policy-v1 checkpoint authorization'')
      else withMaster k (\<lambda>m.
        bindR (expectedVtxoKey lib m (ca_key req)) (\<lambda>priv.
        mapR (\<lambda>i. signExactArkStage lib (ctx i) (ca_checkpoints req ! i) priv (vk_expectedXOnly (ca_key req)) (ca_spendLeaf req))
          [0..<length (ca_checkpoints req)])))"

definition authorizeCheckpointsWith ::
  "('pk, 'sk, 'sg, 'x) BtcLib_scheme \<Rightarrow> (nat \<Rightarrow> error option) \<Rightarrow> 'sk KeyCapabilities \<Rightarrow> vtxoCheckpointAuthorization \<Rightarrow>
     string list result" where
  "authorizeCheckpointsWith lib ctx k req =
     (case kc_vtxoCheckpoint k of
        None \<Rightarrow> Inl (Errorf ''arkade-vault-v1 VTXO checkpoint authorization required'')
      | Some keys \<Rightarrow> authorizeVtxoCheckpoints lib ctx keys req)"

section \<open>Boarding\<close>

record vaultBoardKeyContext =
  bk_vaultID :: string
  bk_network :: string
  bk_operatorPub :: bytes
  bk_expectedXOnly :: bytes

definition newVaultBoardKeyContext ::
  "('pk, 'sk, 'sg, 'x) BtcLib_scheme \<Rightarrow> string \<Rightarrow> string \<Rightarrow> bytes \<Rightarrow> vaultBoardKeyContext result" where
  "newVaultBoardKeyContext lib vaultID network operatorPub =
     (if vaultID = [] \<or> length operatorPub \<noteq> 33 then Inl (Errorf ''vault-board-v1 key context required'')
      else case PinsFor network of
        Inl _ \<Rightarrow> Inl (Errorf ''vault-board-v1 key context required'')
      | Inr _ \<Rightarrow>
          (case ParsePubKey lib operatorPub of
             Inl _ \<Rightarrow> Inl (Errorf ''vault-board-v1 Operator key'')
           | Inr _ \<Rightarrow> Inr \<lparr> bk_vaultID = vaultID, bk_network = network, bk_operatorPub = operatorPub, bk_expectedXOnly = [] \<rparr>))"

definition deriveVaultBoardKey :: "('pk, 'sk, 'sg, 'x) BtcLib_scheme \<Rightarrow> 'sk \<Rightarrow> vaultBoardKeyContext \<Rightarrow> 'sk result" where
  "deriveVaultBoardKey lib master req =
     (if bk_vaultID req = [] \<or> length (bk_operatorPub req) \<noteq> 33 then Inl (Errorf ''vault-board-v1 key context required'')
      else case PinsFor (bk_network req) of
        Inl _ \<Rightarrow> Inl (Errorf ''vault-board-v1 key context required'')
      | Inr _ \<Rightarrow> DeriveVaultBoardCosignerScalar lib (Some master) (bk_vaultID req) (bk_network req) (bk_operatorPub req))"

definition vaultBoardCosignerPublic ::
  "('pk, 'sk, 'sg, 'x) BtcLib_scheme \<Rightarrow> 'sk fileBackedVaultKeys \<Rightarrow> vaultBoardKeyContext \<Rightarrow> 'pk result" where
  "vaultBoardCosignerPublic lib k req =
     withMaster k (\<lambda>m. bindR (deriveVaultBoardKey lib m req) (\<lambda>priv. Inr (PubKey lib priv)))"

definition vaultBoardPublic :: "('pk, 'sk, 'sg, 'x) BtcLib_scheme \<Rightarrow> 'sk KeyCapabilities \<Rightarrow> vaultBoardKeyContext \<Rightarrow> 'pk result" where
  "vaultBoardPublic lib k req =
     (case kc_vaultBoard k of
        None \<Rightarrow> Inl (Errorf ''vault-board-v1 authorization required'')
      | Some keys \<Rightarrow> vaultBoardCosignerPublic lib keys req)"

definition phaseSighash :: "string \<Rightarrow> u32 result" where
  "phaseSighash phase =
     (if phase = ''register'' \<or> phase = ''delete'' then Inr SigHashAll
      else if phase = ''finalize'' then Inr SigHashDefault
      else Inl (Errorf ''vault-board-v1 signature phase''))"

record vaultBoardAuthorization =
  ba_key :: vaultBoardKeyContext
  ba_psbt :: string
  ba_leaf :: bytes
  ba_inputIndexes :: "int list"
  ba_phase :: string

fun boardIndexes :: "int list \<Rightarrow> int list \<Rightarrow> unit result" where
  "boardIndexes seen [] = Inr ()"
| "boardIndexes seen (idx # rest) =
     (if idx < 0 then Inl (Errorf ''vault-board-v1 input index'')
      else if idx \<in> set seen then Inl (Errorf ''vault-board-v1 duplicate input index'')
      else boardIndexes (idx # seen) rest)"

definition newVaultBoardAuthorization ::
  "vaultBoardKeyContext \<Rightarrow> string \<Rightarrow> bytes \<Rightarrow> bytes \<Rightarrow> int list \<Rightarrow> string \<Rightarrow> vaultBoardAuthorization result" where
  "newVaultBoardAuthorization key encoded leaf expectedXOnly inputIndexes phase =
     (if encoded = [] \<or> length leaf = 0 \<or> length expectedXOnly \<noteq> 32 \<or> length inputIndexes = 0 then
        Inl (Errorf ''vault-board-v1 authorization required'')
      else
        bindR (phaseSighash phase) (\<lambda>_.
        bindR (boardIndexes [] inputIndexes) (\<lambda>_.
        Inr \<lparr> ba_key = key\<lparr> bk_expectedXOnly := expectedXOnly \<rparr>, ba_psbt = encoded, ba_leaf = leaf,
          ba_inputIndexes = inputIndexes, ba_phase = phase \<rparr>)))"

definition authorizeVaultBoard ::
  "('pk, 'sk, 'sg, 'x) BtcLib_scheme \<Rightarrow> error option \<Rightarrow> 'sk fileBackedVaultKeys \<Rightarrow> vaultBoardAuthorization \<Rightarrow> string result" where
  "authorizeVaultBoard lib ctxErr k req =
     (if ba_psbt req = [] \<or> length (ba_leaf req) = 0 \<or> length (ba_inputIndexes req) = 0 \<or>
         length (bk_expectedXOnly (ba_key req)) \<noteq> 32 then
        Inl (Errorf ''invalid vault-board-v1 authorization'')
      else withMaster k (\<lambda>m.
        bindR (deriveVaultBoardKey lib m (ba_key req)) (\<lambda>priv.
        if SerializePubKey lib (PubKey lib priv) \<noteq> bk_expectedXOnly (ba_key req) then
          Inl (Errorf ''vault-board-v1 signer key mismatch'')
        else
          bindR (phaseSighash (ba_phase req)) (\<lambda>sighash.
          signExactVaultBoardStage lib ctxErr (ba_psbt req) priv (bk_expectedXOnly (ba_key req)) (ba_leaf req)
            (ba_inputIndexes req) sighash))))"

section \<open>Recovery of Savings\<close>

record savingsRecoveryAuthorization =
  sr_record :: VaultRecord
  sr_unsignedPSBT :: string
  sr_vaultExpectedXOnly :: bytes
  sr_arkadeExpectedXOnly :: bytes

definition newSavingsRecoveryAuthorization ::
  "VaultRecord option \<Rightarrow> string \<Rightarrow> bytes \<Rightarrow> bytes \<Rightarrow> savingsRecoveryAuthorization result" where
  "newSavingsRecoveryAuthorization record' unsignedPSBT vaultExpectedXOnly arkadeExpectedXOnly =
     (case record' of
        None \<Rightarrow> Inl (Errorf ''vault cosigner mode is not supported'')
      | Some rec \<Rightarrow>
          if vr_VaultID rec = [] \<or> vr_CosignerMode rec \<noteq> CosignerModeHKDFSHA256V1 then
            Inl (Errorf ''vault cosigner mode is not supported'')
          else if unsignedPSBT = [] then Inl (Errorf ''Savings recovery PSBT required'')
          else if length vaultExpectedXOnly \<noteq> 32 \<or> length arkadeExpectedXOnly \<noteq> 32 then
            Inl (Errorf ''Savings recovery signer keys required'')
          else Inr \<lparr> sr_record = rec, sr_unsignedPSBT = unsignedPSBT, sr_vaultExpectedXOnly = vaultExpectedXOnly,
            sr_arkadeExpectedXOnly = arkadeExpectedXOnly \<rparr>)"

definition authorizeSavingsRecoveryStage ::
  "('pk, 'sk, 'sg) ArkLib \<Rightarrow> (Packet \<Rightarrow> Packet option result) \<Rightarrow> string \<Rightarrow> bytes \<Rightarrow> string result" where
  "authorizeSavingsRecoveryStage lib sign vaultSignedPSBT expectedXOnly =
     (if vaultSignedPSBT = [] \<or> length expectedXOnly \<noteq> 32 then Inl (Errorf ''ArkadeCosigner signer required'')
      else signExactStage lib vaultSignedPSBT sign expectedXOnly ''ArkadeCosigner'')"

text \<open>\<open>localSign\<close> is the \<open>Sign\<close> method of the in-process \<open>LocalSigner\<close> holding a key.\<close>

definition authorizeSavingsRecovery ::
  "('pk, 'sk, 'sg) ArkLib \<Rightarrow> ('sk \<Rightarrow> Packet \<Rightarrow> Packet option result) \<Rightarrow> 'sk fileBackedVaultKeys \<Rightarrow>
     (Packet \<Rightarrow> Packet option result) \<Rightarrow> savingsRecoveryAuthorization \<Rightarrow> string result" where
  "authorizeSavingsRecovery lib localSign keys emulator req =
     (if vr_VaultID (sr_record req) = [] \<or> vr_CosignerMode (sr_record req) \<noteq> CosignerModeHKDFSHA256V1 \<or> sr_unsignedPSBT req = [] \<or>
         length (sr_vaultExpectedXOnly req) \<noteq> 32 \<or> length (sr_arkadeExpectedXOnly req) \<noteq> 32 then
        Inl (Errorf ''invalid Savings recovery authorization'')
      else
        bindR (withMaster keys (\<lambda>m.
          bindR (VerifyVaultCosignerPub lib (Some m) (sr_record req)) (\<lambda>_.
          bindR (DeriveVaultCosignerScalar lib (Some m) (vr_VaultID (sr_record req)) (vr_CosignerMode (sr_record req))) (\<lambda>child.
          signExactStage lib (sr_unsignedPSBT req) (localSign child) (sr_vaultExpectedXOnly req) ''VaultCosigner'')))) (\<lambda>vaultStage.
        authorizeSavingsRecoveryStage lib emulator vaultStage (sr_arkadeExpectedXOnly req)))"

definition savingsRecoveryWith ::
  "('pk, 'sk, 'sg) ArkLib \<Rightarrow> ('sk \<Rightarrow> Packet \<Rightarrow> Packet option result) \<Rightarrow> 'sk KeyCapabilities \<Rightarrow> savingsRecoveryAuthorization \<Rightarrow> string result" where
  "savingsRecoveryWith lib localSign k req =
     (case kc_savingsRecovery k of
        None \<Rightarrow> Inl (Errorf ''both VaultCosigner and ArkadeCosigner signers are required'')
      | Some (keys, emulator) \<Rightarrow> authorizeSavingsRecovery lib localSign keys emulator req)"

section \<open>What the key capabilities release\<close>

lemma withMaster_Inr: "withMaster k fn = Inr r \<longleftrightarrow> (\<exists>m. fk_master k = Some m \<and> fn m = Inr r)"
  by (auto simp: withMaster_def split: option.splits)

lemma expectedVtxoKey_Inr:
  "expectedVtxoKey lib m key = Inr priv \<longleftrightarrow> deriveVtxoKey lib m key = Inr priv \<and>
     SerializePubKey lib (PubKey lib priv) = vk_expectedXOnly key"
  by (auto simp: expectedVtxoKey_def res_simps split: if_splits)

lemma deriveVtxoKey_Inr:
  "deriveVtxoKey lib m key = Inr priv \<Longrightarrow> deriveContext lib m (VtxoKey (vk_vaultID key) (vk_network key) (vk_operatorPub key)) = Inr priv"
  by (simp add: deriveVtxoKey_def split: sum.splits)

lemma deriveVaultBoardKey_Inr:
  "deriveVaultBoardKey lib m key = Inr priv \<Longrightarrow> deriveContext lib m (BoardKey (bk_vaultID key) (bk_network key) (bk_operatorPub key)) = Inr priv"
  by (simp add: deriveVaultBoardKey_def split: sum.splits if_splits)

text \<open>The key a request expects is the one derived for its own vault, network and Operator.\<close>

definition holdsKey :: "('pk, 'sk, 'sg, 'x) BtcLib_scheme \<Rightarrow> 'sk fileBackedVaultKeys \<Rightarrow> cosignerContext \<Rightarrow> bytes \<Rightarrow> bool" where
  "holdsKey lib keys a x \<longleftrightarrow> (\<exists>m priv. fk_master keys = Some m \<and> deriveContext lib m a = Inr priv \<and>
     SerializePubKey lib (PubKey lib priv) = x)"

lemma holdsKey_vtxo:
  assumes "fk_master keys = Some m" and "expectedVtxoKey lib m key = Inr priv"
  shows "holdsKey lib keys (VtxoKey (vk_vaultID key) (vk_network key) (vk_operatorPub key)) (vk_expectedXOnly key)"
proof -
  from assms(2) have "deriveVtxoKey lib m key = Inr priv" and x: "SerializePubKey lib (PubKey lib priv) = vk_expectedXOnly key"
    by (simp_all add: expectedVtxoKey_Inr)
  note deriveVtxoKey_Inr [OF this(1)]
  with assms(1) x show ?thesis unfolding holdsKey_def by (intro exI [of _ m] exI [of _ priv] conjI)
qed

lemma authorizeVtxoTransaction_Inr:
  assumes "authorizeVtxoTransaction lib ctx keys req = Inr (ark, proof)" and codec: "codec lib"
  shows "holdsKey lib keys (VtxoKey (vk_vaultID (ta_key req)) (vk_network (ta_key req)) (vk_operatorPub (ta_key req)))
      (vk_expectedXOnly (ta_key req)) \<and>
    signedStage lib (ta_unsignedArk req) (vk_expectedXOnly (ta_key req)) (ta_spendLeaf req) SigHashDefault ark \<and>
    signedStage lib (ta_pendingProof req) (vk_expectedXOnly (ta_key req)) (ta_spendLeaf req) SigHashAll proof"
proof -
  from assms(1) obtain m priv where "fk_master keys = Some m" and "expectedVtxoKey lib m (ta_key req) = Inr priv"
    and a: "signExactArkStage lib (ctx 0) (ta_unsignedArk req) priv (vk_expectedXOnly (ta_key req)) (ta_spendLeaf req) = Inr ark"
    and p: "signExactArkStageWithSighash lib (ctx 1) (ta_pendingProof req) priv (vk_expectedXOnly (ta_key req))
      (ta_spendLeaf req) SigHashAll = Inr proof"
    unfolding authorizeVtxoTransaction_def by (auto simp: withMaster_Inr res_simps split: if_splits)
  then show ?thesis
    using signExactArkStage_signed [OF a [unfolded signExactArkStage_def] codec] signExactArkStage_signed [OF p codec]
    by (intro conjI holdsKey_vtxo)
qed

lemma authorizeVtxoCheckpoints_Inr:
  assumes "authorizeVtxoCheckpoints lib ctx keys req = Inr outs" and codec: "codec lib"
  shows "holdsKey lib keys (VtxoKey (vk_vaultID (ca_key req)) (vk_network (ca_key req)) (vk_operatorPub (ca_key req)))
      (vk_expectedXOnly (ca_key req)) \<and>
    list_all2 (\<lambda>cp out. signedStage lib cp (vk_expectedXOnly (ca_key req)) (ca_spendLeaf req) SigHashDefault out)
      (ca_checkpoints req) outs"
proof -
  from assms(1) obtain m priv where m: "fk_master keys = Some m" and e: "expectedVtxoKey lib m (ca_key req) = Inr priv"
    and s: "mapR (\<lambda>i. signExactArkStage lib (ctx i) (ca_checkpoints req ! i) priv (vk_expectedXOnly (ca_key req)) (ca_spendLeaf req))
          [0..<length (ca_checkpoints req)] = Inr outs"
    unfolding authorizeVtxoCheckpoints_def by (auto simp: withMaster_Inr res_simps split: if_splits)
  have "signedStage lib (ca_checkpoints req ! i) (vk_expectedXOnly (ca_key req)) (ca_spendLeaf req) SigHashDefault (outs ! i)"
    if "i < length (ca_checkpoints req)" for i
    using mapR_nth [OF s, of i] that signExactArkStage_signed [OF _ codec] by (simp add: signExactArkStage_def)
  with mapR_length [OF s] have "list_all2 (\<lambda>cp out. signedStage lib cp (vk_expectedXOnly (ca_key req)) (ca_spendLeaf req) SigHashDefault out)
      (ca_checkpoints req) outs" by (simp add: list_all2_conv_all_nth)
  with m e show ?thesis by (intro conjI holdsKey_vtxo)
qed

text \<open>
  C11. The key capabilities sign nothing but what they are asked to. A spend authorization answers
  with the two packets of the request, each with exactly one signature more on every input: a
  signature that verifies on the packet as it was submitted, for the spend leaf the input commits to,
  made by the key derived for the vault, network and Operator of the request. Nothing else of either
  packet differs.
\<close>

theorem spend_authorization_exact:
  assumes "authorizeTransactionWith lib ctx k req = Inr (ark, proof)" and "codec lib"
  shows "\<exists>keys. kc_vtxoTransaction k = Some keys \<and>
    holdsKey lib keys (VtxoKey (vk_vaultID (ta_key req)) (vk_network (ta_key req)) (vk_operatorPub (ta_key req)))
      (vk_expectedXOnly (ta_key req)) \<and>
    signedStage lib (ta_unsignedArk req) (vk_expectedXOnly (ta_key req)) (ta_spendLeaf req) SigHashDefault ark \<and>
    signedStage lib (ta_pendingProof req) (vk_expectedXOnly (ta_key req)) (ta_spendLeaf req) SigHashAll proof"
  using assms authorizeVtxoTransaction_Inr [OF _ assms(2)]
  by (auto simp: authorizeTransactionWith_def split: option.splits)

definition exPIn :: "u32 \<Rightarrow> TaprootScriptSpendSig option list \<Rightarrow> PInput" where
  "exPIn sh sigs = \<lparr> pi_WitnessUtxo = Some \<lparr> to_Value = 7, to_PkScript = [9] \<rparr>, pi_SighashType = sh,
     pi_TaprootLeafScript = [Some \<lparr> tl_ControlBlock = [3], tl_Script = [1], tl_LeafVersion = 0xc0 \<rparr>],
     pi_TaprootScriptSpendSig = sigs, pi_rest = [] \<rparr>"

definition exPacket :: "u32 \<Rightarrow> TaprootScriptSpendSig option list \<Rightarrow> Packet" where
  "exPacket sh sigs = \<lparr> pk_UnsignedTx = Some \<lparr> tx_Version = 3,
       tx_TxIn = [\<lparr> ti_PreviousOutPoint = \<lparr> op_Hash = [], op_Index = 0 \<rparr>, ti_Sequence = 0xffffffff \<rparr>], tx_TxOut = [], tx_LockTime = 0 \<rparr>,
     pk_Inputs = [exPIn sh sigs], pk_Outputs = [], pk_Unknowns = [], pk_rest = [] \<rparr>"

definition exSig :: "byte \<Rightarrow> u32 \<Rightarrow> TaprootScriptSpendSig option" where
  "exSig who sh = Some \<lparr> ts_XOnlyPubKey = replicate 32 who, ts_LeafHash = [1], ts_Signature = replicate 64 0, ts_SigHash = sh \<rparr>"

definition exPackets :: "(string \<times> Packet) list" where
  "exPackets = [(''A'', exPacket 0 []), (''B'', exPacket 1 []), (''C'', exPacket 0 [exSig 5 0]), (''D'', exPacket 1 [exSig 5 1]),
     (''E'', exPacket 0 [exSig 5 0, exSig 6 0])]"

definition exLib :: "(bytes, bytes, bytes) ArkLib" where
  "exLib = exArk exPackets"

lemma exLib_codec: "codec exLib"
  unfolding exLib_def exPackets_def by (rule codec_exArk) simp

lemma exPacket_inject [simp]: "exPacket a s = exPacket b t \<longleftrightarrow> a = b \<and> s = t"
  by (auto simp: exPacket_def exPIn_def)

lemma exSig_inject [simp]: "exSig a s = exSig b t \<longleftrightarrow> a = b \<and> s = t"
  by (auto simp: exSig_def simp flip: replicate_Suc)

definition exKeys :: "bytes fileBackedVaultKeys" where
  "exKeys = \<lparr> fk_master = Some [7] \<rparr>"

lemma exLib_hkdf: "hkdfScalar exLib prk info [0..<256] = Some (replicate 32 5)"
proof -
  have "scalarInRange exLib (hkdfBlock prk info)" for prk info
    by (simp add: scalarInRange_def exLib_def exArk_def hkdfBlock_def)
  then show ?thesis by (subst upt_conv_Cons) (simp_all add: Let_def, simp add: exLib_def exArk_def)
qed

definition exContext :: vtxoKeyContext where
  "exContext = \<lparr> vk_vaultID = ''v'', vk_network = NetworkMainnet, vk_operatorPub = replicate 33 2, vk_expectedXOnly = replicate 32 5 \<rparr>"

lemma exLib_key: "deriveVtxoKey exLib [7] exContext = Inr (replicate 32 5)"
  by (simp add: deriveVtxoKey_def validateVtxoKeyContext_def exContext_def DeriveVtxoVaultCosignerScalar_def compressedPub_def
      deriveVtxoHKDFVaultCosigner_def exLib_hkdf evenYPrivateKey_def, simp add: exLib_def exArk_def)

lemma exLib_clone: "(name, p) \<in> set exPackets \<Longrightarrow> clonePacket exLib p = Inr p"
  by (auto simp: exPackets_def clonePacket_def exLib_def res_simps)

lemma exLib_parse: "(name, exPacket sh sigs) \<in> set exPackets \<Longrightarrow> parsePSBT exLib name = Inr (exPacket sh sigs)"
  by (auto simp: parsePSBT_def exPackets_def exLib_def res_simps) (auto simp: exPacket_def)

lemma exLib_sign:
  "signArkInput exLib (exPacket sh sigs) (exPacket sh sigs) (replicate 32 5) (replicate 32 5) [1] sh 0 = Inr (the (exSig 5 sh))"
  by (simp add: signArkInput_def signTapLeafAtWithSighash_def verifySchnorrOnInputWithSighash_def res_simps exPacket_def exPIn_def
      exLib_def exArk_def exSig_def theTx_def)

lemma exLib_stage:
  assumes "(name, exPacket sh sigs) \<in> set exPackets" and "B64Encode exLib (exPacket sh (sigs @ [exSig 5 sh])) = Inr out"
  shows "signExactArkStageWithSighash exLib None name (replicate 32 5) (replicate 32 5) [1] sh = Inr out"
proof -
  have one: "pk_Inputs (exPacket sh sigs) = [exPIn sh sigs]" "tx_TxIn (theTx (exPacket sh sigs)) \<noteq> []"
    by (simp_all add: exPacket_def theTx_def)
  have add: "(exPacket sh sigs)\<lparr> pk_Inputs := [addSig (the (exSig 5 sh)) (exPIn sh sigs)] \<rparr> = exPacket sh (sigs @ [exSig 5 sh])"
    by (simp add: exPacket_def exPIn_def addSig_def exSig_def)
  have "SerializePubKey exLib (PubKey exLib (replicate 32 5)) = replicate 32 5" by (simp add: exLib_def exArk_def)
  then show ?thesis
    unfolding signExactArkStageWithSighash_def
    by (simp add: exLib_parse [OF assms(1)] exLib_clone [OF assms(1)] one exLib_sign add assms(2) res_simps)
qed

theorem spend_authorization_exact_witness:
  "authorizeTransactionWith exLib (\<lambda>_. None) (noKeys\<lparr> kc_vtxoTransaction := Some exKeys \<rparr>)
       \<lparr> ta_key = exContext, ta_unsignedArk = ''A'', ta_pendingProof = ''B'', ta_spendLeaf = [1] \<rparr> = Inr (''C'', ''D'') \<and>
   signedStage exLib ''A'' (replicate 32 5) [1] SigHashDefault ''C'' \<and> signedStage exLib ''B'' (replicate 32 5) [1] SigHashAll ''D''"
proof -
  have k: "expectedVtxoKey exLib [7] exContext = Inr (replicate 32 5)"
    by (simp add: expectedVtxoKey_Inr exLib_key, simp add: exContext_def exLib_def exArk_def)
  have "signExactArkStageWithSighash exLib None ''A'' (replicate 32 5) (replicate 32 5) [1] SigHashDefault = Inr ''C''"
    "signExactArkStageWithSighash exLib None ''B'' (replicate 32 5) (replicate 32 5) [1] SigHashAll = Inr ''D''"
    by (rule exLib_stage; simp add: exPackets_def exLib_def)+
  then have a: "authorizeTransactionWith exLib (\<lambda>_. None) (noKeys\<lparr> kc_vtxoTransaction := Some exKeys \<rparr>)
       \<lparr> ta_key = exContext, ta_unsignedArk = ''A'', ta_pendingProof = ''B'', ta_spendLeaf = [1] \<rparr> = Inr (''C'', ''D'')"
    using k by (simp add: authorizeTransactionWith_def authorizeVtxoTransaction_def validateVtxoKeyContext_def withMaster_def
        exKeys_def res_simps signExactArkStage_def exContext_def)
  show ?thesis using spend_authorization_exact [OF a exLib_codec] a by (simp add: exContext_def)
qed

text \<open>
  C25. A boarding authorization signs the listed inputs of the given packet and no others. Each of them
  gains exactly one signature, under the sighash of the phase, made by the boarding key of the vault,
  network and Operator of the request, and it verifies on the submitted packet for the collaborative
  leaf. The other inputs and the rest of the packet stay as they were.
\<close>

theorem board_authorization_exact:
  assumes "authorizeVaultBoard lib ctxErr keys req = Inr out" and "codec lib"
  shows "holdsKey lib keys (BoardKey (bk_vaultID (ba_key req)) (bk_network (ba_key req)) (bk_operatorPub (ba_key req)))
      (bk_expectedXOnly (ba_key req)) \<and>
    (\<exists>sh. phaseSighash (ba_phase req) = Inr sh \<and>
      signedBoardStage lib (ba_psbt req) (bk_expectedXOnly (ba_key req)) (ba_leaf req) (ba_inputIndexes req) sh out)"
proof -
  from assms(1) obtain m priv sh where m: "fk_master keys = Some m" and d: "deriveVaultBoardKey lib m (ba_key req) = Inr priv"
    and x: "SerializePubKey lib (PubKey lib priv) = bk_expectedXOnly (ba_key req)" and sh: "phaseSighash (ba_phase req) = Inr sh"
    and s: "signExactVaultBoardStage lib ctxErr (ba_psbt req) priv (bk_expectedXOnly (ba_key req)) (ba_leaf req)
      (ba_inputIndexes req) sh = Inr out"
    unfolding authorizeVaultBoard_def by (auto simp: withMaster_Inr res_simps split: if_splits)
  have "holdsKey lib keys (BoardKey (bk_vaultID (ba_key req)) (bk_network (ba_key req)) (bk_operatorPub (ba_key req)))
      (bk_expectedXOnly (ba_key req))"
    unfolding holdsKey_def using m deriveVaultBoardKey_Inr [OF d] x by (intro exI [of _ m] exI [of _ priv] conjI)
  with sh signExactVaultBoardStage_signed [OF s assms(2)] show ?thesis by blast
qed

definition exBoard :: vaultBoardAuthorization where
  "exBoard = \<lparr> ba_key = \<lparr> bk_vaultID = ''v'', bk_network = NetworkMainnet, bk_operatorPub = replicate 33 2, bk_expectedXOnly = replicate 32 5 \<rparr>,
     ba_psbt = ''A'', ba_leaf = [1], ba_inputIndexes = [0], ba_phase = ''finalize'' \<rparr>"

theorem board_authorization_exact_witness:
  "authorizeVaultBoard exLib None exKeys exBoard = Inr ''C'' \<and>
   signedBoardStage exLib ''A'' (replicate 32 5) [1] [0] SigHashDefault ''C''"
proof -
  have pins: "\<exists>p. PinsFor NetworkMainnet = Inr p" by (simp add: PinsFor_def)
  have k: "deriveVaultBoardKey exLib [7] (ba_key exBoard) = Inr (replicate 32 5)"
    using pins by (auto simp: deriveVaultBoardKey_def exBoard_def DeriveVaultBoardCosignerScalar_def compressedPub_def
        exLib_hkdf evenYPrivateKey_def) (simp_all add: exLib_def exArk_def)
  have x: "SerializePubKey exLib (PubKey exLib (replicate 32 5)) = replicate 32 5" by (simp add: exLib_def exArk_def)
  have A: "(''A'', exPacket 0 []) \<in> set exPackets" by (simp add: exPackets_def)
  have one: "pk_Inputs (exPacket 0 []) = [exPIn 0 []]" "tx_TxIn (theTx (exPacket 0 [])) \<noteq> []"
    by (simp_all add: exPacket_def theTx_def)
  have s: "signBoardInput exLib (exPacket 0 []) (exPacket 0 []) (replicate 32 5) (replicate 32 5) [1] 0 0 = Inr (the (exSig 5 0))"
    by (simp add: signBoardInput_def signTapLeafAtWithSighash_def verifySchnorrOnInputWithSighash_def res_simps exPacket_def exPIn_def
        exLib_def exArk_def exSig_def theTx_def)
  have add: "(exPacket 0 [])\<lparr> pk_Inputs := [addSig (the (exSig 5 0)) (exPIn 0 [])] \<rparr> = exPacket 0 [exSig 5 0]"
    by (simp add: exPacket_def exPIn_def addSig_def exSig_def)
  have enc: "B64Encode exLib (exPacket 0 [exSig 5 0]) = Inr ''C''" by (simp add: exPackets_def exLib_def)
  have "signExactVaultBoardStage exLib None ''A'' (replicate 32 5) (replicate 32 5) [1] [0] SigHashDefault = Inr ''C''"
    unfolding signExactVaultBoardStage_def
    by (simp add: x exLib_parse [OF A] exLib_clone [OF A] one s add enc res_simps)
  then have a: "authorizeVaultBoard exLib None exKeys exBoard = Inr ''C''"
    using k x by (simp add: authorizeVaultBoard_def exBoard_def exKeys_def withMaster_def phaseSighash_def res_simps)
  show ?thesis using board_authorization_exact [OF a exLib_codec] a by (simp add: exBoard_def phaseSighash_def)
qed

section \<open>Signers outside the process\<close>

lemma parseAndVerifyPrevout_Inr:
  "parseAndVerifyPrevout lib raw = Inr (p, prev) \<longleftrightarrow> NewFromRawBytes lib raw = Inr p \<and> RequireVerifiedPrevout lib p = Inr prev"
  by (auto simp: parseAndVerifyPrevout_def res_simps)

lemma verify_same:
  assumes "q\<lparr> pk_Inputs := [] \<rparr> = p\<lparr> pk_Inputs := [] \<rparr>" and "pk_Inputs p = [a]" and "pk_Inputs q = [b]"
    and "pi_WitnessUtxo b = pi_WitnessUtxo a"
  shows "VerifySchnorrOnSubmittedTx lib q sig x leaf = VerifySchnorrOnSubmittedTx lib p sig x leaf"
proof -
  have u: "pk_UnsignedTx q = pk_UnsignedTx p" using assms(1) by (cases p; cases q) simp
  then have t: "theTx q = theTx p" by (simp add: theTx_def)
  show ?thesis unfolding VerifySchnorrOnSubmittedTx_def u t by (simp add: assms(2-4))
qed

lemma oneSigMore_fields:
  "oneSigMore a sig b \<Longrightarrow> pi_WitnessUtxo b = pi_WitnessUtxo a \<and> pi_TaprootLeafScript b = pi_TaprootLeafScript a"
  by (cases a; cases b) (simp add: oneSigMore_def)

definition signerSignature ::
  "('pk, 'sk, 'sg, 'x) BtcLib_scheme \<Rightarrow> Packet \<Rightarrow> bytes \<Rightarrow> bytes \<Rightarrow> TaprootScriptSpendSig \<Rightarrow> bool" where
  "signerSignature lib p leaf x sig \<longleftrightarrow> ts_XOnlyPubKey sig = x \<and> ts_LeafHash sig = TapHash lib leaf \<and> ts_SigHash sig = SigHashDefault \<and>
     VerifySchnorrOnSubmittedTx lib p (ts_Signature sig) x leaf = Inr ()"

lemma authorizeSavingsRecovery_Inr:
  assumes "authorizeSavingsRecovery lib localSign keys emulator req = Inr out"
  obtains m child middle where "fk_master keys = Some m" and "VerifyVaultCosignerPub lib (Some m) (sr_record req) = Inr ()"
    and "signExactStage lib (sr_unsignedPSBT req) (localSign child) (sr_vaultExpectedXOnly req) ''VaultCosigner'' = Inr middle"
    and "signExactStage lib middle emulator (sr_arkadeExpectedXOnly req) ''ArkadeCosigner'' = Inr out"
  using assms unfolding authorizeSavingsRecovery_def authorizeSavingsRecoveryStage_def
  by (auto simp: withMaster_Inr res_simps split: if_splits)

text \<open>
  C12. A signer can change nothing but its own signature. Whatever the in-process signer and the
  remote Emulator return, a recovery that is released is the submitted packet with exactly two more
  signatures on its one input: one of the vault's key and one of the Emulator's, both for the leaf the
  input commits to and both valid on the submitted transaction, whose spent output was checked
  against the previous transaction.
\<close>

theorem recovery_signers_confined:
  assumes "savingsRecoveryWith lib localSign k req = Inr out" and codec: "codec lib"
  shows "\<exists>p q a b l s t. NewFromRawBytes lib (sr_unsignedPSBT req) = Inr p \<and> (\<exists>prev. RequireVerifiedPrevout lib p = Inr prev) \<and>
    NewFromRawBytes lib out = Inr q \<and> q\<lparr> pk_Inputs := [] \<rparr> = p\<lparr> pk_Inputs := [] \<rparr> \<and> pk_Inputs p = [a] \<and> pk_Inputs q = [b] \<and>
    b\<lparr> pi_TaprootScriptSpendSig := [] \<rparr> = a\<lparr> pi_TaprootScriptSpendSig := [] \<rparr> \<and>
    mset (pi_TaprootScriptSpendSig b) = {# Some s, Some t #} + mset (pi_TaprootScriptSpendSig a) \<and>
    pi_TaprootLeafScript a = [Some l] \<and> signerSignature lib p (tl_Script l) (sr_vaultExpectedXOnly req) s \<and>
    signerSignature lib p (tl_Script l) (sr_arkadeExpectedXOnly req) t"
proof -
  from assms(1) obtain keys emulator where "authorizeSavingsRecovery lib localSign keys emulator req = Inr out"
    by (auto simp: savingsRecoveryWith_def split: option.splits)
  then obtain child middle
    where s1: "signExactStage lib (sr_unsignedPSBT req) (localSign child) (sr_vaultExpectedXOnly req) ''VaultCosigner'' = Inr middle"
    and s2: "signExactStage lib middle emulator (sr_arkadeExpectedXOnly req) ''ArkadeCosigner'' = Inr out"
    by (rule authorizeSavingsRecovery_Inr)
  from s1 codec obtain p r s a c l prev where p: "NewFromRawBytes lib (sr_unsignedPSBT req) = Inr p"
    "RequireVerifiedPrevout lib p = Inr prev" and r: "NewFromRawBytes lib middle = Inr r"
    and same: "r\<lparr> pk_Inputs := [] \<rparr> = p\<lparr> pk_Inputs := [] \<rparr>" and a: "pk_Inputs p = [a]" and c: "pk_Inputs r = [c]"
    and m: "oneSigMore a s c" and l: "pi_TaprootLeafScript a = [Some l]"
    and s: "signerSigOk lib p (sr_vaultExpectedXOnly req) (tl_Script l) (Some s)"
    by (rule signExactStage_Inr)
  from s2 codec obtain r' q t c' b l' prev' where r': "NewFromRawBytes lib middle = Inr r'"
    and q: "NewFromRawBytes lib out = Inr q" and same': "q\<lparr> pk_Inputs := [] \<rparr> = r'\<lparr> pk_Inputs := [] \<rparr>"
    and c': "pk_Inputs r' = [c']" and b: "pk_Inputs q = [b]" and m': "oneSigMore c' t b"
    and l': "pi_TaprootLeafScript c' = [Some l']" and t: "signerSigOk lib r' (sr_arkadeExpectedXOnly req) (tl_Script l') (Some t)"
    by (rule signExactStage_Inr)
  have eq: "r' = r" "c' = c" "l' = l" using r r' c c' l l' oneSigMore_fields [OF m] by auto
  have "signerSignature lib p (tl_Script l) (sr_arkadeExpectedXOnly req) t"
    using t verify_same [OF same a c conjunct1 [OF oneSigMore_fields [OF m]], of lib] by (simp add: eq signerSigOk_def signerSignature_def)
  moreover have "signerSignature lib p (tl_Script l) (sr_vaultExpectedXOnly req) s"
    using s by (simp add: signerSigOk_def signerSignature_def)
  moreover have "b\<lparr> pi_TaprootScriptSpendSig := [] \<rparr> = a\<lparr> pi_TaprootScriptSpendSig := [] \<rparr>"
    "mset (pi_TaprootScriptSpendSig b) = {# Some s, Some t #} + mset (pi_TaprootScriptSpendSig a)"
    using m m' by (simp_all add: eq oneSigMore_def)
  ultimately show ?thesis using p q same same' a b l by (simp add: eq) blast
qed

text \<open>The Emulator of the example also returns a signature of another key and another order.\<close>

definition exRecovery :: savingsRecoveryAuthorization where
  "exRecovery = \<lparr> sr_record = exVault\<lparr> vr_VaultCosignerBase := 0x02 # replicate 32 5 \<rparr>, sr_unsignedPSBT = ''A'',
     sr_vaultExpectedXOnly = replicate 32 5, sr_arkadeExpectedXOnly = replicate 32 6 \<rparr>"

definition exLocal :: "bytes \<Rightarrow> Packet \<Rightarrow> Packet option result" where
  "exLocal _ _ = Inr (Some (exPacket 0 [exSig 5 0]))"

definition exEmulator :: "Packet \<Rightarrow> Packet option result" where
  "exEmulator _ = Inr (Some (exPacket 0 [exSig 6 0, exSig 8 0, exSig 5 0]))"

lemma exLib_prevout: "\<exists>prev. RequireVerifiedPrevout exLib (exPacket sh sigs) = Inr prev"
  by (simp add: RequireVerifiedPrevout_def exPacket_def exPIn_def theTx_def exLib_def exArk_def res_simps)

lemma exLib_signer: "signerSigOk exLib (exPacket sh sigs) (replicate 32 x) [1] (exSig y 0) \<longleftrightarrow> x = y"
  by (auto simp: signerSigOk_def exSig_def VerifySchnorrOnSubmittedTx_def exPacket_def exPIn_def theTx_def exLib_def exArk_def
      res_simps simp flip: replicate_Suc)

lemma exLib_extract:
  assumes "filter (\<lambda>s. signerSigOk exLib (exPacket sh sigs) x [1] s) (extraSigs sigs [] sigs') = [Some found]" and "length x = 32"
  shows "extractVerifiedSignerSig exLib (exPacket sh sigs) (Some (exPacket sh' sigs')) x = Inr found"
proof -
  have "pk_UnsignedTx (exPacket s t) \<noteq> None" "pk_Inputs (exPacket s t) = [exPIn s t]" "length (tx_TxIn (theTx (exPacket s t))) = 1"
    for s t by (simp_all add: exPacket_def theTx_def)
  moreover have "pi_WitnessUtxo (exPIn sh sigs) = Some \<lparr> to_Value = 7, to_PkScript = [9] \<rparr>"
    "pi_TaprootLeafScript (exPIn sh sigs) = [Some \<lparr> tl_ControlBlock = [3], tl_Script = [1], tl_LeafVersion = 0xc0 \<rparr>]"
    "pi_TaprootScriptSpendSig (exPIn s sigs') = sigs'" "pi_TaprootScriptSpendSig (exPIn sh sigs) = sigs" for s
    by (simp_all add: exPIn_def)
  ultimately show ?thesis using assms unfolding extractVerifiedSignerSig_def Let_def by simp
qed

lemma exLib_foreign:
  assumes "(name, exPacket 0 sigs) \<in> set exPackets" and "sign (exPacket 0 sigs) = Inr (Some (exPacket sh' sigs'))"
    and "filter (\<lambda>s. signerSigOk exLib (exPacket 0 sigs) (replicate 32 x) [1] s) (extraSigs sigs [] sigs') = [exSig x 0]"
    and "B64Encode exLib (exPacket 0 (sigs @ [exSig x 0])) = Inr out"
  shows "signExactStage exLib name sign (replicate 32 x) role = Inr out"
proof -
  have n: "NewFromRawBytes exLib name = Inr (exPacket 0 sigs)" using assms(1) by (auto simp: exPackets_def exLib_def)
  obtain prev where prev: "RequireVerifiedPrevout exLib (exPacket 0 sigs) = Inr prev" using exLib_prevout by blast
  have f: "exSig x 0 = Some (the (exSig x 0))" by (simp add: exSig_def)
  have e: "extractVerifiedSignerSig exLib (exPacket 0 sigs) (Some (exPacket sh' sigs')) (replicate 32 x) = Inr (the (exSig x 0))"
    by (rule exLib_extract) (use assms(3) f in simp_all)
  have i: "pk_Inputs (exPacket 0 sigs) = [exPIn 0 sigs]" by (simp add: exPacket_def)
  have add: "(exPacket 0 sigs)\<lparr> pk_Inputs := [addSig (the (exSig x 0)) (exPIn 0 sigs)] \<rparr> = exPacket 0 (sigs @ [exSig x 0])"
    by (simp add: exPacket_def exPIn_def addSig_def exSig_def)
  show ?thesis
    unfolding signExactStage_def parseAndVerifyPrevout_def
    by (simp add: n prev exLib_clone [OF assms(1)] assms(2) e i add assms(4) res_simps)
qed

lemma exLib_index:
  "indexOriginalSig [] (exSig b t) = None"
  "indexOriginalSig (exSig a s # before) (exSig b t) = (if a = b \<and> s = t then Some 0 else map_option Suc (indexOriginalSig before (exSig b t)))"
  unfolding exSig_inject [symmetric] by (simp_all add: exSig_def)

theorem recovery_signers_confined_witness:
  "savingsRecoveryWith exLib exLocal (noKeys\<lparr> kc_savingsRecovery := Some (exKeys, exEmulator) \<rparr>) exRecovery = Inr ''E'' \<and>
   (\<exists>s t. signerSignature exLib (exPacket 0 []) [1] (replicate 32 5) s \<and> signerSignature exLib (exPacket 0 []) [1] (replicate 32 6) t)"
proof -
  have k: "DeriveVaultCosignerScalar exLib (Some [7]) (vr_VaultID (sr_record exRecovery)) CosignerModeHKDFSHA256V1 = Inr (replicate 32 5)"
    by (simp add: DeriveVaultCosignerScalar_def exRecovery_def exVault_def deriveHKDFVaultCosigner_def exLib_hkdf)
  then have v: "VerifyVaultCosignerPub exLib (Some [7]) (sr_record exRecovery) = Inr ()"
    by (simp add: VerifyVaultCosignerPub_def exRecovery_def exVault_def res_simps, simp add: exLib_def exArk_def)
  have s1: "signExactStage exLib ''A'' (exLocal c) (replicate 32 5) role = Inr ''C''" for c role
    by (rule exLib_foreign [where sigs = "[]" and sigs' = "[exSig 5 0]" and sh' = 0])
      (simp_all add: exLib_signer exLib_index exLocal_def, simp_all add: exPackets_def exLib_def)
  have s2: "signExactStage exLib ''C'' exEmulator (replicate 32 6) role = Inr ''E''" for role
    by (rule exLib_foreign [where sigs = "[exSig 5 0]" and sigs' = "[exSig 6 0, exSig 8 0, exSig 5 0]" and sh' = 0])
      (simp_all add: exEmulator_def exLib_signer exLib_index, simp_all add: exPackets_def exLib_def)
  have a: "savingsRecoveryWith exLib exLocal (noKeys\<lparr> kc_savingsRecovery := Some (exKeys, exEmulator) \<rparr>) exRecovery = Inr ''E''"
    using k v s1 s2 by (simp add: savingsRecoveryWith_def authorizeSavingsRecovery_def authorizeSavingsRecoveryStage_def
        withMaster_def exKeys_def exRecovery_def exVault_def res_simps)
  have "NewFromRawBytes exLib ''A'' = Inr (exPacket 0 [])" by (simp add: exLib_def exPackets_def)
  with recovery_signers_confined [OF a exLib_codec] a show ?thesis
    by (auto simp: exRecovery_def exPacket_def exPIn_def)
qed

end
