(* ===== verification/ContractPack.thy ===== *)
theory ContractPack
  imports WebAuthn Program AppError
begin

text \<open>
  \<open>internal/contractpack/pack.go\<close> and \<open>internal/application/contract_pack.go\<close>: the pack of named
  programs embedded in the binary, its pinned digest, and the checks of its \<open>vault-policy-v1\<close> entry.
  The two embedded files are an argument.
\<close>

record embeddedPacks =
  ep_JSON :: bytes
  ep_mainnetJSON :: bytes

abbreviation PackSHA256 :: string where
  "PackSHA256 \<equiv> ''3a30b9819a071d6bcec4d5ae5a27a0bae20a1e3445293998a60402525ba44526''"
abbreviation MainnetSHA256 :: string where
  "MainnetSHA256 \<equiv> ''7d78c79aaebf4b85e1996fb8e7ad119dd37aae610bdf6ac794a4304a71abfcd3''"

definition JSONFor :: "embeddedPacks \<Rightarrow> string \<Rightarrow> bytes result" where
  "JSONFor packs network =
     (if network = ''mutinynet'' then Inr (ep_JSON packs)
      else if network = ''mainnet'' then Inr (ep_mainnetJSON packs)
      else Inl (Errorf ''unsupported network %q''))"

definition DigestFor :: "string \<Rightarrow> string result" where
  "DigestFor network =
     (if network = ''mutinynet'' then Inr PackSHA256
      else if network = ''mainnet'' then Inr MainnetSHA256
      else Inl (Errorf ''unsupported network %q''))"

definition ValidateBytesFor :: "string \<Rightarrow> bytes \<Rightarrow> unit result" where
  "ValidateBytesFor network raw =
     (if length raw = 0 then Inl (Errorf ''contract pack is missing'')
      else bindR (DigestFor network) (\<lambda>want.
        if hex_encode (sha256 raw) \<noteq> want then Inl (Errorf ''contract pack digest does not match the release pin'') else Inr ()))"

definition ValidateFor :: "embeddedPacks \<Rightarrow> string \<Rightarrow> unit result" where
  "ValidateFor packs network = bindR (JSONFor packs network) (ValidateBytesFor network)"

section \<open>Decoding\<close>

text \<open>The field of a struct that a key of an object names, and the string fields after all members.\<close>

definition structField :: "string list \<Rightarrow> string \<Rightarrow> string option" where
  "structField names key =
     (case find (\<lambda>n. n = key) names of
        Some n \<Rightarrow> Some n
      | None \<Rightarrow> find (\<lambda>n. foldName n = foldName key) names)"

fun setStrings :: "string list \<Rightarrow> (string \<Rightarrow> string) \<Rightarrow> (string \<times> json) list \<Rightarrow> (string \<Rightarrow> string) result" where
  "setStrings names cur [] = Inr cur"
| "setStrings names cur ((key, v) # kvs) =
     (case structField names key of
        None \<Rightarrow> setStrings names cur kvs
      | Some n \<Rightarrow> bindR (jsonText v (cur n)) (\<lambda>s. setStrings names (cur(n := s)) kvs))"

definition unmarshalStrings :: "string list \<Rightarrow> json \<Rightarrow> (string \<Rightarrow> string) result" where
  "unmarshalStrings names v =
     (case jsonMembers v of
        None \<Rightarrow> Inl (Errorf ''json: cannot unmarshal value into Go struct'')
      | Some kvs \<Rightarrow> setStrings names (\<lambda>_. []) kvs)"

text \<open>The field \<open>programs\<close>: a later object extends the map an earlier one made.\<close>

fun setPrograms :: "(string \<times> json) list \<Rightarrow> (string \<times> json) list \<Rightarrow> (string \<times> json) list result" where
  "setPrograms cur [] = Inr cur"
| "setPrograms cur ((key, v) # kvs) =
     (case structField [''programs''] key of
        None \<Rightarrow> setPrograms cur kvs
      | Some _ \<Rightarrow>
          (case v of
             JNull \<Rightarrow> setPrograms [] kvs
           | JObject ms \<Rightarrow> setPrograms (cur @ ms) kvs
           | _ \<Rightarrow> Inl (Errorf ''json: cannot unmarshal value into Go value of type map'')))"

definition unmarshalPrograms :: "bytes \<Rightarrow> (string \<times> json) list result" where
  "unmarshalPrograms raw =
     bindR (parse_json raw) (\<lambda>v.
     case jsonMembers v of
       None \<Rightarrow> Inl (Errorf ''json: cannot unmarshal value into Go struct'')
     | Some kvs \<Rightarrow> setPrograms [] kvs)"

section \<open>The policy program\<close>

abbreviation DelegateCapability :: string where "DelegateCapability \<equiv> ''multi-presigned-signature''"

text \<open>One sub-object of the program with two string fields.\<close>

definition packPart :: "string \<Rightarrow> string list \<Rightarrow> (string \<times> json) list \<Rightarrow> (string \<Rightarrow> string) result" where
  "packPart key names obj =
     (case member key obj of
        None \<Rightarrow> Inl (Errorf (''vault-policy-v1 has no '' @ key))
      | Some v \<Rightarrow>
          (case unmarshalStrings names v of
             Inl _ \<Rightarrow> Inl (Errorf (''vault-policy-v1 '' @ key))
           | Inr part \<Rightarrow> Inr part))"

definition validateVaultPolicyV1PackFor :: "string \<Rightarrow> bytes \<Rightarrow> unit result" where
  "validateVaultPolicyV1PackFor network raw =
     bindR (PinsFor network) (\<lambda>pins.
     case unmarshalPrograms raw of
       Inl _ \<Rightarrow> Inl (Errorf ''contract pack'')
     | Inr programs \<Rightarrow>
         (case member VaultPolicyV1 programs of
            None \<Rightarrow> Inl (Errorf ''vault-policy-v1 missing from pack'')
          | Some listed \<Rightarrow>
              (case jsonMembers listed of
                 None \<Rightarrow> Inl (Errorf ''vault-policy-v1 pack'')
               | Some obj \<Rightarrow>
                   if member ''tunnel'' obj \<noteq> None then Inl (Errorf ''vault-policy-v1 must not declare tunnel'')
                   else
                     bindR (packPart ''exit'' [''delay'', ''delayUnit''] obj) (\<lambda>exit.
                     if exit ''delay'' \<noteq> dec_encode (unat (np_PolicyExitDelay pins)) \<or> exit ''delayUnit'' \<noteq> ExitDelayUnit then
                       Inl (Errorf ''vault-policy-v1 exit delay must be %d seconds'')
                     else
                       bindR (packPart ''delegate'' [''pinnedPublicDelegate'', ''capability''] obj) (\<lambda>delegate.
                       if delegate ''pinnedPublicDelegate'' \<noteq> np_DelegatePub pins then Inl (Errorf ''vault-policy-v1 pinned delegate'')
                       else if delegate ''capability'' \<noteq> DelegateCapability then
                         Inl (Errorf ''vault-policy-v1 delegate capability'')
                       else Inr ())))))"

definition validateReleaseContractPackFor :: "string \<Rightarrow> bytes \<Rightarrow> unit result" where
  "validateReleaseContractPackFor network raw =
     bindR (ValidateBytesFor network raw) (\<lambda>_. validateVaultPolicyV1PackFor network raw)"

definition liveContractPackJSONFor :: "embeddedPacks \<Rightarrow> string \<Rightarrow> bytes result" where
  "liveContractPackJSONFor packs network =
     bindR (JSONFor packs network) (\<lambda>raw.
     bindR (validateReleaseContractPackFor network raw) (\<lambda>_. Inr raw))"

end
