(* ===== verification/VaultPolicy.thy ===== *)
theory VaultPolicy
  imports KeyProvider VtxoVerify
begin

text \<open>
  \<open>internal/policy/vtxo_script.go\<close>: the script tree of \<open>vault-policy-v1\<close>, three leaves of which two
  need the phone, the server and the Operator and one is the exit of the guardians. The script and
  taproot encodings are those of the packages.
\<close>

record VaultPolicyV1Params =
  pp_UserPub :: bytes
  pp_VtxoVaultCosignerPub :: bytes
  pp_ArkdServerPub :: bytes
  pp_DelegatePub :: bytes
  pp_ExitDevicePub :: bytes
  pp_ExitHardwarePub :: bytes
  pp_ExitRecoveryPub :: bytes
  pp_Network :: string

record VaultPolicyV1Tree =
  pt_SpendScript :: bytes
  pt_ExitScript :: bytes
  pt_DelegateScript :: bytes
  pt_SpendControlBlock :: bytes
  pt_DelegateControlBlock :: bytes
  pt_RevealedScripts :: "string list"
  pt_TapKey :: bytes
  pt_PkScript :: bytes

definition parsePolicyPub :: "('pk, 'sk, 'sg, 'x) BtcLib_scheme \<Rightarrow> bytes \<Rightarrow> string \<Rightarrow> 'pk result" where
  "parsePolicyPub lib raw name =
     (if length raw = 32 then wrapR name (XOnlyParsePubKey lib raw)
      else if length raw = 33 then wrapR name (ParsePubKey lib raw)
      else Inl (Errorf (name @ '' must be 32-byte x-only or 33-byte compressed'')))"

text \<open>An empty network selects the Mutinynet pins.\<close>

definition productNetwork :: "string \<Rightarrow> string" where
  "productNetwork network = (if network = [] then NetworkMutinynet else network)"

definition PinnedDelegateXOnlyFor :: "('pk, 'sk, 'sg, 'x) BtcLib_scheme \<Rightarrow> string \<Rightarrow> bytes result" where
  "PinnedDelegateXOnlyFor lib network =
     bindR (PinsFor (productNetwork network)) (\<lambda>pins.
     case hex_decode (np_DelegatePub pins) of
       None \<Rightarrow> Inl (Errorf ''pinned public delegate'')
     | Some raw \<Rightarrow>
         if length raw \<noteq> 33 then Inl (Errorf ''pinned public delegate'')
         else bindR (wrapR ''pinned public delegate'' (ParsePubKey lib raw)) (\<lambda>pub. Inr (SerializePubKey lib pub)))"

text \<open>The three closures: spending, the exit and the delegate's forfeit.\<close>

definition policyExitPubs :: "('pk, 'sk, 'sg, 'x) BtcLib_scheme \<Rightarrow> VaultPolicyV1Params \<Rightarrow> 'pk \<Rightarrow> 'pk \<Rightarrow> 'pk option list result" where
  "policyExitPubs lib p device hardware =
     (if length (pp_ExitRecoveryPub p) > 0 then
        bindR (parsePolicyPub lib (pp_ExitRecoveryPub p) ''exitRecoveryPub'') (\<lambda>recovery. Inr [Some hardware, Some recovery])
      else Inr [Some device, Some hardware])"

definition encodePolicyTree :: "('pk, 'sk, 'sg) ArkLib \<Rightarrow> 'pk Closure \<Rightarrow> 'pk Closure \<Rightarrow> 'pk Closure \<Rightarrow> VaultPolicyV1Tree result" where
  "encodePolicyTree lib spend exit del =
     (let tree = [spend, exit, del] in
      if length (ExitClosures lib tree) \<noteq> 1 then Inl (Errorf ''vault-policy-v1 requires exactly one guardian exit, got %d'')
      else
        bindR (TapTree lib tree) (\<lambda>(tapKey, proof).
        bindR (P2TRScript lib tapKey) (\<lambda>pkScript.
        bindR (ClosureScript lib spend) (\<lambda>spendScript.
        bindR (ClosureScript lib exit) (\<lambda>exitScript.
        bindR (ClosureScript lib del) (\<lambda>delegateScript.
        bindR (proof (TapHash lib spendScript)) (\<lambda>spendProof.
        bindR (proof (TapHash lib delegateScript)) (\<lambda>delProof.
        bindR (EncodeClosures lib tree) (\<lambda>revealed.
        Inr \<lparr> pt_SpendScript = spendScript, pt_ExitScript = exitScript, pt_DelegateScript = delegateScript,
          pt_SpendControlBlock = spendProof, pt_DelegateControlBlock = delProof, pt_RevealedScripts = revealed,
          pt_TapKey = SerializePubKey lib tapKey, pt_PkScript = pkScript \<rparr>)))))))))"

definition BuildVaultPolicyV1Tree :: "('pk, 'sk, 'sg) ArkLib \<Rightarrow> VaultPolicyV1Params \<Rightarrow> VaultPolicyV1Tree result" where
  "BuildVaultPolicyV1Tree lib p =
     (let network = productNetwork (pp_Network p) in
      bindR (PinsFor network) (\<lambda>pins.
      bindR (ValidateVaultPolicyV1ExitDelayFor network (np_PolicyExitDelay pins) ExitDelayUnit) (\<lambda>_.
      bindR (parsePolicyPub lib (pp_UserPub p) ''userPub'') (\<lambda>user.
      bindR (parsePolicyPub lib (pp_VtxoVaultCosignerPub p) ''vtxoVaultCosignerPub'') (\<lambda>vtxoVault.
      bindR (parsePolicyPub lib (pp_ArkdServerPub p) ''arkdServerPub'') (\<lambda>arkd.
      bindR (parsePolicyPub lib (pp_DelegatePub p) ''delegatePub'') (\<lambda>delegate.
      bindR (parsePolicyPub lib (pp_ExitDevicePub p) ''exitDevicePub'') (\<lambda>device.
      bindR (parsePolicyPub lib (pp_ExitHardwarePub p) ''exitHardwarePub'') (\<lambda>hardware.
      bindR (policyExitPubs lib p device hardware) (\<lambda>exitPubs.
      bindR (PinnedDelegateXOnlyFor lib network) (\<lambda>wantDelegate.
      if SerializePubKey lib delegate \<noteq> wantDelegate then Inl (Errorf ''delegatePub must be the pinned public delegate'')
      else
        encodePolicyTree lib (MultisigClosure [Some user, Some vtxoVault, Some arkd])
          (CSVMultisigClosure exitPubs (np_PolicyExitDelay pins))
          (MultisigClosure [Some user, Some vtxoVault, Some delegate, Some arkd]))))))))))))"

text \<open>
  Every closure but the exit needs the phone, the server's key and the Operator together, and the
  exit is locked for the pinned delay.
\<close>

lemma BuildVaultPolicyV1Tree_Inr:
  assumes "BuildVaultPolicyV1Tree lib p = Inr t"
  obtains pins user vtxoVault arkd delegate exitPubs where "PinsFor (productNetwork (pp_Network p)) = Inr pins"
    and "parsePolicyPub lib (pp_UserPub p) ''userPub'' = Inr user"
    and "parsePolicyPub lib (pp_VtxoVaultCosignerPub p) ''vtxoVaultCosignerPub'' = Inr vtxoVault"
    and "parsePolicyPub lib (pp_ArkdServerPub p) ''arkdServerPub'' = Inr arkd"
    and "PinnedDelegateXOnlyFor lib (productNetwork (pp_Network p)) = Inr (SerializePubKey lib delegate)"
    and "ClosureScript lib (MultisigClosure [Some user, Some vtxoVault, Some arkd]) = Inr (pt_SpendScript t)"
    and "ClosureScript lib (CSVMultisigClosure exitPubs (np_PolicyExitDelay pins)) = Inr (pt_ExitScript t)"
    and "ClosureScript lib (MultisigClosure [Some user, Some vtxoVault, Some delegate, Some arkd]) = Inr (pt_DelegateScript t)"
  using assms unfolding BuildVaultPolicyV1Tree_def encodePolicyTree_def Let_def
  by (auto simp: res_simps)

end
