(* ===== verification/Service.thy ===== *)
theory Service
  imports ContractPack VaultPolicy TenantLedger VtxoLedger
begin

text \<open>
  The service of \<open>internal/application/service.go\<close>: its configuration, the published index of
  enrolled vaults, and the checks that do not touch the ledger. The policy tree of a vault is built as
  in \<open>vtxo_tree.go\<close>. What the service asks of the pinned indexer is a record of its answers.
\<close>

section \<open>State\<close>

record Config =
  cf_ClientOrigin :: string
  cf_RPID :: string
  cf_Network :: string

record 'pk vaultBoardSnapshot =
  bs_BoardingPub :: "'pk option"
  bs_CosignerPub :: "'pk option"
  bs_OperatorPub :: "'pk option"
  bs_PkScript :: bytes
  bs_Address :: string

record 'pk savingsSnapshot =
  ss_Address :: string
  ss_PkScript :: bytes
  ss_ExternalOwnerWallet :: "'pk option"
  ss_RecoveryKey :: "'pk option"
  ss_VaultCosignerBase :: "'pk option"
  ss_ArkadeCosignerBase :: "'pk option"

record 'pk enrolledSnapshot =
  es_VaultID :: string
  es_CredentialID :: bytes
  es_PhoneBIP340 :: "'pk option"
  es_ExternalOwnerWallet :: "'pk option"
  es_RecoveryKey :: "'pk option"
  es_VaultCosignerBase :: "'pk option"
  es_ArkadeCosignerBase :: "'pk option"
  es_Savings :: "'pk savingsSnapshot option"
  es_Board :: "'pk vaultBoardSnapshot option"

definition noSnapshot :: "'pk enrolledSnapshot" where
  "noSnapshot = \<lparr> es_VaultID = [], es_CredentialID = [], es_PhoneBIP340 = None, es_ExternalOwnerWallet = None,
     es_RecoveryKey = None, es_VaultCosignerBase = None, es_ArkadeCosignerBase = None, es_Savings = None, es_Board = None \<rparr>"

record 'pk publishedIndex =
  ix_byVault :: "string \<rightharpoonup> 'pk enrolledSnapshot"
  ix_byCred :: "string \<rightharpoonup> string"

datatype SubmittedVtxoState = SubmittedVtxoPending | SubmittedVtxoFinalized | SubmittedVtxoConflict | UnknownVtxoState

record ArkResolver =
  ar_SpendableVtxos :: "bytes \<Rightarrow> ResolvedVtxo list result"
  ar_IntentFeePolicy :: "IntentFeePolicy result"
  ar_SubmittedVtxoState :: "bytes \<Rightarrow> ResolvedVtxo list \<Rightarrow> string \<Rightarrow> u32 option \<Rightarrow> u64 \<Rightarrow> SubmittedVtxoState result"
  ar_CheckpointTapscript :: bytes
  ar_OperatorSignerPub :: bytes

text \<open>The resolver is absent when the interface is nil.\<close>

record ('pk, 'sk) Service =
  sv_Deployment :: Config
  sv_CredentialIntegrityKey :: bytes
  sv_keys :: "'sk KeyCapabilities"
  sv_MaxConcurrentVerifications :: int
  sv_MaxConcurrentFeeSelections :: int
  sv_ArkResolver :: "ArkResolver option"
  sv_contractPackJSON :: bytes
  sv_vaultPolicyHasExit :: "bool option"
  sv_published :: "'pk publishedIndex option"

section \<open>The published index\<close>

definition publishEnrollmentAt ::
  "('pk, 'sk) Service \<Rightarrow> string \<Rightarrow> bytes \<Rightarrow> 'pk option \<Rightarrow> 'pk savingsSnapshot option \<Rightarrow> 'pk vaultBoardSnapshot option \<Rightarrow>
     ('pk, 'sk) Service" where
  "publishEnrollmentAt s vaultID credID phone sv board =
     (let snap = noSnapshot\<lparr> es_VaultID := vaultID, es_CredentialID := credID, es_PhoneBIP340 := phone, es_Savings := sv,
            es_Board := board \<rparr>;
          snap = (case sv of None \<Rightarrow> snap
            | Some v \<Rightarrow> snap\<lparr> es_ExternalOwnerWallet := ss_ExternalOwnerWallet v, es_RecoveryKey := ss_RecoveryKey v,
                es_VaultCosignerBase := ss_VaultCosignerBase v, es_ArkadeCosignerBase := ss_ArkadeCosignerBase v \<rparr>);
          prev = (case sv_published s of None \<Rightarrow> \<lparr> ix_byVault = Map.empty, ix_byCred = Map.empty \<rparr> | Some p \<Rightarrow> p)
      in s\<lparr> sv_published := Some \<lparr> ix_byVault = (ix_byVault prev)(vaultID \<mapsto> snap),
           ix_byCred = (if length credID > 0 then (ix_byCred prev)(hex_encode credID \<mapsto> vaultID) else ix_byCred prev) \<rparr> \<rparr>)"

definition snapshot :: "('pk, 'sk) Service \<Rightarrow> string \<Rightarrow> 'pk enrolledSnapshot" where
  "snapshot s vaultID =
     (case sv_published s of
        None \<Rightarrow> noSnapshot
      | Some ix \<Rightarrow> (case ix_byVault ix vaultID of Some snap \<Rightarrow> snap | None \<Rightarrow> noSnapshot))"

definition rejectCrossVaultCredential :: "('pk, 'sk) Service \<Rightarrow> string \<Rightarrow> bytes \<Rightarrow> unit result" where
  "rejectCrossVaultCredential s vaultID credID =
     (case sv_published s of
        None \<Rightarrow> Inr ()
      | Some ix \<Rightarrow>
          if length credID = 0 then Inr ()
          else (case ix_byCred ix (hex_encode credID) of
            Some mapped \<Rightarrow> if mapped \<noteq> vaultID then Inl (Errorf ''credential does not belong to this vault'') else Inr ()
          | None \<Rightarrow> Inr ()))"

section \<open>Configuration\<close>

definition credentialIntegrityKey :: "('pk, 'sk) Service \<Rightarrow> bytes result" where
  "credentialIntegrityKey s =
     (if length (sv_CredentialIntegrityKey s) = 32 then Inr (sv_CredentialIntegrityKey s)
      else if length (sv_CredentialIntegrityKey s) \<noteq> 0 then Inl (Errorf ''credential integrity key must be 32 bytes'')
      else Inl (Errorf ''credential integrity key is required''))"

definition WipeSecrets :: "('pk, 'sk) Service \<Rightarrow> ('pk, 'sk) Service" where
  "WipeSecrets s = s\<lparr> sv_CredentialIntegrityKey := [], sv_keys := snd (WipeKeys (sv_keys s)) \<rparr>"

definition requireVaultPolicyV1Exit :: "embeddedPacks \<Rightarrow> ('pk, 'sk) Service \<Rightarrow> unit result" where
  "requireVaultPolicyV1Exit packs s =
     (case sv_vaultPolicyHasExit s of
        Some hasExit \<Rightarrow> if \<not> hasExit then rejected ''vault-policy-v1 has no exit'' else Inr ()
      | None \<Rightarrow>
          (let network = productNetwork (cf_Network (sv_Deployment s)) in
           bindR (if length (sv_contractPackJSON s) > 0 then Inr (sv_contractPackJSON s)
             else rejectWith (liveContractPackJSONFor packs network)) (\<lambda>raw.
           rejectWith (validateVaultPolicyV1PackFor network raw))))"

definition routeVaultID :: "string \<Rightarrow> string result" where
  "routeVaultID vaultID = (let id = trim_space vaultID in if id = [] then Inl ErrVaultIDRequired else Inr id)"

definition periodAllowanceSats :: "VaultRecord option \<Rightarrow> Credential option \<Rightarrow> i64" where
  "periodAllowanceSats rec cred =
     (case rec of
        Some r \<Rightarrow>
          if sint (vr_PeriodAllowanceSats r) > 0 then vr_PeriodAllowanceSats r
          else (case cred of
            Some c \<Rightarrow> if sint (cr_PeriodAllowanceSats c) > 0 then cr_PeriodAllowanceSats c else PeriodAllowanceSats
          | None \<Rightarrow> PeriodAllowanceSats)
      | None \<Rightarrow>
          (case cred of
            Some c \<Rightarrow> if sint (cr_PeriodAllowanceSats c) > 0 then cr_PeriodAllowanceSats c else PeriodAllowanceSats
          | None \<Rightarrow> PeriodAllowanceSats))"

definition mapLedgerBusy :: "error \<Rightarrow> error" where
  "mapLedgerBusy e =
     (if errorIs e ErrRecoveryBusy then ErrBusy
      else if errorIs e ErrPeriodAllowanceExceeded then AppErr CodeRejected ''period allowance exceeded''
      else if errorIs e ErrVtxoOperationActive then AppErr CodeRejected (errorText ErrVtxoOperationActive)
      else e)"

definition mapMissingVtxo :: "error \<Rightarrow> error" where
  "mapMissingVtxo e = (if errorIs e ErrNoRows then ErrNotFound else e)"

section \<open>Assertions and direct signatures\<close>

definition decodeHex :: "string \<Rightarrow> bytes result" where
  "decodeHex s =
     (if s = [] then Inl (Errorf ''empty'')
      else case hex_decode s of None \<Rightarrow> Inl (Wrapf ''hex'' (Errorf ''encoding/hex'')) | Some b \<Rightarrow> Inr b)"

record WebAuthnAssertionRequest =
  wr_CredentialID :: string
  wr_ClientDataJSON :: string
  wr_AuthenticatorData :: string
  wr_Signature :: string

definition decodeAssertion :: "WebAuthnAssertionRequest \<Rightarrow> Assertion result" where
  "decodeAssertion req =
     bindR (decodeHex (wr_CredentialID req)) (\<lambda>id.
     bindR (decodeHex (wr_ClientDataJSON req)) (\<lambda>cd.
     bindR (decodeHex (wr_AuthenticatorData req)) (\<lambda>ad.
     bindR (decodeHex (wr_Signature req)) (\<lambda>sig.
     Inr \<lparr> as_CredentialID = id, as_ClientDataJSON = cd, as_AuthenticatorData = ad, as_DERSignature = sig \<rparr>))))"

definition rejectPRF :: "bytes \<Rightarrow> unit result" where
  "rejectPRF clientDataJSON =
     (if ContainsPRFField clientDataJSON then Inl (Errorf ''prf material rejected'') else Inr ())"

definition verifyDirectAuth :: "bytes \<Rightarrow> bytes \<Rightarrow> bytes \<Rightarrow> unit result" where
  "verifyDirectAuth directPub digest directSig =
     bindR (wrapR ''direct p256'' (ParseCompressedP256 directPub)) (\<lambda>pub.
     wrapR ''direct auth'' (VerifyDigestLowS (Some pub) digest directSig))"

abbreviation defaultConcurrentVerifications :: int where "defaultConcurrentVerifications \<equiv> 4"

definition acquireVerification :: "int \<Rightarrow> nat \<Rightarrow> error option \<Rightarrow> unit result" where
  "acquireVerification limit busy ctxErr =
     acquireSlot limit defaultConcurrentVerifications (Errorf ''crypto verification capacity exhausted'') busy ctxErr"

section \<open>The policy tree of a vault\<close>

definition operatorSignerPub :: "('pk, 'sk) Service \<Rightarrow> bytes" where
  "operatorSignerPub s = (case sv_ArkResolver s of None \<Rightarrow> [] | Some r \<Rightarrow> ar_OperatorSignerPub r)"

definition requireArkResolver :: "('pk, 'sk) Service \<Rightarrow> ArkResolver result" where
  "requireArkResolver s = (case sv_ArkResolver s of None \<Rightarrow> rejected ''ark indexer unavailable'' | Some r \<Rightarrow> Inr r)"

definition vtxoKeyContextFor :: "('pk, 'sk) Service \<Rightarrow> string \<Rightarrow> vtxoKeyContext result" where
  "vtxoKeyContextFor s vaultID = newVtxoKeyContext vaultID (cf_Network (sv_Deployment s)) (operatorSignerPub s)"

definition vtxoAddrHRP :: "('pk, 'sk, 'sg) ArkLib \<Rightarrow> ('pk, 'sk) Service \<Rightarrow> string" where
  "vtxoAddrHRP lib s = (if cf_Network (sv_Deployment s) = NetworkMainnet then BitcoinAddr lib else BitcoinMutinyNetAddr lib)"

definition mustDecodeCompressed :: "string \<Rightarrow> bytes" where
  "mustDecodeCompressed hex33 =
     (case hex_decode hex33 of None \<Rightarrow> [] | Some raw \<Rightarrow> if length raw \<noteq> 33 then [] else raw)"

text \<open>The chain parameters of a network are named by it.\<close>

definition vtxoNetworkParams :: "string \<Rightarrow> string result" where
  "vtxoNetworkParams name =
     (if name = NetworkMutinynet \<or> name = NetworkMainnet then Inr name else Inl (Errorf ''unsupported network %q''))"

text \<open>An error is replaced by one of the caller's own.\<close>

definition failAs :: "string \<Rightarrow> 'a result \<Rightarrow> 'a result" where
  "failAs msg m = (case m of Inl _ \<Rightarrow> Inl (Errorf msg) | Inr x \<Rightarrow> Inr x)"

lemma failAs_eq_Inr [res_simps]: "failAs msg m = Inr x \<longleftrightarrow> m = Inr x"
  by (cases m) (simp_all add: failAs_def)

definition policyParams ::
  "('pk, 'sk, 'sg) ArkLib \<Rightarrow> 'pk \<Rightarrow> 'pk \<Rightarrow> 'pk option \<Rightarrow> 'pk \<Rightarrow> 'pk \<Rightarrow> 'pk \<Rightarrow> string \<Rightarrow> VaultPolicyV1Params" where
  "policyParams lib phone owner recovery cosigner arkd delegate network =
     \<lparr> pp_UserPub = SerializePubKey lib phone, pp_VtxoVaultCosignerPub = SerializePubKey lib cosigner,
       pp_ArkdServerPub = SerializePubKey lib arkd, pp_DelegatePub = SerializePubKey lib delegate,
       pp_ExitDevicePub = SerializePubKey lib phone, pp_ExitHardwarePub = SerializePubKey lib owner,
       pp_ExitRecoveryPub = (case recovery of None \<Rightarrow> [] | Some k \<Rightarrow> SerializePubKey lib k),
       pp_Network = network \<rparr>"

definition buildVtxoPolicyTree ::
  "('pk, 'sk, 'sg) ArkLib \<Rightarrow> ('pk, 'sk) Service \<Rightarrow> string \<Rightarrow> 'pk enrolledSnapshot \<Rightarrow> 'pk vtxoPolicyTree result" where
  "buildVtxoPolicyTree lib s vaultID snap =
     (case (es_PhoneBIP340 snap, es_ExternalOwnerWallet snap) of
        (Some phone, Some owner) \<Rightarrow>
          (let network = cf_Network (sv_Deployment s) in
           bindR (vtxoKeyContextFor s vaultID) (\<lambda>keyContext.
           bindR (vtxoPublic lib (sv_keys s) keyContext) (\<lambda>cosigner.
           bindR (failAs ''Operator signer pubkey'' (ParsePubKey lib (operatorSignerPub s))) (\<lambda>arkd.
           bindR (PinsFor network) (\<lambda>pins.
           bindR (failAs ''pinned public delegate'' (ParsePubKey lib (mustDecodeCompressed (np_DelegatePub pins)))) (\<lambda>delegate.
           bindR (BuildVaultPolicyV1Tree lib (policyParams lib phone owner (es_RecoveryKey snap) cosigner arkd delegate network)) (\<lambda>encoded.
           bindR (XOnlyParsePubKey lib (pt_TapKey encoded)) (\<lambda>tapKey.
           bindR (EncodeV0 lib \<lparr> aa_Version = 0, aa_HRP = vtxoAddrHRP lib s, aa_Signer = Some arkd, aa_VtxoTapKey = Some tapKey \<rparr>) (\<lambda>addr.
           bindR (vtxoNetworkParams network) (\<lambda>net.
           bindR (NewAddressTaproot lib (pt_TapKey encoded) net) (\<lambda>onchain.
           Inr \<lparr> vt_CosignerPub = Some cosigner, vt_DelegatePub = Some delegate, vt_ArkdPub = Some arkd, vt_TapKey = Some tapKey,
             vt_PkScript = pt_PkScript encoded, vt_SpendLeaf = pt_SpendScript encoded, vt_DelegateLeaf = pt_DelegateScript encoded,
             vt_SpendControl = pt_SpendControlBlock encoded, vt_DelegateControl = pt_DelegateControlBlock encoded,
             vt_RevealedScripts = pt_RevealedScripts encoded, vt_ArkAddress = addr, vt_OnchainAddress = onchain \<rparr>)))))))))))
      | _ \<Rightarrow> Inl (Errorf ''enrolled keys required''))"

definition defaultVtxoPkScript :: "('pk, 'sk, 'sg) ArkLib \<Rightarrow> 'pk option \<Rightarrow> 'pk option \<Rightarrow> u32 \<Rightarrow> bytes" where
  "defaultVtxoPkScript lib user arkd exitDelay =
     (case (user, arkd) of
        (Some user, Some arkd) \<Rightarrow>
          (case TapTree lib (NewDefaultVtxoScript lib user arkd exitDelay) of
             Inl _ \<Rightarrow> []
           | Inr (tap, _) \<Rightarrow> (case P2TRScript lib tap of Inl _ \<Rightarrow> [] | Inr pk \<Rightarrow> pk))
      | _ \<Rightarrow> [])"

definition refuseDefaultVtxoChange ::
  "('pk, 'sk, 'sg) ArkLib \<Rightarrow> ('pk, 'sk) Service \<Rightarrow> 'pk enrolledSnapshot \<Rightarrow> bytes \<Rightarrow> unit result" where
  "refuseDefaultVtxoChange lib s snap dest =
     (if es_PhoneBIP340 snap = None \<or> length (operatorSignerPub s) \<noteq> 33 then Inr ()
      else case ParsePubKey lib (operatorSignerPub s) of
        Inl _ \<Rightarrow> Inr ()
      | Inr arkd \<Rightarrow>
          bindR (PinsFor (cf_Network (sv_Deployment s))) (\<lambda>pins.
          if dest = defaultVtxoPkScript lib (es_PhoneBIP340 snap) (Some arkd) (np_ArkdMinExitDelay pins) then
            Inl (Errorf ''DefaultVtxo change refused'')
          else Inr ()))"

definition decodeVtxoDest :: "('pk, 'sk, 'sg) ArkLib \<Rightarrow> ('pk, 'sk) Service \<Rightarrow> string \<Rightarrow> (bytes \<times> string) result" where
  "decodeVtxoDest lib s addr' =
     (let addr = trim_space addr' in
      if addr = [] then rejected ''destAddress required''
      else case DecodeAddressV0 lib addr of
        Inl _ \<Rightarrow> rejected ''destAddress must be a pinned-Operator Arkade address''
      | Inr decoded \<Rightarrow>
          if aa_HRP decoded \<noteq> vtxoAddrHRP lib s then rejected ''destAddress network''
          else (case (ParsePubKey lib (operatorSignerPub s), aa_Signer decoded) of
            (Inr operator, Some signer) \<Rightarrow>
              if SerializePubKey lib signer \<noteq> SerializePubKey lib operator then rejected ''destAddress Operator''
              else bindR (rejectAs ''destAddress'' (AddressPkScript lib decoded)) (\<lambda>script. Inr (script, addr))
          | _ \<Rightarrow> rejected ''destAddress Operator''))"

end
