(* ===== verification/SpendProgram.thy ===== *)
theory SpendProgram
  imports Service
begin

text \<open>
  The spending handlers run concurrently: each call into the ledger is one transaction, and between
  two calls of a handler the ledger may change. A handler is therefore a program that makes one ledger
  call at a time and continues with its answer. \<open>Now\<close> reads the clock of the store.
\<close>

datatype 'a prog =
    Done 'a
  | Now "time \<Rightarrow> 'a prog"
  | RequireKey bytes "unit result \<Rightarrow> 'a prog"
  | LoadVerified string bytes "(VaultRecord option \<times> VaultCredential option) result \<Rightarrow> 'a prog"
  | Get string "VtxoOperation result \<Rightarrow> 'a prog"
  | GetInputs string "VtxoOperationInput list result \<Rightarrow> 'a prog"
  | Reserve VtxoOperation "VtxoOperationInput list" i64 "unit result \<Rightarrow> 'a prog"
  | Transition string VtxoOperation "(VtxoOperation \<times> bool) result \<Rightarrow> 'a prog"
  | CommitSigned VtxoOperation bytes u32 "(VtxoOperation \<times> bool) result \<Rightarrow> 'a prog"
  | VerifyReplay string string bytes u32 "unit result \<Rightarrow> 'a prog"

primrec bindP :: "'a prog \<Rightarrow> ('a \<Rightarrow> 'b prog) \<Rightarrow> 'b prog" where
  "bindP (Done x) f = f x"
| "bindP (Now k) f = Now (\<lambda>a. bindP (k a) f)"
| "bindP (RequireKey key k) f = RequireKey key (\<lambda>a. bindP (k a) f)"
| "bindP (LoadVerified v key k) f = LoadVerified v key (\<lambda>a. bindP (k a) f)"
| "bindP (Get i k) f = Get i (\<lambda>a. bindP (k a) f)"
| "bindP (GetInputs i k) f = GetInputs i (\<lambda>a. bindP (k a) f)"
| "bindP (Reserve rec ins cap k) f = Reserve rec ins cap (\<lambda>a. bindP (k a) f)"
| "bindP (Transition st rec k) f = Transition st rec (\<lambda>a. bindP (k a) f)"
| "bindP (CommitSigned rec c n k) f = CommitSigned rec c n (\<lambda>a. bindP (k a) f)"
| "bindP (VerifyReplay i v c n k) f = VerifyReplay i v c n (\<lambda>a. bindP (k a) f)"

text \<open>\<open>x, err := m; if err != nil { return err }\<close>, for a computed result and for a program.\<close>

definition checkP :: "'a result \<Rightarrow> ('a \<Rightarrow> 'b result prog) \<Rightarrow> 'b result prog" where
  "checkP m f = (case m of Inl e \<Rightarrow> Done (Inl e) | Inr x \<Rightarrow> f x)"

abbreviation andP :: "'a result prog \<Rightarrow> ('a \<Rightarrow> 'b result prog) \<Rightarrow> 'b result prog" where
  "andP p f \<equiv> bindP p (\<lambda>r. checkP r f)"

definition mapP :: "('a \<Rightarrow> 'b) \<Rightarrow> 'a prog \<Rightarrow> 'b prog" where
  "mapP f p = bindP p (\<lambda>x. Done (f x))"

section \<open>Running a program\<close>

text \<open>
  The answer of a call: its result, or an error of the disk. A call that writes may fail before it takes
  effect, or take effect and lose its answer.
\<close>

definition answered :: "'a result \<Rightarrow> 'a result \<Rightarrow> bool" where
  "answered r a \<longleftrightarrow> a = r \<or> a = Inl ErrIO"

lemma answered_refl [simp]: "answered r r"
  by (simp add: answered_def)

lemma answered_Inr [simp]: "answered r (Inr x) \<longleftrightarrow> r = Inr x"
  by (auto simp: answered_def)

lemma answered_Inl [simp]: "answered (Inl e) a \<longleftrightarrow> a = Inl e \<or> a = Inl ErrIO"
  by (simp add: answered_def)

text \<open>One call: the time and the ledger before, the program, and both after.\<close>

inductive stepP :: "time \<times> Ledger \<Rightarrow> 'a prog \<Rightarrow> time \<times> Ledger \<Rightarrow> 'a prog \<Rightarrow> bool" where
  now: "stepP (t, l) (Now k) (t, l) (k t)"
| requireKey: "stepP (t, l) (RequireKey key k) (t, l) (k (RequireIntegrityKey key l))"
| loadVerified: "answered (LoadVerifiedVault l v key) a \<Longrightarrow> stepP (t, l) (LoadVerified v key k) (t, l) (k a)"
| get: "answered (GetVtxoOperation l i) a \<Longrightarrow> stepP (t, l) (Get i k) (t, l) (k a)"
| getInputs: "answered (GetVtxoOperationInputs l i) a \<Longrightarrow> stepP (t, l) (GetInputs i k) (t, l) (k a)"
| reserve: "t \<le> t2 \<Longrightarrow> ReserveVtxoOperation fault commitFails t1 t2 l rec ins cap = (r, l') \<Longrightarrow> answered r a \<Longrightarrow>
    stepP (t, l) (Reserve rec ins cap k) (t2, l') (k a)"
| reserveFails: "stepP (t, l) (Reserve rec ins cap k) (t, l) (k (Inl ErrIO))"
| transition: "TransitionVtxoOperation l st rec = (r, l') \<Longrightarrow> answered r a \<Longrightarrow> stepP (t, l) (Transition st rec k) (t, l') (k a)"
| transitionFails: "stepP (t, l) (Transition st rec k) (t, l) (k (Inl ErrIO))"
| commit: "CommitSignedVtxoOperation commitFails t l rec c n = (r, l') \<Longrightarrow> answered r a \<Longrightarrow>
    stepP (t, l) (CommitSigned rec c n k) (t, l') (k a)"
| commitFails: "stepP (t, l) (CommitSigned rec c n k) (t, l) (k (Inl ErrIO))"
| replay: "answered (VerifySignedVtxoReplay l i v c n) a \<Longrightarrow> stepP (t, l) (VerifyReplay i v c n k) (t, l) (k a)"

inductive_cases stepP_DoneE [elim!]: "stepP w (Done x) w' p'"

section \<open>Helpers of the service that call the ledger\<close>

definition requireLedgerIntegrity :: "('pk, 'sk) Service \<Rightarrow> unit result prog" where
  "requireLedgerIntegrity s = checkP (credentialIntegrityKey s) (\<lambda>key. RequireKey key Done)"

definition spendingPolicyFromRecord :: "VaultRecord \<Rightarrow> SpendingPolicy result" where
  "spendingPolicyFromRecord rec =
     SpendingPolicyFromValues (vr_TxRecipientCapSats rec) (vr_PeriodAllowanceSats rec) (vr_AbsoluteFeeCapSats rec)
       (vr_FeerateCapSatPerV rec)"

definition resolveSpendVaultRecord ::
  "('pk, 'sk) Service \<Rightarrow> string \<Rightarrow> (string \<times> 'pk enrolledSnapshot \<times> VaultRecord) result prog" where
  "resolveSpendVaultRecord s vaultID =
     checkP (routeVaultID vaultID) (\<lambda>id.
     let snap = snapshot s id in
     if es_Savings snap = None then Done (Inl (Errorf ''not enrolled''))
     else
       checkP (credentialIntegrityKey s) (\<lambda>key.
       LoadVerified id key (\<lambda>loaded.
       checkP loaded (\<lambda>(rec, _).
       case rec of
         None \<Rightarrow> Done (Inl (Errorf ''not enrolled''))
       | Some rec \<Rightarrow>
           checkP (wrapR ''stored economic policy'' (bindR (spendingPolicyFromRecord rec)
             (ValidateSpendingPolicyFor (cf_Network (sv_Deployment s))))) (\<lambda>_.
           checkP (wrapR ''stored protection tier'' (ValidateProtectionTierRecovery (vr_ProtectionTier rec)
             (length (vr_RecoveryKey rec) > 0))) (\<lambda>_.
           Done (Inr (id, snap, rec))))))))"

definition loadVerifiedCredentialFor :: "('pk, 'sk) Service \<Rightarrow> string \<Rightarrow> Credential option result prog" where
  "loadVerifiedCredentialFor s vaultID =
     checkP (credentialIntegrityKey s) (\<lambda>key.
     checkP (routeVaultID vaultID) (\<lambda>id.
     LoadVerified id key (\<lambda>loaded.
     checkP loaded (\<lambda>(rec, vcred).
     case (rec, vcred) of
       (Some r, Some c) \<Rightarrow> Done (Inr (Some (toCredential r c)))
     | _ \<Rightarrow> Done (Inr None)))))"

end
