(* ===== verification/SpendService.thy ===== *)
theory SpendService
  imports SpendProgram
begin

text \<open>
  The spending handlers of \<open>internal/application/vtxo.go\<close> and \<open>vtxo_abort.go\<close>, each with every
  check, every ledger call and every early return in the order of the code. What a call observes of
  its context and of the limits of the process is the record \<open>callEnv\<close>.
\<close>

record callEnv =
  ce_selectCtx :: "nat \<Rightarrow> u64 option \<Rightarrow> bool"
  ce_acquireCtx :: "error option"
  ce_feeSelectionsBusy :: nat
  ce_verifyCtx :: "error option"
  ce_verificationsBusy :: nat
  ce_signCtx :: "nat \<Rightarrow> error option"

section \<open>Requests and responses\<close>

record VtxoReserveRequest =
  rq_OperationID :: string
  rq_VaultID :: string
  rq_Purpose :: string
  rq_DestAddress :: string
  rq_AmountSats :: u64
  rq_PhoneSignature :: string

record VtxoInputView =
  iv_Txid :: string
  iv_Vout :: u32
  iv_ValueSats :: u64
  iv_ScriptHex :: string

record VtxoReserveResponse =
  rr_OperationID :: string
  rr_BundleDigest :: string
  rr_ReservationExpires :: string
  rr_Inputs :: "VtxoInputView list"
  rr_ChangeAddress :: string
  rr_ChangeScript :: string
  rr_DestScript :: string
  rr_FeeSats :: u64
  rr_FeePolicyDigest :: string
  rr_ChangeSats :: u64
  rr_ChangeVout :: "u32 option"
  rr_CheckpointTapscript :: string

record VtxoAuthorizeRequest =
  aq_VaultID :: string
  aq_OperationID :: string
  aq_BundleDigest :: string
  aq_UnsignedArkPsbt :: string
  aq_UnsignedCheckpointPsbts :: "string list"
  aq_PendingProof :: string
  aq_CredentialID :: string
  aq_ClientDataJSON :: string
  aq_AuthenticatorData :: string
  aq_Signature :: string
  aq_DirectSig :: string

record VtxoAuthorizeResponse =
  ar_OperationID :: string
  ar_BundleDigest :: string
  ar_AuthorizedPsbt :: string
  ar_AuthorizedPendingProof :: string
  ar_ArkTxid :: string

record VtxoCheckpointAuthorizeRequest =
  cq_VaultID :: string
  cq_OperationID :: string
  cq_BundleDigest :: string
  cq_CheckpointPsbts :: "string list"

record VtxoCheckpointAuthorizeResponse =
  cp_OperationID :: string
  cp_BundleDigest :: string
  cp_CheckpointPsbts :: "string list"
  cp_ArkTxid :: string

record VtxoFinalizeRequest =
  fq_VaultID :: string
  fq_OperationID :: string
  fq_BundleDigest :: string
  fq_ArkTxid :: string

record VtxoFinalizeResponse =
  fr_OperationID :: string
  fr_BundleDigest :: string
  fr_State :: string
  fr_ArkTxid :: string

record VtxoOperationView =
  ov_OperationID :: string
  ov_BundleDigest :: string
  ov_State :: string
  ov_ArkTxid :: string
  ov_ExpiresAt :: string
  ov_FeeSats :: u64
  ov_FeePolicyDigest :: string
  ov_ChangeSats :: u64
  ov_ChangeVout :: "u32 option"
  ov_ChangeScript :: string
  ov_AuthorizedPsbt :: string
  ov_AuthorizedPendingProof :: string
  ov_CheckpointPsbts :: "string list"

record VtxoAbortRequest =
  bq_OperationID :: string
  bq_VaultID :: string
  bq_Purpose :: string
  bq_PhoneSignature :: string

record VtxoAbortResponse =
  br_OperationID :: string
  br_State :: string

section \<open>Checks\<close>

abbreviation vtxoReserveAuthorizeTimeout :: int where "vtxoReserveAuthorizeTimeout \<equiv> 120 * Second"

definition canonicalVtxoOperationID :: "string \<Rightarrow> string result" where
  "canonicalVtxoOperationID raw =
     (let id = trim_space raw in
      case hex_decode id of
        Some decoded \<Rightarrow>
          if length decoded \<noteq> 16 \<or> id \<noteq> to_lower id then
            rejected ''operationId must be 16 random bytes encoded as lowercase hex''
          else Inr id
      | None \<Rightarrow> rejected ''operationId must be 16 random bytes encoded as lowercase hex'')"

text \<open>The end of the two phone signature checks, from the digest on.\<close>

definition verifyPhoneSignature :: "('pk, 'sk, 'sg) ArkLib \<Rightarrow> bytes result \<Rightarrow> string \<Rightarrow> 'pk option \<Rightarrow> unit result" where
  "verifyPhoneSignature lib digest phoneSignature phone =
     (case phone of
        None \<Rightarrow> rejected ''enrolled phone key required''
      | Some phone \<Rightarrow>
          bindR (rejectWith digest) (\<lambda>digest.
          case hex_decode phoneSignature of
            None \<Rightarrow> rejected ''phoneSignature must be a lowercase 64-byte Schnorr signature''
          | Some raw \<Rightarrow>
              if length raw \<noteq> 64 \<or> phoneSignature \<noteq> to_lower phoneSignature then
                rejected ''phoneSignature must be a lowercase 64-byte Schnorr signature''
              else (case ParseSignature lib raw of
                Inl _ \<Rightarrow> rejected ''phoneSignature invalid''
              | Inr sig \<Rightarrow> if \<not> SchnorrVerify lib sig digest phone then rejected ''phoneSignature invalid'' else Inr ())))"

definition verifyVtxoReservePhoneSignature ::
  "('pk, 'sk, 'sg) ArkLib \<Rightarrow> VtxoReserveRequest \<Rightarrow> string \<Rightarrow> bytes \<Rightarrow> 'pk option \<Rightarrow> unit result" where
  "verifyVtxoReservePhoneSignature lib req vaultID destScript phone =
     verifyPhoneSignature lib (ComputeVtxoReserveDigest (rq_OperationID req) vaultID (trim_space (rq_Purpose req)) destScript
       (rq_AmountSats req)) (rq_PhoneSignature req) phone"

definition verifyVtxoAbortPhoneSignature :: "('pk, 'sk, 'sg) ArkLib \<Rightarrow> VtxoAbortRequest \<Rightarrow> string \<Rightarrow> 'pk option \<Rightarrow> unit result" where
  "verifyVtxoAbortPhoneSignature lib req vaultID phone =
     verifyPhoneSignature lib (ComputeVtxoAbortDigest (bq_OperationID req) vaultID (trim_space (bq_Purpose req)))
       (bq_PhoneSignature req) phone"

definition vtxoFeeCap :: "VaultRecord \<Rightarrow> u64 result" where
  "vtxoFeeCap rec =
     (if sint (vr_AbsoluteFeeCapSats rec) < 0 then rejected ''fee ceiling invalid'' else Inr (vr_AbsoluteFeeCapSats rec))"

definition enforceVtxoAmount :: "u64 \<Rightarrow> u64 \<Rightarrow> VaultRecord \<Rightarrow> unit result" where
  "enforceVtxoAmount amount fee rec =
     (if sint (vr_TxRecipientCapSats rec) \<le> 0 \<or> sint (vr_AbsoluteFeeCapSats rec) < 0 then
        rejected ''vault spending policy required''
      else if unat amount > 2 ^ 63 - 1 \<or> sint (vr_TxRecipientCapSats rec) < 0 \<or> amount > vr_TxRecipientCapSats rec then
        rejected ''recipient exceeds transaction cap''
      else if unat fee > 2 ^ 63 - 1 \<or> sint (vr_AbsoluteFeeCapSats rec) < 0 \<or> fee > vr_AbsoluteFeeCapSats rec then
        rejected ''fee exceeds ceiling''
      else if amount < DustSats then rejected ''recipient below dust''
      else Inr ())"

definition validStoredVtxoChange :: "VtxoOperation \<Rightarrow> bytes \<Rightarrow> bool" where
  "validStoredVtxoChange op wantScript =
     (if vo_ChangeSats op = 0 then vo_ChangeVout op = None \<and> length (vo_ChangeScript op) = 0
      else sint (vo_ChangeSats op) \<ge> sint DustSats \<and> vo_ChangeVout op = Some 1 \<and> vo_ChangeScript op = wantScript)"

definition requireCurrentVtxoFeePolicy :: "('pk, 'sk, 'sg) ArkLib \<Rightarrow> ArkResolver \<Rightarrow> VtxoOperation \<Rightarrow> unit result" where
  "requireCurrentVtxoFeePolicy lib resolver op =
     bindR (rejectAs ''Operator fee policy unavailable'' (ar_IntentFeePolicy resolver)) (\<lambda>fee.
     bindR (newVtxoFeeEstimator (arkfeeNew lib) fee) (\<lambda>(_, digest).
     if length (vo_FeePolicyDigest op) \<noteq> 32 \<or> digest \<noteq> vo_FeePolicyDigest op then
       rejected ''Operator fee policy changed after reservation''
     else Inr ()))"

definition requireBundleDigest :: "string \<Rightarrow> bytes \<Rightarrow> unit result" where
  "requireBundleDigest got want =
     (case hex_decode (to_lower (trim_space got)) of
        None \<Rightarrow> rejected ''bundleDigest''
      | Some raw \<Rightarrow>
          if length raw \<noteq> 32 then rejected ''bundleDigest''
          else if raw \<noteq> want then rejected ''bundleDigest mismatch'' else Inr ())"

definition requireTxid :: "string \<Rightarrow> unit result" where
  "requireTxid txid =
     (if length txid \<noteq> 64 \<or> txid \<noteq> to_lower txid then Inl (Errorf ''txid'')
      else case hex_decode txid of
        None \<Rightarrow> Inl (Errorf ''txid'')
      | Some raw \<Rightarrow> if length raw \<noteq> 32 then Inl (Errorf ''txid'') else Inr ())"

text \<open>\<open>strings.EqualFold\<close> where one side is a hexadecimal id.\<close>

definition equalFold :: "string \<Rightarrow> string \<Rightarrow> bool" where
  "equalFold a b = (to_lower a = to_lower b)"

definition vtxoCheckpointAuthorizableState :: "string \<Rightarrow> bool" where
  "vtxoCheckpointAuthorizableState state = (state = vtxoStateSigned \<or> state = vtxoStateSubmitted)"

definition vtxoFinalizableState :: "string \<Rightarrow> bool" where
  "vtxoFinalizableState state = (state = vtxoStateSubmitted)"

definition vtxoHasSigningArtifacts :: "VtxoOperation \<Rightarrow> bool" where
  "vtxoHasSigningArtifacts op =
     (vo_UnsignedPSBT op \<noteq> [] \<or> vo_AuthorizedPSBT op \<noteq> [] \<or> vo_AuthorizedPendingProof op \<noteq> [] \<or>
      length (vo_PendingProofDigest op) \<noteq> 0 \<or> vo_CheckpointPSBTs op \<noteq> [] \<or> vo_CheckpointRequestPSBTs op \<noteq> [] \<or>
      vo_ArkTxid op \<noteq> [])"

definition requireAbortableVtxoInputs :: "VtxoOperationInput list \<Rightarrow> unit result" where
  "requireAbortableVtxoInputs inputs =
     (if length inputs = 0 \<or> length inputs > MaxVtxoOperationInputs then rejected ''reserved vtxo input state''
      else eachR (\<lambda>i. if length (vi_Txid i) \<noteq> 32 \<or> sint (vi_Vout i) < 0 \<or> sint (vi_ValueSats i) \<le> 0 \<or> length (vi_Script i) = 0 then
          rejected ''reserved vtxo input state'' else Inr ()) inputs)"

text \<open>The lists of packets are stored as JSON arrays; the packets are base64 text.\<close>

fun joinComma :: "string list \<Rightarrow> string" where
  "joinComma [] = []"
| "joinComma [x] = x"
| "joinComma (x # xs) = x @ '','' @ joinComma xs"

definition encodeJSONStringSlice :: "string list \<Rightarrow> string" where
  "encodeJSONStringSlice v = (if length v = 0 then [] else ''['' @ joinComma (map json_string v) @ '']'')"

definition decodeJSONStringSlice :: "string \<Rightarrow> string list" where
  "decodeJSONStringSlice v =
     (if trim_space v = [] then []
      else case parse_json (str_bytes v) of
        Inr (JArray vs) \<Rightarrow> (case mapR (\<lambda>x. jsonText x []) vs of Inl _ \<Rightarrow> [] | Inr out \<Rightarrow> out)
      | _ \<Rightarrow> [])"

section \<open>Reservations\<close>

definition expireReservedVtxo :: "VtxoOperation \<Rightarrow> VtxoOperation result prog" where
  "expireReservedVtxo op =
     (if vo_State op \<noteq> vtxoStateReserved \<or> vo_ExpiresAt op = [] then Done (Inr op)
      else case parseRFC3339 (vo_ExpiresAt op) of
        None \<Rightarrow> Done (rejected ''reservation expiry'')
      | Some expiry \<Rightarrow>
          Now (\<lambda>now.
          if now < expiry then Done (Inr op)
          else
            let aborted = op\<lparr> vo_State := vtxoStateAborted \<rparr> in
            Transition vtxoStateReserved aborted (\<lambda>r.
            checkP r (\<lambda>(current, swapped). Done (Inr (if swapped then aborted else current))))))"

definition inputView :: "VtxoOperationInput \<Rightarrow> VtxoInputView" where
  "inputView i = \<lparr> iv_Txid = hex_encode (vi_Txid i), iv_Vout = ucast (vi_Vout i), iv_ValueSats = vi_ValueSats i,
     iv_ScriptHex = hex_encode (vi_Script i) \<rparr>"

definition vtxoReserveResponse :: "VtxoOperation \<Rightarrow> VtxoOperationInput list \<Rightarrow> string \<Rightarrow> VtxoReserveResponse" where
  "vtxoReserveResponse op inputs changeAddress =
     \<lparr> rr_OperationID = vo_OperationID op, rr_BundleDigest = hex_encode (vo_BundleDigest op),
       rr_ReservationExpires = vo_ExpiresAt op, rr_Inputs = map inputView inputs,
       rr_ChangeAddress = (if vo_ChangeSats op = 0 then [] else changeAddress),
       rr_ChangeScript = hex_encode (vo_ChangeScript op), rr_DestScript = hex_encode (vo_DestScript op),
       rr_FeeSats = vo_FeeSats op, rr_FeePolicyDigest = hex_encode (vo_FeePolicyDigest op), rr_ChangeSats = vo_ChangeSats op,
       rr_ChangeVout = vo_ChangeVout op, rr_CheckpointTapscript = hex_encode (vo_CheckpointTapscript op) \<rparr>"

definition replayVtxoReservation ::
  "VtxoOperation \<Rightarrow> string \<Rightarrow> string \<Rightarrow> u64 \<Rightarrow> bytes \<Rightarrow> 'pk vtxoPolicyTree \<Rightarrow> VtxoReserveResponse result prog" where
  "replayVtxoReservation op vaultID purpose amount destScript tree =
     (if vo_VaultID op \<noteq> vaultID \<or> vo_Purpose op \<noteq> purpose \<or> sint (vo_AmountSats op) < 0 \<or> sint (vo_FeeSats op) < 0 \<or>
         sint (vo_ChangeSats op) < 0 \<or> vo_AmountSats op \<noteq> amount \<or> vo_DestScript op \<noteq> destScript \<or>
         length (vo_FeePolicyDigest op) \<noteq> 32 \<or> \<not> validStoredVtxoChange op (vt_PkScript tree) then
        Done (rejected ''operationId is already bound to a different reserve request'')
      else if vo_State op = vtxoStateAborted \<or> vo_State op = vtxoStateUnresolved then
        Done (rejected ''reservation is no longer usable'')
      else
        andP (expireReservedVtxo op) (\<lambda>op.
        if vo_State op = vtxoStateAborted then Done (rejected ''reservation expired'')
        else
          GetInputs (vo_OperationID op) (\<lambda>inputs.
          checkP inputs (\<lambda>inputs. Done (Inr (vtxoReserveResponse op inputs (vt_ArkAddress tree)))))))"

definition bundleInput :: "reservedCoin \<Rightarrow> VtxoBundleInput" where
  "bundleInput coin = \<lparr> vb_Txid = rc_Txid coin, vb_Vout = rc_Vout coin, vb_ValueSats = rc_ValueSats coin \<rparr>"

definition operationInput :: "reservedCoin \<Rightarrow> VtxoOperationInput" where
  "operationInput coin = \<lparr> vi_OperationID = [], vi_Txid = rc_Txid coin, vi_Vout = ucast (rc_Vout coin),
     vi_ValueSats = rc_ValueSats coin, vi_Script = rc_Script coin, vi_IntegrityMAC = [] \<rparr>"

definition reservationRow ::
  "string \<Rightarrow> string \<Rightarrow> string \<Rightarrow> bytes \<Rightarrow> u64 \<Rightarrow> u64 \<Rightarrow> bytes \<Rightarrow> bytes \<Rightarrow> bytes \<Rightarrow> u64 \<Rightarrow> u32 option \<Rightarrow> bytes \<Rightarrow> string \<Rightarrow> string \<Rightarrow>
     VtxoOperation" where
  "reservationRow opID vaultID purpose digest amount fee feeDigest dest changeScript change changeVout checkpoint expires created =
     \<lparr> vo_OperationID = opID, vo_VaultID = vaultID, vo_Purpose = purpose, vo_BundleDigest = digest, vo_State = vtxoStateReserved,
       vo_AmountSats = amount, vo_FeeSats = fee, vo_FeePolicyDigest = feeDigest, vo_DestScript = dest,
       vo_ChangeScript = changeScript, vo_ChangeSats = change, vo_ChangeVout = changeVout, vo_UnsignedPSBT = [],
       vo_AuthorizedPSBT = [], vo_PendingProofDigest = [], vo_AuthorizedPendingProof = [], vo_CheckpointPSBTs = [],
       vo_CheckpointRequestPSBTs = [], vo_CheckpointTapscript = checkpoint, vo_ArkTxid = [], vo_ExpiresAt = expires,
       vo_CreatedAt = created, vo_LastDestScript = dest, vo_IntegrityMAC = [] \<rparr>"

text \<open>The part of a reservation that follows the look-up of the operation id: a new reservation.\<close>

definition newReservation ::
  "('pk, 'sk, 'sg) ArkLib \<Rightarrow> callEnv \<Rightarrow> ('pk, 'sk) Service \<Rightarrow> ArkResolver \<Rightarrow> VtxoReserveRequest \<Rightarrow> string \<Rightarrow> string \<Rightarrow> VaultRecord \<Rightarrow>
     'pk vtxoPolicyTree \<Rightarrow> bytes \<Rightarrow> u64 \<Rightarrow> VtxoReserveResponse result prog" where
  "newReservation lib env s resolver req opID vaultID rec tree destScript feeCap =
     (let purpose = trim_space (rq_Purpose req); amount = rq_AmountSats req in
      checkP (rejectAs ''Operator fee policy unavailable'' (ar_IntentFeePolicy resolver)) (\<lambda>feePolicy.
      checkP (newVtxoFeeEstimator (arkfeeNew lib) feePolicy) (\<lambda>(estimator, feePolicyDigest).
      checkP (selectSpendVtxos (ce_selectCtx env) (ar_SpendableVtxos resolver (vt_PkScript tree))
        (acquireFeeSelection (sv_MaxConcurrentFeeSelections s) (ce_feeSelectionsBusy env) (ce_acquireCtx env))
        (vt_PkScript tree) destScript amount feeCap estimator) (\<lambda>(selected, feeSats, changeSats).
      checkP (enforceVtxoAmount amount feeSats rec) (\<lambda>_.
      let checkpoint = ar_CheckpointTapscript resolver in
      if length checkpoint = 0 then Done (rejected ''checkpoint tapscript required'')
      else
        let changeScript = (if changeSats > 0 then vt_PkScript tree else []);
            changeVout = (if changeSats > 0 then Some 1 else None);
            opInputs = map operationInput selected
        in Now (\<lambda>now.
        let created = formatRFC3339 now; expires = formatRFC3339 (now + vtxoReserveAuthorizeTimeout) in
        checkP (ComputeVtxoBundleDigest purpose vaultID destScript changeScript amount feeSats changeSats changeVout feePolicyDigest
          (map bundleInput selected) created) (\<lambda>digest.
        let recRow = reservationRow opID vaultID purpose digest amount feeSats feePolicyDigest destScript changeScript changeSats
              changeVout checkpoint expires created
        in Reserve recRow opInputs (periodAllowanceSats (Some rec) None) (\<lambda>reserved.
        case reserved of
          Inl err \<Rightarrow>
            Get opID (\<lambda>existing.
            case existing of
              Inr op \<Rightarrow> replayVtxoReservation op vaultID purpose amount destScript tree
            | Inl _ \<Rightarrow> Done (Inl (mapLedgerBusy err)))
        | Inr _ \<Rightarrow> Done (Inr (vtxoReserveResponse recRow opInputs (vt_ArkAddress tree)))))))))))"

definition ReserveVtxo ::
  "('pk, 'sk, 'sg) ArkLib \<Rightarrow> embeddedPacks \<Rightarrow> callEnv \<Rightarrow> ('pk, 'sk) Service \<Rightarrow> VtxoReserveRequest \<Rightarrow> VtxoReserveResponse result prog" where
  "ReserveVtxo lib packs env s req =
     checkP (canonicalVtxoOperationID (rq_OperationID req)) (\<lambda>opID.
     andP (requireLedgerIntegrity s) (\<lambda>_.
     checkP (requireVaultPolicyV1Exit packs s) (\<lambda>_.
     if trim_space (rq_Purpose req) \<noteq> vtxoPurposeSpend then Done (rejected ''vtxo purpose must be spend'')
     else if rq_AmountSats req = 0 then Done (rejected ''amount required'')
     else
       checkP (requireArkResolver s) (\<lambda>resolver.
       andP (resolveSpendVaultRecord s (rq_VaultID req)) (\<lambda>(vaultID, snap, rec).
       checkP (rejectAs ''vault-policy-v1 dest unavailable'' (buildVtxoPolicyTree lib s vaultID snap)) (\<lambda>tree.
       checkP (decodeVtxoDest lib s (rq_DestAddress req)) (\<lambda>(destScript, _).
       checkP (verifyVtxoReservePhoneSignature lib req vaultID destScript (es_PhoneBIP340 snap)) (\<lambda>_.
       checkP (rejectWith (refuseDefaultVtxoChange lib s snap destScript)) (\<lambda>_.
       checkP (vtxoFeeCap rec) (\<lambda>feeCap.
       checkP (enforceVtxoAmount (rq_AmountSats req) 0 rec) (\<lambda>_.
       Get opID (\<lambda>existing.
       case existing of
         Inr op \<Rightarrow> replayVtxoReservation op vaultID (trim_space (rq_Purpose req)) (rq_AmountSats req) destScript tree
       | Inl err \<Rightarrow>
           if err \<noteq> ErrNoRows then Done (Inl err)
           else newReservation lib env s resolver req opID vaultID rec tree destScript feeCap))))))))))))"

section \<open>Live operations\<close>

definition loadLiveVtxo ::
  "string \<Rightarrow> string \<Rightarrow> string \<Rightarrow> (VtxoOperation \<times> VtxoOperationInput list) result prog" where
  "loadLiveVtxo vaultID operationID wantPurpose =
     (if operationID = [] then Done (rejected ''operationId required'')
      else
        Get operationID (\<lambda>loaded.
        case loaded of
          Inl err \<Rightarrow> Done (Inl (if err = ErrNoRows then ErrNotFound else err))
        | Inr rec \<Rightarrow>
            if vo_VaultID rec \<noteq> vaultID then Done (rejected ''operation does not belong to this vault'')
            else if vo_Purpose rec \<noteq> wantPurpose then Done (rejected ''vtxo purpose'')
            else
              let live = GetInputs operationID (\<lambda>inputs. checkP inputs (\<lambda>inputs. Done (Inr (rec, inputs)))) in
              if vo_ExpiresAt rec = [] then live
              else (case parseRFC3339 (vo_ExpiresAt rec) of
                None \<Rightarrow> Done (rejected ''reservation expiry'')
              | Some expiry \<Rightarrow>
                  if vo_State rec \<noteq> vtxoStateReserved then live
                  else
                    Now (\<lambda>now.
                    if now < expiry then live
                    else
                      Transition vtxoStateReserved (rec\<lparr> vo_State := vtxoStateAborted \<rparr>) (\<lambda>_.
                      Done (rejected ''reservation expired'')))))) "

definition verifyVtxoAuthorization ::
  "callEnv \<Rightarrow> ('pk, 'sk) Service \<Rightarrow> string \<Rightarrow> bytes \<Rightarrow> WebAuthnAssertionRequest \<Rightarrow> string \<Rightarrow> (bytes \<times> u32) result prog" where
  "verifyVtxoAuthorization env s vaultID digest req directSigHex =
     checkP (acquireVerification (sv_MaxConcurrentVerifications s) (ce_verificationsBusy env) (ce_verifyCtx env)) (\<lambda>_.
     if length digest \<noteq> 32 then Done (rejected ''bundle digest must be 32 bytes'')
     else
       checkP (decodeAssertion req) (\<lambda>assertion.
       checkP (rejectPRF (as_ClientDataJSON assertion)) (\<lambda>_.
       andP (loadVerifiedCredentialFor s vaultID) (\<lambda>loaded.
       case loaded of
         None \<Rightarrow> Done (Inl (Errorf ''not enrolled''))
       | Some cred \<Rightarrow>
           checkP (rejectCrossVaultCredential s vaultID (cr_ID cred)) (\<lambda>_.
           checkP (rejectWith (ChallengeFromClientDataJSON (as_ClientDataJSON assertion))) (\<lambda>presenceChallenge.
           checkP (Validate assertion \<lparr> ex_CredentialID = cr_ID cred, ex_WebAuthnP256 = cr_WebAuthnP256 cred,
             ex_Challenge = presenceChallenge, ex_Origin = cr_Origin cred, ex_RPID = cr_RPID cred \<rparr>) (\<lambda>verified.
           checkP (rejectAs ''directSig'' (decodeHex directSigHex)) (\<lambda>directSig.
           checkP (verifyDirectAuth (cr_PhoneDirectP256 cred) digest directSig) (\<lambda>_.
           Done (Inr (cr_ID cred, ve_SignCount verified)))))))))))"

section \<open>Following a submitted operation\<close>

definition reservedVtxo :: "VtxoOperationInput \<Rightarrow> ResolvedVtxo" where
  "reservedVtxo i = \<lparr> rv_Txid = hex_encode (vi_Txid i), rv_Vout = ucast (vi_Vout i), rv_ValueSats = vi_ValueSats i,
     rv_Script = vi_Script i, rv_CreatedAt = 0, rv_ExpiresAt = None, rv_IsSwept = False, rv_CommitmentTxids = [] \<rparr>"

text \<open>The last step: the operation, known to be submitted, is moved to the state the indexer reports.\<close>

definition settleVtxo :: "string \<Rightarrow> VtxoOperation \<Rightarrow> unit result prog" where
  "settleVtxo outcome op =
     Now (\<lambda>now.
     Transition vtxoStateSubmitted (op\<lparr> vo_State := outcome, vo_CreatedAt := formatRFC3339 now \<rparr>) (\<lambda>r.
     checkP r (\<lambda>(current, swapped).
     if \<not> swapped \<and> vo_State current \<noteq> outcome then Done (rejected ''vtxo operation changed concurrently'')
     else Done (Inr ()))))"

definition settleAs :: "SubmittedVtxoState \<Rightarrow> VtxoOperation \<Rightarrow> unit result prog" where
  "settleAs state op =
     (if state = SubmittedVtxoConflict then settleVtxo vtxoStateUnresolved op
      else if state \<noteq> SubmittedVtxoFinalized then Done (Inl (Errorf ''unknown submitted vtxo state''))
      else settleVtxo vtxoStateFinalized op)"

text \<open>Calling a nil resolver ends the request.\<close>

abbreviation nilResolver :: error where "nilResolver \<equiv> Errorf ''panic: nil ArkResolver''"

definition promoteSubmittedVtxo :: "ArkResolver option \<Rightarrow> VtxoOperation \<Rightarrow> unit result prog" where
  "promoteSubmittedVtxo resolver op =
     (if vo_State op \<noteq> vtxoStateSigned \<and> vo_State op \<noteq> vtxoStateSubmitted then Done (Inr ())
      else
        GetInputs (vo_OperationID op) (\<lambda>inputs.
        checkP inputs (\<lambda>inputs.
        if length inputs = 0 then Done (Inl (Errorf ''reserved inputs required''))
        else
          let pkScript = vi_Script (hd inputs) in
          if sint (vo_ChangeSats op) > 0 \<and> vo_ChangeVout op = None then Done (Inl (Errorf ''change vout missing''))
          else if sint (vo_ChangeSats op) > 0 \<and> vo_ChangeScript op \<noteq> pkScript then
            Done (Inl (Errorf ''change script does not match reserved inputs''))
          else (case resolver of
            None \<Rightarrow> Done (Inl nilResolver)
          | Some resolver \<Rightarrow>
              checkP (ar_SubmittedVtxoState resolver pkScript (map reservedVtxo inputs) (vo_ArkTxid op) (vo_ChangeVout op)
                (vo_ChangeSats op)) (\<lambda>state.
              if state = SubmittedVtxoPending then Done (Inr ())
              else if vo_State op = vtxoStateSigned then
                let submitted = op\<lparr> vo_State := vtxoStateSubmitted \<rparr> in
                Transition vtxoStateSigned submitted (\<lambda>r.
                checkP r (\<lambda>(current, swapped).
                if swapped then settleAs state submitted
                else if vo_State current = vtxoStateFinalized \<or> vo_State current = vtxoStateUnresolved then Done (Inr ())
                else if vo_State current \<noteq> vtxoStateSubmitted then Done (rejected ''vtxo operation changed concurrently'')
                else settleAs state current))
              else settleAs state op)))))"

definition operationView :: "VtxoOperation \<Rightarrow> VtxoOperationView" where
  "operationView op =
     (let resumable = vo_State op = vtxoStateSigned \<or> vo_State op = vtxoStateSubmitted in
      \<lparr> ov_OperationID = vo_OperationID op, ov_BundleDigest = hex_encode (vo_BundleDigest op), ov_State = vo_State op,
        ov_ArkTxid = vo_ArkTxid op, ov_ExpiresAt = vo_ExpiresAt op, ov_FeeSats = vo_FeeSats op,
        ov_FeePolicyDigest = hex_encode (vo_FeePolicyDigest op), ov_ChangeSats = vo_ChangeSats op, ov_ChangeVout = vo_ChangeVout op,
        ov_ChangeScript = hex_encode (vo_ChangeScript op),
        ov_AuthorizedPsbt = (if resumable then vo_AuthorizedPSBT op else []),
        ov_AuthorizedPendingProof = (if resumable then vo_AuthorizedPendingProof op else []),
        ov_CheckpointPsbts = (if vo_State op = vtxoStateSubmitted then decodeJSONStringSlice (vo_CheckpointPSBTs op) else []) \<rparr>)"

text \<open>The operation as it is after a successful promotion; a failed one or a failed reload is ignored.\<close>

definition reconcileVtxo :: "ArkResolver option \<Rightarrow> string \<Rightarrow> VtxoOperation \<Rightarrow> VtxoOperation result prog" where
  "reconcileVtxo resolver operationID op =
     (if vo_State op = vtxoStateSigned \<or> vo_State op = vtxoStateSubmitted then
        bindP (promoteSubmittedVtxo resolver op) (\<lambda>promoted.
        case promoted of
          Inl err \<Rightarrow> if err = nilResolver then Done (Inl err) else Done (Inr op)
        | Inr _ \<Rightarrow> Get operationID (\<lambda>loaded. case loaded of Inr current \<Rightarrow> Done (Inr current) | Inl _ \<Rightarrow> Done (Inr op)))
      else Done (Inr op))"

definition GetVtxoOperationView :: "('pk, 'sk) Service \<Rightarrow> string \<Rightarrow> string \<Rightarrow> VtxoOperationView result prog" where
  "GetVtxoOperationView s vaultID operationID =
     andP (requireLedgerIntegrity s) (\<lambda>_.
     andP (resolveSpendVaultRecord s vaultID) (\<lambda>(id, _, _).
     Get operationID (\<lambda>loaded.
     case loaded of
       Inl err \<Rightarrow> Done (Inl (if err = ErrNoRows then ErrNotFound else err))
     | Inr op \<Rightarrow>
         if vo_VaultID op \<noteq> id then Done (rejected ''operation does not belong to this vault'')
         else
           andP (reconcileVtxo (sv_ArkResolver s) operationID op) (\<lambda>op.
           andP (expireReservedVtxo op) (\<lambda>op. Done (Inr (operationView op)))))))"

section \<open>Authorizing the transaction\<close>

text \<open>The expected key of the server, from the tree.\<close>

definition expectedCosigner :: "('pk, 'sk, 'sg) ArkLib \<Rightarrow> 'pk vtxoPolicyTree \<Rightarrow> bytes" where
  "expectedCosigner lib tree = (case vt_CosignerPub tree of None \<Rightarrow> [] | Some pub \<Rightarrow> SerializePubKey lib pub)"

text \<open>Everything the packets of the request must satisfy; the digest of the pending proof is returned.\<close>

definition verifyAuthorizePackets ::
  "('pk, 'sk, 'sg) ArkLib \<Rightarrow> VtxoAuthorizeRequest \<Rightarrow> VtxoOperation \<Rightarrow> VtxoOperationInput list \<Rightarrow> 'pk vtxoPolicyTree \<Rightarrow>
     'pk enrolledSnapshot \<Rightarrow> (Packet \<times> bytes) result" where
  "verifyAuthorizePackets lib req op inputs tree snap =
     bindR (rejectWith (parsePSBT lib (aq_UnsignedArkPsbt req))) (\<lambda>arkPkt.
     if length (aq_UnsignedCheckpointPsbts req) \<noteq> length inputs then rejected ''checkpoint count''
     else
       bindR (mapR (\<lambda>(raw, i).
           bindR (rejectAs ''checkpoint psbt'' (parsePSBT lib raw)) (\<lambda>cp.
           bindR (rejectWith (verifyUnsignedCheckpointPSBT lib cp i op tree)) (\<lambda>_. Inr cp)))
         (zip (aq_UnsignedCheckpointPsbts req) inputs)) (\<lambda>checkpoints.
       bindR (rejectWith (verifySpendPSBT lib arkPkt op inputs tree checkpoints)) (\<lambda>_.
       bindR (rejectWith (verifyPhonePendingProof lib (aq_PendingProof req) inputs tree (es_PhoneBIP340 snap))) (\<lambda>_.
       bindR (rejectWith (pendingProofDigest lib (aq_PendingProof req))) (\<lambda>digest.
       Inr (arkPkt, digest))))))"

definition sameAuthorization :: "VtxoAuthorizeRequest \<Rightarrow> bytes \<Rightarrow> VtxoOperation \<Rightarrow> bool" where
  "sameAuthorization req pendingDigest op =
     (vo_UnsignedPSBT op = aq_UnsignedArkPsbt req \<and>
      vo_CheckpointPSBTs op = encodeJSONStringSlice (aq_UnsignedCheckpointPsbts req) \<and>
      vo_PendingProofDigest op = pendingDigest \<and> vo_AuthorizedPendingProof op \<noteq> [])"

definition authorizeResponse :: "VtxoOperation \<Rightarrow> VtxoAuthorizeResponse" where
  "authorizeResponse op =
     \<lparr> ar_OperationID = vo_OperationID op, ar_BundleDigest = hex_encode (vo_BundleDigest op),
       ar_AuthorizedPsbt = vo_AuthorizedPSBT op, ar_AuthorizedPendingProof = vo_AuthorizedPendingProof op,
       ar_ArkTxid = vo_ArkTxid op \<rparr>"

text \<open>Signing the two packets with the vault's key and checking the proof that comes back.\<close>

definition signAuthorization ::
  "('pk, 'sk, 'sg) ArkLib \<Rightarrow> callEnv \<Rightarrow> ('pk, 'sk) Service \<Rightarrow> VtxoAuthorizeRequest \<Rightarrow> string \<Rightarrow> VtxoOperationInput list \<Rightarrow>
     'pk vtxoPolicyTree \<Rightarrow> 'pk enrolledSnapshot \<Rightarrow> (string \<times> string) result" where
  "signAuthorization lib env s req vaultID inputs tree snap =
     bindR (vtxoKeyContextFor s vaultID) (\<lambda>keyContext.
     bindR (newVtxoTransactionAuthorization keyContext (aq_UnsignedArkPsbt req) (aq_PendingProof req) (vt_SpendLeaf tree)
       (expectedCosigner lib tree)) (\<lambda>authorization.
     bindR (authorizeTransactionWith lib (ce_signCtx env) (sv_keys s) authorization) (\<lambda>(signedArk, authorizedPendingProof).
     bindR (rejectWith (requireOnlyVaultSignatureAdded lib (aq_PendingProof req) authorizedPendingProof (expectedCosigner lib tree))) (\<lambda>_.
     bindR (rejectWith (verifyDualSignedPendingProof lib authorizedPendingProof inputs tree (es_PhoneBIP340 snap))) (\<lambda>_.
     Inr (signedArk, authorizedPendingProof))))))"

definition AuthorizeVtxoSpend ::
  "('pk, 'sk, 'sg) ArkLib \<Rightarrow> embeddedPacks \<Rightarrow> callEnv \<Rightarrow> ('pk, 'sk) Service \<Rightarrow> VtxoAuthorizeRequest \<Rightarrow> VtxoAuthorizeResponse result prog" where
  "AuthorizeVtxoSpend lib packs env s req =
     andP (requireLedgerIntegrity s) (\<lambda>_.
     checkP (requireVaultPolicyV1Exit packs s) (\<lambda>_.
     checkP (requireArkResolver s) (\<lambda>resolver.
     andP (resolveSpendVaultRecord s (aq_VaultID req)) (\<lambda>(vaultID, snap, _).
     andP (loadLiveVtxo vaultID (aq_OperationID req) vtxoPurposeSpend) (\<lambda>(op, inputs).
     if vo_State op \<noteq> vtxoStateReserved \<and> vo_State op \<noteq> vtxoStateSigned then Done (rejected ''vtxo operation state'')
     else
       checkP (requireCurrentVtxoFeePolicy lib resolver op) (\<lambda>_.
       checkP (requireBundleDigest (aq_BundleDigest req) (vo_BundleDigest op)) (\<lambda>_.
       checkP (rejectAs ''vault-policy-v1 spend unavailable'' (buildVtxoPolicyTree lib s vaultID snap)) (\<lambda>tree.
       checkP (verifyAuthorizePackets lib req op inputs tree snap) (\<lambda>(arkPkt, pendingDigest).
       let signedReplay = vo_State op = vtxoStateSigned in
       if signedReplay \<and> \<not> sameAuthorization req pendingDigest op then Done (rejected ''changed psbt'')
       else
         andP (verifyVtxoAuthorization env s vaultID (vo_BundleDigest op)
           \<lparr> wr_CredentialID = aq_CredentialID req, wr_ClientDataJSON = aq_ClientDataJSON req,
             wr_AuthenticatorData = aq_AuthenticatorData req, wr_Signature = aq_Signature req \<rparr> (aq_DirectSig req)) (\<lambda>(credentialID, signCount).
         if signedReplay then
           VerifyReplay (vo_OperationID op) vaultID credentialID signCount (\<lambda>r.
           checkP r (\<lambda>_. Done (Inr (authorizeResponse op))))
         else
           checkP (signAuthorization lib env s req vaultID inputs tree snap) (\<lambda>(signedArk, authorizedPendingProof).
           let signed' = op\<lparr> vo_UnsignedPSBT := aq_UnsignedArkPsbt req, vo_PendingProofDigest := pendingDigest,
                 vo_CheckpointPSBTs := encodeJSONStringSlice (aq_UnsignedCheckpointPsbts req),
                 vo_ArkTxid := HashString lib (TxHash lib (theTx arkPkt)), vo_AuthorizedPSBT := signedArk,
                 vo_AuthorizedPendingProof := authorizedPendingProof, vo_State := vtxoStateSigned \<rparr>
           in CommitSigned signed' credentialID signCount (\<lambda>r.
           checkP r (\<lambda>(current, swapped).
           if swapped then Done (Inr (authorizeResponse signed'))
           else if vo_State current \<noteq> vtxoStateSigned \<or> \<not> sameAuthorization req pendingDigest current then
             Done (rejected ''vtxo operation changed concurrently'')
           else Done (Inr (authorizeResponse current)))))))))))))))"

section \<open>Authorizing the checkpoints\<close>

definition verifyCheckpointPair ::
  "('pk, 'sk, 'sg) ArkLib \<Rightarrow> VtxoOperation \<Rightarrow> 'pk vtxoPolicyTree \<Rightarrow> string \<times> string \<times> VtxoOperationInput \<Rightarrow> unit result" where
  "verifyCheckpointPair lib op tree x =
     (case x of (raw, storedRaw, i) \<Rightarrow>
        bindR (rejectAs ''checkpoint psbt'' (parsePSBT lib raw)) (\<lambda>candidate.
        case parsePSBT lib storedRaw of
          Inl _ \<Rightarrow> rejected ''changed checkpoint''
        | Inr stored \<Rightarrow>
            if \<not> sameUnsignedPSBT lib stored candidate then rejected ''changed checkpoint''
            else rejectWith (verifySubmittedCheckpointPSBT lib candidate i op tree)))"

definition AuthorizeVtxoCheckpoints ::
  "('pk, 'sk, 'sg) ArkLib \<Rightarrow> embeddedPacks \<Rightarrow> callEnv \<Rightarrow> ('pk, 'sk) Service \<Rightarrow> VtxoCheckpointAuthorizeRequest \<Rightarrow>
     VtxoCheckpointAuthorizeResponse result prog" where
  "AuthorizeVtxoCheckpoints lib packs env s req =
     andP (requireLedgerIntegrity s) (\<lambda>_.
     checkP (requireVaultPolicyV1Exit packs s) (\<lambda>_.
     checkP (requireArkResolver s) (\<lambda>resolver.
     andP (resolveSpendVaultRecord s (cq_VaultID req)) (\<lambda>(vaultID, snap, _).
     andP (loadLiveVtxo vaultID (cq_OperationID req) vtxoPurposeSpend) (\<lambda>(op, inputs).
     if \<not> vtxoCheckpointAuthorizableState (vo_State op) then Done (rejected ''vtxo operation state'')
     else
       checkP (requireCurrentVtxoFeePolicy lib resolver op) (\<lambda>_.
       checkP (requireBundleDigest (cq_BundleDigest req) (vo_BundleDigest op)) (\<lambda>_.
       if length (cq_CheckpointPsbts req) \<noteq> length inputs then Done (rejected ''checkpoint count'')
       else
         checkP (rejectAs ''vault-policy-v1 spend unavailable'' (buildVtxoPolicyTree lib s vaultID snap)) (\<lambda>tree.
         let storedRaw = decodeJSONStringSlice (vo_CheckpointPSBTs op) in
         if length storedRaw \<noteq> length (cq_CheckpointPsbts req) then Done (rejected ''stored checkpoint count'')
         else
           checkP (eachR (verifyCheckpointPair lib op tree) (zip (cq_CheckpointPsbts req) (zip storedRaw inputs))) (\<lambda>_.
           let requestBinding = encodeJSONStringSlice (cq_CheckpointPsbts req);
               digestHex = hex_encode (vo_BundleDigest op);
               respond = (\<lambda>op psbts. \<lparr> cp_OperationID = vo_OperationID op, cp_BundleDigest = digestHex,
                 cp_CheckpointPsbts = psbts, cp_ArkTxid = vo_ArkTxid op \<rparr>)
           in
           if vo_State op = vtxoStateSubmitted then
             (if vo_CheckpointRequestPSBTs op \<noteq> requestBinding then Done (rejected ''changed checkpoint'')
              else Done (Inr (respond op storedRaw)))
           else
             checkP (vtxoKeyContextFor s vaultID) (\<lambda>keyContext.
             checkP (newVtxoCheckpointAuthorization keyContext (cq_CheckpointPsbts req) (vt_SpendLeaf tree)
               (expectedCosigner lib tree)) (\<lambda>authorization.
             checkP (authorizeCheckpointsWith lib (ce_signCtx env) (sv_keys s) authorization) (\<lambda>authorized.
             let submitted = op\<lparr> vo_CheckpointPSBTs := encodeJSONStringSlice authorized, vo_CheckpointRequestPSBTs := requestBinding,
                   vo_State := vtxoStateSubmitted \<rparr>
             in Transition vtxoStateSigned submitted (\<lambda>r.
             checkP r (\<lambda>(current, swapped).
             if swapped then Done (Inr (respond submitted authorized))
             else if vo_State current \<noteq> vtxoStateSubmitted \<or> vo_CheckpointRequestPSBTs current \<noteq> requestBinding then
               Done (rejected ''vtxo operation changed concurrently'')
             else Done (Inr (respond current (decodeJSONStringSlice (vo_CheckpointPSBTs current))))))))))))))))))"

section \<open>Finishing and aborting\<close>

definition finalizeResponse :: "VtxoOperation \<Rightarrow> string \<Rightarrow> VtxoFinalizeResponse" where
  "finalizeResponse op digestHex =
     \<lparr> fr_OperationID = vo_OperationID op, fr_BundleDigest = digestHex, fr_State = vo_State op, fr_ArkTxid = vo_ArkTxid op \<rparr>"

definition FinalizeVtxo :: "embeddedPacks \<Rightarrow> ('pk, 'sk) Service \<Rightarrow> VtxoFinalizeRequest \<Rightarrow> VtxoFinalizeResponse result prog" where
  "FinalizeVtxo packs s req =
     andP (requireLedgerIntegrity s) (\<lambda>_.
     checkP (requireVaultPolicyV1Exit packs s) (\<lambda>_.
     let arkTxid = to_lower (trim_space (fq_ArkTxid req)) in
     checkP (rejectAs ''arkTxid'' (requireTxid arkTxid)) (\<lambda>_.
     andP (resolveSpendVaultRecord s (fq_VaultID req)) (\<lambda>(vaultID, _, _).
     Get (fq_OperationID req) (\<lambda>loaded.
     case loaded of
       Inl err \<Rightarrow> Done (Inl (if err = ErrNoRows then ErrNotFound else err))
     | Inr op \<Rightarrow>
         if vo_VaultID op \<noteq> vaultID then Done (rejected ''operation does not belong to this vault'')
         else if vo_Purpose op \<noteq> vtxoPurposeSpend then Done (rejected ''vtxo purpose must be spend'')
         else
           checkP (requireBundleDigest (fq_BundleDigest req) (vo_BundleDigest op)) (\<lambda>_.
           let digestHex = hex_encode (vo_BundleDigest op) in
           if vo_State op = vtxoStateFinalized \<and> equalFold (vo_ArkTxid op) arkTxid then Done (Inr (finalizeResponse op digestHex))
           else if \<not> vtxoFinalizableState (vo_State op) then Done (rejected ''vtxo operation state'')
           else if \<not> equalFold (vo_ArkTxid op) arkTxid then Done (rejected ''arkTxid mismatch'')
           else
             checkP (requireArkResolver s) (\<lambda>resolver.
             andP (promoteSubmittedVtxo (Some resolver) op) (\<lambda>_.
             Get (fq_OperationID req) (\<lambda>reloaded.
             checkP reloaded (\<lambda>op.
             if vo_State op \<noteq> vtxoStateFinalized then Done (rejected ''reserved outpoint not spent by ark txid'')
             else Done (Inr (finalizeResponse op digestHex))))))))))))"

definition AbortVtxo :: "('pk, 'sk, 'sg) ArkLib \<Rightarrow> ('pk, 'sk) Service \<Rightarrow> VtxoAbortRequest \<Rightarrow> VtxoAbortResponse result prog" where
  "AbortVtxo lib s req =
     checkP (canonicalVtxoOperationID (bq_OperationID req)) (\<lambda>opID.
     andP (requireLedgerIntegrity s) (\<lambda>_.
     if trim_space (bq_Purpose req) \<noteq> vtxoPurposeSpend then Done (rejected ''vtxo purpose must be spend'')
     else
       andP (resolveSpendVaultRecord s (bq_VaultID req)) (\<lambda>(vaultID, snap, _).
       checkP (verifyVtxoAbortPhoneSignature lib req vaultID (es_PhoneBIP340 snap)) (\<lambda>_.
       Get opID (\<lambda>loaded.
       case loaded of
         Inl err \<Rightarrow> Done (Inl (mapMissingVtxo err))
       | Inr op \<Rightarrow>
           if vo_VaultID op \<noteq> vaultID then Done (rejected ''operation does not belong to this vault'')
           else if vo_Purpose op \<noteq> vtxoPurposeSpend then Done (rejected ''vtxo purpose'')
           else
             andP (expireReservedVtxo op) (\<lambda>op.
             if vo_State op \<noteq> vtxoStateReserved then Done (rejected ''vtxo operation is not abortable'')
             else if vtxoHasSigningArtifacts op then Done (rejected ''vtxo operation is not abortable'')
             else
               GetInputs (vo_OperationID op) (\<lambda>inputs.
               checkP inputs (\<lambda>inputs.
               checkP (requireAbortableVtxoInputs inputs) (\<lambda>_.
               Transition vtxoStateReserved (op\<lparr> vo_State := vtxoStateAborted \<rparr>) (\<lambda>r.
               checkP r (\<lambda>(_, swapped).
               if \<not> swapped then Done (rejected ''vtxo operation changed concurrently'')
               else Done (Inr \<lparr> br_OperationID = vo_OperationID op, br_State = vtxoStateAborted \<rparr>))))))))))))"

end
