(* ===== verification/SpendGrowth.thy ===== *)
theory SpendGrowth
  imports SpendService VtxoRuns
begin

text \<open>
  How the ledger grows while spending requests run. A stored operation keeps its terms for ever and the
  packets it was signed with from then on; it only changes together with its state. The inputs of a
  stored operation and the record of an enrolled vault stay.
\<close>

section \<open>What may become of an operation\<close>

text \<open>The columns fixed when the operation is reserved, and those fixed when it is signed and submitted.\<close>

definition opTerms :: "VtxoOperation \<Rightarrow> VtxoOperation" where
  "opTerms r = r\<lparr> vo_State := [], vo_UnsignedPSBT := [], vo_AuthorizedPSBT := [], vo_PendingProofDigest := [],
     vo_AuthorizedPendingProof := [], vo_CheckpointPSBTs := [], vo_CheckpointRequestPSBTs := [], vo_ArkTxid := [],
     vo_CreatedAt := [], vo_IntegrityMAC := [] \<rparr>"

definition opSigned :: "VtxoOperation \<Rightarrow> string \<times> string \<times> bytes \<times> string \<times> string" where
  "opSigned r = (vo_UnsignedPSBT r, vo_AuthorizedPSBT r, vo_PendingProofDigest r, vo_AuthorizedPendingProof r, vo_ArkTxid r)"

definition opSubmitted :: "VtxoOperation \<Rightarrow> string \<times> string" where
  "opSubmitted r = (vo_CheckpointPSBTs r, vo_CheckpointRequestPSBTs r)"

text \<open>The operation without its seal.\<close>

definition unsealed :: "VtxoOperation \<Rightarrow> VtxoOperation" where
  "unsealed r = r\<lparr> vo_IntegrityMAC := [] \<rparr>"

definition opLater :: "VtxoOperation \<Rightarrow> VtxoOperation \<Rightarrow> bool" where
  "opLater r r' \<longleftrightarrow> opTerms r' = opTerms r \<and> vtxoReaches (vo_State r) (vo_State r') \<and>
     (vo_State r' = vo_State r \<longrightarrow> unsealed r' = unsealed r) \<and>
     (vo_State r \<noteq> vtxoStateReserved \<longrightarrow> opSigned r' = opSigned r) \<and>
     (vo_State r \<noteq> vtxoStateReserved \<and> vo_State r \<noteq> vtxoStateSigned \<longrightarrow> opSubmitted r' = opSubmitted r)"

text \<open>A rank on the states shows that an operation never returns to a state it has left.\<close>

definition vtxoRank :: "string \<Rightarrow> nat" where
  "vtxoRank s = (if s = vtxoStateReserved then 0 else if s = vtxoStateSigned then 1 else if s = vtxoStateSubmitted then 2 else 3)"

lemma validVtxoTransition_rank: "validVtxoTransition a b \<Longrightarrow> vtxoRank a < vtxoRank b"
  by (auto simp: validVtxoTransition_iff vtxoRank_def)

lemma vtxoReaches_rank: "vtxoReaches a b \<Longrightarrow> a = b \<or> vtxoRank a < vtxoRank b"
  by (induction rule: rtranclp_induct) (auto dest: validVtxoTransition_rank)

lemma vtxoReaches_antisym: "vtxoReaches a b \<Longrightarrow> vtxoReaches b a \<Longrightarrow> a = b"
  using vtxoReaches_rank [of a b] vtxoReaches_rank [of b a] by auto

lemma vtxoReaches_past_reserved: "vtxoReaches a b \<Longrightarrow> a \<noteq> vtxoStateReserved \<Longrightarrow> b \<noteq> vtxoStateReserved"
  using vtxoReaches_rank [of a b] by (auto simp: vtxoRank_def split: if_splits)

lemma vtxoReaches_past_signed:
  "vtxoReaches a b \<Longrightarrow> a \<noteq> vtxoStateReserved \<Longrightarrow> a \<noteq> vtxoStateSigned \<Longrightarrow> b \<noteq> vtxoStateSigned"
  using vtxoReaches_rank [of a b] by (auto simp: vtxoRank_def split: if_splits)

lemma opLater_refl [simp]: "opLater r r"
  by (simp add: opLater_def)

lemma opLater_trans:
  assumes a: "opLater r s" and b: "opLater s t"
  shows "opLater r t"
proof -
  from a b have rs: "vtxoReaches (vo_State r) (vo_State s)" and st: "vtxoReaches (vo_State s) (vo_State t)"
    by (simp_all add: opLater_def)
  have "unsealed t = unsealed r" if "vo_State t = vo_State r"
  proof -
    have "vo_State s = vo_State r" using vtxoReaches_antisym [OF rs] st that by simp
    with that a b show ?thesis by (simp add: opLater_def)
  qed
  moreover have "opSigned t = opSigned r" if "vo_State r \<noteq> vtxoStateReserved"
    using a b that vtxoReaches_past_reserved [OF rs that] by (simp add: opLater_def)
  moreover have "opSubmitted t = opSubmitted r" if "vo_State r \<noteq> vtxoStateReserved" "vo_State r \<noteq> vtxoStateSigned"
    using a b that vtxoReaches_past_reserved [OF rs that(1)] vtxoReaches_past_signed [OF rs that] by (simp add: opLater_def)
  moreover have "opTerms t = opTerms r" using a b by (simp add: opLater_def)
  ultimately show ?thesis unfolding opLater_def using rtranclp_trans [OF rs st] by blast
qed

lemma opTerms_eqD:
  assumes "opTerms a = opTerms b"
  shows "vo_OperationID a = vo_OperationID b" "vo_VaultID a = vo_VaultID b" "vo_Purpose a = vo_Purpose b"
    "vo_BundleDigest a = vo_BundleDigest b" "vo_AmountSats a = vo_AmountSats b" "vo_FeeSats a = vo_FeeSats b"
    "vo_FeePolicyDigest a = vo_FeePolicyDigest b" "vo_DestScript a = vo_DestScript b" "vo_ChangeScript a = vo_ChangeScript b"
    "vo_ChangeSats a = vo_ChangeSats b" "vo_ChangeVout a = vo_ChangeVout b"
    "vo_CheckpointTapscript a = vo_CheckpointTapscript b" "vo_ExpiresAt a = vo_ExpiresAt b"
    "vo_LastDestScript a = vo_LastDestScript b" "outflow a = outflow b"
  using assms by (cases a; cases b; simp add: opTerms_def outflow_def)+

lemma opLater_keys: "opLater r r' \<Longrightarrow> vo_OperationID r' = vo_OperationID r \<and> vo_VaultID r' = vo_VaultID r"
  by (auto simp: opLater_def dest: opTerms_eqD)

lemma unsealed_eqD:
  assumes "unsealed a = unsealed b"
  shows "opTerms a = opTerms b" "opSigned a = opSigned b" "opSubmitted a = opSubmitted b" "vo_State a = vo_State b"
  using assms by (cases a; cases b; simp add: unsealed_def opTerms_def opSigned_def opSubmitted_def)+

lemma opLater_unsealed: "unsealed s = unsealed r \<Longrightarrow> opLater r s"
  using unsealed_eqD [of s r] by (simp add: opLater_def)

lemma SealVtxoOperation_unsealed: "SealVtxoOperation r key = Inr s \<Longrightarrow> unsealed s = unsealed r"
  by (auto simp: SealVtxoOperation_def res_simps unsealed_def)

lemma opLater_seal: "SealVtxoOperation r key = Inr s \<Longrightarrow> opLater q s \<longleftrightarrow> opLater q r"
  using SealVtxoOperation_unsealed [of r key s] opLater_unsealed opLater_trans by metis

section \<open>What may become of the ledger\<close>

abbreviation rowsOf :: "Ledger \<Rightarrow> VtxoOperation list" where "rowsOf l \<equiv> db_vtxo_operation (l_db l)"

abbreviation inputsOf :: "Ledger \<Rightarrow> VtxoOperationInput list" where "inputsOf l \<equiv> db_vtxo_operation_input (l_db l)"

definition keepsVaults :: "Ledger \<Rightarrow> Ledger \<Rightarrow> bool" where
  "keepsVaults l l' \<longleftrightarrow> (\<forall>v rec. find_row (\<lambda>r. vr_VaultID r = v) (db_vault (l_db l)) = Some rec \<longrightarrow>
     find_row (\<lambda>r. vr_VaultID r = v) (db_vault (l_db l')) = Some rec \<and>
     getVaultCredentialTx (l_db l') v = getVaultCredentialTx (l_db l) v)"

definition grows :: "Ledger \<Rightarrow> Ledger \<Rightarrow> bool" where
  "grows l l' \<longleftrightarrow> l_integrityKey l' = l_integrityKey l \<and> keepsVaults l l' \<and>
     (\<exists>ops new. list_all2 opLater (rowsOf l) ops \<and> rowsOf l' = ops @ new) \<and>
     (\<exists>new. inputsOf l' = inputsOf l @ new \<and> (\<forall>i \<in> set new. vi_OperationID i \<notin> vo_OperationID ` set (rowsOf l)))"

lemma keepsVaults_refl [simp]: "keepsVaults l l"
  by (simp add: keepsVaults_def)

lemma keepsVaults_trans: "keepsVaults a b \<Longrightarrow> keepsVaults b c \<Longrightarrow> keepsVaults a c"
  unfolding keepsVaults_def by metis

lemma list_all2_opLater_refl [simp]: "list_all2 opLater xs xs"
  by (simp add: list_all2_refl)

lemma grows_refl [simp]: "grows l l"
  unfolding grows_def by (intro conjI exI [of _ "rowsOf l"] exI [of _ "[]"]) simp_all

lemma laterRows_ids: "list_all2 opLater xs ys \<Longrightarrow> map vo_OperationID ys = map vo_OperationID xs"
  by (induction rule: list_all2_induct) (auto dest: opLater_keys)

lemma grows_trans:
  assumes ab: "grows a b" and bc: "grows b c"
  shows "grows a c"
proof -
  from ab obtain ops new i where 1: "list_all2 opLater (rowsOf a) ops" "rowsOf b = ops @ new"
    and i: "inputsOf b = inputsOf a @ i" "\<forall>x \<in> set i. vi_OperationID x \<notin> vo_OperationID ` set (rowsOf a)"
    unfolding grows_def by blast
  from bc obtain ops' new' j where 2: "list_all2 opLater (rowsOf b) ops'" "rowsOf c = ops' @ new'"
    and j: "inputsOf c = inputsOf b @ j" "\<forall>x \<in> set j. vi_OperationID x \<notin> vo_OperationID ` set (rowsOf b)"
    unfolding grows_def by blast
  from 2(1) 1(2) obtain u w where u: "ops' = u @ w" "list_all2 opLater ops u"
    by (auto simp: list_all2_append1)
  have "list_all2 opLater (rowsOf a) u"
    using list_all2_trans [OF opLater_trans 1(1) u(2)] .
  moreover have "rowsOf c = u @ (w @ new')" using 2(2) u(1) by simp
  moreover have "set (map vo_OperationID (rowsOf a)) \<subseteq> set (map vo_OperationID (rowsOf b))"
    using laterRows_ids [OF 1(1)] 1(2) by (metis Un_upper1 map_append set_append)
  then have "\<forall>x \<in> set (i @ j). vi_OperationID x \<notin> vo_OperationID ` set (rowsOf a)" using i j by auto
  moreover have "inputsOf c = inputsOf a @ (i @ j)" using i j by simp
  moreover have "l_integrityKey c = l_integrityKey a" "keepsVaults a c"
    using ab bc keepsVaults_trans [of a b c] by (simp_all add: grows_def)
  ultimately show ?thesis unfolding grows_def by blast
qed

lemma grows_row:
  assumes "grows l l'" and "r \<in> set (rowsOf l)"
  shows "\<exists>r' \<in> set (rowsOf l'). opLater r r'"
proof -
  from assms(1) obtain ops new where "list_all2 opLater (rowsOf l) ops" "rowsOf l' = ops @ new" unfolding grows_def by blast
  moreover from this(1) assms(2) obtain r' where "r' \<in> set ops" "opLater r r'"
    by (metis in_set_conv_nth list_all2_conv_all_nth)
  ultimately show ?thesis by auto
qed

text \<open>The inputs of one operation.\<close>

abbreviation storedInputs :: "Ledger \<Rightarrow> string \<Rightarrow> VtxoOperationInput list" where
  "storedInputs l i \<equiv> filter (\<lambda>x. vi_OperationID x = i) (inputsOf l)"

lemma grows_stored:
  assumes "grows l l'" and "i \<in> vo_OperationID ` set (rowsOf l)"
  shows "storedInputs l' i = storedInputs l i"
proof -
  from assms(1) obtain new where "inputsOf l' = inputsOf l @ new"
    "\<forall>x \<in> set new. vi_OperationID x \<notin> vo_OperationID ` set (rowsOf l)" unfolding grows_def by blast
  then show ?thesis using assms(2) by (auto simp: filter_empty_conv)
qed

lemma grows_inputs:
  assumes "grows l l'" and "i \<in> vo_OperationID ` set (rowsOf l)"
  shows "GetVtxoOperationInputs l' i = GetVtxoOperationInputs l i"
proof -
  have "l_integrityKey l' = l_integrityKey l" using assms(1) by (simp add: grows_def)
  with grows_stored [OF assms] show ?thesis
    by (simp add: GetVtxoOperationInputs_def loadVtxoOperationInputs_def integrityKeyCopy_def)
qed

lemma grows_vault:
  assumes "grows l l'" and "LoadVault l v = Inr (Some rec, c)"
  shows "LoadVault l' v = Inr (Some rec, c)"
  using assms by (auto simp: grows_def keepsVaults_def LoadVault_def split: if_splits option.splits)

section \<open>The calls grow the ledger\<close>

text \<open>A row the ledger expires: reserved before, aborted after, resealed.\<close>

definition expires :: "VtxoOperation \<Rightarrow> VtxoOperation \<Rightarrow> bool" where
  "expires r r' \<longleftrightarrow> r' = r \<or> vo_State r = vtxoStateReserved \<and> (\<exists>mac. r' = r\<lparr> vo_State := vtxoStateAborted, vo_IntegrityMAC := mac \<rparr>)"

lemma expires_later: "expires r r' \<Longrightarrow> opLater r r'"
  by (auto simp: expires_def opLater_def opTerms_def validVtxoTransition_iff intro!: r_into_rtranclp)

lemma expires_trans: "expires r s \<Longrightarrow> expires s t \<Longrightarrow> expires r t"
  by (auto simp: expires_def)

lemma abortRows_expires:
  "abortRows key rows d = Inr d' \<Longrightarrow> \<exists>ops. d' = d\<lparr> db_vtxo_operation := ops \<rparr> \<and> list_all2 expires (db_vtxo_operation d) ops"
proof (induction rows arbitrary: d)
  case Nil
  then show ?case by (intro exI [of _ "db_vtxo_operation d"]) (simp add: list_all2_refl expires_def)
next
  case (Cons rec rows)
  let ?ops = "\<lambda>s. update_rows (\<lambda>r. vo_OperationID r = vo_OperationID s \<and> vo_State r = vtxoStateReserved)
       (\<lambda>r. r\<lparr> vo_State := vo_State s, vo_IntegrityMAC := vo_IntegrityMAC s \<rparr>) (db_vtxo_operation d)"
  from Cons.prems obtain s where s: "SealVtxoOperation (rec\<lparr> vo_State := vtxoStateAborted \<rparr>) key = Inr s"
    and rest: "abortRows key rows (d\<lparr> db_vtxo_operation := ?ops s \<rparr>) = Inr d'"
    by (auto simp: res_simps)
  from SealVtxoOperation_keeps [OF s] have "vo_State s = vtxoStateAborted" by simp
  then have "expires r (if vo_OperationID r = vo_OperationID s \<and> vo_State r = vtxoStateReserved
      then r\<lparr> vo_State := vo_State s, vo_IntegrityMAC := vo_IntegrityMAC s \<rparr> else r)" for r
    unfolding expires_def by (cases "vo_OperationID r = vo_OperationID s \<and> vo_State r = vtxoStateReserved") auto
  then have one: "list_all2 expires (db_vtxo_operation d) (?ops s)"
    by (simp add: update_rows_def list_all2_map2 list_all2_same)
  from Cons.IH [OF rest] obtain ops where "d' = d\<lparr> db_vtxo_operation := ops \<rparr>" "list_all2 expires (?ops s) ops" by auto
  moreover have "list_all2 expires (db_vtxo_operation d) ops"
    using list_all2_trans [OF expires_trans one \<open>list_all2 expires (?ops s) ops\<close>] .
  ultimately show ?case by (intro exI [of _ ops] conjI)
qed

text \<open>The inputs stored with a reservation are those of the call, sealed under its id.\<close>

definition sealedInput :: "string \<Rightarrow> VtxoOperationInput \<Rightarrow> VtxoOperationInput \<Rightarrow> bool" where
  "sealedInput opID i s \<longleftrightarrow> (\<exists>mac. s = i\<lparr> vi_OperationID := opID, vi_IntegrityMAC := mac \<rparr>)"

lemma insertSealedInputs_sealed:
  "insertSealedInputs key opID is d = Inr d' \<Longrightarrow>
     \<exists>new. d' = d\<lparr> db_vtxo_operation_input := db_vtxo_operation_input d @ new \<rparr> \<and> list_all2 (sealedInput opID) is new"
proof (induction "is" arbitrary: d)
  case Nil
  then show ?case by (intro exI [of _ "[]"]) simp
next
  case (Cons i "is")
  from Cons.prems obtain s d1 where s: "SealVtxoOperationInput (i\<lparr> vi_OperationID := opID \<rparr>) key = Inr s"
    and ins: "insertVtxoOperationInput s d = Inr d1" and rest: "insertSealedInputs key opID is d1 = Inr d'"
    by (auto simp: res_simps)
  from s have "sealedInput opID i s" by (auto simp: SealVtxoOperationInput_def res_simps sealedInput_def)
  moreover from ins have "d1 = d\<lparr> db_vtxo_operation_input := db_vtxo_operation_input d @ [s] \<rparr>"
    by (auto simp: insertVtxoOperationInput_def res_simps)
  moreover from Cons.IH [OF rest] obtain new where "d' = d1\<lparr> db_vtxo_operation_input := db_vtxo_operation_input d1 @ new \<rparr>"
    "list_all2 (sealedInput opID) is new" by blast
  ultimately show ?case by (intro exI [of _ "s # new"]) simp
qed

lemma expires_rows:
  assumes "list_all2 expires xs ys"
  shows "list_all2 opLater xs ys" and "\<And>y. y \<in> set ys \<Longrightarrow> y \<in> set xs \<or> vo_State y = vtxoStateAborted"
proof -
  show "list_all2 opLater xs ys" using assms by (rule list_all2_mono) (rule expires_later)
  show "\<And>y. y \<in> set ys \<Longrightarrow> y \<in> set xs \<or> vo_State y = vtxoStateAborted"
    using assms by (induction rule: list_all2_induct) (auto simp: expires_def)
qed

lemma reserveBody_later:
  assumes "reserveBody l t1 t2 rec inputs cap d = Inr d'"
  obtains ops sealed new where "list_all2 expires (db_vtxo_operation d) ops" and "SealVtxoOperation rec (l_integrityKey l) = Inr sealed"
    and "d' = d\<lparr> db_vtxo_operation := ops @ [sealed], db_vtxo_operation_input := db_vtxo_operation_input d @ new \<rparr>"
    and "list_all2 (sealedInput (vo_OperationID rec)) inputs new" and "vo_OperationID rec \<notin> vo_OperationID ` set ops"
proof -
  from assms obtain d1 key sealed d2 where
    a: "abortExpiredVtxoLocked l d (vo_VaultID rec) t1 = Inr d1" and
    k: "integrityKeyCopy l = Inr key" and s: "SealVtxoOperation rec key = Inr sealed" and
    i: "insertVtxoOperation sealed d1 = Inr d2" and ins: "insertSealedInputs key (vo_OperationID sealed) inputs d2 = Inr d'"
    unfolding reserveBody_def by (auto simp: res_simps split: if_splits)
  from a obtain ops where ops: "d1 = d\<lparr> db_vtxo_operation := ops \<rparr>" "list_all2 expires (db_vtxo_operation d) ops"
    by (auto simp: abortExpiredVtxoLocked_def res_simps dest: abortRows_expires)
  from k have "key = l_integrityKey l" by (auto simp: integrityKeyCopy_def split: if_splits)
  with s that ops insertVtxoOperation_Inr [OF i] insertSealedInputs_sealed [OF ins] SealVtxoOperation_keeps [OF s]
  show thesis by auto
qed

end
