(* ===== verification/SpendLogic.thy ===== *)
theory SpendLogic
  imports SpendGrowth
begin

text \<open>
  A logic for the spending programs. \<open>wp V p Q l\<close> says that \<open>p\<close>, started with the ledger \<open>l\<close>, makes only
  calls that respect the ledger, that \<open>V\<close> vouches for every signature it stores, and that what it returns
  satisfies \<open>Q\<close>, whatever other requests do to the ledger between its calls as long as the ledger only
  grows.
\<close>

section \<open>What a request knows and what it may ask for\<close>

definition rely :: "Ledger \<Rightarrow> Ledger \<Rightarrow> bool" where
  "rely l l' \<longleftrightarrow> grows l l' \<and> opsInv (l_db l')"

lemma rely_trans: "rely a b \<Longrightarrow> rely b c \<Longrightarrow> rely a c"
  using grows_trans by (auto simp: rely_def)

lemma rely_refl: "opsInv (l_db l) \<Longrightarrow> rely l l"
  by (simp add: rely_def)

text \<open>An operation a request has read or written: the stored one is it, or has moved on from it.\<close>

definition seen :: "Ledger \<Rightarrow> VtxoOperation \<Rightarrow> bool" where
  "seen l op \<longleftrightarrow> (\<exists>r \<in> set (rowsOf l). opLater op r)"

lemma seen_row: "r \<in> set (rowsOf l) \<Longrightarrow> seen l r"
  unfolding seen_def by (rule bexI [of _ r]) simp_all

lemma seen_rely: "seen l op \<Longrightarrow> rely l l' \<Longrightarrow> seen l' op"
  unfolding seen_def rely_def using grows_row opLater_trans by metis

lemma seen_terms:
  assumes "seen l a" and "seen l b" and "vo_OperationID a = vo_OperationID b" and "opsInv (l_db l)"
  shows "opTerms a = opTerms b"
proof -
  from assms(1,2) obtain r s where r: "r \<in> set (rowsOf l)" "opLater a r" and s: "s \<in> set (rowsOf l)" "opLater b s"
    unfolding seen_def by blast
  have "r = s" by (rule opsInv_unique [OF assms(4) r(1) s(1)]) (use r(2) s(2) assms(3) opLater_keys in simp)
  with r s show ?thesis by (simp add: opLater_def)
qed

lemma GetVtxoOperation_row: "GetVtxoOperation l i = Inr op \<Longrightarrow> op \<in> set (rowsOf l) \<and> vo_OperationID op = i"
  by (auto simp: GetVtxoOperation_def loadVtxoOperation_def res_simps split: if_splits option.splits dest: find_row_Some)

text \<open>A record that may replace the stored operation when that is in state \<open>st\<close>.\<close>

definition mayMove :: "Ledger \<Rightarrow> string \<Rightarrow> VtxoOperation \<Rightarrow> bool" where
  "mayMove l st rec \<longleftrightarrow> (\<forall>r \<in> set (rowsOf l). vo_OperationID r = vo_OperationID rec \<longrightarrow>
     opTerms rec = opTerms r \<and> (vo_State r = st \<longrightarrow> opLater r rec))"

lemma seen_mayMove:
  assumes "seen l op" and "opsInv (l_db l)" and "vo_State op = st" and "validVtxoTransition st (vo_State rec)"
    and "opTerms rec = opTerms op" and "st \<noteq> vtxoStateReserved \<Longrightarrow> opSigned rec = opSigned op"
    and "st \<noteq> vtxoStateReserved \<Longrightarrow> st \<noteq> vtxoStateSigned \<Longrightarrow> opSubmitted rec = opSubmitted op"
  shows "mayMove l st rec"
  unfolding mayMove_def
proof (intro ballI impI conjI)
  fix r assume r: "r \<in> set (rowsOf l)" "vo_OperationID r = vo_OperationID rec"
  from assms(1) obtain s where s: "s \<in> set (rowsOf l)" "opLater op s" unfolding seen_def by blast
  have "r = s"
    by (rule opsInv_unique [OF assms(2) r(1) s(1)]) (use r(2) opLater_keys [OF s(2)] opTerms_eqD(1) [OF assms(5)] in simp)
  with s have later: "opLater op r" by simp
  then show terms: "opTerms rec = opTerms r" using assms(5) by (simp add: opLater_def)
  assume st: "vo_State r = st"
  with later assms(3) have u: "unsealed r = unsealed op" by (simp add: opLater_def)
  have "vo_State rec \<noteq> vo_State r" using validVtxoTransition_rank [OF assms(4)] st by auto
  then show "opLater r rec"
    unfolding opLater_def using terms st assms(4,6,7) unsealed_eqD [OF u] by (auto intro: r_into_rtranclp)
qed

text \<open>What a reservation must come with: the vault's own allowance, and a digest over its terms and inputs.\<close>

definition bundleOf :: "VtxoOperationInput \<Rightarrow> VtxoBundleInput" where
  "bundleOf i = \<lparr> vb_Txid = vi_Txid i, vb_Vout = ucast (vi_Vout i), vb_ValueSats = vi_ValueSats i \<rparr>"

definition digestBinds :: "VtxoOperation \<Rightarrow> VtxoBundleInput list \<Rightarrow> bool" where
  "digestBinds r ins \<longleftrightarrow> (\<exists>created. ComputeVtxoBundleDigest (vo_Purpose r) (vo_VaultID r) (vo_DestScript r) (vo_ChangeScript r)
     (vo_AmountSats r) (vo_FeeSats r) (vo_ChangeSats r) (vo_ChangeVout r) (vo_FeePolicyDigest r) ins created = Inr (vo_BundleDigest r))"

definition mayReserve :: "Ledger \<Rightarrow> VtxoOperation \<Rightarrow> VtxoOperationInput list \<Rightarrow> i64 \<Rightarrow> bool" where
  "mayReserve l rec ins cap \<longleftrightarrow> digestBinds rec (map bundleOf ins) \<and>
     (\<exists>vault c. LoadVault l (vo_VaultID rec) = Inr (Some vault, c) \<and> cap = periodAllowanceSats (Some vault) None)"

text \<open>
  A record that may replace a signed operation: it keeps the checkpoints, or \<open>V\<close> vouches for the new ones
  against the column of the stored operation.
\<close>

definition maySubmit :: "(Ledger \<Rightarrow> string option \<Rightarrow> VtxoOperation \<Rightarrow> bool) \<Rightarrow> Ledger \<Rightarrow> string \<Rightarrow> VtxoOperation \<Rightarrow> bool" where
  "maySubmit V l st rec \<longleftrightarrow> (st = vtxoStateSigned \<longrightarrow> (\<forall>r \<in> set (rowsOf l). vo_OperationID r = vo_OperationID rec \<and> vo_State r = st \<longrightarrow>
     opSubmitted rec = opSubmitted r \<or> V l (Some (vo_CheckpointPSBTs r)) rec))"

section \<open>The logic\<close>

text \<open>The answer to an update: the stored operation, which is the caller's own record when it was swapped in.\<close>

definition moved :: "VtxoOperation \<Rightarrow> (VtxoOperation \<times> bool) result \<Rightarrow> Ledger \<Rightarrow> bool" where
  "moved rec r l \<longleftrightarrow> (\<forall>current swapped. r = Inr (current, swapped) \<longrightarrow>
     seen l current \<and> vo_OperationID current = vo_OperationID rec \<and> (swapped \<longrightarrow> seen l rec))"

primrec wp :: "(Ledger \<Rightarrow> string option \<Rightarrow> VtxoOperation \<Rightarrow> bool) \<Rightarrow> 'a prog \<Rightarrow> ('a \<Rightarrow> Ledger \<Rightarrow> bool) \<Rightarrow> Ledger \<Rightarrow> bool" where
  "wp V (Done x) Q l \<longleftrightarrow> Q x l"
| "wp V (Now k) Q l \<longleftrightarrow> (\<forall>t l'. rely l l' \<longrightarrow> wp V (k t) Q l')"
| "wp V (RequireKey key k) Q l \<longleftrightarrow> (\<forall>r l'. rely l l' \<longrightarrow> wp V (k r) Q l')"
| "wp V (LoadVerified v key k) Q l \<longleftrightarrow> (\<forall>a l'. rely l l' \<longrightarrow> answered (LoadVerifiedVault l' v key) a \<longrightarrow> wp V (k a) Q l')"
| "wp V (Get i k) Q l \<longleftrightarrow> (\<forall>r l'. rely l l' \<longrightarrow> (\<forall>op. r = Inr op \<longrightarrow> seen l' op \<and> vo_OperationID op = i) \<longrightarrow> wp V (k r) Q l')"
| "wp V (GetInputs i k) Q l \<longleftrightarrow> (\<forall>a l'. rely l l' \<longrightarrow> answered (GetVtxoOperationInputs l' i) a \<longrightarrow> wp V (k a) Q l')"
| "wp V (Reserve rec ins cap k) Q l \<longleftrightarrow> (\<forall>l'. rely l l' \<longrightarrow> mayReserve l' rec ins cap \<and>
     (\<forall>r l''. rely l' l'' \<longrightarrow> (r = Inr () \<longrightarrow> seen l'' rec) \<longrightarrow> wp V (k r) Q l''))"
| "wp V (Transition st rec k) Q l \<longleftrightarrow> (\<forall>l'. rely l l' \<longrightarrow> mayMove l' st rec \<and> vo_State rec \<noteq> vtxoStateSigned \<and> maySubmit V l' st rec \<and>
     (\<forall>r l''. rely l' l'' \<longrightarrow> moved rec r l'' \<longrightarrow> wp V (k r) Q l''))"
| "wp V (CommitSigned rec c n k) Q l \<longleftrightarrow> (\<forall>l'. rely l l' \<longrightarrow> mayMove l' vtxoStateReserved rec \<and> V l' None rec \<and>
     (\<forall>r l''. rely l' l'' \<longrightarrow> moved rec r l'' \<longrightarrow> wp V (k r) Q l''))"
| "wp V (VerifyReplay i v c n k) Q l \<longleftrightarrow> (\<forall>r l'. rely l l' \<longrightarrow> wp V (k r) Q l')"

lemma wp_bindP: "wp V (bindP p f) Q l \<longleftrightarrow> wp V p (\<lambda>x. wp V (f x) Q) l"
  by (induction p arbitrary: l) simp_all

lemma wp_Done: "wp V (Done x) Q = Q x"
  by (rule ext) simp

lemma wp_mapP: "wp V (mapP f p) Q l \<longleftrightarrow> wp V p (\<lambda>x. Q (f x)) l"
  by (simp add: mapP_def wp_bindP wp_Done)

lemma wp_rely:
  assumes "wp V p Q l" and "rely l l'" and "\<And>x. Q x l \<Longrightarrow> Q x l'"
  shows "wp V p Q l'"
  using assms(1,3) rely_trans [OF assms(2)] by (cases p) auto

text \<open>A postcondition may be weakened with what holds of every ledger grown from the first.\<close>

lemma wp_weaken_base:
  assumes "\<And>x l. base l \<Longrightarrow> Q x l \<Longrightarrow> R x l" and "\<And>l l'. base l \<Longrightarrow> rely l l' \<Longrightarrow> base l'"
  shows "base l \<Longrightarrow> wp V p Q l \<Longrightarrow> wp V p R l"
proof (induction p arbitrary: l)
  case (Reserve rec ins cap k)
  then show ?case using assms(2) rangeI unfolding wp.simps by metis
next
  case (Transition st rec k)
  then show ?case using assms(2) rangeI unfolding wp.simps by metis
next
  case (CommitSigned rec c n k)
  then show ?case using assms(2) rangeI unfolding wp.simps by metis
qed (use assms rangeI in \<open>auto\<close>)

lemma wp_weaken:
  assumes "wp V p Q l" and "\<And>x l'. l' = l \<or> rely l l' \<Longrightarrow> Q x l' \<Longrightarrow> R x l'"
  shows "wp V p R l"
  by (rule wp_weaken_base [of "\<lambda>l'. l' = l \<or> rely l l'", OF assms(2) _ _ assms(1)]) (auto intro: rely_trans)

section \<open>The calls respect the ledger\<close>

lemma keepsVaults_same:
  "db_vault (l_db l') = db_vault (l_db l) \<Longrightarrow> db_vault_credential (l_db l') = db_vault_credential (l_db l) \<Longrightarrow> keepsVaults l l'"
  unfolding keepsVaults_def getVaultCredentialTx_def by (simp cong: option.case_cong)

lemma opsInv_later:
  assumes "opsInv d" and "list_all2 opLater (db_vtxo_operation d) ops" and "vo_OperationID r \<notin> vo_OperationID ` set ops"
    and "\<forall>i \<in> set new. vi_OperationID i = vo_OperationID r"
  shows "opsInv (d\<lparr> db_vtxo_operation := ops @ [r], db_vtxo_operation_input := db_vtxo_operation_input d @ new \<rparr>)"
proof -
  have "vo_OperationID ` set ops = vo_OperationID ` set (db_vtxo_operation d)"
    using laterRows_ids [OF assms(2)] by (metis list.set_map)
  with assms laterRows_ids [OF assms(2)] show ?thesis by (auto simp: opsInv_def)
qed

lemma opsInv_moved:
  assumes "opsInv d" and "list_all2 opLater (db_vtxo_operation d) ops"
  shows "opsInv (d\<lparr> db_vtxo_operation := ops \<rparr>)"
proof -
  have "vo_OperationID ` set ops = vo_OperationID ` set (db_vtxo_operation d)"
    using laterRows_ids [OF assms(2)] by (metis list.set_map)
  with assms laterRows_ids [OF assms(2)] show ?thesis by (simp add: opsInv_def)
qed

lemma sealedInput_ids: "list_all2 (sealedInput opID) is new \<Longrightarrow> \<forall>i \<in> set new. vi_OperationID i = opID"
  by (induction rule: list_all2_induct) (auto simp: sealedInput_def)

lemma sealedInput_bundle: "list_all2 (sealedInput opID) is new \<Longrightarrow> map bundleOf new = map bundleOf is"
  by (induction rule: list_all2_induct) (auto simp: sealedInput_def bundleOf_def)

lemma reserve_grows:
  assumes "ReserveVtxoOperation fault cf t1 t2 l rec ins cap = (r, l')" and "opsInv (l_db l)"
  shows "rely l l' \<and> (r = Inr () \<longrightarrow> seen l' rec) \<and>
    (\<forall>x \<in> set (rowsOf l'). x \<in> set (rowsOf l) \<or> (\<exists>o' \<in> set (rowsOf l). opLater o' x \<and> vo_State x = vtxoStateAborted) \<or>
       unsealed x = unsealed rec \<and> vo_State rec = vtxoStateReserved \<and>
       map bundleOf (storedInputs l' (vo_OperationID x)) = map bundleOf ins)"
  using assms(1)
proof (cases rule: Reserve_cases)
  case (fail e fl)
  then have "grows l l'" unfolding grows_def
    by (intro conjI exI [of _ "rowsOf l"] exI [of _ "[]"] keepsVaults_same) simp_all
  with fail assms(2) show ?thesis by (simp add: rely_def)
next
  case (ok d fl)
  from ok(4) show ?thesis
  proof (rule reserveBody_later)
    fix ops sealed new
    assume exps: "list_all2 expires (rowsOf l) ops" and seal: "SealVtxoOperation rec (l_integrityKey l) = Inr sealed"
      and d: "d = l_db l\<lparr> db_vtxo_operation := ops @ [sealed], db_vtxo_operation_input := inputsOf l @ new \<rparr>"
      and new: "list_all2 (sealedInput (vo_OperationID rec)) ins new" and fresh: "vo_OperationID rec \<notin> vo_OperationID ` set ops"
    note later = expires_rows(1) [OF exps]
    have id: "vo_OperationID sealed = vo_OperationID rec" using SealVtxoOperation_keeps [OF seal] by simp
    have ids: "\<forall>i \<in> set new. vi_OperationID i = vo_OperationID sealed" using sealedInput_ids [OF new] id by simp
    have ids_eq: "vo_OperationID ` set ops = vo_OperationID ` set (rowsOf l)"
      using laterRows_ids [OF later] by (metis list.set_map)
    with fresh id ids have "\<forall>i \<in> set new. vi_OperationID i \<notin> vo_OperationID ` set (rowsOf l)" by simp
    moreover have "l_integrityKey l' = l_integrityKey l" and rows: "rowsOf l' = ops @ [sealed]"
      and inps: "inputsOf l' = inputsOf l @ new" and "keepsVaults l l'" using ok(2) d by (simp_all add: keepsVaults_same)
    ultimately have "grows l l'" using later unfolding grows_def by blast
    moreover have "opsInv (l_db l')"
      using opsInv_later [OF assms(2) later _ ids] fresh id ok(2) d by simp
    moreover have "seen l' rec"
      unfolding seen_def using ok(2) d opLater_unsealed [OF SealVtxoOperation_unsealed [OF seal]] by auto
    moreover have "x \<in> set (rowsOf l) \<or> (\<exists>o' \<in> set (rowsOf l). opLater o' x \<and> vo_State x = vtxoStateAborted) \<or>
        unsealed x = unsealed rec \<and> vo_State rec = vtxoStateReserved \<and>
        map bundleOf (storedInputs l' (vo_OperationID x)) = map bundleOf ins" if x: "x \<in> set (rowsOf l')" for x
    proof (cases "x \<in> set ops")
      case True
      then have "\<exists>o' \<in> set (rowsOf l). opLater o' x" using later by (metis in_set_conv_nth list_all2_conv_all_nth)
      with expires_rows(2) [OF exps True] show ?thesis by blast
    next
      case False
      then have xs: "x = sealed" using x rows by simp
      have "vo_OperationID x \<notin> vo_OperationID ` set (rowsOf l)" using fresh ids_eq id xs by simp
      then have "storedInputs l (vo_OperationID x) = []"
        using assms(2) unfolding filter_empty_conv opsInv_def by metis
      moreover have "filter (\<lambda>i. vi_OperationID i = vo_OperationID x) new = new"
        using ids xs by (auto intro: filter_True)
      ultimately have "storedInputs l' (vo_OperationID x) = new" by (simp add: inps)
      with sealedInput_bundle [OF new] SealVtxoOperation_unsealed [OF seal] xs ok(3) show ?thesis by simp
    qed
    ultimately show ?thesis by (simp add: rely_def)
  qed
qed

lemma mayMove_seal: "SealVtxoOperation rec key = Inr s \<Longrightarrow> mayMove l st s \<longleftrightarrow> mayMove l st rec"
  unfolding mayMove_def using SealVtxoOperation_keeps [of rec key s] opLater_seal [of rec key s]
    unsealed_eqD(1) [OF SealVtxoOperation_unsealed, of rec key s] by auto

lemma mayMove_outflow: "mayMove l st rec \<Longrightarrow> keepsOutflow (l_db l) rec"
  unfolding mayMove_def keepsOutflow_def by (metis opTerms_eqD(15) order_refl)

lemma update_later:
  assumes "updateVtxoOperation st rec (l_db l) = Inr (n, d)" and "mayMove l st rec"
  obtains ops where "d = l_db l\<lparr> db_vtxo_operation := ops \<rparr>" and "list_all2 opLater (rowsOf l) ops" and "n > 0 \<Longrightarrow> rec \<in> set ops"
    and "\<And>x. x \<in> set ops \<Longrightarrow> x \<in> set (rowsOf l) \<or> x = rec \<and> (\<exists>r \<in> set (rowsOf l). opLater r rec \<and> vo_State r = st)"
proof -
  let ?hit = "\<lambda>r. vo_OperationID r = vo_OperationID rec \<and> vo_VaultID r = vo_VaultID rec \<and> vo_State r = st"
  let ?ops = "update_rows ?hit (\<lambda>_. rec) (rowsOf l)"
  from assms(1) have n: "n = affected ?hit (rowsOf l)" and d: "d = l_db l\<lparr> db_vtxo_operation := ?ops \<rparr>"
    by (auto simp: updateVtxoOperation_def Let_def split: if_splits)
  have "opLater r (if ?hit r then rec else r)" if "r \<in> set (rowsOf l)" for r
    using assms(2) that by (simp add: mayMove_def)
  then have later: "list_all2 opLater (rowsOf l) ?ops"
    by (simp add: update_rows_def list_all2_map2 list_all2_same)
  have "rec \<in> set ?ops" if "n > 0"
    using that n by (auto simp: affected_def set_update_rows filter_empty_conv)
  moreover have "x \<in> set (rowsOf l) \<or> x = rec \<and> (\<exists>r \<in> set (rowsOf l). opLater r rec \<and> vo_State r = st)" if "x \<in> set ?ops" for x
    using that assms(2) unfolding set_update_rows mayMove_def by blast
  ultimately show thesis using that d later by blast
qed

text \<open>An update through either call: the ledger only grows, and the answer is the stored operation.\<close>

lemma moved_rows:
  assumes "list_all2 opLater (rowsOf l) ops" and "opsInv (l_db l)" and "rowsOf l' = ops" and "inputsOf l' = inputsOf l"
    and "l_integrityKey l' = l_integrityKey l" and "keepsVaults l l'"
  shows "rely l l'"
proof -
  have "grows l l'" unfolding grows_def
    using assms by (intro conjI exI [of _ ops] exI [of _ "[]"]) simp_all
  moreover have "opsInv (l_db l') = opsInv (l_db l\<lparr> db_vtxo_operation := ops \<rparr>)" using assms by (simp add: opsInv_def)
  ultimately show ?thesis using opsInv_moved [OF assms(2,1)] by (simp add: rely_def)
qed

lemma loadVtxoOperation_row:
  "loadVtxoOperation l d i = Inr op \<Longrightarrow> op \<in> set (db_vtxo_operation d) \<and> vo_OperationID op = i"
  by (auto simp: loadVtxoOperation_def res_simps split: option.splits dest: find_row_Some)

lemma transition_moves:
  assumes "TransitionVtxoOperation l st rec = (r, l')" and "mayMove l st rec" and "opsInv (l_db l)"
  shows "rely l l' \<and> moved rec r l' \<and> (\<forall>x \<in> set (rowsOf l'). x \<in> set (rowsOf l) \<or>
      unsealed x = unsealed rec \<and> (\<exists>o' \<in> set (rowsOf l). opLater o' x \<and> vo_State o' = st \<and> validVtxoTransition st (vo_State x)))"
proof (cases "bindR (integrityKeyCopy l) (SealVtxoOperation rec)")
  case (Inl e)
  with assms have "l' = l" "\<exists>e. r = Inl e" by (auto simp: TransitionVtxoOperation_def split: if_splits)
  with assms(3) show ?thesis by (auto simp: rely_refl moved_def)
next
  case (Inr s)
  then have s: "SealVtxoOperation rec (l_integrityKey l) = Inr s"
    by (auto simp: res_simps integrityKeyCopy_def split: if_splits)
  note u = SealVtxoOperation_unsealed [OF s]
  have id: "vo_OperationID s = vo_OperationID rec" using SealVtxoOperation_keeps [OF s] by simp
  show ?thesis
  proof (cases "updateVtxoOperation st s (l_db l)")
    case (Inl e)
    with assms \<open>bindR (integrityKeyCopy l) (SealVtxoOperation rec) = Inr s\<close> have "l' = l" "\<exists>e. r = Inl e"
      by (auto simp: TransitionVtxoOperation_def split: if_splits)
    with assms(3) show ?thesis by (auto simp: rely_refl moved_def)
  next
    case upd: (Inr nd)
    obtain n d where nd: "nd = (n, d)" by fastforce
    from update_later [OF upd [unfolded nd]] mayMove_seal [OF s] assms(2) obtain ops where
      d: "d = l_db l\<lparr> db_vtxo_operation := ops \<rparr>" "list_all2 opLater (rowsOf l) ops" "n > 0 \<Longrightarrow> s \<in> set ops"
      and rows: "\<And>x. x \<in> set ops \<Longrightarrow> x \<in> set (rowsOf l) \<or> x = s \<and> (\<exists>r \<in> set (rowsOf l). opLater r s \<and> vo_State r = st)"
      by blast
    have valid: "validVtxoTransition st (vo_State s) \<or> l' = l \<and> (\<exists>e. r = Inl e)"
      using assms(1) SealVtxoOperation_keeps [OF s] by (auto simp: TransitionVtxoOperation_def split: if_splits)
    have changed: "x \<in> set (rowsOf l) \<or> unsealed x = unsealed rec \<and>
        (\<exists>o' \<in> set (rowsOf l). opLater o' x \<and> vo_State o' = st \<and> validVtxoTransition st (vo_State x))"
      if "x \<in> set ops" "validVtxoTransition st (vo_State s)" for x
      using rows [OF that(1)] that(2) u by metis
    let ?l = "l\<lparr> l_db := d \<rparr>"
    have rely: "rely l ?l" by (rule moved_rows [OF d(2) assms(3)]) (simp_all add: d(1) keepsVaults_same)
    from assms(1) Inr upd nd consider "l' = l" "\<exists>e. r = Inl e" | "l' = ?l" "r = Inr (s, True)" "n = 1"
      | e where "l' = ?l" "r = Inl e" "validVtxoTransition st (vo_State rec)" | c where "l' = ?l" "r = Inr (c, False)" "loadVtxoOperation ?l d (vo_OperationID s) = Inr c"
      by (auto simp: TransitionVtxoOperation_def Let_def split: if_splits sum.splits)
    then show ?thesis
    proof cases
      case 1
      with assms(3) show ?thesis by (auto simp: rely_refl moved_def)
    next
      case 2
      then have "s \<in> set (rowsOf l')" using d by simp
      then have "seen l' s" "seen l' rec"
        using seen_row opLater_unsealed [OF u] unfolding seen_def by blast+
      with 2 rely valid changed id show ?thesis by (auto simp: moved_def d(1))
    next
      case 3
      with rely valid changed SealVtxoOperation_keeps [OF s] show ?thesis by (auto simp: moved_def d(1))
    next
      case (4 c)
      from loadVtxoOperation_row [OF 4(3)] 4(1) have "seen l' c" "vo_OperationID c = vo_OperationID s"
        by (simp_all add: seen_row)
      with 4 rely valid changed id show ?thesis by (auto simp: moved_def d(1))
    qed
  qed
qed

lemma advanceSignCount_vaults:
  "advanceSignCountLocked l now v c n d = Inr d' \<Longrightarrow>
     db_vault d' = db_vault d \<and> db_vault_credential d' = db_vault_credential d"
  by (auto simp: advanceSignCountLocked_def writeSignCount_def upsertSignCount_def Let_def res_simps
      split: option.splits if_splits)

lemma affected_unique:
  "distinct (map f xs) \<Longrightarrow> affected (\<lambda>r. f r = k \<and> P r) xs \<le> 1"
proof (induction xs)
  case (Cons x xs)
  show ?case
  proof (cases "f x = k")
    case True
    then have "f y \<noteq> k" if "y \<in> set xs" for y using Cons.prems that by (metis distinct.simps(2) image_eqI list.set_map list.simps(9))
    then have "filter (\<lambda>r. f r = k \<and> P r) xs = []" by (simp add: filter_empty_conv)
    then show ?thesis by (simp add: affected_def)
  qed (use Cons in \<open>simp add: affected_def\<close>)
qed (simp add: affected_def)

lemma commit_moves:
  assumes run: "CommitSignedVtxoOperation cf now l rec c n = (r, l')" and move: "mayMove l vtxoStateReserved rec"
    and inv: "opsInv (l_db l)"
  shows "rely l l' \<and> moved rec r l' \<and> (\<forall>x \<in> set (rowsOf l'). x \<in> set (rowsOf l) \<or> unsealed x = unsealed rec \<and> (\<exists>o' \<in> set (rowsOf l). opLater o' x))"
  using run
proof (cases rule: CommitSigned_cases)
  case same
  have "seen l current \<and> vo_OperationID current = vo_OperationID rec" if "r = Inr (current, False)" for current
  proof -
    from run that obtain s k d where s: "SealVtxoOperation rec (l_integrityKey l) = Inr s"
      and u: "updateVtxoOperation vtxoStateReserved s (l_db l) = Inr (k, d)" "k \<noteq> 1"
      and load: "loadVtxoOperation l d (vo_OperationID s) = Inr current"
      by (auto simp: CommitSignedVtxoOperation_def integrityKeyCopy_def split: if_splits sum.splits)
    from u(1) have k: "k = affected (\<lambda>r. vo_OperationID r = vo_OperationID s \<and> vo_VaultID r = vo_VaultID s \<and>
        vo_State r = vtxoStateReserved) (rowsOf l)"
      and d: "db_vtxo_operation d = update_rows (\<lambda>r. vo_OperationID r = vo_OperationID s \<and> vo_VaultID r = vo_VaultID s \<and>
        vo_State r = vtxoStateReserved) (\<lambda>_. s) (rowsOf l)"
      by (auto simp: updateVtxoOperation_def Let_def split: if_splits)
    have "distinct (map vo_OperationID (rowsOf l))" using inv by (simp add: opsInv_def)
    then have "k \<le> 1" unfolding k by (rule affected_unique)
    with u(2) have "k = 0" by linarith
    then have "db_vtxo_operation d = rowsOf l"
      unfolding d k by (auto simp: affected_def filter_empty_conv update_rows_def intro!: map_idI)
    with loadVtxoOperation_row [OF load] SealVtxoOperation_keeps [OF s] show ?thesis by (simp add: seen_row)
  qed
  then have "moved rec r l" unfolding moved_def using same(2) by (metis (full_types))
  with same(1) inv show ?thesis by (simp add: rely_refl)
next
  case (update s d d')
  note u = SealVtxoOperation_unsealed [OF update(1)]
  have id: "vo_OperationID s = vo_OperationID rec" using SealVtxoOperation_keeps [OF update(1)] by simp
  from update_later [OF update(3)] mayMove_seal [OF update(1)] move obtain ops where
    d: "d = l_db l\<lparr> db_vtxo_operation := ops \<rparr>" "list_all2 opLater (rowsOf l) ops" "s \<in> set ops"
    "\<And>x. x \<in> set ops \<Longrightarrow> x \<in> set (rowsOf l) \<or> x = s \<and> (\<exists>r \<in> set (rowsOf l). opLater r s \<and> vo_State r = vtxoStateReserved)"
    by auto
  note frame = advanceSignCount_frame [OF update(4)] advanceSignCount_vaults [OF update(4)]
  have "rely l l'" by (rule moved_rows [OF d(2) inv]) (use update(5) frame d(1) in \<open>simp_all add: keepsVaults_same\<close>)
  moreover have "s \<in> set (rowsOf l')" using update(5) frame d by simp
  then have "seen l' s" and "seen l' rec"
    using opLater_unsealed [OF u] by (blast intro: seen_row, unfold seen_def, blast)
  then have "moved rec r l'" unfolding moved_def update(6) using id by simp
  moreover have rows: "rowsOf l' = ops" using update(5) frame d(1) by simp
  have "\<forall>x \<in> set (rowsOf l'). x \<in> set (rowsOf l) \<or> unsealed x = unsealed rec \<and> (\<exists>o' \<in> set (rowsOf l). opLater o' x)"
    unfolding rows using d(4) u by metis
  ultimately show ?thesis by (intro conjI)
qed

end
