(* ===== verification/SpendSafe.thy ===== *)
theory SpendSafe
  imports SpendLogic
begin

text \<open>
  The rules of the logic for programs that may fail, and the parts the spending handlers share: the
  checks of the ledger and of the vault, the expiry of a reservation, the promotion of a submitted
  operation, and the authorization by the phone.
\<close>

section \<open>The handlers make only such calls\<close>

text \<open>Programs that may fail: the postcondition is about a successful answer.\<close>

abbreviation onSuccess :: "('a \<Rightarrow> Ledger \<Rightarrow> bool) \<Rightarrow> 'a result \<Rightarrow> Ledger \<Rightarrow> bool" where
  "onSuccess Q \<equiv> \<lambda>r l. \<forall>x. r = Inr x \<longrightarrow> Q x l"

definition wpR :: "(Ledger \<Rightarrow> string option \<Rightarrow> VtxoOperation \<Rightarrow> bool) \<Rightarrow> 'a result prog \<Rightarrow> ('a \<Rightarrow> Ledger \<Rightarrow> bool) \<Rightarrow> Ledger \<Rightarrow> bool" where
  "wpR V p Q l \<longleftrightarrow> wp V p (onSuccess Q) l"

lemma wpR_fail [intro!, simp]: "wpR V (Done (Inl e)) Q l"
  by (simp add: wpR_def)

lemma wpR_done: "Q x l \<Longrightarrow> wpR V (Done (Inr x)) Q l"
  by (simp add: wpR_def)

lemma wpR_check: "(\<And>x. m = Inr x \<Longrightarrow> wpR V (f x) Q l) \<Longrightarrow> wpR V (checkP m f) Q l"
  by (cases m) (simp_all add: checkP_def)

lemma wpR_and: "wpR V p (\<lambda>x. wpR V (f x) Q) l \<Longrightarrow> wpR V (andP p f) Q l"
  unfolding wpR_def wp_bindP by (erule wp_weaken) (auto simp: checkP_def split: sum.splits)

lemma wpR_weaken: "wpR V p Q l \<Longrightarrow> (\<And>x l'. l' = l \<or> rely l l' \<Longrightarrow> Q x l' \<Longrightarrow> R x l') \<Longrightarrow> wpR V p R l"
  unfolding wpR_def by (erule wp_weaken) blast

lemma wpR_if: "(c \<Longrightarrow> wpR V p Q l) \<Longrightarrow> (\<not> c \<Longrightarrow> wpR V q Q l) \<Longrightarrow> wpR V (if c then p else q) Q l"
  by simp

lemma wpR_option: "(m = None \<Longrightarrow> wpR V p Q l) \<Longrightarrow> (\<And>x. m = Some x \<Longrightarrow> wpR V (f x) Q l) \<Longrightarrow>
  wpR V (case m of None \<Rightarrow> p | Some x \<Rightarrow> f x) Q l"
  by (cases m) simp_all

lemma wpR_pair: "(\<And>a b. x = (a, b) \<Longrightarrow> wpR V (f a b) Q l) \<Longrightarrow> wpR V (case x of (a, b) \<Rightarrow> f a b) Q l"
  by (cases x) simp

lemma wpR_Now: "(\<And>t l'. rely l l' \<Longrightarrow> wpR V (k t) Q l') \<Longrightarrow> wpR V (Now k) Q l"
  by (simp add: wpR_def)

lemma wpR_RequireKey: "(\<And>r l'. rely l l' \<Longrightarrow> wpR V (k r) Q l') \<Longrightarrow> wpR V (RequireKey key k) Q l"
  by (simp add: wpR_def)

lemma wpR_LoadVerified:
  "(\<And>a l'. rely l l' \<Longrightarrow> answered (LoadVerifiedVault l' v key) a \<Longrightarrow> wpR V (k a) Q l') \<Longrightarrow> wpR V (LoadVerified v key k) Q l"
  by (simp add: wpR_def)

lemma wpR_Get:
  "(\<And>e l'. rely l l' \<Longrightarrow> wpR V (k (Inl e)) Q l') \<Longrightarrow>
   (\<And>op l'. rely l l' \<Longrightarrow> seen l' op \<Longrightarrow> vo_OperationID op = i \<Longrightarrow> wpR V (k (Inr op)) Q l') \<Longrightarrow> wpR V (Get i k) Q l"
proof -
  assume fail: "\<And>e l'. rely l l' \<Longrightarrow> wpR V (k (Inl e)) Q l'"
    and ok: "\<And>op l'. rely l l' \<Longrightarrow> seen l' op \<Longrightarrow> vo_OperationID op = i \<Longrightarrow> wpR V (k (Inr op)) Q l'"
  have "wpR V (k r) Q l'" if "rely l l'" "\<forall>op. r = Inr op \<longrightarrow> seen l' op \<and> vo_OperationID op = i" for r l'
    using that fail [OF that(1)] ok [OF that(1)] by (cases r) simp_all
  then show ?thesis by (simp add: wpR_def)
qed

lemma wpR_GetInputs:
  "(\<And>e l'. rely l l' \<Longrightarrow> wpR V (k (Inl e)) Q l') \<Longrightarrow>
   (\<And>ins l'. rely l l' \<Longrightarrow> GetVtxoOperationInputs l' i = Inr ins \<Longrightarrow> wpR V (k (Inr ins)) Q l') \<Longrightarrow> wpR V (GetInputs i k) Q l"
proof -
  assume fail: "\<And>e l'. rely l l' \<Longrightarrow> wpR V (k (Inl e)) Q l'"
    and ok: "\<And>ins l'. rely l l' \<Longrightarrow> GetVtxoOperationInputs l' i = Inr ins \<Longrightarrow> wpR V (k (Inr ins)) Q l'"
  have "wpR V (k a) Q l'" if "rely l l'" "answered (GetVtxoOperationInputs l' i) a" for a l'
    using that fail [OF that(1)] ok [OF that(1)] by (cases a) simp_all
  then show ?thesis by (simp add: wpR_def)
qed

lemma wpR_Reserve:
  "(\<And>l'. rely l l' \<Longrightarrow> mayReserve l' rec ins cap) \<Longrightarrow>
   (\<And>e l'. rely l l' \<Longrightarrow> wpR V (k (Inl e)) Q l') \<Longrightarrow>
   (\<And>l'. rely l l' \<Longrightarrow> seen l' rec \<Longrightarrow> wpR V (k (Inr ())) Q l') \<Longrightarrow> wpR V (Reserve rec ins cap k) Q l"
proof -
  assume may: "\<And>l'. rely l l' \<Longrightarrow> mayReserve l' rec ins cap" and fail: "\<And>e l'. rely l l' \<Longrightarrow> wpR V (k (Inl e)) Q l'"
    and ok: "\<And>l'. rely l l' \<Longrightarrow> seen l' rec \<Longrightarrow> wpR V (k (Inr ())) Q l'"
  have "wpR V (k r) Q l''" if "rely l l'" "rely l' l''" "r = Inr () \<longrightarrow> seen l'' rec" for r l' l''
    using that fail [OF rely_trans [OF that(1,2)]] ok [OF rely_trans [OF that(1,2)]] by (cases r) auto
  with may show ?thesis by (simp add: wpR_def)
qed

lemma moved_Inl [simp]: "moved rec (Inl e) l"
  by (simp add: moved_def)

lemma wpR_moved:
  assumes "moved rec r l" and "\<And>e. wpR V (k (Inl e)) Q l"
    and "\<And>current swapped. seen l current \<Longrightarrow> vo_OperationID current = vo_OperationID rec \<Longrightarrow> (swapped \<Longrightarrow> seen l rec) \<Longrightarrow>
      wpR V (k (Inr (current, swapped))) Q l"
  shows "wpR V (k r) Q l"
proof (cases r)
  case (Inr cs)
  then show ?thesis using assms(1,3) by (cases cs) (simp add: moved_def)
qed (simp add: assms(2))

lemma wpR_Transition:
  "(\<And>l'. rely l l' \<Longrightarrow> mayMove l' st rec \<and> vo_State rec \<noteq> vtxoStateSigned \<and> maySubmit V l' st rec) \<Longrightarrow>
   (\<And>e l'. rely l l' \<Longrightarrow> wpR V (k (Inl e)) Q l') \<Longrightarrow>
   (\<And>current swapped l'. rely l l' \<Longrightarrow> seen l' current \<Longrightarrow> vo_OperationID current = vo_OperationID rec \<Longrightarrow>
      (swapped \<Longrightarrow> seen l' rec) \<Longrightarrow> wpR V (k (Inr (current, swapped))) Q l') \<Longrightarrow>
   wpR V (Transition st rec k) Q l"
proof -
  assume may: "\<And>l'. rely l l' \<Longrightarrow> mayMove l' st rec \<and> vo_State rec \<noteq> vtxoStateSigned \<and> maySubmit V l' st rec" and fail: "\<And>e l'. rely l l' \<Longrightarrow> wpR V (k (Inl e)) Q l'"
    and ok: "\<And>current swapped l'. rely l l' \<Longrightarrow> seen l' current \<Longrightarrow> vo_OperationID current = vo_OperationID rec \<Longrightarrow>
      (swapped \<Longrightarrow> seen l' rec) \<Longrightarrow> wpR V (k (Inr (current, swapped))) Q l'"
  have "wpR V (k r) Q l''" if "rely l l'" "rely l' l''" "moved rec r l''" for r l' l''
    using that(3) by (rule wpR_moved) (use fail ok rely_trans [OF that(1,2)] in blast)+
  with may show ?thesis by (simp add: wpR_def)
qed

lemma wpR_CommitSigned:
  "(\<And>l'. rely l l' \<Longrightarrow> mayMove l' vtxoStateReserved rec \<and> V l' None rec) \<Longrightarrow>
   (\<And>e l'. rely l l' \<Longrightarrow> wpR V (k (Inl e)) Q l') \<Longrightarrow>
   (\<And>current swapped l'. rely l l' \<Longrightarrow> seen l' current \<Longrightarrow> vo_OperationID current = vo_OperationID rec \<Longrightarrow>
      (swapped \<Longrightarrow> seen l' rec) \<Longrightarrow> wpR V (k (Inr (current, swapped))) Q l') \<Longrightarrow>
   wpR V (CommitSigned rec c n k) Q l"
proof -
  assume may: "\<And>l'. rely l l' \<Longrightarrow> mayMove l' vtxoStateReserved rec \<and> V l' None rec" and fail: "\<And>e l'. rely l l' \<Longrightarrow> wpR V (k (Inl e)) Q l'"
    and ok: "\<And>current swapped l'. rely l l' \<Longrightarrow> seen l' current \<Longrightarrow> vo_OperationID current = vo_OperationID rec \<Longrightarrow>
      (swapped \<Longrightarrow> seen l' rec) \<Longrightarrow> wpR V (k (Inr (current, swapped))) Q l'"
  have "wpR V (k r) Q l''" if "rely l l'" "rely l' l''" "moved rec r l''" for r l' l''
    using that(3) by (rule wpR_moved) (use fail ok rely_trans [OF that(1,2)] in blast)+
  with may show ?thesis by (simp add: wpR_def)
qed

lemma wpR_VerifyReplay: "(\<And>r l'. rely l l' \<Longrightarrow> wpR V (k r) Q l') \<Longrightarrow> wpR V (VerifyReplay i v c n k) Q l"
  by (simp add: wpR_def)

lemma checkP_Inl [simp]: "checkP (Inl e) f = Done (Inl e)" and checkP_Inr [simp]: "checkP (Inr x) f = f x"
  by (simp_all add: checkP_def)

section \<open>The shared parts\<close>

lemma requireLedgerIntegrity_wp: "wpR V (requireLedgerIntegrity s) (\<lambda>_ l'. l' = l \<or> rely l l') l"
  unfolding requireLedgerIntegrity_def
  by (intro wpR_check wpR_RequireKey) (simp add: wpR_def)

lemma LoadVerifiedVault_Inr:
  "LoadVerifiedVault l v key = Inr (rec, c) \<Longrightarrow> LoadVault l v = Inr (rec, c)"
  by (auto simp: LoadVerifiedVault_def res_simps split: option.splits sum.splits)

lemma resolveSpendVaultRecord_wp:
  "wpR V (resolveSpendVaultRecord s v) (\<lambda>(id, snap, rec) l'. rely l l' \<and> snap = snapshot s id \<and> trim_space v = id \<and>
     (\<exists>c. LoadVault l' id = Inr (Some rec, c))) l"
  unfolding resolveSpendVaultRecord_def Let_def
  apply (intro wpR_check wpR_if wpR_fail wpR_LoadVerified wpR_pair wpR_option wpR_done)
  apply (auto simp: routeVaultID_def Let_def dest!: LoadVerifiedVault_Inr split: if_splits)
  done

text \<open>An operation that is still reserved after the expiry check is the one that was read.\<close>

lemma expireReservedVtxo_wp:
  assumes "seen l op"
  shows "wpR V (expireReservedVtxo op) (\<lambda>op' l'. (l' = l \<or> rely l l') \<and> seen l' op' \<and> opTerms op' = opTerms op) l"
  unfolding expireReservedVtxo_def Let_def
proof (intro wpR_if wpR_done wpR_option wpR_fail wpR_Now)
  fix expiry now l1
  assume st: "\<not> (vo_State op \<noteq> vtxoStateReserved \<or> vo_ExpiresAt op = [])" and r1: "rely l l1"
  let ?aborted = "op\<lparr> vo_State := vtxoStateAborted \<rparr>"
  have terms: "opTerms ?aborted = opTerms op" by (simp add: opTerms_def)
  show "wpR V (Transition vtxoStateReserved ?aborted (\<lambda>r. checkP r (\<lambda>(current, swapped).
      Done (Inr (if swapped then ?aborted else current))))) (\<lambda>op' l'. (l' = l \<or> rely l l') \<and> seen l' op' \<and> opTerms op' = opTerms op) l1"
  proof (rule wpR_Transition)
    fix l2 assume r2: "rely l1 l2"
    have "seen l2 op" using assms r1 r2 seen_rely by blast
    then have "mayMove l2 vtxoStateReserved ?aborted"
      by (rule seen_mayMove) (use r2 st terms in \<open>auto simp: rely_def validVtxoTransition_iff\<close>)
    then show "mayMove l2 vtxoStateReserved ?aborted \<and> vo_State ?aborted \<noteq> vtxoStateSigned \<and> maySubmit V l2 vtxoStateReserved ?aborted"
      by (simp add: maySubmit_def)
  next
    fix current swapped l2
    assume r2: "rely l1 l2" and cur: "seen l2 current" "vo_OperationID current = vo_OperationID ?aborted"
      and sw: "swapped \<Longrightarrow> seen l2 ?aborted"
    have r: "rely l l2" using rely_trans [OF r1 r2] .
    have "opTerms current = opTerms op"
      by (rule seen_terms [OF cur(1) seen_rely [OF assms r]]) (use cur(2) r in \<open>simp_all add: rely_def\<close>)
    with cur sw terms r show "wpR V (checkP (Inr (current, swapped)) (\<lambda>(current, swapped).
      Done (Inr (if swapped then ?aborted else current)))) (\<lambda>op' l'. (l' = l \<or> rely l l') \<and> seen l' op' \<and> opTerms op' = opTerms op) l2"
      by (simp add: wpR_def)
  qed simp
qed (use assms seen_rely in auto)

lemma rely_seen: "rely l l' \<Longrightarrow> seen l op \<Longrightarrow> seen l' op"
  by (rule seen_rely)

lemma rely_opsInv: "rely l l' \<Longrightarrow> opsInv (l_db l')"
  by (simp add: rely_def)

lemma seen_inputs:
  assumes "seen l op" and "rely l l'"
  shows "GetVtxoOperationInputs l' (vo_OperationID op) = GetVtxoOperationInputs l (vo_OperationID op)"
proof -
  from assms(1) obtain r where "r \<in> set (rowsOf l)" "vo_OperationID r = vo_OperationID op"
    unfolding seen_def using opLater_keys by blast
  then have "vo_OperationID op \<in> vo_OperationID ` set (rowsOf l)" by (metis imageI)
  with assms(2) show ?thesis unfolding rely_def using grows_inputs by blast
qed

lemma rely_vault: "rely l l' \<Longrightarrow> LoadVault l v = Inr (Some rec, c) \<Longrightarrow> LoadVault l' v = Inr (Some rec, c)"
  unfolding rely_def using grows_vault by blast

lemma seen_maySubmit:
  assumes "seen l op" and "opsInv (l_db l)" and "vo_State op = st" and "opTerms rec = opTerms op"
    and "st = vtxoStateSigned \<Longrightarrow> opSubmitted rec = opSubmitted op \<or> V l (Some (vo_CheckpointPSBTs op)) rec"
  shows "maySubmit V l st rec"
  unfolding maySubmit_def
proof (intro impI ballI)
  fix r assume st: "st = vtxoStateSigned" and r: "r \<in> set (rowsOf l)" and i: "vo_OperationID r = vo_OperationID rec \<and> vo_State r = st"
  from assms(1) obtain s where s: "s \<in> set (rowsOf l)" "opLater op s" unfolding seen_def by blast
  have "r = s"
    by (rule opsInv_unique [OF assms(2) r s(1)]) (use i opLater_keys [OF s(2)] opTerms_eqD(1) [OF assms(4)] in simp)
  with s(2) i assms(3) have "unsealed r = unsealed op" by (simp add: opLater_def)
  then have "opSubmitted r = opSubmitted op" by (rule unsealed_eqD(3))
  with assms(5) [OF st] show "opSubmitted rec = opSubmitted r \<or> V l (Some (vo_CheckpointPSBTs r)) rec" by (auto simp: opSubmitted_def)
qed

text \<open>A move of an operation the request knows.\<close>

lemma wpR_move:
  assumes op: "seen l op" and st: "vo_State op = st" and valid: "validVtxoTransition st (vo_State rec)"
    and terms: "opTerms rec = opTerms op" and "vo_State rec \<noteq> vtxoStateSigned"
    and signed: "st \<noteq> vtxoStateReserved \<Longrightarrow> opSigned rec = opSigned op"
    and submitted: "st \<noteq> vtxoStateReserved \<Longrightarrow> st \<noteq> vtxoStateSigned \<Longrightarrow> opSubmitted rec = opSubmitted op"
    and vouch: "\<And>l'. rely l l' \<Longrightarrow> st = vtxoStateSigned \<Longrightarrow> opSubmitted rec = opSubmitted op \<or> V l' (Some (vo_CheckpointPSBTs op)) rec"
    and k: "\<And>e l'. rely l l' \<Longrightarrow> wpR V (k (Inl e)) Q l'"
      "\<And>current swapped l'. rely l l' \<Longrightarrow> seen l' current \<Longrightarrow> opTerms current = opTerms op \<Longrightarrow>
        (swapped \<Longrightarrow> seen l' rec) \<Longrightarrow> wpR V (k (Inr (current, swapped))) Q l'"
  shows "wpR V (Transition st rec k) Q l"
proof (rule wpR_Transition)
  fix l' assume r: "rely l l'"
  show "mayMove l' st rec \<and> vo_State rec \<noteq> vtxoStateSigned \<and> maySubmit V l' st rec"
    using seen_mayMove [OF seen_rely [OF op r] rely_opsInv [OF r] st valid terms signed submitted] assms(5)
      seen_maySubmit [where V = V, OF seen_rely [OF op r] rely_opsInv [OF r] st terms vouch [OF r]] by blast
next
  fix current swapped l'
  assume r: "rely l l'" and c: "seen l' current" "vo_OperationID current = vo_OperationID rec" and s: "swapped \<Longrightarrow> seen l' rec"
  have "opTerms current = opTerms op"
    by (rule seen_terms [OF c(1) seen_rely [OF op r]]) (use c(2) opTerms_eqD(1) [OF terms] r in \<open>simp_all add: rely_def\<close>)
  with r c s k(2) show "wpR V (k (Inr (current, swapped))) Q l'" by blast
qed (rule k)

lemma opTerms_state [simp]:
  "opTerms (op\<lparr> vo_State := st \<rparr>) = opTerms op" "opTerms (op\<lparr> vo_State := st, vo_CreatedAt := c \<rparr>) = opTerms op"
  "opSigned (op\<lparr> vo_State := st \<rparr>) = opSigned op" "opSigned (op\<lparr> vo_State := st, vo_CreatedAt := c \<rparr>) = opSigned op"
  "opSubmitted (op\<lparr> vo_State := st \<rparr>) = opSubmitted op" "opSubmitted (op\<lparr> vo_State := st, vo_CreatedAt := c \<rparr>) = opSubmitted op"
  by (simp_all add: opTerms_def opSigned_def opSubmitted_def)

lemma loadLiveVtxo_wp:
  "wpR V (loadLiveVtxo v i purpose) (\<lambda>(op, inputs) l'. rely l l' \<and> seen l' op \<and> vo_OperationID op = i \<and> vo_VaultID op = v \<and>
     vo_Purpose op = purpose \<and> GetVtxoOperationInputs l' i = Inr inputs) l"
  (is "wpR V _ ?Q l")
  unfolding loadLiveVtxo_def
proof (intro wpR_if wpR_fail wpR_Get)
  fix op l1
  assume r1: "rely l l1" and op: "seen l1 op" "vo_OperationID op = i"
  let ?live = "GetInputs i (\<lambda>inputs. checkP inputs (\<lambda>inputs. Done (Inr (op, inputs))))"
  have live: "wpR V ?live ?Q l2" if "rely l1 l2 \<or> l2 = l1" "vo_VaultID op = v" "vo_Purpose op = purpose" for l2
  proof (rule wpR_GetInputs)
    fix ins l3 assume r3: "rely l2 l3" and g: "GetVtxoOperationInputs l3 i = Inr ins"
    have "rely l l3" "rely l1 l3" using r1 r3 that(1) rely_trans by blast+
    with op that(2,3) g seen_rely show "wpR V (checkP (Inr ins) (\<lambda>inputs. Done (Inr (op, inputs)))) ?Q l3"
      by (auto intro!: wpR_done)
  qed simp
  show "wpR V (case Inr op of Inl err \<Rightarrow> Done (Inl (if err = ErrNoRows then ErrNotFound else err))
      | Inr rec \<Rightarrow>
          if vo_VaultID rec \<noteq> v then Done (rejected ''operation does not belong to this vault'')
          else if vo_Purpose rec \<noteq> purpose then Done (rejected ''vtxo purpose'')
          else let live = GetInputs i (\<lambda>inputs. checkP inputs (\<lambda>inputs. Done (Inr (rec, inputs))))
            in if vo_ExpiresAt rec = [] then live
               else (case parseRFC3339 (vo_ExpiresAt rec) of None \<Rightarrow> Done (rejected ''reservation expiry'')
                | Some expiry \<Rightarrow> if vo_State rec \<noteq> vtxoStateReserved then live
                    else Now (\<lambda>now. if now < expiry then live
                      else Transition vtxoStateReserved (rec\<lparr>vo_State := vtxoStateAborted\<rparr>)
                        (\<lambda>_. Done (rejected ''reservation expired''))))) ?Q l1"
    unfolding sum.case Let_def
  proof (intro wpR_if wpR_fail wpR_option wpR_Now)
    fix expiry now l2
    assume "rely l1 l2" "\<not> vo_State op \<noteq> vtxoStateReserved"
    then show "wpR V (Transition vtxoStateReserved (op\<lparr>vo_State := vtxoStateAborted\<rparr>) (\<lambda>_. Done (rejected ''reservation expired''))) ?Q l2"
      by (intro wpR_move [OF seen_rely [OF op(1)]]) (simp_all add: validVtxoTransition_iff)
  qed (use live in auto)
qed simp_all

lemma dropWhile_rev_dropWhile:
  "dropWhile P (rev (dropWhile P (rev (dropWhile P s)))) = rev (dropWhile P (rev (dropWhile P s)))"
proof (cases "dropWhile P s")
  case (Cons x xs)
  then have x: "\<not> P x" by (metis dropWhile_eq_Cons_conv)
  have "rev (dropWhile P (rev xs @ [x])) = x # rev (dropWhile P (rev xs))"
  proof (cases "\<exists>y \<in> set (rev xs). \<not> P y")
    case True
    then show ?thesis by (auto simp: dropWhile_append)
  next
    case False
    then have "dropWhile P (rev xs @ [x]) = [x]" "dropWhile P (rev xs) = []" using x by (auto simp: dropWhile_append)
    then show ?thesis by simp
  qed
  with Cons x show ?thesis by simp
next
  case Nil
  show ?thesis unfolding Nil by simp
qed

lemma trim_space_idem: "trim_space (trim_space s) = trim_space s"
proof -
  have "dropWhile is_space (dropWhile is_space (rev (dropWhile is_space s))) = dropWhile is_space (rev (dropWhile is_space s))"
    by (rule dropWhile_idem)
  then show ?thesis by (simp add: trim_space_def dropWhile_rev_dropWhile)
qed

text \<open>The phone's direct signature over the digest verifies under the key of the vault's stored record.\<close>

definition phoneSigned :: "Ledger \<Rightarrow> string \<Rightarrow> bytes \<Rightarrow> bool" where
  "phoneSigned l v digest \<longleftrightarrow> (\<exists>vault c sig. LoadVault l v = Inr (Some vault, c) \<and>
     verifyDirectAuth (vr_PhoneDirectP256 vault) digest sig = Inr ())"

lemma phoneSigned_rely: "phoneSigned l v digest \<Longrightarrow> rely l l' \<Longrightarrow> phoneSigned l' v digest"
  unfolding phoneSigned_def using rely_vault by blast

lemma loadVerifiedCredentialFor_wp:
  "wpR V (loadVerifiedCredentialFor s v) (\<lambda>cred l'. rely l l' \<and> (\<forall>c. cred = Some c \<longrightarrow>
     (\<exists>vault k. LoadVault l' (trim_space v) = Inr (Some vault, k) \<and> cr_PhoneDirectP256 c = vr_PhoneDirectP256 vault))) l"
  unfolding loadVerifiedCredentialFor_def
  apply (intro wpR_check wpR_LoadVerified wpR_pair)
  apply (auto simp: routeVaultID_def Let_def toCredential_def intro!: wpR_done dest!: LoadVerifiedVault_Inr split: if_splits option.splits)
  done

lemma verifyVtxoAuthorization_wp:
  assumes "trim_space v = v"
  shows "wpR V (verifyVtxoAuthorization env s v digest req direct) (\<lambda>_ l'. rely l l' \<and> phoneSigned l' v digest) l"
  unfolding verifyVtxoAuthorization_def
  apply (intro wpR_check wpR_if wpR_fail wpR_and)
  apply (rule wpR_weaken [OF loadVerifiedCredentialFor_wp])
  apply (intro wpR_option wpR_fail wpR_check wpR_done)
  using assms by (auto simp: phoneSigned_def)

section \<open>Promotion\<close>

lemma settleVtxo_wp:
  assumes "seen l op" and "vo_State op = vtxoStateSubmitted" and "outcome = vtxoStateFinalized \<or> outcome = vtxoStateUnresolved"
  shows "wpR V (settleVtxo outcome op) (\<lambda>_ l'. rely l l') l"
  unfolding settleVtxo_def
proof (rule wpR_Now)
  fix t l1 assume r1: "rely l l1"
  show "wpR V (Transition vtxoStateSubmitted (op\<lparr>vo_State := outcome, vo_CreatedAt := formatRFC3339 t\<rparr>)
      (\<lambda>r. checkP r (\<lambda>(current, swapped).
        if \<not> swapped \<and> vo_State current \<noteq> outcome then Done (rejected ''vtxo operation changed concurrently'') else Done (Inr ()))))
      (\<lambda>_ l'. rely l l') l1"
    using assms r1 rely_trans [OF r1]
    by (intro wpR_move [OF seen_rely [OF assms(1) r1]]) (auto simp: validVtxoTransition_iff intro!: wpR_done)
qed

lemma settleAs_wp:
  "seen l op \<Longrightarrow> vo_State op = vtxoStateSubmitted \<Longrightarrow> wpR V (settleAs state op) (\<lambda>_ l'. rely l l') l"
  unfolding settleAs_def by (intro wpR_if settleVtxo_wp wpR_fail) auto

lemma promoteSubmittedVtxo_wp:
  assumes op: "seen l op" and inv: "opsInv (l_db l)"
  shows "wpR V (promoteSubmittedVtxo resolver op) (\<lambda>_ l'. rely l l') l"
  unfolding promoteSubmittedVtxo_def
proof (intro wpR_if wpR_GetInputs)
  show "wpR V (Done (Inr ())) (\<lambda>_ l'. rely l l') l" by (rule wpR_done) (rule rely_refl [OF inv])
next
  fix ins l1
  assume st: "\<not> (vo_State op \<noteq> vtxoStateSigned \<and> vo_State op \<noteq> vtxoStateSubmitted)" and r1: "rely l l1"
  note op1 = seen_rely [OF op r1]
  have settle: "wpR V (settleAs state op') (\<lambda>_ l'. rely l l') l2"
    if "l2 = l1 \<or> rely l1 l2" "seen l2 op'" "vo_State op' = vtxoStateSubmitted" for state op' l2
    by (rule wpR_weaken [OF settleAs_wp [OF that(2,3)]]) (use that(1) r1 in \<open>auto intro: rely_trans\<close>)
  show "wpR V (checkP (Inr ins) (\<lambda>inputs.
      if length inputs = 0 then Done (Inl (Errorf ''reserved inputs required''))
      else let pkScript = vi_Script (hd inputs) in
        if 0 < sint (vo_ChangeSats op) \<and> vo_ChangeVout op = None then Done (Inl (Errorf ''change vout missing''))
        else if 0 < sint (vo_ChangeSats op) \<and> vo_ChangeScript op \<noteq> pkScript then
          Done (Inl (Errorf ''change script does not match reserved inputs''))
        else case resolver of None \<Rightarrow> Done (Inl nilResolver)
          | Some resolver \<Rightarrow>
              checkP (ar_SubmittedVtxoState resolver pkScript (map reservedVtxo inputs) (vo_ArkTxid op) (vo_ChangeVout op) (vo_ChangeSats op))
                (\<lambda>state. if state = SubmittedVtxoPending then Done (Inr ())
                  else if vo_State op = vtxoStateSigned then
                    let submitted = op\<lparr>vo_State := vtxoStateSubmitted\<rparr> in
                    Transition vtxoStateSigned submitted (\<lambda>r. checkP r (\<lambda>(current, swapped).
                      if swapped then settleAs state submitted
                      else if vo_State current = vtxoStateFinalized \<or> vo_State current = vtxoStateUnresolved then Done (Inr ())
                      else if vo_State current \<noteq> vtxoStateSubmitted then Done (rejected ''vtxo operation changed concurrently'')
                      else settleAs state current))
                  else settleAs state op)))
      (\<lambda>_ l'. rely l l') l1"
    unfolding checkP_Inr Let_def
  proof (intro wpR_if wpR_fail wpR_option wpR_check)
    fix res state
    show "wpR V (Done (Inr ())) (\<lambda>_ l'. rely l l') l1" by (rule wpR_done) (rule r1)
    assume "vo_State op = vtxoStateSigned"
    then show "wpR V (Transition vtxoStateSigned (op\<lparr>vo_State := vtxoStateSubmitted\<rparr>) (\<lambda>r. checkP r (\<lambda>(current, swapped).
        if swapped then settleAs state (op\<lparr>vo_State := vtxoStateSubmitted\<rparr>)
        else if vo_State current = vtxoStateFinalized \<or> vo_State current = vtxoStateUnresolved then Done (Inr ())
        else if vo_State current \<noteq> vtxoStateSubmitted then Done (rejected ''vtxo operation changed concurrently'')
        else settleAs state current))) (\<lambda>_ l'. rely l l') l1"
      using rely_trans [OF r1] settle
      by (intro wpR_move [OF op1]) (auto simp: validVtxoTransition_iff intro!: wpR_done)
  next
    fix res state
    assume "vo_State op \<noteq> vtxoStateSigned"
    with st show "wpR V (settleAs state op) (\<lambda>_ l'. rely l l') l1" by (intro settle) (simp_all add: op1)
  qed
qed simp

end
