(* ===== verification/SpendReplies.thy ===== *)
theory SpendReplies
  imports SpendSafe
begin

text \<open>
  What the replies of the spending handlers say about the ledger, and that it stays true: a reply agrees
  with a stored operation, and what was released remains so.
\<close>

section \<open>What a stored signature rests on\<close>

text \<open>
  The checkpoints of the operation were signed for a request whose packets verify against its terms, its
  reserved inputs and the checkpoints read from \<open>column\<close>.
\<close>

definition signCheckpoints ::
  "('pk, 'sk, 'sg) ArkLib \<Rightarrow> callEnv \<Rightarrow> ('pk, 'sk) Service \<Rightarrow> string list \<Rightarrow> string \<Rightarrow> 'pk vtxoPolicyTree \<Rightarrow> string list result" where
  "signCheckpoints lib env s requested v tree =
     bindR (vtxoKeyContextFor s v) (\<lambda>key.
     bindR (newVtxoCheckpointAuthorization key requested (vt_SpendLeaf tree) (expectedCosigner lib tree))
       (authorizeCheckpointsWith lib (ce_signCtx env) (sv_keys s)))"

definition checkpointsVouched ::
  "('pk, 'sk, 'sg) ArkLib \<Rightarrow> (('pk, 'sk) Service \<Rightarrow> bool) \<Rightarrow> Ledger \<Rightarrow> string \<Rightarrow> VtxoOperation \<Rightarrow> bool" where
  "checkpointsVouched lib svc l column r \<longleftrightarrow> (\<exists>s tree inputs env requested authorized. svc s \<and>
     buildVtxoPolicyTree lib s (vo_VaultID r) (snapshot s (vo_VaultID r)) = Inr tree \<and>
     GetVtxoOperationInputs l (vo_OperationID r) = Inr inputs \<and>
     length requested = length inputs \<and> length (decodeJSONStringSlice column) = length inputs \<and>
     eachR (verifyCheckpointPair lib r tree) (zip requested (zip (decodeJSONStringSlice column) inputs)) = Inr () \<and>
     signCheckpoints lib env s requested (vo_VaultID r) tree = Inr authorized \<and>
     vo_CheckpointPSBTs r = encodeJSONStringSlice authorized \<and> vo_CheckpointRequestPSBTs r = encodeJSONStringSlice requested)"

text \<open>
  The operation was signed for a request whose packets verify against its terms and its reserved inputs
  under the tree of its vault, and the phone signed its digest. Its checkpoints are those of the request,
  or, once it is submitted, those signed later.
\<close>

definition vouched :: "('pk, 'sk, 'sg) ArkLib \<Rightarrow> (('pk, 'sk) Service \<Rightarrow> bool) \<Rightarrow> Ledger \<Rightarrow> VtxoOperation \<Rightarrow> bool" where
  "vouched lib svc l r \<longleftrightarrow> (\<exists>s tree inputs env req pkt. svc s \<and>
     buildVtxoPolicyTree lib s (vo_VaultID r) (snapshot s (vo_VaultID r)) = Inr tree \<and>
     GetVtxoOperationInputs l (vo_OperationID r) = Inr inputs \<and>
     verifyAuthorizePackets lib req r inputs tree (snapshot s (vo_VaultID r)) = Inr (pkt, vo_PendingProofDigest r) \<and>
     vo_UnsignedPSBT r = aq_UnsignedArkPsbt req \<and> vo_ArkTxid r = HashString lib (TxHash lib (theTx pkt)) \<and>
     signAuthorization lib env s req (vo_VaultID r) inputs tree (snapshot s (vo_VaultID r)) =
       Inr (vo_AuthorizedPSBT r, vo_AuthorizedPendingProof r) \<and>
     phoneSigned l (vo_VaultID r) (vo_BundleDigest r) \<and>
     (vo_CheckpointPSBTs r = encodeJSONStringSlice (aq_UnsignedCheckpointPsbts req) \<or>
      vo_State r \<noteq> vtxoStateSigned \<and> checkpointsVouched lib svc l (encodeJSONStringSlice (aq_UnsignedCheckpointPsbts req)) r))"

text \<open>What the logic asks for: when the transaction is signed, and when the checkpoints of a column are.\<close>

fun vouches :: "('pk, 'sk, 'sg) ArkLib \<Rightarrow> (('pk, 'sk) Service \<Rightarrow> bool) \<Rightarrow> Ledger \<Rightarrow> string option \<Rightarrow> VtxoOperation \<Rightarrow> bool" where
  "vouches lib svc l None r = vouched lib svc l r"
| "vouches lib svc l (Some column) r = checkpointsVouched lib svc l column r"

lemma verifyUnsignedCheckpointPSBT_terms:
  assumes "opTerms a = opTerms b"
  shows "verifyUnsignedCheckpointPSBT lib cp i a tree = verifyUnsignedCheckpointPSBT lib cp i b tree"
  unfolding verifyUnsignedCheckpointPSBT_def opTerms_eqD [OF assms] ..

lemma verifySpendPSBT_terms:
  assumes "opTerms a = opTerms b"
  shows "verifySpendPSBT lib p a inputs tree cps = verifySpendPSBT lib p b inputs tree cps"
  unfolding verifySpendPSBT_def spendOutputs_def spendChange_def opTerms_eqD [OF assms] ..

lemma verifyAuthorizePackets_terms:
  assumes "opTerms a = opTerms b"
  shows "verifyAuthorizePackets lib req a inputs tree snap = verifyAuthorizePackets lib req b inputs tree snap"
  unfolding verifyAuthorizePackets_def verifyUnsignedCheckpointPSBT_terms [OF assms] verifySpendPSBT_terms [OF assms] ..

lemma opSigned_eqD:
  assumes "opSigned a = opSigned b"
  shows "vo_UnsignedPSBT a = vo_UnsignedPSBT b" "vo_AuthorizedPSBT a = vo_AuthorizedPSBT b"
    "vo_PendingProofDigest a = vo_PendingProofDigest b" "vo_AuthorizedPendingProof a = vo_AuthorizedPendingProof b"
    "vo_ArkTxid a = vo_ArkTxid b"
  using assms by (simp_all add: opSigned_def)

lemma verifyCheckpointPair_terms:
  assumes "opTerms a = opTerms b"
  shows "verifyCheckpointPair lib a tree = verifyCheckpointPair lib b tree"
  unfolding verifyCheckpointPair_def verifySubmittedCheckpointPSBT_def verifyCheckpointShape_def
    verifyUnsignedCheckpointPSBT_terms [OF assms] ..

lemma opSubmitted_eqD:
  assumes "opSubmitted a = opSubmitted b"
  shows "vo_CheckpointPSBTs a = vo_CheckpointPSBTs b" "vo_CheckpointRequestPSBTs a = vo_CheckpointRequestPSBTs b"
  using assms by (simp_all add: opSubmitted_def)

lemma checkpointsVouched_same:
  assumes "checkpointsVouched lib svc l column a" and terms: "opTerms b = opTerms a" and submitted: "opSubmitted b = opSubmitted a"
  shows "checkpointsVouched lib svc l column b"
  using assms(1) unfolding checkpointsVouched_def opTerms_eqD [OF terms] opSubmitted_eqD [OF submitted]
    verifyCheckpointPair_terms [OF terms] .

lemma checkpointsVouched_rely:
  assumes "checkpointsVouched lib svc l column a" and "seen l b" and "vo_OperationID a = vo_OperationID b" and "rely l l'"
  shows "checkpointsVouched lib svc l' column a"
  using assms(1) unfolding checkpointsVouched_def assms(3) seen_inputs [OF assms(2,4)] .

lemma vouched_same:
  assumes "vouched lib svc l a" and terms: "opTerms b = opTerms a" and signed: "opSigned b = opSigned a"
    and submitted: "opSubmitted b = opSubmitted a" and state: "vo_State b = vtxoStateSigned \<Longrightarrow> vo_State a = vtxoStateSigned"
  shows "vouched lib svc l b"
proof -
  note f = opTerms_eqD [OF terms] opSigned_eqD [OF signed] opSubmitted_eqD [OF submitted] and p = verifyAuthorizePackets_terms [OF terms]
  show ?thesis using assms(1) checkpointsVouched_same [OF _ terms submitted] state unfolding vouched_def f p by blast
qed

text \<open>Signing the checkpoints of a signed operation keeps the account.\<close>

lemma vouched_submitted:
  assumes "vouched lib svc l a" and terms: "opTerms b = opTerms a" and signed: "opSigned b = opSigned a"
    and "vo_State a = vtxoStateSigned" and "vo_State b \<noteq> vtxoStateSigned" and "checkpointsVouched lib svc l (vo_CheckpointPSBTs a) b"
  shows "vouched lib svc l b"
proof -
  note f = opTerms_eqD [OF terms] opSigned_eqD [OF signed] and p = verifyAuthorizePackets_terms [OF terms]
  show ?thesis using assms(1,4-6) unfolding vouched_def f p by metis
qed

lemma vouched_rely:
  assumes "vouched lib svc l a" and "seen l b" and "vo_OperationID a = vo_OperationID b" and "rely l l'"
  shows "vouched lib svc l' a"
proof -
  have i: "GetVtxoOperationInputs l' (vo_OperationID a) = GetVtxoOperationInputs l (vo_OperationID a)"
    using seen_inputs [OF assms(2,4)] assms(3) by simp
  show ?thesis using assms(1) phoneSigned_rely [OF _ assms(4)] checkpointsVouched_rely [OF _ assms(2,3,4)]
    unfolding vouched_def i by blast
qed

section \<open>Replies\<close>

datatype spendReply =
    ReserveReply "VtxoReserveResponse result"
  | AuthorizeReply "VtxoAuthorizeResponse result"
  | CheckpointReply "VtxoCheckpointAuthorizeResponse result"
  | ViewReply "VtxoOperationView result"
  | FinalizeReply "VtxoFinalizeResponse result"
  | AbortReply "VtxoAbortResponse result"

text \<open>The operation has been signed and not given up.\<close>

definition released :: "VtxoOperation \<Rightarrow> bool" where
  "released r \<longleftrightarrow> vo_State r \<in> {vtxoStateSigned, vtxoStateSubmitted, vtxoStateFinalized, vtxoStateUnresolved}"

text \<open>What a successful reply says of the stored operation.\<close>

fun says :: "spendReply \<Rightarrow> VtxoOperation \<Rightarrow> bool" where
  "says (ReserveReply (Inr a)) op \<longleftrightarrow> rr_OperationID a = vo_OperationID op \<and> rr_BundleDigest a = hex_encode (vo_BundleDigest op) \<and>
     rr_ReservationExpires a = vo_ExpiresAt op \<and> rr_DestScript a = hex_encode (vo_DestScript op) \<and>
     rr_FeeSats a = vo_FeeSats op \<and> rr_ChangeSats a = vo_ChangeSats op"
| "says (AuthorizeReply (Inr a)) op \<longleftrightarrow> released op \<and> a = authorizeResponse op"
| "says (CheckpointReply (Inr a)) op \<longleftrightarrow> released op \<and> vo_State op \<noteq> vtxoStateSigned \<and>
     cp_OperationID a = vo_OperationID op \<and> cp_BundleDigest a = hex_encode (vo_BundleDigest op) \<and> cp_ArkTxid a = vo_ArkTxid op \<and>
     (vo_CheckpointPSBTs op = encodeJSONStringSlice (cp_CheckpointPsbts a) \<or>
      cp_CheckpointPsbts a = decodeJSONStringSlice (vo_CheckpointPSBTs op))"
| "says (ViewReply (Inr a)) op \<longleftrightarrow> ov_OperationID a = vo_OperationID op \<and> ov_BundleDigest a = hex_encode (vo_BundleDigest op) \<and>
     (ov_AuthorizedPsbt a \<noteq> [] \<or> ov_AuthorizedPendingProof a \<noteq> [] \<longrightarrow> released op \<and> ov_AuthorizedPsbt a = vo_AuthorizedPSBT op \<and>
       ov_AuthorizedPendingProof a = vo_AuthorizedPendingProof op) \<and>
     (ov_State a \<in> {vtxoStateSigned, vtxoStateSubmitted, vtxoStateFinalized, vtxoStateUnresolved} \<longrightarrow> released op) \<and>
     (ov_CheckpointPsbts a \<noteq> [] \<longrightarrow> released op \<and> vo_State op \<noteq> vtxoStateSigned \<and>
       ov_CheckpointPsbts a = decodeJSONStringSlice (vo_CheckpointPSBTs op))"
| "says (FinalizeReply (Inr a)) op \<longleftrightarrow> vo_State op = vtxoStateFinalized \<and> fr_State a = vo_State op \<and>
     fr_OperationID a = vo_OperationID op \<and> fr_ArkTxid a = vo_ArkTxid op"
| "says (AbortReply (Inr a)) op \<longleftrightarrow> vo_State op = vtxoStateAborted \<and> br_State a = vo_State op \<and> br_OperationID a = vo_OperationID op"
| "says _ op \<longleftrightarrow> True"

fun failed :: "spendReply \<Rightarrow> bool" where
  "failed (ReserveReply r) = (\<exists>e. r = Inl e)"
| "failed (AuthorizeReply r) = (\<exists>e. r = Inl e)"
| "failed (CheckpointReply r) = (\<exists>e. r = Inl e)"
| "failed (ViewReply r) = (\<exists>e. r = Inl e)"
| "failed (FinalizeReply r) = (\<exists>e. r = Inl e)"
| "failed (AbortReply r) = (\<exists>e. r = Inl e)"

definition replyOk :: "spendReply \<Rightarrow> Ledger \<Rightarrow> bool" where
  "replyOk x l \<longleftrightarrow> failed x \<or> (\<exists>op \<in> set (rowsOf l). says x op)"

lemma vtxoReaches_released: "vtxoReaches a b \<Longrightarrow> a \<in> {vtxoStateSigned, vtxoStateSubmitted, vtxoStateFinalized, vtxoStateUnresolved} \<Longrightarrow>
    b \<in> {vtxoStateSigned, vtxoStateSubmitted, vtxoStateFinalized, vtxoStateUnresolved}"
  by (induction rule: rtranclp_induct) (auto simp: validVtxoTransition_iff)

lemma released_later: "opLater r r' \<Longrightarrow> released r \<Longrightarrow> released r'"
  unfolding released_def opLater_def using vtxoReaches_released by blast

lemma released_signed: "opLater r r' \<Longrightarrow> released r \<Longrightarrow> opSigned r' = opSigned r"
  unfolding released_def opLater_def by auto

lemma authorizeResponse_later: "opLater r r' \<Longrightarrow> released r \<Longrightarrow> authorizeResponse r' = authorizeResponse r"
  using opSigned_eqD [OF released_signed, of r r'] opTerms_eqD [of r' r] unfolding opLater_def authorizeResponse_def by simp

lemma terminal_later: "opLater r r' \<Longrightarrow> vtxoTerminal (vo_State r) \<Longrightarrow> unsealed r' = unsealed r"
proof -
  assume l: "opLater r r'" and t: "vtxoTerminal (vo_State r)"
  then have "vtxoReaches (vo_State r) (vo_State r')" by (simp add: opLater_def)
  then have "vo_State r' = vo_State r"
    by (rule converse_rtranclpE) (use terminal_no_transition [OF t] in auto)
  with l show ?thesis by (simp add: opLater_def)
qed

lemma grown_row: "rely l l' \<Longrightarrow> op \<in> set (rowsOf l) \<Longrightarrow> \<exists>op' \<in> set (rowsOf l'). opLater op op'"
  unfolding rely_def using grows_row by blast

lemma unsealed_fields:
  assumes "unsealed a = unsealed b"
  shows "vo_OperationID a = vo_OperationID b" "vo_ArkTxid a = vo_ArkTxid b" "vo_State a = vo_State b"
  using unsealed_eqD [OF assms] opTerms_eqD(1) opSigned_eqD(5) by blast+

lemma says_later:
  assumes l: "opLater op op'" and s: "says x op"
  shows "says x op'"
proof -
  have terms: "opTerms op' = opTerms op" and reach: "vtxoReaches (vo_State op) (vo_State op')" using l by (simp_all add: opLater_def)
  note f = opTerms_eqD [OF terms]
  have rel: "released op' \<and> vo_AuthorizedPSBT op' = vo_AuthorizedPSBT op \<and> vo_AuthorizedPendingProof op' = vo_AuthorizedPendingProof op \<and>
      vo_ArkTxid op' = vo_ArkTxid op" if "released op"
    using released_later [OF l that] opSigned_eqD [OF released_signed [OF l that]] by simp
  have sub: "vo_CheckpointPSBTs op' = vo_CheckpointPSBTs op \<and> vo_State op' \<noteq> vtxoStateSigned"
    if "released op" "vo_State op \<noteq> vtxoStateSigned"
    using l that vtxoReaches_past_signed [OF reach _ that(2)] by (auto simp: opLater_def opSubmitted_def released_def)
  have stop: "vo_State op' = vo_State op \<and> vo_ArkTxid op' = vo_ArkTxid op"
    if "vo_State op = vtxoStateFinalized \<or> vo_State op = vtxoStateAborted"
    using unsealed_fields [OF terminal_later [OF l]] that by (auto simp: vtxoTerminal_def)
  show ?thesis using s
  proof (cases "(x, op)" rule: says.cases)
    case (2 a op)
    with s authorizeResponse_later [OF l] rel show ?thesis by simp
  next
    case (3 a op)
    with s f rel sub show ?thesis by simp
  next
    case (4 a op)
    with s f rel sub show ?thesis by simp
  next
    case (5 a op)
    with s f stop show ?thesis by simp
  next
    case (6 a op)
    with s f stop show ?thesis by simp
  qed (simp_all add: f)
qed

lemma replyOk_rely: "replyOk x l \<Longrightarrow> rely l l' \<Longrightarrow> replyOk x l'"
  unfolding replyOk_def using grown_row says_later by blast

lemma replyOk_seen: "seen l op \<Longrightarrow> says x op \<Longrightarrow> replyOk x l"
  unfolding replyOk_def seen_def using says_later by blast

end
