(* ===== verification/SpendHandlers.thy ===== *)
theory SpendHandlers
  imports SpendReplies
begin

text \<open>
  The six spending handlers in the logic: whatever else the process does meanwhile, each makes only calls
  that respect the ledger, and a reply without an error agrees with a stored operation.
\<close>

section \<open>The six handlers\<close>

text \<open>
  The interface a handler offers to the runs below: started in any service of the process and at any
  ledger, its calls respect the ledger and its reply is true of the ledger.
\<close>

locale spend_handler =
  fixes lib :: "('pk, 'sk, 'sg) ArkLib" and svc :: "('pk, 'sk) Service \<Rightarrow> bool"
    and reply :: "'a result \<Rightarrow> spendReply" and run :: "'e \<Rightarrow> ('pk, 'sk) Service \<Rightarrow> 'a result prog"
  assumes failed_reply: "failed (reply (Inl e))"
    and handler_safe: "svc s \<Longrightarrow> wpR (vouches lib svc) (run x s) (\<lambda>a. replyOk (reply (Inr a))) l"
begin

lemma request_safe: "svc s \<Longrightarrow> wp (vouches lib svc) (mapP reply (run x s)) replyOk l"
  unfolding wp_mapP
proof (rule wp_weaken)
  assume "svc s"
  then show "wp (vouches lib svc) (run x s) (onSuccess (\<lambda>a. replyOk (reply (Inr a)))) l"
    using handler_safe unfolding wpR_def by blast
  fix r :: "'a result" and l' assume "\<forall>a. r = Inr a \<longrightarrow> replyOk (reply (Inr a)) l'"
  then show "replyOk (reply r) l'" using failed_reply by (cases r) (auto simp: replyOk_def)
qed

end

text \<open>Passing the common checks at the head of a handler.\<close>

lemma wpR_integrity:
  "(\<And>l'. l' = l \<or> rely l l' \<Longrightarrow> wpR V (f ()) Q l') \<Longrightarrow> wpR V (andP (requireLedgerIntegrity s) f) Q l"
  by (rule wpR_and, rule wpR_weaken [OF requireLedgerIntegrity_wp]) (metis (full_types) old.unit.exhaust)

lemma wpR_resolve:
  "(\<And>rec c l'. rely l l' \<Longrightarrow> LoadVault l' (trim_space v) = Inr (Some rec, c) \<Longrightarrow>
     wpR V (f (trim_space v, snapshot s (trim_space v), rec)) Q l') \<Longrightarrow> wpR V (andP (resolveSpendVaultRecord s v) f) Q l"
  by (rule wpR_and, rule wpR_weaken [OF resolveSpendVaultRecord_wp]) auto

lemma wpR_load:
  "(\<And>op inputs l'. rely l l' \<Longrightarrow> seen l' op \<Longrightarrow> vo_OperationID op = i \<Longrightarrow> vo_VaultID op = v \<Longrightarrow> vo_Purpose op = purpose \<Longrightarrow>
     GetVtxoOperationInputs l' i = Inr inputs \<Longrightarrow> wpR V (f (op, inputs)) Q l') \<Longrightarrow> wpR V (andP (loadLiveVtxo v i purpose) f) Q l"
  by (rule wpR_and, rule wpR_weaken [OF loadLiveVtxo_wp]) auto

lemma wpR_expire:
  "seen l op \<Longrightarrow> (\<And>op' l'. l' = l \<or> rely l l' \<Longrightarrow> seen l' op' \<Longrightarrow> opTerms op' = opTerms op \<Longrightarrow> wpR V (f op') Q l') \<Longrightarrow>
   wpR V (andP (expireReservedVtxo op) f) Q l"
  by (rule wpR_and, rule wpR_weaken [OF expireReservedVtxo_wp]) auto

lemma wpR_phone:
  "trim_space v = v \<Longrightarrow> (\<And>c n l'. rely l l' \<Longrightarrow> phoneSigned l' v digest \<Longrightarrow> wpR V (f (c, n)) Q l') \<Longrightarrow>
   wpR V (andP (verifyVtxoAuthorization env s v digest req direct) f) Q l"
  by (rule wpR_and, rule wpR_weaken [OF verifyVtxoAuthorization_wp]) auto

lemmas wpR_heads = wpR_integrity wpR_resolve wpR_load wpR_check wpR_if wpR_fail wpR_option wpR_pair

section \<open>Reserving\<close>

lemma replayVtxoReservation_wp:
  assumes "seen l op"
  shows "wpR V (replayVtxoReservation op v purpose amount dest tree) (\<lambda>a. replyOk (ReserveReply (Inr a))) l"
  unfolding replayVtxoReservation_def
proof (intro wpR_if wpR_fail wpR_expire [OF assms] wpR_GetInputs)
  fix op' l1 ins l2
  assume "seen l1 op'" "rely l1 l2"
  then have "seen l2 op'" by (rule seen_rely)
  then show "wpR V (checkP (Inr ins) (\<lambda>inputs. Done (Inr (vtxoReserveResponse op' inputs (vt_ArkAddress tree)))))
      (\<lambda>a. replyOk (ReserveReply (Inr a))) l2"
    by (auto intro!: wpR_done replyOk_seen simp: vtxoReserveResponse_def)
qed simp

lemma bundleOf_operationInput: "bundleOf (operationInput coin) = bundleInput coin"
  by (simp add: bundleOf_def operationInput_def bundleInput_def ucast_up_ucast_id is_up)

lemma reserveOrReplay_wp:
  assumes "\<And>l'. rely l l' \<Longrightarrow> mayReserve l' row ins cap"
  shows "wpR V (Reserve row ins cap (\<lambda>reserved. case reserved of
      Inl err \<Rightarrow> Get opID (\<lambda>existing. case existing of Inr op \<Rightarrow> replayVtxoReservation op v purpose amount dest tree
        | Inl _ \<Rightarrow> Done (Inl (mapLedgerBusy err)))
    | Inr _ \<Rightarrow> Done (Inr (vtxoReserveResponse row ins (vt_ArkAddress tree))))) (\<lambda>a. replyOk (ReserveReply (Inr a))) l"
proof (rule wpR_Reserve [OF assms])
  fix l' assume "seen l' row"
  then show "wpR V (case Inr () of Inl err \<Rightarrow> Get opID (\<lambda>existing. case existing of Inr op \<Rightarrow> replayVtxoReservation op v purpose amount dest tree
        | Inl _ \<Rightarrow> Done (Inl (mapLedgerBusy err)))
    | Inr _ \<Rightarrow> Done (Inr (vtxoReserveResponse row ins (vt_ArkAddress tree)))) (\<lambda>a. replyOk (ReserveReply (Inr a))) l'"
    unfolding sum.case by (intro wpR_done replyOk_seen) (auto simp: vtxoReserveResponse_def)
qed (auto intro!: wpR_Get replayVtxoReservation_wp)

lemma mayReserve_reservation:
  assumes "ComputeVtxoBundleDigest purpose v dest cs amount fee change cv feeDigest (map bundleInput sel) created = Inr digest"
    and "LoadVault l v = Inr (Some rec, c)"
  shows "mayReserve l (reservationRow opID v purpose digest amount fee feeDigest dest cs change cv checkpoint till created)
    (map operationInput sel) (periodAllowanceSats (Some rec) None)"
proof -
  have m: "map bundleOf (map operationInput sel) = map bundleInput sel" by (simp add: bundleOf_operationInput)
  show ?thesis unfolding mayReserve_def digestBinds_def m using assms by (auto simp: reservationRow_def)
qed

lemma newReservation_wp:
  assumes "LoadVault l v = Inr (Some rec, c)"
  shows "wpR V (newReservation lib env s resolver req opID v rec tree dest feeCap) (\<lambda>a. replyOk (ReserveReply (Inr a))) l"
  unfolding newReservation_def Let_def
  by (intro wpR_check wpR_pair wpR_if wpR_fail wpR_Now reserveOrReplay_wp)
    (rule mayReserve_reservation, assumption, rule rely_vault, assumption, rule rely_vault, assumption, rule assms)

lemma ReserveVtxo_wp:
  "wpR V (ReserveVtxo lib packs env s req) (\<lambda>a. replyOk (ReserveReply (Inr a))) l"
  unfolding ReserveVtxo_def
  by (intro wpR_heads wpR_Get) (auto intro!: wpR_heads newReservation_wp replayVtxoReservation_wp dest: rely_vault)

section \<open>Aborting, looking and finishing\<close>

lemma wpR_Inl: "wpR V (f e) Q l \<Longrightarrow> wpR V (case Inl e of Inl e \<Rightarrow> f e | Inr x \<Rightarrow> g x) Q l"
  and wpR_Inr: "wpR V (g x) Q l \<Longrightarrow> wpR V (case Inr x of Inl e \<Rightarrow> f e | Inr x \<Rightarrow> g x) Q l"
  and wpR_split: "wpR V (h a b) Q l \<Longrightarrow> wpR V (case (a, b) of (a, b) \<Rightarrow> h a b) Q l"
  by simp_all

lemmas wpR_rules = wpR_integrity wpR_resolve wpR_load wpR_Inl wpR_Inr wpR_split wpR_if wpR_fail wpR_option wpR_check
  wpR_Get wpR_GetInputs wpR_expire

lemma abortReserved_wp:
  assumes "seen l op" and "vo_State op = vtxoStateReserved"
  shows "wpR V (Transition vtxoStateReserved (op\<lparr> vo_State := vtxoStateAborted \<rparr>) (\<lambda>r. checkP r (\<lambda>(_, swapped).
      if \<not> swapped then Done (rejected ''vtxo operation changed concurrently'')
      else Done (Inr \<lparr> br_OperationID = vo_OperationID op, br_State = vtxoStateAborted \<rparr>))))
    (\<lambda>a. replyOk (AbortReply (Inr a))) l"
  using assms by (intro wpR_move [OF assms]) (auto simp: validVtxoTransition_iff intro!: wpR_done intro: replyOk_seen)

lemma AbortVtxo_wp: "wpR V (AbortVtxo lib s req) (\<lambda>a. replyOk (AbortReply (Inr a))) l"
  unfolding AbortVtxo_def
  by (intro wpR_rules) (auto intro!: abortReserved_wp intro: seen_rely)

lemma operationView_says: "says (ViewReply (Inr (operationView op))) op"
  by (auto simp: operationView_def Let_def released_def)

lemma wpR_reached: "wpR V p Q l \<Longrightarrow> wp V p (\<lambda>r l'. (l' = l \<or> rely l l') \<and> onSuccess Q r l') l"
  unfolding wpR_def by (erule wp_weaken) blast

lemma reconcileVtxo_wp:
  assumes op: "seen l op" and inv: "opsInv (l_db l)" and i: "i = vo_OperationID op"
  shows "wpR V (reconcileVtxo resolver i op) (\<lambda>op' l'. rely l l' \<and> seen l' op') l"
  unfolding reconcileVtxo_def
proof (rule wpR_if)
  have op': "rely l l' \<and> seen l' op" if "l' = l \<or> rely l l'" for l'
    using that op rely_refl [OF inv] seen_rely by blast
  show "wpR V (bindP (promoteSubmittedVtxo resolver op) (\<lambda>promoted. case promoted of
      Inl err \<Rightarrow> if err = nilResolver then Done (Inl err) else Done (Inr op)
    | Inr _ \<Rightarrow> Get i (\<lambda>loaded. case loaded of Inr current \<Rightarrow> Done (Inr current) | Inl _ \<Rightarrow> Done (Inr op))))
    (\<lambda>op' l'. rely l l' \<and> seen l' op') l"
    unfolding wpR_def wp_bindP
  proof (rule wp_weaken [OF wpR_reached [OF promoteSubmittedVtxo_wp [OF op inv]]])
    fix r :: "unit result" and l1
    assume "l1 = l \<or> rely l l1"
    note l1 = op' [OF this]
    have "wpR V (case r of Inl err \<Rightarrow> if err = nilResolver then Done (Inl err) else Done (Inr op)
        | Inr _ \<Rightarrow> Get i (\<lambda>loaded. case loaded of Inr current \<Rightarrow> Done (Inr current) | Inl _ \<Rightarrow> Done (Inr op)))
        (\<lambda>op' l'. rely l l' \<and> seen l' op') l1"
    proof (cases r)
      case (Inl err)
      with l1 show ?thesis by (auto intro: wpR_done)
    next
      case (Inr u)
      show ?thesis unfolding Inr sum.case
      proof (rule wpR_Get)
        fix e l2 assume r2: "rely l1 l2"
        have "rely l l2" "seen l2 op" using l1 rely_trans [OF _ r2] seen_rely [OF _ r2] by blast+
        then show "wpR V (case Inl e of Inr current \<Rightarrow> Done (Inr current) | Inl _ \<Rightarrow> Done (Inr op)) (\<lambda>op' l'. rely l l' \<and> seen l' op') l2"
          by (auto intro: wpR_done)
      next
        fix cur l2 assume r2: "rely l1 l2" and "seen l2 cur"
        moreover have "rely l l2" using l1 rely_trans [OF _ r2] by blast
        ultimately show "wpR V (case Inr cur of Inr current \<Rightarrow> Done (Inr current) | Inl _ \<Rightarrow> Done (Inr op))
            (\<lambda>op' l'. rely l l' \<and> seen l' op') l2"
          by (auto intro: wpR_done)
      qed
    qed
    then show "wp V (case r of Inl err \<Rightarrow> if err = nilResolver then Done (Inl err) else Done (Inr op)
        | Inr _ \<Rightarrow> Get i (\<lambda>loaded. case loaded of Inr current \<Rightarrow> Done (Inr current) | Inl _ \<Rightarrow> Done (Inr op)))
        (\<lambda>r l'. \<forall>x. r = Inr x \<longrightarrow> rely l l' \<and> seen l' x) l1" unfolding wpR_def .
  qed
qed (use op inv rely_refl in \<open>auto intro: wpR_done\<close>)

lemma wpR_reconcile:
  "seen l op \<Longrightarrow> opsInv (l_db l) \<Longrightarrow> i = vo_OperationID op \<Longrightarrow> (\<And>op' l'. rely l l' \<Longrightarrow> seen l' op' \<Longrightarrow> wpR V (f op') Q l') \<Longrightarrow>
   wpR V (andP (reconcileVtxo resolver i op) f) Q l"
  by (rule wpR_and, rule wpR_weaken [OF reconcileVtxo_wp]) auto

lemma GetVtxoOperationView_wp: "wpR V (GetVtxoOperationView s v i) (\<lambda>a. replyOk (ViewReply (Inr a))) l"
  unfolding GetVtxoOperationView_def
  by (intro wpR_rules wpR_reconcile wpR_done)
    (auto intro: rely_opsInv replyOk_seen [OF _ operationView_says])

lemma wpR_promote:
  "seen l op \<Longrightarrow> opsInv (l_db l) \<Longrightarrow> (\<And>l'. rely l l' \<Longrightarrow> wpR V (f ()) Q l') \<Longrightarrow> wpR V (andP (promoteSubmittedVtxo resolver op) f) Q l"
  by (rule wpR_and, rule wpR_weaken [OF promoteSubmittedVtxo_wp]) auto

lemma finalizeResponse_says:
  "vo_State op = vtxoStateFinalized \<Longrightarrow> says (FinalizeReply (Inr (finalizeResponse op d))) op"
  by (simp add: finalizeResponse_def)

lemma FinalizeVtxo_wp: "wpR V (FinalizeVtxo packs s req) (\<lambda>a. replyOk (FinalizeReply (Inr a))) l"
  unfolding FinalizeVtxo_def Let_def
  by (intro wpR_rules wpR_promote wpR_done)
    (auto intro: rely_opsInv replyOk_seen [OF _ finalizeResponse_says])

section \<open>Authorizing\<close>

lemma authorizeResponse_says: "vo_State op = vtxoStateSigned \<Longrightarrow> says (AuthorizeReply (Inr (authorizeResponse op))) op"
  by (simp add: released_def)

lemma commitAuthorized_wp:
  assumes op: "seen l op" "vo_State op = vtxoStateReserved" and rec: "opTerms rec = opTerms op" "vo_State rec = vtxoStateSigned"
    and V: "\<And>l'. rely l l' \<Longrightarrow> V l' None rec"
  shows "wpR V (CommitSigned rec c n (\<lambda>r. checkP r (\<lambda>(current, swapped).
      if swapped then Done (Inr (authorizeResponse rec))
      else if vo_State current \<noteq> vtxoStateSigned \<or> \<not> sameAuthorization req digest current then
        Done (rejected ''vtxo operation changed concurrently'')
      else Done (Inr (authorizeResponse current))))) (\<lambda>a. replyOk (AuthorizeReply (Inr a))) l"
proof (rule wpR_CommitSigned)
  fix l' assume r: "rely l l'"
  have "mayMove l' vtxoStateReserved rec"
    by (rule seen_mayMove [OF seen_rely [OF op(1) r] rely_opsInv [OF r] op(2)])
      (simp_all add: rec validVtxoTransition_iff)
  with V [OF r] show "mayMove l' vtxoStateReserved rec \<and> V l' None rec" by simp
next
  fix current swapped l'
  assume "rely l l'" "seen l' current" "swapped \<Longrightarrow> seen l' rec"
  then show "wpR V (checkP (Inr (current, swapped)) (\<lambda>(current, swapped).
      if swapped then Done (Inr (authorizeResponse rec))
      else if vo_State current \<noteq> vtxoStateSigned \<or> \<not> sameAuthorization req digest current then
        Done (rejected ''vtxo operation changed concurrently'')
      else Done (Inr (authorizeResponse current)))) (\<lambda>a. replyOk (AuthorizeReply (Inr a))) l'"
    unfolding checkP_Inr prod.case
    by (intro wpR_if wpR_done wpR_fail) (auto intro: replyOk_seen [OF _ authorizeResponse_says] rec)
qed simp

text \<open>The record of a fresh authorization.\<close>

lemma vouched_authorization:
  assumes svc: "svc s" and op: "seen l op" and inputs: "GetVtxoOperationInputs l (vo_OperationID op) = Inr inputs"
    and tree: "buildVtxoPolicyTree lib s (vo_VaultID op) (snapshot s (vo_VaultID op)) = Inr tree"
    and packets: "verifyAuthorizePackets lib req op inputs tree (snapshot s (vo_VaultID op)) = Inr (pkt, digest)"
    and signed: "signAuthorization lib env s req (vo_VaultID op) inputs tree (snapshot s (vo_VaultID op)) = Inr (ark, proof)"
    and phone: "phoneSigned l (vo_VaultID op) (vo_BundleDigest op)"
    and rec: "rec = op\<lparr> vo_UnsignedPSBT := aq_UnsignedArkPsbt req, vo_PendingProofDigest := digest,
      vo_CheckpointPSBTs := encodeJSONStringSlice (aq_UnsignedCheckpointPsbts req),
      vo_ArkTxid := HashString lib (TxHash lib (theTx pkt)), vo_AuthorizedPSBT := ark, vo_AuthorizedPendingProof := proof,
      vo_State := vtxoStateSigned \<rparr>"
    and r: "rely l l'"
  shows "vouched lib svc l' rec"
proof -
  have terms: "opTerms rec = opTerms op" by (simp add: rec opTerms_def)
  have f: "vo_OperationID rec = vo_OperationID op" "vo_VaultID rec = vo_VaultID op" "vo_BundleDigest rec = vo_BundleDigest op"
    "vo_UnsignedPSBT rec = aq_UnsignedArkPsbt req" "vo_PendingProofDigest rec = digest"
    "vo_ArkTxid rec = HashString lib (TxHash lib (theTx pkt))" "vo_AuthorizedPSBT rec = ark" "vo_AuthorizedPendingProof rec = proof"
    "vo_CheckpointPSBTs rec = encodeJSONStringSlice (aq_UnsignedCheckpointPsbts req)"
    by (simp_all add: rec)
  have "GetVtxoOperationInputs l' (vo_OperationID op) = Inr inputs" using seen_inputs [OF op r] inputs by simp
  with svc tree packets signed phoneSigned_rely [OF phone r] show ?thesis
    unfolding vouched_def f verifyAuthorizePackets_terms [OF terms] by blast
qed

lemma AuthorizeVtxoSpend_wp:
  assumes "svc s"
  shows "wpR (vouches lib svc) (AuthorizeVtxoSpend lib packs env s req) (\<lambda>a. replyOk (AuthorizeReply (Inr a))) l"
  unfolding AuthorizeVtxoSpend_def Let_def
proof (intro wpR_rules wpR_phone wpR_pair wpR_VerifyReplay wpR_done commitAuthorized_wp)
  show "trim_space (trim_space (aq_VaultID req)) = trim_space (aq_VaultID req)" by (rule trim_space_idem)
next
  fix l1 op inputs tree x arkPkt digest l2 y ark pend l3
  assume op: "seen l1 op" "vo_OperationID op = aq_OperationID req" "vo_VaultID op = trim_space (aq_VaultID req)"
    and inputs: "GetVtxoOperationInputs l1 (aq_OperationID req) = Inr inputs"
    and tree: "rejectAs ''vault-policy-v1 spend unavailable'' (buildVtxoPolicyTree lib s (trim_space (aq_VaultID req))
      (snapshot s (trim_space (aq_VaultID req)))) = Inr tree"
    and packets: "verifyAuthorizePackets lib req op inputs tree (snapshot s (trim_space (aq_VaultID req))) = Inr x" "x = (arkPkt, digest)"
    and r: "rely l1 l2" and phone: "phoneSigned l2 (trim_space (aq_VaultID req)) (vo_BundleDigest op)"
    and signed: "signAuthorization lib env s req (trim_space (aq_VaultID req)) inputs tree (snapshot s (trim_space (aq_VaultID req))) = Inr y"
      "y = (ark, pend)" and r3: "rely l2 l3"
  have "GetVtxoOperationInputs l2 (vo_OperationID op) = Inr inputs" using seen_inputs [OF op(1) r] inputs op(2) by simp
  with tree packets signed phone show "vouches lib svc l3 None (op\<lparr> vo_UnsignedPSBT := aq_UnsignedArkPsbt req, vo_PendingProofDigest := digest,
      vo_CheckpointPSBTs := encodeJSONStringSlice (aq_UnsignedCheckpointPsbts req), vo_ArkTxid := HashString lib (TxHash lib (theTx arkPkt)),
      vo_AuthorizedPSBT := ark, vo_AuthorizedPendingProof := pend, vo_State := vtxoStateSigned \<rparr>)"
    using assms seen_rely [OF op(1) r] r3 unfolding vouches.simps
    by (intro vouched_authorization [where s = s and l = l2 and op = op and tree = tree and env = env and req = req and pkt = arkPkt])
      (simp_all add: op(3) res_simps)
qed (auto simp: opTerms_def intro: seen_rely replyOk_seen [OF seen_rely [OF seen_rely] authorizeResponse_says])

section \<open>Checkpoints\<close>

lemma checkpointReply_says:
  "vo_State op = vtxoStateSubmitted \<Longrightarrow> d = hex_encode (vo_BundleDigest op) \<Longrightarrow>
   vo_CheckpointPSBTs op = encodeJSONStringSlice psbts \<or> psbts = decodeJSONStringSlice (vo_CheckpointPSBTs op) \<Longrightarrow>
   says (CheckpointReply (Inr \<lparr> cp_OperationID = vo_OperationID op, cp_BundleDigest = d, cp_CheckpointPsbts = psbts, cp_ArkTxid = vo_ArkTxid op \<rparr>)) op"
  by (auto simp: released_def)

lemma replayCheckpoints_ok:
  "seen l op \<Longrightarrow> vo_State op = vtxoStateSubmitted \<Longrightarrow> replyOk (CheckpointReply (Inr \<lparr> cp_OperationID = vo_OperationID op,
     cp_BundleDigest = hex_encode (vo_BundleDigest op), cp_CheckpointPsbts = decodeJSONStringSlice (vo_CheckpointPSBTs op),
     cp_ArkTxid = vo_ArkTxid op \<rparr>)) l"
  by (rule replyOk_seen, assumption, rule checkpointReply_says) simp_all

lemma submitCheckpoints_wp:
  assumes op: "seen l op" "vo_State op = vtxoStateSigned" and rec: "rec = op\<lparr> vo_CheckpointPSBTs := encodeJSONStringSlice authorized,
      vo_CheckpointRequestPSBTs := binding, vo_State := vtxoStateSubmitted \<rparr>"
    and V: "\<And>l'. rely l l' \<Longrightarrow> V l' (Some (vo_CheckpointPSBTs op)) rec"
  shows "wpR V (Transition vtxoStateSigned rec (\<lambda>r. checkP r (\<lambda>(current, swapped).
      if swapped then Done (Inr \<lparr> cp_OperationID = vo_OperationID rec, cp_BundleDigest = hex_encode (vo_BundleDigest op),
        cp_CheckpointPsbts = authorized, cp_ArkTxid = vo_ArkTxid rec \<rparr>)
      else if vo_State current \<noteq> vtxoStateSubmitted \<or> vo_CheckpointRequestPSBTs current \<noteq> binding then
        Done (rejected ''vtxo operation changed concurrently'')
      else Done (Inr \<lparr> cp_OperationID = vo_OperationID current, cp_BundleDigest = hex_encode (vo_BundleDigest op),
        cp_CheckpointPsbts = decodeJSONStringSlice (vo_CheckpointPSBTs current), cp_ArkTxid = vo_ArkTxid current \<rparr>))))
    (\<lambda>a. replyOk (CheckpointReply (Inr a))) l"
proof (rule wpR_move [OF op])
  fix current swapped l'
  assume c: "rely l l'" "seen l' current" "opTerms current = opTerms op" "swapped \<Longrightarrow> seen l' rec"
  have d: "vo_BundleDigest current = vo_BundleDigest op" using opTerms_eqD(4) [OF c(3)] .
  have "replyOk (CheckpointReply (Inr \<lparr> cp_OperationID = vo_OperationID rec, cp_BundleDigest = hex_encode (vo_BundleDigest op),
        cp_CheckpointPsbts = authorized, cp_ArkTxid = vo_ArkTxid rec \<rparr>)) l'" if swapped
    by (rule replyOk_seen [OF c(4) [OF that]], rule checkpointReply_says) (simp_all add: rec)
  moreover have "replyOk (CheckpointReply (Inr \<lparr> cp_OperationID = vo_OperationID current, cp_BundleDigest = hex_encode (vo_BundleDigest op),
        cp_CheckpointPsbts = decodeJSONStringSlice (vo_CheckpointPSBTs current), cp_ArkTxid = vo_ArkTxid current \<rparr>)) l'"
    if "vo_State current = vtxoStateSubmitted"
    by (rule replyOk_seen [OF c(2)], rule checkpointReply_says) (simp_all add: that d)
  ultimately show "wpR V (checkP (Inr (current, swapped)) (\<lambda>(current, swapped).
      if swapped then Done (Inr \<lparr> cp_OperationID = vo_OperationID rec, cp_BundleDigest = hex_encode (vo_BundleDigest op),
        cp_CheckpointPsbts = authorized, cp_ArkTxid = vo_ArkTxid rec \<rparr>)
      else if vo_State current \<noteq> vtxoStateSubmitted \<or> vo_CheckpointRequestPSBTs current \<noteq> binding then
        Done (rejected ''vtxo operation changed concurrently'')
      else Done (Inr \<lparr> cp_OperationID = vo_OperationID current, cp_BundleDigest = hex_encode (vo_BundleDigest op),
        cp_CheckpointPsbts = decodeJSONStringSlice (vo_CheckpointPSBTs current), cp_ArkTxid = vo_ArkTxid current \<rparr>)))
    (\<lambda>a. replyOk (CheckpointReply (Inr a))) l'"
    unfolding checkP_Inr prod.case by (intro wpR_if wpR_done wpR_fail) simp_all
next
  fix l' assume "rely l l'"
  from V [OF this] show "opSubmitted rec = opSubmitted op \<or> V l' (Some (vo_CheckpointPSBTs op)) rec" ..
qed (auto simp: rec validVtxoTransition_iff opTerms_def opSigned_def)

text \<open>The record of freshly signed checkpoints.\<close>

lemma checkpointsVouched_submission:
  fixes env :: callEnv
  assumes svc: "svc s" and op: "seen l op" and inputs: "GetVtxoOperationInputs l (vo_OperationID op) = Inr inputs"
    and tree: "buildVtxoPolicyTree lib s (vo_VaultID op) (snapshot s (vo_VaultID op)) = Inr tree"
    and len: "length requested = length inputs" "length (decodeJSONStringSlice (vo_CheckpointPSBTs op)) = length requested"
    and pairs: "eachR (verifyCheckpointPair lib op tree) (zip requested (zip (decodeJSONStringSlice (vo_CheckpointPSBTs op)) inputs)) = Inr ()"
    and key: "vtxoKeyContextFor s (vo_VaultID op) = Inr key"
    and auth: "newVtxoCheckpointAuthorization key requested (vt_SpendLeaf tree) (expectedCosigner lib tree) = Inr auth"
    and signed: "authorizeCheckpointsWith lib (ce_signCtx env) (sv_keys s) auth = Inr authorized"
    and rec: "rec = op\<lparr> vo_CheckpointPSBTs := encodeJSONStringSlice authorized, vo_CheckpointRequestPSBTs := encodeJSONStringSlice requested,
      vo_State := vtxoStateSubmitted \<rparr>"
    and r: "rely l l'"
  shows "checkpointsVouched lib svc l' (vo_CheckpointPSBTs op) rec"
proof -
  have terms: "opTerms rec = opTerms op" by (simp add: rec opTerms_def)
  have f: "vo_OperationID rec = vo_OperationID op" "vo_VaultID rec = vo_VaultID op"
    "vo_CheckpointPSBTs rec = encodeJSONStringSlice authorized" "vo_CheckpointRequestPSBTs rec = encodeJSONStringSlice requested"
    by (simp_all add: rec)
  have "GetVtxoOperationInputs l' (vo_OperationID op) = Inr inputs" using seen_inputs [OF op r] inputs by simp
  moreover have "signCheckpoints lib env s requested (vo_VaultID op) tree = Inr authorized"
    by (simp add: signCheckpoints_def key auth signed)
  ultimately show ?thesis using svc tree len pairs
    unfolding checkpointsVouched_def f verifyCheckpointPair_terms [OF terms] by metis
qed

lemma AuthorizeVtxoCheckpoints_wp:
  assumes "svc s"
  shows "wpR (vouches lib svc) (AuthorizeVtxoCheckpoints lib packs env s req) (\<lambda>a. replyOk (CheckpointReply (Inr a))) l"
  unfolding AuthorizeVtxoCheckpoints_def Let_def
proof (intro wpR_rules wpR_pair wpR_done submitCheckpoints_wp replayCheckpoints_ok)
  fix l1 op inputs tree x key auth authorized l2
  assume op: "seen l1 op" "vo_OperationID op = cq_OperationID req" "vo_VaultID op = trim_space (cq_VaultID req)"
    and inputs: "GetVtxoOperationInputs l1 (cq_OperationID req) = Inr inputs"
    and len: "\<not> length (cq_CheckpointPsbts req) \<noteq> length inputs"
      "\<not> length (decodeJSONStringSlice (vo_CheckpointPSBTs op)) \<noteq> length (cq_CheckpointPsbts req)"
    and tree: "rejectAs ''vault-policy-v1 spend unavailable'' (buildVtxoPolicyTree lib s (trim_space (cq_VaultID req))
      (snapshot s (trim_space (cq_VaultID req)))) = Inr tree"
    and pairs: "eachR (verifyCheckpointPair lib op tree) (zip (cq_CheckpointPsbts req) (zip (decodeJSONStringSlice (vo_CheckpointPSBTs op)) inputs)) = Inr x"
    and signing: "vtxoKeyContextFor s (trim_space (cq_VaultID req)) = Inr key"
      "newVtxoCheckpointAuthorization key (cq_CheckpointPsbts req) (vt_SpendLeaf tree) (expectedCosigner lib tree) = Inr auth"
      "authorizeCheckpointsWith lib (ce_signCtx env) (sv_keys s) auth = Inr authorized"
    and r: "rely l1 l2"
  show "vouches lib svc l2 (Some (vo_CheckpointPSBTs op)) (op\<lparr> vo_CheckpointPSBTs := encodeJSONStringSlice authorized,
      vo_CheckpointRequestPSBTs := encodeJSONStringSlice (cq_CheckpointPsbts req), vo_State := vtxoStateSubmitted \<rparr>)"
    unfolding vouches.simps
    by (rule checkpointsVouched_submission [where svc = svc and s = s and l = l1 and inputs = inputs and tree = tree and requested = "cq_CheckpointPsbts req"
        and key = key and auth = auth and env = env and authorized = authorized])
      (use assms op inputs len tree pairs signing r in \<open>simp_all add: res_simps\<close>)
qed (auto simp: vtxoCheckpointAuthorizableState_def)

end
