(* ===== verification/SpendRuns.thy ===== *)
theory SpendRuns
  imports SpendHandlers
begin

text \<open>
  The process: any number of spending requests at work on one ledger, interleaved at the granularity of
  ledger calls, with time passing and other parts of the process using the ledger. The invariant of
  its runs follows from the interface that the handlers meet.
\<close>

section \<open>The handlers meet the interface\<close>

interpretation reserve_request: spend_handler lib svc ReserveReply "\<lambda>(env, req) s. ReserveVtxo lib packs env s req" for lib svc packs
  by unfold_locales (auto simp: ReserveVtxo_wp)

interpretation authorize_request: spend_handler lib svc AuthorizeReply "\<lambda>(env, req) s. AuthorizeVtxoSpend lib packs env s req" for lib svc packs
  by unfold_locales (auto simp: AuthorizeVtxoSpend_wp)

interpretation checkpoint_request: spend_handler lib svc CheckpointReply "\<lambda>(env, req) s. AuthorizeVtxoCheckpoints lib packs env s req" for lib svc packs
  by unfold_locales (auto simp: AuthorizeVtxoCheckpoints_wp)

interpretation view_request: spend_handler lib svc ViewReply "\<lambda>(v, i) s. GetVtxoOperationView s v i" for lib svc
  by unfold_locales (auto simp: GetVtxoOperationView_wp)

interpretation finalize_request: spend_handler lib svc FinalizeReply "\<lambda>req s. FinalizeVtxo packs s req" for lib svc packs
  by unfold_locales (auto simp: FinalizeVtxo_wp)

interpretation abort_request: spend_handler lib svc AbortReply "\<lambda>req s. AbortVtxo lib s req" for lib svc
  by unfold_locales (auto simp: AbortVtxo_wp)

section \<open>Concurrent runs\<close>

text \<open>A request to a service of the process, as the program that answers it.\<close>

inductive spendRequest :: "('pk, 'sk, 'sg) ArkLib \<Rightarrow> embeddedPacks \<Rightarrow> ('pk, 'sk) Service \<Rightarrow> spendReply prog \<Rightarrow> bool" for lib packs s where
  reserve: "spendRequest lib packs s (mapP ReserveReply (ReserveVtxo lib packs env s rq))"
| authorize: "spendRequest lib packs s (mapP AuthorizeReply (AuthorizeVtxoSpend lib packs env s aq))"
| checkpoints: "spendRequest lib packs s (mapP CheckpointReply (AuthorizeVtxoCheckpoints lib packs env s cq))"
| view: "spendRequest lib packs s (mapP ViewReply (GetVtxoOperationView s v i))"
| finalize: "spendRequest lib packs s (mapP FinalizeReply (FinalizeVtxo packs s fq))"
| abort: "spendRequest lib packs s (mapP AbortReply (AbortVtxo lib s bq))"

text \<open>
  The clock, the ledger and the requests at work; a finished request stays in the list with its reply.
  A request arrives at one of the services the process goes through (the published index and the
  answers of the indexer change), one request makes its next call, time passes, or another part of the
  process uses the ledger without touching spending operations or the record of an enrolled vault.
\<close>

inductive sysStep :: "('pk, 'sk, 'sg) ArkLib \<Rightarrow> embeddedPacks \<Rightarrow> (('pk, 'sk) Service \<Rightarrow> bool) \<Rightarrow>
    time \<times> Ledger \<times> spendReply prog list \<Rightarrow> time \<times> Ledger \<times> spendReply prog list \<Rightarrow> bool" for lib packs svc where
  arrive: "svc s \<Longrightarrow> spendRequest lib packs s p \<Longrightarrow> sysStep lib packs svc (t, l, ps) (t, l, ps @ [p])"
| call: "i < length ps \<Longrightarrow> stepP (t, l) (ps ! i) (t', l') p' \<Longrightarrow> sysStep lib packs svc (t, l, ps) (t', l', ps[i := p'])"
| pass: "t \<le> t' \<Longrightarrow> sysStep lib packs svc (t, l, ps) (t', l, ps)"
| other: "rowsOf l' = rowsOf l \<Longrightarrow> inputsOf l' = inputsOf l \<Longrightarrow> l_integrityKey l' = l_integrityKey l \<Longrightarrow> keepsVaults l l' \<Longrightarrow>
    sysStep lib packs svc (t, l, ps) (t, l', ps)"

lemma request_wp:
  assumes "svc s" and "spendRequest lib packs s p"
  shows "wp (vouches lib svc) p replyOk l"
  using assms(2)
proof cases
  case (reserve env rq)
  have "wp (vouches lib svc) (mapP ReserveReply (ReserveVtxo lib packs env s rq)) replyOk l"
    using reserve_request.request_safe [where svc = svc and s = s and lib = lib and packs = packs and x = "(env, rq)" and l = l, OF assms(1)] by simp
  with reserve show ?thesis by simp
next
  case (authorize env aq)
  have "wp (vouches lib svc) (mapP AuthorizeReply (AuthorizeVtxoSpend lib packs env s aq)) replyOk l"
    using authorize_request.request_safe [where svc = svc and s = s and lib = lib and packs = packs and x = "(env, aq)" and l = l, OF assms(1)] by simp
  with authorize show ?thesis by simp
next
  case (checkpoints env cq)
  have "wp (vouches lib svc) (mapP CheckpointReply (AuthorizeVtxoCheckpoints lib packs env s cq)) replyOk l"
    using checkpoint_request.request_safe [where svc = svc and s = s and lib = lib and packs = packs and x = "(env, cq)" and l = l, OF assms(1)] by simp
  with checkpoints show ?thesis by simp
next
  case (view v i)
  have "wp (vouches lib svc) (mapP ViewReply (GetVtxoOperationView s v i)) replyOk l"
    using view_request.request_safe [where svc = svc and s = s and lib = lib and x = "(v, i)" and l = l, OF assms(1)] by simp
  with view show ?thesis by simp
next
  case (finalize fq)
  have "wp (vouches lib svc) (mapP FinalizeReply (FinalizeVtxo packs s fq)) replyOk l"
    using finalize_request.request_safe [where svc = svc and s = s and lib = lib and packs = packs and x = "fq" and l = l, OF assms(1)] by simp
  with finalize show ?thesis by simp
next
  case (abort bq)
  have "wp (vouches lib svc) (mapP AbortReply (AbortVtxo lib s bq)) replyOk l"
    using abort_request.request_safe [where svc = svc and s = s and lib = lib and x = "bq" and l = l, OF assms(1)] by simp
  with abort show ?thesis by simp
qed

section \<open>One call\<close>

text \<open>
  What a released operation may have moved on from: a released one with the same checkpoints, a signed one
  whose checkpoints were signed, or one that was signed.
\<close>

definition releasedFrom ::
  "(Ledger \<Rightarrow> string option \<Rightarrow> VtxoOperation \<Rightarrow> bool) \<Rightarrow> Ledger \<Rightarrow> VtxoOperation \<Rightarrow> VtxoOperation \<Rightarrow> bool" where
  "releasedFrom V l o' x \<longleftrightarrow> released o' \<and> opSubmitted x = opSubmitted o' \<or>
     vo_State o' = vtxoStateSigned \<and> vo_State x \<noteq> vtxoStateSigned \<and> V l (Some (vo_CheckpointPSBTs o')) x \<or> V l None x"

text \<open>Where a stored operation can come from: it was there, it moved on from one, or it was just reserved.\<close>

definition comesFrom :: "(Ledger \<Rightarrow> string option \<Rightarrow> VtxoOperation \<Rightarrow> bool) \<Rightarrow> Ledger \<Rightarrow> Ledger \<Rightarrow> VtxoOperation \<Rightarrow> bool" where
  "comesFrom V l l' x \<longleftrightarrow> (\<exists>o' \<in> set (rowsOf l). opLater o' x \<and> (released x \<longrightarrow> releasedFrom V l o' x)) \<or>
     vo_State x = vtxoStateReserved \<and> digestBinds x (map bundleOf (storedInputs l' (vo_OperationID x)))"

lemma comesFrom_same: "x \<in> set (rowsOf l) \<Longrightarrow> comesFrom V l l' x"
  unfolding comesFrom_def releasedFrom_def by (metis opLater_refl)

lemma digestBinds_terms: "opTerms a = opTerms b \<Longrightarrow> digestBinds a ins = digestBinds b ins"
  unfolding digestBinds_def by (simp add: opTerms_eqD [of a b])

lemma reserve_comesFrom:
  assumes "mayReserve l rec ins cap" and "x \<in> set (rowsOf l) \<or> (\<exists>o' \<in> set (rowsOf l). opLater o' x \<and> vo_State x = vtxoStateAborted) \<or>
      unsealed x = unsealed rec \<and> vo_State rec = vtxoStateReserved \<and>
      map bundleOf (storedInputs l' (vo_OperationID x)) = map bundleOf ins"
  shows "comesFrom V l l' x"
  using assms(2)
proof (elim disjE)
  assume "\<exists>o' \<in> set (rowsOf l). opLater o' x \<and> vo_State x = vtxoStateAborted"
  then show ?thesis unfolding comesFrom_def by (auto simp: released_def)
next
  assume x: "unsealed x = unsealed rec \<and> vo_State rec = vtxoStateReserved \<and>
      map bundleOf (storedInputs l' (vo_OperationID x)) = map bundleOf ins"
  then have "opTerms x = opTerms rec" "vo_State x = vtxoStateReserved" using unsealed_eqD [of x rec] by simp_all
  moreover have "digestBinds rec (map bundleOf ins)" using assms(1) by (simp add: mayReserve_def)
  ultimately show ?thesis using x digestBinds_terms [of x rec] unfolding comesFrom_def by simp
qed (rule comesFrom_same)

lemma transition_comesFrom:
  assumes "vo_State rec \<noteq> vtxoStateSigned" and may: "maySubmit (vouches lib svc) l st rec" and "x \<in> set (rowsOf l) \<or>
      unsealed x = unsealed rec \<and> (\<exists>o' \<in> set (rowsOf l). opLater o' x \<and> vo_State o' = st \<and> validVtxoTransition st (vo_State x))"
  shows "comesFrom (vouches lib svc) l l' x"
  using assms(3)
proof (elim disjE conjE bexE)
  fix o' assume u: "unsealed x = unsealed rec" and o': "o' \<in> set (rowsOf l)" "opLater o' x"
    and st: "vo_State o' = st" and v: "validVtxoTransition st (vo_State x)"
  note e = unsealed_eqD [OF u]
  have x: "vo_State x \<noteq> vtxoStateSigned" using assms(1) e(4) by simp
  have "releasedFrom (vouches lib svc) l o' x" if "released x"
  proof (cases "st = vtxoStateSigned")
    case True
    have "vo_OperationID o' = vo_OperationID rec" using opLater_keys [OF o'(2)] opTerms_eqD(1) [OF e(1)] by simp
    with may True o'(1) st have "opSubmitted rec = opSubmitted o' \<or> vouches lib svc l (Some (vo_CheckpointPSBTs o')) rec"
      unfolding maySubmit_def by blast
    then show ?thesis
    proof
      assume "opSubmitted rec = opSubmitted o'"
      with e(3) st True show ?thesis by (simp add: releasedFrom_def released_def)
    next
      assume "vouches lib svc l (Some (vo_CheckpointPSBTs o')) rec"
      then have "vouches lib svc l (Some (vo_CheckpointPSBTs o')) x" using checkpointsVouched_same [OF _ e(1,3)] by simp
      with x st True show ?thesis unfolding releasedFrom_def by blast
    qed
  next
    case False
    with v x that have "st = vtxoStateSubmitted" unfolding validVtxoTransition_iff released_def by (elim disjE conjE) simp_all
    with o'(2) st show ?thesis by (simp add: releasedFrom_def released_def opLater_def)
  qed
  with o' show ?thesis unfolding comesFrom_def by blast
qed (rule comesFrom_same)

lemma commit_comesFrom:
  assumes "vouched lib svc l rec"
    and "x \<in> set (rowsOf l) \<or> unsealed x = unsealed rec \<and> (\<exists>o' \<in> set (rowsOf l). opLater o' x)"
  shows "comesFrom (vouches lib svc) l l' x"
  using assms(2)
proof (elim disjE conjE)
  assume u: "unsealed x = unsealed rec" and o': "\<exists>o' \<in> set (rowsOf l). opLater o' x"
  note e = unsealed_eqD [OF u]
  have "vouched lib svc l x" by (rule vouched_same [OF assms(1) e(1,2,3)]) (simp add: e(4))
  with o' show ?thesis unfolding comesFrom_def releasedFrom_def by auto
qed (rule comesFrom_same)

lemma moved_answered: "moved rec r l \<Longrightarrow> answered r a \<Longrightarrow> moved rec a l"
  by (auto simp: answered_def)

lemma stepP_safe:
  assumes "stepP w p w' p'" and "w = (t, l)" and "w' = (t', l')" and "opsInv (l_db l)" and "wp (vouches lib svc) p Q l"
  shows "rely l l' \<and> wp (vouches lib svc) p' Q l' \<and> (\<forall>x \<in> set (rowsOf l'). comesFrom (vouches lib svc) l l' x)"
  using assms
proof (induction rule: stepP.induct)
  case (get m i a u k)
  then have "\<forall>op. a = Inr op \<longrightarrow> seen l op \<and> vo_OperationID op = i" using GetVtxoOperation_row seen_row by auto
  with get show ?case by (auto simp: rely_refl comesFrom_same)
next
  case (reserve u t2 fault cf t1 m rec ins cap r m' a k)
  then have l: "m = l" "m' = l'" by simp_all
  note g = reserve_grows [OF reserve.hyps(2) [unfolded l] reserve.prems(3)]
  from reserve.prems(4) rely_refl [OF reserve.prems(3)] have may: "mayReserve l rec ins cap"
    and k: "\<And>r l''. rely l l'' \<Longrightarrow> (r = Inr () \<longrightarrow> seen l'' rec) \<Longrightarrow> wp (vouches lib svc) (k r) Q l''" by auto
  have "a = Inr () \<longrightarrow> seen l' rec" using g reserve.hyps(3) by auto
  with g reserve_comesFrom [OF may] k show ?case by blast
next
  case (transition m st rec r m' a u k)
  then have l: "m = l" "m' = l'" by simp_all
  from transition.prems(4) rely_refl [OF transition.prems(3)] have may: "mayMove l st rec" "vo_State rec \<noteq> vtxoStateSigned"
      "maySubmit (vouches lib svc) l st rec"
    and k: "\<And>r l''. rely l l'' \<Longrightarrow> moved rec r l'' \<Longrightarrow> wp (vouches lib svc) (k r) Q l''" by auto
  from transition_moves [OF transition.hyps(1) [unfolded l] may(1) transition.prems(3)] transition_comesFrom [OF may(2,3)] k
    moved_answered [OF _ transition.hyps(2)]
  show ?case by blast
next
  case (commit cf u m rec c n r m' a k)
  then have l: "m = l" "m' = l'" by simp_all
  from commit.prems(4) rely_refl [OF commit.prems(3)] have may: "mayMove l vtxoStateReserved rec" "vouched lib svc l rec"
    and k: "\<And>r l''. rely l l'' \<Longrightarrow> moved rec r l'' \<Longrightarrow> wp (vouches lib svc) (k r) Q l''" by auto
  from commit_moves [OF commit.hyps(1) [unfolded l] may(1) commit.prems(3)] commit_comesFrom [OF may(2)] k
    moved_answered [OF _ commit.hyps(2)]
  show ?case by blast
next
  case (reserveFails u m rec ins cap k)
  then have "\<forall>r. (r = Inr () \<longrightarrow> seen l rec) \<longrightarrow> wp (vouches lib svc) (k r) Q l" using rely_refl by fastforce
  with reserveFails show ?case by (auto simp: rely_refl comesFrom_same)
next
  case (transitionFails u m st rec k)
  then have "\<forall>r. moved rec r l \<longrightarrow> wp (vouches lib svc) (k r) Q l" using rely_refl by fastforce
  with transitionFails show ?case by (auto simp: rely_refl comesFrom_same simp del: wp.simps)
next
  case (commitFails u m rec c n k)
  then have "\<forall>r. moved rec r l \<longrightarrow> wp (vouches lib svc) (k r) Q l" using rely_refl by fastforce
  with commitFails show ?case by (auto simp: rely_refl comesFrom_same simp del: wp.simps)
qed (auto simp: rely_refl comesFrom_same)

section \<open>The invariant of a run\<close>

text \<open>Every stored operation carries the digest of its terms and inputs, and a signed one is vouched for.\<close>

definition storeOk :: "('pk, 'sk, 'sg) ArkLib \<Rightarrow> (('pk, 'sk) Service \<Rightarrow> bool) \<Rightarrow> Ledger \<Rightarrow> bool" where
  "storeOk lib svc l \<longleftrightarrow> (\<forall>r \<in> set (rowsOf l). digestBinds r (map bundleOf (storedInputs l (vo_OperationID r))) \<and>
     (released r \<longrightarrow> vouched lib svc l r))"

lemma vouched_from:
  assumes later: "opLater o' x" and "releasedFrom (vouches lib svc) l o' x" and "released x"
    and o': "released o' \<Longrightarrow> vouched lib svc l o'"
  shows "vouched lib svc l x"
  using assms(2) unfolding releasedFrom_def
proof (elim disjE conjE)
  have terms: "opTerms x = opTerms o'" using later by (simp add: opLater_def)
  {
    assume rel: "released o'" and sub: "opSubmitted x = opSubmitted o'"
    have "vo_State o' = vtxoStateSigned" if "vo_State x = vtxoStateSigned"
      using later rel that vtxoReaches_past_signed [of "vo_State o'" "vo_State x"] by (auto simp: opLater_def released_def)
    then show ?thesis by (rule vouched_same [OF o' [OF rel] terms released_signed [OF later rel] sub])
  next
    assume st: "vo_State o' = vtxoStateSigned" "vo_State x \<noteq> vtxoStateSigned" and v: "vouches lib svc l (Some (vo_CheckpointPSBTs o')) x"
    have rel: "released o'" using st(1) by (simp add: released_def)
    from vouched_submitted [OF o' [OF rel] terms released_signed [OF later rel] st] v show ?thesis by simp
  }
qed simp

lemma storeOk_grows:
  assumes inv: "storeOk lib svc l" and r: "rely l l'" and new: "\<forall>x \<in> set (rowsOf l'). comesFrom (vouches lib svc) l l' x"
  shows "storeOk lib svc l'"
  unfolding storeOk_def
proof (intro ballI conjI impI)
  fix x assume "x \<in> set (rowsOf l')"
  with new have "comesFrom (vouches lib svc) l l' x" by blast
  then consider (old) o' where "o' \<in> set (rowsOf l)" "opLater o' x" "released x \<longrightarrow> releasedFrom (vouches lib svc) l o' x"
    | (new) "vo_State x = vtxoStateReserved" "digestBinds x (map bundleOf (storedInputs l' (vo_OperationID x)))"
    unfolding comesFrom_def by blast
  note cases = this
  have o': "opTerms x = opTerms o'" "seen l o'" "storedInputs l' (vo_OperationID x) = storedInputs l (vo_OperationID o')"
    if "o' \<in> set (rowsOf l)" "opLater o' x" for o'
  proof -
    show "opTerms x = opTerms o'" using that(2) by (simp add: opLater_def)
    show "seen l o'" using that(1) by (rule seen_row)
    have "storedInputs l' (vo_OperationID o') = storedInputs l (vo_OperationID o')"
      by (rule grows_stored) (use r that(1) in \<open>simp_all add: rely_def\<close>)
    then show "storedInputs l' (vo_OperationID x) = storedInputs l (vo_OperationID o')" using opLater_keys [OF that(2)] by simp
  qed
  show "digestBinds x (map bundleOf (storedInputs l' (vo_OperationID x)))"
    using cases
  proof cases
    case old
    with inv o' [OF old(1,2)] show ?thesis using digestBinds_terms [OF o'(1)] by (simp add: storeOk_def)
  qed
  assume rel: "released x"
  from cases show "vouched lib svc l' x"
  proof cases
    case old
    have "vouched lib svc l x" using old(3) rel vouched_from [OF old(2) _ rel, of lib svc l] inv old(1) by (auto simp: storeOk_def)
    from vouched_rely [OF this o'(2) [OF old(1,2)] _ r] opLater_keys [OF old(2)] show ?thesis by blast
  next
    case new
    with rel show ?thesis by (simp add: released_def)
  qed
qed

definition sysInv :: "('pk, 'sk, 'sg) ArkLib \<Rightarrow> (('pk, 'sk) Service \<Rightarrow> bool) \<Rightarrow> time \<times> Ledger \<times> spendReply prog list \<Rightarrow> bool" where
  "sysInv lib svc st \<longleftrightarrow> (case st of (t, l, ps) \<Rightarrow> opsInv (l_db l) \<and> (\<forall>p \<in> set ps. wp (vouches lib svc) p replyOk l))"

lemma sysInv_rely:
  "sysInv lib svc (t, l, ps) \<Longrightarrow> rely l l' \<Longrightarrow> sysInv lib svc (t', l', ps)"
  unfolding sysInv_def using wp_rely replyOk_rely by (fastforce simp: rely_def)

lemma other_rely:
  "opsInv (l_db l) \<Longrightarrow> rowsOf l' = rowsOf l \<Longrightarrow> inputsOf l' = inputsOf l \<Longrightarrow> l_integrityKey l' = l_integrityKey l \<Longrightarrow>
   keepsVaults l l' \<Longrightarrow> rely l l'"
  by (rule moved_rows [of l "rowsOf l"]) simp_all

text \<open>A step of the system keeps the invariant, grows the ledger and keeps the store.\<close>

lemma sysStep_safe:
  assumes "sysStep lib packs svc st st'" and "st = (t, l, ps)" and "st' = (t', l', ps')" and "sysInv lib svc st"
  shows "sysInv lib svc st' \<and> rely l l' \<and> (storeOk lib svc l \<longrightarrow> storeOk lib svc l')"
  using assms
proof (induction rule: sysStep.induct)
  case (arrive s p u m qs)
  then show ?case using request_wp [of svc s lib packs p, OF arrive.hyps] by (auto simp: sysInv_def rely_refl)
next
  case (call i qs u m u' m' p')
  then have l: "m = l" "m' = l'" "qs = ps" "u' = t'" "ps' = ps[i := p']" by simp_all
  from call have inv: "opsInv (l_db l)" and w: "wp (vouches lib svc) (ps ! i) replyOk l" by (auto simp: sysInv_def)
  note s = stepP_safe [OF call.hyps(2) [unfolded l] refl refl inv w]
  have "sysInv lib svc (t', l', ps)" using sysInv_rely [of lib svc t l ps] call.prems s by simp
  with s have "sysInv lib svc (t', l', ps[i := p'])" by (auto simp: sysInv_def dest: set_update_subset_insert [THEN subsetD])
  with s storeOk_grows [of lib svc l l'] call.prems show ?case by blast
next
  case (pass u u' m qs)
  then show ?case by (auto simp: sysInv_def rely_refl)
next
  case (other m' m u qs)
  then have r: "rely l l'" using other_rely [of l l'] by (auto simp: sysInv_def)
  with other have "sysInv lib svc (u, m', qs)" using sysInv_rely [of lib svc t l ps l' t'] by auto
  moreover have "storeOk lib svc l \<longrightarrow> storeOk lib svc l'"
    using storeOk_grows [OF _ r] other by (auto simp: comesFrom_same)
  ultimately show ?case using r other by auto
qed

lemma sysRun_safe:
  assumes "(sysStep lib packs svc)\<^sup>*\<^sup>* (t0, l0, []) st" and "opsInv (l_db l0)"
  shows "sysInv lib svc st \<and> rely l0 (fst (snd st)) \<and> (storeOk lib svc l0 \<longrightarrow> storeOk lib svc (fst (snd st)))"
  using assms(1)
proof (induction rule: rtranclp_induct)
  case base
  then show ?case using assms(2) by (simp add: sysInv_def rely_refl)
next
  case (step st1 st2)
  obtain t1 l1 ps1 t2 l2 ps2 where s: "st1 = (t1, l1, ps1)" "st2 = (t2, l2, ps2)" by (metis prod_cases3)
  from sysStep_safe [OF step.hyps(2) s] step.IH rely_trans [of l0 l1 l2] s show ?case by auto
qed

end
