(* ===== verification/SpendExamples.thy ===== *)
theory SpendExamples
  imports SpendRuns
begin

text \<open>
  A service with one enrolled vault and a ledger that holds it, and three requests run to their replies:
  a reservation from empty tables, status requests of a signed operation, and an abort.
\<close>

section \<open>Running a request alone\<close>

inductive runsP :: "time \<times> Ledger \<Rightarrow> 'a prog \<Rightarrow> time \<times> Ledger \<Rightarrow> 'a \<Rightarrow> bool" where
  over: "runsP w (Done x) w x"
| step: "stepP w p w' p' \<Longrightarrow> runsP w' p' w'' x \<Longrightarrow> runsP w p w'' x"

lemma stepP_bind: "stepP w p w' p' \<Longrightarrow> stepP w (bindP p f) w' (bindP p' f)"
  by (induction rule: stepP.induct) (auto intro: stepP.intros)

lemma runsP_bind: "runsP w p w' y \<Longrightarrow> runsP w' (f y) w'' x \<Longrightarrow> runsP w (bindP p f) w'' x"
  by (induction rule: runsP.induct) (auto intro: runsP.step stepP_bind)

lemma runsP_map: "runsP w p w' y \<Longrightarrow> runsP w (mapP f p) w' (f y)"
  unfolding mapP_def by (erule runsP_bind) (rule runsP.over)

lemma stepP_reads:
  "stepP (t, l) (LoadVerified v key kv) (t, l) (kv (LoadVerifiedVault l v key))"
  "stepP (t, l) (Get i kg) (t, l) (kg (GetVtxoOperation l i))"
  "stepP (t, l) (GetInputs i ki) (t, l) (ki (GetVtxoOperationInputs l i))"
  by (rule stepP.intros, rule answered_refl)+

lemma runsP_calls:
  "runsP (t, l) (k t) w x \<Longrightarrow> runsP (t, l) (Now k) w x"
  "runsP (t, l) (k' (RequireIntegrityKey key l)) w x \<Longrightarrow> runsP (t, l) (RequireKey key k') w x"
  "runsP (t, l) (kv (LoadVerifiedVault l v key)) w x \<Longrightarrow> runsP (t, l) (LoadVerified v key kv) w x"
  "runsP (t, l) (kg (GetVtxoOperation l i)) w x \<Longrightarrow> runsP (t, l) (Get i kg) w x"
  "runsP (t, l) (ki (GetVtxoOperationInputs l i)) w x \<Longrightarrow> runsP (t, l) (GetInputs i ki) w x"
  by (blast intro: runsP.step stepP.now stepP.requireKey stepP_reads)+

lemma runsP_request:
  "runsP w p w' x \<Longrightarrow> (sysStep lib packs svc)\<^sup>*\<^sup>* (fst w, snd w, ps @ p # qs) (fst w', snd w', ps @ Done x # qs)"
proof (induction rule: runsP.induct)
  case (step w p w' p' w'' x)
  have "sysStep lib packs svc (fst w, snd w, ps @ p # qs) (fst w', snd w', (ps @ p # qs)[length ps := p'])"
    by (rule sysStep.call) (use step.hyps(1) in simp_all)
  with step.IH show ?case by (simp add: converse_rtranclp_into_rtranclp)
qed simp

lemma serve:
  assumes "svc s" and "spendRequest lib packs s p" and "runsP (t, l) p (t', l') x"
  shows "(sysStep lib packs svc)\<^sup>*\<^sup>* (t, l, ps) (t', l', ps @ [Done x])"
  using sysStep.arrive [of svc s lib packs p t l ps, OF assms(1,2)] runsP_request [OF assms(3), of lib packs svc ps "[]"]
  by (simp add: converse_rtranclp_into_rtranclp)

section \<open>A service with one vault\<close>

definition svVault :: VaultRecord where
  "svVault = projr (sealVaultRecord exVault exKey)"

definition svLib :: "(bytes, bytes, bytes) ArkLib" where
  "svLib = (exArk [])\<lparr> P2TRScript := \<lambda>_. Inr [0x51], ExitClosures := \<lambda>cs. [hd cs], arkfeeNew := \<lambda>_. Inr exEstimator,
     DecodeAddressV0 := \<lambda>_. Inr \<lparr> aa_Version = 0, aa_HRP = ''tark'', aa_Signer = Some (replicate 33 3), aa_VtxoTapKey = Some [8] \<rparr>,
     AddressPkScript := \<lambda>_. Inr [0x52] \<rparr>"

definition svPacks :: embeddedPacks where
  "svPacks = \<lparr> ep_JSON = [], ep_mainnetJSON = [] \<rparr>"

definition svResolver :: ArkResolver where
  "svResolver = \<lparr> ar_SpendableVtxos = \<lambda>_. Inr [exVtxo 1 1000],
     ar_IntentFeePolicy = Inr \<lparr> ifp_OffchainInput = [], ifp_OffchainOutput = [], ifp_OnchainInput = [], ifp_OnchainOutput = [] \<rparr>,
     ar_SubmittedVtxoState = \<lambda>_ _ _ _ _. Inr SubmittedVtxoPending, ar_CheckpointTapscript = [6],
     ar_OperatorSignerPub = replicate 33 3 \<rparr>"

definition svService :: "(bytes, bytes) Service" where
  "svService = publishEnrollmentAt
     \<lparr> sv_Deployment = \<lparr> cf_ClientOrigin = ''o'', cf_RPID = ''rp'', cf_Network = ''mutinynet'' \<rparr>, sv_CredentialIntegrityKey = exKey,
       sv_keys = noKeys\<lparr> kc_vtxoTransaction := Some exKeys \<rparr>, sv_MaxConcurrentVerifications = 0, sv_MaxConcurrentFeeSelections = 0,
       sv_ArkResolver = Some svResolver, sv_contractPackJSON = [], sv_vaultPolicyHasExit = Some True, sv_published = None \<rparr>
     ''v1'' [1] (Some (replicate 32 1))
     (Some \<lparr> ss_Address = ''a'', ss_PkScript = [1], ss_ExternalOwnerWallet = Some (replicate 32 2), ss_RecoveryKey = None,
        ss_VaultCosignerBase = None, ss_ArkadeCosignerBase = None \<rparr>) None"

definition svLedger :: "VtxoOperation list \<Rightarrow> VtxoOperationInput list \<Rightarrow> Ledger" where
  "svLedger ops ins = (exLedger ops)\<lparr> l_db := emptyDb\<lparr> db_vault := [svVault], db_vtxo_operation := ops, db_vtxo_operation_input := ins \<rparr> \<rparr>"

lemma svVault: "sealVaultRecord exVault exKey = Inr svVault"
proof -
  have "\<exists>p. vaultRecordPayload exVault = Inr p"
    by (simp add: vaultRecordPayload_def exVault_def vaultRecordFields_def appendCredentialField_fits fits_short)
  then show ?thesis unfolding svVault_def by (auto simp: sealVaultRecord_def vaultRecordMAC_def)
qed

lemma svVault_verifies [simp]: "verifyVaultRecord svVault exKey = Inr ()"
  by (rule vault_seal.seal_verifies [OF length_exKey svVault])

lemma svVault_fields [simp]:
  "vr_VaultID svVault = ''v1''" "vr_ProtectionTier svVault = ''standard''" "vr_RecoveryKey svVault = []"
  "vr_TxRecipientCapSats svVault = 50000" "vr_PeriodAllowanceSats svVault = 100000" "vr_AbsoluteFeeCapSats svVault = 5000"
  "vr_FeerateCapSatPerV svVault = 10"
proof -
  obtain m where m: "svVault = exVault\<lparr> vr_IntegrityMAC := m \<rparr>"
    using svVault unfolding sealVaultRecord_def bindR_eq_Inr by (metis sum.inject(2))
  show "vr_VaultID svVault = ''v1''" "vr_ProtectionTier svVault = ''standard''" "vr_RecoveryKey svVault = []"
    "vr_TxRecipientCapSats svVault = 50000" "vr_PeriodAllowanceSats svVault = 100000" "vr_AbsoluteFeeCapSats svVault = 5000"
    "vr_FeerateCapSatPerV svVault = 10"
    unfolding m by (simp_all add: exVault_def)
qed

lemma svService_fields [simp]:
  "sv_CredentialIntegrityKey svService = exKey" "cf_Network (sv_Deployment svService) = ''mutinynet''"
  "sv_ArkResolver svService = Some svResolver" "sv_vaultPolicyHasExit svService = Some True"
  "kc_vtxoTransaction (sv_keys svService) = Some exKeys"
  "es_Savings (snapshot svService ''v1'') \<noteq> None" "es_PhoneBIP340 (snapshot svService ''v1'') = Some (replicate 32 1)"
  "es_ExternalOwnerWallet (snapshot svService ''v1'') = Some (replicate 32 2)" "es_RecoveryKey (snapshot svService ''v1'') = None"
  by (simp_all add: svService_def publishEnrollmentAt_def snapshot_def noSnapshot_def noKeys_def)

lemma svLedger_fields [simp]:
  "l_integrityKey (svLedger ops ins) = exKey" "rowsOf (svLedger ops ins) = ops" "inputsOf (svLedger ops ins) = ins"
  "db_vault (l_db (svLedger ops ins)) = [svVault]" "l_monotonic (svLedger ops ins) = None" "l_file (svLedger ops ins) = None"
  "db_vault_credential (l_db (svLedger ops ins)) = []"
  by (simp_all add: svLedger_def exLedger_def emptyDb_def)

lemma svLedger_vault: "db_vault (l_db l) = [svVault] \<Longrightarrow> db_vault_credential (l_db l) = [] \<Longrightarrow>
    LoadVault l ''v1'' = Inr (Some svVault, None) \<and> LoadVerifiedVault l ''v1'' exKey = Inr (Some svVault, None)"
  by (simp add: LoadVault_def LoadVerifiedVault_def getVaultCredentialTx_def find_row_def)

definition enrolledLedger :: "Ledger \<Rightarrow> bool" where
  "enrolledLedger l \<longleftrightarrow> l_integrityKey l = exKey \<and> db_vault (l_db l) = [svVault] \<and> db_vault_credential (l_db l) = []"

lemma svIntegrity: "enrolledLedger l \<Longrightarrow> runsP (t, l) (requireLedgerIntegrity svService) (t, l) (Inr ())"
  by (simp add: enrolledLedger_def requireLedgerIntegrity_def credentialIntegrityKey_def checkP_def RequireIntegrityKey_def runsP_calls(2) runsP.over)

lemma svResolve:
  "enrolledLedger l \<Longrightarrow> runsP (t, l) (resolveSpendVaultRecord svService ''v1'') (t, l) (Inr (''v1'', snapshot svService ''v1'', svVault))"
proof -
  assume l: "enrolledLedger l"
  have r: "routeVaultID ''v1'' = Inr ''v1''" by code_simp
  have p: "bindR (spendingPolicyFromRecord svVault) (ValidateSpendingPolicyFor ''mutinynet'') = Inr ()"
    unfolding spendingPolicyFromRecord_def svVault_fields by code_simp
  have t: "ValidateProtectionTierRecovery ''standard'' False = Inr ()" by code_simp
  show ?thesis using svLedger_vault [of l] l unfolding enrolledLedger_def resolveSpendVaultRecord_def r
    by (simp add: checkP_def credentialIntegrityKey_def p t runsP_calls(3) runsP.over)
qed


section \<open>Two status requests\<close>

definition svSigning :: VtxoOperation where
  "svSigning = exOperation\<lparr> vo_State := ''signed'', vo_AuthorizedPSBT := ''A'', vo_PendingProofDigest := replicate 32 5,
     vo_AuthorizedPendingProof := ''B'' \<rparr>"

definition svSignedOp :: VtxoOperation where
  "svSignedOp = projr (SealVtxoOperation svSigning exKey)"

lemma svSignedOp: "SealVtxoOperation svSigning exKey = Inr svSignedOp"
proof -
  have "\<exists>p. canonicalVtxoOperation svSigning = Inr p"
    by (simp add: canonicalVtxoOperation_def svSigning_def exOperation_def operationFields_def requireVtxoState_def appendCredentialField_fits fits_short)
  then show ?thesis unfolding svSignedOp_def by (auto simp: SealVtxoOperation_def vtxoOperationMAC_def)
qed

lemma svSignedOp_verifies [simp]: "VerifyVtxoOperation svSignedOp exKey = Inr ()"
  by (rule op_seal.seal_verifies [OF length_exKey svSignedOp])

lemma svSignedOp_fields [simp]:
  "vo_OperationID svSignedOp = ''00112233445566778899aabbccddeeff''" "vo_VaultID svSignedOp = ''v1''" "vo_State svSignedOp = ''signed''"
  "vo_AuthorizedPSBT svSignedOp = ''A''" "vo_AuthorizedPendingProof svSignedOp = ''B''"
proof -
  obtain m where m: "svSignedOp = svSigning\<lparr> vo_IntegrityMAC := m \<rparr>"
    using SealVtxoOperation_Inr [OF svSignedOp] by blast
  show "vo_OperationID svSignedOp = ''00112233445566778899aabbccddeeff''" "vo_VaultID svSignedOp = ''v1''" "vo_State svSignedOp = ''signed''"
    "vo_AuthorizedPSBT svSignedOp = ''A''" "vo_AuthorizedPendingProof svSignedOp = ''B''"
    unfolding m by (simp_all add: svSigning_def exOperation_def)
qed

lemma svView:
  assumes "enrolledLedger l" and "rowsOf l = [svSignedOp]" and "inputsOf l = []"
  shows "runsP (t, l) (GetVtxoOperationView svService ''v1'' ''00112233445566778899aabbccddeeff'') (t, l) (Inr (operationView svSignedOp))"
proof -
  have g: "GetVtxoOperation l ''00112233445566778899aabbccddeeff'' = Inr svSignedOp"
    using assms by (simp add: GetVtxoOperation_def loadVtxoOperation_def enrolledLedger_def integrityKeyCopy_def find_row_def)
  have i: "GetVtxoOperationInputs l ''00112233445566778899aabbccddeeff'' = Inr []"
    using assms by (simp add: GetVtxoOperationInputs_def loadVtxoOperationInputs_def enrolledLedger_def integrityKeyCopy_def)
  have p: "\<exists>e. e \<noteq> nilResolver \<and> runsP (t, l) (promoteSubmittedVtxo (Some svResolver) svSignedOp) (t, l) (Inl e)"
    unfolding promoteSubmittedVtxo_def by (auto simp: i checkP_def intro!: runsP_calls(5) runsP.over exI [of _ "Errorf ''reserved inputs required''"])
  have r: "runsP (t, l) (reconcileVtxo (Some svResolver) ''00112233445566778899aabbccddeeff'' svSignedOp) (t, l) (Inr svSignedOp)"
    using p unfolding reconcileVtxo_def by (auto intro!: runsP_bind runsP.over)
  have x: "runsP (t, l) (expireReservedVtxo svSignedOp) (t, l) (Inr svSignedOp)"
    by (simp add: expireReservedVtxo_def runsP.over)
  show ?thesis unfolding GetVtxoOperationView_def
    apply (rule runsP_bind [OF svIntegrity [OF assms(1)]])
    apply (simp only: checkP_def sum.case)
    apply (rule runsP_bind [OF svResolve [OF assms(1)]])
    apply (simp only: checkP_def sum.case prod.case)
    apply (rule runsP_calls(4))
    apply (simp add: g)
    apply (rule runsP_bind [OF r])
    apply (simp only: checkP_def sum.case)
    apply (rule runsP_bind [OF x])
    apply (simp only: checkP_def sum.case)
    apply (rule runsP.over)
    done
qed

text \<open>Two status requests of the signed operation, one after the other.\<close>

abbreviation svViewed :: "spendReply prog" where
  "svViewed \<equiv> Done (ViewReply (Inr (operationView svSignedOp)))"



section \<open>An abort\<close>

definition svInput :: VtxoOperationInput where
  "svInput = projr (SealVtxoOperationInput exInput exKey)"

lemma svInput: "SealVtxoOperationInput exInput exKey = Inr svInput"
  using exInput_sealed by (auto simp: svInput_def)

lemma svInput_verifies [simp]: "VerifyVtxoOperationInput svInput exKey = Inr ()"
  by (rule input_seal.seal_verifies [OF length_exKey svInput])

lemma svInput_fields [simp]:
  "vi_OperationID svInput = ''00112233445566778899aabbccddeeff''" "vi_Txid svInput = replicate 32 9" "vi_Vout svInput = 0"
  "vi_ValueSats svInput = 1010" "vi_Script svInput = [4]"
proof -
  obtain m where m: "svInput = exInput\<lparr> vi_IntegrityMAC := m \<rparr>"
    using svInput unfolding SealVtxoOperationInput_def bindR_eq_Inr by (metis sum.inject(2))
  show "vi_OperationID svInput = ''00112233445566778899aabbccddeeff''" "vi_Txid svInput = replicate 32 9" "vi_Vout svInput = 0"
    "vi_ValueSats svInput = 1010" "vi_Script svInput = [4]"
    unfolding m by (simp_all add: exInput_def)
qed

definition svAborted :: VtxoOperation where
  "svAborted = projr (SealVtxoOperation (exSealed\<lparr> vo_State := ''aborted'' \<rparr>) exKey)"

definition svAbort :: VtxoAbortRequest where
  "svAbort = \<lparr> bq_OperationID = ''00112233445566778899aabbccddeeff'', bq_VaultID = ''v1'', bq_Purpose = ''spend'',
     bq_PhoneSignature = replicate 128 CHR ''0'' \<rparr>"

lemma svAborted: "SealVtxoOperation (exSealed\<lparr> vo_State := ''aborted'' \<rparr>) exKey = Inr svAborted"
  and svAborted_check: "vtxo_operation_check svAborted"
  and svAborted_fields: "vo_OperationID svAborted = ''00112233445566778899aabbccddeeff''"
proof -
  obtain m where m: "exSealed = exOperation\<lparr> vo_IntegrityMAC := m \<rparr>" using exSealed_eq by blast
  have "\<exists>p. canonicalVtxoOperation (exSealed\<lparr> vo_State := ''aborted'' \<rparr>) = Inr p"
    unfolding m by (simp add: canonicalVtxoOperation_def exOperation_def operationFields_def requireVtxoState_def appendCredentialField_fits fits_short)
  then show s: "SealVtxoOperation (exSealed\<lparr> vo_State := ''aborted'' \<rparr>) exKey = Inr svAborted"
    unfolding svAborted_def by (auto simp: SealVtxoOperation_def vtxoOperationMAC_def)
  obtain k where k: "svAborted = exOperation\<lparr> vo_State := ''aborted'', vo_IntegrityMAC := k \<rparr>" "length k = 32"
    using SealVtxoOperation_Inr [OF s] unfolding m by auto
  show "vtxo_operation_check svAborted" using k(2) unfolding k(1) by (simp add: vtxo_operation_check_def exOperation_def)
  show "vo_OperationID svAborted = ''00112233445566778899aabbccddeeff''" unfolding k(1) by (simp add: exOperation_def)
qed

lemma svTransition:
  "TransitionVtxoOperation (svLedger [exSealed] [svInput]) ''reserved'' (exSealed\<lparr> vo_State := ''aborted'' \<rparr>) =
    (Inr (svAborted, True), svLedger [svAborted] [svInput])"
proof -
  have v: "vo_VaultID svAborted = ''v1''" using SealVtxoOperation_Inr [OF svAborted] exSealed_fields(2)
    by (metis VtxoOperation.select_convs(2) VtxoOperation.surjective VtxoOperation.update_convs(5,24))
  have "updateVtxoOperation ''reserved'' svAborted (l_db (svLedger [exSealed] [svInput])) =
      Inr (1, (l_db (svLedger [exSealed] [svInput]))\<lparr> db_vtxo_operation := [svAborted] \<rparr>)"
    using svAborted_check by (simp add: updateVtxoOperation_def Let_def affected_def update_rows_def svAborted_fields v)
  then show ?thesis
    by (simp add: TransitionVtxoOperation_def integrityKeyCopy_def svAborted validVtxoTransition_iff Let_def)
      (simp add: svLedger_def exLedger_def)
qed

lemma svID: "decodeOperationID ''00112233445566778899aabbccddeeff'' =
    Inr [0x00, 0x11, 0x22, 0x33, 0x44, 0x55, 0x66, 0x77, 0x88, 0x99, 0xAA, 0xBB, 0xCC, 0xDD, 0xEE, 0xFF]"
  by code_simp

lemma svAbortDigest: "\<exists>d. ComputeVtxoAbortDigest ''00112233445566778899aabbccddeeff'' ''v1'' ''spend'' = Inr d"
  by (simp add: ComputeVtxoAbortDigest_def vtxoAbortPayload_def svID appendCredentialField_fits fits_short)

lemma svAbortRun:
  "runsP (exNow, svLedger [exSealed] [svInput]) (AbortVtxo svLib svService svAbort) (exNow, svLedger [svAborted] [svInput])
     (Inr \<lparr> br_OperationID = ''00112233445566778899aabbccddeeff'', br_State = ''aborted'' \<rparr>)"
proof -
  let ?l = "svLedger [exSealed] [svInput]" and ?i = "''00112233445566778899aabbccddeeff''"
  have l: "enrolledLedger ?l" by (simp add: enrolledLedger_def)
  obtain m where m: "exSealed = exOperation\<lparr> vo_IntegrityMAC := m \<rparr>" using exSealed_eq by blast
  have c: "canonicalVtxoOperationID (bq_OperationID svAbort) = Inr ?i" unfolding svAbort_def by code_simp
  have t: "trim_space (bq_Purpose svAbort) = ''spend''" unfolding svAbort_def by code_simp
  have sig: "hex_decode (replicate 128 CHR ''0'') = Some (replicate 64 0)" "to_lower (replicate 128 CHR ''0'') = replicate 128 CHR ''0''"
    by code_simp+
  have ph: "verifyVtxoAbortPhoneSignature svLib svAbort ''v1'' (Some (replicate 32 1)) = Inr ()"
    using t svAbortDigest by (auto simp: verifyVtxoAbortPhoneSignature_def verifyPhoneSignature_def svAbort_def sig svLib_def exArk_def)
  have g: "GetVtxoOperation ?l ?i = Inr exSealed"
    by (simp add: GetVtxoOperation_def loadVtxoOperation_def integrityKeyCopy_def find_row_def)
  have i: "GetVtxoOperationInputs ?l ?i = Inr [svInput]"
    by (simp add: GetVtxoOperationInputs_def loadVtxoOperationInputs_def integrityKeyCopy_def)
  have p: "parseRFC3339 ''2026-01-01T01:00:00Z'' = Some (exNow + Hour)" unfolding exNow_def by code_simp
  have x: "runsP (exNow, ?l) (expireReservedVtxo exSealed) (exNow, ?l) (Inr exSealed)"
    unfolding expireReservedVtxo_def by (simp add: p) (rule runsP_calls(1), simp add: runsP.over)
  have f: "vo_Purpose exSealed = ''spend''" "\<not> vtxoHasSigningArtifacts exSealed"
    unfolding m by (simp_all add: exOperation_def vtxoHasSigningArtifacts_def)
  have q: "requireAbortableVtxoInputs [svInput] = Inr ()" by (simp add: requireAbortableVtxoInputs_def)
  show ?thesis unfolding AbortVtxo_def c
    apply (simp only: checkP_def sum.case)
    apply (rule runsP_bind [OF svIntegrity [OF l]])
    apply (simp only: sum.case t if_False simp_thms)
    apply (simp add: svAbort_def)
    apply (rule runsP_bind [OF svResolve [OF l]])
    apply (simp add: ph [unfolded svAbort_def])
    apply (rule runsP_calls(4))
    apply (simp add: g f)
    apply (rule runsP_bind [OF x])
    apply (simp add: f)
    apply (rule runsP_calls(5))
    apply (simp add: i q)
    apply (rule runsP.step [OF stepP.transition [OF svTransition answered_refl]])
    apply (simp add: runsP.over)
    done
qed

section \<open>A reservation\<close>

definition svReserve :: VtxoReserveRequest where
  "svReserve = \<lparr> rq_OperationID = ''00112233445566778899aabbccddeeff'', rq_VaultID = ''v1'', rq_Purpose = ''spend'', rq_DestAddress = ''d'',
     rq_AmountSats = 500, rq_PhoneSignature = replicate 128 CHR ''0'' \<rparr>"

definition svEnv :: callEnv where
  "svEnv = \<lparr> ce_selectCtx = \<lambda>_ _. False, ce_acquireCtx = None, ce_feeSelectionsBusy = 0, ce_verifyCtx = None,
     ce_verificationsBusy = 0, ce_signCtx = \<lambda>_. None \<rparr>"

lemma svLib_fields [simp]:
  "ParsePubKey svLib = Inr" "SerializePubKey svLib = id" "XOnlyParsePubKey svLib = Inr" "PubKey svLib = id"
  "ParseSignature svLib = Inr" "SchnorrVerify svLib = (\<lambda>_ _ _. True)" "P2TRScript svLib = (\<lambda>_. Inr [0x51])"
  "TapTree svLib = (\<lambda>_. Inr ([9], \<lambda>_. Inr [3]))" "EncodeClosures svLib = (\<lambda>_. Inr [])" "ClosureScript svLib = (\<lambda>_. Inr [1])"
  "ExitClosures svLib = (\<lambda>cs. [hd cs])" "arkfeeNew svLib = (\<lambda>_. Inr exEstimator)" "AddressPkScript svLib = (\<lambda>_. Inr [0x52])"
  "NewDefaultVtxoScript svLib = (\<lambda>_ _ _. [])" "EncodeV0 svLib = (\<lambda>_. Inr ''address'')" "NewAddressTaproot svLib = (\<lambda>_ _. Inr ''address'')"
  "BitcoinMutinyNetAddr svLib = ''tark''"
  "DecodeAddressV0 svLib = (\<lambda>_. Inr \<lparr> aa_Version = 0, aa_HRP = ''tark'', aa_Signer = Some (replicate 33 3), aa_VtxoTapKey = Some [8] \<rparr>)"
  by (simp_all add: svLib_def exArk_def)

lemma svResolver_fields [simp]:
  "ar_OperatorSignerPub svResolver = replicate 33 3" "ar_CheckpointTapscript svResolver = [6]"
  "ar_SpendableVtxos svResolver = (\<lambda>_. Inr [exVtxo 1 1000])"
  by (simp_all add: svResolver_def)

lemma svKey: "vtxoPublic svLib (sv_keys svService)
    \<lparr> vk_vaultID = ''v1'', vk_network = ''mutinynet'', vk_operatorPub = replicate 33 3, vk_expectedXOnly = [] \<rparr> = Inr (replicate 32 5)"
proof -
  have "scalarInRange svLib (hkdfBlock prk info)" for prk info
    by (simp add: scalarInRange_def svLib_def exArk_def hkdfBlock_def)
  then have h: "hkdfScalar svLib prk info [0..<256] = Some (replicate 32 5)" for prk info
    by (subst upt_conv_Cons) (simp_all add: Let_def, simp add: svLib_def exArk_def)
  have "deriveVtxoKey svLib [7] \<lparr> vk_vaultID = ''v1'', vk_network = ''mutinynet'', vk_operatorPub = replicate 33 3, vk_expectedXOnly = [] \<rparr> =
      Inr (replicate 32 5)"
    by (simp add: deriveVtxoKey_def validateVtxoKeyContext_def DeriveVtxoVaultCosignerScalar_def compressedPub_def deriveVtxoHKDFVaultCosigner_def h evenYPrivateKey_def, simp add: svLib_def exArk_def)
  then show ?thesis by (simp add: vtxoPublic_def vtxoVaultCosignerPublic_def withMaster_def exKeys_def)
qed

definition svPins :: NetworkPins where
  "svPins = \<lparr> np_Network = ''mutinynet'', np_PolicyExitDelay = 4608, np_BoardExitDelay = 604672, np_ArkdMinExitDelay = 2048,
     np_DelegatePub = ''032903b15efe236d9609da10e536fb32cdf1d144778797bbf32a9b94e86601be6a'',
     np_DelegateOrigin = ''https://delegator.mutinynet.arkade.sh'', np_AbsoluteFeeCeiling = 5000, np_FeerateCeilingSatPerV = 10 \<rparr>"

lemma svPins: "PinsFor ''mutinynet'' = Inr svPins"
  by (simp add: PinsFor_def svPins_def)

lemma svPins_fields [simp]:
  "np_PolicyExitDelay svPins = 4608" "np_ArkdMinExitDelay svPins = 2048"
  by (simp_all add: svPins_def)

definition svDelegate :: bytes where
  "svDelegate = mustDecodeCompressed (np_DelegatePub svPins)"

lemma svDelegate: "hex_decode (np_DelegatePub svPins) = Some svDelegate" "length svDelegate = 33"
  by code_simp+

lemma svEncode: "\<exists>e. encodePolicyTree svLib a b c = Inr e \<and> pt_PkScript e = [0x51]"
  by (simp add: encodePolicyTree_def Let_def)

lemma svTree: "\<exists>tree. buildVtxoPolicyTree svLib svService ''v1'' (snapshot svService ''v1'') = Inr tree \<and> vt_PkScript tree = [0x51]"
proof -
  have v: "ValidateVaultPolicyV1ExitDelayFor ''mutinynet'' 4608 ExitDelayUnit = Inr ()" by code_simp
  have n: "productNetwork ''mutinynet'' = ''mutinynet''" by code_simp
  have p: "parsePolicyPub svLib raw name = Inr raw" if "length raw = 32 \<or> length raw = 33" for raw name
    using that by (auto simp: parsePolicyPub_def)
  have w: "PinnedDelegateXOnlyFor svLib ''mutinynet'' = Inr svDelegate"
    by (simp add: PinnedDelegateXOnlyFor_def n svPins svDelegate)
  have "\<exists>e. BuildVaultPolicyV1Tree svLib (policyParams svLib (replicate 32 1) (replicate 32 2) None (replicate 32 5) (replicate 33 3) svDelegate ''mutinynet'') =
      Inr e \<and> pt_PkScript e = [0x51]"
    unfolding BuildVaultPolicyV1Tree_def policyParams_def
    by (simp add: n svPins v p w svDelegate policyExitPubs_def svEncode)
  then obtain e where "BuildVaultPolicyV1Tree svLib (policyParams svLib (replicate 32 1) (replicate 32 2) None (replicate 32 5) (replicate 33 3) svDelegate ''mutinynet'') =
      Inr e" "pt_PkScript e = [0x51]" by blast
  then show ?thesis unfolding buildVtxoPolicyTree_def
    by (simp add: vtxoKeyContextFor_def newVtxoKeyContext_def operatorSignerPub_def svKey failAs_def svPins vtxoNetworkParams_def flip: svDelegate_def)
qed


lemma svSelect:
  "selectSpendVtxos (\<lambda>_ _. False) (Inr [exVtxo 1 1000]) (Inr ()) [0x51] [0x52] 500 5000 exEstimator = Inr ([exCoin 1 1000], 2, 498)"
proof -
  have pool: "vtxosToCoins [exVtxo 1 1000] [0x51] exEstimator 20000 = Inr ([exCoin 1 1000], 19999)"
    using exVtxo_coin [of 1000 1 19999] by (simp add: max_i64_def)
  have ok: "\<exists>os. CanonicalVtxoBundleInputs (map coinInput [exCoin 1 1000]) = Inr os"
    by (simp add: CanonicalVtxoBundleInputs_iff normalizeBundleInput_id coinInput_def exCoin_def)
  have one: "solveVtxoSpendWithBudget (\<lambda>_. False) [exCoin 1 1000] [82] [81] 500 5000 exEstimator 19999 = Inr ((2, 498, True), 19995)"
    by (simp add: exSolve)
  have "selectCoins (\<lambda>_ _. False) [exCoin 1 1000] [0x51] [0x52] 500 5000 exEstimator 19999 = Inr ([exCoin 1 1000], 2, 498)"
    using ok unfolding selectCoins_def by (auto simp: Let_def one)
  then show ?thesis by (simp only: selectSpendVtxos_def reject_Inr bindR_Inr pool case_prod_conv)
qed

definition svFeeDigest :: bytes where
  "svFeeDigest = ComputeIntentFeePolicyDigest [] [] [] []"

lemma length_svFeeDigest [simp]: "length svFeeDigest = 32"
  by (simp add: svFeeDigest_def ComputeIntentFeePolicyDigest_def)

lemma svBundle:
  "\<exists>d. ComputeVtxoBundleDigest ''spend'' ''v1'' [0x52] [0x51] 500 2 498 (Some 1) svFeeDigest (map bundleInput [exCoin 1 1000])
     ''2026-01-01T00:00:00Z'' = Inr d \<and> length d = 32"
proof -
  have c: "CanonicalVtxoBundleInputs (map bundleInput [exCoin 1 1000]) = Inr [\<lparr> vb_Txid = replicate 32 1, vb_Vout = 0, vb_ValueSats = 1000 \<rparr>]"
    by (simp add: CanonicalVtxoBundleInputs_def bundleInput_def exCoin_def canonicalVtxoTxid_def)
  show ?thesis unfolding ComputeVtxoBundleDigest_def vtxoBundlePayload_def c
    by (simp add: appendCredentialField_fits fits_short)
qed

definition svRow :: "bytes \<Rightarrow> VtxoOperation" where
  "svRow d = reservationRow ''00112233445566778899aabbccddeeff'' ''v1'' ''spend'' d 500 2 svFeeDigest [0x52] [0x51] 498 (Some 1) [6]
     ''2026-01-01T00:02:00Z'' ''2026-01-01T00:00:00Z''"

lemma svRow_ready:
  assumes "length d = 32"
  shows "requestReady exKey (svRow d) [operationInput (exCoin 1 1000)]"
proof -
  have "\<exists>p. canonicalVtxoOperation (svRow d) = Inr p"
    using assms by (simp add: canonicalVtxoOperation_def svRow_def reservationRow_def operationFields_def requireVtxoState_def
        appendCredentialField_fits fits_short)
  then obtain s where s: "SealVtxoOperation (svRow d) exKey = Inr s" by (auto simp: SealVtxoOperation_def vtxoOperationMAC_def)
  then obtain m where m: "s = (svRow d)\<lparr> vo_IntegrityMAC := m \<rparr>" "length m = 32" using SealVtxoOperation_Inr by blast
  have c: "vtxo_operation_check s" using m(2) assms unfolding m(1)
    by (simp add: vtxo_operation_check_def svRow_def reservationRow_def)
  have "\<exists>p. canonicalVtxoOperationInput ((operationInput (exCoin 1 1000))\<lparr> vi_OperationID := ''00112233445566778899aabbccddeeff'' \<rparr>) = Inr p"
    by (simp add: canonicalVtxoOperationInput_def operationInput_def exCoin_def appendCredentialField_fits fits_short)
  then have i: "\<exists>x. SealVtxoOperationInput ((operationInput (exCoin 1 1000))\<lparr> vi_OperationID := ''00112233445566778899aabbccddeeff'' \<rparr>) exKey = Inr x"
    by (auto simp: SealVtxoOperationInput_def vtxoOperationInputMAC_def)
  have f: "vo_OperationID (svRow d) = ''00112233445566778899aabbccddeeff''" "vo_VaultID (svRow d) = ''v1''" "vo_State (svRow d) = ''reserved''"
    by (simp_all add: svRow_def reservationRow_def)
  show ?thesis unfolding requestReady_def f using s c i by (auto simp: operationInput_def exCoin_def)
qed

lemma svReserved:
  assumes "length d = 32"
  shows "\<exists>x l. ReserveVtxoOperation NoFault False exNow exNow (svLedger [] []) (svRow d) [operationInput (exCoin 1 1000)] 100000 = (Inr (), l) \<and>
    SealVtxoOperation (svRow d) exKey = Inr x \<and> rowsOf l = [x]"
proof -
  let ?l = "svLedger [] []" and ?ins = "[operationInput (exCoin 1 1000)]"
  have inv: "opsInv (l_db ?l)" by (simp add: opsInv_def)
  have ready: "reserveReady ?l exNow (svRow d) ?ins 100000"
    by (simp add: reserveReady_def Let_def locks_def windowOutflow_def outflow_def) (simp add: svRow_def reservationRow_def)
  from reserveBody_ok [of ?l exNow "svRow d" ?ins 100000 exNow] ready svRow_ready [OF assms] inv obtain db' where
    d: "reserveBody ?l exNow exNow (svRow d) ?ins 100000 (l_db ?l) = Inr db'" by auto
  then obtain x where x: "SealVtxoOperation (svRow d) exKey = Inr x" "db_vtxo_operation db' = [x]"
    by (rule reserveBody_Inr) auto
  have "ReserveVtxoOperation NoFault False exNow exNow ?l (svRow d) ?ins 100000 = (Inr (), ?l\<lparr> l_db := db' \<rparr>)"
    using d svRow_ready [OF assms] by (simp add: ReserveVtxoOperation_def requestReady_def observeAndCommit_def observeEconomicOutflowsLocked_def)
  with x show ?thesis by auto
qed


lemma svReserveRun:
  "\<exists>d x l reply. ReserveVtxoOperation NoFault False exNow exNow (svLedger [] []) (svRow d) [operationInput (exCoin 1 1000)] 100000 = (Inr (), l) \<and>
    SealVtxoOperation (svRow d) exKey = Inr x \<and> rowsOf l = [x] \<and>
    runsP (exNow, svLedger [] []) (ReserveVtxo svLib svPacks svEnv svService svReserve) (exNow, l) (Inr reply)"
proof -
  let ?l = "svLedger [] []" and ?i = "''00112233445566778899aabbccddeeff''"
  have l: "enrolledLedger ?l" by (simp add: enrolledLedger_def)
  have c: "canonicalVtxoOperationID ?i = Inr ?i" by code_simp
  have t: "trim_space ''spend'' = ''spend''" "trim_space ''d'' = ''d''" by code_simp+
  have sig: "hex_decode (replicate 128 CHR ''0'') = Some (replicate 64 0)" "to_lower (replicate 128 CHR ''0'') = replicate 128 CHR ''0''"
    by code_simp+
  obtain tree where tree: "buildVtxoPolicyTree svLib svService ''v1'' (snapshot svService ''v1'') = Inr tree" "vt_PkScript tree = [0x51]"
    using svTree by blast
  have dest: "decodeVtxoDest svLib svService ''d'' = Inr ([0x52], ''d'')"
    by (simp add: decodeVtxoDest_def t vtxoAddrHRP_def operatorSignerPub_def)
  have "\<exists>d. ComputeVtxoReserveDigest ?i ''v1'' ''spend'' [0x52] 500 = Inr d"
    by (simp add: ComputeVtxoReserveDigest_def vtxoReservePayload_def svID appendCredentialField_fits fits_short)
  then have ph: "verifyVtxoReservePhoneSignature svLib svReserve ''v1'' [0x52] (Some (replicate 32 1)) = Inr ()"
    by (auto simp: verifyVtxoReservePhoneSignature_def verifyPhoneSignature_def svReserve_def sig t)
  have rf: "refuseDefaultVtxoChange svLib svService (snapshot svService ''v1'') [0x52] = Inr ()"
    by (simp add: refuseDefaultVtxoChange_def operatorSignerPub_def svPins defaultVtxoPkScript_def)
  have cap: "vtxoFeeCap svVault = Inr 5000" by (simp add: vtxoFeeCap_def)
  have am: "enforceVtxoAmount 500 f svVault = Inr ()" if "f \<in> {0, 2}" for f using that by (auto simp: enforceVtxoAmount_def)
  have g: "GetVtxoOperation ?l ?i = Inl ErrNoRows"
    by (simp add: GetVtxoOperation_def loadVtxoOperation_def integrityKeyCopy_def find_row_def)
  have fee: "newVtxoFeeEstimator (\<lambda>_. Inr exEstimator) \<lparr> ifp_OffchainInput = [], ifp_OffchainOutput = [], ifp_OnchainInput = [], ifp_OnchainOutput = [] \<rparr> =
      Inr (exEstimator, svFeeDigest)"
    by (simp add: newVtxoFeeEstimator_def svFeeDigest_def)
  have acq: "acquireFeeSelection (sv_MaxConcurrentFeeSelections svService) 0 None = Inr ()"
    by (simp add: acquireFeeSelection_def acquireSlot_def svService_def publishEnrollmentAt_def Let_def)
  have f: "formatRFC3339 exNow = ''2026-01-01T00:00:00Z''" "formatRFC3339 (exNow + 120000000000) = ''2026-01-01T00:02:00Z''"
    unfolding exNow_def by code_simp+
  have al: "periodAllowanceSats (Some svVault) None = 100000" by (simp add: periodAllowanceSats_def)
  obtain d where d: "ComputeVtxoBundleDigest ''spend'' ''v1'' [0x52] [0x51] 500 2 498 (Some 1) svFeeDigest (map bundleInput [exCoin 1 1000])
      ''2026-01-01T00:00:00Z'' = Inr d" "length d = 32"
    using svBundle by blast
  obtain x l' where r: "ReserveVtxoOperation NoFault False exNow exNow ?l (svRow d) [operationInput (exCoin 1 1000)] 100000 = (Inr (), l')"
    "SealVtxoOperation (svRow d) exKey = Inr x" "rowsOf l' = [x]"
    using svReserved [OF d(2)] by blast
  have new: "runsP (exNow, ?l) (newReservation svLib svEnv svService svResolver svReserve ?i ''v1'' svVault tree [0x52] 5000) (exNow, l')
      (Inr (vtxoReserveResponse (svRow d) [operationInput (exCoin 1 1000)] (vt_ArkAddress tree)))"
    unfolding newReservation_def
    apply (simp add: svReserve_def t svResolver_def fee svEnv_def acq tree svSelect am checkP_def Let_def)
    apply (rule runsP_calls(1))
    apply (simp add: f d [simplified] al tree flip: svRow_def)
    apply (rule runsP.step [OF stepP.reserve [OF order_refl r(1) answered_refl]])
    apply (simp add: runsP.over)
    done
  have ex: "requireVaultPolicyV1Exit svPacks svService = Inr ()" by (simp add: requireVaultPolicyV1Exit_def)
  have ar: "requireArkResolver svService = Inr svResolver" by (simp add: requireArkResolver_def)
  have run: "runsP (exNow, ?l) (ReserveVtxo svLib svPacks svEnv svService svReserve) (exNow, l')
      (Inr (vtxoReserveResponse (svRow d) [operationInput (exCoin 1 1000)] (vt_ArkAddress tree)))"
    unfolding ReserveVtxo_def
    apply (simp add: svReserve_def c t checkP_def)
    apply (rule runsP_bind [OF svIntegrity [OF l]])
    apply (simp add: ex ar)
    apply (rule runsP_bind [OF svResolve [OF l]])
    apply (simp add: tree dest ph [unfolded svReserve_def] rf cap am)
    apply (rule runsP_calls(4))
    apply (simp add: g)
    apply (rule new)
    done
  from r run show ?thesis by blast
qed


lemma svReserveServed:
  "\<exists>l x reply. (sysStep svLib svPacks (\<lambda>s. s = svService))\<^sup>*\<^sup>* (exNow, svLedger [] [], []) (exNow, l, [Done (ReserveReply (Inr reply))]) \<and>
     rowsOf l = [x] \<and> vo_VaultID x = ''v1'' \<and> vo_AmountSats x = 500"
proof -
  obtain d x l reply where r: "SealVtxoOperation (svRow d) exKey = Inr x" "rowsOf l = [x]"
    and run: "runsP (exNow, svLedger [] []) (ReserveVtxo svLib svPacks svEnv svService svReserve) (exNow, l) (Inr reply)"
    using svReserveRun by blast
  obtain m where m: "x = (svRow d)\<lparr> vo_IntegrityMAC := m \<rparr>" using SealVtxoOperation_Inr [OF r(1)] by blast
  have "vo_VaultID x = ''v1''" "vo_AmountSats x = 500" unfolding m by (simp_all add: svRow_def reservationRow_def)
  moreover have "(sysStep svLib svPacks (\<lambda>s. s = svService))\<^sup>*\<^sup>* (exNow, svLedger [] [], []) (exNow, l, [] @ [Done (ReserveReply (Inr reply))])"
    by (rule serve [OF refl spendRequest.reserve runsP_map [OF run]])
  ultimately show ?thesis using r(2) by auto
qed

end
