(* ===== verification/SpendProperties.thy ===== *)
theory SpendProperties
  imports SpendExamples
begin

text \<open>
  What the concurrent runs of the spending handlers guarantee: the enrolled allowance, the account of
  every signature, and the agreement of the replies.
\<close>

section \<open>The handlers use the ledger as its properties require\<close>

lemma stepP_ledger:
  assumes "stepP w p w' p'" and "w = (t, l)" and "w' = (t', l')" and "opsInv (l_db l)" and "wp V p Q l"
    and "LoadVault l v = Inr (Some vault, c)"
  shows "vtxoStep v (periodAllowanceSats (Some vault) None) (t, l) (t', l')"
  using assms
proof (induction rule: stepP.induct)
  case (reserve u t2 fault cf t1 m rec ins cap r m' a k)
  then have "mayReserve l rec ins cap" using rely_refl [of l] by auto
  then have "vo_VaultID rec = v \<longrightarrow> cap = periodAllowanceSats (Some vault) None"
    using reserve.prems(5) by (auto simp: mayReserve_def)
  with reserve show ?case by (auto intro: vtxoStep.reserve)
next
  case (transition m st rec r m' a u k)
  then have "mayMove l st rec" using rely_refl [of l] by auto
  from mayMove_outflow [OF this] transition show ?case by (auto intro: vtxoStep.transition)
next
  case (commit cf u m rec n r m' a k)
  then have "mayMove l vtxoStateReserved rec" using rely_refl [of l] by auto
  from mayMove_outflow [OF this] commit show ?case by (auto intro: vtxoStep.commit)
qed (auto intro: vtxoStep.tick)

lemma sysStep_ledger:
  assumes "sysStep lib packs svc st st'" and "st = (t, l, ps)" and "st' = (t', l', ps')" and "sysInv lib svc st"
    and "LoadVault l v = Inr (Some vault, c)"
  shows "vtxoStep v (periodAllowanceSats (Some vault) None) (t, l) (t', l')"
  using assms
proof (induction rule: sysStep.induct)
  case (call i qs u m u' m' p')
  then have "opsInv (l_db l)" "wp (vouches lib svc) (ps ! i) replyOk l" by (auto simp: sysInv_def)
  with call stepP_ledger [OF call.hyps(2)] show ?case by auto
qed (auto intro: vtxoStep.tick vtxoStep.frame)

lemma sysRun_ledger:
  assumes "(sysStep lib packs svc)\<^sup>*\<^sup>* (t0, l0, []) st" and "opsInv (l_db l0)" and "LoadVault l0 v = Inr (Some vault, c)"
  shows "(vtxoStep v (periodAllowanceSats (Some vault) None))\<^sup>*\<^sup>* (t0, l0) (fst st, fst (snd st))"
  using assms(1)
proof (induction rule: rtranclp_induct)
  case (step st1 st2)
  obtain t1 l1 ps1 t2 l2 ps2 where s: "st1 = (t1, l1, ps1)" "st2 = (t2, l2, ps2)" by (metis prod_cases3)
  from sysRun_safe [OF step.hyps(1) assms(2)] s have inv: "sysInv lib svc st1" "rely l0 l1" by auto
  from sysStep_ledger [OF step.hyps(2) s inv(1) rely_vault [OF inv(2) assms(3)]] step.IH s show ?case by simp
qed simp

lemma periodAllowance_pos: "0 < sint (periodAllowanceSats (Some vault) None)"
  by (simp add: periodAllowanceSats_def)

text \<open>
  C1. However the spending requests of a process interleave, the vault's enrolled allowance holds. Take
  any concurrent run of the six handlers, with any requests, any answers of the indexer and any faults of
  the ledger, that starts with the vault stored and with empty tables of operations and inputs. It is a
  run of the ledger in which the operations of the vault are reserved against the allowance of its stored
  record and no update raises an outflow. So at every instant the vault's active operations and the
  settled ones of the last 24 hours stay within it, at most one operation of a vault is active, and no
  outpoint is locked twice.
\<close>

theorem spend_service_keeps_allowance:
  assumes "(sysStep lib packs svc)\<^sup>*\<^sup>* (t0, l0, []) (t, l, ps)" and "LoadVault l0 v = Inr (Some vault, c)"
    and "rowsOf l0 = []" and "inputsOf l0 = []"
  shows "(vtxoStep v (periodAllowanceSats (Some vault) None))\<^sup>*\<^sup>* (t0, l0) (t, l) \<and>
    heldOutflow t v (rowsOf l) \<le> sint (periodAllowanceSats (Some vault) None) \<and> oneActive (l_db l) \<and> noOverlap (l_db l)"
proof -
  have inv: "opsInv (l_db l0)" using assms(3,4) by (simp add: opsInv_def)
  have run: "(vtxoStep v (periodAllowanceSats (Some vault) None))\<^sup>*\<^sup>* (t0, l0) (t, l)"
    using sysRun_ledger [OF assms(1) inv assms(2)] by simp
  have "vtxoInv v (periodAllowanceSats (Some vault) None) (t0, l0)"
    by (rule vtxoInv_empty [OF assms(3,4) less_imp_le [OF periodAllowance_pos]])
  from vtxoRun_invariant [OF run this] run show ?thesis by (simp add: vtxoInv_def Let_def)
qed

theorem spend_service_keeps_allowance_witness:
  "\<exists>l x reply. (sysStep svLib svPacks (\<lambda>s. s = svService))\<^sup>*\<^sup>* (exNow, svLedger [] [], []) (exNow, l, [Done (ReserveReply (Inr reply))]) \<and>
     rowsOf l = [x] \<and> vo_VaultID x = ''v1'' \<and> vo_AmountSats x = 500 \<and> heldOutflow exNow ''v1'' (rowsOf l) \<le> 100000 \<and>
     oneActive (l_db l) \<and> noOverlap (l_db l)"
proof -
  obtain l x reply where r: "(sysStep svLib svPacks (\<lambda>s. s = svService))\<^sup>*\<^sup>* (exNow, svLedger [] [], []) (exNow, l, [Done (ReserveReply (Inr reply))])"
    "rowsOf l = [x] \<and> vo_VaultID x = ''v1'' \<and> vo_AmountSats x = 500"
    using svReserveServed by blast
  have v: "LoadVault (svLedger [] []) ''v1'' = Inr (Some svVault, None)" using svLedger_vault [of "svLedger [] []"] by simp
  have a: "sint (periodAllowanceSats (Some svVault) None) = 100000" by (simp add: periodAllowanceSats_def)
  have "heldOutflow exNow ''v1'' (rowsOf l) \<le> 100000 \<and> oneActive (l_db l) \<and> noOverlap (l_db l)"
    using spend_service_keeps_allowance [OF r(1) v, unfolded a] by simp
  with r show ?thesis by blast
qed

section \<open>Signatures are accounted for\<close>

lemma reply_stored:
  assumes "(sysStep lib packs svc)\<^sup>*\<^sup>* (t0, l0, []) (t, l, ps)" and "opsInv (l_db l0)" and "Done x \<in> set ps" and "\<not> failed x"
  shows "\<exists>op \<in> set (rowsOf l). says x op"
  using sysRun_safe [OF assms(1,2)] assms(3,4) by (fastforce simp: sysInv_def replyOk_def)













section \<open>Replies agree\<close>

text \<open>The signed packets a reply hands out, with the operation they belong to.\<close>

fun packetsOf :: "spendReply \<Rightarrow> (string \<times> string \<times> string) option" where
  "packetsOf (AuthorizeReply (Inr a)) = Some (ar_OperationID a, ar_AuthorizedPsbt a, ar_AuthorizedPendingProof a)"
| "packetsOf (ViewReply (Inr a)) =
     (if ov_AuthorizedPsbt a \<noteq> [] \<or> ov_AuthorizedPendingProof a \<noteq> []
      then Some (ov_OperationID a, ov_AuthorizedPsbt a, ov_AuthorizedPendingProof a) else None)"
| "packetsOf _ = None"

lemma packets_stored:
  assumes run: "(sysStep lib packs svc)\<^sup>*\<^sup>* (t0, l0, []) (t, l, ps)" "opsInv (l_db l0)" and x: "Done x \<in> set ps"
    and p: "packetsOf x = Some (i, a, b)"
  shows "\<exists>op \<in> set (rowsOf l). vo_OperationID op = i \<and> released op \<and> vo_AuthorizedPSBT op = a \<and> vo_AuthorizedPendingProof op = b"
proof -
  have "\<not> failed x" using p by (cases x rule: packetsOf.cases) simp_all
  from reply_stored [OF run x this] obtain op where "op \<in> set (rowsOf l)" "says x op" by blast
  with p show ?thesis
    by (cases x rule: packetsOf.cases) (auto simp: authorizeResponse_def split: if_splits)
qed

lemma sysRun_unique:
  assumes "(sysStep lib packs svc)\<^sup>*\<^sup>* (t0, l0, []) (t, l, ps)" and "opsInv (l_db l0)" and "r \<in> set (rowsOf l)" and "s \<in> set (rowsOf l)"
    and "vo_OperationID r = vo_OperationID s"
  shows "r = s"
  using sysRun_safe [OF assms(1,2)] opsInv_unique [of "l_db l" r s] assms(3-5) by (simp add: sysInv_def)

text \<open>
  C3. An operation is released once. Along every concurrent run of the handlers, from any ledger whose
  operation ids are distinct, all replies that hand out signed packets of one operation, answers to
  authorizations, to their replays and to status requests alike, hand out the same two packets, and they are
  the ones stored for the operation, which is signed, submitted, finalized or unresolved.
\<close>

theorem spend_released_once:
  assumes "(sysStep lib packs svc)\<^sup>*\<^sup>* (t0, l0, []) (t, l, ps)" and "opsInv (l_db l0)"
    and "Done x \<in> set ps" and "packetsOf x = Some (i, a, b)" and "Done y \<in> set ps" and "packetsOf y = Some (i, a', b')"
  shows "a = a' \<and> b = b' \<and>
    (\<exists>r \<in> set (rowsOf l). vo_OperationID r = i \<and> released r \<and> vo_AuthorizedPSBT r = a \<and> vo_AuthorizedPendingProof r = b)"
  using packets_stored [OF assms(1,2,3,4)] packets_stored [OF assms(1,2,5,6)] sysRun_unique [OF assms(1,2)] by metis

theorem spend_released_once_witness:
  "(sysStep svLib svPacks (\<lambda>s. s = svService))\<^sup>*\<^sup>* (exNow, svLedger [svSignedOp] [], []) (exNow, svLedger [svSignedOp] [], [svViewed, svViewed]) \<and>
   (\<exists>r. r \<in> set (rowsOf (svLedger [svSignedOp] [])) \<and> vo_OperationID r = ''00112233445566778899aabbccddeeff'' \<and> released r \<and>
     vo_AuthorizedPSBT r = ''A'' \<and> vo_AuthorizedPendingProof r = ''B'')"
proof -
  let ?l = "svLedger [svSignedOp] []"
  have l: "enrolledLedger ?l" by (simp add: enrolledLedger_def)
  have s: "(sysStep svLib svPacks (\<lambda>s. s = svService))\<^sup>*\<^sup>* (exNow, ?l, ps) (exNow, ?l, ps @ [svViewed])" for ps
    by (rule serve [OF refl spendRequest.view runsP_map [OF svView [OF l]]]) simp_all
  have run: "(sysStep svLib svPacks (\<lambda>s. s = svService))\<^sup>*\<^sup>* (exNow, ?l, []) (exNow, ?l, [svViewed, svViewed])"
  proof (rule rtranclp_trans)
    show "(sysStep svLib svPacks (\<lambda>s. s = svService))\<^sup>*\<^sup>* (exNow, ?l, []) (exNow, ?l, [svViewed])" using s [of "[]"] by simp
    show "(sysStep svLib svPacks (\<lambda>s. s = svService))\<^sup>*\<^sup>* (exNow, ?l, [svViewed]) (exNow, ?l, [svViewed, svViewed])"
      using s [of "[svViewed]"] by simp
  qed
  have inv: "opsInv (l_db ?l)" by (simp add: opsInv_def)
  have p: "packetsOf (ViewReply (Inr (operationView svSignedOp))) = Some (''00112233445566778899aabbccddeeff'', ''A'', ''B'')"
    by (simp add: operationView_def Let_def)
  from run spend_released_once [OF run inv _ p _ p] show ?thesis by auto
qed

text \<open>
  The operation a reply is evidence of a release of: it hands out signed packets or checkpoints of it, or
  reports it signed, submitted, finalized or unresolved.
\<close>

fun releaseOf :: "spendReply \<Rightarrow> string option" where
  "releaseOf (AuthorizeReply (Inr a)) = Some (ar_OperationID a)"
| "releaseOf (CheckpointReply (Inr a)) = Some (cp_OperationID a)"
| "releaseOf (ViewReply (Inr a)) =
     (if ov_AuthorizedPsbt a \<noteq> [] \<or> ov_AuthorizedPendingProof a \<noteq> [] \<or> ov_CheckpointPsbts a \<noteq> [] \<or>
         ov_State a \<in> {vtxoStateSigned, vtxoStateSubmitted, vtxoStateFinalized, vtxoStateUnresolved}
      then Some (ov_OperationID a) else None)"
| "releaseOf (FinalizeReply (Inr a)) = Some (fr_OperationID a)"
| "releaseOf _ = None"

lemma released_finalized: "vo_State op = vtxoStateFinalized \<Longrightarrow> released op"
  by (simp add: released_def)

lemma release_stored:
  assumes run: "(sysStep lib packs svc)\<^sup>*\<^sup>* (t0, l0, []) (t, l, ps)" "opsInv (l_db l0)" and x: "Done x \<in> set ps"
    and p: "releaseOf x = Some i"
  shows "\<exists>op \<in> set (rowsOf l). vo_OperationID op = i \<and> released op"
proof -
  have "\<not> failed x" using p by (cases x rule: releaseOf.cases) simp_all
  from reply_stored [OF run x this] obtain op where op: "op \<in> set (rowsOf l)" "says x op" by blast
  have "vo_OperationID op = i \<and> released op"
    using op(2) p released_finalized by (cases x rule: releaseOf.cases) (auto simp: authorizeResponse_def split: if_splits)
  with op(1) show ?thesis by blast
qed

text \<open>
  C4. An abort is final. Along every concurrent run of the handlers, once a request to abort an operation
  has succeeded the operation is stored as aborted and holds nothing of the allowance, and no reply of
  the run, earlier or later, is evidence of a release of it: none answers an authorization of its
  transaction or of its checkpoints, none to a status request hands out signed packets or checkpoints of
  it or reports it signed, submitted, finalized or unresolved, and none reports it finalized.
\<close>

theorem spend_abort_final:
  assumes "(sysStep lib packs svc)\<^sup>*\<^sup>* (t0, l0, []) (t, l, ps)" and "opsInv (l_db l0)" and "Done (AbortReply (Inr b)) \<in> set ps"
  shows "(\<exists>r \<in> set (rowsOf l). vo_OperationID r = br_OperationID b \<and> vo_State r = vtxoStateAborted \<and> \<not> held t r) \<and>
    {x. Done x \<in> set ps \<and> releaseOf x = Some (br_OperationID b)} = {}"
proof -
  from reply_stored [OF assms] obtain r where r: "r \<in> set (rowsOf l)" "vo_OperationID r = br_OperationID b" "vo_State r = vtxoStateAborted"
    by auto
  have "releaseOf x \<noteq> Some (br_OperationID b)" if x: "Done x \<in> set ps" for x
  proof
    assume "releaseOf x = Some (br_OperationID b)"
    then obtain q where q: "q \<in> set (rowsOf l)" "vo_OperationID q = br_OperationID b" "released q"
      using release_stored [OF assms(1,2) x] by blast
    have "q = r" by (rule sysRun_unique [OF assms(1,2) q(1) r(1)]) (simp add: q r)
    with q(3) r(3) show False by (simp add: released_def)
  qed
  moreover have "\<not> held t r" using r(3) by (simp add: held_def vtxo_state_defs)
  ultimately show ?thesis using r by blast
qed

theorem spend_abort_final_witness:
  "(sysStep svLib svPacks (\<lambda>s. s = svService))\<^sup>*\<^sup>* (exNow, svLedger [exSealed] [svInput], []) (exNow, svLedger [svAborted] [svInput],
     [Done (AbortReply (Inr \<lparr> br_OperationID = ''00112233445566778899aabbccddeeff'', br_State = ''aborted'' \<rparr>))]) \<and>
   vo_State svAborted = ''aborted'' \<and> \<not> held exNow svAborted"
proof -
  have run: "(sysStep svLib svPacks (\<lambda>s. s = svService))\<^sup>*\<^sup>* (exNow, svLedger [exSealed] [svInput], []) (exNow, svLedger [svAborted] [svInput],
      [] @ [Done (AbortReply (Inr \<lparr> br_OperationID = ''00112233445566778899aabbccddeeff'', br_State = ''aborted'' \<rparr>))])"
    by (rule serve [OF refl spendRequest.abort runsP_map [OF svAbortRun]])
  have inv: "opsInv (l_db (svLedger [exSealed] [svInput]))" by (simp add: opsInv_def locks_def)
  from run spend_abort_final [OF run inv, of "\<lparr> br_OperationID = ''00112233445566778899aabbccddeeff'', br_State = ''aborted'' \<rparr>"]
  show ?thesis by auto
qed

end
