(* ===== verification/Spec2Isabelle.thy ===== *)
theory Spec2Isabelle
  imports VtxoRuns SessionLedger BoardProperties TenantProperties WebAuthnProperties VtxoVerify KeyProvider SpendProperties
begin

text \<open>
  A verification development of the Arkade vault server: its policy ledger (\<open>src/internal/policy\<close> and
  \<open>src/internal/program\<close>), its WebAuthn verifier (\<open>src/internal/webauthn\<close>), and of the application
  layer (\<open>src/internal/application\<close>) the key capabilities, the packet checks and the spending handlers.

  The server co-signs payments of a vault. What it may sign is decided by a ledger in one SQLite
  database: which coins an operation has reserved, how much of the rolling allowance is used, which
  authenticator counters have been seen, which recovery transaction an outpoint was signed for, and
  how far the boarding of a deposit has come. Every row carries a MAC under a 32-byte integrity
  key, and a separate sequence file, itself under a MAC, keeps the number of the ledger's rows, so
  that neither an edited row nor an older copy of the database is trusted. A request to spend is
  first reserved against the allowance, then authorized by the phone (a WebAuthn assertion and a
  direct signature of the reservation's digest), then signed after the client's packets were compared
  with the reservation, and at last observed to be settled, or aborted.

  \<^bold>\<open>The language and its library.\<close>
  \<^item> \<open>Prelude\<close>: Go's integers as words, errors as the sum type \<open>error + 'a\<close>, a SQL table as a list
    of rows with lookup and update, and the lemmas on them the components share.
  \<^item> \<open>Bytes\<close>: strings as bytes, hexadecimal, decimal and little-endian encodings, the parts of
    \<open>strings\<close> the code uses. Case folding and trimming are those of ASCII text.
  \<^item> \<open>Sha256\<close>: SHA-256 and HMAC as functions. Nothing is assumed of them: where a property would
    need collision resistance, it states instead that the alternative is an explicit collision.
  \<^item> \<open>GoTime\<close>: instants as nanoseconds (an \<open>int\<close>), RFC 3339 formatting and parsing.
  \<^item> \<open>Json\<close>: the JSON reader the client data and the stored packet lists go through.
  \<^item> \<open>AppError\<close> (\<open>apperr/apperr.go\<close>): the error codes of the application and the rejections.
  \<^item> \<open>Bitcoin\<close>: transactions and packets as records, and the functions of the third-party Bitcoin and
    Arkade libraries as the fields of the records \<open>BtcLib\<close> and \<open>ArkLib\<close>, arguments of what uses them.
    The one assumption made of them is \<open>codec\<close>: what was encoded decodes to the same packet.

  \<^bold>\<open>The policy ledger.\<close>
  \<^item> \<open>Integrity\<close> (\<open>policy/tenant.go\<close>, \<open>ledger.go\<close>): length-prefixed fields, tagged hashes, and the
    locale \<open>sealed_record\<close>, the contract of a record with a MAC: what is sealed verifies, and a row
    that differs and carries the same code verifies only through a collision. It is interpreted for
    every sealed record of the program.
  \<^item> \<open>Program\<close> (\<open>program/pins.go\<close>, \<open>protection_tier.go\<close>, \<open>spending_policy.go\<close>): the pinned
    parameters of the networks and the spending policy with its JSON and digest.
  \<^item> \<open>Vtxo\<close> (\<open>policy/vtxo.go\<close>): the operation and its inputs, canonical payloads, digests.
  \<^item> \<open>Monotonic\<close> (\<open>policy/monotonic.go\<close>): the sequence file. \<open>file_fault\<close> names the call of the
    operating system that fails; a crash after the rename is a failed directory sync.
  \<^item> \<open>Tenant\<close> (\<open>policy/tenant.go\<close>, \<open>envelope.go\<close>), \<open>Session\<close> (\<open>policy/session.go\<close>) and \<open>Board\<close>
    (\<open>policy/vault_board.go\<close>): the records of the vaults, of the recovery sessions and of boarding,
    with their seals.
  \<^item> \<open>Store\<close> (\<open>policy/schema_core.go\<close>, \<open>schema.go\<close>): the database as a record of tables and the
    inserts with the constraints of the schema, and the record \<open>Ledger\<close>: the database, the network,
    the integrity key and the attached sequence file.
  \<^item> \<open>LedgerCore\<close> (\<open>policy/ledger.go\<close>, \<open>signcount.go\<close>): the rolling window, the authenticator
    counters, and \<open>observeAndCommit\<close>: advance the sequence file, then commit. A method of the ledger
    is a function from the ledger, the clock readings it makes and the faults that strike it to its
    result and the ledger afterwards.
  \<^item> \<open>VtxoLedger\<close> and \<open>VtxoRuns\<close> (\<open>policy/vtxo_ledger.go\<close>): reserving, expiring, moving and signing
    operations; the step relation \<open>vtxoStep\<close> of all calls interleaved with the clock and with what
    other components write; its invariant, and the properties of every run.
  \<^item> \<open>SessionLedger\<close> (\<open>policy/session.go\<close>, \<open>vaultmap.go\<close>): the recovery sessions and the recovery map.
  \<^item> \<open>TenantLedger\<close> and \<open>TenantProperties\<close> (\<open>policy/tenant.go\<close>, \<open>invite.go\<close>, \<open>enrollment_session.go\<close>,
    \<open>pending.go\<close>, \<open>vault_create.go\<close>, \<open>envelope.go\<close>): the tables of enrollment and the creation of a vault.
  \<^item> \<open>BoardLedger\<close> (\<open>policy/vault_board.go\<close>): the methods of the boarding ledger. \<open>BoardRuns\<close>: the
    locale \<open>append_table\<close>, interpreted for its four tables; the invariant of the tables under every
    call; the state machine of one attempt and the refinement of the tables to it. \<open>BoardProgress\<close>:
    what the methods accept, and their behaviour under faults. \<open>BoardProperties\<close>: the properties.

  \<^bold>\<open>Authenticators and keys.\<close>
  \<^item> \<open>Cbor\<close>, \<open>P256\<close>, \<open>WebAuthn\<close> and \<open>WebAuthnProperties\<close> (\<open>webauthn/*.go\<close>): the CBOR subset, DER and
    compact signatures, ECDSA over P-256, and the two ceremonies.
  \<^item> \<open>Cosigner\<close> (\<open>policy/cosigner.go\<close>): the keys of the server for a vault, by HKDF from one secret.
  \<^item> \<open>PsbtGuard\<close> (\<open>application/psbtguard.go\<close>, \<open>vault/prevout.go\<close>, \<open>vault/schnorr.go\<close>) and \<open>KeyProvider\<close>
    (\<open>application/key_provider.go\<close>): the signing stages, the check that a signer added one signature
    and changed nothing else, and the key capabilities built from them.

  \<^bold>\<open>Spending.\<close>
  \<^item> \<open>CoinSelection\<close> (\<open>application/vtxo.go\<close>): which coins pay and at what fee.
  \<^item> \<open>VtxoVerify\<close> (\<open>application/vtxo_verify.go\<close>, \<open>vtxo_pending_proof.go\<close>): the checks of the packets
    against the reservation.
  \<^item> \<open>ContractPack\<close>, \<open>VaultPolicy\<close> and \<open>Service\<close> (\<open>contractpack/pack.go\<close>, \<open>policy/vtxo_script.go\<close>,
    \<open>application/service.go\<close>, \<open>vtxo_tree.go\<close>): the pinned contract, the policy tree of a vault, and the
    service with its published index; the indexer is the record \<open>ArkResolver\<close> of its answers.
  \<^item> \<open>SpendProgram\<close> and \<open>SpendService\<close> (\<open>application/vtxo.go\<close>, \<open>vtxo_abort.go\<close>): the six handlers as
    programs of the type \<open>prog\<close>, which make one ledger call at a time, and the step \<open>stepP\<close> of one call.
  \<^item> \<open>SpendGrowth\<close>, \<open>SpendLogic\<close>, \<open>SpendSafe\<close>, \<open>SpendReplies\<close> and \<open>SpendHandlers\<close>: a rely-guarantee
    logic for these programs. The ledger only grows (\<open>rely\<close>); a program is safe (\<open>wp\<close>) when each of
    its calls respects the ledger in every state the others may leave. The locale \<open>spend_handler\<close> is
    what a handler offers, and each of the six meets it.
  \<^item> \<open>SpendRuns\<close>, \<open>SpendExamples\<close> and \<open>SpendProperties\<close>: the step relation \<open>sysStep\<close> of a process with
    any number of requests at work, its invariant, concrete requests, and the properties of every run.

  \<^bold>\<open>What is shown.\<close> Of the spending service: however requests interleave, the allowance each vault
  enrolled holds, every stored signature is of a packet verified against the reservation its phone
  signed, all replies hand out the same packets, and an abort is final. Of the spending ledger: the
  allowance is never exceeded, a vault has one active operation, an outpoint one lock, an operation
  one signature; operations only move forward; a reservation that is due is accepted; an older
  database is refused. Of the signers: they add their signatures and nothing else; a verified
  transaction conserves value; the keys of different contexts are separated; the coins selected are
  the fewest that pay, at the Operator's own price. Of WebAuthn: what an assertion is accepted for,
  the decoder reads exactly the canonical encodings, and registration reads back what was attested.
  Of enrollment: an invite makes one vault, a vault is created whole or not at all. Of boarding: a
  deposit is settled at most once, the tables implement the state machine of an attempt, an offer is
  repeated only when the previous one is dead, no value is created or lost, the protocol can be
  completed, and crashes are covered. Of the counters and sessions: a counter is used once, an
  outpoint is signed to one destination. Of the records: what is sealed verifies, and what a code or
  digest binds. Three properties state where the code does less than it means to: a fee bump loses
  its signature, the code of an input does not cover the upper half of its index, and the code of a
  counter does not separate its two fields.

  \<^bold>\<open>Bounds.\<close> All functions are total. Loops are recursions over the rows or bytes read, and the
  decoders terminate because every call consumes input; the fee solver is bounded by the code's own
  budget of evaluations, and the search for a valid scalar by the 256 values of its counter. Row counts are below \<open>2 ^ 63\<close> where the count passes through a Go \<open>int64\<close>;
  the hypotheses say so.

  \<^bold>\<open>Not modelled.\<close> SQLite itself (a transaction that is not committed leaves no trace; an insert
  that breaks a constraint fails), opening and migrating the database, secp256k1, scripts and packet
  encodings (parameters), the savings covenant, the handlers of enrollment, recovery and boarding, the
  client of the indexer, and the HTTP interface.
\<close>

end
